(* ===== verification/Prelude.thy ===== *)
theory Prelude
  imports Main "HOL-Library.Word"
begin

text \<open>
  Shared vocabulary of the development: results of fallible Rust functions, 64-bit unsigned
  integers with the saturating and checked operations of the standard library, byte strings with
  the string operations the sources use (blankness, prefixes, splitting, hexadecimal and decimal
  printing) and the two time scales (PostgreSQL instants and millisecond time stamps).
\<close>

section \<open>Results\<close>

text \<open>
  A fallible function of the sources returns \<open>anyhow::Result\<close>; its error is an opaque value of
  which the code only ever looks at the rendered message, so the message is the error value. \<open>Inl\<close>
  is the error.
\<close>

type_synonym 'a result = "string + 'a"

named_theorems res_splits

definition is_ok :: "'a result \<Rightarrow> bool" where
  "is_ok r = (case r of Inl _ \<Rightarrow> False | Inr _ \<Rightarrow> True)"

definition or_err :: "'a option \<Rightarrow> string \<Rightarrow> 'a result" where
  "or_err x msg = (case x of None \<Rightarrow> Inl msg | Some v \<Rightarrow> Inr v)"

lemma is_ok_simps [simp]: "is_ok (Inr v)" "\<not> is_ok (Inl m)"
  by (simp_all add: is_ok_def)

text \<open>The \<open>?\<close> operator.\<close>

definition and_then :: "'a result \<Rightarrow> ('a \<Rightarrow> 'b result) \<Rightarrow> 'b result" where
  "and_then r f = (case r of Inl m \<Rightarrow> Inl m | Inr v \<Rightarrow> f v)"

text \<open>\<open>if bad { bail!(msg) }\<close>\<close>

definition bail_if :: "bool \<Rightarrow> string \<Rightarrow> unit result" where
  "bail_if bad msg = (if bad then Inl msg else Inr ())"

lemma and_then_simps [simp]:
  "and_then (Inr v) f = f v" "and_then (Inl m) f = Inl m"
  by (simp_all add: and_then_def)

lemma and_then_Inr_iff: "and_then r f = Inr v \<longleftrightarrow> (\<exists>x. r = Inr x \<and> f x = Inr v)"
  by (cases r) auto

lemma bail_if_Inr [simp]: "bail_if b m = Inr u \<longleftrightarrow> \<not> b"
  by (simp add: bail_if_def)

lemma is_ok_and_then: "is_ok (and_then r f) \<longleftrightarrow> (\<exists>x. r = Inr x \<and> is_ok (f x))"
  by (cases r) auto

lemma is_ok_bail_if [simp]: "is_ok (bail_if b m) \<longleftrightarrow> \<not> b"
  by (simp add: bail_if_def)

lemma is_ok_iff: "is_ok r \<longleftrightarrow> (\<exists>v. r = Inr v)"
  by (cases r) (auto simp: is_ok_def)

lemma or_err_simps [simp]:
  "or_err (Some v) m = Inr v" "or_err None m = Inl m"
  by (simp_all add: or_err_def)

lemma or_err_Inr_iff [simp]: "or_err x m = Inr v \<longleftrightarrow> x = Some v"
  by (cases x) auto

section \<open>64-bit unsigned integers\<close>

type_synonym u64 = "64 word"

abbreviation u64_max :: u64 where "u64_max \<equiv> - 1"

abbreviation i64_max :: int where "i64_max \<equiv> 9223372036854775807"

named_theorems u64_simps

definition sat_add :: "u64 \<Rightarrow> u64 \<Rightarrow> u64" where
  "sat_add a b = (if unat a + unat b < 2 ^ 64 then a + b else u64_max)"

definition sat_mul :: "u64 \<Rightarrow> u64 \<Rightarrow> u64" where
  "sat_mul a b = (if unat a * unat b < 2 ^ 64 then a * b else u64_max)"

definition sat_sub :: "u64 \<Rightarrow> u64 \<Rightarrow> u64" where
  "sat_sub a b = (if b \<le> a then a - b else 0)"

definition checked_mul :: "u64 \<Rightarrow> u64 \<Rightarrow> u64 option" where
  "checked_mul a b = (if unat a * unat b < 2 ^ 64 then Some (a * b) else None)"

lemma unat_u64_max [simp]: "unat u64_max = 2 ^ 64 - 1"
  by (simp add: unsigned_minus_1_eq_mask mask_eq_exp_minus_1)

lemma unat_u64_bound: "unat (a :: u64) \<le> 2 ^ 64 - 1"
  using unsigned_less [where ?'a = nat, of a] by simp

lemma unat_sat_add [u64_simps]: "unat (sat_add a b) = min (unat a + unat b) (2 ^ 64 - 1)"
proof (cases "unat a + unat b < 2 ^ 64")
  case True
  then have "unat (a + b) = unat a + unat b" by (simp add: unat_word_ariths)
  with True show ?thesis by (simp add: sat_add_def)
qed (simp add: sat_add_def)

lemma unat_sat_mul [u64_simps]: "unat (sat_mul a b) = min (unat a * unat b) (2 ^ 64 - 1)"
proof (cases "unat a * unat b < 2 ^ 64")
  case True
  then have "unat (a * b) = unat a * unat b" by (simp add: unat_word_ariths)
  with True show ?thesis by (simp add: sat_mul_def)
qed (simp add: sat_mul_def)

lemma unat_sat_sub [u64_simps]: "unat (sat_sub a b) = unat a - unat b"
  by (auto simp: sat_sub_def unat_sub word_le_nat_alt)

lemma unat_u64_div [u64_simps]: "unat ((a :: u64) div b) = unat a div unat b"
  by (rule unat_div)

lemma checked_mul_Some_iff:
  "checked_mul a b = Some c \<longleftrightarrow> unat a * unat b < 2 ^ 64 \<and> unat c = unat a * unat b"
proof -
  have "unat a * unat b < 2 ^ 64 \<Longrightarrow> unat (a * b) = unat a * unat b"
    by (simp add: unat_word_ariths)
  then show ?thesis by (auto simp: checked_mul_def word_eq_iff_unsigned [where ?'a = nat])
qed

text \<open>A saturating sum never shrinks and a saturating product is monotone in each argument.\<close>

lemma sat_add_mono: "a \<le> a' \<Longrightarrow> b \<le> b' \<Longrightarrow> sat_add a b \<le> sat_add a' b'"
  by (auto simp: word_le_nat_alt unat_sat_add)

lemma sat_mul_mono: "a \<le> a' \<Longrightarrow> b \<le> b' \<Longrightarrow> sat_mul a b \<le> sat_mul a' b'"
  using mult_le_mono [of "unat a" "unat a'" "unat b" "unat b'"]
  by (auto simp: word_le_nat_alt unat_sat_mul min_def)

lemma le_sat_add: "a \<le> sat_add a b"
  using unat_u64_bound [of a] by (simp add: word_le_nat_alt unat_sat_add)

text \<open>
  A percentage of a saturated product is at most the same percentage of the true product, and it
  is far from the maximum; so comparing a saturated demand with it decides the true inequality.
\<close>

lemma saturated_budget_sound:
  assumes "d \<le> sat_mul l p div 100" and "unat d = min n (2 ^ 64 - 1)"
  shows "n \<le> unat l * unat p div 100"
proof -
  have "unat d \<le> min (unat l * unat p) (2 ^ 64 - 1) div 100"
    using assms(1) by (simp add: word_le_nat_alt unat_sat_mul unat_u64_div)
  moreover have "min (unat l * unat p) (2 ^ 64 - 1) div 100 \<le> unat l * unat p div 100"
    by (simp add: div_le_mono)
  moreover have "min (unat l * unat p) (2 ^ 64 - 1) div 100 < 2 ^ 64 - 1"
    by (rule le_less_trans [of _ "(2 ^ 64 - 1) div 100"]) (auto intro: div_le_mono)
  ultimately show ?thesis using assms(2) by linarith
qed

text \<open>\<open>i64::try_from\<close> of a non-negative quantity.\<close>

definition i64_try_from :: "nat \<Rightarrow> string \<Rightarrow> int result" where
  "i64_try_from n msg = (if int n \<le> i64_max then Inr (int n) else Inl msg)"

lemma i64_try_from_Inr [simp]: "i64_try_from n m = Inr v \<longleftrightarrow> int n \<le> i64_max \<and> v = int n"
  by (auto simp: i64_try_from_def)

section \<open>Time\<close>

text \<open>
  A PostgreSQL or chrono instant is a number of microseconds since the epoch, a Rust
  \<open>Duration\<close> of the configuration a number of milliseconds.
\<close>

type_synonym instant = int
type_synonym duration = nat

definition interval_ms :: "int \<Rightarrow> int" where
  "interval_ms n = n * 1000"

text \<open>\<open>(EXTRACT(EPOCH FROM t) * 1000)::BIGINT\<close> rounds to the nearest millisecond.\<close>

definition epoch_ms :: "instant \<Rightarrow> int" where
  "epoch_ms t = (t + 500) div 1000"

text \<open>\<open>t.timestamp_millis() as u64\<close>\<close>

definition millis_u64 :: "instant \<Rightarrow> u64" where
  "millis_u64 t = word_of_int (t div 1000)"

text \<open>\<open>t.timestamp_millis().max(0) as u64\<close>\<close>

definition timestamp_ms :: "instant \<Rightarrow> u64" where
  "timestamp_ms t = word_of_int (max 0 (t div 1000))"

section \<open>Byte strings\<close>

text \<open>
  A Rust \<open>String\<close> is a sequence of UTF-8 bytes; a \<open>char\<close> of HOL is one byte, so \<open>length\<close> is
  \<open>len()\<close> and string equality is byte equality.
\<close>

definition starts_with :: "string \<Rightarrow> string \<Rightarrow> bool" where
  "starts_with w s \<longleftrightarrow> take (length w) s = w"

definition strip_prefix :: "string \<Rightarrow> string \<Rightarrow> string option" where
  "strip_prefix w s = (if starts_with w s then Some (drop (length w) s) else None)"

fun contains :: "string \<Rightarrow> string \<Rightarrow> bool" where
  "contains w [] = (w = [])"
| "contains w (c # cs) = (starts_with w (c # cs) \<or> contains w cs)"

text \<open>
  \<open>s.trim().is_empty()\<close>: every character has the Unicode property White\_Space. The list holds the
  UTF-8 encodings of those characters.
\<close>

definition ws_encodings :: "string list" where
  "ws_encodings =
     [[CHR 0x09], [CHR 0x0A], [CHR 0x0B], [CHR 0x0C], [CHR 0x0D], [CHR 0x20],
      [CHR 0xC2, CHR 0x85], [CHR 0xC2, CHR 0xA0], [CHR 0xE1, CHR 0x9A, CHR 0x80],
      [CHR 0xE2, CHR 0x80, CHR 0x80], [CHR 0xE2, CHR 0x80, CHR 0x81],
      [CHR 0xE2, CHR 0x80, CHR 0x82], [CHR 0xE2, CHR 0x80, CHR 0x83],
      [CHR 0xE2, CHR 0x80, CHR 0x84], [CHR 0xE2, CHR 0x80, CHR 0x85],
      [CHR 0xE2, CHR 0x80, CHR 0x86], [CHR 0xE2, CHR 0x80, CHR 0x87],
      [CHR 0xE2, CHR 0x80, CHR 0x88], [CHR 0xE2, CHR 0x80, CHR 0x89],
      [CHR 0xE2, CHR 0x80, CHR 0x8A], [CHR 0xE2, CHR 0x80, CHR 0xA8],
      [CHR 0xE2, CHR 0x80, CHR 0xA9], [CHR 0xE2, CHR 0x80, CHR 0xAF],
      [CHR 0xE2, CHR 0x81, CHR 0x9F], [CHR 0xE3, CHR 0x80, CHR 0x80]]"

lemma ws_encodings_nonempty: "w \<in> set ws_encodings \<Longrightarrow> 0 < length w"
  by (auto simp: ws_encodings_def)

function blank :: "string \<Rightarrow> bool" where
  "blank s =
     (if s = [] then True
      else case find (\<lambda>w. starts_with w s) ws_encodings of
             None \<Rightarrow> False
           | Some w \<Rightarrow> blank (drop (length w) s))"
  by pat_completeness auto
termination
proof (relation "measure length")
  fix s :: string and w
  assume "s \<noteq> []" and "find (\<lambda>w. starts_with w s) ws_encodings = Some w"
  then have "w \<in> set ws_encodings" by (auto simp: find_Some_iff)
  then have "0 < length w" by (rule ws_encodings_nonempty)
  with \<open>s \<noteq> []\<close> show "(drop (length w) s, s) \<in> measure length" by simp
qed simp

declare blank.simps [simp del]

text \<open>\<open>s.trim()\<close>: white space is dropped at the start, then at the end.\<close>

function trim_start_of :: "string list \<Rightarrow> string \<Rightarrow> string" where
  "trim_start_of ws s =
     (case find (\<lambda>w. w \<noteq> [] \<and> s \<noteq> [] \<and> starts_with w s) ws of
        None \<Rightarrow> s
      | Some w \<Rightarrow> trim_start_of ws (drop (length w) s))"
  by pat_completeness auto
termination
  by (relation "measure (\<lambda>(ws, s). length s)") (auto simp: find_Some_iff)

declare trim_start_of.simps [simp del]

definition trim :: "string \<Rightarrow> string" where
  "trim s = rev (trim_start_of (map rev ws_encodings) (rev (trim_start_of ws_encodings s)))"

text \<open>\<open>split_once(c)\<close> and \<open>split(c)\<close>\<close>

fun split_once :: "char \<Rightarrow> string \<Rightarrow> (string \<times> string) option" where
  "split_once c [] = None"
| "split_once c (x # xs) =
     (if x = c then Some ([], xs)
      else map_option (\<lambda>(a, b). (x # a, b)) (split_once c xs))"

fun split_on :: "char \<Rightarrow> string \<Rightarrow> string list" where
  "split_on c [] = [[]]"
| "split_on c (x # xs) =
     (if x = c then [] # split_on c xs
      else case split_on c xs of [] \<Rightarrow> [[x]] | p # ps \<Rightarrow> (x # p) # ps)"

lemma split_once_append: "c \<notin> set a \<Longrightarrow> split_once c (a @ c # b) = Some (a, b)"
  by (induction a) auto

lemma split_once_Some:
  "split_once c s = Some (a, b) \<longleftrightarrow> s = a @ c # b \<and> c \<notin> set a"
proof
  show "split_once c s = Some (a, b) \<Longrightarrow> s = a @ c # b \<and> c \<notin> set a"
    by (induction s arbitrary: a) (auto split: if_splits)
qed (auto simp: split_once_append)

lemma split_on_no_sep: "c \<notin> set s \<Longrightarrow> split_on c s = [s]"
  by (induction s) auto

lemma split_on_append: "c \<notin> set a \<Longrightarrow> split_on c (a @ c # b) = a # split_on c b"
  by (induction a) auto

text \<open>\<open>trim_end_matches('/')\<close>\<close>

definition trim_end_slashes :: "string \<Rightarrow> string" where
  "trim_end_slashes s = rev (dropWhile (\<lambda>c. c = CHR ''/'') (rev s))"

subsection \<open>Decimal and hexadecimal\<close>

function decimal :: "nat \<Rightarrow> string" where
  "decimal n = (if n < 10 then [char_of (48 + n)] else decimal (n div 10) @ [char_of (48 + n mod 10)])"
  by pat_completeness auto
termination by (relation "measure id") auto

declare decimal.simps [simp del]

text \<open>
  \<open>str::parse\<close> at an unsigned integer type with maximum \<open>m\<close>: an optional plus sign, then at least one
  decimal digit and nothing else, without overflow.
\<close>

definition from_decimal :: "string \<Rightarrow> nat" where
  "from_decimal s = foldl (\<lambda>a c. 10 * a + (of_char c - 48)) 0 s"

definition is_decimal :: "string \<Rightarrow> bool" where
  "is_decimal s \<longleftrightarrow> s \<noteq> [] \<and> list_all (\<lambda>c. 48 \<le> (of_char c :: nat) \<and> (of_char c :: nat) \<le> 57) s"

definition parse_unsigned :: "nat \<Rightarrow> string \<Rightarrow> nat option" where
  "parse_unsigned m s =
     (let d = (case s of c # cs \<Rightarrow> if c = CHR ''+'' then cs else s | [] \<Rightarrow> s)
      in if is_decimal d \<and> from_decimal d \<le> m then Some (from_decimal d) else None)"

definition hex_digit :: "nat \<Rightarrow> char" where
  "hex_digit n = char_of (if n < 10 then 48 + n else 87 + n)"

definition hex_value :: "char \<Rightarrow> nat option" where
  "hex_value c =
     (let n = of_char c in
      if 48 \<le> n \<and> n \<le> 57 then Some (n - 48)
      else if 97 \<le> n \<and> n \<le> 102 then Some (n - 87)
      else if 65 \<le> n \<and> n \<le> 70 then Some (n - 55)
      else None)"

definition hex_byte :: "char \<Rightarrow> string" where
  "hex_byte c = [hex_digit (of_char c div 16), hex_digit (of_char c mod 16)]"

definition hex_encode :: "string \<Rightarrow> string" where
  "hex_encode s = concat (map hex_byte s)"

fun hex_decode :: "string \<Rightarrow> string option" where
  "hex_decode [] = Some []"
| "hex_decode [c] = None"
| "hex_decode (a # b # cs) =
     (case (hex_value a, hex_value b, hex_decode cs) of
        (Some h, Some l, Some r) \<Rightarrow> Some (char_of (16 * h + l) # r)
      | _ \<Rightarrow> None)"

definition is_hex_string :: "string \<Rightarrow> bool" where
  "is_hex_string s \<longleftrightarrow> list_all (\<lambda>c. hex_value c \<noteq> None) s"

lemma of_char_of_small: "n < 256 \<Longrightarrow> of_char (char_of n :: char) = (n :: nat)"
  by (simp add: of_char_of)

lemma hex_value_digit [simp]:
  assumes "n < 16"
  shows "hex_value (hex_digit n) = Some n"
  using assms by (simp add: hex_value_def hex_digit_def of_char_of_small Let_def)

lemma of_char_bound: "(of_char (c :: char) :: nat) < 256"
proof -
  have "of_char (char_of (of_char c :: nat) :: char) = (of_char c :: nat) mod 256"
    by (rule of_char_of)
  then have "(of_char c :: nat) = of_char c mod 256" by simp
  then show ?thesis by (metis mod_less_divisor zero_less_numeral)
qed

lemma of_char_nibble: "(of_char (c :: char) :: nat) div 16 < 16"
  using of_char_bound [of c] by (simp add: div_less_iff_less_mult)

lemma hex_decode_byte [simp]:
  "hex_decode (hex_byte c @ s) = map_option (\<lambda>r. c # r) (hex_decode s)"
proof -
  have "(of_char c :: nat) div 16 < 16" by (rule of_char_nibble)
  then show ?thesis by (simp add: hex_byte_def split: option.splits)
qed

lemma hex_round_trip: "hex_decode (hex_encode s) = Some s"
  by (induction s) (simp_all add: hex_encode_def)

lemma hex_encode_inject: "hex_encode a = hex_encode b \<Longrightarrow> a = b"
  by (metis hex_round_trip option.inject)

lemma hex_digit_neq_dot: "n < 16 \<Longrightarrow> hex_digit n \<noteq> CHR ''.''"
proof
  assume "n < 16" and "hex_digit n = CHR ''.''"
  then have "hex_value (CHR ''.'') = Some n" using hex_value_digit [of n] by simp
  then show False by (simp add: hex_value_def)
qed

lemma hex_encode_no_dot: "CHR ''.'' \<notin> set (hex_encode s)"
proof -
  have "CHR ''.'' \<notin> set (hex_byte c)" for c
    using hex_digit_neq_dot [of "of_char c div 16"] hex_digit_neq_dot [of "of_char c mod 16"]
      of_char_nibble [of c]
    by (auto simp: hex_byte_def)
  then show ?thesis by (auto simp: hex_encode_def)
qed

lemma hex_encode_chars:
  assumes "c \<in> set (hex_encode s)" shows "hex_value c \<noteq> None"
proof -
  obtain b where "c \<in> set (hex_byte b)" using assms by (auto simp: hex_encode_def)
  moreover have "(of_char b :: nat) div 16 < 16" by (rule of_char_nibble)
  ultimately show ?thesis by (auto simp: hex_byte_def)
qed

subsection \<open>Length-prefixed keys\<close>

text \<open>
  \<open>format!("{}:{a}{b}", a.len())\<close>: the decimal length of the first component, a colon, and the two
  components. The length tells where the first component ends, so the key determines both.
\<close>

definition length_prefixed :: "string \<Rightarrow> string \<Rightarrow> string" where
  "length_prefixed a b = decimal (length a) @ '':'' @ a @ b"

lemma decimal_digits: "c \<in> set (decimal n) \<Longrightarrow> 48 \<le> (of_char c :: nat) \<and> (of_char c :: nat) \<le> 57"
proof (induction n rule: decimal.induct)
  case (1 n)
  show ?case
  proof (cases "n < 10")
    case True
    with "1.prems" show ?thesis by (simp add: decimal.simps [of n] of_char_of_small)
  next
    case False
    with "1" show ?thesis
      by (auto simp: decimal.simps [of n] of_char_of_small)
  qed
qed

lemma colon_not_decimal: "CHR '':'' \<notin> set (decimal n)"
  using decimal_digits [of "CHR '':''" n] by auto

lemma from_decimal_decimal: "from_decimal (decimal n) = n"
proof (induction n rule: decimal.induct)
  case (1 n)
  show ?case
  proof (cases "n < 10")
    case True
    then show ?thesis by (simp add: decimal.simps [of n] from_decimal_def of_char_of_small)
  next
    case False
    with "1" have "from_decimal (decimal (n div 10)) = n div 10" by simp
    with False show ?thesis
      by (simp add: decimal.simps [of n] from_decimal_def of_char_of_small)
  qed
qed

lemma decimal_nonempty: "decimal n \<noteq> []"
  by (subst decimal.simps) simp

lemma parse_decimal:
  assumes "n \<le> m"
  shows "parse_unsigned m (decimal n) = Some n"
proof -
  obtain c cs where c: "decimal n = c # cs" using decimal_nonempty [of n] by (cases "decimal n") auto
  then have "c \<in> set (decimal n)" by simp
  then have "c \<noteq> CHR ''+''" using decimal_digits [of c n] by auto
  then have "(case decimal n of c # cs \<Rightarrow> if c = CHR ''+'' then cs else decimal n | [] \<Rightarrow> decimal n)
    = decimal n"
    by (simp add: c)
  moreover have "is_decimal (decimal n)"
    by (auto simp: is_decimal_def decimal_nonempty list_all_iff dest: decimal_digits)
  ultimately show ?thesis
    using assms by (simp add: parse_unsigned_def Let_def from_decimal_decimal)
qed

lemma length_prefixed_inject:
  assumes "length_prefixed a b = length_prefixed a' b'"
  shows "a = a' \<and> b = b'"
proof -
  have *: "split_once (CHR '':'') (length_prefixed x y) = Some (decimal (length x), x @ y)" for x y
    by (simp add: length_prefixed_def split_once_append colon_not_decimal)
  have "decimal (length a) = decimal (length a') \<and> a @ b = a' @ b'"
    using * [of a b] * [of a' b'] assms by simp
  moreover from this have "length a = length a'" by (metis from_decimal_decimal)
  ultimately show ?thesis by simp
qed

end
