(* ===== verification/Wire_Types.thy ===== *)
theory Wire_Types
  imports Prelude "HOL-Library.Char_ord" "HOL-Library.List_Lexorder"
begin

text \<open>
  The data the message gateway exchanges with the Wattswarm crates and the functions it calls
  there. Those crates are not part of this repository: their data appears with the constructors
  and fields the gateway names, and their functions (signature verification, hashing, JSON
  encoding, route construction, scope labels, delivery classification) are the fields of the
  record \<open>externs\<close>, an argument \<open>E\<close> of every definition that calls one. What a theorem needs of
  them is a hypothesis of that theorem.
\<close>

section \<open>Data\<close>

datatype delivery_class = Interactive | Bulk

text \<open>\<open>DeliveryClass::ALL\<close> and \<open>as_str\<close>, with the labels the SQL of the gateway spells out.\<close>

definition all_classes :: "delivery_class list" where
  "all_classes = [Interactive, Bulk]"

fun class_str :: "delivery_class \<Rightarrow> string" where
  "class_str Interactive = ''interactive''"
| "class_str Bulk = ''bulk''"

datatype swarm_scope = Global | Region string | Node string | Group string

datatype scope_hint = HintGlobal | HintRegion string | HintNode string | HintGroup string

datatype lane = Events | Messages | Rules | Checkpoints | Summaries

datatype urgency = ExplicitRecipient | TimeSensitiveControl | Background

datatype gap_reason = Expired | DeliveryLimitExceeded | AdministrativeRemoval

datatype role = Proposer | Verifier | Committer | Finalizer

datatype history_status = HistoryUnavailable | CurrentMailboxOnly

text \<open>\<open>EventTransportRoute\<close>: the three fields the gateway reads and the rest, which only equality sees.\<close>

record route =
  rt_scope :: swarm_scope
  rt_lane :: lane
  rt_address :: string
  rt_rest :: string

type_synonym membership = "(string \<times> role list) list"

record signature_envelope =
  sg_signer_node_id :: string
  sg_signature_hex :: string

record membership_updated =
  mu_new_membership :: membership
  mu_quorum_threshold :: nat
  mu_quorum_signatures :: "signature_envelope list"

record feed_subscription =
  fs_scope :: "scope_hint option"
  fs_subscriber_node_id :: string
  fs_active :: bool

datatype event_payload =
    MembershipUpdated membership_updated
  | FeedSubscriptionUpdated feed_subscription
  | PolicyTuned
  | NetworkParamsUpdated
  | CheckpointCreated
  | AdvisoryCreated
  | AdvisoryApproved
  | AdvisoryApplied
  | EventRevoked
  | SummaryRevoked
  | NodePenalized
  | OtherPayload string

text \<open>\<open>event_kind\<close> is the \<open>Debug\<close> rendering of the enumeration, the only form the gateway uses.\<close>

record event =
  ev_event_id :: string
  ev_author_node_id :: string
  ev_swarm_scope :: string
  ev_event_kind :: string
  ev_payload :: event_payload
  ev_signature_hex :: string

record rule_announcement =
  ra_scope :: swarm_scope
  ra_body :: string
  ra_signer :: "string option"
  ra_signature :: "string option"

record checkpoint_announcement =
  ca_checkpoint_id :: string
  ca_scope :: swarm_scope
  ca_body :: string
  ca_signer :: "string option"
  ca_signature :: "string option"

record summary_announcement =
  sa_summary_id :: string
  sa_source_node_id :: string
  sa_scope :: swarm_scope

datatype payload_type = PEvent | PMessage | PRule | PCheckpoint | PSummary

record publish_frame =
  pf_framing_version :: string
  pf_delivery_policy_version :: u64
  pf_record_id :: string
  pf_network_id :: string
  pf_transport :: route
  pf_payload_type :: payload_type
  pf_payload :: string

record publish_acceptance =
  pa_publish_receipt :: string
  pa_record_id :: string
  pa_delivery_class :: delivery_class
  pa_delivery_policy_version :: u64
  pa_membership_version :: "string option"

record control_frame =
  cf_framing_version :: string
  cf_network_id :: string
  cf_source_principal_id :: string
  cf_target_principal_id :: string
  cf_correlation_id :: string
  cf_control_kind :: string
  cf_payload :: string
  cf_signature_hex :: string

record control_acceptance =
  ka_correlation_id :: string
  ka_delivery_id :: string

record grant =
  gr_network_id :: string
  gr_principal_id :: string
  gr_issued_at :: u64
  gr_expires_at :: "u64 option"
  gr_rest :: string

record grant_admission =
  ga_network_id :: string
  ga_principal_id :: string
  ga_membership_version :: string
  ga_status :: string

record principal_claim =
  pc_principal_id :: string
  pc_public_key_hex :: string
  pc_tenant_instance_id :: "string option"

record principal_proof =
  pp_principal_id :: string
  pp_signature_hex :: string

record challenge_request =
  cq_network_id :: string
  cq_principals :: "principal_claim list"

record challenge_response =
  cr_challenge_id :: string
  cr_nonce :: string
  cr_expires_at :: u64

record session_proof_request =
  sq_network_id :: string
  sq_challenge_id :: string
  sq_principals :: "principal_claim list"
  sq_proofs :: "principal_proof list"
  sq_delivery_policy_version :: u64

record session_response =
  sr_session_token :: string
  sr_network_id :: string
  sr_principal_id :: string
  sr_delivery_policy_version :: u64
  sr_history_status :: history_status
  sr_expires_at :: u64

record mailbox_gap =
  mg_gap_id :: string
  mg_delivery_class :: delivery_class
  mg_delivery_policy_version :: u64
  mg_route :: route
  mg_reason :: gap_reason
  mg_first_affected_at :: u64
  mg_last_affected_at :: u64
  mg_approximate_count :: u64

record mailbox_delivery =
  md_delivery_id :: string
  md_record_id :: string
  md_route :: route
  md_record :: string
  md_membership_version :: "string option"
  md_enqueued_at :: u64
  md_expires_at :: "u64 option"

record mailbox_control_delivery =
  mc_delivery_id :: string
  mc_correlation_id :: string
  mc_source_principal_id :: string
  mc_target_principal_id :: string
  mc_control_kind :: string
  mc_payload :: string
  mc_enqueued_at :: u64
  mc_expires_at :: "u64 option"

record mailbox_binding =
  bn_network_id :: string
  bn_recipient_principal_id :: string
  bn_delivery_class :: delivery_class

record commit_claims =
  cc_page_id :: string
  cc_network_id :: string
  cc_principal_id :: string
  cc_delivery_class :: delivery_class
  cc_owner_instance_id :: string
  cc_consumer_epoch :: string
  cc_expires_at :: u64

record delivery_page =
  dp_page_id :: string
  dp_binding :: mailbox_binding
  dp_deliveries :: "mailbox_delivery list"
  dp_controls :: "mailbox_control_delivery list"
  dp_gaps :: "mailbox_gap list"
  dp_commit_token :: string

record commit_request =
  mr_page_id :: string
  mr_delivery_class :: delivery_class
  mr_commit_token :: string

section \<open>Functions of the other crates\<close>

record externs =
  x_policy_version :: u64
  x_sha256 :: "string \<Rightarrow> string"
  x_hmac :: "string \<Rightarrow> string \<Rightarrow> string"
  x_verify_signature :: "string \<Rightarrow> string \<Rightarrow> string \<Rightarrow> unit result"
  x_verify_event_signature :: "event \<Rightarrow> unit result"
  x_verify_grant :: "grant \<Rightarrow> string \<Rightarrow> u64 \<Rightarrow> unit result"
  x_grant_id :: "grant \<Rightarrow> string result"
  x_scope_label :: "swarm_scope \<Rightarrow> string result"
  x_lane_str :: "lane \<Rightarrow> string"
  x_route_from_kind :: "swarm_scope \<Rightarrow> lane \<Rightarrow> string \<Rightarrow> bool \<Rightarrow> route result"
  x_parse_scope :: "string \<Rightarrow> scope_hint option"
  x_class_for_record :: "lane \<Rightarrow> urgency \<Rightarrow> delivery_class"
  x_stable_delivery_id :: "string \<Rightarrow> string \<Rightarrow> string \<Rightarrow> string option \<Rightarrow> string result"
  x_session_proof_message :: "string \<Rightarrow> principal_claim list \<Rightarrow> challenge_response \<Rightarrow> string result"
  x_control_message :: "control_frame \<Rightarrow> string result"
  x_decode_event :: "string \<Rightarrow> event result"
  x_decode_rule :: "string \<Rightarrow> rule_announcement result"
  x_decode_checkpoint :: "string \<Rightarrow> checkpoint_announcement result"
  x_decode_summary :: "string \<Rightarrow> summary_announcement result"
  x_rule_message :: "rule_announcement \<Rightarrow> string"
  x_checkpoint_message :: "checkpoint_announcement \<Rightarrow> string"
  x_membership_bytes :: "membership \<Rightarrow> string"
  x_route_bytes :: "route \<Rightarrow> string"
  x_control_binding_bytes :: "control_frame \<Rightarrow> string"
  x_tuple_bytes :: "string list \<Rightarrow> string"
  x_gap_bytes :: "string \<Rightarrow> string \<Rightarrow> delivery_class \<Rightarrow> u64 \<Rightarrow> route \<Rightarrow> gap_reason \<Rightarrow> u64 \<Rightarrow> string"
  x_uuid_of_bytes :: "string \<Rightarrow> string"
  x_claims_bytes :: "commit_claims \<Rightarrow> string"
  x_decode_claims :: "string \<Rightarrow> commit_claims result"
  x_commit_token :: "string \<Rightarrow> string result"
  x_validate_page :: "delivery_page \<Rightarrow> unit result"
  x_parse_uuid :: "string \<Rightarrow> string result"
  x_history_label :: "history_status \<Rightarrow> string"
  x_json_scope :: "swarm_scope \<Rightarrow> string"
  x_json_lane :: "lane \<Rightarrow> string"
  x_json_class :: "delivery_class \<Rightarrow> string"

definition sha256_hex :: "externs \<Rightarrow> string \<Rightarrow> string" where
  "sha256_hex E s = hex_encode (x_sha256 E s)"

text \<open>\<open>BTreeSet<String>\<close>: its elements in ascending order, each once.\<close>

definition btree_set :: "string list \<Rightarrow> string list" where
  "btree_set xs = sort (remdups xs)"

section \<open>Lemmas\<close>

lemma class_str_inject [simp]: "class_str a = class_str b \<longleftrightarrow> a = b"
  by (cases a; cases b) simp_all

lemma set_all_classes [simp]: "set all_classes = UNIV"
  using delivery_class.exhaust by (auto simp: all_classes_def)

lemma distinct_all_classes [simp]: "distinct all_classes"
  by (simp add: all_classes_def)

lemma set_btree_set [simp]: "set (btree_set xs) = set xs"
  by (simp add: btree_set_def)

lemma distinct_btree_set [simp]: "distinct (btree_set xs)"
  by (simp add: btree_set_def)

lemma btree_set_cong: "set xs = set ys \<Longrightarrow> btree_set xs = btree_set ys"
  by (simp add: btree_set_def sorted_distinct_set_unique)

lemma length_btree_set: "length (btree_set xs) = card (set xs)"
  by (simp add: btree_set_def length_remdups_card_conv)

end
