(* ===== verification/Sample_Externs.thy ===== *)
theory Sample_Externs
  imports Wire_Types
begin

text \<open>
  One concrete instance of the functions of the other crates, on which the witnesses evaluate the
  model: hashes are the identity, a signature of a message under a key is the key followed by the
  message, and the decoders of payloads accept the empty set. A witness overrides the fields it needs.
\<close>

fun sample_scope_label :: "swarm_scope \<Rightarrow> string" where
  "sample_scope_label Global = ''global''"
| "sample_scope_label (Region r) = ''region:'' @ r"
| "sample_scope_label (Node n) = ''node:'' @ n"
| "sample_scope_label (Group g) = ''group:'' @ g"

fun sample_lane_str :: "lane \<Rightarrow> string" where
  "sample_lane_str Events = ''events''"
| "sample_lane_str Messages = ''messages''"
| "sample_lane_str Rules = ''rules''"
| "sample_lane_str Checkpoints = ''checkpoints''"
| "sample_lane_str Summaries = ''summaries''"

definition sample_route :: "swarm_scope \<Rightarrow> lane \<Rightarrow> string \<Rightarrow> bool \<Rightarrow> route" where
  "sample_route scope l kind b =
     \<lparr>rt_scope = scope, rt_lane = l, rt_address = sample_scope_label scope @ ''/'' @ kind, rt_rest = []\<rparr>"

definition sample_externs :: externs where
  "sample_externs =
    \<lparr>x_policy_version = 1,
     x_sha256 = (\<lambda>s. s),
     x_hmac = (\<lambda>key m. key @ m),
     x_verify_signature = (\<lambda>key m s. if s = key @ m then Inr () else Inl ''signature mismatch''),
     x_verify_event_signature = (\<lambda>e. if ev_signature_hex e = ev_author_node_id e @ ev_event_id e
        then Inr () else Inl ''signature mismatch''),
     x_verify_grant = (\<lambda>g genesis now. if gr_rest g = genesis then Inr () else Inl ''signature mismatch''),
     x_grant_id = (\<lambda>g. Inr (gr_network_id g @ gr_principal_id g)),
     x_scope_label = (\<lambda>s. Inr (sample_scope_label s)),
     x_lane_str = sample_lane_str,
     x_route_from_kind = (\<lambda>s l k b. Inr (sample_route s l k b)),
     x_parse_scope = (\<lambda>s. if s = ''global'' then Some HintGlobal else None),
     x_class_for_record = (\<lambda>l u. if u = Background then Bulk else Interactive),
     x_stable_delivery_id = (\<lambda>n r p v. Inr (n @ r @ p)),
     x_session_proof_message = (\<lambda>n ps ch. Inr (n @ cr_challenge_id ch @ cr_nonce ch)),
     x_control_message = (\<lambda>f. Inr (cf_correlation_id f @ cf_payload f)),
     x_decode_event = (\<lambda>s. Inl ''decode''),
     x_decode_rule = (\<lambda>s. Inl ''decode''),
     x_decode_checkpoint = (\<lambda>s. Inl ''decode''),
     x_decode_summary = (\<lambda>s. Inl ''decode''),
     x_rule_message = ra_body,
     x_checkpoint_message = ca_body,
     x_membership_bytes = (\<lambda>m. concat (map fst m)),
     x_route_bytes = rt_address,
     x_control_binding_bytes = cf_payload,
     x_tuple_bytes = concat,
     x_gap_bytes = (\<lambda>n p c v r reason h. n @ p @ class_str c @ rt_address r @ decimal (unat h)),
     x_uuid_of_bytes = (\<lambda>s. s),
     x_claims_bytes = (\<lambda>c. cc_page_id c @ cc_principal_id c @ decimal (unat (cc_expires_at c))),
     x_decode_claims = (\<lambda>s. Inl ''decode''),
     x_commit_token = Inr,
     x_validate_page = (\<lambda>p. Inr ()),
     x_parse_uuid = Inr,
     x_history_label = (\<lambda>h. case h of HistoryUnavailable \<Rightarrow> ''history_unavailable''
        | CurrentMailboxOnly \<Rightarrow> ''current_mailbox_only''),
     x_json_scope = sample_scope_label,
     x_json_lane = sample_lane_str,
     x_json_class = class_str\<rparr>"

end
