(* ===== verification/Commit_Token.thy ===== *)
theory Commit_Token
  imports Sample_Externs
begin

text \<open>
  Commit tokens (\<open>commit_token.rs\<close>): the claims of a delivered page, authenticated with an HMAC
  under the gateway's secret. The JSON encoding of the claims, the HMAC and the constructor of the
  opaque token are functions of other crates (fields of \<open>externs\<close>).
\<close>

definition issue :: "externs \<Rightarrow> string \<Rightarrow> commit_claims \<Rightarrow> string result" where
  "issue E secret claims =
    (let payload = x_claims_bytes E claims;
         sig = x_hmac E secret payload
     in x_commit_token E (hex_encode payload @ ''.'' @ hex_encode sig))"

definition verify :: "externs \<Rightarrow> string \<Rightarrow> string \<Rightarrow> u64 \<Rightarrow> commit_claims result" where
  "verify E secret token now_ms =
    and_then (or_err (split_once CHR ''.'' token) ''malformed commit token'') (\<lambda>(payload_hex, sig_hex).
    and_then (or_err (hex_decode payload_hex) ''invalid hex'') (\<lambda>payload.
    and_then (or_err (hex_decode sig_hex) ''invalid hex'') (\<lambda>sig.
    and_then (bail_if (x_hmac E secret payload \<noteq> sig) ''MAC tag mismatch'') (\<lambda>_.
    and_then (x_decode_claims E payload) (\<lambda>claims.
    if cc_expires_at claims \<le> now_ms then Inl ''commit token expired'' else Inr claims)))))"

lemma verify_parts:
  "verify E secret (hex_encode payload @ CHR ''.'' # hex_encode sig) now_ms =
     (if x_hmac E secret payload \<noteq> sig then Inl ''MAC tag mismatch''
      else and_then (x_decode_claims E payload) (\<lambda>claims.
        if cc_expires_at claims \<le> now_ms then Inl ''commit token expired'' else Inr claims))"
  by (simp add: verify_def split_once_append [OF hex_encode_no_dot] hex_round_trip bail_if_def)

text \<open>
  C23. A commit token stands for its claims and for nothing else. Verified under the issuing secret
  before the expiry it returns exactly the claims it was issued for; from the expiry on it is
  rejected; and a token whose payload is replaced by that of other claims, or that is verified under
  another secret, is rejected whenever the HMAC of the two differs.
\<close>

theorem commit_token_binds_claims:
  assumes json: "x_decode_claims E (x_claims_bytes E claims) = Inr claims"
    and opaque: "\<And>s t. x_commit_token E s = Inr t \<Longrightarrow> t = s"
    and issued: "issue E secret claims = Inr token"
  shows "verify E secret token now_ms =
      (if now_ms < cc_expires_at claims then Inr claims else Inl ''commit token expired'')
    \<and> (\<forall>forged. x_hmac E secret (x_claims_bytes E forged) \<noteq> x_hmac E secret (x_claims_bytes E claims) \<longrightarrow>
         verify E secret (hex_encode (x_claims_bytes E forged) @ ''.'' @ snd (the (split_once CHR ''.'' token)))
           now_ms = Inl ''MAC tag mismatch'')
    \<and> (\<forall>secret'. x_hmac E secret' (x_claims_bytes E claims) \<noteq> x_hmac E secret (x_claims_bytes E claims) \<longrightarrow>
         verify E secret' token now_ms = Inl ''MAC tag mismatch'')"
proof -
  have token: "token = hex_encode (x_claims_bytes E claims) @ ''.''
      @ hex_encode (x_hmac E secret (x_claims_bytes E claims))"
    using opaque [OF issued [unfolded issue_def Let_def]] .
  have sig: "snd (the (split_once CHR ''.'' token)) = hex_encode (x_hmac E secret (x_claims_bytes E claims))"
    unfolding token by (simp add: split_once_append [OF hex_encode_no_dot])
  show ?thesis unfolding sig unfolding token by (auto simp: verify_parts json not_less)
qed

definition sample_claims :: commit_claims where
  "sample_claims = \<lparr>cc_page_id = ''page'', cc_network_id = ''net'', cc_principal_id = ''alice'',
     cc_delivery_class = Interactive, cc_owner_instance_id = ''gw'', cc_consumer_epoch = ''e'',
     cc_expires_at = 100\<rparr>"

definition claims_externs :: externs where
  "claims_externs = sample_externs\<lparr>x_decode_claims := (\<lambda>s.
     if s = x_claims_bytes sample_externs sample_claims then Inr sample_claims else Inl ''decode'')\<rparr>"

theorem commit_token_binds_claims_witness:
  "\<exists>token. issue claims_externs ''secret'' sample_claims = Inr token
     \<and> verify claims_externs ''secret'' token 99 = Inr sample_claims
     \<and> verify claims_externs ''secret'' token 100 = Inl ''commit token expired''"
proof -
  obtain token where t: "issue claims_externs ''secret'' sample_claims = Inr token"
    by (simp add: issue_def Let_def claims_externs_def sample_externs_def)
  have j: "x_decode_claims claims_externs (x_claims_bytes claims_externs sample_claims) = Inr sample_claims"
    by (simp add: claims_externs_def)
  have o: "x_commit_token claims_externs s = Inr t \<Longrightarrow> t = s" for s t
    by (simp add: claims_externs_def sample_externs_def)
  note b = commit_token_binds_claims [OF j o t, THEN conjunct1]
  show ?thesis using t b [of 99] b [of 100] by (simp add: sample_claims_def)
qed

end
