(* ===== verification/Tables.thy ===== *)
theory Tables
  imports Prelude
begin

text \<open>
  PostgreSQL tables as lists of rows, and the statements the sources run on them: filtered
  updates and deletions with their affected-row counts, plain inserts that fail on a duplicate
  key, and \<open>INSERT .. ON CONFLICT(key) DO UPDATE / DO NOTHING\<close>. A primary key is a function from
  rows to keys; \<open>pk\<close> says that no two rows share one. The locale \<open>keyed_upsert\<close> states the
  contract of one conflict clause (it keeps the key of the row it rewrites) and proves once what
  every upsert of the gateway does to the table.
\<close>

definition pk :: "('r \<Rightarrow> 'k) \<Rightarrow> 'r list \<Rightarrow> bool" where
  "pk key t \<longleftrightarrow> distinct (map key t)"

definition row_of :: "('r \<Rightarrow> 'k) \<Rightarrow> 'k \<Rightarrow> 'r list \<Rightarrow> 'r option" where
  "row_of key k t = find (\<lambda>r. key r = k) t"

definition update_where :: "('r \<Rightarrow> bool) \<Rightarrow> ('r \<Rightarrow> 'r) \<Rightarrow> 'r list \<Rightarrow> 'r list" where
  "update_where P f t = map (\<lambda>r. if P r then f r else r) t"

definition delete_where :: "('r \<Rightarrow> bool) \<Rightarrow> 'r list \<Rightarrow> 'r list" where
  "delete_where P t = filter (\<lambda>r. \<not> P r) t"

definition rows_affected :: "('r \<Rightarrow> bool) \<Rightarrow> 'r list \<Rightarrow> nat" where
  "rows_affected P t = length (filter P t)"

text \<open>\<open>INSERT\<close> without a conflict clause: a duplicate key is an error (\<open>None\<close>).\<close>

definition insert_row :: "('r \<Rightarrow> 'k) \<Rightarrow> 'r \<Rightarrow> 'r list \<Rightarrow> 'r list option" where
  "insert_row key r t = (if key r \<in> key ` set t then None else Some (t @ [r]))"

text \<open>
  \<open>ON CONFLICT(key) DO UPDATE SET .. WHERE ..\<close>: \<open>merge new old\<close> is the rewritten row, or \<open>None\<close> when
  the \<open>WHERE\<close> guard of the update is false (also for \<open>DO NOTHING\<close>).
\<close>

definition resolve :: "('r \<Rightarrow> 'r \<Rightarrow> 'r option) \<Rightarrow> 'r \<Rightarrow> 'r \<Rightarrow> 'r" where
  "resolve merge n e = (case merge n e of None \<Rightarrow> e | Some e' \<Rightarrow> e')"

definition merged :: "('r \<Rightarrow> 'r \<Rightarrow> 'r option) \<Rightarrow> 'r \<Rightarrow> 'r option \<Rightarrow> 'r" where
  "merged merge n old = (case old of None \<Rightarrow> n | Some e \<Rightarrow> resolve merge n e)"

definition upsert :: "('r \<Rightarrow> 'k) \<Rightarrow> ('r \<Rightarrow> 'r \<Rightarrow> 'r option) \<Rightarrow> 'r \<Rightarrow> 'r list \<Rightarrow> 'r list" where
  "upsert key merge n t =
     (if key n \<in> key ` set t
      then map (\<lambda>e. if key e = key n then resolve merge n e else e) t
      else t @ [n])"

definition upsert_count :: "('r \<Rightarrow> 'k) \<Rightarrow> ('r \<Rightarrow> 'r \<Rightarrow> 'r option) \<Rightarrow> 'r \<Rightarrow> 'r list \<Rightarrow> nat" where
  "upsert_count key merge n t =
     (if key n \<in> key ` set t then rows_affected (\<lambda>e. key e = key n \<and> merge n e \<noteq> None) t else 1)"

definition do_nothing :: "'r \<Rightarrow> 'r \<Rightarrow> 'r option" where
  "do_nothing n e = None"

section \<open>Lemmas on rows and keys\<close>

named_theorems tab_simps

lemma row_of_Some: "row_of key k t = Some r \<Longrightarrow> r \<in> set t \<and> key r = k"
  by (auto simp: row_of_def find_Some_iff)

lemma row_of_None: "row_of key k t = None \<longleftrightarrow> k \<notin> key ` set t"
  by (auto simp: row_of_def find_None_iff)

lemma row_of_pk: "pk key t \<Longrightarrow> r \<in> set t \<Longrightarrow> row_of key (key r) t = Some r"
proof (induction t)
  case (Cons a t)
  then show ?case by (cases "r = a") (auto simp: row_of_def pk_def)
qed simp

lemma pk_unique: "pk key t \<Longrightarrow> r \<in> set t \<Longrightarrow> s \<in> set t \<Longrightarrow> key r = key s \<Longrightarrow> r = s"
  by (metis option.inject row_of_pk)

lemma pk_filter: "pk key t \<Longrightarrow> pk key (filter P t)"
  by (simp add: pk_def distinct_map_filter)

lemma pk_delete: "pk key t \<Longrightarrow> pk key (delete_where P t)"
  by (simp add: delete_where_def pk_filter)

lemma map_key_update_where:
  assumes "\<And>r. P r \<Longrightarrow> key (f r) = key r"
  shows "map key (update_where P f t) = map key t"
  using assms by (auto simp: update_where_def)

lemma pk_update:
  assumes "pk key t" and "\<And>r. P r \<Longrightarrow> key (f r) = key r"
  shows "pk key (update_where P f t)"
  using assms map_key_update_where [of P key f t] by (simp add: pk_def)

lemma pk_append_fresh: "pk key t \<Longrightarrow> key n \<notin> key ` set t \<Longrightarrow> pk key (t @ [n])"
  by (auto simp: pk_def)

lemma pk_insert_row: "pk key t \<Longrightarrow> insert_row key n t = Some t' \<Longrightarrow> pk key t'"
  by (auto simp: insert_row_def pk_append_fresh split: if_splits)

lemma set_delete_where [tab_simps]: "set (delete_where P t) = {r \<in> set t. \<not> P r}"
  by (simp add: delete_where_def)

lemma set_update_where [tab_simps]:
  "set (update_where P f t) = f ` {r \<in> set t. P r} \<union> {r \<in> set t. \<not> P r}"
  by (auto simp: update_where_def)

lemma set_insert_row: "insert_row key n t = Some t' \<Longrightarrow> set t' = insert n (set t)"
  by (auto simp: insert_row_def split: if_splits)

lemma filter_update_where:
  assumes "\<And>r. r \<in> set t \<Longrightarrow> P r \<Longrightarrow> \<not> Q r \<and> \<not> Q (f r)"
  shows "filter Q (update_where P f t) = filter Q t"
  using assms by (induction t) (auto simp: update_where_def)

lemma row_of_delete:
  assumes "\<And>r. r \<in> set t \<Longrightarrow> key r = k \<Longrightarrow> \<not> P r"
  shows "row_of key k (delete_where P t) = row_of key k t"
  using assms by (induction t) (auto simp: row_of_def delete_where_def)

lemma row_of_update_same:
  assumes "\<And>r. P r \<Longrightarrow> key (f r) = key r"
  shows "row_of key k (update_where P f t) = map_option (\<lambda>r. if P r then f r else r) (row_of key k t)"
  using assms by (induction t) (auto simp: row_of_def update_where_def)

lemma rows_affected_le: "rows_affected P t \<le> length t"
  by (simp add: rows_affected_def)

lemma rows_affected_pos: "0 < rows_affected P t \<longleftrightarrow> (\<exists>r\<in>set t. P r)"
  by (auto simp: rows_affected_def filter_empty_conv)

lemma pk_rows_affected_key:
  assumes "pk key t"
  shows "rows_affected (\<lambda>e. key e = k \<and> Q e) t \<le> 1"
proof -
  have "distinct (filter (\<lambda>e. key e = k \<and> Q e) t)"
    using assms by (simp add: pk_def distinct_map)
  then have "length (filter (\<lambda>e. key e = k \<and> Q e) t) = card {e \<in> set t. key e = k \<and> Q e}"
    by (metis distinct_card set_filter)
  moreover have "card {e \<in> set t. key e = k \<and> Q e} \<le> 1"
    using assms by (intro card_le_Suc0_iff_eq [THEN iffD2, simplified One_nat_def [symmetric]])
      (auto dest: pk_unique)
  ultimately show ?thesis by (simp add: rows_affected_def)
qed

text \<open>A select by key and a further condition.\<close>

lemma find_key_pk:
  assumes "pk key t"
  shows "find (\<lambda>r. key r = k \<and> P r) t =
    (case row_of key k t of Some r \<Rightarrow> if P r then Some r else None | None \<Rightarrow> None)"
  using assms
proof (induction t)
  case (Cons a t)
  show ?case
  proof (cases "key a = k")
    case True
    with Cons.prems have "\<forall>x\<in>set t. key x \<noteq> k" by (auto simp: pk_def) (metis imageI)
    then have "find (\<lambda>r. key r = k \<and> P r) t = None" by (auto simp: find_None_iff)
    with True show ?thesis by (simp add: row_of_def)
  next
    case False
    with Cons show ?thesis by (simp add: row_of_def pk_def)
  qed
qed (simp add: row_of_def)

lemma upsert_do_nothing:
  "upsert key do_nothing n t = (if key n \<in> key ` set t then t else t @ [n])"
proof -
  have "resolve do_nothing n e = e" for e :: 'a by (simp add: resolve_def do_nothing_def)
  then show ?thesis by (auto simp: upsert_def intro: map_idI)
qed

lemma upsert_count_do_nothing:
  "upsert_count key do_nothing n t = (if key n \<in> key ` set t then 0 else 1)"
  by (simp add: upsert_count_def rows_affected_def do_nothing_def)

section \<open>The contract of a conflict clause\<close>

locale keyed_upsert =
  fixes key :: "'r \<Rightarrow> 'k"
    and merge :: "'r \<Rightarrow> 'r \<Rightarrow> 'r option"
  assumes merge_key: "key e = key n \<Longrightarrow> merge n e = Some e' \<Longrightarrow> key e' = key e"
begin

lemma key_resolve [simp]:
  assumes "key e = key n"
  shows "key (resolve merge n e) = key n"
proof (cases "merge n e")
  case (Some e')
  then have "key e' = key e" by (rule merge_key [OF assms])
  with Some assms show ?thesis by (simp add: resolve_def)
qed (simp add: resolve_def assms)

lemma key_merged: "row_of key (key n) t = old \<Longrightarrow> key (merged merge n old) = key n"
  by (cases old) (auto simp: merged_def dest!: row_of_Some)

lemma map_key_upsert_old:
  "map key (map (\<lambda>e. if key e = key n then resolve merge n e else e) t)
   = map key t"
  by (induction t) auto

lemma pk_upsert: "pk key t \<Longrightarrow> pk key (upsert key merge n t)"
proof (cases "key n \<in> key ` set t")
  case True
  assume "pk key t"
  with True show ?thesis by (simp only: upsert_def pk_def map_key_upsert_old if_True)
next
  case False
  assume "pk key t"
  with False show ?thesis by (simp add: upsert_def pk_append_fresh)
qed

lemma row_of_upsert:
  "row_of key (key n) (upsert key merge n t) = Some (merged merge n (row_of key (key n) t))"
proof (cases "key n \<in> key ` set t")
  case True
  have "find (\<lambda>r. key r = key n)
     (map (\<lambda>e. if key e = key n then resolve merge n e else e) t)
     = map_option (\<lambda>e. merged merge n (Some e)) (find (\<lambda>r. key r = key n) t)"
    by (induction t) (auto simp: merged_def)
  moreover from True obtain e where "find (\<lambda>r. key r = key n) t = Some e"
    by (metis row_of_None row_of_def not_None_eq)
  ultimately show ?thesis using True by (simp add: upsert_def row_of_def)
next
  case False
  then have "find (\<lambda>r. key r = key n) t = None" by (metis row_of_None row_of_def)
  moreover have "find P (t @ [n]) = (case find P t of None \<Rightarrow> if P n then Some n else None | Some x \<Rightarrow> Some x)"
    for P by (induction t) auto
  ultimately show ?thesis using False by (simp add: upsert_def row_of_def merged_def)
qed

lemma row_of_upsert_other:
  assumes "k \<noteq> key n"
  shows "row_of key k (upsert key merge n t) = row_of key k t"
proof -
  have "find (\<lambda>r. key r = k)
     (map (\<lambda>e. if key e = key n then resolve merge n e else e) t)
     = find (\<lambda>r. key r = k) t"
    using assms by (induction t) auto
  moreover have "find (\<lambda>r. key r = k) (t @ [n]) = find (\<lambda>r. key r = k) t"
    using assms by (induction t) auto
  ultimately show ?thesis by (simp add: upsert_def row_of_def)
qed

lemma row_of_upsert_cases:
  "row_of key k (upsert key merge n t) =
     (if k = key n then Some (merged merge n (row_of key k t)) else row_of key k t)"
  using row_of_upsert [of n t] row_of_upsert_other [of k n t] by auto

lemma upsert_in: "merged merge n (row_of key (key n) t) \<in> set (upsert key merge n t)"
  using row_of_upsert [of n t] by (auto dest: row_of_Some)

lemma set_upsert:
  assumes "pk key t"
  shows "set (upsert key merge n t) =
    insert (merged merge n (row_of key (key n) t)) {e \<in> set t. key e \<noteq> key n}"
proof (cases "row_of key (key n) t")
  case None
  then have k: "key n \<notin> key ` set t" by (simp add: row_of_None)
  then have "\<forall>e\<in>set t. key e \<noteq> key n" by (metis imageI)
  then have "{e \<in> set t. key e \<noteq> key n} = set t" by blast
  with None k show ?thesis by (simp add: upsert_def merged_def)
next
  case (Some e)
  then have e: "e \<in> set t" "key e = key n" by (auto dest: row_of_Some)
  then have uniq: "\<And>x. x \<in> set t \<Longrightarrow> key x = key n \<Longrightarrow> x = e"
    using assms by (metis pk_unique)
  have st: "set t = insert e {x \<in> set t. key x \<noteq> key n}" using e uniq by blast
  from e have "key n \<in> key ` set t" by (metis imageI)
  then have "set (upsert key merge n t) =
      (\<lambda>x. if key x = key n then resolve merge n x else x) ` set t"
    by (simp add: upsert_def)
  also have "\<dots> = insert (resolve merge n e) {x \<in> set t. key x \<noteq> key n}"
    by (subst st) (auto simp: e(2))
  finally show ?thesis using Some by (simp add: merged_def)
qed

lemma upsert_count_merge:
  assumes "pk key t"
  shows "upsert_count key merge n t =
    (case row_of key (key n) t of None \<Rightarrow> 1 | Some e \<Rightarrow> if merge n e = None then 0 else 1)"
proof (cases "row_of key (key n) t")
  case None
  then have "key n \<notin> key ` set t" by (simp add: row_of_None)
  with None show ?thesis by (simp add: upsert_count_def)
next
  case (Some e)
  then have e: "e \<in> set t" "key e = key n" by (auto dest: row_of_Some)
  then have k: "key n \<in> key ` set t" by (metis imageI)
  have le: "rows_affected (\<lambda>x. key x = key n \<and> merge n x \<noteq> None) t \<le> 1"
    by (rule pk_rows_affected_key [OF assms])
  have iff: "0 < rows_affected (\<lambda>x. key x = key n \<and> merge n x \<noteq> None) t \<longleftrightarrow> merge n e \<noteq> None"
    using e pk_unique [OF assms] unfolding rows_affected_pos by metis
  show ?thesis using Some k le iff by (auto simp: upsert_count_def)
qed

end

end
