(* ===== verification/Schema.thy ===== *)
theory Schema
  imports Complex_Main Tables Wire_Types
begin

text \<open>
  The PostgreSQL schema of the message gateway (\<open>init_schema\<close> of \<open>db.rs\<close>): one record per table
  with its columns, one key function per \<open>PRIMARY KEY\<close>, and the record \<open>db\<close> of all tables.
  JSON columns hold the value they encode; UUIDs are strings; a \<open>BIGINT\<close> that stores a cast
  \<open>u64\<close> is kept as the \<open>u64\<close> with the same bits. \<open>schema_ok\<close> collects the key constraints.
\<close>

datatype row_state = Active | Revoked

record challenge_row =
  ch_challenge_id :: string
  ch_network_id :: string
  ch_principals :: "principal_claim list"
  ch_nonce :: string
  ch_expires_at :: instant
  ch_consumed_at :: "instant option"

record session_row =
  se_session_id :: string
  se_token_hash :: string
  se_network_id :: string
  se_expires_at :: instant
  se_created_at :: instant

record session_principal_row =
  sp_session_id :: string
  sp_principal_id :: string
  sp_verified_at :: instant
  sp_expires_at :: instant

record instance_row =
  pi_network_id :: string
  pi_principal_id :: string
  pi_tenant_instance_id :: string
  pi_history_unavailable :: bool
  pi_first_seen_at :: instant
  pi_updated_at :: instant

record membership_row =
  mb_network_id :: string
  mb_scope_label :: string
  mb_principal_id :: string
  mb_version :: string
  mb_state :: row_state
  mb_authorized_at :: instant
  mb_revoked_at :: "instant option"
  mb_interactive_binding :: string
  mb_bulk_binding :: string
  mb_roles :: "role list"
  mb_binding_updated_at :: "instant option"

record grant_row =
  gp_network_id :: string
  gp_principal_id :: string
  gp_grant_id :: string
  gp_grant :: grant
  gp_issued_at_ms :: int
  gp_expires_at_ms :: "int option"
  gp_updated_at :: instant

record version_row =
  sv_network_id :: string
  sv_scope_label :: string
  sv_version :: string
  sv_routing_fence :: int
  sv_updated_at :: instant

record authority_row =
  au_network_id :: string
  au_principal_id :: string
  au_kind :: string
  au_projection_version :: string
  au_state :: row_state
  au_updated_at :: instant

record binding_row =
  rb_network_id :: string
  rb_scope_label :: string
  rb_route_address :: string
  rb_principal_id :: string
  rb_class :: string
  rb_version :: string
  rb_state :: string
  rb_updated_at :: instant

record window_row =
  mw_network_id :: string
  mw_scope_label :: string
  mw_started_at :: instant
  mw_count :: nat
  mw_last_version :: "string option"
  mw_updated_at :: instant

record owner_row =
  ow_binding_key :: string
  ow_class :: string
  ow_instance_id :: string
  ow_epoch :: string
  ow_lease_expires_at :: instant
  ow_route :: string
  ow_updated_at :: instant

record global_bucket_row =
  gb_network_id :: string
  gb_cell :: string
  gb_policy_version :: u64
  gb_total_tokens :: rat
  gb_bulk_tokens :: rat
  gb_last_refill_at :: instant
  gb_total_rate :: rat
  gb_bulk_rate :: rat
  gb_burst :: rat
  gb_updated_at :: instant

record cell_bucket_row =
  nb_network_id :: string
  nb_cell :: string
  nb_policy_version :: u64
  nb_tokens :: rat
  nb_last_refill_at :: instant
  nb_rate :: rat
  nb_burst :: rat
  nb_updated_at :: instant

record gap_row =
  gg_network_id :: string
  gg_principal_id :: string
  gg_gap_id :: string
  gg_class :: string
  gg_policy_version :: u64
  gg_route :: route
  gg_reason :: string
  gg_first_affected_at :: instant
  gg_last_affected_at :: instant
  gg_count :: nat
  gg_delivered_at :: "instant option"
  gg_page_id :: "string option"
  gg_acknowledged_at :: "instant option"

record receipt_row =
  pr_network_id :: string
  pr_principal_id :: string
  pr_record_id :: string
  pr_route_hash :: string
  pr_record_hash :: string
  pr_membership_version :: "string option"
  pr_class :: string
  pr_policy_version :: u64
  pr_expected_recipients :: u64
  pr_binding_set_hash :: string
  pr_status :: string
  pr_confirmed_at :: "instant option"
  pr_expires_at :: instant

record audit_row =
  ad_audit_id :: string
  ad_network_id :: "string option"
  ad_principal_id :: "string option"
  ad_action :: string
  ad_outcome :: string
  ad_details :: "(string \<times> string) list"
  ad_created_at :: instant

record db =
  t_challenges :: "challenge_row list"
  t_sessions :: "session_row list"
  t_session_principals :: "session_principal_row list"
  t_instances :: "instance_row list"
  t_memberships :: "membership_row list"
  t_grants :: "grant_row list"
  t_versions :: "version_row list"
  t_authorities :: "authority_row list"
  t_bindings :: "binding_row list"
  t_windows :: "window_row list"
  t_owners :: "owner_row list"
  t_global_buckets :: "global_bucket_row list"
  t_cell_buckets :: "cell_bucket_row list"
  t_gaps :: "gap_row list"
  t_receipts :: "receipt_row list"
  t_audit :: "audit_row list"

definition empty_db :: db where
  "empty_db =
    \<lparr>t_challenges = [], t_sessions = [], t_session_principals = [], t_instances = [],
     t_memberships = [], t_grants = [], t_versions = [], t_authorities = [], t_bindings = [],
     t_windows = [], t_owners = [], t_global_buckets = [], t_cell_buckets = [], t_gaps = [],
     t_receipts = [], t_audit = []\<rparr>"

section \<open>Primary keys\<close>

definition instance_key :: "instance_row \<Rightarrow> string \<times> string" where
  "instance_key r = (pi_network_id r, pi_principal_id r)"

definition membership_key :: "membership_row \<Rightarrow> string \<times> string \<times> string" where
  "membership_key r = (mb_network_id r, mb_scope_label r, mb_principal_id r)"

definition grant_key :: "grant_row \<Rightarrow> string \<times> string" where
  "grant_key r = (gp_network_id r, gp_principal_id r)"

definition version_key :: "version_row \<Rightarrow> string \<times> string" where
  "version_key r = (sv_network_id r, sv_scope_label r)"

definition authority_key :: "authority_row \<Rightarrow> string \<times> string \<times> string" where
  "authority_key r = (au_network_id r, au_principal_id r, au_kind r)"

definition binding_key :: "binding_row \<Rightarrow> string \<times> string \<times> string \<times> string \<times> string" where
  "binding_key r =
     (rb_network_id r, rb_scope_label r, rb_route_address r, rb_principal_id r, rb_class r)"

definition window_key :: "window_row \<Rightarrow> string \<times> string" where
  "window_key r = (mw_network_id r, mw_scope_label r)"

definition owner_key :: "owner_row \<Rightarrow> string \<times> string" where
  "owner_key r = (ow_binding_key r, ow_class r)"

definition global_bucket_key :: "global_bucket_row \<Rightarrow> string \<times> string" where
  "global_bucket_key r = (gb_network_id r, gb_cell r)"

definition cell_bucket_key :: "cell_bucket_row \<Rightarrow> string \<times> string" where
  "cell_bucket_key r = (nb_network_id r, nb_cell r)"

definition gap_key :: "gap_row \<Rightarrow> string \<times> string \<times> string" where
  "gap_key r = (gg_network_id r, gg_principal_id r, gg_gap_id r)"

definition receipt_key :: "receipt_row \<Rightarrow> string \<times> string \<times> string" where
  "receipt_key r = (pr_network_id r, pr_principal_id r, pr_record_id r)"

definition session_principal_key :: "session_principal_row \<Rightarrow> string \<times> string" where
  "session_principal_key r = (sp_session_id r, sp_principal_id r)"

definition schema_ok :: "db \<Rightarrow> bool" where
  "schema_ok d \<longleftrightarrow>
     pk ch_challenge_id (t_challenges d) \<and> pk se_session_id (t_sessions d)
     \<and> pk se_token_hash (t_sessions d)
     \<and> pk session_principal_key (t_session_principals d) \<and> pk instance_key (t_instances d)
     \<and> pk membership_key (t_memberships d) \<and> pk grant_key (t_grants d)
     \<and> pk version_key (t_versions d) \<and> pk authority_key (t_authorities d)
     \<and> pk binding_key (t_bindings d) \<and> pk window_key (t_windows d)
     \<and> pk owner_key (t_owners d) \<and> pk global_bucket_key (t_global_buckets d)
     \<and> pk cell_bucket_key (t_cell_buckets d) \<and> pk gap_key (t_gaps d)
     \<and> pk receipt_key (t_receipts d) \<and> pk ad_audit_id (t_audit d)"

lemmas key_defs = instance_key_def membership_key_def grant_key_def version_key_def
  authority_key_def binding_key_def window_key_def owner_key_def global_bucket_key_def
  cell_bucket_key_def gap_key_def receipt_key_def session_principal_key_def

lemma schema_ok_empty: "schema_ok empty_db"
  by (simp add: schema_ok_def empty_db_def pk_def)

end
