(* ===== verification/Float64.thy ===== *)
theory Float64
  imports Complex_Main "HOL-Library.Log_Nat"
begin

text \<open>
  IEEE 754 double precision for the token buckets, the only floating-point code of the message
  gateway. A finite \<open>f64\<close> is the rational it denotes; \<open>f64_round\<close> is round-to-nearest, ties to
  even, with 53 bits of precision and gradual underflow, and every arithmetic operation of the
  code rounds its exact result. The lemmas cover the nonnegative values the buckets hold: rounding
  is monotone, exact on representable numbers (in particular on integers up to \<open>2 ^ 53\<close>) and off by
  at most half a unit in the last place.
\<close>

section \<open>Rounding\<close>

definition ilog2 :: "rat \<Rightarrow> int" where
  "ilog2 x =
    (let (n, d) = quotient_of x;
         k = int (floorlog 2 (nat n)) - int (floorlog 2 (nat d))
     in if 2 powi k \<le> x then k else k - 1)"

definition round_even :: "rat \<Rightarrow> int" where
  "round_even x =
    (let f = \<lfloor>x\<rfloor>; r = x - of_int f
     in if r < 1 / 2 then f else if 1 / 2 < r then f + 1 else if even f then f else f + 1)"

definition ulp_exponent :: "rat \<Rightarrow> int" where
  "ulp_exponent x = max (ilog2 \<bar>x\<bar> - 52) (- 1074)"

definition f64_round :: "rat \<Rightarrow> rat" where
  "f64_round x =
    (if x = 0 then 0
     else of_int (round_even (x / 2 powi ulp_exponent x)) * 2 powi ulp_exponent x)"

section \<open>Rounding to an integer\<close>

lemma round_even_bounds: "\<lfloor>x\<rfloor> \<le> round_even x" "round_even x \<le> \<lfloor>x\<rfloor> + 1"
  by (auto simp: round_even_def Let_def)

lemma round_even_of_int [simp]: "round_even (of_int n) = n"
  by (simp add: round_even_def)

lemma round_even_mono:
  assumes "x \<le> y"
  shows "round_even x \<le> round_even y"
proof (cases "\<lfloor>x\<rfloor> = \<lfloor>y\<rfloor>")
  case True
  with assms show ?thesis by (auto simp: round_even_def Let_def)
next
  case False
  with floor_mono [OF assms] have "\<lfloor>x\<rfloor> + 1 \<le> \<lfloor>y\<rfloor>" by simp
  with round_even_bounds [of x] round_even_bounds [of y] show ?thesis by linarith
qed

lemma round_even_error: "\<bar>of_int (round_even x) - x\<bar> \<le> 1 / 2"
  using of_int_floor_le [of x] floor_correct [of x]
  by (auto simp: round_even_def Let_def abs_le_iff field_simps)

section \<open>The binary logarithm\<close>

lemma pow2_le_rat: "(2 :: nat) ^ k \<le> nat i \<Longrightarrow> 0 < i \<Longrightarrow> (2 :: rat) ^ k \<le> of_int i"
  by (metis int_nat_eq less_imp_le of_int_of_nat_eq of_nat_le_iff of_nat_numeral of_nat_power)

lemma less_pow2_rat: "nat i < (2 :: nat) ^ k \<Longrightarrow> 0 < i \<Longrightarrow> (of_int i :: rat) < 2 ^ k"
  by (metis int_nat_eq less_imp_le of_int_of_nat_eq of_nat_less_iff of_nat_numeral of_nat_power)

lemma ilog2_bounds:
  assumes "0 < x"
  shows "2 powi ilog2 x \<le> x" and "x < 2 powi (ilog2 x + 1)"
proof -
  obtain n d where q: "quotient_of x = (n, d)" by fastforce
  then have d: "0 < d" and x: "x = of_int n / of_int d"
    by (auto dest: quotient_of_denom_pos quotient_of_div)
  with assms have n: "0 < n" by (simp add: zero_less_divide_iff)
  define a where "a = floorlog 2 (nat n)"
  define b where "b = floorlog 2 (nat d)"
  have n2: "(2 :: nat) ^ (a - 1) \<le> nat n" "nat n < 2 ^ a" and d2: "(2 :: nat) ^ (b - 1) \<le> nat d" "nat d < 2 ^ b"
    using floorlog_bounds [of "nat n" 2] floorlog_bounds [of "nat d" 2] n d
    by (simp_all add: a_def b_def)
  have ab: "0 < a" "0 < b" using n2(2) d2(2) n d by (auto intro: gr0I)
  have nr: "(2 :: rat) ^ (a - 1) \<le> of_int n" "(of_int n :: rat) < 2 ^ a"
    using n2 n by (simp_all add: pow2_le_rat less_pow2_rat)
  have dr: "(2 :: rat) ^ (b - 1) \<le> of_int d" "(of_int d :: rat) < 2 ^ b"
    using d2 d by (simp_all add: pow2_le_rat less_pow2_rat)
  have p: "(2 :: rat) powi (int a - int b) = 2 ^ a / 2 ^ b"
    by (simp add: power_int_diff)
  have p1: "(2 :: rat) powi (int a - int b - 1) = 2 ^ a / 2 ^ b / 2"
    by (simp add: power_int_diff)
  have dpos: "(0 :: rat) < of_int d" using d by simp
  have "x < 2 ^ a / 2 ^ (b - 1)"
    unfolding x using nr dr dpos n by (intro frac_less) auto
  also have "(2 :: rat) ^ a / 2 ^ (b - 1) = 2 * (2 powi (int a - int b))"
    unfolding p using ab by (cases b) (simp_all add: field_simps)
  finally have up: "x < 2 powi (int a - int b + 1)" by (simp add: power_int_add)
  have "2 ^ (a - 1) / 2 ^ b \<le> x"
    unfolding x using nr dr dpos n by (intro frac_le) auto
  moreover have "(2 :: rat) ^ (a - 1) / 2 ^ b = 2 powi (int a - int b - 1)"
    unfolding p1 using ab by (cases a) (simp_all add: field_simps)
  ultimately have low: "2 powi (int a - int b - 1) \<le> x" by simp
  have "ilog2 x = (if 2 powi (int a - int b) \<le> x then int a - int b else int a - int b - 1)"
    by (simp add: ilog2_def q a_def b_def Let_def)
  then show "2 powi ilog2 x \<le> x" and "x < 2 powi (ilog2 x + 1)"
    using up low by (auto simp: not_le split: if_splits)
qed
lemma powi2_pos [simp]: "(0 :: rat) < 2 powi k"
  by simp

lemma powi2_mono: "j \<le> k \<Longrightarrow> (2 :: rat) powi j \<le> 2 powi k"
  by (simp add: power_int_increasing)

lemma powi2_less_cancel: "(2 :: rat) powi j < 2 powi k \<Longrightarrow> j < k"
  using powi2_mono [of k j] by (meson leD leI)

lemma ilog2_mono:
  assumes "0 < x" and "x \<le> y"
  shows "ilog2 x \<le> ilog2 y"
proof -
  have "2 powi ilog2 x < (2 :: rat) powi (ilog2 y + 1)"
    using ilog2_bounds [OF assms(1)] ilog2_bounds [of y] assms by linarith
  from powi2_less_cancel [OF this] show ?thesis by simp
qed

lemma powi2_le_cancel: "(2 :: rat) powi j \<le> 2 powi k \<Longrightarrow> j \<le> k"
  using power_int_strict_increasing [of k j "2 :: rat"] by (meson leD leI one_less_numeral_iff semiring_norm(76))

lemma ilog2_powi [simp]: "ilog2 (2 powi k) = k"
  using powi2_le_cancel [OF ilog2_bounds(1) [OF powi2_pos [of k]]]
    powi2_less_cancel [OF ilog2_bounds(2) [OF powi2_pos [of k]]] by simp

lemma powi2_int: "0 \<le> k \<Longrightarrow> (2 :: rat) powi k = of_int (2 ^ nat k)"
  by (simp add: power_int_def)

section \<open>Properties of the rounding\<close>

lemma f64_round_0 [simp]: "f64_round 0 = 0"
  by (simp add: f64_round_def)

lemma f64_round_nonneg:
  assumes "0 \<le> x"
  shows "0 \<le> f64_round x"
proof -
  have "0 \<le> round_even (x / 2 powi ulp_exponent x)"
    using round_even_mono [of "of_int 0" "x / 2 powi ulp_exponent x"] assms
    by (simp only: round_even_of_int) (simp add: zero_le_divide_iff)
  then show ?thesis by (simp add: f64_round_def)
qed

text \<open>An integral multiple of the unit in the last place is not rounded away from.\<close>

lemma round_le_multiple:
  assumes "x \<le> of_int m * (2 :: rat) powi e"
  shows "of_int (round_even (x / 2 powi e)) * (2 :: rat) powi e \<le> of_int m * 2 powi e"
proof -
  have "x / 2 powi e \<le> of_int m" using assms by (simp add: pos_divide_le_eq)
  from round_even_mono [OF this] show ?thesis by (simp add: mult_right_mono)
qed

lemma round_ge_multiple:
  assumes "of_int m * (2 :: rat) powi e \<le> x"
  shows "of_int m * (2 :: rat) powi e \<le> of_int (round_even (x / 2 powi e)) * 2 powi e"
proof -
  have "of_int m \<le> x / 2 powi e" using assms by (simp add: pos_le_divide_eq)
  from round_even_mono [OF this] show ?thesis by (simp add: mult_right_mono)
qed

lemma f64_round_mono:
  assumes "0 \<le> x" and "x \<le> y"
  shows "f64_round x \<le> f64_round y"
proof (cases "x = 0")
  case True
  with assms show ?thesis by (simp add: f64_round_nonneg)
next
  case False
  with assms have x: "0 < x" and y: "0 < y" by auto
  let ?d = "ulp_exponent x" and ?e = "ulp_exponent y"
  show ?thesis
  proof (cases "?d = ?e")
    case True
    have "x / 2 powi ?e \<le> y / 2 powi ?e" using assms by (simp add: divide_right_mono)
    from round_even_mono [OF this] x y True show ?thesis
      by (simp add: f64_round_def mult_right_mono)
  next
    case ne: False
    have l: "ilog2 x < ilog2 y" and e: "?e = ilog2 y - 52" and d: "?d < ?e"
      using ne ilog2_mono [OF x assms(2)] x y by (auto simp: ulp_exponent_def)
    let ?P = "(2 :: rat) powi ilog2 y"
    have "x \<le> ?P"
      using ilog2_bounds(2) [OF x] powi2_mono [of "ilog2 x + 1" "ilog2 y"] l by linarith
    moreover have P1: "?P = of_int (2 ^ nat (ilog2 y - ?d)) * 2 powi ?d"
      using d e powi2_int [of "ilog2 y - ?d"] power_int_add [of "2 :: rat" "ilog2 y - ?d" ?d]
      by simp
    ultimately have "f64_round x \<le> ?P"
      using round_le_multiple [of x "2 ^ nat (ilog2 y - ?d)" ?d] x by (simp only: f64_round_def) simp
    also have P2: "?P = of_int (2 ^ 52) * 2 powi ?e"
      using e by (simp add: power_int_diff)
    then have "?P \<le> f64_round y"
      using round_ge_multiple [of "2 ^ 52" ?e y] ilog2_bounds(1) [OF y] y
      by (simp only: f64_round_def) simp
    finally show ?thesis .
  qed
qed

lemma f64_round_exact:
  assumes "0 \<le> m" and "m \<le> 2 ^ 53" and "- 1074 \<le> e"
  shows "f64_round (of_int m * 2 powi e) = of_int m * 2 powi e"
proof (cases "m = 0")
  case False
  let ?x = "of_int m * (2 :: rat) powi e" and ?u = "ulp_exponent (of_int m * 2 powi e)"
  from False assms(1) have m: "0 < m" and x: "0 < ?x" by simp_all
  have "\<exists>k. ?x / 2 powi ?u = of_int k"
  proof (cases "m = 2 ^ 53")
    case True
    have "?x = 2 powi (e + 53)" by (simp add: True power_int_add)
    then have "?u = e + 1" using assms(3) by (simp add: ulp_exponent_def)
    moreover have "?x / 2 powi (e + 1) = of_int (2 ^ 52)" by (simp add: True power_int_add)
    ultimately show ?thesis by metis
  next
    case False
    with assms(2) have "of_int m < (2 :: rat) ^ 53"
      by (metis of_int_less_iff of_int_numeral of_int_power order_le_neq_trans)
    then have "?x < 2 powi (e + 53)" by (simp add: power_int_add mult.commute)
    with ilog2_bounds(1) [OF x] have "2 powi ilog2 ?x < (2 :: rat) powi (e + 53)" by linarith
    from powi2_less_cancel [OF this] have u: "?u \<le> e"
      using x assms(3) by (simp add: ulp_exponent_def)
    then have "?x / 2 powi ?u = of_int m * 2 powi (e - ?u)" by (simp add: power_int_diff)
    also have "\<dots> = of_int (m * 2 ^ nat (e - ?u))" using u by (simp add: power_int_def)
    finally show ?thesis by blast
  qed
  then obtain k where k: "?x / 2 powi ?u = of_int k" by blast
  have "f64_round ?x = of_int (round_even (?x / 2 powi ?u)) * 2 powi ?u"
    using x by (simp only: f64_round_def if_False less_irrefl) (metis less_irrefl)
  also have "\<dots> = ?x / 2 powi ?u * 2 powi ?u" by (simp only: k round_even_of_int)
  also have "\<dots> = ?x" by simp
  finally show ?thesis .
qed simp

lemma f64_round_nat [simp]:
  assumes "n \<le> 2 ^ 53"
  shows "f64_round (of_nat n) = of_nat n"
proof -
  have "int n \<le> int (2 ^ 53)" using assms by (simp only: of_nat_le_iff)
  then show ?thesis using f64_round_exact [of "int n" 0] by simp
qed

lemma f64_round_error_ulp:
  assumes "0 < x"
  shows "\<bar>f64_round x - x\<bar> \<le> 2 powi ulp_exponent x / 2"
proof -
  let ?p = "(2 :: rat) powi ulp_exponent x"
  have "f64_round x - x = (of_int (round_even (x / ?p)) - x / ?p) * ?p"
    using assms powi2_pos [of "ulp_exponent x"] by (simp add: f64_round_def left_diff_distrib)
  then have "\<bar>f64_round x - x\<bar> = \<bar>of_int (round_even (x / ?p)) - x / ?p\<bar> * ?p"
    by (simp add: abs_mult)
  also have "\<dots> \<le> 1 / 2 * ?p" by (rule mult_right_mono [OF round_even_error]) simp
  finally show ?thesis by simp
qed

lemma f64_round_error_relative:
  assumes x: "0 < x" and "- 1022 \<le> ilog2 x"
  shows "\<bar>f64_round x - x\<bar> \<le> x / 2 ^ 53"
proof -
  have "ulp_exponent x = ilog2 x - 52" using assms by (simp add: ulp_exponent_def)
  then have "2 powi ulp_exponent x / 2 = 2 powi ilog2 x / (2 :: rat) ^ 53"
    by (simp add: power_int_diff)
  also have "\<dots> \<le> x / 2 ^ 53" using ilog2_bounds(1) [OF x] by (simp add: divide_right_mono)
  finally show ?thesis using f64_round_error_ulp [OF x] by linarith
qed

lemma f64_round_error_absolute:
  assumes "0 \<le> x" and "x \<le> c" and "1 \<le> c"
  shows "\<bar>f64_round x - x\<bar> \<le> c / 2 ^ 53"
proof (cases "x = 0")
  case True
  then show ?thesis using assms(3) by simp
next
  case False
  with assms(1) have x: "0 < x" by simp
  show ?thesis
  proof (cases "- 1022 \<le> ilog2 x")
    case True
    from f64_round_error_relative [OF x this] assms(2) show ?thesis by simp
  next
    case False
    then have "ulp_exponent x \<le> - 52" using x by (simp add: ulp_exponent_def)
    from powi2_mono [OF this] have "2 powi ulp_exponent x / 2 \<le> (1 :: rat) / 2 ^ 53"
      by (simp add: power_int_minus)
    also have "\<dots> \<le> c / 2 ^ 53" using assms(3) by (simp add: divide_right_mono)
    finally show ?thesis using f64_round_error_ulp [OF x] by linarith
  qed
qed

lemma f64_round_upper:
  assumes "0 < x" and "- 1022 \<le> ilog2 x"
  shows "f64_round x \<le> x * (1 + 1 / 2 ^ 53)"
proof -
  have "f64_round x - x \<le> x / 2 ^ 53"
    using f64_round_error_relative [OF assms] by (simp only: abs_le_iff)
  moreover have "x * (1 + 1 / 2 ^ 53) = x + x / 2 ^ 53" by (simp add: distrib_left)
  ultimately show ?thesis by linarith
qed

lemma f64_round_upper_absolute:
  assumes "0 \<le> x" and "x \<le> c" and "1 \<le> c"
  shows "f64_round x \<le> x + c / 2 ^ 53"
  using f64_round_error_absolute [OF assms] by (simp only: abs_le_iff) linarith

end
