(* ===== verification/Rate_Buckets.thy ===== *)
theory Rate_Buckets
  imports Schema Float64
begin

text \<open>
  The token buckets of \<open>db.rs\<close>: \<open>ensure_bucket\<close>, \<open>acquire_global_token\<close> (one bucket for all global
  publishes of a cell and one for the bulk share of it) and \<open>acquire_non_global_delivery_tokens\<close>.
  Token arithmetic is double precision, with \<open>f64_round\<close> after every operation. A statement reads
  the database clock where it runs: \<open>t0\<close> is the time of the insert, \<open>t1\<close> of the select that
  measures the elapsed time, and \<open>t2\<close> of the update that sets \<open>last_refill_at\<close>. The locale \<open>metered\<close>
  is the contract of a bucket; the three buckets are its interpretations.
\<close>

definition no_rows :: string where
  "no_rows = ''no rows returned by a query that expected to return at least one row''"

section \<open>Double-precision values\<close>

definition f64_of_u64 :: "u64 \<Rightarrow> rat" where
  "f64_of_u64 n = f64_round (of_nat (unat n))"

text \<open>\<open>EXTRACT(EPOCH FROM (clock_timestamp() - last_refill_at))::DOUBLE PRECISION\<close>, then \<open>max(0.0)\<close>.\<close>

definition f64_elapsed :: "instant \<Rightarrow> instant \<Rightarrow> rat" where
  "f64_elapsed since now = max 0 (f64_round (of_int (now - since) / 1000000))"

definition refill :: "rat \<Rightarrow> rat \<Rightarrow> rat \<Rightarrow> rat \<Rightarrow> rat" where
  "refill tokens elapsed rate capacity =
     min (f64_round (tokens + f64_round (elapsed * rate))) capacity"

definition spend :: "bool \<Rightarrow> rat \<Rightarrow> rat \<Rightarrow> rat" where
  "spend allowed tokens cost = (if allowed then f64_round (tokens - cost) else tokens)"

definition bulk_capacity :: "u64 \<Rightarrow> rat" where
  "bulk_capacity burst = f64_of_u64 (max (sat_sub burst 1) 1)"

section \<open>Operations\<close>

definition ensure_bucket ::
  "instant \<Rightarrow> string \<Rightarrow> string \<Rightarrow> u64 \<Rightarrow> u64 \<Rightarrow> u64 \<Rightarrow> u64 \<Rightarrow> db \<Rightarrow> db" where
  "ensure_bucket t0 network_id cell total_rate bulk_rate burst policy d =
    d\<lparr>t_global_buckets := upsert global_bucket_key do_nothing
      \<lparr>gb_network_id = network_id, gb_cell = cell, gb_policy_version = policy,
       gb_total_tokens = f64_of_u64 burst, gb_bulk_tokens = bulk_capacity burst,
       gb_last_refill_at = t0, gb_total_rate = f64_of_u64 total_rate,
       gb_bulk_rate = f64_of_u64 bulk_rate, gb_burst = f64_of_u64 burst, gb_updated_at = t0\<rparr>
      (t_global_buckets d)\<rparr>"

definition acquire_global_token ::
  "instant \<times> instant \<times> instant \<Rightarrow> string \<Rightarrow> string \<Rightarrow> delivery_class \<Rightarrow> u64 \<Rightarrow> u64 \<Rightarrow> u64 \<Rightarrow> u64
   \<Rightarrow> db \<Rightarrow> (bool \<times> db) result" where
  "acquire_global_token ts network_id cell class total_rate bulk_rate burst policy d =
    (let (t0, t1, t2) = ts;
         d1 = ensure_bucket t0 network_id cell total_rate bulk_rate burst policy d
     in and_then (or_err (row_of global_bucket_key (network_id, cell) (t_global_buckets d1)) no_rows)
       (\<lambda>row.
         let elapsed = f64_elapsed (gb_last_refill_at row) t1;
             total = refill (gb_total_tokens row) elapsed (f64_of_u64 total_rate) (f64_of_u64 burst);
             bulk = refill (gb_bulk_tokens row) elapsed (f64_of_u64 bulk_rate) (bulk_capacity burst);
             allowed = (1 \<le> total \<and> (class = Interactive \<or> 1 \<le> bulk))
         in Inr (allowed, d1\<lparr>t_global_buckets := update_where
              (\<lambda>r. global_bucket_key r = (network_id, cell))
              (\<lambda>r. r\<lparr>gb_total_tokens := spend allowed total 1,
                     gb_bulk_tokens := spend (allowed \<and> class = Bulk) bulk 1,
                     gb_last_refill_at := t2, gb_total_rate := f64_of_u64 total_rate,
                     gb_bulk_rate := f64_of_u64 bulk_rate, gb_burst := f64_of_u64 burst,
                     gb_policy_version := policy, gb_updated_at := t2\<rparr>)
              (t_global_buckets d1)\<rparr>)))"

definition ensure_cell_bucket :: "instant \<Rightarrow> string \<Rightarrow> string \<Rightarrow> u64 \<Rightarrow> u64 \<Rightarrow> db \<Rightarrow> db" where
  "ensure_cell_bucket t0 network_id cell rate policy d =
    d\<lparr>t_cell_buckets := upsert cell_bucket_key do_nothing
      \<lparr>nb_network_id = network_id, nb_cell = cell, nb_policy_version = policy,
       nb_tokens = f64_of_u64 rate, nb_last_refill_at = t0, nb_rate = f64_of_u64 rate,
       nb_burst = f64_of_u64 rate, nb_updated_at = t0\<rparr> (t_cell_buckets d)\<rparr>"

definition acquire_non_global_delivery_tokens ::
  "instant \<times> instant \<times> instant \<Rightarrow> string \<Rightarrow> string \<Rightarrow> u64 \<Rightarrow> u64 \<Rightarrow> u64 \<Rightarrow> db
   \<Rightarrow> (bool \<times> db) result" where
  "acquire_non_global_delivery_tokens ts network_id cell cost rate policy d =
    (if cost = 0 then Inr (True, d)
     else if rate = 0 \<or> rate < cost then Inr (False, d)
     else let (t0, t1, t2) = ts;
              d1 = ensure_cell_bucket t0 network_id cell rate policy d
       in and_then (or_err (row_of cell_bucket_key (network_id, cell) (t_cell_buckets d1)) no_rows)
         (\<lambda>row.
           let available = refill (nb_tokens row) (f64_elapsed (nb_last_refill_at row) t1)
                 (f64_of_u64 rate) (f64_of_u64 rate);
               allowed = (f64_of_u64 cost \<le> available)
           in Inr (allowed, d1\<lparr>t_cell_buckets := update_where
                (\<lambda>r. cell_bucket_key r = (network_id, cell))
                (\<lambda>r. r\<lparr>nb_tokens := spend allowed available (f64_of_u64 cost),
                       nb_last_refill_at := t2, nb_rate := f64_of_u64 rate,
                       nb_burst := f64_of_u64 rate, nb_policy_version := policy,
                       nb_updated_at := t2\<rparr>) (t_cell_buckets d1)\<rparr>)))"

interpretation global_buckets: keyed_upsert global_bucket_key do_nothing
  by unfold_locales (simp add: do_nothing_def)

interpretation cell_buckets: keyed_upsert cell_bucket_key do_nothing
  by unfold_locales (simp add: do_nothing_def)

section \<open>Token arithmetic\<close>

lemma f64_of_u64_exact: "unat n \<le> 2 ^ 53 \<Longrightarrow> f64_of_u64 n = of_nat (unat n)"
  unfolding f64_of_u64_def by (rule f64_round_nat)

lemma f64_of_u64_nonneg [simp]: "0 \<le> f64_of_u64 n"
  unfolding f64_of_u64_def by (rule f64_round_nonneg, rule of_nat_0_le_iff)

lemma f64_elapsed_nonneg [simp]: "0 \<le> f64_elapsed a b"
  by (simp add: f64_elapsed_def)

lemma refill_bounds:
  assumes "0 \<le> tokens" and "0 \<le> elapsed" and "0 \<le> rate" and "0 \<le> capacity"
  shows "0 \<le> refill tokens elapsed rate capacity" and "refill tokens elapsed rate capacity \<le> capacity"
  using assms by (simp_all add: refill_def f64_round_nonneg)

lemma spend_nonneg: "0 \<le> tokens \<Longrightarrow> (allowed \<Longrightarrow> cost \<le> tokens) \<Longrightarrow> 0 \<le> spend allowed tokens cost"
  by (simp add: spend_def f64_round_nonneg)

text \<open>Spending never rounds above an integral capacity.\<close>

lemma spend_le:
  assumes "0 \<le> cost" and "allowed \<Longrightarrow> cost \<le> tokens" and "tokens \<le> of_nat c" and "c \<le> 2 ^ 53"
  shows "spend allowed tokens cost \<le> of_nat c"
  using f64_round_mono [of "tokens - cost" "of_nat c"] assms by (auto simp: spend_def)

lemma f64_elapsed_upper:
  assumes "since \<le> now"
  shows "f64_elapsed since now \<le> of_int (now - since) / 1000000 * (1 + 1 / 2 ^ 53)"
proof (cases "now = since")
  case True
  then show ?thesis by (simp add: f64_elapsed_def)
next
  case False
  define x where "x = (of_int (now - since) / 1000000 :: rat)"
  from False assms have "1 \<le> now - since" by simp
  then have "(1 :: rat) \<le> of_int (now - since)" by (metis of_int_1 of_int_le_iff)
  then have lo: "1 / 1000000 \<le> x" by (simp add: x_def)
  have "(2 :: rat) powi (- 20) \<le> x" using lo by (simp add: power_int_minus)
  from ilog2_mono [OF powi2_pos this] have "- 20 \<le> ilog2 x" by (simp only: ilog2_powi)
  then have "f64_round x \<le> x * (1 + 1 / 2 ^ 53)"
    using lo by (intro f64_round_upper) auto
  moreover have "0 \<le> x * (1 + 1 / 2 ^ 53)" using lo by (simp add: zero_le_mult_iff)
  ultimately show ?thesis unfolding f64_elapsed_def x_def by simp
qed

text \<open>
  A refill adds at most what the elapsed time pays for, up to the rounding of its three operations.
\<close>

lemma refill_upper:
  assumes "0 \<le> tokens" and "tokens \<le> cap" and "1 \<le> cap" and "0 \<le> rate" and "since \<le> now"
  shows "refill tokens (f64_elapsed since now) rate cap
    \<le> tokens + rate * of_int (now - since) / 1000000 + 7 * cap / 2 ^ 53"
proof (cases "rate * of_int (now - since) / 1000000 \<ge> cap")
  case True
  have "refill tokens (f64_elapsed since now) rate cap \<le> cap" by (simp add: refill_def)
  moreover have "0 \<le> 7 * cap / 2 ^ 53" using assms(3) by simp
  ultimately show ?thesis using True assms(1) by linarith
next
  case False
  define z where "z = rate * of_int (now - since) / 1000000"
  define a where "a = f64_elapsed since now * rate"
  define b where "b = f64_round a"
  define u where "u = cap / 2 ^ 53"
  have z: "0 \<le> z" "z \<le> cap" using False assms(4,5) by (simp_all add: z_def)
  have u: "0 \<le> u" "u \<le> cap / 4" using assms(3) by (simp_all add: u_def)
  have "a \<le> of_int (now - since) / 1000000 * (1 + 1 / 2 ^ 53) * rate"
    unfolding a_def using f64_elapsed_upper [OF assms(5)] assms(4) by (rule mult_right_mono)
  also have "\<dots> = z + z / 2 ^ 53" by (simp add: z_def field_simps)
  also have "z / 2 ^ 53 \<le> u" using z(2) by (simp add: u_def divide_right_mono)
  finally have a: "a \<le> z + u" by simp
  have a0: "0 \<le> a" using assms(4) by (simp add: a_def)
  have "b \<le> a + 2 * cap / 2 ^ 53"
    unfolding b_def using a0 a z u assms(3) by (intro f64_round_upper_absolute) linarith+
  then have b: "b \<le> z + 3 * u" using a by (simp add: u_def)
  have b0: "0 \<le> b" using a0 by (simp add: b_def f64_round_nonneg)
  have "f64_round (tokens + b) \<le> tokens + b + 4 * cap / 2 ^ 53"
    using assms(1,2,3) b b0 z u by (intro f64_round_upper_absolute) linarith+
  then have "f64_round (tokens + b) \<le> tokens + z + 7 * u" using b by (simp add: u_def)
  then show ?thesis by (simp add: refill_def z_def a_def b_def u_def)
qed

lemma spend_upper:
  assumes "0 \<le> tokens" and "tokens \<le> cap" and "1 \<le> cap" and "0 \<le> cost" and "allowed \<Longrightarrow> cost \<le> tokens"
  shows "(if allowed then cost else 0) + spend allowed tokens cost \<le> tokens + cap / 2 ^ 53"
proof (cases allowed)
  case True
  then have "f64_round (tokens - cost) \<le> tokens - cost + cap / 2 ^ 53"
    using assms by (intro f64_round_upper_absolute) auto
  with True show ?thesis by (simp add: spend_def)
next
  case False
  then show ?thesis using assms(3) by (simp add: spend_def)
qed

section \<open>The contract of a bucket\<close>

text \<open>Runs of a sequence of calls; the total of what they were allowed to spend.\<close>

fun total_spent :: "('c \<Rightarrow> 's \<Rightarrow> nat \<times> 's) \<Rightarrow> 'c list \<Rightarrow> 's \<Rightarrow> nat \<times> 's" where
  "total_spent step [] s = (0, s)"
| "total_spent step (c # cs) s =
     (let s1 = snd (step c s)
      in (fst (step c s) + fst (total_spent step cs s1), snd (total_spent step cs s1)))"

fun in_order :: "('c \<Rightarrow> 's \<Rightarrow> bool) \<Rightarrow> ('c \<Rightarrow> 's \<Rightarrow> nat \<times> 's) \<Rightarrow> 'c list \<Rightarrow> 's \<Rightarrow> bool" where
  "in_order ok step [] s = True"
| "in_order ok step (c # cs) s = (ok c s \<and> in_order ok step cs (snd (step c s)))"

locale metered =
  fixes step :: "'c \<Rightarrow> 's \<Rightarrow> nat \<times> 's"
    and ok :: "'c \<Rightarrow> 's \<Rightarrow> bool"
    and inv :: "'s \<Rightarrow> bool"
    and level :: "'s \<Rightarrow> rat"
    and clock :: "'s \<Rightarrow> instant"
    and rate :: rat
    and slack :: rat
  assumes inv_step: "inv s \<Longrightarrow> ok c s \<Longrightarrow> inv (snd (step c s))"
    and level_nonneg: "inv s \<Longrightarrow> 0 \<le> level s"
    and metered_step: "inv s \<Longrightarrow> ok c s \<Longrightarrow>
      of_nat (fst (step c s)) + level (snd (step c s))
      \<le> level s + rate * of_int (clock (snd (step c s)) - clock s) / 1000000 + slack"
begin

lemma inv_run:
  assumes "inv s" and "in_order ok step cs s"
  shows "inv (snd (total_spent step cs s))"
  using assms by (induction cs arbitrary: s) (auto simp: Let_def inv_step)

lemma metered_run:
  assumes "inv s" and "in_order ok step cs s"
  shows "of_nat (fst (total_spent step cs s)) + level (snd (total_spent step cs s))
    \<le> level s + rate * of_int (clock (snd (total_spent step cs s)) - clock s) / 1000000
      + of_nat (length cs) * slack"
  using assms
proof (induction cs arbitrary: s)
  case (Cons c cs)
  define s1 where "s1 = snd (step c s)"
  define s' where "s' = snd (total_spent step cs s1)"
  have ok: "ok c s" "in_order ok step cs s1" using Cons.prems(2) by (simp_all add: s1_def)
  have "inv s1" using inv_step [OF Cons.prems(1) ok(1)] by (simp add: s1_def)
  from Cons.IH [OF this ok(2)]
  have 1: "of_nat (fst (total_spent step cs s1)) + level s'
    \<le> level s1 + rate * of_int (clock s' - clock s1) / 1000000 + of_nat (length cs) * slack"
    by (simp only: s'_def)
  have 2: "of_nat (fst (step c s)) + level s1
      \<le> level s + rate * of_int (clock s1 - clock s) / 1000000 + slack"
    unfolding s1_def by (rule metered_step [OF Cons.prems(1) ok(1)])
  have 3: "rate * of_int (clock s' - clock s) / 1000000
      = rate * of_int (clock s' - clock s1) / 1000000 + rate * of_int (clock s1 - clock s) / 1000000"
    by (simp add: field_simps)
  have t: "total_spent step (c # cs) s
      = (fst (step c s) + fst (total_spent step cs s1), s')"
    by (simp add: Let_def s1_def s'_def)
  show ?case
    unfolding t fst_conv snd_conv 3 using 1 2 by (simp add: distrib_right)
qed simp

lemma spent_bound:
  assumes "inv s" and "in_order ok step cs s"
  shows "of_nat (fst (total_spent step cs s))
    \<le> level s + rate * of_int (clock (snd (total_spent step cs s)) - clock s) / 1000000
      + of_nat (length cs) * slack"
  using metered_run [OF assms] level_nonneg [OF inv_run [OF assms]] by linarith

end

section \<open>The buckets of the gateway\<close>

text \<open>Acquisitions of one cell with fixed rates, as steps on the database.\<close>

definition global_step ::
  "string \<Rightarrow> string \<Rightarrow> u64 \<Rightarrow> u64 \<Rightarrow> u64 \<Rightarrow> u64 \<Rightarrow> (bool \<Rightarrow> delivery_class \<Rightarrow> nat)
   \<Rightarrow> (instant \<times> instant \<times> instant) \<times> delivery_class \<Rightarrow> db \<Rightarrow> nat \<times> db" where
  "global_step n cell total_rate bulk_rate burst policy count c d =
     (case acquire_global_token (fst c) n cell (snd c) total_rate bulk_rate burst policy d of
        Inl _ \<Rightarrow> (0, d) | Inr (allowed, d') \<Rightarrow> (count allowed (snd c), d'))"

definition count_all :: "bool \<Rightarrow> delivery_class \<Rightarrow> nat" where
  "count_all allowed class = (if allowed then 1 else 0)"

definition count_bulk :: "bool \<Rightarrow> delivery_class \<Rightarrow> nat" where
  "count_bulk allowed class = (if allowed \<and> class = Bulk then 1 else 0)"

definition global_row :: "string \<Rightarrow> string \<Rightarrow> db \<Rightarrow> global_bucket_row option" where
  "global_row n cell d = row_of global_bucket_key (n, cell) (t_global_buckets d)"

text \<open>A bucket row that the operations left behind for the given burst.\<close>

definition bucket_inv :: "string \<Rightarrow> string \<Rightarrow> u64 \<Rightarrow> db \<Rightarrow> bool" where
  "bucket_inv n cell burst d \<longleftrightarrow> 1 \<le> unat burst \<and> unat burst \<le> 2 ^ 53 \<and>
     (\<exists>r. global_row n cell d = Some r
        \<and> 0 \<le> gb_total_tokens r \<and> gb_total_tokens r \<le> f64_of_u64 burst
        \<and> 0 \<le> gb_bulk_tokens r \<and> gb_bulk_tokens r \<le> bulk_capacity burst)"

definition clock_ok ::
  "string \<Rightarrow> string \<Rightarrow> (instant \<times> instant \<times> instant) \<times> delivery_class \<Rightarrow> db \<Rightarrow> bool" where
  "clock_ok n cell c d \<longleftrightarrow>
     (case (fst c, global_row n cell d) of
        ((t0, t1, t2), Some r) \<Rightarrow> gb_last_refill_at r \<le> t1 \<and> t1 \<le> t2
      | _ \<Rightarrow> False)"

lemma bulk_capacity_nat: "unat burst \<le> 2 ^ 53 \<Longrightarrow>
    bulk_capacity burst = of_nat (unat (max (sat_sub burst 1) 1)) \<and> unat (max (sat_sub burst 1) 1) \<le> 2 ^ 53"
proof -
  assume "unat burst \<le> 2 ^ 53"
  then have "unat (max (sat_sub burst 1) 1) \<le> 2 ^ 53"
    by (auto simp: max_def unat_sat_sub)
  then show ?thesis unfolding bulk_capacity_def by (simp only: f64_of_u64_exact simp_thms)
qed

lemma bulk_capacity_ge1: "unat burst \<le> 2 ^ 53 \<Longrightarrow> 1 \<le> bulk_capacity burst"
proof -
  assume "unat burst \<le> 2 ^ 53"
  moreover have "1 \<le> unat (max (sat_sub burst 1) 1)" by (simp add: max_def word_le_nat_alt)
  ultimately show ?thesis using bulk_capacity_nat [of burst]
    by (metis of_nat_1 of_nat_le_iff)
qed

lemma acquire_global_token_existing:
  fixes t1 :: instant and total_rate bulk_rate burst :: u64 and cl :: delivery_class
  assumes "global_row n cell d = Some r"
  defines "el \<equiv> f64_elapsed (gb_last_refill_at r) t1"
  defines "tot \<equiv> refill (gb_total_tokens r) el (f64_of_u64 total_rate) (f64_of_u64 burst)"
  defines "bulk \<equiv> refill (gb_bulk_tokens r) el (f64_of_u64 bulk_rate) (bulk_capacity burst)"
  defines "allowed \<equiv> 1 \<le> tot \<and> (cl = Interactive \<or> 1 \<le> bulk)"
  shows "\<exists>d' r'. acquire_global_token (t0, t1, t2) n cell cl total_rate bulk_rate burst policy d
      = Inr (allowed, d')
    \<and> global_row n cell d' = Some r' \<and> gb_last_refill_at r' = t2
    \<and> gb_total_tokens r' = spend allowed tot 1
    \<and> gb_bulk_tokens r' = spend (allowed \<and> cl = Bulk) bulk 1"
proof -
  from assms(1) have r: "row_of global_bucket_key (n, cell) (t_global_buckets d) = Some r"
    by (simp add: global_row_def)
  then have "(n, cell) \<in> global_bucket_key ` set (t_global_buckets d)"
    by (metis image_eqI row_of_Some)
  then have e: "ensure_bucket t0 n cell total_rate bulk_rate burst policy d = d"
    by (simp add: ensure_bucket_def upsert_do_nothing global_bucket_key_def)
  show ?thesis
    unfolding acquire_global_token_def
    by (simp add: e r Let_def global_row_def row_of_update_same global_bucket_key_def
        el_def tot_def bulk_def allowed_def)
      (use r in \<open>auto simp: global_bucket_key_def dest!: row_of_Some\<close>)
qed

text \<open>What one acquisition does to a bucket within its bounds.\<close>

lemma global_step_cases:
  assumes "bucket_inv n cell burst d" and "clock_ok n cell c d"
  obtains allowed d' r r' tot bulk t1 where
    "global_step n cell total_rate bulk_rate burst policy f c d = (f allowed (snd c), d')"
    "global_row n cell d = Some r" "global_row n cell d' = Some r'"
    "gb_last_refill_at r \<le> t1" "t1 \<le> gb_last_refill_at r'"
    "tot = refill (gb_total_tokens r) (f64_elapsed (gb_last_refill_at r) t1)
       (f64_of_u64 total_rate) (f64_of_u64 burst)"
    "bulk = refill (gb_bulk_tokens r) (f64_elapsed (gb_last_refill_at r) t1)
       (f64_of_u64 bulk_rate) (bulk_capacity burst)"
    "allowed \<longleftrightarrow> 1 \<le> tot \<and> (snd c = Interactive \<or> 1 \<le> bulk)"
    "gb_total_tokens r' = spend allowed tot 1"
    "gb_bulk_tokens r' = spend (allowed \<and> snd c = Bulk) bulk 1"
proof -
  obtain t0 t1 t2 cl where c: "c = ((t0, t1, t2), cl)" by (metis prod.collapse)
  from assms obtain r where r: "global_row n cell d = Some r" "gb_last_refill_at r \<le> t1" "t1 \<le> t2"
    by (auto simp: bucket_inv_def clock_ok_def c)
  show thesis
    using acquire_global_token_existing [OF r(1), where ?t0.0 = t0 and ?t1.0 = t1
        and ?t2.0 = t2 and cl = cl and total_rate = total_rate and bulk_rate = bulk_rate
        and burst = burst and policy = policy]
      r that [of _ _ r _ t1] by (auto simp: global_step_def c)
qed

lemma bucket_inv_step:
  assumes "bucket_inv n cell burst d" and "clock_ok n cell c d"
  shows "bucket_inv n cell burst (snd (global_step n cell total_rate bulk_rate burst policy f c d))"
proof -
  obtain allowed d' r r' tot bulk t1 where
    s: "global_step n cell total_rate bulk_rate burst policy f c d = (f allowed (snd c), d')"
    "global_row n cell d = Some r" "global_row n cell d' = Some r'"
    "gb_last_refill_at r \<le> t1" "t1 \<le> gb_last_refill_at r'"
    and tot: "tot = refill (gb_total_tokens r) (f64_elapsed (gb_last_refill_at r) t1)
       (f64_of_u64 total_rate) (f64_of_u64 burst)"
    and bulk: "bulk = refill (gb_bulk_tokens r) (f64_elapsed (gb_last_refill_at r) t1)
       (f64_of_u64 bulk_rate) (bulk_capacity burst)"
    and a: "allowed \<longleftrightarrow> 1 \<le> tot \<and> (snd c = Interactive \<or> 1 \<le> bulk)"
    and t: "gb_total_tokens r' = spend allowed tot 1"
    and b: "gb_bulk_tokens r' = spend (allowed \<and> snd c = Bulk) bulk 1"
    by (rule global_step_cases [OF assms(1,2)])
  have cap: "0 \<le> bulk_capacity burst" by (simp add: bulk_capacity_def)
  have small: "1 \<le> unat burst" "unat burst \<le> 2 ^ 53" using assms(1) by (auto simp: bucket_inv_def)
  have "0 \<le> gb_total_tokens r" "0 \<le> gb_bulk_tokens r"
    using assms(1) s(2) by (auto simp: bucket_inv_def)
  then have tb: "0 \<le> tot" "tot \<le> f64_of_u64 burst" "0 \<le> bulk" "bulk \<le> bulk_capacity burst"
    using cap by (simp_all add: tot bulk refill_bounds)
  have "0 \<le> spend allowed tot 1" "spend allowed tot 1 \<le> f64_of_u64 burst"
    using tb a small spend_le [of 1 allowed tot "unat burst"]
    by (auto simp: spend_nonneg f64_of_u64_exact simp del: of_nat_unat)
  moreover have ab: "1 \<le> bulk" if "allowed \<and> snd c = Bulk" using that a by auto
  then have "0 \<le> spend (allowed \<and> snd c = Bulk) bulk 1" by (rule spend_nonneg [OF tb(3)])
  moreover have "spend (allowed \<and> snd c = Bulk) bulk 1 \<le> bulk_capacity burst"
    using spend_le [of 1 "allowed \<and> snd c = Bulk" bulk, OF _ ab] tb(4) bulk_capacity_nat [OF small(2)]
    by (metis zero_le_one)
  ultimately show ?thesis using s t b small by (auto simp: bucket_inv_def)
qed

definition total_level :: "string \<Rightarrow> string \<Rightarrow> db \<Rightarrow> rat" where
  "total_level n cell d = (case global_row n cell d of None \<Rightarrow> 0 | Some r \<Rightarrow> gb_total_tokens r)"

definition bulk_level :: "string \<Rightarrow> string \<Rightarrow> db \<Rightarrow> rat" where
  "bulk_level n cell d = (case global_row n cell d of None \<Rightarrow> 0 | Some r \<Rightarrow> gb_bulk_tokens r)"

definition refilled_at :: "string \<Rightarrow> string \<Rightarrow> db \<Rightarrow> instant" where
  "refilled_at n cell d = (case global_row n cell d of None \<Rightarrow> 0 | Some r \<Rightarrow> gb_last_refill_at r)"

text \<open>The accounting of one step, for either of the two levels.\<close>

lemma metered_refill_spend:
  assumes "0 \<le> tokens" and "tokens \<le> cap" and "1 \<le> cap" and "0 \<le> rate"
    and "since \<le> t1" and "t1 \<le> t2" and "0 \<le> cost"
    and "x = refill tokens (f64_elapsed since t1) rate cap" and "allowed \<longrightarrow> cost \<le> x"
  shows "(if allowed then cost else 0) + spend allowed x cost
    \<le> tokens + rate * of_int (t2 - since) / 1000000 + cap / 2 ^ 50"
proof -
  have x: "0 \<le> x" "x \<le> cap" using assms by (simp_all add: refill_bounds)
  have 1: "(if allowed then cost else 0) + spend allowed x cost \<le> x + cap / 2 ^ 53"
    using assms(9) by (intro spend_upper [OF x assms(3,7)]) simp
  have 2: "x \<le> tokens + rate * of_int (t1 - since) / 1000000 + 7 * cap / 2 ^ 53"
    unfolding assms(8) by (rule refill_upper [OF assms(1-5)])
  have 3: "rate * of_int (t1 - since) / 1000000 \<le> rate * of_int (t2 - since) / 1000000"
    using assms(4,6) by (intro divide_right_mono mult_left_mono) simp_all
  have 4: "7 * cap / 2 ^ 53 + cap / 2 ^ 53 = cap / 2 ^ 50" by simp
  show ?thesis using 1 2 3 4 by linarith
qed

lemma total_metered:
  assumes "bucket_inv n cell burst d" and "clock_ok n cell c d"
    and st: "global_step n cell total_rate bulk_rate burst policy count_all c d = (k, d1)"
  shows "of_nat k + total_level n cell d1
    \<le> total_level n cell d
      + f64_of_u64 total_rate * of_int (refilled_at n cell d1 - refilled_at n cell d) / 1000000
      + f64_of_u64 burst / 2 ^ 50"
proof -
  obtain allowed d' r r' tot bulk t1 where
    s: "global_step n cell total_rate bulk_rate burst policy count_all c d
         = (count_all allowed (snd c), d')"
    "global_row n cell d = Some r" "global_row n cell d' = Some r'"
    and t1: "gb_last_refill_at r \<le> t1" "t1 \<le> gb_last_refill_at r'"
    and tot: "tot = refill (gb_total_tokens r) (f64_elapsed (gb_last_refill_at r) t1)
       (f64_of_u64 total_rate) (f64_of_u64 burst)"
    and a: "allowed \<longleftrightarrow> (1 :: rat) \<le> tot \<and> (snd c = Interactive \<or> (1 :: rat) \<le> bulk)"
    and t: "gb_total_tokens r' = spend allowed tot 1"
    by (rule global_step_cases [OF assms(1,2), where total_rate = total_rate
          and bulk_rate = bulk_rate and policy = policy and f = count_all]) blast
  have inv: "0 \<le> gb_total_tokens r" "gb_total_tokens r \<le> f64_of_u64 burst" "1 \<le> unat burst"
      "unat burst \<le> 2 ^ 53"
    using assms(1) s(2) by (auto simp: bucket_inv_def)
  have cap: "1 \<le> f64_of_u64 burst"
    unfolding f64_of_u64_exact [OF inv(4)] using inv(3) by (metis of_nat_1 of_nat_le_iff)
  have "allowed \<longrightarrow> 1 \<le> tot" using a by simp
  from metered_refill_spend [where allowed = allowed, OF inv(1,2) cap f64_of_u64_nonneg t1
      zero_le_one tot this]
  have "of_nat (count_all allowed (snd c)) + gb_total_tokens r' \<le> gb_total_tokens r
      + f64_of_u64 total_rate * of_int (gb_last_refill_at r' - gb_last_refill_at r) / 1000000
      + f64_of_u64 burst / 2 ^ 50"
    by (simp add: t count_all_def split: if_splits)
  then show ?thesis using s st by (simp add: total_level_def refilled_at_def)
qed

lemma bulk_metered:
  assumes "bucket_inv n cell burst d" and "clock_ok n cell c d"
    and st: "global_step n cell total_rate bulk_rate burst policy count_bulk c d = (k, d1)"
  shows "of_nat k + bulk_level n cell d1
    \<le> bulk_level n cell d
      + f64_of_u64 bulk_rate * of_int (refilled_at n cell d1 - refilled_at n cell d) / 1000000
      + bulk_capacity burst / 2 ^ 50"
proof -
  obtain allowed d' r r' tot bulk t1 where
    s: "global_step n cell total_rate bulk_rate burst policy count_bulk c d
         = (count_bulk allowed (snd c), d')"
    "global_row n cell d = Some r" "global_row n cell d' = Some r'"
    and t1: "gb_last_refill_at r \<le> t1" "t1 \<le> gb_last_refill_at r'"
    and bulk: "bulk = refill (gb_bulk_tokens r) (f64_elapsed (gb_last_refill_at r) t1)
       (f64_of_u64 bulk_rate) (bulk_capacity burst)"
    and a: "allowed \<longleftrightarrow> (1 :: rat) \<le> tot \<and> (snd c = Interactive \<or> (1 :: rat) \<le> bulk)"
    and b: "gb_bulk_tokens r' = spend (allowed \<and> snd c = Bulk) bulk 1"
    by (rule global_step_cases [OF assms(1,2), where total_rate = total_rate
          and bulk_rate = bulk_rate and policy = policy and f = count_bulk]) blast
  have inv: "0 \<le> gb_bulk_tokens r" "gb_bulk_tokens r \<le> bulk_capacity burst" "unat burst \<le> 2 ^ 53"
    using assms(1) s(2) by (auto simp: bucket_inv_def)
  have "allowed \<and> snd c = Bulk \<longrightarrow> 1 \<le> bulk" using a by auto
  from metered_refill_spend [where allowed = "allowed \<and> snd c = Bulk", OF inv(1,2)
      bulk_capacity_ge1 [OF inv(3)] f64_of_u64_nonneg t1 zero_le_one bulk this]
  have "of_nat (count_bulk allowed (snd c)) + gb_bulk_tokens r' \<le> gb_bulk_tokens r
      + f64_of_u64 bulk_rate * of_int (gb_last_refill_at r' - gb_last_refill_at r) / 1000000
      + bulk_capacity burst / 2 ^ 50"
    by (auto simp: b count_bulk_def split: if_splits)
  then show ?thesis using s st by (simp add: bulk_level_def refilled_at_def)
qed

interpretation total_bucket: metered
  "global_step n cell total_rate bulk_rate burst policy count_all" "clock_ok n cell"
  "bucket_inv n cell burst" "total_level n cell" "refilled_at n cell"
  "f64_of_u64 total_rate" "f64_of_u64 burst / 2 ^ 50"
  for n cell total_rate bulk_rate burst policy
proof
  show "bucket_inv n cell burst s \<Longrightarrow> 0 \<le> total_level n cell s" for s
    by (auto simp: bucket_inv_def total_level_def)
qed (erule (1) bucket_inv_step, erule (1) total_metered [OF _ _ prod.collapse [symmetric]])

interpretation bulk_bucket: metered
  "global_step n cell total_rate bulk_rate burst policy count_bulk" "clock_ok n cell"
  "bucket_inv n cell burst" "bulk_level n cell" "refilled_at n cell"
  "f64_of_u64 bulk_rate" "bulk_capacity burst / 2 ^ 50"
  for n cell total_rate bulk_rate burst policy
proof
  show "bucket_inv n cell burst s \<Longrightarrow> 0 \<le> bulk_level n cell s" for s
    by (auto simp: bucket_inv_def bulk_level_def)
qed (erule (1) bucket_inv_step, erule (1) bulk_metered [OF _ _ prod.collapse [symmetric]])

subsection \<open>The non-global bucket\<close>

definition cell_step ::
  "string \<Rightarrow> string \<Rightarrow> u64 \<Rightarrow> u64 \<Rightarrow> (instant \<times> instant \<times> instant) \<times> u64 \<Rightarrow> db \<Rightarrow> nat \<times> db" where
  "cell_step n cell rate policy c d =
     (case acquire_non_global_delivery_tokens (fst c) n cell (snd c) rate policy d of
        Inl _ \<Rightarrow> (0, d) | Inr (allowed, d') \<Rightarrow> (if allowed then unat (snd c) else 0, d'))"

definition cell_row :: "string \<Rightarrow> string \<Rightarrow> db \<Rightarrow> cell_bucket_row option" where
  "cell_row n cell d = row_of cell_bucket_key (n, cell) (t_cell_buckets d)"

definition cell_inv :: "string \<Rightarrow> string \<Rightarrow> u64 \<Rightarrow> db \<Rightarrow> bool" where
  "cell_inv n cell rate d \<longleftrightarrow> 1 \<le> unat rate \<and> unat rate \<le> 2 ^ 53 \<and>
     (\<exists>r. cell_row n cell d = Some r \<and> 0 \<le> nb_tokens r \<and> nb_tokens r \<le> f64_of_u64 rate)"

definition cell_clock_ok ::
  "string \<Rightarrow> string \<Rightarrow> (instant \<times> instant \<times> instant) \<times> u64 \<Rightarrow> db \<Rightarrow> bool" where
  "cell_clock_ok n cell c d \<longleftrightarrow>
     (case (fst c, cell_row n cell d) of
        ((t0, t1, t2), Some r) \<Rightarrow> nb_last_refill_at r \<le> t1 \<and> t1 \<le> t2
      | _ \<Rightarrow> False)"

definition cell_level :: "string \<Rightarrow> string \<Rightarrow> db \<Rightarrow> rat" where
  "cell_level n cell d = (case cell_row n cell d of None \<Rightarrow> 0 | Some r \<Rightarrow> nb_tokens r)"

definition cell_refilled_at :: "string \<Rightarrow> string \<Rightarrow> db \<Rightarrow> instant" where
  "cell_refilled_at n cell d = (case cell_row n cell d of None \<Rightarrow> 0 | Some r \<Rightarrow> nb_last_refill_at r)"

lemma acquire_cell_existing:
  assumes "cell_row n cell d = Some r" and "cost \<noteq> 0" and "cost \<le> rate"
    and "x = refill (nb_tokens r) (f64_elapsed (nb_last_refill_at r) t1) (f64_of_u64 rate)
       (f64_of_u64 rate)"
  shows "\<exists>d' r'. acquire_non_global_delivery_tokens (t0, t1, t2) n cell cost rate policy d
      = Inr (f64_of_u64 cost \<le> x, d')
    \<and> cell_row n cell d' = Some r' \<and> nb_last_refill_at r' = t2
    \<and> nb_tokens r' = spend (f64_of_u64 cost \<le> x) x (f64_of_u64 cost)"
proof -
  from assms(1) have r: "row_of cell_bucket_key (n, cell) (t_cell_buckets d) = Some r"
    by (simp add: cell_row_def)
  then have "(n, cell) \<in> cell_bucket_key ` set (t_cell_buckets d)"
    by (metis image_eqI row_of_Some)
  then have e: "ensure_cell_bucket t0 n cell rate policy d = d"
    by (simp add: ensure_cell_bucket_def upsert_do_nothing cell_bucket_key_def)
  have "rate \<noteq> 0 \<and> \<not> rate < cost" using assms(2,3) by auto
  then show ?thesis
    unfolding acquire_non_global_delivery_tokens_def
    by (simp add: assms(2) e r Let_def cell_row_def row_of_update_same cell_bucket_key_def
        assms(4) [symmetric])
      (use r in \<open>auto simp: cell_bucket_key_def dest!: row_of_Some\<close>)
qed

text \<open>One acquisition keeps the bucket within its bounds and is paid for.\<close>

lemma cell_step_metered:
  assumes "cell_inv n cell rate d" and "cell_clock_ok n cell c d"
    and st: "cell_step n cell rate policy c d = (k, d1)"
  shows "cell_inv n cell rate d1
    \<and> of_nat k + cell_level n cell d1 \<le> cell_level n cell d
      + f64_of_u64 rate * of_int (cell_refilled_at n cell d1 - cell_refilled_at n cell d) / 1000000
      + f64_of_u64 rate / 2 ^ 50"
proof (cases "snd c = 0 \<or> rate < snd c")
  case True
  then have "k = 0 \<and> d1 = d"
    using st by (auto simp: cell_step_def acquire_non_global_delivery_tokens_def split: if_splits)
  then show ?thesis using assms(1) by simp
next
  case False
  obtain t0 t1 t2 cost where c: "c = ((t0, t1, t2), cost)" by (metis prod.collapse)
  from assms(1,2) obtain r where r: "cell_row n cell d = Some r" "nb_last_refill_at r \<le> t1" "t1 \<le> t2"
    and inv: "0 \<le> nb_tokens r" "nb_tokens r \<le> f64_of_u64 rate" "1 \<le> unat rate" "unat rate \<le> 2 ^ 53"
    by (auto simp: cell_inv_def cell_clock_ok_def c)
  define x where "x = refill (nb_tokens r) (f64_elapsed (nb_last_refill_at r) t1) (f64_of_u64 rate)
       (f64_of_u64 rate)"
  define a where "a \<longleftrightarrow> f64_of_u64 cost \<le> x"
  have "cost \<noteq> 0" "cost \<le> rate" using False by (auto simp: c)
  from acquire_cell_existing [OF r(1) this x_def, of t0 t2 policy] obtain r' where
    r': "cell_row n cell d1 = Some r'" "nb_last_refill_at r' = t2"
      "nb_tokens r' = spend a x (f64_of_u64 cost)" and k: "k = (if a then unat cost else 0)"
    using st by (auto simp: cell_step_def c a_def)
  have x: "0 \<le> x" "x \<le> f64_of_u64 rate" using inv by (simp_all add: x_def refill_bounds)
  have "unat cost \<le> 2 ^ 53" using \<open>cost \<le> rate\<close> inv(4) by (simp add: word_le_nat_alt)
  note cost = f64_of_u64_exact [OF this]
  have cap: "1 \<le> f64_of_u64 rate"
    unfolding f64_of_u64_exact [OF inv(4)] using inv(3) by (metis of_nat_1 of_nat_le_iff)
  have a: "a \<longrightarrow> f64_of_u64 cost \<le> x" by (simp add: a_def)
  have "0 \<le> nb_tokens r'" using a r'(3) x(1) by (simp add: spend_nonneg)
  moreover have "nb_tokens r' \<le> f64_of_u64 rate"
    unfolding r'(3) f64_of_u64_exact [OF inv(4)]
    using a x(2) inv(4) by (intro spend_le) (simp_all add: f64_of_u64_exact del: of_nat_unat)
  moreover have "of_nat k + nb_tokens r' \<le> nb_tokens r
      + f64_of_u64 rate * of_int (t2 - nb_last_refill_at r) / 1000000 + f64_of_u64 rate / 2 ^ 50"
    using metered_refill_spend [OF inv(1,2) cap f64_of_u64_nonneg r(2,3) f64_of_u64_nonneg x_def a]
    by (simp add: k r'(3) cost split: if_splits)
  ultimately show ?thesis
    using r(1) r'(1,2) inv by (simp add: cell_inv_def cell_level_def cell_refilled_at_def)
qed

interpretation cell_bucket: metered
  "cell_step n cell rate policy" "cell_clock_ok n cell" "cell_inv n cell rate" "cell_level n cell"
  "cell_refilled_at n cell" "f64_of_u64 rate" "f64_of_u64 rate / 2 ^ 50"
  for n cell rate policy
proof
  show "cell_inv n cell rate s \<Longrightarrow> 0 \<le> cell_level n cell s" for s
    by (auto simp: cell_inv_def cell_level_def)
qed (use cell_step_metered [OF _ _ prod.collapse [symmetric]] in blast)+

subsection \<open>Both global levels over one run\<close>

lemma global_step_snd:
  "snd (global_step n cell tr br burst policy f c d) = snd (global_step n cell tr br burst policy g c d)"
  by (auto simp: global_step_def split: sum.splits)

lemma global_run_snd:
  "snd (total_spent (global_step n cell tr br burst policy f) cs d)
   = snd (total_spent (global_step n cell tr br burst policy g) cs d)"
  by (induction cs arbitrary: d) (simp_all add: Let_def global_step_snd [of n cell tr br burst policy f _ _ g])

lemma in_order_counts:
  "in_order ok (global_step n cell tr br burst policy f) cs d
   = in_order ok (global_step n cell tr br burst policy g) cs d"
  by (induction cs arbitrary: d) (simp_all add: global_step_snd [of n cell tr br burst policy f _ _ g])

text \<open>A bucket that an acquisition creates is full, so it satisfies the invariant.\<close>

lemma ensure_bucket_inv:
  assumes "global_row n cell d = None" and "1 \<le> unat burst" and "unat burst \<le> 2 ^ 53"
  shows "bucket_inv n cell burst (ensure_bucket t0 n cell tr br burst policy d)"
    and "total_level n cell (ensure_bucket t0 n cell tr br burst policy d) = f64_of_u64 burst"
  using assms
  by (auto simp: bucket_inv_def global_row_def ensure_bucket_def total_level_def
      global_buckets.row_of_upsert_cases global_bucket_key_def merged_def bulk_capacity_def
      split: option.splits)

section \<open>Properties\<close>

text \<open>
  C17. Global publishes are rate limited, in double precision: over any sequence of acquisitions of a
  cell whose clock reads do not run backwards, the number allowed is at most the burst plus the
  total rate times the elapsed seconds, and the number of bulk publishes allowed is at most the bulk
  capacity plus the bulk rate times the elapsed seconds (so bulk traffic cannot use the share
  reserved for interactive publishes), each up to a relative rounding error of \<open>2 ^ -50\<close> of the
  capacity per call.
\<close>

theorem global_rate_limited:
  fixes cs :: "((instant \<times> instant \<times> instant) \<times> delivery_class) list"
  assumes "bucket_inv n cell burst d"
    and "in_order (clock_ok n cell) (global_step n cell total_rate bulk_rate burst policy count_all) cs d"
    and "d' = snd (total_spent (global_step n cell total_rate bulk_rate burst policy count_all) cs d)"
    and "secs = of_int (refilled_at n cell d' - refilled_at n cell d) / 1000000"
  shows "of_nat (fst (total_spent
           (global_step n cell total_rate bulk_rate burst policy count_all) cs d))
      \<le> of_nat (unat burst) + f64_of_u64 total_rate * secs
        + of_nat (length cs) * (of_nat (unat burst) / 2 ^ 50)
    \<and> of_nat (fst (total_spent
           (global_step n cell total_rate bulk_rate burst policy count_bulk) cs d))
      \<le> bulk_capacity burst + f64_of_u64 bulk_rate * secs
        + of_nat (length cs) * (bulk_capacity burst / 2 ^ 50)"
proof -
  have d': "d' = snd (total_spent (global_step n cell total_rate bulk_rate burst policy count_bulk) cs d)"
    unfolding assms(3) by (rule global_run_snd)
  have bulk_order: "in_order (clock_ok n cell)
      (global_step n cell total_rate bulk_rate burst policy count_bulk) cs d"
    using assms(2) by (subst in_order_counts)
  have burst: "f64_of_u64 burst = of_nat (unat burst)"
    using assms(1) by (intro f64_of_u64_exact) (simp add: bucket_inv_def)
  have levels: "total_level n cell d \<le> of_nat (unat burst)" "bulk_level n cell d \<le> bulk_capacity burst"
    using assms(1) by (auto simp: bucket_inv_def total_level_def bulk_level_def burst)
  show ?thesis
    using total_bucket.spent_bound [OF assms(1,2)] bulk_bucket.spent_bound [OF assms(1) bulk_order] levels
    unfolding assms(3) [symmetric] d' [symmetric] burst assms(4) by (simp del: of_nat_unat)
qed

definition bucket_db :: db where
  "bucket_db = empty_db\<lparr>t_global_buckets :=
     [\<lparr>gb_network_id = ''net'', gb_cell = ''cell'', gb_policy_version = 1, gb_total_tokens = 10,
       gb_bulk_tokens = 9, gb_last_refill_at = 0, gb_total_rate = 5, gb_bulk_rate = 3, gb_burst = 10,
       gb_updated_at = 0\<rparr>],
     t_cell_buckets :=
     [\<lparr>nb_network_id = ''net'', nb_cell = ''cell'', nb_policy_version = 1, nb_tokens = 10,
       nb_last_refill_at = 0, nb_rate = 10, nb_burst = 10, nb_updated_at = 0\<rparr>]\<rparr>"

lemma bucket_db_inv:
  "bucket_inv ''net'' ''cell'' 10 bucket_db" "cell_inv ''net'' ''cell'' 10 bucket_db"
  by (simp_all add: bucket_inv_def bucket_db_def global_row_def row_of_def global_bucket_key_def
      f64_of_u64_exact bulk_capacity_def sat_sub_def max_def word_le_nat_alt cell_inv_def cell_row_def
      cell_bucket_key_def)

definition bucket_calls :: "((instant \<times> instant \<times> instant) \<times> delivery_class) list" where
  "bucket_calls = [((1, 1000000, 1000001), Bulk)]"

definition cell_calls :: "((instant \<times> instant \<times> instant) \<times> u64) list" where
  "cell_calls = [((1, 500000, 500001), 4)]"

theorem global_rate_limited_witness:
  "of_nat (fst (total_spent (global_step ''net'' ''cell'' 5 3 10 1 count_all) bucket_calls bucket_db))
      \<le> of_nat (unat (10 :: u64))
        + f64_of_u64 5 * (of_int (refilled_at ''net'' ''cell'' (snd (total_spent
            (global_step ''net'' ''cell'' 5 3 10 1 count_all) bucket_calls bucket_db))
              - refilled_at ''net'' ''cell'' bucket_db) / 1000000)
        + of_nat (length bucket_calls) * (of_nat (unat (10 :: u64)) / 2 ^ 50)"
  by (rule global_rate_limited [OF bucket_db_inv(1) _ refl refl, THEN conjunct1])
    (simp add: bucket_calls_def clock_ok_def bucket_db_def global_row_def row_of_def
      global_bucket_key_def)

text \<open>
  Non-global deliveries are rate limited by cost: over any sequence of acquisitions whose clock
  reads do not run backwards, the delivery costs allowed sum up to at most one second's worth of the
  rate plus the rate times the elapsed seconds, up to rounding.
\<close>

theorem non_global_rate_limited:
  assumes "cell_inv n cell rate d"
    and "in_order (cell_clock_ok n cell) (cell_step n cell rate policy) cs d"
    and "d' = snd (total_spent (cell_step n cell rate policy) cs d)"
  shows "of_nat (fst (total_spent (cell_step n cell rate policy) cs d))
    \<le> of_nat (unat rate)
      + of_nat (unat rate) * of_int (cell_refilled_at n cell d' - cell_refilled_at n cell d) / 1000000
      + of_nat (length cs) * (of_nat (unat rate) / 2 ^ 50 :: rat)"
proof -
  have rate: "f64_of_u64 rate = of_nat (unat rate)"
    using assms(1) by (intro f64_of_u64_exact) (simp add: cell_inv_def)
  have "cell_level n cell d \<le> of_nat (unat rate)"
    using assms(1) by (auto simp: cell_inv_def cell_level_def rate)
  then show ?thesis
    using cell_bucket.spent_bound [OF assms(1,2)] unfolding assms(3) rate by (simp del: of_nat_unat)
qed

theorem non_global_rate_limited_witness:
  "of_nat (fst (total_spent (cell_step ''net'' ''cell'' 10 1) cell_calls bucket_db))
    \<le> of_nat (unat (10 :: u64)) + of_nat (unat (10 :: u64))
        * of_int (cell_refilled_at ''net'' ''cell''
            (snd (total_spent (cell_step ''net'' ''cell'' 10 1) cell_calls bucket_db))
            - cell_refilled_at ''net'' ''cell'' bucket_db) / 1000000
      + of_nat (length cell_calls) * (of_nat (unat (10 :: u64)) / 2 ^ 50 :: rat)"
  by (rule non_global_rate_limited [OF bucket_db_inv(2) _ refl])
    (simp add: cell_calls_def cell_clock_ok_def bucket_db_def cell_row_def row_of_def
      cell_bucket_key_def)

end
