(* ===== verification/Observability.thy ===== *)
theory Observability
  imports Rate_Buckets Sample_Externs
begin

text \<open>
  The runtime metrics (\<open>observability.rs\<close>): \<open>RuntimeState\<close> with its counters, the latency samples and
  the fanout statistics per network, scope and lane; one definition per \<open>record_\<close> method, and the
  snapshots. A method that measures \<open>started.elapsed()\<close> takes the elapsed time as an argument.
\<close>

section \<open>Latency samples\<close>

record latency_samples =
  ls_count :: u64
  ls_total_ms :: u64
  ls_max_ms :: u64
  ls_samples_ms :: "u64 list"

definition no_samples :: latency_samples where
  "no_samples = \<lparr>ls_count = 0, ls_total_ms = 0, ls_max_ms = 0, ls_samples_ms = []\<rparr>"

text \<open>\<open>u64::try_from(elapsed.as_millis()).unwrap_or(u64::MAX)\<close>\<close>

definition clamp_u64 :: "nat \<Rightarrow> u64" where
  "clamp_u64 n = (if n < 2 ^ 64 then of_nat n else u64_max)"

definition observe :: "duration \<Rightarrow> latency_samples \<Rightarrow> latency_samples" where
  "observe elapsed s =
    (let millis = clamp_u64 elapsed;
         old = (if length (ls_samples_ms s) = 512 then tl (ls_samples_ms s) else ls_samples_ms s)
     in \<lparr>ls_count = sat_add (ls_count s) 1, ls_total_ms = sat_add (ls_total_ms s) millis,
         ls_max_ms = max (ls_max_ms s) millis, ls_samples_ms = old @ [millis]\<rparr>)"

definition percentile :: "u64 list \<Rightarrow> nat \<Rightarrow> u64" where
  "percentile samples p =
     (if samples = [] then 0 else samples ! ((length samples - 1) * p div 100))"

record latency_snapshot =
  lp_count :: u64
  lp_average_ms :: u64
  lp_max_ms :: u64
  lp_p50_ms :: u64
  lp_p95_ms :: u64

definition samples_snapshot :: "latency_samples \<Rightarrow> latency_snapshot" where
  "samples_snapshot s =
    (let samples = sort (ls_samples_ms s)
     in \<lparr>lp_count = ls_count s,
         lp_average_ms = (if ls_count s = 0 then 0 else ls_total_ms s div ls_count s),
         lp_max_ms = ls_max_ms s, lp_p50_ms = percentile samples 50,
         lp_p95_ms = percentile samples 95\<rparr>)"

section \<open>The runtime state\<close>

record fanout_runtime =
  fr_publishes :: u64
  fr_expected_recipients :: u64
  fr_recipient_deliveries :: u64
  fr_confirm_latency :: latency_samples

definition no_fanout :: fanout_runtime where
  "no_fanout = \<lparr>fr_publishes = 0, fr_expected_recipients = 0, fr_recipient_deliveries = 0,
     fr_confirm_latency = no_samples\<rparr>"

record runtime_state =
  rs_started_at :: u64
  rs_sessions_accepted :: u64
  rs_sessions_rejected :: u64
  rs_duplicate_publishes_suppressed :: u64
  rs_publish_nacks :: u64
  rs_publish_unroutable :: u64
  rs_publish_errors :: u64
  rs_binding_attempts :: u64
  rs_binding_failures :: u64
  rs_membership_updates :: u64
  rs_membership_update_failures :: u64
  rs_old_membership_version_rejections :: u64
  rs_global_backpressure :: u64
  rs_non_global_backpressure :: u64
  rs_postgres_fail_closed :: u64
  rs_delivery_pages :: u64
  rs_recipient_deliveries :: u64
  rs_mailbox_deliveries_pulled :: u64
  rs_redeliveries :: u64
  rs_local_commits :: u64
  rs_forwarded_commits :: u64
  rs_commit_forward_failures :: u64
  rs_owner_lost_requeues :: u64
  rs_dead_letters :: u64
  rs_dead_letter_bytes :: u64
  rs_expired_dead_letters :: u64
  rs_delivery_limit_dead_letters :: u64
  rs_confirm_latency :: latency_samples
  rs_delivery_page_latency :: latency_samples
  rs_commit_latency :: latency_samples
  rs_binding_latency :: latency_samples
  rs_membership_binding_latency :: latency_samples
  rs_global_token_acquire_latency :: latency_samples
  rs_non_global_token_acquire_latency :: latency_samples
  rs_fanout :: "(string \<times> fanout_runtime) list"

definition new_observability :: "u64 \<Rightarrow> runtime_state" where
  "new_observability now_ms =
    \<lparr>rs_started_at = now_ms, rs_sessions_accepted = 0, rs_sessions_rejected = 0,
     rs_duplicate_publishes_suppressed = 0, rs_publish_nacks = 0, rs_publish_unroutable = 0,
     rs_publish_errors = 0, rs_binding_attempts = 0, rs_binding_failures = 0,
     rs_membership_updates = 0, rs_membership_update_failures = 0,
     rs_old_membership_version_rejections = 0, rs_global_backpressure = 0,
     rs_non_global_backpressure = 0, rs_postgres_fail_closed = 0, rs_delivery_pages = 0,
     rs_recipient_deliveries = 0, rs_mailbox_deliveries_pulled = 0, rs_redeliveries = 0,
     rs_local_commits = 0, rs_forwarded_commits = 0, rs_commit_forward_failures = 0,
     rs_owner_lost_requeues = 0, rs_dead_letters = 0, rs_dead_letter_bytes = 0,
     rs_expired_dead_letters = 0, rs_delivery_limit_dead_letters = 0,
     rs_confirm_latency = no_samples, rs_delivery_page_latency = no_samples,
     rs_commit_latency = no_samples, rs_binding_latency = no_samples,
     rs_membership_binding_latency = no_samples, rs_global_token_acquire_latency = no_samples,
     rs_non_global_token_acquire_latency = no_samples, rs_fanout = []\<rparr>"

datatype publish_confirm_outcome = Confirmed | Nack | Unroutable | PublishError

text \<open>\<open>BTreeMap::entry(key).or_default()\<close> followed by an update of the entry.\<close>

fun entry_update :: "string \<Rightarrow> (fanout_runtime \<Rightarrow> fanout_runtime) \<Rightarrow> (string \<times> fanout_runtime) list
  \<Rightarrow> (string \<times> fanout_runtime) list" where
  "entry_update k f [] = [(k, f no_fanout)]"
| "entry_update k f ((k', v) # m) =
     (if k = k' then (k, f v) # m
      else if k < k' then (k, f no_fanout) # (k', v) # m
      else (k', v) # entry_update k f m)"

definition fanout_key :: "externs \<Rightarrow> string \<Rightarrow> swarm_scope \<Rightarrow> lane \<Rightarrow> string" where
  "fanout_key E network_id scope l =
     network_id @ ''|'' @ (case x_scope_label E scope of Inl _ \<Rightarrow> ''invalid'' | Inr s \<Rightarrow> s)
       @ ''|'' @ x_lane_str E l"

section \<open>Recording\<close>

definition record_session :: "bool \<Rightarrow> runtime_state \<Rightarrow> runtime_state" where
  "record_session accepted s =
     (if accepted then s\<lparr>rs_sessions_accepted := sat_add (rs_sessions_accepted s) 1\<rparr>
      else s\<lparr>rs_sessions_rejected := sat_add (rs_sessions_rejected s) 1\<rparr>)"

definition record_duplicate_publish :: "runtime_state \<Rightarrow> runtime_state" where
  "record_duplicate_publish s =
     s\<lparr>rs_duplicate_publishes_suppressed := sat_add (rs_duplicate_publishes_suppressed s) 1\<rparr>"

definition count_outcome :: "publish_confirm_outcome \<Rightarrow> runtime_state \<Rightarrow> runtime_state" where
  "count_outcome outcome s =
    (case outcome of
       Confirmed \<Rightarrow> s
     | Nack \<Rightarrow> s\<lparr>rs_publish_nacks := sat_add (rs_publish_nacks s) 1\<rparr>
     | Unroutable \<Rightarrow> s\<lparr>rs_publish_unroutable := sat_add (rs_publish_unroutable s) 1\<rparr>
     | PublishError \<Rightarrow> s\<lparr>rs_publish_errors := sat_add (rs_publish_errors s) 1\<rparr>)"

definition fanout_publish ::
  "u64 \<Rightarrow> duration \<Rightarrow> publish_confirm_outcome \<Rightarrow> fanout_runtime \<Rightarrow> fanout_runtime" where
  "fanout_publish expected elapsed outcome f =
     f\<lparr>fr_publishes := sat_add (fr_publishes f) 1,
       fr_expected_recipients := sat_add (fr_expected_recipients f) expected,
       fr_recipient_deliveries := (if outcome = Confirmed
         then sat_add (fr_recipient_deliveries f) expected else fr_recipient_deliveries f),
       fr_confirm_latency := observe elapsed (fr_confirm_latency f)\<rparr>"

definition record_publish_confirm ::
  "externs \<Rightarrow> string \<Rightarrow> swarm_scope \<Rightarrow> lane \<Rightarrow> u64 \<Rightarrow> duration \<Rightarrow> publish_confirm_outcome
   \<Rightarrow> runtime_state \<Rightarrow> runtime_state" where
  "record_publish_confirm E network_id scope l expected elapsed outcome s =
    (let s1 = count_outcome outcome
           (s\<lparr>rs_confirm_latency := observe elapsed (rs_confirm_latency s)\<rparr>);
         s2 = s1\<lparr>rs_fanout := entry_update (fanout_key E network_id scope l)
               (fanout_publish expected elapsed outcome) (rs_fanout s1)\<rparr>
     in if outcome = Confirmed
        then s2\<lparr>rs_recipient_deliveries := sat_add (rs_recipient_deliveries s2) expected\<rparr> else s2)"

definition record_binding :: "duration \<Rightarrow> bool \<Rightarrow> runtime_state \<Rightarrow> runtime_state" where
  "record_binding elapsed success s =
    (let s1 = s\<lparr>rs_binding_attempts := sat_add (rs_binding_attempts s) 1,
               rs_binding_latency := observe elapsed (rs_binding_latency s)\<rparr>
     in if success then s1
        else s1\<lparr>rs_binding_failures := sat_add (rs_binding_failures s1) 1\<rparr>)"

definition record_membership_update :: "duration \<Rightarrow> bool \<Rightarrow> runtime_state \<Rightarrow> runtime_state" where
  "record_membership_update elapsed success s =
    (let s1 = s\<lparr>rs_membership_binding_latency := observe elapsed (rs_membership_binding_latency s)\<rparr>
     in if success then s1\<lparr>rs_membership_updates := sat_add (rs_membership_updates s1) 1\<rparr>
        else s1\<lparr>rs_membership_update_failures := sat_add (rs_membership_update_failures s1) 1\<rparr>)"

definition record_old_membership_version_rejection :: "runtime_state \<Rightarrow> runtime_state" where
  "record_old_membership_version_rejection s =
     s\<lparr>rs_old_membership_version_rejections := sat_add (rs_old_membership_version_rejections s) 1\<rparr>"

definition record_backpressure :: "bool \<Rightarrow> runtime_state \<Rightarrow> runtime_state" where
  "record_backpressure global s =
     (if global then s\<lparr>rs_global_backpressure := sat_add (rs_global_backpressure s) 1\<rparr>
      else s\<lparr>rs_non_global_backpressure := sat_add (rs_non_global_backpressure s) 1\<rparr>)"

definition record_postgres_fail_closed :: "runtime_state \<Rightarrow> runtime_state" where
  "record_postgres_fail_closed s =
     s\<lparr>rs_postgres_fail_closed := sat_add (rs_postgres_fail_closed s) 1\<rparr>"

definition record_token_bucket_acquire :: "duration \<Rightarrow> bool \<Rightarrow> runtime_state \<Rightarrow> runtime_state" where
  "record_token_bucket_acquire elapsed global s =
     (if global
      then s\<lparr>rs_global_token_acquire_latency := observe elapsed (rs_global_token_acquire_latency s)\<rparr>
      else s\<lparr>rs_non_global_token_acquire_latency :=
               observe elapsed (rs_non_global_token_acquire_latency s)\<rparr>)"

definition record_delivery_page :: "duration \<Rightarrow> u64 \<Rightarrow> u64 \<Rightarrow> runtime_state \<Rightarrow> runtime_state" where
  "record_delivery_page elapsed deliveries redelivered s =
     s\<lparr>rs_delivery_pages := sat_add (rs_delivery_pages s) 1,
       rs_redeliveries := sat_add (rs_redeliveries s) redelivered,
       rs_delivery_page_latency := observe elapsed (rs_delivery_page_latency s),
       rs_mailbox_deliveries_pulled := sat_add (rs_mailbox_deliveries_pulled s) deliveries\<rparr>"

definition record_commit :: "duration \<Rightarrow> bool \<Rightarrow> bool \<Rightarrow> runtime_state \<Rightarrow> runtime_state" where
  "record_commit elapsed forwarded success s =
    (let s1 = s\<lparr>rs_commit_latency := observe elapsed (rs_commit_latency s)\<rparr>
     in if forwarded
        then let s2 = s1\<lparr>rs_forwarded_commits := sat_add (rs_forwarded_commits s1) 1\<rparr>
             in if success then s2
                else s2\<lparr>rs_commit_forward_failures := sat_add (rs_commit_forward_failures s2) 1\<rparr>
        else if success then s1\<lparr>rs_local_commits := sat_add (rs_local_commits s1) 1\<rparr> else s1)"

definition record_owner_lost_requeue :: "u64 \<Rightarrow> runtime_state \<Rightarrow> runtime_state" where
  "record_owner_lost_requeue n s =
     s\<lparr>rs_owner_lost_requeues := sat_add (rs_owner_lost_requeues s) n\<rparr>"

definition record_dead_letter :: "u64 \<Rightarrow> bool \<Rightarrow> runtime_state \<Rightarrow> runtime_state" where
  "record_dead_letter bytes expired s =
    (let s1 = s\<lparr>rs_dead_letters := sat_add (rs_dead_letters s) 1,
               rs_dead_letter_bytes := sat_add (rs_dead_letter_bytes s) bytes\<rparr>
     in if expired then s1\<lparr>rs_expired_dead_letters := sat_add (rs_expired_dead_letters s1) 1\<rparr>
        else s1\<lparr>rs_delivery_limit_dead_letters := sat_add (rs_delivery_limit_dead_letters s1) 1\<rparr>)"

text \<open>\<open>recipient_deliveries_per_second\<close> of the snapshot, in double precision.\<close>

definition deliveries_per_second :: "u64 \<Rightarrow> runtime_state \<Rightarrow> rat" where
  "deliveries_per_second now_ms s =
     f64_round (f64_of_u64 (rs_recipient_deliveries s)
       / f64_round (f64_of_u64 (max (sat_sub now_ms (rs_started_at s)) 1) / 1000))"

section \<open>Lemmas\<close>

fun observe_all :: "duration list \<Rightarrow> latency_samples \<Rightarrow> latency_samples" where
  "observe_all [] s = s"
| "observe_all (x # xs) s = observe_all xs (observe x s)"

text \<open>What a sequence of observations leaves behind.\<close>

definition window_of :: "duration list \<Rightarrow> u64 list" where
  "window_of xs = map clamp_u64 (drop (length xs - 512) xs)"

lemma observe_all_append: "observe_all (xs @ ys) s = observe_all ys (observe_all xs s)"
  by (induction xs arbitrary: s) simp_all

lemma observe_all_samples: "ls_samples_ms (observe_all xs no_samples) = window_of xs"
proof (induction xs rule: rev_induct)
  case Nil
  then show ?case by (simp add: no_samples_def window_of_def)
next
  case (snoc x xs)
  have "ls_samples_ms (observe_all (xs @ [x]) no_samples)
      = (if length (window_of xs) = 512 then tl (window_of xs) else window_of xs) @ [clamp_u64 x]"
    by (simp add: observe_all_append observe_def Let_def snoc)
  also have "\<dots> = window_of (xs @ [x])"
  proof (cases "512 \<le> length xs")
    case True
    then have "length (window_of xs) = 512" by (simp add: window_of_def)
    moreover have "tl (window_of xs) = map clamp_u64 (drop (Suc (length xs) - 512) xs)"
    proof -
      have "Suc (length xs) - 512 = Suc (length xs - 512)" using True by (rule Suc_diff_le)
      then show ?thesis
        by (simp only: window_of_def map_tl [symmetric] tl_drop drop_Suc)
    qed
    ultimately show ?thesis using True by (simp add: window_of_def)
  next
    case False
    then show ?thesis by (simp add: window_of_def)
  qed
  finally show ?case .
qed

lemma observe_all_max: "\<forall>x\<in>set xs. clamp_u64 x \<le> ls_max_ms (observe_all xs no_samples)"
  by (induction xs rule: rev_induct)
    (auto simp: observe_all_append observe_def Let_def max_def intro: order_trans)

lemma observe_all_count: "unat (ls_count (observe_all xs no_samples)) = min (length xs) (2 ^ 64 - 1)"
  by (induction xs rule: rev_induct)
    (auto simp: observe_all_append observe_def Let_def unat_sat_add no_samples_def)

lemma observe_all_total:
  "unat (ls_total_ms (observe_all xs no_samples))
   \<le> length xs * unat (ls_max_ms (observe_all xs no_samples))"
proof (induction xs rule: rev_induct)
  case (snoc x xs)
  let ?s = "observe_all xs no_samples"
  let ?m = "unat (max (ls_max_ms ?s) (clamp_u64 x))"
  have "unat (ls_max_ms ?s) \<le> ?m" "unat (clamp_u64 x) \<le> ?m"
    by (simp_all add: word_le_nat_alt [symmetric])
  moreover from this(1) have "length xs * unat (ls_max_ms ?s) \<le> length xs * ?m"
    by (rule mult_le_mono2)
  ultimately have "unat (ls_total_ms ?s) + unat (clamp_u64 x) \<le> ?m + length xs * ?m"
    using snoc by linarith
  then show ?case by (simp add: observe_all_append observe_def Let_def unat_sat_add min_le_iff_disj)
qed (simp add: no_samples_def)

lemma percentile_mono:
  assumes "sorted xs" and "p \<le> q" and "q \<le> 100"
  shows "percentile xs p \<le> percentile xs q"
proof (cases "xs = []")
  case False
  have "(length xs - 1) * p div 100 \<le> (length xs - 1) * q div 100"
    using assms(2) by (simp add: div_le_mono)
  moreover have "(length xs - 1) * q div 100 \<le> (length xs - 1) * 100 div 100"
    using assms(3) by (intro div_le_mono) simp
  moreover have "length xs - 1 < length xs" using False by (cases xs) simp_all
  ultimately have "xs ! ((length xs - 1) * p div 100) \<le> xs ! ((length xs - 1) * q div 100)"
    using assms(1) by (intro sorted_nth_mono) simp_all
  then show ?thesis using False by (simp add: percentile_def)
qed (simp add: percentile_def)

lemma percentile_in:
  assumes "xs \<noteq> []" and "p \<le> 100"
  shows "percentile xs p \<in> set xs"
proof -
  have "(length xs - 1) * p div 100 \<le> (length xs - 1) * 100 div 100"
    using assms(2) by (intro div_le_mono) simp
  then have "(length xs - 1) * p div 100 < length xs" using assms(1) by (cases xs) auto
  then show ?thesis using assms(1) by (simp add: percentile_def)
qed

section \<open>Properties\<close>

text \<open>
  Latency metrics are bounded and honest. After any sequence of measurements the stored samples
  are the last 512 of them, the count is their number (saturating), and the snapshot satisfies
  p50 \<open>\<le>\<close> p95 \<open>\<le>\<close> max and average \<open>\<le>\<close> max, with both percentiles among the stored samples.
\<close>

theorem latency_snapshot_sound:
  assumes "xs \<noteq> []" and "length xs < 2 ^ 64"
  shows "ls_samples_ms (observe_all xs no_samples) = map clamp_u64 (drop (length xs - 512) xs)
    \<and> (let n = samples_snapshot (observe_all xs no_samples) in
         unat (lp_count n) = length xs \<and> lp_p50_ms n \<le> lp_p95_ms n \<and> lp_p95_ms n \<le> lp_max_ms n
         \<and> lp_average_ms n \<le> lp_max_ms n
         \<and> {lp_p50_ms n, lp_p95_ms n} \<subseteq> set (ls_samples_ms (observe_all xs no_samples)))"
proof -
  let ?s = "observe_all xs no_samples"
  let ?w = "sort (window_of xs)"
  have "length xs - 512 < length xs" using assms(1) by (cases xs) simp_all
  then have "window_of xs \<noteq> []" by (simp add: window_of_def)
  then have ne: "?w \<noteq> []" by (metis set_empty set_sort)
  have p: "percentile ?w 50 \<in> set (window_of xs)" "percentile ?w 95 \<in> set (window_of xs)"
    using percentile_in [OF ne, of 50] percentile_in [OF ne, of 95] by simp_all
  have "set (window_of xs) \<subseteq> clamp_u64 ` set xs"
    using set_drop_subset by (fastforce simp: window_of_def)
  with p(2) observe_all_max [of xs] have "percentile ?w 95 \<le> ls_max_ms ?s" by auto
  moreover have "percentile ?w 50 \<le> percentile ?w 95" by (rule percentile_mono) simp_all
  moreover have c: "unat (ls_count ?s) = length xs" using assms(2) by (simp add: observe_all_count)
  moreover have "ls_total_ms ?s div ls_count ?s \<le> ls_max_ms ?s"
    using observe_all_total [of xs] assms(1)
    by (simp add: word_le_nat_alt unat_div c) (metis div_le_mono length_greater_0_conv
        nonzero_mult_div_cancel_left not_less_zero)
  ultimately show ?thesis
    using p assms(1) c
    by (simp add: samples_snapshot_def Let_def observe_all_samples window_of_def [symmetric])
qed

theorem latency_snapshot_sound_witness:
  "lp_p50_ms (samples_snapshot (observe_all [5, 9, 7] no_samples))
   \<le> lp_max_ms (samples_snapshot (observe_all [5, 9, 7] no_samples))"
  using latency_snapshot_sound [of "[5, 9, 7]"] by (auto simp: Let_def simp del: observe_all.simps)

end
