(* ===== verification/Config.thy ===== *)
theory Config
  imports Prelude
begin

text \<open>
  \<open>config.rs\<close> of the message gateway: the \<open>Config\<close> structure, its construction from the process
  environment (\<open>from_env\<close>, \<open>number\<close>, \<open>required\<close>, \<open>optional_secret_file\<close>,
  \<open>load_trusted_network_genesis\<close>) and \<open>validate\<close>, whose capacity inequalities bound what the
  admission checks of the other components later accept. Durations are milliseconds; the trusted
  genesis map is the association list of the \<open>BTreeMap\<close>.
\<close>

record config =
  bind_addr :: string
  database_url :: string
  rabbitmq_endpoint :: string
  rabbitmq_username :: string
  rabbitmq_password :: string
  rabbitmq_prefetch :: nat
  delivery_page_size :: nat
  mailbox_message_ttl_ms :: u64
  mailbox_max_length_bytes :: u64
  dead_letter_max_length_bytes :: u64
  max_delivery_attempts :: nat
  cluster_queue_limit :: u64
  mailbox_shard_admission_percent :: u64
  max_active_tenants :: u64
  max_fanout_recipients :: u64
  max_fanout_deliveries_per_second :: u64
  max_fanout_bytes_per_publish :: u64
  fanout_confirm_timeout :: duration
  max_global_publishes_per_second :: u64
  global_publish_burst :: u64
  global_interactive_reserved_per_second :: u64
  reserved_non_global_deliveries_per_second :: u64
  fanout_admission_utilization_percent :: u64
  commit_hmac_secret :: string
  session_ttl :: duration
  object_store_root :: "string option"
  max_object_bytes :: u64
  membership_binding_timeout :: duration
  membership_mutation_window :: duration
  max_membership_mutations_per_scope_per_window :: u64
  max_membership_binding_lag :: duration
  instance_id :: string
  internal_route :: "string option"
  internal_bind_addr :: "string option"
  internal_mtls_identity_pem :: "string option"
  internal_mtls_ca_pem :: "string option"
  delivery_owner_lease :: duration
  delivery_commit_forward_timeout :: duration
  metadata_cleanup_interval :: duration
  acknowledged_gap_retention :: duration
  trusted_network_genesis :: "(string \<times> string) list"

section \<open>Validation\<close>

text \<open>\<open>matches!(hex::decode(id), Ok(bytes) if bytes.len() == 32)\<close>\<close>

definition is_node_id :: "string \<Rightarrow> bool" where
  "is_node_id s = (case hex_decode s of None \<Rightarrow> False | Some b \<Rightarrow> length b = 32)"

definition admitted_queues :: "config \<Rightarrow> u64" where
  "admitted_queues c = sat_mul (cluster_queue_limit c) (mailbox_shard_admission_percent c) div 100"

definition safe_delivery_rate :: "config \<Rightarrow> u64" where
  "safe_delivery_rate c =
     sat_mul (max_fanout_deliveries_per_second c) (fanout_admission_utilization_percent c) div 100"

definition queue_budget :: "u64 \<Rightarrow> u64" where
  "queue_budget tenants = sat_add (sat_mul tenants 2) 16"

definition required_delivery_rate :: "config \<Rightarrow> u64 \<Rightarrow> u64" where
  "required_delivery_rate c tenants =
     sat_add (sat_mul (max_global_publishes_per_second c) tenants)
       (reserved_non_global_deliveries_per_second c)"

definition internal_values :: "config \<Rightarrow> bool list" where
  "internal_values c =
     [internal_route c \<noteq> None, internal_bind_addr c \<noteq> None,
      internal_mtls_identity_pem c \<noteq> None, internal_mtls_ca_pem c \<noteq> None]"

definition validate :: "config \<Rightarrow> unit result" where
  "validate c =
    (if \<not> starts_with ''amqps://'' (rabbitmq_endpoint c) then
       Inl ''RabbitMQ endpoint must use amqps''
     else if rabbitmq_password c = [] \<or> length (commit_hmac_secret c) < 32 then
       Inl ''RabbitMQ password and a 32-byte commit secret are required''
     else if delivery_page_size c = 0 \<or> rabbitmq_prefetch c = 0 then
       Inl ''delivery page size and RabbitMQ prefetch must be positive''
     else if max_object_bytes c = 0 \<or> max_fanout_bytes_per_publish c = 0
       \<or> dead_letter_max_length_bytes c = 0 then
       Inl ''CS Object Store maximum object size must be positive''
     else if max_membership_mutations_per_scope_per_window c = 0
       \<or> membership_binding_timeout c = 0 \<or> membership_mutation_window c = 0
       \<or> max_membership_binding_lag c = 0 \<or> delivery_owner_lease c = 0
       \<or> delivery_commit_forward_timeout c = 0 \<or> metadata_cleanup_interval c = 0
       \<or> acknowledged_gap_retention c = 0 \<or> fanout_confirm_timeout c = 0 then
       Inl ''membership and delivery-owner limits must be positive''
     else if (case internal_route c of None \<Rightarrow> False | Some r \<Rightarrow> \<not> starts_with ''https://'' r) then
       Inl ''Gateway internal owner route must use HTTPS''
     else if list_ex (\<lambda>v. v) (internal_values c) \<and> list_ex (\<lambda>v. \<not> v) (internal_values c) then
       Inl ''Gateway internal owner forwarding requires route, bind address, mTLS identity, and CA''
     else if max_fanout_recipients c < max_active_tenants c then
       Inl ''MAX_FANOUT_RECIPIENTS must cover every active tenant''
     else if list_ex (\<lambda>(network_id, node_id). blank network_id \<or> \<not> is_node_id node_id)
       (trusted_network_genesis c) then
       Inl ''trusted network genesis entries require a network id and Ed25519 node id''
     else if admitted_queues c < queue_budget (max_active_tenants c) then
       Inl ''two-mailbox tenant queue budget exceeds RabbitMQ admission threshold''
     else if max_global_publishes_per_second c = 0
       \<or> global_interactive_reserved_per_second c = 0
       \<or> max_global_publishes_per_second c < global_interactive_reserved_per_second c
       \<or> reserved_non_global_deliveries_per_second c = 0 then
       Inl ''invalid Global publish, Interactive reserve, or non-Global delivery rate''
     else if safe_delivery_rate c < required_delivery_rate c (max_active_tenants c) then
       Inl ''Global fanout delivery-rate admission invariant is not satisfied''
     else Inr ())"

section \<open>Construction from the environment\<close>

text \<open>
  What the process reads from its host: environment variables, files (as bytes and as UTF-8 text),
  the textual form of a parsed socket address, a fresh UUID and the JSON decoder of the genesis map.
\<close>

record host =
  host_var :: "string \<Rightarrow> string option"
  host_read :: "string \<Rightarrow> string result"
  host_read_text :: "string \<Rightarrow> string result"
  host_parse_addr :: "string \<Rightarrow> string result"
  host_uuid :: string
  host_decode_genesis :: "string \<Rightarrow> ((string \<times> string) list) result"

definition required :: "host \<Rightarrow> string \<Rightarrow> string result" where
  "required h k = or_err (host_var h k) (k @ '' is required'')"

definition optional_secret_file :: "host \<Rightarrow> string \<Rightarrow> string option result" where
  "optional_secret_file h k =
     (case host_var h k of
        None \<Rightarrow> Inr None
      | Some path \<Rightarrow> (case host_read h path of Inl m \<Rightarrow> Inl (''read '' @ k) | Inr b \<Rightarrow> Inr (Some b)))"

definition load_trusted_network_genesis :: "host \<Rightarrow> ((string \<times> string) list) result" where
  "load_trusted_network_genesis h =
     (case host_var h ''WATTSWARM_CS_TRUSTED_NETWORK_GENESIS_FILE'' of
        None \<Rightarrow> Inr []
      | Some path \<Rightarrow>
          (case host_read h path of
             Inl m \<Rightarrow> Inl (''read WATTSWARM_CS_TRUSTED_NETWORK_GENESIS_FILE '' @ path)
           | Inr bytes \<Rightarrow>
               (case host_decode_genesis h bytes of
                  Inl m \<Rightarrow> Inl ''decode trusted network genesis map''
                | Inr g \<Rightarrow> Inr g)))"

text \<open>\<open>number(key, default)\<close> at a type with maximum \<open>m\<close>.\<close>

definition number :: "host \<Rightarrow> nat \<Rightarrow> string \<Rightarrow> nat \<Rightarrow> nat result" where
  "number h m k d =
     or_err (parse_unsigned m (case host_var h k of None \<Rightarrow> decimal d | Some v \<Rightarrow> v)) (''parse '' @ k)"

definition number_u64 :: "host \<Rightarrow> string \<Rightarrow> nat \<Rightarrow> u64 result" where
  "number_u64 h k d = and_then (number h (2 ^ 64 - 1) k d) (\<lambda>n. Inr (of_nat n))"

definition millis :: "host \<Rightarrow> string \<Rightarrow> nat \<Rightarrow> duration result" where
  "millis h k d = number h (2 ^ 64 - 1) k d"

definition seconds :: "host \<Rightarrow> string \<Rightarrow> nat \<Rightarrow> duration result" where
  "seconds h k d = and_then (number h (2 ^ 64 - 1) k d) (\<lambda>n. Inr (n * 1000))"

definition var_or :: "host \<Rightarrow> string \<Rightarrow> string \<Rightarrow> string" where
  "var_or h k d = (case host_var h k of None \<Rightarrow> d | Some v \<Rightarrow> v)"

definition optional_addr :: "host \<Rightarrow> string \<Rightarrow> string option result" where
  "optional_addr h k =
     (case host_var h k of None \<Rightarrow> Inr None | Some v \<Rightarrow> and_then (host_parse_addr h v) (\<lambda>a. Inr (Some a)))"

definition from_env :: "host \<Rightarrow> config result" where
  "from_env h =
    and_then (bail_if (var_or h ''WATTSWARM_CS_MESSAGE_BUS'' ''rabbitmq'' \<noteq> ''rabbitmq'')
      ''WATTSWARM_CS_MESSAGE_BUS must be rabbitmq in V1'') (\<lambda>_.
    and_then (required h ''WATTSWARM_RABBITMQ_PASSWORD_FILE'') (\<lambda>password_file.
    and_then (required h ''WATTSWARM_CS_COMMIT_HMAC_SECRET_FILE'') (\<lambda>commit_secret_file.
    and_then (host_parse_addr h (var_or h ''WATTSWARM_CS_BIND_ADDR'' ''0.0.0.0:8090'')) (\<lambda>addr.
    and_then (required h ''WATTSWARM_CS_DATABASE_URL'') (\<lambda>db_url.
    and_then (required h ''WATTSWARM_RABBITMQ_ENDPOINT'') (\<lambda>endpoint.
    and_then (required h ''WATTSWARM_RABBITMQ_USERNAME'') (\<lambda>username.
    and_then (host_read_text h password_file) (\<lambda>password.
    and_then (number h 65535 ''WATTSWARM_RABBITMQ_PREFETCH'' 128) (\<lambda>prefetch.
    and_then (number h (2 ^ 64 - 1) ''WATTSWARM_CS_DELIVERY_PAGE_SIZE'' 64) (\<lambda>page_size.
    and_then (number_u64 h ''WATTSWARM_RABBITMQ_MAILBOX_MESSAGE_TTL'' 86400000) (\<lambda>ttl.
    and_then (number_u64 h ''WATTSWARM_RABBITMQ_MAILBOX_MAX_LENGTH_BYTES'' 268435456) (\<lambda>max_len.
    and_then (number_u64 h ''WATTSWARM_RABBITMQ_DEAD_LETTER_MAX_LENGTH_BYTES'' 268435456) (\<lambda>dl_len.
    and_then (number h (2 ^ 32 - 1) ''WATTSWARM_RABBITMQ_MAX_DELIVERY_ATTEMPTS'' 10) (\<lambda>attempts.
    and_then (number_u64 h ''WATTSWARM_RABBITMQ_CLUSTER_QUEUE_LIMIT'' 1000) (\<lambda>queue_limit.
    and_then (number_u64 h ''WATTSWARM_CS_MAILBOX_SHARD_ADMISSION_PERCENT'' 80) (\<lambda>shard_pct.
    and_then (number_u64 h ''WATTSWARM_CS_MAX_ACTIVE_TENANTS_PER_NETWORK_CELL'' 400) (\<lambda>tenants.
    and_then (number_u64 h ''WATTSWARM_CS_MAX_FANOUT_RECIPIENTS'' 400) (\<lambda>recipients.
    and_then (number_u64 h ''WATTSWARM_CS_MAX_FANOUT_DELIVERIES_PER_SECOND'' 100000) (\<lambda>deliveries.
    and_then (number_u64 h ''WATTSWARM_CS_MAX_FANOUT_BYTES_PER_PUBLISH'' 67108864) (\<lambda>fan_bytes.
    and_then (millis h ''WATTSWARM_CS_FANOUT_CONFIRM_TIMEOUT'' 10000) (\<lambda>confirm_timeout.
    and_then (number_u64 h ''WATTSWARM_CS_MAX_GLOBAL_PUBLISHES_PER_SECOND'' 100) (\<lambda>publishes.
    and_then (number_u64 h ''WATTSWARM_CS_GLOBAL_PUBLISH_BURST'' 20) (\<lambda>burst.
    and_then (number_u64 h ''WATTSWARM_CS_GLOBAL_INTERACTIVE_RESERVED_PER_SECOND'' 10) (\<lambda>reserved.
    and_then (number_u64 h ''WATTSWARM_CS_RESERVED_NON_GLOBAL_DELIVERIES_PER_SECOND'' 10000) (\<lambda>non_global.
    and_then (number_u64 h ''WATTSWARM_CS_FANOUT_ADMISSION_UTILIZATION_PERCENT'' 80) (\<lambda>util_pct.
    and_then (host_read h commit_secret_file) (\<lambda>secret.
    and_then (seconds h ''WATTSWARM_CS_SESSION_TTL_SECONDS'' 900) (\<lambda>ttl_session.
    and_then (number_u64 h ''WATTSWARM_CS_MAX_OBJECT_BYTES'' 67108864) (\<lambda>object_bytes.
    and_then (millis h ''WATTSWARM_CS_MEMBERSHIP_BINDING_TIMEOUT'' 10000) (\<lambda>binding_timeout.
    and_then (millis h ''WATTSWARM_CS_MEMBERSHIP_MUTATION_WINDOW'' 60000) (\<lambda>window.
    and_then (number_u64 h ''WATTSWARM_CS_MAX_MEMBERSHIP_MUTATIONS_PER_SCOPE_PER_WINDOW'' 100) (\<lambda>mutations.
    and_then (millis h ''WATTSWARM_CS_MAX_MEMBERSHIP_BINDING_LAG'' 30000) (\<lambda>lag.
    and_then (optional_addr h ''WATTSWARM_CS_INTERNAL_BIND_ADDR'') (\<lambda>internal_addr.
    and_then (optional_secret_file h ''WATTSWARM_CS_INTERNAL_MTLS_IDENTITY_FILE'') (\<lambda>identity.
    and_then (optional_secret_file h ''WATTSWARM_CS_INTERNAL_MTLS_CA_FILE'') (\<lambda>ca.
    and_then (millis h ''WATTSWARM_CS_DELIVERY_OWNER_LEASE'' 30000) (\<lambda>lease.
    and_then (millis h ''WATTSWARM_CS_DELIVERY_COMMIT_FORWARD_TIMEOUT'' 5000) (\<lambda>forward_timeout.
    and_then (millis h ''WATTSWARM_CS_METADATA_CLEANUP_INTERVAL'' 60000) (\<lambda>cleanup.
    and_then (millis h ''WATTSWARM_CS_ACKNOWLEDGED_GAP_RETENTION'' 86400000) (\<lambda>retention.
    and_then (load_trusted_network_genesis h) (\<lambda>genesis.
    (let c = \<lparr>bind_addr = addr, database_url = db_url, rabbitmq_endpoint = endpoint,
        rabbitmq_username = username, rabbitmq_password = trim password,
        rabbitmq_prefetch = prefetch, delivery_page_size = page_size,
        mailbox_message_ttl_ms = ttl, mailbox_max_length_bytes = max_len,
        dead_letter_max_length_bytes = dl_len, max_delivery_attempts = attempts,
        cluster_queue_limit = queue_limit, mailbox_shard_admission_percent = shard_pct,
        max_active_tenants = tenants, max_fanout_recipients = recipients,
        max_fanout_deliveries_per_second = deliveries,
        max_fanout_bytes_per_publish = fan_bytes, fanout_confirm_timeout = confirm_timeout,
        max_global_publishes_per_second = publishes, global_publish_burst = burst,
        global_interactive_reserved_per_second = reserved,
        reserved_non_global_deliveries_per_second = non_global,
        fanout_admission_utilization_percent = util_pct, commit_hmac_secret = secret,
        session_ttl = ttl_session,
        object_store_root = host_var h ''WATTSWARM_CS_OBJECT_STORE_ROOT'',
        max_object_bytes = object_bytes, membership_binding_timeout = binding_timeout,
        membership_mutation_window = window,
        max_membership_mutations_per_scope_per_window = mutations,
        max_membership_binding_lag = lag,
        instance_id = var_or h ''WATTSWARM_CS_INSTANCE_ID'' (host_uuid h),
        internal_route = host_var h ''WATTSWARM_CS_INTERNAL_ROUTE'',
        internal_bind_addr = internal_addr, internal_mtls_identity_pem = identity,
        internal_mtls_ca_pem = ca, delivery_owner_lease = lease,
        delivery_commit_forward_timeout = forward_timeout,
        metadata_cleanup_interval = cleanup, acknowledged_gap_retention = retention,
        trusted_network_genesis = genesis\<rparr>
     in and_then (validate c) (\<lambda>_. Inr c)))))))))))))))))))))))))))))))))))))))))))"

text \<open>The configuration the unit tests of \<open>config.rs\<close> call valid.\<close>

definition valid :: config where
  "valid =
    \<lparr>bind_addr = ''127.0.0.1:8090'', database_url = ''postgres://secret'',
     rabbitmq_endpoint = ''amqps://broker/vhost'', rabbitmq_username = ''user'',
     rabbitmq_password = ''contract-secret-password'', rabbitmq_prefetch = 128,
     delivery_page_size = 64, mailbox_message_ttl_ms = 1000,
     mailbox_max_length_bytes = 1000000, dead_letter_max_length_bytes = 1000000,
     max_delivery_attempts = 10, cluster_queue_limit = 1100,
     mailbox_shard_admission_percent = 80, max_active_tenants = 400,
     max_fanout_recipients = 400, max_fanout_deliveries_per_second = 100000,
     max_fanout_bytes_per_publish = 67108864, fanout_confirm_timeout = 10000,
     max_global_publishes_per_second = 100, global_publish_burst = 20,
     global_interactive_reserved_per_second = 10,
     reserved_non_global_deliveries_per_second = 10000,
     fanout_admission_utilization_percent = 80,
     commit_hmac_secret = replicate 32 (CHR 0x01), session_ttl = 900000,
     object_store_root = None, max_object_bytes = 67108864,
     membership_binding_timeout = 10000, membership_mutation_window = 60000,
     max_membership_mutations_per_scope_per_window = 100,
     max_membership_binding_lag = 30000, instance_id = ''gateway-test'',
     internal_route = None, internal_bind_addr = None, internal_mtls_identity_pem = None,
     internal_mtls_ca_pem = None, delivery_owner_lease = 30000,
     delivery_commit_forward_timeout = 5000, metadata_cleanup_interval = 60000,
     acknowledged_gap_retention = 86400000, trusted_network_genesis = []\<rparr>"

section \<open>Lemmas\<close>

lemma validate_Inr:
  assumes "validate c = Inr u"
  shows "rabbitmq_password c \<noteq> []" and "32 \<le> length (commit_hmac_secret c)"
    and "0 < delivery_page_size c" and "0 < rabbitmq_prefetch c"
    and "0 < delivery_owner_lease c"
    and "max_active_tenants c \<le> max_fanout_recipients c"
    and "queue_budget (max_active_tenants c) \<le> admitted_queues c"
    and "0 < max_global_publishes_per_second c"
    and "0 < global_interactive_reserved_per_second c"
    and "global_interactive_reserved_per_second c \<le> max_global_publishes_per_second c"
    and "0 < reserved_non_global_deliveries_per_second c"
    and "required_delivery_rate c (max_active_tenants c) \<le> safe_delivery_rate c"
  using assms by (auto simp: validate_def word_neq_0_conv split: if_splits)

lemma queue_budget_sound:
  "queue_budget n \<le> admitted_queues c \<Longrightarrow>
   2 * unat n + 16 \<le> unat (cluster_queue_limit c) * unat (mailbox_shard_admission_percent c) div 100"
  unfolding admitted_queues_def
  by (rule saturated_budget_sound) (auto simp: queue_budget_def u64_simps min_def)

lemma required_delivery_rate_sound:
  "required_delivery_rate c n \<le> safe_delivery_rate c \<Longrightarrow>
   unat (max_global_publishes_per_second c) * unat n
     + unat (reserved_non_global_deliveries_per_second c)
   \<le> unat (max_fanout_deliveries_per_second c) * unat (fanout_admission_utilization_percent c) div 100"
  unfolding safe_delivery_rate_def
  by (rule saturated_budget_sound) (auto simp: required_delivery_rate_def u64_simps min_def)

lemma queue_budget_mono: "m \<le> n \<Longrightarrow> queue_budget m \<le> queue_budget n"
  by (simp add: queue_budget_def sat_add_mono sat_mul_mono)

lemma required_delivery_rate_mono:
  "m \<le> n \<Longrightarrow> required_delivery_rate c m \<le> required_delivery_rate c n"
  by (simp add: required_delivery_rate_def sat_add_mono sat_mul_mono)

lemma number_default:
  "host_var h k = None \<Longrightarrow> d \<le> m \<Longrightarrow> number h m k d = Inr d"
  by (simp add: number_def parse_decimal)

lemma valid_ok: "validate valid = Inr ()"
  by (simp add: validate_def valid_def starts_with_def internal_values_def admitted_queues_def
      queue_budget_def safe_delivery_rate_def required_delivery_rate_def sat_mul_def sat_add_def)

section \<open>Properties\<close>

text \<open>
  C21. A configuration that passes validation satisfies its capacity inequalities over the natural
  numbers, without the saturation of the 64-bit arithmetic: the two mailboxes per tenant and the
  sixteen infrastructure queues fit the admitted share of the queue limit, the Global publish rate
  times the tenants plus the reserved rate fits the safe delivery rate, and the fanout bound covers
  every active tenant.
\<close>

theorem validate_capacity:
  assumes "validate c = Inr ()"
  shows "2 * unat (max_active_tenants c) + 16
           \<le> unat (cluster_queue_limit c) * unat (mailbox_shard_admission_percent c) div 100
    \<and> unat (max_global_publishes_per_second c) * unat (max_active_tenants c)
           + unat (reserved_non_global_deliveries_per_second c)
         \<le> unat (max_fanout_deliveries_per_second c)
           * unat (fanout_admission_utilization_percent c) div 100
    \<and> unat (max_active_tenants c) \<le> unat (max_fanout_recipients c)
    \<and> 32 \<le> length (commit_hmac_secret c)"
  using validate_Inr [OF assms] queue_budget_sound required_delivery_rate_sound
  by (auto simp: word_le_nat_alt)

theorem validate_capacity_witness:
  "validate valid = Inr () \<and> 2 * unat (max_active_tenants valid) + 16 \<le> 880"
proof -
  have "unat (cluster_queue_limit valid) * unat (mailbox_shard_admission_percent valid) div 100 = 880"
    by (simp add: valid_def)
  then show ?thesis using valid_ok validate_capacity [OF valid_ok] by simp
qed

text \<open>
  The built-in defaults of the queue limit (1000), the admission percentage (80) and the tenant
  maximum (400) are inconsistent with the validation that follows them: whenever the three
  variables are unset, \<open>from_env\<close> returns an error, whatever else the environment holds.
\<close>

theorem from_env_defaults_rejected:
  assumes "host_var h ''WATTSWARM_RABBITMQ_CLUSTER_QUEUE_LIMIT'' = None"
    and "host_var h ''WATTSWARM_CS_MAILBOX_SHARD_ADMISSION_PERCENT'' = None"
    and "host_var h ''WATTSWARM_CS_MAX_ACTIVE_TENANTS_PER_NETWORK_CELL'' = None"
  shows "\<not> is_ok (from_env h)"
proof
  assume "is_ok (from_env h)"
  then obtain c where "validate c = Inr ()" and "cluster_queue_limit c = 1000"
    and "mailbox_shard_admission_percent c = 80" and "max_active_tenants c = 400"
    unfolding from_env_def is_ok_and_then Let_def
    by (auto simp: number_u64_def number_default [OF assms(1)] number_default [OF assms(2)]
        number_default [OF assms(3)] is_ok_iff)
  moreover have "queue_budget 400 = 816"
    by (simp add: queue_budget_def sat_mul_def sat_add_def)
  moreover have "sat_mul 1000 80 = 80000" by (simp add: sat_mul_def)
  ultimately have "(816 :: u64) \<le> 80000 div 100"
    using validate_Inr(7) [of c] by (simp add: admitted_queues_def)
  then show False by simp
qed

theorem from_env_defaults_rejected_witness:
  "\<not> is_ok (from_env \<lparr>host_var = map_of
       [(''WATTSWARM_RABBITMQ_PASSWORD_FILE'', ''password''),
        (''WATTSWARM_CS_COMMIT_HMAC_SECRET_FILE'', ''0123456789abcdef0123456789abcdef''),
        (''WATTSWARM_CS_DATABASE_URL'', ''postgres://db''),
        (''WATTSWARM_RABBITMQ_ENDPOINT'', ''amqps://broker/vhost''),
        (''WATTSWARM_RABBITMQ_USERNAME'', ''user'')],
     host_read = Inr, host_read_text = Inr,
     host_parse_addr = Inr, host_uuid = ''u'', host_decode_genesis = (\<lambda>_. Inr [])\<rparr>)"
  by (rule from_env_defaults_rejected) simp_all

end
