(* ===== verification/Store.thy ===== *)
theory Store
  imports Schema Config
begin

text \<open>
  The control-plane queries of \<open>db.rs\<close>: grants, the genesis projection, tenant admission,
  principal instances, audit rows, mutation windows, scope authorization and the metadata
  cleanup. An operation takes the clock value its statement reads as \<open>now\<close>; an operation that
  writes returns the new database, and one that runs in its own transaction returns the old one
  together with the error when the transaction is rolled back.
\<close>

definition duplicate_key :: string where
  "duplicate_key = ''duplicate key value violates unique constraint''"

section \<open>Network membership grants\<close>

definition grant_merge :: "grant_row \<Rightarrow> grant_row \<Rightarrow> grant_row option" where
  "grant_merge n e =
     Some (e\<lparr>gp_grant_id := gp_grant_id n, gp_grant := gp_grant n,
             gp_issued_at_ms := gp_issued_at_ms n, gp_expires_at_ms := gp_expires_at_ms n,
             gp_updated_at := gp_updated_at n\<rparr>)"

definition grant_expiry_ms :: "grant \<Rightarrow> int option result" where
  "grant_expiry_ms g =
     (case gr_expires_at g of
        None \<Rightarrow> Inr None
      | Some v \<Rightarrow> and_then (i64_try_from (unat v)
          ''network membership grant expires_at exceeds PostgreSQL BIGINT'') (\<lambda>e. Inr (Some e)))"

definition upsert_network_membership_grant ::
  "instant \<Rightarrow> grant \<Rightarrow> string \<Rightarrow> db \<Rightarrow> db result" where
  "upsert_network_membership_grant now g grant_id d =
    and_then (i64_try_from (unat (gr_issued_at g))
      ''network membership grant issued_at exceeds PostgreSQL BIGINT'') (\<lambda>issued.
    and_then (grant_expiry_ms g) (\<lambda>expires.
    Inr (d\<lparr>t_grants := upsert grant_key grant_merge
      \<lparr>gp_network_id = gr_network_id g, gp_principal_id = gr_principal_id g,
       gp_grant_id = grant_id, gp_grant = g, gp_issued_at_ms = issued,
       gp_expires_at_ms = expires, gp_updated_at = now\<rparr> (t_grants d)\<rparr>)))"

text \<open>
  The guard of the \<open>LEFT JOIN\<close> on grants that five queries share: no grant row, no expiry, or an
  expiry after the clock's millisecond.
\<close>

definition grant_live :: "instant \<Rightarrow> db \<Rightarrow> string \<Rightarrow> string \<Rightarrow> bool" where
  "grant_live now d network_id principal_id =
     (case row_of grant_key (network_id, principal_id) (t_grants d) of
        None \<Rightarrow> True
      | Some g \<Rightarrow> (case gp_expires_at_ms g of None \<Rightarrow> True | Some e \<Rightarrow> epoch_ms now < e))"

definition live_member :: "instant \<Rightarrow> db \<Rightarrow> membership_row \<Rightarrow> bool" where
  "live_member now d m \<longleftrightarrow>
     mb_state m = Active \<and> grant_live now d (mb_network_id m) (mb_principal_id m)"

definition principal_is_admitted :: "instant \<Rightarrow> db \<Rightarrow> string \<Rightarrow> string \<Rightarrow> bool" where
  "principal_is_admitted now d network_id principal_id =
     list_ex (\<lambda>m. mb_network_id m = network_id \<and> mb_scope_label m = ''global''
                 \<and> mb_principal_id m = principal_id \<and> live_member now d m) (t_memberships d)"

section \<open>The genesis projection\<close>

definition authority_merge :: "authority_row \<Rightarrow> authority_row \<Rightarrow> authority_row option" where
  "authority_merge n e =
     Some (e\<lparr>au_projection_version := au_projection_version n, au_state := Active,
             au_updated_at := au_updated_at n\<rparr>)"

definition active_genesis :: "db \<Rightarrow> string \<Rightarrow> string option" where
  "active_genesis d network_id =
     map_option au_principal_id
       (find (\<lambda>a. au_network_id a = network_id \<and> au_kind a = ''genesis'' \<and> au_state a = Active)
         (t_authorities d))"

definition seed_one_genesis :: "instant \<Rightarrow> string \<Rightarrow> string \<Rightarrow> db \<Rightarrow> db result" where
  "seed_one_genesis now network_id node_id d =
    (let existing = active_genesis d network_id in
     if (case existing of None \<Rightarrow> False | Some v \<Rightarrow> v \<noteq> node_id) then
       Inl ''configured network genesis conflicts with the persisted authority projection''
     else
       let d1 = d\<lparr>t_authorities := upsert authority_key authority_merge
             \<lparr>au_network_id = network_id, au_principal_id = node_id, au_kind = ''genesis'',
              au_projection_version = ''trusted-config-v1'', au_state = Active,
              au_updated_at = now\<rparr> (t_authorities d)\<rparr>;
           version = ''trusted-genesis:'' @ node_id
       in if row_of version_key (network_id, ''global'') (t_versions d1) \<noteq> None then Inr d1
          else case insert_row membership_key
                 \<lparr>mb_network_id = network_id, mb_scope_label = ''global'',
                  mb_principal_id = node_id, mb_version = version, mb_state = Active,
                  mb_authorized_at = now, mb_revoked_at = None,
                  mb_interactive_binding = ''pending'', mb_bulk_binding = ''pending'',
                  mb_roles = [Proposer, Verifier, Committer, Finalizer],
                  mb_binding_updated_at = None\<rparr> (t_memberships d1) of
                 None \<Rightarrow> Inl duplicate_key
               | Some ms \<Rightarrow>
                   (case insert_row version_key
                      \<lparr>sv_network_id = network_id, sv_scope_label = ''global'',
                       sv_version = version, sv_routing_fence = 1, sv_updated_at = now\<rparr>
                      (t_versions d1) of
                      None \<Rightarrow> Inl duplicate_key
                    | Some vs \<Rightarrow> Inr (d1\<lparr>t_memberships := ms, t_versions := vs\<rparr>)))"

fun seed_networks :: "instant \<Rightarrow> (string \<times> string) list \<Rightarrow> db \<Rightarrow> unit result \<times> db" where
  "seed_networks now [] d = (Inr (), d)"
| "seed_networks now ((network_id, node_id) # rest) d =
     (case seed_one_genesis now network_id node_id d of
        Inl m \<Rightarrow> (Inl m, d)
      | Inr d' \<Rightarrow> seed_networks now rest d')"

definition seed_trusted_network_genesis :: "instant \<Rightarrow> config \<Rightarrow> db \<Rightarrow> unit result \<times> db" where
  "seed_trusted_network_genesis now c d = seed_networks now (trusted_network_genesis c) d"

definition principal_is_global_authority :: "db \<Rightarrow> string \<Rightarrow> string \<Rightarrow> bool" where
  "principal_is_global_authority d network_id principal_id =
     list_ex (\<lambda>a. au_network_id a = network_id \<and> au_principal_id a = principal_id
                 \<and> au_kind a = ''genesis'' \<and> au_state a = Active) (t_authorities d)"

section \<open>Tenant admission\<close>

definition active_tenant_count :: "instant \<Rightarrow> db \<Rightarrow> string \<Rightarrow> u64" where
  "active_tenant_count now d network_id =
     of_nat (length (remdups (map mb_principal_id
       (filter (\<lambda>m. mb_network_id m = network_id \<and> mb_scope_label m = ''global''
                   \<and> live_member now d m) (t_memberships d)))))"

definition validate_active_tenant_admission :: "instant \<Rightarrow> config \<Rightarrow> db \<Rightarrow> string \<Rightarrow> u64 result" where
  "validate_active_tenant_admission now c d network_id =
    (let active = active_tenant_count now d network_id in
     if max_active_tenants c < active \<or> max_fanout_recipients c < active then
       Inl ''active tenant count exceeds ClientServer cell admission''
     else if admitted_queues c < sat_add (sat_mul active 2) 16 then
       Inl ''active tenant mailbox queues exceed cell admission threshold''
     else if safe_delivery_rate c
        < sat_add (sat_mul (max_global_publishes_per_second c) active)
            (reserved_non_global_deliveries_per_second c) then
       Inl ''active tenant count violates Global delivery-rate admission''
     else Inr active)"

fun validate_networks :: "instant \<Rightarrow> config \<Rightarrow> db \<Rightarrow> string list \<Rightarrow> unit result" where
  "validate_networks now c d [] = Inr ()"
| "validate_networks now c d (n # ns) =
     and_then (validate_active_tenant_admission now c d n) (\<lambda>_. validate_networks now c d ns)"

definition validate_all_active_tenant_admission :: "instant \<Rightarrow> config \<Rightarrow> db \<Rightarrow> unit result" where
  "validate_all_active_tenant_admission now c d =
     validate_networks now c d (btree_set
       (map mb_network_id (filter (\<lambda>m. mb_scope_label m = ''global'' \<and> mb_state m = Active)
          (t_memberships d))
        @ map fst (trusted_network_genesis c)))"

section \<open>Principal instances and audit\<close>

definition instance_merge :: "instance_row \<Rightarrow> instance_row \<Rightarrow> instance_row option" where
  "instance_merge n e =
     Some (e\<lparr>pi_history_unavailable := (pi_history_unavailable e
               \<or> pi_tenant_instance_id e \<noteq> pi_tenant_instance_id n),
             pi_tenant_instance_id := pi_tenant_instance_id n,
             pi_updated_at := pi_updated_at n\<rparr>)"

definition register_principal_instance ::
  "instant \<Rightarrow> string \<Rightarrow> string \<Rightarrow> string \<Rightarrow> db \<Rightarrow> bool \<times> db" where
  "register_principal_instance now network_id principal_id instance d =
    (let t = upsert instance_key instance_merge
           \<lparr>pi_network_id = network_id, pi_principal_id = principal_id,
            pi_tenant_instance_id = instance, pi_history_unavailable = False,
            pi_first_seen_at = now, pi_updated_at = now\<rparr> (t_instances d)
     in ((case row_of instance_key (network_id, principal_id) t of
            None \<Rightarrow> False | Some r \<Rightarrow> pi_history_unavailable r),
         d\<lparr>t_instances := t\<rparr>))"

definition record_audit ::
  "instant \<Rightarrow> string \<Rightarrow> string option \<Rightarrow> string option \<Rightarrow> string \<Rightarrow> string
   \<Rightarrow> (string \<times> string) list \<Rightarrow> db \<Rightarrow> db result" where
  "record_audit now uuid network_id principal_id action outcome details d =
     (case insert_row ad_audit_id
        \<lparr>ad_audit_id = uuid, ad_network_id = network_id, ad_principal_id = principal_id,
         ad_action = action, ad_outcome = outcome, ad_details = details,
         ad_created_at = now\<rparr> (t_audit d) of
        None \<Rightarrow> Inl duplicate_key
      | Some t \<Rightarrow> Inr (d\<lparr>t_audit := t\<rparr>))"

section \<open>Metadata cleanup\<close>

definition expired_session_ids :: "instant \<Rightarrow> db \<Rightarrow> string list" where
  "expired_session_ids now d =
     map se_session_id (filter (\<lambda>s. se_expires_at s \<le> now) (t_sessions d))"

definition cleanup_expired_metadata :: "instant \<Rightarrow> duration \<Rightarrow> db \<Rightarrow> nat result \<times> db" where
  "cleanup_expired_metadata now retention d =
    (case i64_try_from retention ''acknowledged gap retention is too large'' of
       Inl m \<Rightarrow> (Inl m, d)
     | Inr retention_ms \<Rightarrow>
        let cutoff = now - interval_ms retention_ms;
            old_challenge = (\<lambda>r. ch_expires_at r \<le> now);
            old_session = (\<lambda>r. se_expires_at r \<le> now);
            old_receipt = (\<lambda>r. pr_expires_at r \<le> now);
            old_owner = (\<lambda>r. ow_lease_expires_at r \<le> now);
            old_gap = (\<lambda>r. case gg_acknowledged_at r of None \<Rightarrow> False | Some a \<Rightarrow> a \<le> cutoff);
            old_audit = (\<lambda>r. ad_created_at r \<le> cutoff)
        in (Inr (rows_affected old_challenge (t_challenges d)
                 + rows_affected old_session (t_sessions d)
                 + rows_affected old_receipt (t_receipts d)
                 + rows_affected old_owner (t_owners d)
                 + rows_affected old_gap (t_gaps d)
                 + rows_affected old_audit (t_audit d)),
            d\<lparr>t_challenges := delete_where old_challenge (t_challenges d),
              t_session_principals := delete_where
                (\<lambda>p. sp_session_id p \<in> set (expired_session_ids now d)) (t_session_principals d),
              t_sessions := delete_where old_session (t_sessions d),
              t_receipts := delete_where old_receipt (t_receipts d),
              t_owners := delete_where old_owner (t_owners d),
              t_gaps := delete_where old_gap (t_gaps d),
              t_audit := delete_where old_audit (t_audit d)\<rparr>))"

section \<open>Scope fences, mutation windows and scope authorization\<close>

text \<open>The advisory-lock key of \<open>begin_scope_fence\<close>.\<close>

definition scope_fence_key :: "string \<Rightarrow> string \<Rightarrow> string" where
  "scope_fence_key network_id scope_label = length_prefixed network_id scope_label"

definition window_merge :: "instant \<Rightarrow> int \<Rightarrow> window_row \<Rightarrow> window_row \<Rightarrow> window_row option" where
  "window_merge now window_ms n e =
    (let over = mw_started_at e \<le> now - interval_ms window_ms in
     Some (e\<lparr>mw_started_at := (if over then now else mw_started_at e),
             mw_count := (if over then 1
                          else if mw_last_version e = mw_last_version n then mw_count e
                          else mw_count e + 1),
             mw_last_version := mw_last_version n,
             mw_updated_at := now\<rparr>))"

definition record_membership_mutation ::
  "instant \<Rightarrow> config \<Rightarrow> string \<Rightarrow> string \<Rightarrow> string \<Rightarrow> db \<Rightarrow> db result" where
  "record_membership_mutation now c network_id scope_label version d =
    (let window_ms = sint (of_nat (membership_mutation_window c) :: u64);
         t = upsert window_key (window_merge now window_ms)
           \<lparr>mw_network_id = network_id, mw_scope_label = scope_label, mw_started_at = now,
            mw_count = 1, mw_last_version = Some version, mw_updated_at = now\<rparr> (t_windows d)
     in case row_of window_key (network_id, scope_label) t of
          None \<Rightarrow> Inl ''no rows returned by a query that expected to return at least one row''
        | Some w \<Rightarrow>
            if unat (max_membership_mutations_per_scope_per_window c) < mw_count w
            then Inl ''membership mutation window limit exceeded''
            else Inr (d\<lparr>t_windows := t\<rparr>))"

definition scope_version :: "db \<Rightarrow> string \<Rightarrow> string \<Rightarrow> string option" where
  "scope_version d network_id scope_label =
     map_option sv_version (row_of version_key (network_id, scope_label) (t_versions d))"

definition version_matches :: "string option \<Rightarrow> membership_row \<Rightarrow> bool" where
  "version_matches v m = (case v of None \<Rightarrow> True | Some x \<Rightarrow> mb_version m = x)"

definition authorized_scope_version_and_count ::
  "instant \<Rightarrow> externs \<Rightarrow> db \<Rightarrow> string \<Rightarrow> swarm_scope \<Rightarrow> string \<Rightarrow> bool \<Rightarrow> (string option \<times> u64) result" where
  "authorized_scope_version_and_count now E d network_id scope principal_id allow_network_member =
    (case scope of
       Node recipient \<Rightarrow>
         if \<not> principal_is_admitted now d network_id principal_id
            \<or> \<not> principal_is_admitted now d network_id recipient then
           Inl ''direct route author or recipient is not an active network member''
         else Inr (None, 1)
     | _ \<Rightarrow>
         and_then (x_scope_label E scope) (\<lambda>scope_label.
           let author_allowed = list_ex (\<lambda>m. mb_network_id m = network_id
                 \<and> (mb_scope_label m = scope_label
                    \<or> (allow_network_member \<and> mb_scope_label m = ''global''))
                 \<and> mb_principal_id m = principal_id \<and> live_member now d m) (t_memberships d)
           in if \<not> author_allowed then Inl ''principal is not authorized for publish scope''
              else let version = scope_version d network_id scope_label in
                Inr (version, of_nat (length (filter (\<lambda>m. mb_network_id m = network_id
                   \<and> mb_scope_label m = scope_label \<and> live_member now d m
                   \<and> version_matches version m) (t_memberships d))))))"

definition scope_contains_principal ::
  "instant \<Rightarrow> externs \<Rightarrow> db \<Rightarrow> string \<Rightarrow> swarm_scope \<Rightarrow> string \<Rightarrow> string option \<Rightarrow> bool result" where
  "scope_contains_principal now E d network_id scope principal_id version =
    (case scope of
       Node recipient \<Rightarrow> Inr (recipient = principal_id)
     | _ \<Rightarrow> and_then (x_scope_label E scope) (\<lambda>scope_label.
         Inr (list_ex (\<lambda>m. mb_network_id m = network_id \<and> mb_scope_label m = scope_label
                \<and> mb_principal_id m = principal_id \<and> live_member now d m
                \<and> version_matches version m) (t_memberships d))))"

section \<open>The conflict clauses keep their keys\<close>

interpretation grants: keyed_upsert grant_key grant_merge
  by unfold_locales (auto simp: grant_merge_def grant_key_def)

interpretation authorities: keyed_upsert authority_key authority_merge
  by unfold_locales (auto simp: authority_merge_def authority_key_def)

interpretation instances: keyed_upsert instance_key instance_merge
  by unfold_locales (auto simp: instance_merge_def instance_key_def)

interpretation windows: keyed_upsert window_key "window_merge now w" for now w
  by unfold_locales (auto simp: window_merge_def window_key_def Let_def)

section \<open>Lemmas\<close>

subsection \<open>Admission\<close>

lemma epoch_ms_mono: "s \<le> t \<Longrightarrow> epoch_ms s \<le> epoch_ms t"
  by (simp add: epoch_ms_def zdiv_mono1)

lemma grant_live_antimono: "now \<le> now' \<Longrightarrow> grant_live now' d n p \<Longrightarrow> grant_live now d n p"
  using epoch_ms_mono [of now now'] by (auto simp: grant_live_def split: option.splits)

lemma principal_is_admitted_iff:
  "principal_is_admitted now d n p \<longleftrightarrow>
   (\<exists>m\<in>set (t_memberships d). mb_network_id m = n \<and> mb_scope_label m = ''global''
      \<and> mb_principal_id m = p \<and> mb_state m = Active) \<and> grant_live now d n p"
  by (auto simp: principal_is_admitted_def live_member_def list_ex_iff)

lemma admitted_principals:
  "{p. principal_is_admitted now d n p} =
   set (map mb_principal_id (filter (\<lambda>m. mb_network_id m = n \<and> mb_scope_label m = ''global''
      \<and> live_member now d m) (t_memberships d)))"
  by (auto simp: principal_is_admitted_def list_ex_iff)

lemma active_tenant_count_card:
  "active_tenant_count now d n = of_nat (card {p. principal_is_admitted now d n p})"
  unfolding active_tenant_count_def admitted_principals length_remdups_card_conv ..

lemma validate_active_Inr:
  assumes "validate_active_tenant_admission now c d n = Inr a"
  shows "a = active_tenant_count now d n" and "a \<le> max_active_tenants c"
    and "a \<le> max_fanout_recipients c" and "queue_budget a \<le> admitted_queues c"
    and "required_delivery_rate c a \<le> safe_delivery_rate c"
  using assms
  by (auto simp: validate_active_tenant_admission_def Let_def queue_budget_def
      required_delivery_rate_def not_less split: if_splits)

lemma validate_active_complete:
  assumes "active_tenant_count now d n \<le> max_active_tenants c"
    and "active_tenant_count now d n \<le> max_fanout_recipients c"
    and "queue_budget (active_tenant_count now d n) \<le> admitted_queues c"
    and "required_delivery_rate c (active_tenant_count now d n) \<le> safe_delivery_rate c"
  shows "validate_active_tenant_admission now c d n = Inr (active_tenant_count now d n)"
  using assms
  by (simp add: validate_active_tenant_admission_def Let_def queue_budget_def
      required_delivery_rate_def not_less)

subsection \<open>Mutation windows\<close>

lemma record_membership_mutation_Inr:
  assumes "record_membership_mutation now c n s v d = Inr d'"
  shows "\<exists>w. row_of window_key (n, s) (t_windows d') = Some w
     \<and> mw_count w \<le> unat (max_membership_mutations_per_scope_per_window c)
     \<and> mw_last_version w = Some v
     \<and> (case row_of window_key (n, s) (t_windows d) of
          None \<Rightarrow> mw_count w = 1 \<and> mw_started_at w = now
        | Some e \<Rightarrow>
            if mw_started_at e
                 \<le> now - interval_ms (sint (of_nat (membership_mutation_window c) :: u64))
            then mw_count w = 1 \<and> mw_started_at w = now
            else mw_started_at w = mw_started_at e
              \<and> mw_count w = (if mw_last_version e = Some v then mw_count e else mw_count e + 1))"
proof -
  define r where "r = \<lparr>mw_network_id = n, mw_scope_label = s, mw_started_at = now,
            mw_count = 1, mw_last_version = Some v, mw_updated_at = now\<rparr>"
  define wm where "wm = sint (of_nat (membership_mutation_window c) :: u64)"
  have k: "window_key r = (n, s)" by (simp add: r_def window_key_def)
  define w where "w = merged (window_merge now wm) r (row_of window_key (n, s) (t_windows d))"
  have "row_of window_key (n, s) (upsert window_key (window_merge now wm) r (t_windows d)) = Some w"
    using windows.row_of_upsert [of r now wm "t_windows d"] by (simp add: k w_def)
  then have "t_windows d' = upsert window_key (window_merge now wm) r (t_windows d)"
    and "mw_count w \<le> unat (max_membership_mutations_per_scope_per_window c)"
    and "row_of window_key (n, s) (t_windows d') = Some w"
    using assms unfolding record_membership_mutation_def r_def [symmetric] wm_def [symmetric]
    by (auto simp: Let_def not_less split: if_splits)
  then show ?thesis
    by (auto simp: w_def merged_def r_def resolve_def window_merge_def Let_def wm_def
        split: option.splits)
qed

text \<open>A sequence of mutations of one scope, each at its own time.\<close>

fun record_mutations ::
  "config \<Rightarrow> string \<Rightarrow> string \<Rightarrow> (instant \<times> string) list \<Rightarrow> db \<Rightarrow> db result" where
  "record_mutations c n s [] d = Inr d"
| "record_mutations c n s ((now, v) # rest) d =
     and_then (record_membership_mutation now c n s v d) (record_mutations c n s rest)"

fun versions_change :: "string \<Rightarrow> (instant \<times> string) list \<Rightarrow> bool" where
  "versions_change u [] = True"
| "versions_change u ((now, v) # rest) = (u \<noteq> v \<and> versions_change v rest)"

lemma record_mutations_count:
  assumes "record_mutations c n s ms d = Inr d'"
    and "row_of window_key (n, s) (t_windows d) = Some w" and "mw_last_version w = Some u"
    and "versions_change u ms"
    and "\<And>t v. (t, v) \<in> set ms \<Longrightarrow>
          t - interval_ms (sint (of_nat (membership_mutation_window c) :: u64)) < mw_started_at w"
    and "mw_count w \<le> unat (max_membership_mutations_per_scope_per_window c)"
  shows "mw_count w + length ms \<le> unat (max_membership_mutations_per_scope_per_window c)"
  using assms
proof (induction ms arbitrary: d w u)
  case Nil
  then show ?case by simp
next
  case (Cons tv ms)
  obtain t v where tv: "tv = (t, v)" by (cases tv)
  with Cons.prems(1) obtain d1 where d1: "record_membership_mutation t c n s v d = Inr d1"
    and rest: "record_mutations c n s ms d1 = Inr d'"
    by (auto simp: and_then_Inr_iff)
  have "t - interval_ms (sint (of_nat (membership_mutation_window c) :: u64)) < mw_started_at w"
    by (rule Cons.prems(5) [of t v]) (simp add: tv)
  then obtain w1 where w1: "row_of window_key (n, s) (t_windows d1) = Some w1"
    "mw_last_version w1 = Some v" "mw_started_at w1 = mw_started_at w"
    "mw_count w1 = mw_count w + 1"
    "mw_count w1 \<le> unat (max_membership_mutations_per_scope_per_window c)"
    using record_membership_mutation_Inr [OF d1] Cons.prems(2,3,4)
    by (auto simp: tv split: if_splits)
  have "mw_count w1 + length ms \<le> unat (max_membership_mutations_per_scope_per_window c)"
  proof (rule Cons.IH [OF rest w1(1,2)])
    show "versions_change v ms" using Cons.prems(4) by (simp add: tv)
    show "\<And>t v. (t, v) \<in> set ms \<Longrightarrow>
      t - interval_ms (sint (of_nat (membership_mutation_window c) :: u64)) < mw_started_at w1"
      using Cons.prems(5) by (auto simp: w1(3))
  qed (rule w1(5))
  then show ?case using w1(4) by simp
qed

subsection \<open>Principal instances\<close>

lemma register_row:
  assumes "register_principal_instance now n p i d = (h, d')"
  shows "\<exists>r. row_of instance_key (n, p) (t_instances d') = Some r
     \<and> pi_tenant_instance_id r = i \<and> pi_history_unavailable r = h
     \<and> h = (case row_of instance_key (n, p) (t_instances d) of
              None \<Rightarrow> False
            | Some e \<Rightarrow> pi_history_unavailable e \<or> pi_tenant_instance_id e \<noteq> i)"
proof -
  define r where "r = \<lparr>pi_network_id = n, pi_principal_id = p, pi_tenant_instance_id = i,
            pi_history_unavailable = False, pi_first_seen_at = now, pi_updated_at = now\<rparr>"
  have k: "instance_key r = (n, p)" by (simp add: r_def instance_key_def)
  have "row_of instance_key (n, p) (upsert instance_key instance_merge r (t_instances d))
    = Some (merged instance_merge r (row_of instance_key (n, p) (t_instances d)))"
    using instances.row_of_upsert [of r "t_instances d"] by (simp add: k)
  then show ?thesis
    using assms
    by (auto simp: register_principal_instance_def Let_def r_def [symmetric] merged_def
        resolve_def instance_merge_def split: option.splits)
      (auto simp: r_def)
qed

fun register_all :: "string \<Rightarrow> string \<Rightarrow> (instant \<times> string) list \<Rightarrow> bool \<times> db \<Rightarrow> bool \<times> db" where
  "register_all n p [] st = st"
| "register_all n p ((now, i) # rest) st =
     register_all n p rest (register_principal_instance now n p i (snd st))"

lemma register_all_sticky:
  assumes "row_of instance_key (n, p) (t_instances d) = Some r"
    and "pi_history_unavailable r = h"
  shows "fst (register_all n p xs (h, d)) \<longleftrightarrow>
     h \<or> (\<exists>x\<in>set xs. snd x \<noteq> pi_tenant_instance_id r)"
  using assms
proof (induction xs arbitrary: h d r)
  case Nil
  then show ?case by simp
next
  case (Cons x xs)
  obtain t i where x: "x = (t, i)" by (cases x)
  obtain h' d' where reg: "register_principal_instance t n p i d = (h', d')" by fastforce
  from register_row [OF reg] Cons.prems obtain r' where
    r': "row_of instance_key (n, p) (t_instances d') = Some r'" "pi_tenant_instance_id r' = i"
      "pi_history_unavailable r' = h'" "h' = (h \<or> pi_tenant_instance_id r \<noteq> i)"
    by auto
  have "fst (register_all n p xs (h', d')) \<longleftrightarrow> h' \<or> (\<exists>y\<in>set xs. snd y \<noteq> i)"
    using Cons.IH [OF r'(1,3)] by (simp only: r'(2))
  moreover have "register_all n p (x # xs) (h, d) = register_all n p xs (h', d')"
    by (simp add: x reg)
  ultimately show ?case unfolding r'(4) by (auto simp: x)
qed

lemma sint_of_nat_small: "int n \<le> i64_max \<Longrightarrow> sint (of_nat n :: u64) = int n"
  by (simp add: signed_of_nat signed_take_bit_int_eq_self)

section \<open>Properties\<close>

text \<open>
  A configuration that passed validation never refuses a network for capacity at run time as
  long as the network has at most the configured maximum of active tenants: the start-up inequalities
  imply the per-request admission check, whatever the database holds.
\<close>

theorem configured_tenants_admitted:
  assumes "validate c = Inr ()" and "active_tenant_count now d n \<le> max_active_tenants c"
  shows "validate_active_tenant_admission now c d n = Inr (active_tenant_count now d n)"
proof (rule validate_active_complete [OF assms(2)])
  note v = validate_Inr [OF assms(1)]
  show "active_tenant_count now d n \<le> max_fanout_recipients c"
    using assms(2) v(6) by (rule order_trans)
  show "queue_budget (active_tenant_count now d n) \<le> admitted_queues c"
    using queue_budget_mono [OF assms(2)] v(7) by (rule order_trans)
  show "required_delivery_rate c (active_tenant_count now d n) \<le> safe_delivery_rate c"
    using required_delivery_rate_mono [OF assms(2)] v(12) by (rule order_trans)
qed

theorem configured_tenants_admitted_witness:
  "validate_active_tenant_admission 0 valid empty_db ''net''
     = Inr (active_tenant_count 0 empty_db ''net'')"
  by (rule configured_tenants_admitted [OF valid_ok])
    (simp add: active_tenant_count_def empty_db_def valid_def)

text \<open>
  Admission counts principals, and its verdict is about the true numbers: when a network is
  admitted, the value returned is the number of distinct principals that are admitted to it, and
  twice that number plus sixteen fits the admitted share of the queue limit.
\<close>

theorem admission_counts_principals:
  assumes "validate_active_tenant_admission now c d n = Inr a"
    and "length (t_memberships d) < 2 ^ 64"
  shows "unat a = card {p. principal_is_admitted now d n p}
    \<and> 2 * card {p. principal_is_admitted now d n p} + 16
        \<le> unat (cluster_queue_limit c) * unat (mailbox_shard_admission_percent c) div 100
    \<and> card {p. principal_is_admitted now d n p} \<le> unat (max_active_tenants c)"
proof -
  note v = validate_active_Inr [OF assms(1)]
  have "card {p. principal_is_admitted now d n p} \<le> length (t_memberships d)"
    unfolding admitted_principals by (rule order_trans [OF card_length]) simp
  with assms(2) have "card {p. principal_is_admitted now d n p} < 2 ^ 64" by simp
  then have *: "unat a = card {p. principal_is_admitted now d n p}"
    by (simp add: v(1) active_tenant_count_card unat_of_nat)
  then show ?thesis
    using queue_budget_sound [OF v(4)] v(2) by (simp add: word_le_nat_alt)
qed

definition one_member_db :: db where
  "one_member_db = empty_db\<lparr>t_memberships :=
     [\<lparr>mb_network_id = ''net'', mb_scope_label = ''global'', mb_principal_id = ''alice'',
       mb_version = ''v1'', mb_state = Active, mb_authorized_at = 0, mb_revoked_at = None,
       mb_interactive_binding = ''active'', mb_bulk_binding = ''active'', mb_roles = [Finalizer],
       mb_binding_updated_at = None\<rparr>],
     t_versions := [\<lparr>sv_network_id = ''net'', sv_scope_label = ''global'', sv_version = ''v1'',
       sv_routing_fence = 1, sv_updated_at = 0\<rparr>]\<rparr>"

lemma one_member_count: "active_tenant_count now one_member_db ''net'' = 1"
  by (simp add: active_tenant_count_def one_member_db_def empty_db_def live_member_def
      grant_live_def row_of_def)

theorem admission_counts_principals_witness:
  "validate_active_tenant_admission 0 valid one_member_db ''net'' = Inr 1
   \<and> card {p. principal_is_admitted 0 one_member_db ''net'' p} = 1"
proof -
  have 1: "validate_active_tenant_admission 0 valid one_member_db ''net'' = Inr 1"
    using validate_active_complete [of 0 one_member_db "''net''" valid]
    by (simp add: one_member_count valid_def admitted_queues_def queue_budget_def
        safe_delivery_rate_def required_delivery_rate_def sat_mul_def sat_add_def)
  moreover have "length (t_memberships one_member_db) < 2 ^ 64"
    by (simp add: one_member_db_def)
  ultimately show ?thesis using admission_counts_principals [OF 1] by simp
qed

text \<open>
  Grant expiry is enforced by every admission query: once a grant with an expiry is stored, its
  principal is admitted only while the clock's millisecond is before the expiry, and with an
  unchanged database an admission that holds at some time held at every earlier time.
\<close>

theorem grant_expiry_enforced:
  assumes "upsert_network_membership_grant t g gid d = Inr d'"
    and "gr_expires_at g = Some e"
    and "principal_is_admitted now d' (gr_network_id g) (gr_principal_id g)"
  shows "epoch_ms now < int (unat e)
    \<and> (\<forall>now' \<le> now. principal_is_admitted now' d' (gr_network_id g) (gr_principal_id g))"
proof -
  let ?k = "(gr_network_id g, gr_principal_id g)"
  obtain i where t: "t_grants d' = upsert grant_key grant_merge
      \<lparr>gp_network_id = gr_network_id g, gp_principal_id = gr_principal_id g, gp_grant_id = gid,
       gp_grant = g, gp_issued_at_ms = i, gp_expires_at_ms = Some (int (unat e)),
       gp_updated_at = t\<rparr> (t_grants d)"
    using assms(1,2)
    by (auto simp: upsert_network_membership_grant_def grant_expiry_ms_def and_then_Inr_iff)
  have "\<exists>r. row_of grant_key ?k (t_grants d') = Some r \<and> gp_expires_at_ms r = Some (int (unat e))"
    unfolding t by (auto simp: grants.row_of_upsert_cases grant_key_def merged_def resolve_def
        grant_merge_def split: option.splits)
  moreover have "grant_live now d' (gr_network_id g) (gr_principal_id g)"
    using assms(3) by (simp add: principal_is_admitted_iff)
  ultimately have "epoch_ms now < int (unat e)" by (auto simp: grant_live_def)
  moreover have "principal_is_admitted now' d' (gr_network_id g) (gr_principal_id g)"
    if "now' \<le> now" for now'
    using assms(3) grant_live_antimono [OF that] by (auto simp: principal_is_admitted_iff)
  ultimately show ?thesis by blast
qed

definition alice_grant :: grant where
  "alice_grant = \<lparr>gr_network_id = ''net'', gr_principal_id = ''alice'', gr_issued_at = 1,
     gr_expires_at = Some 5000, gr_rest = []\<rparr>"

theorem grant_expiry_enforced_witness:
  "\<exists>d'. upsert_network_membership_grant 0 alice_grant ''gid'' one_member_db = Inr d'
      \<and> principal_is_admitted 4000000 d' ''net'' ''alice'' \<and> epoch_ms 4000000 < 5000"
proof -
  obtain d' where d': "upsert_network_membership_grant 0 alice_grant ''gid'' one_member_db = Inr d'"
    and a: "principal_is_admitted 4000000 d' ''net'' ''alice''"
    by (simp add: upsert_network_membership_grant_def alice_grant_def grant_expiry_ms_def
        i64_try_from_def one_member_db_def empty_db_def principal_is_admitted_def live_member_def
        grant_live_def upsert_def row_of_def grant_key_def epoch_ms_def)
  show ?thesis
    using grant_expiry_enforced [OF d', of 5000 4000000] d' a by (auto simp: alice_grant_def)
qed

text \<open>
  The mutation window bounds churn: starting a window for a scope, successful membership
  mutations whose versions change from one to the next and that all fall inside the window are at
  most the configured maximum. (A retry with the same version is not counted.)
\<close>

theorem mutation_window_limit:
  assumes "record_mutations c n s ((t0, v0) # ms) d = Inr d'"
    and "row_of window_key (n, s) (t_windows d) = None"
    and "versions_change v0 ms"
    and "\<And>t v. (t, v) \<in> set ms \<Longrightarrow> t < t0 + interval_ms (int (membership_mutation_window c))"
    and "int (membership_mutation_window c) \<le> i64_max"
  shows "Suc (length ms) \<le> unat (max_membership_mutations_per_scope_per_window c)"
proof -
  obtain d1 where d1: "record_membership_mutation t0 c n s v0 d = Inr d1"
    and rest: "record_mutations c n s ms d1 = Inr d'"
    using assms(1) by (auto simp: and_then_Inr_iff)
  from record_membership_mutation_Inr [OF d1] assms(2) obtain w where
    w: "row_of window_key (n, s) (t_windows d1) = Some w" "mw_last_version w = Some v0"
      "mw_count w = 1" "mw_started_at w = t0"
      "mw_count w \<le> unat (max_membership_mutations_per_scope_per_window c)"
    by auto
  have "t - interval_ms (sint (of_nat (membership_mutation_window c) :: u64)) < mw_started_at w"
    if "(t, v) \<in> set ms" for t v
    using assms(4) [OF that] by (simp add: sint_of_nat_small [OF assms(5)] w(4))
  from record_mutations_count [OF rest w(1,2) assms(3) this w(5)] w(3) show ?thesis by simp
qed

theorem mutation_window_limit_witness:
  "is_ok (record_mutations valid ''net'' ''group:g'' [(1000, ''a''), (2000, ''b'')] empty_db)
   \<and> Suc (length [(2000 :: instant, ''b'')])
       \<le> unat (max_membership_mutations_per_scope_per_window valid)"
proof -
  obtain d' where d': "record_mutations valid ''net'' ''group:g'' [(1000, ''a''), (2000, ''b'')]
      empty_db = Inr d'"
    by (simp add: record_membership_mutation_def empty_db_def upsert_def window_key_def row_of_def
        valid_def Let_def resolve_def window_merge_def interval_ms_def sint_of_nat_small)
  have "Suc (length [(2000 :: instant, ''b'')])
      \<le> unat (max_membership_mutations_per_scope_per_window valid)"
    by (rule mutation_window_limit [OF d'])
      (auto simp: empty_db_def row_of_def interval_ms_def valid_def)
  then show ?thesis using d' by simp
qed

text \<open>
  Loss of tenant history is reported durably: over any sequence of session proofs of a
  principal, the reported flag is set exactly when some proof named another state instance than the
  first one did, and it never clears again.
\<close>

theorem history_unavailable_durable:
  assumes "row_of instance_key (n, p) (t_instances d) = None"
  shows "fst (register_all n p ((t, i) # xs) (h, d)) \<longleftrightarrow> (\<exists>x\<in>set xs. snd x \<noteq> i)"
proof -
  obtain h' d' where reg: "register_principal_instance t n p i d = (h', d')" by fastforce
  from register_row [OF reg] assms obtain r where
    r: "row_of instance_key (n, p) (t_instances d') = Some r" "pi_tenant_instance_id r = i"
      "pi_history_unavailable r = h'" "\<not> h'"
    by auto
  from register_all_sticky [OF r(1,3), of xs] r(2,4) show ?thesis by (simp add: reg)
qed

theorem history_unavailable_durable_witness:
  "fst (register_all ''net'' ''alice'' [(1, ''i1''), (2, ''i2''), (3, ''i1'')] (False, empty_db))"
  using history_unavailable_durable [of "''net''" "''alice''" empty_db 1 "''i1''"
      "[(2, ''i2''), (3, ''i1'')]" False]
  by (simp add: empty_db_def row_of_def del: register_all.simps)

end
