(* ===== verification/Owners.thy ===== *)
theory Owners
  imports Store
begin

text \<open>
  Delivery owners (\<open>db.rs\<close>): the lease that makes one gateway instance the only consumer of a
  mailbox. \<open>try_acquire_delivery_owner\<close> takes or renews the lease, \<open>load_delivery_owner\<close> tells which
  instance holds it, \<open>release_delivery_owner\<close> gives it up. The relation \<open>others_step\<close> lets every
  other instance and the metadata cleanup interfere in any order while the clock advances.
\<close>

record delivery_owner =
  do_instance_id :: string
  do_consumer_epoch :: string
  do_owner_route :: string

definition mailbox_binding_key :: "string \<Rightarrow> string \<Rightarrow> string" where
  "mailbox_binding_key network_id principal_id = length_prefixed network_id principal_id"

definition owner_merge :: "instant \<Rightarrow> owner_row \<Rightarrow> owner_row \<Rightarrow> owner_row option" where
  "owner_merge now n e =
     (if ow_lease_expires_at e \<le> now \<or> ow_epoch e = ow_epoch n
      then Some (e\<lparr>ow_instance_id := ow_instance_id n, ow_epoch := ow_epoch n,
                   ow_lease_expires_at := ow_lease_expires_at n, ow_route := ow_route n,
                   ow_updated_at := now\<rparr>)
      else None)"

definition try_acquire_delivery_owner ::
  "instant \<Rightarrow> string \<Rightarrow> string \<Rightarrow> delivery_class \<Rightarrow> string \<Rightarrow> string \<Rightarrow> string option \<Rightarrow> duration
   \<Rightarrow> db \<Rightarrow> (bool \<times> db) result" where
  "try_acquire_delivery_owner now network_id principal_id class inst epoch owner_route lease d =
    and_then (i64_try_from lease ''owner lease is too large'') (\<lambda>lease_ms.
      let r = \<lparr>ow_binding_key = mailbox_binding_key network_id principal_id,
               ow_class = class_str class, ow_instance_id = inst, ow_epoch = epoch,
               ow_lease_expires_at = now + interval_ms lease_ms,
               ow_route = (case owner_route of None \<Rightarrow> [] | Some s \<Rightarrow> s), ow_updated_at = now\<rparr>
      in Inr (upsert_count owner_key (owner_merge now) r (t_owners d) = 1,
              d\<lparr>t_owners := upsert owner_key (owner_merge now) r (t_owners d)\<rparr>))"

definition load_delivery_owner ::
  "instant \<Rightarrow> string \<Rightarrow> string \<Rightarrow> delivery_class \<Rightarrow> db \<Rightarrow> delivery_owner option" where
  "load_delivery_owner now network_id principal_id class d =
     map_option (\<lambda>r. \<lparr>do_instance_id = ow_instance_id r, do_consumer_epoch = ow_epoch r,
                      do_owner_route = ow_route r\<rparr>)
       (find (\<lambda>r. ow_binding_key r = mailbox_binding_key network_id principal_id
                 \<and> ow_class r = class_str class \<and> now < ow_lease_expires_at r) (t_owners d))"

definition release_delivery_owner ::
  "string \<Rightarrow> string \<Rightarrow> delivery_class \<Rightarrow> string \<Rightarrow> string \<Rightarrow> db \<Rightarrow> bool \<times> db" where
  "release_delivery_owner network_id principal_id class inst epoch d =
    (let P = (\<lambda>r. ow_binding_key r = mailbox_binding_key network_id principal_id
                 \<and> ow_class r = class_str class \<and> ow_instance_id r = inst
                 \<and> ow_epoch r = epoch)
     in (rows_affected P (t_owners d) = 1, d\<lparr>t_owners := delete_where P (t_owners d)\<rparr>))"

interpretation owners: keyed_upsert owner_key "owner_merge now" for now
  by unfold_locales (auto simp: owner_merge_def owner_key_def split: if_splits)

section \<open>Single operations\<close>

definition owner_key_of :: "string \<Rightarrow> string \<Rightarrow> delivery_class \<Rightarrow> string \<times> string" where
  "owner_key_of n p c = (mailbox_binding_key n p, class_str c)"

lemma owner_key_of_inject:
  "owner_key_of n p c = owner_key_of n' p' c' \<longleftrightarrow> n = n' \<and> p = p' \<and> c = c'"
  by (auto simp: owner_key_of_def mailbox_binding_key_def dest: length_prefixed_inject)

definition owner_row_of :: "string \<Rightarrow> string \<Rightarrow> delivery_class \<Rightarrow> db \<Rightarrow> owner_row option" where
  "owner_row_of n p c d = row_of owner_key (owner_key_of n p c) (t_owners d)"

lemma load_delivery_owner_row:
  assumes "pk owner_key (t_owners d)"
  shows "load_delivery_owner now n p c d =
    (case owner_row_of n p c d of
       Some r \<Rightarrow> if now < ow_lease_expires_at r
                then Some \<lparr>do_instance_id = ow_instance_id r, do_consumer_epoch = ow_epoch r,
                           do_owner_route = ow_route r\<rparr> else None
     | None \<Rightarrow> None)"
proof -
  from find_key_pk [OF assms, of "owner_key_of n p c" "\<lambda>r. now < ow_lease_expires_at r"] show ?thesis
    by (auto simp: load_delivery_owner_def owner_row_of_def owner_key_of_def owner_key_def
        split: option.splits)
qed

lemma acquire_cases:
  assumes "try_acquire_delivery_owner now n p c i e rt lease d = Inr (ok, d')"
    and "pk owner_key (t_owners d)"
  shows "pk owner_key (t_owners d')"
    and "ok \<longleftrightarrow> (case owner_row_of n p c d of None \<Rightarrow> True
           | Some r \<Rightarrow> ow_lease_expires_at r \<le> now \<or> ow_epoch r = e)"
    and "ok \<Longrightarrow> \<exists>r. owner_row_of n p c d' = Some r \<and> ow_epoch r = e \<and> ow_instance_id r = i
           \<and> ow_route r = (case rt of None \<Rightarrow> [] | Some s \<Rightarrow> s)
           \<and> ow_lease_expires_at r = now + interval_ms (int lease)"
    and "\<not> ok \<Longrightarrow> owner_row_of n p c d' = owner_row_of n p c d"
    and "\<And>n' p' c'. (n', p', c') \<noteq> (n, p, c) \<Longrightarrow> owner_row_of n' p' c' d' = owner_row_of n' p' c' d"
proof -
  define r where "r = \<lparr>ow_binding_key = mailbox_binding_key n p, ow_class = class_str c,
      ow_instance_id = i, ow_epoch = e, ow_lease_expires_at = now + interval_ms (int lease),
      ow_route = (case rt of None \<Rightarrow> [] | Some s \<Rightarrow> s), ow_updated_at = now\<rparr>"
  have k: "owner_key r = owner_key_of n p c" by (simp add: r_def owner_key_def owner_key_of_def)
  have ok: "ok \<longleftrightarrow> upsert_count owner_key (owner_merge now) r (t_owners d) = 1"
    and t: "t_owners d' = upsert owner_key (owner_merge now) r (t_owners d)"
    using assms(1) by (auto simp: try_acquire_delivery_owner_def and_then_Inr_iff Let_def r_def)
  show "pk owner_key (t_owners d')" unfolding t by (rule owners.pk_upsert [OF assms(2)])
  show okc: "ok \<longleftrightarrow> (case owner_row_of n p c d of None \<Rightarrow> True
           | Some r \<Rightarrow> ow_lease_expires_at r \<le> now \<or> ow_epoch r = e)"
    unfolding ok owners.upsert_count_merge [OF assms(2)] k owner_row_of_def
    by (auto simp: owner_merge_def r_def split: option.splits if_splits)
  have row: "owner_row_of n p c d' = Some (merged (owner_merge now) r (owner_row_of n p c d))"
    unfolding owner_row_of_def t by (simp add: owners.row_of_upsert_cases k)
  show "ok \<Longrightarrow> \<exists>r. owner_row_of n p c d' = Some r \<and> ow_epoch r = e \<and> ow_instance_id r = i
           \<and> ow_route r = (case rt of None \<Rightarrow> [] | Some s \<Rightarrow> s)
           \<and> ow_lease_expires_at r = now + interval_ms (int lease)"
    unfolding row okc
    by (auto simp: merged_def resolve_def owner_merge_def r_def split: option.splits if_splits)
  show "\<not> ok \<Longrightarrow> owner_row_of n p c d' = owner_row_of n p c d"
    unfolding row okc
    by (auto simp: merged_def resolve_def owner_merge_def r_def split: option.splits if_splits)
  show "\<And>n' p' c'. (n', p', c') \<noteq> (n, p, c) \<Longrightarrow> owner_row_of n' p' c' d' = owner_row_of n' p' c' d"
    unfolding owner_row_of_def t
    by (auto simp: owners.row_of_upsert_cases k owner_key_of_inject)
qed

lemma release_cases:
  assumes "release_delivery_owner n p c i e d = (ok, d')" and "pk owner_key (t_owners d)"
  shows "pk owner_key (t_owners d')"
    and "ok \<longleftrightarrow> (\<exists>r. owner_row_of n p c d = Some r \<and> ow_instance_id r = i \<and> ow_epoch r = e)"
    and "owner_row_of n p c d' = (if ok then None else owner_row_of n p c d)"
    and "\<And>n' p' c'. (n', p', c') \<noteq> (n, p, c) \<Longrightarrow> owner_row_of n' p' c' d' = owner_row_of n' p' c' d"
proof -
  define P where "P = (\<lambda>r. owner_key r = owner_key_of n p c \<and> ow_instance_id r = i \<and> ow_epoch r = e)"
  have ok: "ok \<longleftrightarrow> rows_affected P (t_owners d) = 1" and t: "t_owners d' = delete_where P (t_owners d)"
    using assms(1)
    by (auto simp: release_delivery_owner_def Let_def P_def owner_key_def owner_key_of_def conj_assoc)
  show "pk owner_key (t_owners d')" unfolding t by (rule pk_delete [OF assms(2)])
  have "rows_affected P (t_owners d) \<le> 1"
    unfolding P_def by (rule pk_rows_affected_key [OF assms(2)])
  then have "ok \<longleftrightarrow> 0 < rows_affected P (t_owners d)" using ok by auto
  then have okP: "ok \<longleftrightarrow> (\<exists>r\<in>set (t_owners d). P r)" by (simp only: rows_affected_pos)
  then show okr: "ok \<longleftrightarrow> (\<exists>r. owner_row_of n p c d = Some r \<and> ow_instance_id r = i \<and> ow_epoch r = e)"
    unfolding owner_row_of_def P_def using row_of_pk [OF assms(2)]
    by (metis row_of_Some)
  show "\<And>n' p' c'. (n', p', c') \<noteq> (n, p, c) \<Longrightarrow> owner_row_of n' p' c' d' = owner_row_of n' p' c' d"
    unfolding owner_row_of_def t by (rule row_of_delete) (auto simp: P_def owner_key_of_inject)
  show "owner_row_of n p c d' = (if ok then None else owner_row_of n p c d)"
  proof (cases ok)
    case True
    with okr obtain r where r: "owner_row_of n p c d = Some r" "ow_instance_id r = i" "ow_epoch r = e"
      by blast
    have "x = r" if "x \<in> set (t_owners d)" "owner_key x = owner_key_of n p c" for x
      using r(1) row_of_pk [OF assms(2) that(1)] that(2) by (simp add: owner_row_of_def)
    then show ?thesis
      using True r by (auto simp: owner_row_of_def t row_of_None tab_simps P_def)
  next
    case False
    with okP show ?thesis
      unfolding owner_row_of_def t by (simp add: row_of_delete)
  qed
qed

lemma cleanup_owner_row:
  assumes "cleanup_expired_metadata now ret d = (res, d')"
  shows "pk owner_key (t_owners d) \<Longrightarrow> pk owner_key (t_owners d')"
    and "owner_row_of n p c d = Some r \<Longrightarrow> now < ow_lease_expires_at r \<Longrightarrow> pk owner_key (t_owners d)
         \<Longrightarrow> owner_row_of n p c d' = Some r"
proof -
  have t: "t_owners d' = t_owners d \<or> t_owners d' = delete_where (\<lambda>r. ow_lease_expires_at r \<le> now) (t_owners d)"
    using assms by (auto simp: cleanup_expired_metadata_def Let_def split: sum.splits)
  then show "pk owner_key (t_owners d) \<Longrightarrow> pk owner_key (t_owners d')" by (auto intro: pk_delete)
  assume r: "owner_row_of n p c d = Some r" "now < ow_lease_expires_at r" "pk owner_key (t_owners d)"
  have "row_of owner_key (owner_key_of n p c) (delete_where (\<lambda>r. ow_lease_expires_at r \<le> now) (t_owners d))
      = row_of owner_key (owner_key_of n p c) (t_owners d)"
    using r by (intro row_of_delete) (metis linorder_not_less option.inject owner_row_of_def row_of_pk)
  with t r(1) show "owner_row_of n p c d' = Some r" by (auto simp: owner_row_of_def)
qed

section \<open>Interference\<close>

text \<open>
  Everything the rest of the cluster can do about owners: time passes, consumers with another epoch
  acquire or release any mailbox, anybody acquires or releases other mailboxes, and any instance runs
  the cleanup.
\<close>

inductive others_step ::
  "string \<times> string \<times> delivery_class \<Rightarrow> string \<Rightarrow> instant \<times> db \<Rightarrow> instant \<times> db \<Rightarrow> bool"
  for k :: "string \<times> string \<times> delivery_class" and e :: string where
  tick: "now \<le> now' \<Longrightarrow> others_step k e (now, d) (now', d)"
| acquire: "try_acquire_delivery_owner now n' p' c' i' e' rt lease d = Inr (ok, d') \<Longrightarrow>
    (n', p', c') \<noteq> k \<or> e' \<noteq> e \<Longrightarrow> others_step k e (now, d) (now, d')"
| release: "release_delivery_owner n' p' c' i' e' d = (ok, d') \<Longrightarrow>
    (n', p', c') \<noteq> k \<or> e' \<noteq> e \<Longrightarrow> others_step k e (now, d) (now, d')"
| cleanup: "cleanup_expired_metadata now ret d = (res, d') \<Longrightarrow> others_step k e (now, d) (now, d')"

lemma others_step_keeps:
  assumes "others_step (n, p, c) e (now, d) (now', d')" and "pk owner_key (t_owners d)"
    and "owner_row_of n p c d = Some r" and "ow_epoch r = e" and "now < ow_lease_expires_at r"
  shows "pk owner_key (t_owners d') \<and> owner_row_of n p c d' = Some r"
  using assms(1)
proof cases
  case tick
  then show ?thesis using assms by simp
next
  case (acquire n' p' c' i' e' rt lease ok)
  note a = acquire_cases [OF acquire(2) assms(2)]
  have "owner_row_of n p c d' = owner_row_of n p c d"
  proof (cases "(n', p', c') = (n, p, c)")
    case True
    then have "\<not> ok" using a(2) acquire(3) assms(3-5) by auto
    with a(4) True show ?thesis by simp
  qed (use a(5) in metis)
  with a(1) assms(3) show ?thesis by simp
next
  case (release n' p' c' i' e' ok)
  note a = release_cases [OF release(2) assms(2)]
  have "owner_row_of n p c d' = owner_row_of n p c d"
  proof (cases "(n', p', c') = (n, p, c)")
    case True
    then have "\<not> ok" using a(2) release(3) assms(3,4) by auto
    with a(3) True show ?thesis by simp
  qed (use a(4) in metis)
  with a(1) assms(3) show ?thesis by simp
next
  case cleanup
  then show ?thesis using cleanup_owner_row assms(2,3,5) by blast
qed

lemma others_step_clock: "others_step k e s s' \<Longrightarrow> fst s \<le> fst s'"
  by (induction rule: others_step.induct) simp_all

lemma others_steps_keep:
  assumes "(others_step (n, p, c) e)\<^sup>*\<^sup>* (now, d) (now', d')" and "pk owner_key (t_owners d)"
    and "owner_row_of n p c d = Some r" and "ow_epoch r = e" and "now' < ow_lease_expires_at r"
  shows "pk owner_key (t_owners d') \<and> owner_row_of n p c d' = Some r"
  using assms(1,5)
proof (induction rule: rtranclp_induct2)
  case (step now1 d1 now2 d2)
  from others_step_clock [OF step.hyps(2)] step.prems have "now1 < ow_lease_expires_at r" by simp
  with step.IH others_step_keeps [OF step.hyps(2) _ _ assms(4)] show ?case by blast
qed (use assms in simp)

section \<open>Properties\<close>

text \<open>
  C3. A mailbox has one consumer at a time. Once an instance acquires a mailbox under a consumer
  epoch, then until its lease runs out, and whatever the other consumers and the cleanup do in
  between, the mailbox is still owned by that instance and epoch, and every attempt of a consumer
  with another epoch to acquire it is refused.
\<close>

theorem lease_exclusive:
  assumes "pk owner_key (t_owners d)"
    and "try_acquire_delivery_owner now n p c i e rt lease d = Inr (True, d1)"
    and "(others_step (n, p, c) e)\<^sup>*\<^sup>* (now, d1) (now', d')"
    and "now' < now + interval_ms (int lease)"
    and "e' \<noteq> e" and "int lease' \<le> i64_max"
  shows "(\<exists>rt'. load_delivery_owner now' n p c d'
           = Some \<lparr>do_instance_id = i, do_consumer_epoch = e, do_owner_route = rt'\<rparr>)
    \<and> (\<exists>d''. try_acquire_delivery_owner now' n p c i' e' rt'' lease' d' = Inr (False, d''))"
proof -
  from acquire_cases [OF assms(2,1)] obtain r where r: "owner_row_of n p c d1 = Some r"
    "ow_epoch r = e" "ow_instance_id r = i" "ow_lease_expires_at r = now + interval_ms (int lease)"
    and pk1: "pk owner_key (t_owners d1)" by blast
  from others_steps_keep [OF assms(3) pk1 r(1,2)] assms(4) r(4)
  have pk': "pk owner_key (t_owners d')" and r': "owner_row_of n p c d' = Some r" by simp_all
  obtain ok d'' where a: "try_acquire_delivery_owner now' n p c i' e' rt'' lease' d' = Inr (ok, d'')"
    using assms(6) by (simp add: try_acquire_delivery_owner_def Let_def i64_try_from_def)
  have "\<not> ok" using acquire_cases(2) [OF a pk'] r' r(2,4) assms(4,5) by simp
  with a have "\<exists>d''. try_acquire_delivery_owner now' n p c i' e' rt'' lease' d' = Inr (False, d'')" by auto
  moreover have "\<exists>rt'. load_delivery_owner now' n p c d'
           = Some \<lparr>do_instance_id = i, do_consumer_epoch = e, do_owner_route = rt'\<rparr>"
    using r r' assms(4) by (simp add: load_delivery_owner_row [OF pk'])
  ultimately show ?thesis by blast
qed

definition owned_db :: db where
  "owned_db = empty_db\<lparr>t_owners :=
     [\<lparr>ow_binding_key = mailbox_binding_key ''net'' ''alice'', ow_class = ''bulk'',
       ow_instance_id = ''gw1'', ow_epoch = ''e1'', ow_lease_expires_at = 30000000,
       ow_route = ''https://gw1'', ow_updated_at = 0\<rparr>]\<rparr>"

lemma owned_db_acquired:
  "try_acquire_delivery_owner 0 ''net'' ''alice'' Bulk ''gw1'' ''e1'' (Some ''https://gw1'') 30000 empty_db
   = Inr (True, owned_db)"
  by (simp add: try_acquire_delivery_owner_def i64_try_from_def Let_def upsert_count_def upsert_def
      empty_db_def owned_db_def interval_ms_def)

theorem lease_exclusive_witness:
  "\<exists>d'. try_acquire_delivery_owner 20000000 ''net'' ''alice'' Bulk ''gw2'' ''e2'' None 30000 owned_db
     = Inr (False, d')"
proof -
  have steps: "(others_step (''net'', ''alice'', Bulk) ''e1'')\<^sup>*\<^sup>* (0, owned_db) (20000000, owned_db)"
    by (rule r_into_rtranclp) (rule others_step.tick, simp)
  show ?thesis
    by (rule lease_exclusive [OF _ owned_db_acquired steps, THEN conjunct2])
      (simp_all add: empty_db_def pk_def interval_ms_def)
qed

text \<open>
  Ownership can be handed over: when the owner releases the mailbox, or when its lease has run
  out, the next attempt to acquire it succeeds, whoever makes it, and the new consumer is the owner
  that other instances see.
\<close>

theorem owner_handover:
  assumes "pk owner_key (t_owners d)" and "int lease \<le> i64_max" and "0 < lease"
    and "release_delivery_owner n p c i e d = (True, d1) \<or>
         (d1 = d \<and> load_delivery_owner now n p c d = None)"
  shows "\<exists>d2. try_acquire_delivery_owner now n p c i' e' rt lease d1 = Inr (True, d2)
    \<and> load_delivery_owner now n p c d2
        = Some \<lparr>do_instance_id = i', do_consumer_epoch = e',
                do_owner_route = (case rt of None \<Rightarrow> [] | Some s \<Rightarrow> s)\<rparr>"
proof -
  have pk1: "pk owner_key (t_owners d1)"
    and free: "case owner_row_of n p c d1 of None \<Rightarrow> True | Some r \<Rightarrow> ow_lease_expires_at r \<le> now"
    using assms(4) release_cases [OF _ assms(1)] assms(1)
    by (auto simp: load_delivery_owner_row not_less split: option.splits if_splits)
  obtain ok d2 where a: "try_acquire_delivery_owner now n p c i' e' rt lease d1 = Inr (ok, d2)"
    using assms(2) by (simp add: try_acquire_delivery_owner_def Let_def i64_try_from_def)
  note ac = acquire_cases [OF a pk1]
  have ok: "ok" using ac(2) free by (auto split: option.splits)
  from ac(3) [OF this] obtain r where "owner_row_of n p c d2 = Some r" "ow_epoch r = e'"
    "ow_instance_id r = i'" "ow_route r = (case rt of None \<Rightarrow> [] | Some s \<Rightarrow> s)"
    "ow_lease_expires_at r = now + interval_ms (int lease)" by blast
  then have "load_delivery_owner now n p c d2
        = Some \<lparr>do_instance_id = i', do_consumer_epoch = e',
                do_owner_route = (case rt of None \<Rightarrow> [] | Some s \<Rightarrow> s)\<rparr>"
    using assms(3) by (simp add: load_delivery_owner_row [OF ac(1)] interval_ms_def)
  with a ok show ?thesis by auto
qed

theorem owner_handover_witness:
  "\<exists>d2. try_acquire_delivery_owner 30000000 ''net'' ''alice'' Bulk ''gw2'' ''e2'' None 30000 owned_db
       = Inr (True, d2)
    \<and> load_delivery_owner 30000000 ''net'' ''alice'' Bulk d2
       = Some \<lparr>do_instance_id = ''gw2'', do_consumer_epoch = ''e2'',
               do_owner_route = (case None of None \<Rightarrow> [] | Some s \<Rightarrow> s)\<rparr>"
  by (rule owner_handover [of owned_db 30000])
    (simp_all add: owned_db_def empty_db_def pk_def load_delivery_owner_def)

end
