(* ===== verification/Gateway_State.thy ===== *)
theory Gateway_State
  imports Observability Store
begin

text \<open>
  The state a gateway instance works on and the style of its handlers. RabbitMQ is not part of this
  repository: an instance only sends it commands and acts on the replies, so the state records the
  commands in the order they were sent and the replies come from the parameter \<open>en_broker\<close>, an
  arbitrary function of the commands so far. An operation maps a state to a result and a new state;
  errors keep the state reached. \<open>bnd\<close> is the \<open>?\<close> operator on such operations. \<open>preserves\<close> and \<open>emits\<close>
  are the two frame conditions the components use: what an operation leaves unchanged, and which
  commands it may send.
\<close>

section \<open>The broker\<close>

datatype amqp_value =
    LongString string
  | ShortString string
  | LongLongInt int
  | LongInt int
  | OtherValue

datatype exchange_kind = Direct | Topic | Fanout

record broker_record =
  br_network_id :: string
  br_record_id :: string
  br_source_principal_id :: string
  br_route :: route
  br_record :: string
  br_membership_version :: "string option"
  br_delivery_class :: delivery_class
  br_delivery_policy_version :: u64
  br_enqueued_at :: u64
  br_expires_at :: "u64 option"

record broker_control_record =
  bc_network_id :: string
  bc_correlation_id :: string
  bc_source_principal_id :: string
  bc_target_principal_id :: string
  bc_control_kind :: string
  bc_payload :: string
  bc_gap_route :: route
  bc_delivery_policy_version :: u64
  bc_enqueued_at :: u64
  bc_expires_at :: "u64 option"

datatype broker_envelope = Record broker_record | Control broker_control_record

text \<open>A message as the broker hands it out; \<open>None\<close> when its data does not decode to an envelope.\<close>

record broker_message =
  bm_delivery_tag :: u64
  bm_redelivered :: bool
  bm_envelope :: "broker_envelope option"
  bm_data_len :: nat
  bm_headers :: "(string \<times> amqp_value) list"

datatype broker_cmd =
    CreateChannel
  | ConfirmSelect nat
  | ExchangeDeclare nat string exchange_kind
  | QueueDeclare nat string "(string \<times> amqp_value) list"
  | QueueDeclarePassive nat string
  | QueueBind nat string string string
  | QueueUnbind nat string string string
  | BasicPublish nat string string string broker_envelope
  | AwaitConfirm nat
  | BasicQos nat nat
  | BasicConsume nat string string
  | ConsumerNext nat
  | BasicCancel nat string
  | BasicAck nat u64
  | BasicGet nat string
  | CloseChannel nat nat string

datatype confirmation = ConfirmAck | ConfirmReturned string | ConfirmNack | ConfirmNotRequested

datatype broker_reply =
    ReplyOk
  | ReplyChannel nat
  | ReplyConfirm confirmation
  | ReplyMessage broker_message
  | ReplyQueue nat nat
  | ReplyEnd
  | ReplyFail string
  | ReplyElapsed

section \<open>Environment and state\<close>

text \<open>
  Beside the broker, an environment supplies the clock of the request, the time its measured parts
  take, fresh UUIDs, the column default of \<open>record_hash\<close> (a table created by \<open>init_schema\<close> has none; a
  table upgraded by its \<open>ALTER TABLE\<close> has the empty string), the answer of another instance to a
  forwarded commit together with what it left in the shared database, and the object store.
\<close>

record env =
  en_x :: externs
  en_config :: config
  en_broker :: "broker_cmd list \<Rightarrow> broker_cmd \<Rightarrow> broker_reply"
  en_now :: instant
  en_elapsed :: duration
  en_uuid :: "nat \<Rightarrow> string"
  en_record_hash_default :: "string option"
  en_forward :: "string \<Rightarrow> string \<Rightarrow> string \<Rightarrow> commit_request \<Rightarrow> db \<Rightarrow> u64 option result \<times> db"
  en_metadata :: "string list \<Rightarrow> (bool \<times> u64) option"
  en_read :: "string list \<Rightarrow> string result"

record pending_page =
  pg_channel :: nat
  pg_delivery_tags :: "u64 list"
  pg_network_id :: string
  pg_principal_id :: string
  pg_delivery_class :: delivery_class
  pg_consumer_epoch :: string
  pg_opened_at :: instant
  pg_oldest_enqueued_at :: u64

record gw =
  gw_db :: db
  gw_log :: "broker_cmd list"
  gw_pages :: "(string \<times> pending_page) list"
  gw_obs :: runtime_state

type_synonym 'a op = "gw \<Rightarrow> 'a result \<times> gw"

section \<open>Operations\<close>

definition ret :: "'a \<Rightarrow> 'a op" where
  "ret v s = (Inr v, s)"

definition raise :: "string \<Rightarrow> 'a op" where
  "raise m s = (Inl m, s)"

definition lift_res :: "'a result \<Rightarrow> 'a op" where
  "lift_res r s = (r, s)"

definition bnd :: "'a op \<Rightarrow> ('a \<Rightarrow> 'b op) \<Rightarrow> 'b op" where
  "bnd m f s = (case m s of (Inl e, s') \<Rightarrow> (Inl e, s') | (Inr v, s') \<Rightarrow> f v s')"

definition modify :: "(gw \<Rightarrow> gw) \<Rightarrow> unit op" where
  "modify f s = (Inr (), f s)"

definition reads :: "(gw \<Rightarrow> 'a) \<Rightarrow> 'a op" where
  "reads f s = (Inr (f s), s)"

text \<open>\<open>let result = operation.await;\<close> without \<open>?\<close>: the result is a value.\<close>

definition attempt :: "'a op \<Rightarrow> 'a result op" where
  "attempt m s = (Inr (fst (m s)), snd (m s))"

fun for_each :: "('x \<Rightarrow> unit op) \<Rightarrow> 'x list \<Rightarrow> unit op" where
  "for_each f [] = ret ()"
| "for_each f (x # xs) = bnd (f x) (\<lambda>_. for_each f xs)"

definition observed :: "(runtime_state \<Rightarrow> runtime_state) \<Rightarrow> unit op" where
  "observed f = modify (\<lambda>s. s\<lparr>gw_obs := f (gw_obs s)\<rparr>)"

text \<open>
  A command and its reply. \<open>ReplyElapsed\<close> stands for an enclosing \<open>tokio::time::timeout\<close> that ends
  while the command is pending: the pending future is dropped, which the error \<open>deadline\<close> propagates
  up to the timeout.
\<close>

definition deadline :: string where
  "deadline = ''deadline has elapsed''"

definition send :: "env \<Rightarrow> broker_cmd \<Rightarrow> broker_reply op" where
  "send en c s = (Inr (en_broker en (gw_log s) c), s\<lparr>gw_log := gw_log s @ [c]\<rparr>)"

definition send_ok :: "env \<Rightarrow> broker_cmd \<Rightarrow> unit op" where
  "send_ok en c = bnd (send en c) (\<lambda>r. case r of
     ReplyOk \<Rightarrow> ret () | ReplyFail m \<Rightarrow> raise m | ReplyElapsed \<Rightarrow> raise deadline
   | _ \<Rightarrow> raise ''unexpected reply'')"

definition create_channel :: "env \<Rightarrow> nat op" where
  "create_channel en = bnd (send en CreateChannel) (\<lambda>r. case r of
     ReplyChannel ch \<Rightarrow> ret ch | ReplyFail m \<Rightarrow> raise m | ReplyElapsed \<Rightarrow> raise deadline
   | _ \<Rightarrow> raise ''unexpected reply'')"

definition timed :: "string \<Rightarrow> 'a op \<Rightarrow> 'a op" where
  "timed msg m s = (case m s of (Inl e, s') \<Rightarrow> (Inl (if e = deadline then msg else e), s')
                              | (Inr v, s') \<Rightarrow> (Inr v, s'))"

lemmas op_defs = ret_def raise_def lift_res_def bnd_def modify_def reads_def attempt_def observed_def

section \<open>Reasoning about operations\<close>

lemma bnd_Inr:
  "bnd m f s = (Inr v, s') \<longleftrightarrow> (\<exists>x s1. m s = (Inr x, s1) \<and> f x s1 = (Inr v, s'))"
  by (auto simp: bnd_def split: prod.splits sum.splits)

lemma snd_bnd:
  "snd (bnd m f s) = (case fst (m s) of Inl _ \<Rightarrow> snd (m s) | Inr v \<Rightarrow> snd (f v (snd (m s))))"
  by (auto simp: bnd_def split: prod.splits sum.splits)

lemma for_each_Inr_append:
  "for_each f (xs @ ys) = bnd (for_each f xs) (\<lambda>_. for_each f ys)"
proof (induction xs)
  case Nil
  then show ?case by (simp add: bnd_def ret_def fun_eq_iff)
next
  case (Cons x xs)
  then show ?case by (auto simp: bnd_def fun_eq_iff split: prod.splits sum.splits)
qed

text \<open>What an operation leaves unchanged.\<close>

definition preserves :: "(gw \<Rightarrow> 'x) \<Rightarrow> 'a op \<Rightarrow> bool" where
  "preserves f m \<longleftrightarrow> (\<forall>s. f (snd (m s)) = f s)"

text \<open>Which commands an operation may send.\<close>

definition emits :: "(broker_cmd \<Rightarrow> bool) \<Rightarrow> 'a op \<Rightarrow> bool" where
  "emits P m \<longleftrightarrow> (\<forall>s. \<exists>cs. gw_log (snd (m s)) = gw_log s @ cs \<and> list_all P cs)"

named_theorems frame_intros

lemma preserves_ops [frame_intros, simp]:
  "preserves f (ret v)" "preserves f (raise m)" "preserves f (lift_res r)" "preserves f (reads g)"
  by (simp_all add: preserves_def op_defs)

lemma preserves_bnd [frame_intros, intro]:
  "preserves f m \<Longrightarrow> (\<And>v. preserves f (k v)) \<Longrightarrow> preserves f (bnd m k)"
  by (auto simp: preserves_def snd_bnd split: sum.splits)

lemma preserves_attempt [frame_intros, intro]: "preserves f m \<Longrightarrow> preserves f (attempt m)"
  by (simp add: preserves_def attempt_def)

lemma preserves_timed [frame_intros, intro]: "preserves f m \<Longrightarrow> preserves f (timed msg m)"
  by (auto simp: preserves_def timed_def split: prod.splits sum.splits) (metis snd_conv)+

lemma preserves_for_each [frame_intros, intro]:
  "(\<And>x. preserves f (g x)) \<Longrightarrow> preserves f (for_each g xs)"
  by (induction xs) (auto intro: preserves_bnd)

lemma emits_ops [frame_intros, simp]:
  "emits P (ret v)" "emits P (raise m)" "emits P (lift_res r)" "emits P (reads g)"
  by (simp_all add: emits_def op_defs)

lemma emits_bnd [frame_intros, intro]:
  assumes "emits P m" and "\<And>v. emits P (k v)"
  shows "emits P (bnd m k)"
  unfolding emits_def
proof
  fix s
  obtain cs where cs: "gw_log (snd (m s)) = gw_log s @ cs" "list_all P cs"
    using assms(1) by (auto simp: emits_def)
  show "\<exists>cs. gw_log (snd (bnd m k s)) = gw_log s @ cs \<and> list_all P cs"
  proof (cases "fst (m s)")
    case (Inl e)
    then show ?thesis using cs by (auto simp: snd_bnd)
  next
    case (Inr v)
    obtain ds where "gw_log (snd (k v (snd (m s)))) = gw_log (snd (m s)) @ ds" "list_all P ds"
      using assms(2) [of v] by (auto simp: emits_def)
    then show ?thesis using Inr cs by (auto simp: snd_bnd intro!: exI [of _ "cs @ ds"])
  qed
qed

lemma emits_attempt [frame_intros, intro]: "emits P m \<Longrightarrow> emits P (attempt m)"
  by (simp add: emits_def attempt_def)

lemma emits_timed [frame_intros, intro]: "emits P m \<Longrightarrow> emits P (timed msg m)"
  by (auto simp: emits_def timed_def split: prod.splits sum.splits) (metis snd_conv)+

lemma emits_for_each [frame_intros, intro]:
  "(\<And>x. x \<in> set xs \<Longrightarrow> emits P (g x)) \<Longrightarrow> emits P (for_each g xs)"
  by (induction xs) (auto intro: emits_bnd)

lemma emits_mono: "emits P m \<Longrightarrow> (\<And>c. P c \<Longrightarrow> Q c) \<Longrightarrow> emits Q m"
  unfolding emits_def by (metis list.pred_mono_strong)

lemma emits_observed [frame_intros, simp]: "emits P (observed f)"
  by (simp add: emits_def op_defs)

lemma emits_send: "emits P (send en c) \<longleftrightarrow> P c"
  by (auto simp: emits_def send_def)

lemma emits_send_ok [frame_intros, intro]: "P c \<Longrightarrow> emits P (send_ok en c)"
  unfolding send_ok_def by (rule emits_bnd) (auto simp: emits_send split: broker_reply.splits)

lemma emits_create_channel [frame_intros, intro]: "P CreateChannel \<Longrightarrow> emits P (create_channel en)"
  unfolding create_channel_def by (rule emits_bnd) (auto simp: emits_send split: broker_reply.splits)

lemma preserves_observed [frame_intros, simp]:
  "preserves gw_db (observed f)" "preserves gw_pages (observed f)" "preserves gw_log (observed f)"
  by (simp_all add: preserves_def op_defs)

lemma preserves_send [frame_intros, simp]:
  "preserves gw_db (send en c)" "preserves gw_pages (send en c)" "preserves gw_obs (send en c)"
  by (simp_all add: preserves_def send_def)

lemma preserves_send_ok [frame_intros, simp]:
  "preserves gw_db (send_ok en c)" "preserves gw_pages (send_ok en c)" "preserves gw_obs (send_ok en c)"
  unfolding send_ok_def by (rule preserves_bnd; simp split: broker_reply.splits)+

lemma preserves_create_channel [frame_intros, simp]:
  "preserves gw_db (create_channel en)" "preserves gw_pages (create_channel en)"
  "preserves gw_obs (create_channel en)"
  unfolding create_channel_def by (rule preserves_bnd; simp split: broker_reply.splits)+

lemma preservesD: "preserves f m \<Longrightarrow> m s = (r, s') \<Longrightarrow> f s' = f s"
  by (metis preserves_def snd_conv)

lemma emitsD: "emits P m \<Longrightarrow> m s = (r, s') \<Longrightarrow> \<exists>cs. gw_log s' = gw_log s @ cs \<and> list_all P cs"
  by (metis emits_def snd_conv)

section \<open>What the broker answered\<close>

text \<open>The commands sent after \<open>pre\<close>, each with its reply.\<close>

fun trace :: "(broker_cmd list \<Rightarrow> broker_cmd \<Rightarrow> broker_reply) \<Rightarrow> broker_cmd list \<Rightarrow> broker_cmd list
  \<Rightarrow> (broker_cmd \<times> broker_reply) list" where
  "trace B pre [] = []"
| "trace B pre (c # cs) = (c, B pre c) # trace B (pre @ [c]) cs"

text \<open>Channels opened so far, and the delivery tags handed out to the consumer of a channel.\<close>

definition created :: "(broker_cmd list \<Rightarrow> broker_cmd \<Rightarrow> broker_reply) \<Rightarrow> broker_cmd list \<Rightarrow> nat set" where
  "created B lg = {ch. (CreateChannel, ReplyChannel ch) \<in> set (trace B [] lg)}"

definition delivered ::
  "(broker_cmd list \<Rightarrow> broker_cmd \<Rightarrow> broker_reply) \<Rightarrow> broker_cmd list \<Rightarrow> nat \<Rightarrow> u64 set" where
  "delivered B lg ch =
     {bm_delivery_tag m | m. (ConsumerNext ch, ReplyMessage m) \<in> set (trace B [] lg)}"

text \<open>The channel a command is sent on.\<close>

fun cmd_channel :: "broker_cmd \<Rightarrow> nat option" where
  "cmd_channel CreateChannel = None"
| "cmd_channel (ConfirmSelect ch) = Some ch"
| "cmd_channel (ExchangeDeclare ch _ _) = Some ch"
| "cmd_channel (QueueDeclare ch _ _) = Some ch"
| "cmd_channel (QueueDeclarePassive ch _) = Some ch"
| "cmd_channel (QueueBind ch _ _ _) = Some ch"
| "cmd_channel (QueueUnbind ch _ _ _) = Some ch"
| "cmd_channel (BasicPublish ch _ _ _ _) = Some ch"
| "cmd_channel (AwaitConfirm ch) = Some ch"
| "cmd_channel (BasicQos ch _) = Some ch"
| "cmd_channel (BasicConsume ch _ _) = Some ch"
| "cmd_channel (ConsumerNext ch) = Some ch"
| "cmd_channel (BasicCancel ch _) = Some ch"
| "cmd_channel (BasicAck ch _) = Some ch"
| "cmd_channel (BasicGet ch _) = Some ch"
| "cmd_channel (CloseChannel ch _ _) = Some ch"

text \<open>
  What AMQP promises and the adapter relies on: a new channel has a number no earlier channel had and
  no earlier command used, and a delivery tag is used once per channel.
\<close>

definition fresh_channels :: "(broker_cmd list \<Rightarrow> broker_cmd \<Rightarrow> broker_reply) \<Rightarrow> bool" where
  "fresh_channels B \<longleftrightarrow> (\<forall>lg ch. B lg CreateChannel = ReplyChannel ch
     \<longrightarrow> ch \<notin> created B lg \<and> (\<forall>c\<in>set lg. cmd_channel c \<noteq> Some ch))"

definition fresh_tags :: "(broker_cmd list \<Rightarrow> broker_cmd \<Rightarrow> broker_reply) \<Rightarrow> bool" where
  "fresh_tags B \<longleftrightarrow> (\<forall>lg ch m. B lg (ConsumerNext ch) = ReplyMessage m
     \<longrightarrow> bm_delivery_tag m \<notin> delivered B lg ch)"

lemma trace_append: "trace B pre (cs @ ds) = trace B pre cs @ trace B (pre @ cs) ds"
  by (induction cs arbitrary: pre) simp_all

lemma created_append: "created B (lg @ cs) = created B lg \<union> {ch. (CreateChannel, ReplyChannel ch) \<in> set (trace B lg cs)}"
  by (auto simp: created_def trace_append)

lemma delivered_snoc:
  "delivered B (lg @ [c]) ch = delivered B lg ch
     \<union> {bm_delivery_tag m | m. c = ConsumerNext ch \<and> B lg c = ReplyMessage m}"
  by (auto simp: delivered_def trace_append)

lemma delivered_append: "delivered B lg ch \<subseteq> delivered B (lg @ cs) ch"
  by (auto simp: delivered_def trace_append)

text \<open>Which commands an operation sends from one state.\<close>

definition emits_at :: "(broker_cmd \<Rightarrow> bool) \<Rightarrow> 'a op \<Rightarrow> gw \<Rightarrow> bool" where
  "emits_at P m s \<longleftrightarrow> (\<exists>cs. gw_log (snd (m s)) = gw_log s @ cs \<and> list_all P cs)"

lemma emits_iff: "emits P m \<longleftrightarrow> (\<forall>s. emits_at P m s)"
  by (simp add: emits_def emits_at_def)

lemma emits_imp_at: "emits P m \<Longrightarrow> emits_at P m s"
  by (simp add: emits_iff)

lemma emits_at_bnd:
  assumes "emits_at P m s" and "\<And>v. fst (m s) = Inr v \<Longrightarrow> emits_at P (k v) (snd (m s))"
  shows "emits_at P (bnd m k) s"
proof (cases "fst (m s)")
  case (Inl e)
  then show ?thesis using assms(1) by (simp add: emits_at_def snd_bnd)
next
  case (Inr v)
  obtain cs ds where "gw_log (snd (m s)) = gw_log s @ cs" "list_all P cs"
    "gw_log (snd (k v (snd (m s)))) = gw_log (snd (m s)) @ ds" "list_all P ds"
    using assms(1) assms(2) [OF Inr] by (auto simp: emits_at_def)
  then show ?thesis using Inr by (auto simp: emits_at_def snd_bnd intro!: exI [of _ "cs @ ds"])
qed

lemma create_channel_Inr:
  "create_channel en s = (Inr ch, s') \<longleftrightarrow>
     en_broker en (gw_log s) CreateChannel = ReplyChannel ch \<and> s' = s\<lparr>gw_log := gw_log s @ [CreateChannel]\<rparr>"
  by (auto simp: create_channel_def bnd_def send_def ret_def raise_def split: broker_reply.splits)

lemma send_ok_Inr:
  "send_ok en c s = (Inr u, s') \<longleftrightarrow>
     en_broker en (gw_log s) c = ReplyOk \<and> s' = s\<lparr>gw_log := gw_log s @ [c]\<rparr>"
  by (auto simp: send_ok_def bnd_def send_def ret_def raise_def split: broker_reply.splits)

lemma snd_send_ok [simp]: "snd (send_ok en c s) = s\<lparr>gw_log := gw_log s @ [c]\<rparr>"
  by (auto simp: send_ok_def bnd_def send_def ret_def raise_def split: broker_reply.splits)

lemma snd_create_channel [simp]: "snd (create_channel en s) = s\<lparr>gw_log := gw_log s @ [CreateChannel]\<rparr>"
  by (auto simp: create_channel_def bnd_def send_def ret_def raise_def split: broker_reply.splits)

lemma for_each_send_ok_Inr:
  "for_each (\<lambda>x. send_ok en (f x)) xs s = (Inr u, s') \<Longrightarrow> s' = s\<lparr>gw_log := gw_log s @ map f xs\<rparr>"
proof (induction xs arbitrary: s)
  case Nil
  then show ?case by (simp add: ret_def)
next
  case (Cons x xs)
  then obtain s1 where "send_ok en (f x) s = (Inr (), s1)"
    "for_each (\<lambda>x. send_ok en (f x)) xs s1 = (Inr u, s')"
    by (auto simp: bnd_Inr)
  with Cons.IH [of s1] show ?case by (auto simp: send_ok_Inr)
qed

lemma for_each_send_ok_log:
  "\<exists>ys zs. xs = ys @ zs \<and> snd (for_each (\<lambda>x. send_ok en (f x)) xs s) = s\<lparr>gw_log := gw_log s @ map f ys\<rparr>"
proof (induction xs arbitrary: s)
  case Nil
  then show ?case by (simp add: ret_def)
next
  case (Cons x xs)
  show ?case
  proof (cases "fst (send_ok en (f x) s)")
    case (Inl e)
    then have "x # xs = [x] @ xs \<and> snd (for_each (\<lambda>x. send_ok en (f x)) (x # xs) s)
        = s\<lparr>gw_log := gw_log s @ map f [x]\<rparr>" by (simp add: snd_bnd)
    then show ?thesis by blast
  next
    case (Inr u)
    obtain ys zs where "xs = ys @ zs"
      "snd (for_each (\<lambda>x. send_ok en (f x)) xs (snd (send_ok en (f x) s)))
        = (snd (send_ok en (f x) s))\<lparr>gw_log := gw_log (snd (send_ok en (f x) s)) @ map f ys\<rparr>"
      using Cons.IH by blast
    then have "x # xs = (x # ys) @ zs \<and> snd (for_each (\<lambda>x. send_ok en (f x)) (x # xs) s)
        = s\<lparr>gw_log := gw_log s @ map f (x # ys)\<rparr>" using Inr by (simp add: snd_bnd)
    then show ?thesis by blast
  qed
qed

lemma create_channel_fresh:
  assumes "fresh_channels (en_broker en)" and "create_channel en s = (Inr ch, s')"
  shows "ch \<notin> created (en_broker en) (gw_log s)" and "ch \<in> created (en_broker en) (gw_log s')"
    and "\<And>c. c \<in> set (gw_log s') \<Longrightarrow> cmd_channel c \<noteq> Some ch"
  using assms by (auto simp: create_channel_Inr fresh_channels_def created_append)

end
