(* ===== verification/Gaps.thy ===== *)
theory Gaps
  imports Store Sample_Externs "HOL-Library.Product_Lexorder"
begin

text \<open>
  Mailbox gaps (\<open>gaps.rs\<close>): lost deliveries are counted per route, reason and hour, listed on a
  delivery page and acknowledged with it. The statements of \<open>load_for_page\<close> run one after the other
  outside a transaction, so its update stays even when a stored row cannot be decoded.
\<close>

definition reason_label :: "gap_reason \<Rightarrow> string" where
  "reason_label reason =
    (case reason of Expired \<Rightarrow> ''expired''
     | DeliveryLimitExceeded \<Rightarrow> ''delivery_limit_exceeded''
     | AdministrativeRemoval \<Rightarrow> ''administrative_removal'')"

definition parse_reason :: "string \<Rightarrow> gap_reason result" where
  "parse_reason s =
    (if s = ''expired'' then Inr Expired
     else if s = ''delivery_limit_exceeded'' then Inr DeliveryLimitExceeded
     else if s = ''administrative_removal'' then Inr AdministrativeRemoval
     else Inl ''invalid stored MailboxGap reason'')"

definition compressed_gap_id ::
  "externs \<Rightarrow> string \<Rightarrow> string \<Rightarrow> delivery_class \<Rightarrow> u64 \<Rightarrow> route \<Rightarrow> gap_reason \<Rightarrow> u64 \<Rightarrow> string" where
  "compressed_gap_id E network_id principal_id class policy route reason hour_bucket =
     x_uuid_of_bytes E (take 16 (x_sha256 E
       (x_gap_bytes E network_id principal_id class policy route reason hour_bucket)))"

text \<open>\<open>DateTime::from_timestamp_millis\<close>, which is \<open>None\<close> outside the years chrono represents.\<close>

definition from_timestamp_millis :: "int \<Rightarrow> instant option" where
  "from_timestamp_millis ms =
     (if - 8334601228800000 \<le> ms \<and> ms \<le> 8210266876799999 then Some (ms * 1000) else None)"

definition gap_merge :: "gap_row \<Rightarrow> gap_row \<Rightarrow> gap_row option" where
  "gap_merge n e =
     Some (e\<lparr>gg_last_affected_at := max (gg_last_affected_at e) (gg_last_affected_at n),
             gg_count := gg_count e + 1\<rparr>)"

definition record_gap ::
  "externs \<Rightarrow> instant \<Rightarrow> string \<Rightarrow> string \<Rightarrow> delivery_class \<Rightarrow> u64 \<Rightarrow> route \<Rightarrow> gap_reason \<Rightarrow> u64
   \<Rightarrow> db \<Rightarrow> string \<times> db" where
  "record_gap E now network_id principal_id class policy route reason affected_at_ms d =
    (let gap_id = compressed_gap_id E network_id principal_id class policy route reason
           (affected_at_ms div 3600000);
         affected_at = (case from_timestamp_millis (sint affected_at_ms) of
           None \<Rightarrow> now | Some t \<Rightarrow> t)
     in (gap_id, d\<lparr>t_gaps := upsert gap_key gap_merge
          \<lparr>gg_network_id = network_id, gg_principal_id = principal_id, gg_gap_id = gap_id,
           gg_class = class_str class, gg_policy_version = policy, gg_route = route,
           gg_reason = reason_label reason, gg_first_affected_at = affected_at,
           gg_last_affected_at = affected_at, gg_count = 1, gg_delivered_at = None,
           gg_page_id = None, gg_acknowledged_at = None\<rparr> (t_gaps d)\<rparr>))"

definition mailbox_gap_row :: "string \<Rightarrow> string \<Rightarrow> delivery_class \<Rightarrow> gap_row \<Rightarrow> bool" where
  "mailbox_gap_row network_id principal_id class r \<longleftrightarrow>
     gg_network_id r = network_id \<and> gg_principal_id r = principal_id \<and> gg_class r = class_str class"

definition page_candidate :: "string \<Rightarrow> instant \<Rightarrow> gap_row \<Rightarrow> bool" where
  "page_candidate page_id cutoff r \<longleftrightarrow>
     gg_acknowledged_at r = None
     \<and> (gg_page_id r = None \<or> gg_page_id r = Some page_id
        \<or> (case gg_delivered_at r of None \<Rightarrow> False | Some t \<Rightarrow> t \<le> cutoff))"

definition page_rows ::
  "instant \<Rightarrow> string \<Rightarrow> string \<Rightarrow> delivery_class \<Rightarrow> string \<Rightarrow> nat \<Rightarrow> int \<Rightarrow> db \<Rightarrow> gap_row list" where
  "page_rows now network_id principal_id class page_id limit redelivery_ms d =
     take limit (sort_key (\<lambda>r. (gg_first_affected_at r, gg_gap_id r))
       (filter (\<lambda>r. mailbox_gap_row network_id principal_id class r
                   \<and> page_candidate page_id (now - interval_ms redelivery_ms) r) (t_gaps d)))"

definition mailbox_gap_of :: "delivery_class \<Rightarrow> gap_row \<Rightarrow> mailbox_gap result" where
  "mailbox_gap_of class r =
     and_then (parse_reason (gg_reason r)) (\<lambda>reason.
       Inr \<lparr>mg_gap_id = gg_gap_id r, mg_delivery_class = class,
            mg_delivery_policy_version = gg_policy_version r, mg_route = gg_route r,
            mg_reason = reason, mg_first_affected_at = millis_u64 (gg_first_affected_at r),
            mg_last_affected_at = millis_u64 (gg_last_affected_at r),
            mg_approximate_count = of_nat (gg_count r)\<rparr>)"

fun collect_gaps :: "delivery_class \<Rightarrow> gap_row list \<Rightarrow> mailbox_gap list result" where
  "collect_gaps class [] = Inr []"
| "collect_gaps class (r # rs) =
     and_then (mailbox_gap_of class r) (\<lambda>g. and_then (collect_gaps class rs) (\<lambda>gs. Inr (g # gs)))"

definition load_for_page ::
  "instant \<Rightarrow> string \<Rightarrow> string \<Rightarrow> delivery_class \<Rightarrow> string \<Rightarrow> nat \<Rightarrow> duration \<Rightarrow> db
   \<Rightarrow> mailbox_gap list result \<times> db" where
  "load_for_page now network_id principal_id class page_id limit redelivery_after d =
    (case i64_try_from redelivery_after ''out of range integral type conversion attempted'' of
       Inl m \<Rightarrow> (Inl m, d)
     | Inr redelivery_ms \<Rightarrow>
        let rows = page_rows now network_id principal_id class page_id limit redelivery_ms d;
            d' = (if rows = [] then d
                  else d\<lparr>t_gaps := update_where
                    (\<lambda>r. mailbox_gap_row network_id principal_id class r
                        \<and> gg_acknowledged_at r = None \<and> gg_gap_id r \<in> set (map gg_gap_id rows))
                    (\<lambda>r. r\<lparr>gg_page_id := Some page_id, gg_delivered_at := Some now\<rparr>) (t_gaps d)\<rparr>)
        in (collect_gaps class rows, d'))"

definition acknowledge_page ::
  "instant \<Rightarrow> string \<Rightarrow> string \<Rightarrow> delivery_class \<Rightarrow> string \<Rightarrow> db \<Rightarrow> nat \<times> db" where
  "acknowledge_page now network_id principal_id class page_id d =
    (let P = (\<lambda>r. mailbox_gap_row network_id principal_id class r
                 \<and> gg_page_id r = Some page_id \<and> gg_acknowledged_at r = None)
     in (rows_affected P (t_gaps d),
         d\<lparr>t_gaps := update_where P (\<lambda>r. r\<lparr>gg_acknowledged_at := Some now\<rparr>) (t_gaps d)\<rparr>))"

interpretation gaps: keyed_upsert gap_key gap_merge
  by unfold_locales (auto simp: gap_merge_def gap_key_def)

section \<open>Lemmas\<close>

lemma reason_round_trip: "parse_reason (reason_label r) = Inr r"
  by (cases r) (simp_all add: parse_reason_def reason_label_def)

lemma gap_merge_count: "gg_count (resolve gap_merge n e) = gg_count e + 1"
  by (simp add: resolve_def gap_merge_def)

text \<open>The total count of a table that one upsert changes.\<close>

lemma upsert_gap_count:
  assumes "pk gap_key t" and "gg_count n = 1"
  shows "sum_list (map gg_count (upsert gap_key gap_merge n t)) = sum_list (map gg_count t) + 1"
proof (cases "gap_key n \<in> gap_key ` set t")
  case False
  then show ?thesis using assms(2) by (simp add: upsert_def)
next
  case True
  have "sum_list (map gg_count (map (\<lambda>e. if gap_key e = gap_key n then resolve gap_merge n e else e) t))
      = sum_list (map gg_count t) + (if gap_key n \<in> gap_key ` set t then 1 else 0)"
    using assms(1)
  proof (induction t)
    case (Cons a t)
    then have "pk gap_key t" "gap_key a \<notin> gap_key ` set t" by (simp_all add: pk_def)
    with Cons.IH show ?case by (auto simp: gap_merge_count)
  qed simp
  with True show ?thesis by (simp add: upsert_def)
qed

lemma collect_gaps_ids: "collect_gaps c rs = Inr gs \<Longrightarrow> map mg_gap_id gs = map gg_gap_id rs"
  by (induction rs arbitrary: gs) (auto simp: and_then_Inr_iff mailbox_gap_of_def)

lemma collect_gaps_complete:
  "\<forall>r\<in>set rs. \<exists>x. gg_reason r = reason_label x \<Longrightarrow> \<exists>gs. collect_gaps c rs = Inr gs"
  by (induction rs) (auto simp: mailbox_gap_of_def reason_round_trip)

text \<open>The rows of a page: unacknowledged rows of the mailbox, each once.\<close>

lemma page_rows_set:
  assumes "r \<in> set (page_rows now n p c page limit ms d)"
  shows "r \<in> set (t_gaps d)" and "mailbox_gap_row n p c r"
    and "page_candidate page (now - interval_ms ms) r"
  using set_take_subset assms by (fastforce simp: page_rows_def)+

lemma page_rows_distinct:
  assumes "pk gap_key (t_gaps d)"
  shows "distinct (page_rows now n p c page limit ms d)"
proof -
  have "distinct (t_gaps d)" using assms by (simp add: pk_def distinct_map)
  then show ?thesis by (simp add: page_rows_def)
qed

lemma page_rows_complete:
  assumes "r \<in> set (t_gaps d)" and "mailbox_gap_row n p c r"
    and "page_candidate page (now - interval_ms ms) r"
    and "length (filter (mailbox_gap_row n p c) (t_gaps d)) \<le> limit"
  shows "r \<in> set (page_rows now n p c page limit ms d)"
proof -
  let ?Q = "\<lambda>r. mailbox_gap_row n p c r \<and> page_candidate page (now - interval_ms ms) r"
  have "length (filter ?Q (t_gaps d)) \<le> length (filter (mailbox_gap_row n p c) (t_gaps d))"
    by (induction "t_gaps d") (simp_all add: length_filter_conv_card card_mono Collect_mono_iff)
  with assms(4) have "length (filter ?Q (t_gaps d)) \<le> limit" by simp
  then show ?thesis using assms(1-3) by (simp add: page_rows_def)
qed

lemma same_mailbox_gap:
  "pk gap_key t \<Longrightarrow> r \<in> set t \<Longrightarrow> s \<in> set t \<Longrightarrow> mailbox_gap_row n p c r \<Longrightarrow> mailbox_gap_row n p c s \<Longrightarrow>
   gg_gap_id r = gg_gap_id s \<Longrightarrow> r = s"
  by (rule pk_unique [of gap_key t]) (simp_all add: gap_key_def mailbox_gap_row_def)

lemma load_for_page_eq:
  assumes "load_for_page now n p c page limit red d = (Inr gs, d')" and "pk gap_key (t_gaps d)"
  obtains rows where "rows = page_rows now n p c page limit (int red) d"
    "collect_gaps c rows = Inr gs"
    "t_gaps d' = update_where (\<lambda>r. r \<in> set rows)
       (\<lambda>r. r\<lparr>gg_page_id := Some page, gg_delivered_at := Some now\<rparr>) (t_gaps d)"
proof -
  define rows where "rows = page_rows now n p c page limit (int red) d"
  have red: "i64_try_from red ''out of range integral type conversion attempted'' = Inr (int red)"
    using assms(1) by (auto simp: load_for_page_def i64_try_from_def split: sum.splits if_splits)
  have q: "mailbox_gap_row n p c r \<and> gg_acknowledged_at r = None \<and> gg_gap_id r \<in> set (map gg_gap_id rows)
      \<longleftrightarrow> r \<in> set rows" if "r \<in> set (t_gaps d)" for r
  proof
    assume "mailbox_gap_row n p c r \<and> gg_acknowledged_at r = None \<and> gg_gap_id r \<in> set (map gg_gap_id rows)"
    then obtain s where s: "s \<in> set rows" "gg_gap_id s = gg_gap_id r" "mailbox_gap_row n p c r" by auto
    then have "r = s"
      using same_mailbox_gap [OF assms(2) that] page_rows_set(1,2) unfolding rows_def by metis
    with s(1) show "r \<in> set rows" by simp
  next
    assume "r \<in> set rows"
    then show "mailbox_gap_row n p c r \<and> gg_acknowledged_at r = None \<and> gg_gap_id r \<in> set (map gg_gap_id rows)"
      using page_rows_set(2,3) unfolding rows_def by (fastforce simp: page_candidate_def)
  qed
  have "t_gaps d' = update_where (\<lambda>r. r \<in> set rows)
       (\<lambda>r. r\<lparr>gg_page_id := Some page, gg_delivered_at := Some now\<rparr>) (t_gaps d)"
    using assms(1) q unfolding load_for_page_def red rows_def [symmetric]
    by (auto simp: Let_def rows_def [symmetric] update_where_def split: if_splits)
  moreover have "collect_gaps c rows = Inr gs"
    using assms(1) unfolding load_for_page_def red by (simp add: Let_def rows_def)
  ultimately show thesis using that rows_def by blast
qed

text \<open>Acknowledging a page that was just listed.\<close>

lemma acknowledge_listed:
  assumes t1: "t_gaps d1 = update_where (\<lambda>r. r \<in> set rows)
       (\<lambda>r. r\<lparr>gg_page_id := Some page, gg_delivered_at := Some now\<rparr>) t"
    and fresh: "\<And>r. r \<in> set t \<Longrightarrow> gg_page_id r \<noteq> Some page"
    and rows: "\<And>r. r \<in> set rows \<Longrightarrow> mailbox_gap_row n p c r \<and> gg_acknowledged_at r = None"
    and ack: "acknowledge_page now' n p c page d1 = (k, d2)"
  shows "k = length (filter (\<lambda>r. r \<in> set rows) t)"
    and "t_gaps d2 = map (\<lambda>r. if r \<in> set rows then r\<lparr>gg_page_id := Some page,
      gg_delivered_at := Some now, gg_acknowledged_at := Some now'\<rparr> else r) t"
proof -
  define P where "P = (\<lambda>r. mailbox_gap_row n p c r \<and> gg_page_id r = Some page \<and> gg_acknowledged_at r = None)"
  define f where "f = (\<lambda>r :: gap_row. if r \<in> set rows
      then r\<lparr>gg_page_id := Some page, gg_delivered_at := Some now\<rparr> else r)"
  have t1': "t_gaps d1 = map f t" unfolding t1 f_def update_where_def ..
  have P: "P (f r) \<longleftrightarrow> r \<in> set rows" if "r \<in> set t" for r
    using fresh [OF that] rows [of r] by (auto simp: P_def f_def mailbox_gap_row_def)
  have k: "k = length (filter P (map f t))"
    and d2: "t_gaps d2 = map (\<lambda>r. if P r then r\<lparr>gg_acknowledged_at := Some now'\<rparr> else r) (map f t)"
    using ack unfolding acknowledge_page_def t1' P_def [symmetric] Let_def
    by (auto simp: rows_affected_def update_where_def)
  show "k = length (filter (\<lambda>r. r \<in> set rows) t)"
    unfolding k filter_map length_map comp_def using P by (simp cong: filter_cong)
  show "t_gaps d2 = map (\<lambda>r. if r \<in> set rows then r\<lparr>gg_page_id := Some page,
      gg_delivered_at := Some now, gg_acknowledged_at := Some now'\<rparr> else r) t"
    unfolding d2 map_map by (rule map_cong [OF refl]) (simp add: P, simp add: f_def)
qed

text \<open>Only unacknowledged rows are listed.\<close>

lemma load_lists_unacknowledged:
  assumes "fst (load_for_page t n p c page limit red d) = Inr gs" and "x \<in> mg_gap_id ` set gs"
  shows "\<exists>r\<in>set (t_gaps d). mailbox_gap_row n p c r \<and> gg_acknowledged_at r = None \<and> gg_gap_id r = x"
proof -
  obtain rows where rows: "collect_gaps c rows = Inr gs" "rows = page_rows t n p c page limit (int red) d"
    using assms(1) by (auto simp: load_for_page_def Let_def i64_try_from_def split: sum.splits if_splits)
  have "mg_gap_id ` set gs = gg_gap_id ` set rows"
    using arg_cong [OF collect_gaps_ids [OF rows(1)], of set] by simp
  with assms(2) obtain r where r: "r \<in> set rows" "gg_gap_id r = x" by auto
  with page_rows_set [OF r(1) [unfolded rows(2)]] show ?thesis by (auto simp: page_candidate_def)
qed

section \<open>Histories of gaps\<close>

datatype gap_op =
    RecordGap instant string string delivery_class u64 route gap_reason u64
  | LoadPage instant string string delivery_class string nat duration
  | AckPage instant string string delivery_class string

fun gap_exec :: "externs \<Rightarrow> gap_op \<Rightarrow> db \<Rightarrow> db" where
  "gap_exec E (RecordGap now n p c v r reason ms) d = snd (record_gap E now n p c v r reason ms d)"
| "gap_exec E (LoadPage now n p c page limit red) d = snd (load_for_page now n p c page limit red d)"
| "gap_exec E (AckPage now n p c page) d = snd (acknowledge_page now n p c page d)"

fun gap_run :: "externs \<Rightarrow> gap_op list \<Rightarrow> db \<Rightarrow> db" where
  "gap_run E [] d = d"
| "gap_run E (x # xs) d = gap_run E xs (gap_exec E x d)"

definition recorded :: "gap_op list \<Rightarrow> nat" where
  "recorded ops = length (filter (\<lambda>x. case x of RecordGap _ _ _ _ _ _ _ _ \<Rightarrow> True | _ \<Rightarrow> False) ops)"

lemma update_where_count:
  assumes "\<And>r. gg_count (f r) = gg_count r"
  shows "map gg_count (update_where P f t) = map gg_count t"
  using assms by (simp add: update_where_def)

lemma gap_exec_count:
  assumes "pk gap_key (t_gaps d)"
  shows "pk gap_key (t_gaps (gap_exec E x d))
    \<and> sum_list (map gg_count (t_gaps (gap_exec E x d)))
        = sum_list (map gg_count (t_gaps d)) + recorded [x]"
proof (cases x)
  case (RecordGap now n p c v r reason ms)
  then show ?thesis
    using assms by (simp add: record_gap_def Let_def gaps.pk_upsert upsert_gap_count recorded_def)
next
  case (LoadPage now n p c page limit red)
  then show ?thesis
    using assms
    by (auto simp: load_for_page_def Let_def recorded_def update_where_count pk_update gap_key_def
        split: sum.splits)
next
  case (AckPage now n p c page)
  then show ?thesis
    using assms
    by (auto simp: acknowledge_page_def Let_def recorded_def update_where_count pk_update gap_key_def)
qed

section \<open>Properties\<close>

text \<open>
  C19. No recorded loss disappears: whatever pages are loaded and acknowledged in between, the counts
  of all gap rows add up to what they were plus one for every loss recorded.
\<close>

theorem losses_conserved:
  assumes "pk gap_key (t_gaps d)"
  shows "sum_list (map gg_count (t_gaps (gap_run E ops d)))
    = sum_list (map gg_count (t_gaps d)) + recorded ops"
  using assms
proof (induction ops arbitrary: d)
  case (Cons x xs)
  note x = gap_exec_count [OF Cons.prems, of E x]
  have "recorded (x # xs) = recorded [x] + recorded xs" by (simp add: recorded_def)
  with Cons.IH [OF x [THEN conjunct1]] x show ?case by simp
qed (simp add: recorded_def)

definition sample_gap :: gap_op where
  "sample_gap = RecordGap 0 ''net'' ''alice'' Bulk 1 (sample_route Global Events ''k'' False) Expired 7200000"

theorem losses_conserved_witness:
  "sum_list (map gg_count (t_gaps (gap_run sample_externs
     [sample_gap, LoadPage 1 ''net'' ''alice'' Bulk ''page'' 10 1000, sample_gap,
      AckPage 2 ''net'' ''alice'' Bulk ''page''] empty_db))) = 2"
  using losses_conserved [of empty_db sample_externs
      "[sample_gap, LoadPage 1 ''net'' ''alice'' Bulk ''page'' 10 1000, sample_gap,
        AckPage 2 ''net'' ''alice'' Bulk ''page'']"]
  by (simp add: empty_db_def pk_def recorded_def sample_gap_def del: gap_run.simps)

text \<open>
  Acknowledging a page acknowledges exactly the gaps that were listed on it: for a page id not used
  before, the number of rows acknowledged is the number of gaps listed, the rows acknowledged are
  those listed, every other row is untouched, and no later page lists one of them again.
\<close>

theorem acknowledge_exact:
  assumes pk: "pk gap_key (t_gaps d)"
    and fresh: "\<And>r. r \<in> set (t_gaps d) \<Longrightarrow> gg_page_id r \<noteq> Some page"
    and load: "load_for_page now n p c page limit red d = (Inr gs, d1)"
    and ack: "acknowledge_page now' n p c page d1 = (k, d2)"
  shows "k = length gs
    \<and> set (t_gaps d2) = {r \<in> set (t_gaps d). \<not> (mailbox_gap_row n p c r \<and> gg_gap_id r \<in> mg_gap_id ` set gs)}
        \<union> (\<lambda>r. r\<lparr>gg_page_id := Some page, gg_delivered_at := Some now, gg_acknowledged_at := Some now'\<rparr>)
          ` {r \<in> set (t_gaps d). mailbox_gap_row n p c r \<and> gg_gap_id r \<in> mg_gap_id ` set gs}
    \<and> (\<forall>t page' limit' red' gs'. fst (load_for_page t n p c page' limit' red' d2) = Inr gs' \<longrightarrow>
         set (map mg_gap_id gs') \<inter> set (map mg_gap_id gs) = {})"
proof -
  obtain rows where rows: "rows = page_rows now n p c page limit (int red) d"
    and col: "collect_gaps c rows = Inr gs"
    and d1: "t_gaps d1 = update_where (\<lambda>r. r \<in> set rows)
       (\<lambda>r. r\<lparr>gg_page_id := Some page, gg_delivered_at := Some now\<rparr>) (t_gaps d)"
    by (rule load_for_page_eq [OF load pk])
  note set_rows = page_rows_set [of _ now n p c page limit "int red" d, folded rows]
  have ids: "mg_gap_id ` set gs = gg_gap_id ` set rows"
    using arg_cong [OF collect_gaps_ids [OF col], of set] by simp
  have in_rows: "mailbox_gap_row n p c r \<and> gg_gap_id r \<in> mg_gap_id ` set gs \<longleftrightarrow> r \<in> set rows"
    if "r \<in> set (t_gaps d)" for r
    unfolding ids using set_rows(1,2) same_mailbox_gap [OF pk that] by (metis imageE imageI)
  have unacked: "gg_acknowledged_at r = None" if "r \<in> set rows" for r
    using set_rows(3) [OF that] by (simp add: page_candidate_def)
  have listed: "mailbox_gap_row n p c r \<and> gg_acknowledged_at r = None" if "r \<in> set rows" for r
    using set_rows(2) [OF that] unacked [OF that] by simp
  have k: "k = length (filter (\<lambda>r. r \<in> set rows) (t_gaps d))"
    by (rule acknowledge_listed(1) [OF d1 _ _ ack]) (rule fresh listed, assumption)+
  have d2: "t_gaps d2 = map (\<lambda>r. if r \<in> set rows then r\<lparr>gg_page_id := Some page,
      gg_delivered_at := Some now, gg_acknowledged_at := Some now'\<rparr> else r) (t_gaps d)"
    by (rule acknowledge_listed(2) [OF d1 _ _ ack]) (rule fresh listed, assumption)+
  have "k = card (set rows)"
    unfolding k using pk set_rows(1)
    by (subst distinct_card [symmetric]) (auto simp: pk_def distinct_map intro!: arg_cong [where f = card])
  also have "\<dots> = length rows"
    using page_rows_distinct [OF pk] unfolding rows by (rule distinct_card)
  also have "\<dots> = length gs" using collect_gaps_ids [OF col] by (metis length_map)
  finally have "k = length gs" .
  moreover have "set (t_gaps d2) = {r \<in> set (t_gaps d). \<not> (mailbox_gap_row n p c r \<and> gg_gap_id r \<in> mg_gap_id ` set gs)}
        \<union> (\<lambda>r. r\<lparr>gg_page_id := Some page, gg_delivered_at := Some now, gg_acknowledged_at := Some now'\<rparr>)
          ` {r \<in> set (t_gaps d). mailbox_gap_row n p c r \<and> gg_gap_id r \<in> mg_gap_id ` set gs}"
    unfolding d2 using in_rows by (auto split: if_splits)
  moreover have "set (map mg_gap_id gs') \<inter> set (map mg_gap_id gs) = {}"
    if l: "fst (load_for_page t n p c page' limit' red' d2) = Inr gs'" for t page' limit' red' gs'
  proof -
    have "x \<notin> mg_gap_id ` set gs" if x: "x \<in> mg_gap_id ` set gs'" for x
    proof -
      from load_lists_unacknowledged [OF l x] obtain r where
        r: "r \<in> set (t_gaps d2)" "mailbox_gap_row n p c r" "gg_acknowledged_at r = None" "gg_gap_id r = x"
        by blast
      then have "r \<in> set (t_gaps d) \<and> r \<notin> set rows" unfolding d2 by (auto split: if_splits)
      with in_rows r(2,4) show ?thesis by blast
    qed
    then show ?thesis by auto
  qed
  ultimately show ?thesis by (intro conjI allI impI)
qed

definition gapped_db :: db where
  "gapped_db = empty_db\<lparr>t_gaps := [\<lparr>gg_network_id = ''net'', gg_principal_id = ''alice'',
     gg_gap_id = ''g1'', gg_class = ''bulk'', gg_policy_version = 1,
     gg_route = sample_route Global Events ''k'' False, gg_reason = ''expired'',
     gg_first_affected_at = 0, gg_last_affected_at = 0, gg_count = 3, gg_delivered_at = None,
     gg_page_id = None, gg_acknowledged_at = None\<rparr>]\<rparr>"

theorem acknowledge_exact_witness:
  "\<exists>gs d1. load_for_page 5 ''net'' ''alice'' Bulk ''page'' 10 1000 gapped_db = (Inr gs, d1)
     \<and> length gs = 1 \<and> fst (acknowledge_page 6 ''net'' ''alice'' Bulk ''page'' d1) = length gs"
proof -
  obtain gs d1 where l: "load_for_page 5 ''net'' ''alice'' Bulk ''page'' 10 1000 gapped_db = (Inr gs, d1)"
    and one: "length gs = 1"
    by (simp add: load_for_page_def i64_try_from_def gapped_db_def empty_db_def page_rows_def
        mailbox_gap_row_def page_candidate_def Let_def mailbox_gap_of_def parse_reason_def)
  obtain k d2 where a: "acknowledge_page 6 ''net'' ''alice'' Bulk ''page'' d1 = (k, d2)" by fastforce
  have "k = length gs"
    using acknowledge_exact [OF _ _ l a] by (simp add: gapped_db_def empty_db_def pk_def)
  with l one a show ?thesis by auto
qed

text \<open>
  Unacknowledged gaps are offered again: a gap that is not acknowledged and was not listed within
  the redelivery interval is listed on the next page that has room for the mailbox's gaps, on
  whichever page it was listed before.
\<close>

theorem gap_redelivered:
  assumes "r \<in> set (t_gaps d)" and "mailbox_gap_row n p c r" and "gg_acknowledged_at r = None"
    and "\<And>t. gg_delivered_at r = Some t \<Longrightarrow> t + interval_ms (int red) \<le> now"
    and "gg_delivered_at r = None \<longrightarrow> gg_page_id r = None"
    and "int red \<le> i64_max"
    and "length (filter (mailbox_gap_row n p c) (t_gaps d)) \<le> limit"
    and "\<forall>x\<in>set (t_gaps d). \<exists>reason. gg_reason x = reason_label reason"
  shows "\<exists>gs d'. load_for_page now n p c page limit red d = (Inr gs, d') \<and> gg_gap_id r \<in> mg_gap_id ` set gs"
proof -
  define rows where "rows = page_rows now n p c page limit (int red) d"
  have "page_candidate page (now - interval_ms (int red)) r"
    using assms(3-5) by (cases "gg_delivered_at r") (auto simp: page_candidate_def)
  from page_rows_complete [OF assms(1,2) this assms(7)] have r: "r \<in> set rows" by (simp add: rows_def)
  have "\<forall>x\<in>set rows. \<exists>reason. gg_reason x = reason_label reason"
    using assms(8) page_rows_set(1) unfolding rows_def by blast
  then obtain gs where gs: "collect_gaps c rows = Inr gs" using collect_gaps_complete by blast
  have "gg_gap_id r \<in> mg_gap_id ` set gs"
    using r arg_cong [OF collect_gaps_ids [OF gs], of set] by auto
  moreover have "\<exists>d'. load_for_page now n p c page limit red d = (Inr gs, d')"
    using assms(6) gs by (simp add: load_for_page_def i64_try_from_def Let_def rows_def)
  ultimately show ?thesis by blast
qed

theorem gap_redelivered_witness:
  "\<exists>gs d'. load_for_page 5 ''net'' ''alice'' Bulk ''page'' 10 1000 gapped_db = (Inr gs, d')
     \<and> gg_gap_id (hd (t_gaps gapped_db)) \<in> mg_gap_id ` set gs"
  by (rule gap_redelivered)
    (auto simp: gapped_db_def empty_db_def mailbox_gap_row_def reason_label_def
      intro: exI [of _ Expired])

text \<open>
  C24. A loss recorded into a gap row that was already acknowledged is never reported: the conflict
  update counts it but keeps the acknowledgement, so no page lists the row again.
\<close>

theorem loss_after_acknowledgement_hidden:
  assumes "pk gap_key (t_gaps d)" and "record_gap E now n p c v rt reason ms d = (gid, d1)"
    and "row_of gap_key (n, p, gid) (t_gaps d) = Some r" and "gg_acknowledged_at r = Some t"
    and "fst (load_for_page now' n p c page limit red d1) = Inr gs"
  shows "gid \<notin> mg_gap_id ` set gs \<and>
    (\<exists>r'. row_of gap_key (n, p, gid) (t_gaps d1) = Some r' \<and> gg_count r' = gg_count r + 1)"
proof -
  obtain x where t1: "t_gaps d1 = upsert gap_key gap_merge x (t_gaps d)" "gap_key x = (n, p, gid)"
    using assms(2) by (auto simp: record_gap_def Let_def gap_key_def)
  have row: "row_of gap_key (n, p, gid) (t_gaps d1) = Some (resolve gap_merge x r)"
    unfolding t1(1) by (simp add: gaps.row_of_upsert_cases t1(2) assms(3) merged_def)
  have pk1: "pk gap_key (t_gaps d1)" unfolding t1(1) by (rule gaps.pk_upsert [OF assms(1)])
  have ack: "gg_acknowledged_at (resolve gap_merge x r) = Some t"
    using assms(4) by (simp add: resolve_def gap_merge_def)
  have "gid \<notin> mg_gap_id ` set gs"
  proof
    assume "gid \<in> mg_gap_id ` set gs"
    from load_lists_unacknowledged [OF assms(5) this] obtain y where
      y: "y \<in> set (t_gaps d1)" "gap_key y = (n, p, gid)" "gg_acknowledged_at y = None"
      by (auto simp: gap_key_def mailbox_gap_row_def)
    with row_of_pk [OF pk1 y(1)] row ack show False by simp
  qed
  with row show ?thesis by (auto simp: gap_merge_count)
qed

definition acked_gap_db :: db where
  "acked_gap_db = gapped_db\<lparr>t_gaps := map (\<lambda>r. r\<lparr>gg_acknowledged_at := Some 3\<rparr>) (t_gaps gapped_db)\<rparr>"

definition gap_externs :: externs where
  "gap_externs = sample_externs\<lparr>x_uuid_of_bytes := (\<lambda>_. ''g1'')\<rparr>"

theorem loss_after_acknowledgement_hidden_witness:
  "\<exists>d1 gs. record_gap gap_externs 9 ''net'' ''alice'' Bulk 1 (sample_route Global Events ''k'' False)
        Expired 1000 acked_gap_db = (''g1'', d1)
     \<and> fst (load_for_page 9 ''net'' ''alice'' Bulk ''page'' 10 1000 d1) = Inr gs
     \<and> ''g1'' \<notin> mg_gap_id ` set gs"
proof -
  obtain d1 where rec: "record_gap gap_externs 9 ''net'' ''alice'' Bulk 1
      (sample_route Global Events ''k'' False) Expired 1000 acked_gap_db = (''g1'', d1)"
    by (simp add: record_gap_def Let_def compressed_gap_id_def gap_externs_def)
  obtain gs where gs: "fst (load_for_page 9 ''net'' ''alice'' Bulk ''page'' 10 1000 d1) = Inr gs"
    using rec
    by (auto simp: record_gap_def Let_def compressed_gap_id_def gap_externs_def acked_gap_db_def
        gapped_db_def empty_db_def upsert_def gap_key_def resolve_def gap_merge_def load_for_page_def
        i64_try_from_def page_rows_def mailbox_gap_row_def page_candidate_def)
  have pk: "pk gap_key (t_gaps acked_gap_db)" by (simp add: acked_gap_db_def gapped_db_def pk_def)
  obtain r where r: "row_of gap_key (''net'', ''alice'', ''g1'') (t_gaps acked_gap_db) = Some r"
    "gg_acknowledged_at r = Some 3"
    by (simp add: acked_gap_db_def gapped_db_def row_of_def gap_key_def)
  show ?thesis
    using loss_after_acknowledgement_hidden [OF pk rec r gs] rec gs by blast
qed

end
