(* ===== verification/Rabbit.thy ===== *)
theory Rabbit
  imports Gateway_State Gaps
begin

text \<open>
  The RabbitMQ adapter (\<open>rabbit.rs\<close>): names of queues, exchanges and routing keys; declaration and
  binding of mailboxes; confirmed publishing; and the life of a delivery page from \<open>pull_page\<close> over
  \<open>commit_page\<close> or its abandonment to the draining of dead letters. The \<open>HashMap\<close> of pending pages is
  an association list with distinct keys.
\<close>

section \<open>Names\<close>

abbreviation DIRECT_INTERACTIVE :: string where "DIRECT_INTERACTIVE \<equiv> ''wattswarm.cs.direct.interactive.v1''"
abbreviation DIRECT_BULK :: string where "DIRECT_BULK \<equiv> ''wattswarm.cs.direct.bulk.v1''"
abbreviation SCOPE_INTERACTIVE :: string where "SCOPE_INTERACTIVE \<equiv> ''wattswarm.cs.scope.interactive.v1''"
abbreviation SCOPE_BULK :: string where "SCOPE_BULK \<equiv> ''wattswarm.cs.scope.bulk.v1''"
abbreviation DEAD_LETTER_EXCHANGE :: string where "DEAD_LETTER_EXCHANGE \<equiv> ''wattswarm.cs.dlx.v1''"
abbreviation DEAD_LETTER_QUEUE :: string where "DEAD_LETTER_QUEUE \<equiv> ''wattswarm.cs.dlq.v1''"

definition network_queue_component :: "externs \<Rightarrow> string \<Rightarrow> string" where
  "network_queue_component E network_id = sha256_hex E network_id"

definition queue_name :: "externs \<Rightarrow> string \<Rightarrow> string \<Rightarrow> delivery_class \<Rightarrow> string" where
  "queue_name E network_id principal_id class =
     ''ws.cs.'' @ network_queue_component E network_id @ ''.'' @ principal_id @ ''.'' @ class_str class"

definition direct_route_key :: "externs \<Rightarrow> string \<Rightarrow> string \<Rightarrow> string" where
  "direct_route_key E network_id principal_id =
     sha256_hex E (x_tuple_bytes E [network_id, principal_id])"

definition scope_route_key :: "externs \<Rightarrow> string \<Rightarrow> string \<Rightarrow> string \<Rightarrow> string" where
  "scope_route_key E network_id address version =
     sha256_hex E (x_tuple_bytes E [network_id, address, version])"

definition direct_exchange :: "delivery_class \<Rightarrow> string" where
  "direct_exchange class = (case class of Interactive \<Rightarrow> DIRECT_INTERACTIVE | Bulk \<Rightarrow> DIRECT_BULK)"

definition scope_exchange :: "delivery_class \<Rightarrow> string" where
  "scope_exchange class = (case class of Interactive \<Rightarrow> SCOPE_INTERACTIVE | Bulk \<Rightarrow> SCOPE_BULK)"

definition principal_from_queue_name :: "externs \<Rightarrow> string \<Rightarrow> string \<Rightarrow> string option" where
  "principal_from_queue_name E queue network_id =
    (case split_on CHR ''.'' queue of
       [a, b, network, prin, c] \<Rightarrow>
         if a = ''ws'' \<and> b = ''cs'' \<and> network = network_queue_component E network_id
         then Some prin else None
     | _ \<Rightarrow> None)"

definition mailbox_arguments :: "config \<Rightarrow> (string \<times> amqp_value) list" where
  "mailbox_arguments c =
    [(''x-queue-type'', LongString ''quorum''),
     (''x-message-ttl'', LongLongInt (sint (mailbox_message_ttl_ms c))),
     (''x-max-length-bytes'', LongLongInt (sint (mailbox_max_length_bytes c))),
     (''x-overflow'', LongString ''reject-publish''),
     (''x-delivery-limit'', LongInt (sint (of_nat (max_delivery_attempts c) :: 32 word))),
     (''x-dead-letter-exchange'', LongString DEAD_LETTER_EXCHANGE),
     (''x-dead-letter-strategy'', LongString ''at-least-once'')]"

text \<open>\<open>std::str::from_utf8\<close>: well-formed UTF-8.\<close>

fun utf8_tail :: "(nat \<times> nat) list \<Rightarrow> string \<Rightarrow> string option" where
  "utf8_tail [] s = Some s"
| "utf8_tail ((lo, hi) # rs) [] = None"
| "utf8_tail ((lo, hi) # rs) (c # s) =
     (if lo \<le> (of_char c :: nat) \<and> (of_char c :: nat) \<le> hi then utf8_tail rs s else None)"

definition utf8_follow :: "nat \<Rightarrow> (nat \<times> nat) list option" where
  "utf8_follow b =
    (if b < 0x80 then Some []
     else if 0xC2 \<le> b \<and> b \<le> 0xDF then Some [(0x80, 0xBF)]
     else if b = 0xE0 then Some [(0xA0, 0xBF), (0x80, 0xBF)]
     else if b = 0xED then Some [(0x80, 0x9F), (0x80, 0xBF)]
     else if 0xE1 \<le> b \<and> b \<le> 0xEF then Some [(0x80, 0xBF), (0x80, 0xBF)]
     else if b = 0xF0 then Some [(0x90, 0xBF), (0x80, 0xBF), (0x80, 0xBF)]
     else if 0xF1 \<le> b \<and> b \<le> 0xF3 then Some [(0x80, 0xBF), (0x80, 0xBF), (0x80, 0xBF)]
     else if b = 0xF4 then Some [(0x80, 0x8F), (0x80, 0xBF), (0x80, 0xBF)]
     else None)"

lemma utf8_tail_length: "utf8_tail rs s = Some t \<Longrightarrow> length t \<le> length s"
  by (induction rs s rule: utf8_tail.induct) (auto split: if_splits)

function utf8_valid :: "string \<Rightarrow> bool" where
  "utf8_valid [] = True"
| "utf8_valid (c # s) =
     (case utf8_follow (of_char c) of
        None \<Rightarrow> False
      | Some rs \<Rightarrow> (case utf8_tail rs s of None \<Rightarrow> False | Some t \<Rightarrow> utf8_valid t))"
  by pat_completeness auto
termination
  by (relation "measure length") (auto dest: utf8_tail_length)

definition amqp_string :: "amqp_value \<Rightarrow> string option" where
  "amqp_string v =
    (case v of LongString s \<Rightarrow> if utf8_valid s then Some s else None
     | ShortString s \<Rightarrow> Some s | _ \<Rightarrow> None)"

section \<open>Declaring and binding\<close>

definition declare_infrastructure :: "env \<Rightarrow> unit op" where
  "declare_infrastructure en =
    bnd (create_channel en) (\<lambda>ch.
    bnd (send_ok en (ConfirmSelect ch)) (\<lambda>_.
    bnd (for_each (\<lambda>(name, kind). send_ok en (ExchangeDeclare ch name kind))
      [(DIRECT_INTERACTIVE, Direct), (DIRECT_BULK, Direct), (SCOPE_INTERACTIVE, Topic),
       (SCOPE_BULK, Topic), (DEAD_LETTER_EXCHANGE, Fanout)]) (\<lambda>_.
    bnd (send_ok en (QueueDeclare ch DEAD_LETTER_QUEUE
      [(''x-queue-type'', LongString ''quorum''),
       (''x-max-length-bytes'', LongLongInt (sint (dead_letter_max_length_bytes (en_config en)))),
       (''x-overflow'', LongString ''reject-publish'')])) (\<lambda>_.
    send_ok en (QueueBind ch DEAD_LETTER_QUEUE DEAD_LETTER_EXCHANGE [])))))"

text \<open>
  \<open>let result = async \<lbrace>..\<rbrace>.await; record_binding(started, result.is_ok()); result\<close>. When an
  enclosing timeout ends, the recording after the await is not reached.
\<close>

definition with_binding_metric :: "env \<Rightarrow> unit op \<Rightarrow> unit op" where
  "with_binding_metric en m =
    bnd (attempt m) (\<lambda>r.
    if r = Inl deadline then lift_res r
    else bnd (observed (record_binding (en_elapsed en) (is_ok r))) (\<lambda>_. lift_res r))"

definition ensure_tenant_mailboxes :: "env \<Rightarrow> string \<Rightarrow> string \<Rightarrow> unit op" where
  "ensure_tenant_mailboxes en network_id principal_id =
    with_binding_metric en (
      bnd (create_channel en) (\<lambda>ch.
      for_each (\<lambda>class.
        let queue = queue_name (en_x en) network_id principal_id class in
        bnd (send_ok en (QueueDeclare ch queue (mailbox_arguments (en_config en)))) (\<lambda>_.
        send_ok en (QueueBind ch queue (direct_exchange class)
          (direct_route_key (en_x en) network_id principal_id)))) all_classes))"

definition bind_scope_member :: "env \<Rightarrow> string \<Rightarrow> string \<Rightarrow> string \<Rightarrow> string \<Rightarrow> unit op" where
  "bind_scope_member en network_id principal_id address version =
    with_binding_metric en (
      bnd (ensure_tenant_mailboxes en network_id principal_id) (\<lambda>_.
      bnd (create_channel en) (\<lambda>ch.
      for_each (\<lambda>class.
        send_ok en (QueueBind ch (queue_name (en_x en) network_id principal_id class)
          (scope_exchange class) (scope_route_key (en_x en) network_id address version)))
        all_classes)))"

definition unbind_scope_member :: "env \<Rightarrow> string \<Rightarrow> string \<Rightarrow> string \<Rightarrow> string \<Rightarrow> unit op" where
  "unbind_scope_member en network_id principal_id address version =
    with_binding_metric en (
      bnd (create_channel en) (\<lambda>ch.
      for_each (\<lambda>class.
        send_ok en (QueueUnbind ch (queue_name (en_x en) network_id principal_id class)
          (scope_exchange class) (scope_route_key (en_x en) network_id address version)))
        all_classes))"

section \<open>Publishing\<close>

text \<open>The end of a confirmed publish, with the words \<open>what\<close> in its messages.\<close>

definition await_confirm :: "env \<Rightarrow> string \<Rightarrow> nat \<Rightarrow> unit op" where
  "await_confirm en what ch =
    bnd (send en (AwaitConfirm ch)) (\<lambda>r. case r of
      ReplyConfirm ConfirmAck \<Rightarrow> ret ()
    | ReplyConfirm (ConfirmReturned t) \<Rightarrow>
        raise (''RabbitMQ mandatory '' @ what @ ''publish was returned: '' @ t)
    | ReplyConfirm ConfirmNack \<Rightarrow> raise (''RabbitMQ nacked durable '' @ what @ ''publish'')
    | ReplyConfirm ConfirmNotRequested \<Rightarrow>
        raise (''RabbitMQ '' @ what @ ''publisher confirm was not requested'')
    | ReplyElapsed \<Rightarrow> raise (''RabbitMQ '' @ what @ ''publisher confirm timed out'')
    | ReplyFail m \<Rightarrow> raise m
    | _ \<Rightarrow> raise ''unexpected reply'')"

definition publish_target :: "env \<Rightarrow> string option \<Rightarrow> broker_record \<Rightarrow> (string \<times> string) op" where
  "publish_target en recipient r =
    (case recipient of
       Some p \<Rightarrow>
         bnd (ensure_tenant_mailboxes en (br_network_id r) p) (\<lambda>_.
         ret (direct_exchange (br_delivery_class r), direct_route_key (en_x en) (br_network_id r) p))
     | None \<Rightarrow>
         bnd (lift_res (or_err (br_membership_version r)
           ''shared-scope publish is missing its membership version'')) (\<lambda>version.
         ret (scope_exchange (br_delivery_class r),
              scope_route_key (en_x en) (br_network_id r) (rt_address (br_route r)) version)))"

definition rabbit_publish :: "env \<Rightarrow> string option \<Rightarrow> broker_record \<Rightarrow> unit op" where
  "rabbit_publish en recipient r =
    bnd (create_channel en) (\<lambda>ch.
    bnd (send_ok en (ConfirmSelect ch)) (\<lambda>_.
    bnd (publish_target en recipient r) (\<lambda>(exchange, key).
    bnd (send_ok en (BasicPublish ch exchange key (br_record_id r) (Record r))) (\<lambda>_.
    await_confirm en [] ch))))"

definition publish_confirm_outcome :: "unit result \<Rightarrow> publish_confirm_outcome" where
  "publish_confirm_outcome r =
    (case r of
       Inr _ \<Rightarrow> Confirmed
     | Inl e \<Rightarrow> if contains ''returned'' e then Unroutable
               else if contains ''nacked'' e then Nack else PublishError)"

definition publish_control :: "env \<Rightarrow> broker_control_record \<Rightarrow> unit op" where
  "publish_control en control =
    bnd (ensure_tenant_mailboxes en (bc_network_id control) (bc_target_principal_id control)) (\<lambda>_.
    bnd (create_channel en) (\<lambda>ch.
    bnd (send_ok en (ConfirmSelect ch)) (\<lambda>_.
    bnd (send_ok en (BasicPublish ch (direct_exchange Interactive)
      (direct_route_key (en_x en) (bc_network_id control) (bc_target_principal_id control))
      (bc_correlation_id control) (Control control))) (\<lambda>_.
    bnd (await_confirm en ''control '' ch) (\<lambda>_.
    observed (record_publish_confirm (en_x en) (bc_network_id control)
      (rt_scope (bc_gap_route control)) (rt_lane (bc_gap_route control)) 1 (en_elapsed en)
      (publish_confirm_outcome (Inr ()))))))))"


section \<open>Delivery pages\<close>

text \<open>\<open>HashMap::insert\<close> and \<open>HashMap::remove\<close> of the pending pages.\<close>

definition page_insert :: "string \<Rightarrow> pending_page \<Rightarrow> (string \<times> pending_page) list
  \<Rightarrow> (string \<times> pending_page) list" where
  "page_insert k v m = (k, v) # filter (\<lambda>e. fst e \<noteq> k) m"

definition page_delete :: "string \<Rightarrow> (string \<times> pending_page) list \<Rightarrow> (string \<times> pending_page) list" where
  "page_delete k m = filter (\<lambda>e. fst e \<noteq> k) m"

definition take_page :: "string \<Rightarrow> pending_page option op" where
  "take_page k =
    bnd (reads (\<lambda>s. map_of (gw_pages s) k)) (\<lambda>p.
    bnd (modify (\<lambda>s. s\<lparr>gw_pages := page_delete k (gw_pages s)\<rparr>)) (\<lambda>_. ret p))"

definition page_expired :: "env \<Rightarrow> pending_page \<Rightarrow> bool" where
  "page_expired en p \<longleftrightarrow>
     interval_ms (int (delivery_owner_lease (en_config en))) \<le> en_now en - pg_opened_at p"

text \<open>Both reapers: take the matching pages out of the map, then close their channels.\<close>

definition close_pages :: "env \<Rightarrow> (pending_page \<Rightarrow> bool) \<Rightarrow> nat op" where
  "close_pages en P =
    bnd (reads (\<lambda>s. filter (\<lambda>e. P (snd e)) (gw_pages s))) (\<lambda>expired.
    bnd (modify (\<lambda>s. s\<lparr>gw_pages := filter (\<lambda>e. \<not> P (snd e)) (gw_pages s)\<rparr>)) (\<lambda>_.
    bnd (for_each (\<lambda>e. send_ok en (CloseChannel (pg_channel (snd e)) 500
      ''mailbox page owner lease expired'')) expired) (\<lambda>_.
    ret (length expired))))"

definition abandon_expired_pages :: "env \<Rightarrow> string \<Rightarrow> string \<Rightarrow> delivery_class \<Rightarrow> unit op" where
  "abandon_expired_pages en network_id principal_id class =
    bnd (close_pages en (\<lambda>p. pg_network_id p = network_id \<and> pg_principal_id p = principal_id
      \<and> pg_delivery_class p = class \<and> page_expired en p)) (\<lambda>_. ret ())"

definition reap_expired_pages :: "env \<Rightarrow> u64 op" where
  "reap_expired_pages en =
    bnd (close_pages en (page_expired en)) (\<lambda>n.
    bnd (observed (record_owner_lost_requeue (of_nat n))) (\<lambda>_. ret (of_nat n)))"

text \<open>\<open>for _ in 0..limit\<close> with a timeout of 100 ms on every message.\<close>

fun consume :: "env \<Rightarrow> nat \<Rightarrow> nat \<Rightarrow> broker_message list op" where
  "consume en ch 0 = ret []"
| "consume en ch (Suc n) =
    bnd (send en (ConsumerNext ch)) (\<lambda>r. case r of
      ReplyMessage m \<Rightarrow> bnd (consume en ch n) (\<lambda>ms. ret (m # ms))
    | ReplyFail e \<Rightarrow> raise e
    | ReplyEnd \<Rightarrow> ret []
    | ReplyElapsed \<Rightarrow> ret []
    | _ \<Rightarrow> raise ''unexpected reply'')"

record page_contents =
  pc_deliveries :: "mailbox_delivery list"
  pc_controls :: "mailbox_control_delivery list"
  pc_tags :: "u64 list"
  pc_redeliveries :: u64
  pc_oldest :: u64

definition no_contents :: page_contents where
  "no_contents = \<lparr>pc_deliveries = [], pc_controls = [], pc_tags = [], pc_redeliveries = 0,
     pc_oldest = u64_max\<rparr>"

definition delivery_of :: "externs \<Rightarrow> string \<Rightarrow> string \<Rightarrow> broker_record \<Rightarrow> mailbox_delivery result" where
  "delivery_of E network_id principal_id r =
    and_then (x_stable_delivery_id E network_id (br_record_id r) principal_id (br_membership_version r))
      (\<lambda>did. Inr \<lparr>md_delivery_id = did, md_record_id = br_record_id r, md_route = br_route r,
              md_record = br_record r, md_membership_version = br_membership_version r,
              md_enqueued_at = br_enqueued_at r, md_expires_at = br_expires_at r\<rparr>)"

definition control_of :: "externs \<Rightarrow> string \<Rightarrow> string \<Rightarrow> broker_control_record
  \<Rightarrow> mailbox_control_delivery result" where
  "control_of E network_id principal_id r =
    and_then (x_stable_delivery_id E network_id (bc_correlation_id r) principal_id None)
      (\<lambda>did. Inr \<lparr>mc_delivery_id = did, mc_correlation_id = bc_correlation_id r,
              mc_source_principal_id = bc_source_principal_id r,
              mc_target_principal_id = bc_target_principal_id r,
              mc_control_kind = bc_control_kind r, mc_payload = bc_payload r,
              mc_enqueued_at = bc_enqueued_at r, mc_expires_at = bc_expires_at r\<rparr>)"

text \<open>One message of the page loop; a record the principal itself published is acknowledged and dropped.\<close>

definition sort_message ::
  "env \<Rightarrow> nat \<Rightarrow> string \<Rightarrow> string \<Rightarrow> delivery_class \<Rightarrow> broker_message \<Rightarrow> page_contents
   \<Rightarrow> page_contents op" where
  "sort_message en ch network_id principal_id class m acc =
    (let acc1 = acc\<lparr>pc_redeliveries := sat_add (pc_redeliveries acc) (if bm_redelivered m then 1 else 0)\<rparr>
     in case bm_envelope m of
       None \<Rightarrow> raise ''expected value''
     | Some (Record r) \<Rightarrow>
         if br_network_id r \<noteq> network_id \<or> br_delivery_class r \<noteq> class then
           raise ''RabbitMQ mailbox record binding mismatch''
         else if br_source_principal_id r = principal_id then
           bnd (send_ok en (BasicAck ch (bm_delivery_tag m))) (\<lambda>_. ret acc1)
         else bnd (lift_res (delivery_of (en_x en) network_id principal_id r)) (\<lambda>d.
           ret (acc1\<lparr>pc_oldest := min (pc_oldest acc1) (br_enqueued_at r),
                     pc_deliveries := pc_deliveries acc1 @ [d],
                     pc_tags := pc_tags acc1 @ [bm_delivery_tag m]\<rparr>))
     | Some (Control c) \<Rightarrow>
         if bc_network_id c \<noteq> network_id \<or> bc_target_principal_id c \<noteq> principal_id
            \<or> class \<noteq> Interactive then
           raise ''RabbitMQ mailbox control binding mismatch''
         else bnd (lift_res (control_of (en_x en) network_id principal_id c)) (\<lambda>d.
           ret (acc1\<lparr>pc_oldest := min (pc_oldest acc1) (bc_enqueued_at c),
                     pc_controls := pc_controls acc1 @ [d],
                     pc_tags := pc_tags acc1 @ [bm_delivery_tag m]\<rparr>)))"

fun sort_messages ::
  "env \<Rightarrow> nat \<Rightarrow> string \<Rightarrow> string \<Rightarrow> delivery_class \<Rightarrow> broker_message list \<Rightarrow> page_contents
   \<Rightarrow> page_contents op" where
  "sort_messages en ch n p c [] acc = ret acc"
| "sort_messages en ch n p c (m # ms) acc =
     bnd (sort_message en ch n p c m acc) (sort_messages en ch n p c ms)"

record pulled_page =
  pp_page_id :: string
  pp_binding :: mailbox_binding
  pp_deliveries :: "mailbox_delivery list"
  pp_controls :: "mailbox_control_delivery list"
  pp_consumer_epoch :: string

text \<open>From the channel to the cancelled consumer: the messages fetched.\<close>

definition fetch_messages ::
  "env \<Rightarrow> string \<Rightarrow> string \<Rightarrow> delivery_class \<Rightarrow> string \<Rightarrow> nat \<Rightarrow> (nat \<times> broker_message list) op" where
  "fetch_messages en network_id principal_id class page_id limit =
    bnd (create_channel en) (\<lambda>ch.
    bnd (send_ok en (BasicQos ch (min (rabbitmq_prefetch (en_config en)) (min (max limit 1) 65535)))) (\<lambda>_.
    bnd (send_ok en (BasicConsume ch (queue_name (en_x en) network_id principal_id class)
      (''cs-page-'' @ page_id))) (\<lambda>_.
    bnd (consume en ch limit) (\<lambda>ms.
    bnd (send_ok en (BasicCancel ch (''cs-page-'' @ page_id))) (\<lambda>_.
    ret (ch, ms))))))"

text \<open>From the fetched messages to the pending page.\<close>

definition open_page ::
  "env \<Rightarrow> string \<Rightarrow> string \<Rightarrow> delivery_class \<Rightarrow> string \<Rightarrow> string \<Rightarrow> nat \<Rightarrow> broker_message list
   \<Rightarrow> pulled_page option op" where
  "open_page en network_id principal_id class page_id epoch ch ms =
    bnd (sort_messages en ch network_id principal_id class ms no_contents) (\<lambda>acc.
    bnd (modify (\<lambda>s. s\<lparr>gw_pages := page_insert page_id
      \<lparr>pg_channel = ch, pg_delivery_tags = pc_tags acc, pg_network_id = network_id,
       pg_principal_id = principal_id, pg_delivery_class = class, pg_consumer_epoch = epoch,
       pg_opened_at = en_now en, pg_oldest_enqueued_at = pc_oldest acc\<rparr> (gw_pages s)\<rparr>)) (\<lambda>_.
    if pc_deliveries acc = [] \<and> pc_controls acc = [] then
      bnd (take_page page_id) (\<lambda>_.
      bnd (send_ok en (CloseChannel ch 200 ''self delivery filtered'')) (\<lambda>_.
      bnd (observed (record_delivery_page (en_elapsed en) 0 (pc_redeliveries acc))) (\<lambda>_. ret None)))
    else
      bnd (observed (record_delivery_page (en_elapsed en)
        (of_nat (length (pc_deliveries acc) + length (pc_controls acc))) (pc_redeliveries acc))) (\<lambda>_.
      ret (Some \<lparr>pp_page_id = page_id,
        pp_binding = \<lparr>bn_network_id = network_id, bn_recipient_principal_id = principal_id,
                      bn_delivery_class = class\<rparr>,
        pp_deliveries = pc_deliveries acc, pp_controls = pc_controls acc,
        pp_consumer_epoch = epoch\<rparr>))))"

definition pull_page ::
  "env \<Rightarrow> string \<Rightarrow> string \<Rightarrow> delivery_class \<Rightarrow> string \<Rightarrow> string \<Rightarrow> nat \<Rightarrow> pulled_page option op" where
  "pull_page en network_id principal_id class page_id epoch limit =
    bnd (abandon_expired_pages en network_id principal_id class) (\<lambda>_.
    bnd (ensure_tenant_mailboxes en network_id principal_id) (\<lambda>_.
    bnd (fetch_messages en network_id principal_id class page_id limit) (\<lambda>(ch, ms).
    if ms = [] then
      bnd (send_ok en (CloseChannel ch 200 ''empty mailbox page'')) (\<lambda>_.
      bnd (observed (record_delivery_page (en_elapsed en) 0 0)) (\<lambda>_. ret None))
    else open_page en network_id principal_id class page_id epoch ch ms)))"

definition rabbit_commit_page ::
  "env \<Rightarrow> string \<Rightarrow> string \<Rightarrow> delivery_class \<Rightarrow> string \<Rightarrow> nat option op" where
  "rabbit_commit_page en page_id principal_id class epoch =
    bnd (take_page page_id) (\<lambda>pending. case pending of
      None \<Rightarrow> ret None
    | Some p \<Rightarrow>
        if pg_principal_id p \<noteq> principal_id \<or> pg_delivery_class p \<noteq> class
           \<or> pg_consumer_epoch p \<noteq> epoch then
          raise ''page commit owner, principal, class, or epoch mismatch''
        else
          bnd (for_each (\<lambda>tag. send_ok en (BasicAck (pg_channel p) tag)) (pg_delivery_tags p)) (\<lambda>_.
          bnd (send_ok en (CloseChannel (pg_channel p) 200 ''mailbox page committed'')) (\<lambda>_.
          ret (Some (length (pg_delivery_tags p))))))"

definition abandon_page :: "env \<Rightarrow> string \<Rightarrow> bool op" where
  "abandon_page en page_id =
    bnd (take_page page_id) (\<lambda>pending. case pending of
      None \<Rightarrow> ret False
    | Some p \<Rightarrow> bnd (send_ok en (CloseChannel (pg_channel p) 500 ''test or owner shutdown'')) (\<lambda>_. ret True))"

section \<open>Dead letters\<close>

definition envelope_gap_fields ::
  "broker_envelope \<Rightarrow> string \<times> string option \<times> route \<times> delivery_class \<times> u64" where
  "envelope_gap_fields e =
    (case e of
       Record r \<Rightarrow> (br_network_id r, Some (br_source_principal_id r), br_route r, br_delivery_class r,
                   br_delivery_policy_version r)
     | Control c \<Rightarrow> (bc_network_id c, None, bc_gap_route c, Interactive, bc_delivery_policy_version c))"

definition header_string :: "string \<Rightarrow> broker_message \<Rightarrow> string option" where
  "header_string k m = Option.bind (map_of (bm_headers m) k) amqp_string"

definition record_gap_op ::
  "env \<Rightarrow> string \<Rightarrow> string \<Rightarrow> delivery_class \<Rightarrow> u64 \<Rightarrow> route \<Rightarrow> gap_reason \<Rightarrow> unit op" where
  "record_gap_op en network_id principal_id class policy route reason =
     modify (\<lambda>s. s\<lparr>gw_db := snd (record_gap (en_x en) (en_now en) network_id principal_id class policy
       route reason (timestamp_ms (en_now en)) (gw_db s))\<rparr>)"

text \<open>One message of the drain; the value says whether a gap was recorded for it.\<close>

definition drain_one :: "env \<Rightarrow> nat \<Rightarrow> broker_message \<Rightarrow> bool op" where
  "drain_one en ch m =
    bnd (lift_res (or_err (bm_envelope m) ''expected value'')) (\<lambda>envelope.
    case envelope_gap_fields envelope of (network_id, source, rt, class, policy) \<Rightarrow>
    let reason = (case header_string ''x-first-death-reason'' m of None \<Rightarrow> ''delivery_limit'' | Some r \<Rightarrow> r)
    in
    bnd (lift_res (or_err (header_string ''x-first-death-queue'' m)
      ''dead letter is missing x-first-death-queue'')) (\<lambda>queue.
    bnd (lift_res (or_err (principal_from_queue_name (en_x en) queue network_id)
      ''dead letter queue does not identify a mailbox principal'')) (\<lambda>principal_id.
    if source = Some principal_id then
      bnd (send_ok en (BasicAck ch (bm_delivery_tag m))) (\<lambda>_. ret False)
    else
      let gap_reason = (if reason = ''expired'' then Expired else DeliveryLimitExceeded) in
      bnd (record_gap_op en network_id principal_id class policy rt gap_reason) (\<lambda>_.
      bnd (send_ok en (BasicAck ch (bm_delivery_tag m))) (\<lambda>_.
      bnd (observed (record_dead_letter (of_nat (bm_data_len m)) (gap_reason = Expired))) (\<lambda>_.
      ret True))))))"

fun drain_loop :: "env \<Rightarrow> nat \<Rightarrow> nat \<Rightarrow> u64 \<Rightarrow> u64 op" where
  "drain_loop en ch 0 found = ret found"
| "drain_loop en ch (Suc n) found =
    bnd (send en (BasicGet ch DEAD_LETTER_QUEUE)) (\<lambda>r. case r of
      ReplyMessage m \<Rightarrow> bnd (drain_one en ch m) (\<lambda>b.
        drain_loop en ch n (if b then sat_add found 1 else found))
    | ReplyEnd \<Rightarrow> ret found
    | ReplyFail e \<Rightarrow> raise e
    | ReplyElapsed \<Rightarrow> raise deadline
    | _ \<Rightarrow> raise ''unexpected reply'')"

definition drain_dead_letters :: "env \<Rightarrow> nat \<Rightarrow> u64 op" where
  "drain_dead_letters en limit =
    bnd (create_channel en) (\<lambda>ch. drain_loop en ch limit 0)"

end
