(* ===== verification/Sample_Broker.thy ===== *)
theory Sample_Broker
  imports Gateway_State Sample_Externs
begin

text \<open>
  A concrete broker on which witnesses run the adapter: every command succeeds, every publish is
  confirmed, a channel gets a number beyond those of the commands before it, and the messages of two fixed lists are
  handed to consumers and to the dead-letter reader in order. It keeps the promises of AMQP that the
  theorems name.
\<close>

definition is_next :: "broker_cmd \<Rightarrow> bool" where
  "is_next c = (case c of ConsumerNext _ \<Rightarrow> True | _ \<Rightarrow> False)"

definition is_get :: "broker_cmd \<Rightarrow> bool" where
  "is_get c = (case c of BasicGet _ _ \<Rightarrow> True | _ \<Rightarrow> False)"

definition named_sum :: "broker_cmd list \<Rightarrow> nat" where
  "named_sum lg = sum_list (map (\<lambda>c. case cmd_channel c of None \<Rightarrow> 0 | Some ch \<Rightarrow> ch) lg)"

definition sample_broker ::
  "broker_message list \<Rightarrow> broker_message list \<Rightarrow> broker_cmd list \<Rightarrow> broker_cmd \<Rightarrow> broker_reply" where
  "sample_broker msgs dead lg c =
    (case c of
       CreateChannel \<Rightarrow> ReplyChannel (length lg + named_sum lg)
     | AwaitConfirm _ \<Rightarrow> ReplyConfirm ConfirmAck
     | ConsumerNext _ \<Rightarrow>
         let k = length (filter is_next lg) in if k < length msgs then ReplyMessage (msgs ! k) else ReplyElapsed
     | BasicGet _ _ \<Rightarrow>
         let k = length (filter is_get lg) in if k < length dead then ReplyMessage (dead ! k) else ReplyEnd
     | QueueDeclarePassive _ _ \<Rightarrow> ReplyQueue 0 0
     | _ \<Rightarrow> ReplyOk)"

definition sample_env :: "broker_message list \<Rightarrow> broker_message list \<Rightarrow> env" where
  "sample_env msgs dead = \<lparr>en_x = sample_externs, en_config = valid, en_broker = sample_broker msgs dead,
     en_now = 1000000, en_elapsed = 1, en_uuid = (\<lambda>n. ''uuid'' @ decimal n), en_record_hash_default = None,
     en_forward = (\<lambda>i ca url r d. (Inl ''unreachable'', d)), en_metadata = (\<lambda>p. None),
     en_read = (\<lambda>p. Inl ''no such file'')\<rparr>"

definition sample_gw :: "db \<Rightarrow> gw" where
  "sample_gw d = \<lparr>gw_db = d, gw_log = [], gw_pages = [], gw_obs = new_observability 0\<rparr>"

lemma sample_gw_simps [simp]:
  "gw_db (sample_gw d) = d" "gw_log (sample_gw d) = []" "gw_pages (sample_gw d) = []"
  by (simp_all add: sample_gw_def)

lemma sample_env_simps [simp]:
  "en_x (sample_env ms ds) = sample_externs" "en_config (sample_env ms ds) = valid"
  "en_broker (sample_env ms ds) = sample_broker ms ds" "en_now (sample_env ms ds) = 1000000"
  by (simp_all add: sample_env_def)

lemma trace_snoc_last: "(c, r) \<in> set (trace B pre cs) \<Longrightarrow> \<exists>xs ys. cs = xs @ c # ys \<and> r = B (pre @ xs) c"
proof (induction cs arbitrary: pre)
  case (Cons x cs)
  show ?case
  proof (cases "(c, r) \<in> set (trace B (pre @ [x]) cs)")
    case True
    then obtain xs ys where "cs = xs @ c # ys" "r = B ((pre @ [x]) @ xs) c" using Cons.IH by blast
    then show ?thesis by (intro exI [of _ "x # xs"] exI [of _ ys]) simp
  next
    case False
    with Cons.prems have "c = x" "r = B pre x" by auto
    then show ?thesis by (intro exI [of _ "[]"] exI [of _ cs]) simp
  qed
qed simp

lemma named_sum_le: "c \<in> set lg \<Longrightarrow> cmd_channel c = Some ch \<Longrightarrow> ch < length lg + named_sum lg"
  by (induction lg) (auto simp: named_sum_def)

lemma sample_broker_channels: "fresh_channels (sample_broker msgs dead)"
proof -
  have "ch < length lg + named_sum lg" if "ch \<in> created (sample_broker msgs dead) lg" for ch lg
    using that by (auto simp: created_def sample_broker_def named_sum_def dest!: trace_snoc_last)
  then show ?thesis using named_sum_le
    by (fastforce simp: fresh_channels_def sample_broker_def)
qed

lemma sample_broker_tags:
  assumes "distinct (map bm_delivery_tag msgs)"
  shows "fresh_tags (sample_broker msgs dead)"
proof -
  have "\<exists>j < length (filter is_next lg). j < length msgs \<and> t = bm_delivery_tag (msgs ! j)"
    if "t \<in> delivered (sample_broker msgs dead) lg ch" for t lg ch
  proof -
    from that obtain m xs ys where m: "t = bm_delivery_tag m" "lg = xs @ ConsumerNext ch # ys"
      "ReplyMessage m = sample_broker msgs dead xs (ConsumerNext ch)"
      by (auto simp: delivered_def dest!: trace_snoc_last)
    then have "m = msgs ! length (filter is_next xs)" "length (filter is_next xs) < length msgs"
      by (auto simp: sample_broker_def Let_def split: if_splits)
    then show ?thesis using m by (intro exI [of _ "length (filter is_next xs)"]) (simp add: is_next_def)
  qed
  then show ?thesis using assms unfolding fresh_tags_def
    by (fastforce simp: sample_broker_def Let_def distinct_conv_nth split: if_splits)
qed

end
