(* ===== verification/Delivery_Pages.thy ===== *)
theory Delivery_Pages
  imports Rabbit Sample_Broker
begin

text \<open>
  Properties of the RabbitMQ adapter: the naming of mailboxes, what a confirmed publish sent, and the
  life of a delivery page. \<open>mailbox_op\<close> collects the operations of one adapter, \<open>mailbox_step\<close> is one
  of them run under an arbitrary clock against one broker, and \<open>pages_ok\<close> is the invariant of its
  pending pages: their channels are open and distinct and none of their deliveries is acknowledged.
\<close>

section \<open>Mailbox names\<close>

lemma length_split_on: "length (split_on c s) = Suc (length (filter ((=) c) s))"
  by (induction s) (auto split: list.splits)

lemma class_str_no_dot: "CHR ''.'' \<notin> set (class_str c)"
  by (cases c) auto

lemma split_queue_name:
  "split_on CHR ''.'' (queue_name E n p c)
   = ''ws'' # ''cs'' # hex_encode (x_sha256 E n) # split_on CHR ''.'' (p @ CHR ''.'' # class_str c)"
proof -
  let ?rest = "p @ CHR ''.'' # class_str c"
  have "split_on CHR ''.'' (hex_encode (x_sha256 E n) @ CHR ''.'' # ?rest)
      = hex_encode (x_sha256 E n) # split_on CHR ''.'' ?rest"
    by (rule split_on_append [OF hex_encode_no_dot])
  then show ?thesis
    by (simp add: queue_name_def network_queue_component_def sha256_hex_def)
qed

lemma split_principal:
  "(\<exists>q k. split_on CHR ''.'' (p @ CHR ''.'' # class_str c) = [q, k]) \<longleftrightarrow> CHR ''.'' \<notin> set p"
proof
  assume "CHR ''.'' \<notin> set p"
  then show "\<exists>q k. split_on CHR ''.'' (p @ CHR ''.'' # class_str c) = [q, k]"
    by (simp add: split_on_append split_on_no_sep class_str_no_dot)
next
  assume "\<exists>q k. split_on CHR ''.'' (p @ CHR ''.'' # class_str c) = [q, k]"
  then have "length (filter ((=) CHR ''.'') (p @ CHR ''.'' # class_str c)) = 1"
    using length_split_on [of "CHR ''.''" "p @ CHR ''.'' # class_str c"] by auto
  then have "filter ((=) CHR ''.'') p = []" by simp
  then show "CHR ''.'' \<notin> set p" by (auto simp: filter_empty_conv)
qed

lemma principal_of_queue_name:
  assumes "CHR ''.'' \<notin> set p"
  shows "principal_from_queue_name E (queue_name E n p c) n = Some p"
  using assms
  by (simp add: principal_from_queue_name_def split_queue_name network_queue_component_def sha256_hex_def
      split_on_append split_on_no_sep class_str_no_dot)

text \<open>
  Mailbox names identify their principal. From the queue a message died in, the principal is read
  back exactly when its name has no dot and the queue was named for the same network (up to
  collisions of the hash); a queue of another network names nobody.
\<close>

theorem queue_name_round_trip:
  "principal_from_queue_name E (queue_name E n p c) n' =
     (if CHR ''.'' \<notin> set p \<and> x_sha256 E n' = x_sha256 E n then Some p else None)"
proof (cases "CHR ''.'' \<in> set p")
  case True
  then have "\<nexists>q k. split_on CHR ''.'' (p @ CHR ''.'' # class_str c) = [q, k]"
    using split_principal by blast
  with True show ?thesis
    by (auto simp: principal_from_queue_name_def split_queue_name split: list.splits)
next
  case False
  then have "split_on CHR ''.'' (p @ CHR ''.'' # class_str c) = [p, class_str c]"
    by (simp add: split_on_append split_on_no_sep class_str_no_dot)
  with False show ?thesis
    by (auto simp: principal_from_queue_name_def split_queue_name network_queue_component_def
        sha256_hex_def dest: hex_encode_inject)
qed

lemma queue_name_inject:
  assumes "queue_name E n p c = queue_name E n' p' c'" and "CHR ''.'' \<notin> set p" "CHR ''.'' \<notin> set p'"
  shows "x_sha256 E n = x_sha256 E n'" and "p = p'" and "c = c'"
proof -
  have "split_on CHR ''.'' (queue_name E n p c) = split_on CHR ''.'' (queue_name E n' p' c')"
    using assms(1) by simp
  then have "hex_encode (x_sha256 E n) = hex_encode (x_sha256 E n')" "p = p'" "class_str c = class_str c'"
    using assms(2,3) by (auto simp: split_queue_name split_on_append split_on_no_sep class_str_no_dot)
  then show "x_sha256 E n = x_sha256 E n'" "p = p'" "c = c'" by (auto dest: hex_encode_inject)
qed

section \<open>Declaring, binding and publishing\<close>

lemma with_binding_metric_Inr:
  "with_binding_metric en m s = (Inr u, s') \<Longrightarrow>
     \<exists>s1. m s = (Inr (), s1) \<and> gw_log s' = gw_log s1 \<and> gw_db s' = gw_db s1 \<and> gw_pages s' = gw_pages s1"
  unfolding with_binding_metric_def
  by (cases "m s") (auto simp: op_defs split: sum.splits if_splits)

lemma preserves_binding_metric [frame_intros]:
  "preserves gw_db m \<Longrightarrow> preserves gw_db (with_binding_metric en m)"
  "preserves gw_pages m \<Longrightarrow> preserves gw_pages (with_binding_metric en m)"
  unfolding with_binding_metric_def by (rule preserves_bnd; auto)+

lemma emits_binding_metric [frame_intros, intro]: "emits P m \<Longrightarrow> emits P (with_binding_metric en m)"
  unfolding with_binding_metric_def by (rule emits_bnd) auto

lemma preserves_mailboxes [frame_intros, simp]:
  "preserves gw_db (ensure_tenant_mailboxes en n p)" "preserves gw_pages (ensure_tenant_mailboxes en n p)"
  "preserves gw_db (bind_scope_member en n p a v)" "preserves gw_pages (bind_scope_member en n p a v)"
  "preserves gw_db (unbind_scope_member en n p a v)" "preserves gw_pages (unbind_scope_member en n p a v)"
  unfolding ensure_tenant_mailboxes_def bind_scope_member_def unbind_scope_member_def
  by (auto intro!: frame_intros simp: Let_def)

text \<open>The commands of a declared mailbox.\<close>

definition mailbox_cmds :: "env \<Rightarrow> nat \<Rightarrow> string \<Rightarrow> string \<Rightarrow> broker_cmd list" where
  "mailbox_cmds en ch n p = concat (map (\<lambda>c.
     [QueueDeclare ch (queue_name (en_x en) n p c) (mailbox_arguments (en_config en)),
      QueueBind ch (queue_name (en_x en) n p c) (direct_exchange c) (direct_route_key (en_x en) n p)])
     all_classes)"

lemma ensure_tenant_mailboxes_Inr:
  assumes "ensure_tenant_mailboxes en n p s = (Inr u, s')"
  shows "\<exists>ch. gw_log s' = gw_log s @ CreateChannel # mailbox_cmds en ch n p"
  using with_binding_metric_Inr [OF assms [unfolded ensure_tenant_mailboxes_def]]
  by (auto simp: bnd_Inr create_channel_Inr send_ok_Inr all_classes_def ret_def mailbox_cmds_def Let_def)

lemma await_confirm_Inr:
  "await_confirm en w ch s = (Inr u, s') \<longleftrightarrow>
     en_broker en (gw_log s) (AwaitConfirm ch) = ReplyConfirm ConfirmAck
     \<and> s' = s\<lparr>gw_log := gw_log s @ [AwaitConfirm ch]\<rparr>"
  by (auto simp: await_confirm_def bnd_def send_def ret_def raise_def
      split: broker_reply.splits confirmation.splits)

definition is_publish :: "broker_cmd \<Rightarrow> bool" where
  "is_publish c = (case c of BasicPublish _ _ _ _ _ \<Rightarrow> True | _ \<Rightarrow> False)"

lemma is_publish_simps [simp]:
  "is_publish (BasicPublish ch ex key mid e)" "\<not> is_publish CreateChannel" "\<not> is_publish (ConfirmSelect ch)"
  "\<not> is_publish (QueueDeclare ch q a)" "\<not> is_publish (QueueBind ch q ex key)"
  "\<not> is_publish (QueueUnbind ch q ex key)" "\<not> is_publish (AwaitConfirm ch)" "\<not> is_publish (BasicAck ch t)"
  "\<not> is_publish (CloseChannel ch n m)"
  by (simp_all add: is_publish_def)

lemma mailbox_cmds_no_publish: "c \<in> set (mailbox_cmds en ch n p) \<Longrightarrow> \<not> is_publish c"
  by (auto simp: mailbox_cmds_def)

lemma publish_target_Inr:
  assumes "publish_target en rcpt r s = (Inr (ex, key), s')"
  shows "(case rcpt of
      Some p \<Rightarrow> ex = direct_exchange (br_delivery_class r) \<and> key = direct_route_key (en_x en) (br_network_id r) p
        \<and> (\<exists>ch. gw_log s' = gw_log s @ CreateChannel # mailbox_cmds en ch (br_network_id r) p)
    | None \<Rightarrow> (\<exists>v. br_membership_version r = Some v \<and> ex = scope_exchange (br_delivery_class r)
        \<and> key = scope_route_key (en_x en) (br_network_id r) (rt_address (br_route r)) v)
        \<and> gw_log s' = gw_log s)"
  using assms
  by (auto simp: publish_target_def bnd_Inr ret_def lift_res_def split: option.splits
      dest!: ensure_tenant_mailboxes_Inr)

lemma rabbit_publish_Inr:
  assumes "rabbit_publish en rcpt r s = (Inr u, s')"
  shows "\<exists>pre ch ex key s1 s2. gw_log s' = gw_log s @ pre
      @ [BasicPublish ch ex key (br_record_id r) (Record r), AwaitConfirm ch]
    \<and> gw_log s1 = gw_log s @ [CreateChannel, ConfirmSelect ch]
    \<and> publish_target en rcpt r s1 = (Inr (ex, key), s2) \<and> gw_log s2 = gw_log s @ pre
    \<and> en_broker en (gw_log s @ pre) (BasicPublish ch ex key (br_record_id r) (Record r)) = ReplyOk
    \<and> en_broker en (gw_log s @ pre @ [BasicPublish ch ex key (br_record_id r) (Record r)])
         (AwaitConfirm ch) = ReplyConfirm ConfirmAck"
proof -
  obtain ch s1 ex key s2 where
    1: "s1 = s\<lparr>gw_log := gw_log s @ [CreateChannel, ConfirmSelect ch]\<rparr>"
    and 2: "publish_target en rcpt r s1 = (Inr (ex, key), s2)"
    and 3: "en_broker en (gw_log s2) (BasicPublish ch ex key (br_record_id r) (Record r)) = ReplyOk"
    and 4: "en_broker en (gw_log s2 @ [BasicPublish ch ex key (br_record_id r) (Record r)])
         (AwaitConfirm ch) = ReplyConfirm ConfirmAck"
    and 5: "gw_log s' = gw_log s2 @ [BasicPublish ch ex key (br_record_id r) (Record r), AwaitConfirm ch]"
    using assms by (auto simp: rabbit_publish_def bnd_Inr create_channel_Inr send_ok_Inr await_confirm_Inr)
  have "\<exists>pre. gw_log s2 = gw_log s @ pre"
    using publish_target_Inr [OF 2] 1 by (auto split: option.splits)
  then obtain pre where "gw_log s2 = gw_log s @ pre" ..
  with 1 2 3 4 5 show ?thesis by (intro exI [of _ pre] exI [of _ ch] exI [of _ ex] exI [of _ key]
    exI [of _ s1] exI [of _ s2]) simp
qed

lemma preserves_publish [frame_intros, simp]:
  "preserves gw_db (rabbit_publish en rcpt r)" "preserves gw_pages (rabbit_publish en rcpt r)"
  "preserves gw_db (publish_control en c)" "preserves gw_pages (publish_control en c)"
proof -
  have a: "preserves gw_db (await_confirm en w ch)" "preserves gw_pages (await_confirm en w ch)" for w ch
    unfolding await_confirm_def
    by (rule preserves_bnd; auto split: broker_reply.splits confirmation.splits)+
  have t: "preserves gw_db (publish_target en rcpt r)" "preserves gw_pages (publish_target en rcpt r)"
    unfolding publish_target_def by (auto intro!: frame_intros split: option.splits)
  show "preserves gw_db (rabbit_publish en rcpt r)" "preserves gw_pages (rabbit_publish en rcpt r)"
    unfolding rabbit_publish_def by (auto intro!: frame_intros a t)
  show "preserves gw_db (publish_control en c)" "preserves gw_pages (publish_control en c)"
    unfolding publish_control_def by (auto intro!: frame_intros a)
qed

text \<open>
  A publish that succeeds was confirmed. The adapter sent exactly one publish, carrying the record,
  to the exchange and routing key of its recipient (whose two mailboxes were declared and bound just
  before) or of its scope and membership version, and the broker answered the wait for the confirm
  with an acknowledgement; neither the database nor the pending pages changed.
\<close>

theorem publish_confirmed:
  assumes "rabbit_publish en rcpt r s = (Inr u, s')"
  shows "\<exists>pre ch ex key.
      gw_log s' = gw_log s @ pre @ [BasicPublish ch ex key (br_record_id r) (Record r), AwaitConfirm ch]
    \<and> (\<forall>c\<in>set pre. \<not> is_publish c)
    \<and> en_broker en (gw_log s @ pre @ [BasicPublish ch ex key (br_record_id r) (Record r)])
        (AwaitConfirm ch) = ReplyConfirm ConfirmAck
    \<and> (case rcpt of
         Some p \<Rightarrow> ex = direct_exchange (br_delivery_class r)
           \<and> key = direct_route_key (en_x en) (br_network_id r) p
           \<and> (\<exists>ch'. set (mailbox_cmds en ch' (br_network_id r) p) \<subseteq> set pre)
       | None \<Rightarrow> ex = scope_exchange (br_delivery_class r)
           \<and> (\<exists>v. br_membership_version r = Some v
              \<and> key = scope_route_key (en_x en) (br_network_id r) (rt_address (br_route r)) v))
    \<and> gw_db s' = gw_db s \<and> gw_pages s' = gw_pages s"
proof -
  obtain pre ch ex key s1 s2 where
    log: "gw_log s' = gw_log s @ pre @ [BasicPublish ch ex key (br_record_id r) (Record r), AwaitConfirm ch]"
    and s1: "gw_log s1 = gw_log s @ [CreateChannel, ConfirmSelect ch]"
    and tgt: "publish_target en rcpt r s1 = (Inr (ex, key), s2)" "gw_log s2 = gw_log s @ pre"
    and ack: "en_broker en (gw_log s @ pre @ [BasicPublish ch ex key (br_record_id r) (Record r)])
         (AwaitConfirm ch) = ReplyConfirm ConfirmAck"
    using rabbit_publish_Inr [OF assms] by blast
  note t = publish_target_Inr [OF tgt(1)]
  have "\<forall>c\<in>set pre. \<not> is_publish c"
    using t s1 tgt(2) by (auto split: option.splits dest: mailbox_cmds_no_publish)
  moreover have "case rcpt of
         Some p \<Rightarrow> ex = direct_exchange (br_delivery_class r)
           \<and> key = direct_route_key (en_x en) (br_network_id r) p
           \<and> (\<exists>ch'. set (mailbox_cmds en ch' (br_network_id r) p) \<subseteq> set pre)
       | None \<Rightarrow> ex = scope_exchange (br_delivery_class r)
           \<and> (\<exists>v. br_membership_version r = Some v
              \<and> key = scope_route_key (en_x en) (br_network_id r) (rt_address (br_route r)) v)"
    using t s1 tgt(2) by (auto split: option.splits)
  moreover have "gw_db s' = gw_db s" "gw_pages s' = gw_pages s"
    by (rule preservesD [OF preserves_publish(1) assms] preservesD [OF preserves_publish(2) assms])+
  ultimately show ?thesis using log ack by blast
qed

definition sample_record :: "string \<Rightarrow> broker_record" where
  "sample_record author = \<lparr>br_network_id = ''net'', br_record_id = ''r1'', br_source_principal_id = author,
     br_route = sample_route (Group ''g'') Events ''k'' False, br_record = ''payload'',
     br_membership_version = Some ''v1'', br_delivery_class = Interactive,
     br_delivery_policy_version = 1, br_enqueued_at = 5, br_expires_at = None\<rparr>"

lemma sample_record_simps [simp]:
  "br_network_id (sample_record a) = ''net''" "br_record_id (sample_record a) = ''r1''"
  "br_source_principal_id (sample_record a) = a" "br_delivery_class (sample_record a) = Interactive"
  "br_enqueued_at (sample_record a) = 5"
  by (simp_all add: sample_record_def)

lemma sample_publish:
  "fst (rabbit_publish (sample_env [] []) (Some ''bob'') (sample_record ''alice'') (sample_gw empty_db)) = Inr ()"
  "fst (rabbit_publish (sample_env [] []) None (sample_record ''alice'') (sample_gw empty_db)) = Inr ()"
  by (simp_all add: rabbit_publish_def publish_target_def ensure_tenant_mailboxes_def with_binding_metric_def
      create_channel_def send_ok_def send_def await_confirm_def op_defs sample_env_def sample_gw_def
      sample_broker_def all_classes_def sample_record_def Let_def deadline_def)

theorem publish_confirmed_witness:
  "\<exists>s' pre ch ex key.
      rabbit_publish (sample_env [] []) None (sample_record ''alice'') (sample_gw empty_db) = (Inr (), s')
    \<and> gw_log s' = pre @ [BasicPublish ch ex key ''r1'' (Record (sample_record ''alice'')), AwaitConfirm ch]
    \<and> ex = SCOPE_INTERACTIVE"
proof -
  obtain s' where s': "rabbit_publish (sample_env [] []) None (sample_record ''alice'') (sample_gw empty_db)
      = (Inr (), s')"
    using sample_publish(2) by (metis prod.collapse)
  from publish_confirmed [OF s'] show ?thesis
    by (auto simp: s' scope_exchange_def)
qed

section \<open>Pending pages\<close>

text \<open>The channel whose deliveries a command acknowledges or gives back.\<close>

definition settled :: "broker_cmd \<Rightarrow> nat option" where
  "settled c = (case c of BasicAck ch _ \<Rightarrow> Some ch | CloseChannel ch _ _ \<Rightarrow> Some ch | _ \<Rightarrow> None)"

definition spares :: "nat set \<Rightarrow> broker_cmd \<Rightarrow> bool" where
  "spares C c \<longleftrightarrow> (\<forall>ch\<in>C. settled c \<noteq> Some ch)"

definition page_open :: "broker_cmd list \<Rightarrow> pending_page \<Rightarrow> bool" where
  "page_open lg p \<longleftrightarrow> (\<forall>t\<in>set (pg_delivery_tags p). BasicAck (pg_channel p) t \<notin> set lg)
     \<and> (\<forall>n m. CloseChannel (pg_channel p) n m \<notin> set lg)"

definition pages_ok :: "(broker_cmd list \<Rightarrow> broker_cmd \<Rightarrow> broker_reply) \<Rightarrow> gw \<Rightarrow> bool" where
  "pages_ok B s \<longleftrightarrow> distinct (map fst (gw_pages s)) \<and> distinct (map (pg_channel \<circ> snd) (gw_pages s))
     \<and> (\<forall>(k, p)\<in>set (gw_pages s). pg_channel p \<in> created B (gw_log s)
          \<and> distinct (pg_delivery_tags p) \<and> page_open (gw_log s) p)"

lemma settled_simps [simp]:
  "settled (BasicAck ch t) = Some ch" "settled (CloseChannel ch code m) = Some ch"
  "settled CreateChannel = None" "settled (ConfirmSelect ch) = None" "settled (ExchangeDeclare ch x kind) = None"
  "settled (QueueDeclare ch q a) = None" "settled (QueueBind ch q x k) = None"
  "settled (QueueUnbind ch q x k) = None" "settled (BasicPublish ch x k i e) = None"
  "settled (AwaitConfirm ch) = None" "settled (BasicQos ch n) = None" "settled (BasicConsume ch q tg) = None"
  "settled (ConsumerNext ch) = None" "settled (BasicCancel ch tg) = None" "settled (BasicGet ch q) = None"
  "settled (QueueDeclarePassive ch q) = None"
  by (simp_all add: settled_def)

lemma settled_channel: "settled c = Some ch \<Longrightarrow> cmd_channel c = Some ch"
  by (cases c) simp_all

lemma page_open_append:
  "page_open lg p \<Longrightarrow> list_all (spares C) cs \<Longrightarrow> pg_channel p \<in> C \<Longrightarrow> page_open (lg @ cs) p"
  unfolding page_open_def spares_def list_all_iff by (auto; metis settled_simps(1,2))

lemma emits_unsettled: "emits (\<lambda>c. settled c = None) m \<Longrightarrow> emits_at (spares C) m s"
  by (rule emits_imp_at, erule emits_mono) (simp add: spares_def)

lemma emits_mailbox_ops [simp]:
  "emits (\<lambda>c. settled c = None) (ensure_tenant_mailboxes en n p)"
  "emits (\<lambda>c. settled c = None) (bind_scope_member en n p a v)"
  "emits (\<lambda>c. settled c = None) (unbind_scope_member en n p a v)"
  "emits (\<lambda>c. settled c = None) (declare_infrastructure en)"
  unfolding ensure_tenant_mailboxes_def bind_scope_member_def unbind_scope_member_def
    declare_infrastructure_def
  by (auto intro!: frame_intros simp: Let_def)

lemma emits_publish_ops [simp]:
  "emits (\<lambda>c. settled c = None) (rabbit_publish en rcpt r)"
  "emits (\<lambda>c. settled c = None) (publish_control en k)"
proof -
  have a: "emits (\<lambda>c. settled c = None) (await_confirm en w ch)" for w ch
    unfolding await_confirm_def
    by (rule emits_bnd) (auto simp: emits_send split: broker_reply.splits confirmation.splits)
  have t: "emits (\<lambda>c. settled c = None) (publish_target en rcpt r)"
    unfolding publish_target_def by (auto intro!: frame_intros split: option.splits)
  show "emits (\<lambda>c. settled c = None) (rabbit_publish en rcpt r)"
    unfolding rabbit_publish_def by (auto intro!: frame_intros a t)
  show "emits (\<lambda>c. settled c = None) (publish_control en k)"
    unfolding publish_control_def by (auto intro!: frame_intros a)
qed

lemma preserves_declare [simp]: "preserves gw_pages (declare_infrastructure en)"
  unfolding declare_infrastructure_def by (auto intro!: frame_intros)

lemma created_mono: "gw_log s' = gw_log s @ cs \<Longrightarrow> created B (gw_log s) \<subseteq> created B (gw_log s')"
  by (auto simp: created_append)

lemma pages_ok_cong:
  "gw_pages s = gw_pages s' \<Longrightarrow> gw_log s = gw_log s' \<Longrightarrow> pages_ok B s \<longleftrightarrow> pages_ok B s'"
  by (simp add: pages_ok_def)

lemma pages_ok_frame:
  assumes "pages_ok B s" and "gw_log s' = gw_log s @ cs" and "list_all (spares (created B (gw_log s))) cs"
    and "gw_pages s' = gw_pages s"
  shows "pages_ok B s'"
  using assms unfolding pages_ok_def by (auto simp: created_append intro: page_open_append)

lemma pages_ok_at:
  assumes "pages_ok B s" and "emits_at (spares (created B (gw_log s))) m s" and "preserves gw_pages m"
  shows "pages_ok B (snd (m s))"
  using assms pages_ok_frame [OF assms(1)] by (auto simp: emits_at_def preserves_def)

subsection \<open>Taking pages out\<close>

lemma pages_ok_remove:
  assumes "pages_ok B s" and "gw_pages s' = filter P (gw_pages s)" and "gw_log s' = gw_log s @ cs"
    and "\<And>c. c \<in> set cs \<Longrightarrow> \<exists>e\<in>set (gw_pages s). \<not> P e \<and> settled c = Some (pg_channel (snd e))"
  shows "pages_ok B s'"
proof -
  have op: "page_open (gw_log s') p" if p: "(k, p) \<in> set (gw_pages s)" "P (k, p)" for k p
  proof -
    have "settled c \<noteq> Some (pg_channel p)" if c: "c \<in> set cs" for c
    proof
      assume "settled c = Some (pg_channel p)"
      then obtain e where e: "e \<in> set (gw_pages s)" "\<not> P e" "pg_channel (snd e) = pg_channel p"
        using assms(4) [OF c] by auto
      have "e = (k, p)"
        using assms(1) e p by (auto simp: pages_ok_def distinct_map inj_on_def)
      with e p show False by simp
    qed
    then have "list_all (spares {pg_channel p}) cs" by (auto simp: list_all_iff spares_def)
    moreover have "page_open (gw_log s) p" using assms(1) p by (auto simp: pages_ok_def)
    ultimately show ?thesis unfolding assms(3) by (intro page_open_append [of _ _ "{pg_channel p}"]) auto
  qed
  have "distinct (map fst (gw_pages s'))" "distinct (map (pg_channel \<circ> snd) (gw_pages s'))"
    using assms(1,2) by (auto simp: pages_ok_def distinct_map_filter)
  with op assms(1-3) show ?thesis by (auto simp: pages_ok_def created_append)
qed

lemma close_pages_log:
  "\<exists>cs. snd (close_pages en P s) = s\<lparr>gw_pages := filter (\<lambda>e. \<not> P (snd e)) (gw_pages s), gw_log := gw_log s @ cs\<rparr>
     \<and> (\<forall>c\<in>set cs. \<exists>e\<in>set (gw_pages s). P (snd e)
          \<and> c = CloseChannel (pg_channel (snd e)) 500 ''mailbox page owner lease expired'')"
proof -
  let ?f = "\<lambda>e. CloseChannel (pg_channel (snd e)) 500 ''mailbox page owner lease expired''"
  let ?gone = "filter (\<lambda>e. P (snd e)) (gw_pages s)"
  let ?s1 = "s\<lparr>gw_pages := filter (\<lambda>e. \<not> P (snd e)) (gw_pages s)\<rparr>"
  obtain ys zs where "?gone = ys @ zs"
    "snd (for_each (\<lambda>e. send_ok en (?f e)) ?gone ?s1) = ?s1\<lparr>gw_log := gw_log ?s1 @ map ?f ys\<rparr>"
    using for_each_send_ok_log [of ?gone en ?f ?s1] by blast
  moreover from this(1) have "set ys \<subseteq> {e \<in> set (gw_pages s). P (snd e)}"
    by (metis Un_upper1 set_append set_filter)
  then have "\<forall>c\<in>set (map ?f ys). \<exists>e\<in>set (gw_pages s). P (snd e) \<and> c = ?f e" by auto
  moreover have "snd (close_pages en P s) = snd (for_each (\<lambda>e. send_ok en (?f e)) ?gone ?s1)"
    by (auto simp: close_pages_def snd_bnd op_defs split: sum.splits prod.splits)
  ultimately show ?thesis by (intro exI [of _ "map ?f ys"]) simp
qed

lemma close_pages_ok: "pages_ok B s \<Longrightarrow> pages_ok B (snd (close_pages en P s))"
  using close_pages_log [of en P s] by (elim exE conjE) (rule pages_ok_remove, auto, fastforce)

lemma close_pages_no_ack:
  "BasicAck ch t \<in> set (gw_log (snd (close_pages en P s))) \<longleftrightarrow> BasicAck ch t \<in> set (gw_log s)"
  using close_pages_log [of en P s] by auto

lemma snd_abandon_expired: "snd (abandon_expired_pages en n p c s) =
    snd (close_pages en (\<lambda>q. pg_network_id q = n \<and> pg_principal_id q = p \<and> pg_delivery_class q = c
      \<and> page_expired en q) s)"
  by (auto simp: abandon_expired_pages_def snd_bnd ret_def split: sum.splits)

lemma snd_reap_expired:
  "gw_log (snd (reap_expired_pages en s)) = gw_log (snd (close_pages en (page_expired en) s))"
  "gw_pages (snd (reap_expired_pages en s)) = gw_pages (snd (close_pages en (page_expired en) s))"
  by (auto simp: reap_expired_pages_def op_defs split: sum.splits prod.splits)

lemma take_page_eq:
  "take_page k s = (Inr (map_of (gw_pages s) k), s\<lparr>gw_pages := page_delete k (gw_pages s)\<rparr>)"
  by (simp add: take_page_def op_defs)

lemma pages_ok_delete: "pages_ok B s \<Longrightarrow> pages_ok B (s\<lparr>gw_pages := page_delete k (gw_pages s)\<rparr>)"
  by (rule pages_ok_remove [where cs = "[]"]) (auto simp: page_delete_def)

text \<open>What \<open>commit_page\<close> sends, on every branch.\<close>

lemma commit_page_cases:
  "(map_of (gw_pages s) k = None \<and> rabbit_commit_page en k q c e s = (Inr None, s\<lparr>gw_pages := page_delete k (gw_pages s)\<rparr>))
   \<or> (\<exists>p. map_of (gw_pages s) k = Some p \<and> \<not> (pg_principal_id p = q \<and> pg_delivery_class p = c \<and> pg_consumer_epoch p = e)
        \<and> (\<exists>m. rabbit_commit_page en k q c e s = (Inl m, s\<lparr>gw_pages := page_delete k (gw_pages s)\<rparr>)))
   \<or> (\<exists>p ts rest. map_of (gw_pages s) k = Some p
        \<and> pg_principal_id p = q \<and> pg_delivery_class p = c \<and> pg_consumer_epoch p = e
        \<and> set rest \<subseteq> {CloseChannel (pg_channel p) 200 ''mailbox page committed''}
        \<and> set ts \<subseteq> set (pg_delivery_tags p)
        \<and> snd (rabbit_commit_page en k q c e s) = s\<lparr>gw_pages := page_delete k (gw_pages s),
             gw_log := gw_log s @ map (BasicAck (pg_channel p)) ts @ rest\<rparr>)"
proof (cases "map_of (gw_pages s) k")
  case None
  then show ?thesis by (simp add: rabbit_commit_page_def bnd_def take_page_eq ret_def)
next
  case (Some p)
  let ?s1 = "s\<lparr>gw_pages := page_delete k (gw_pages s)\<rparr>"
  show ?thesis
  proof (cases "pg_principal_id p = q \<and> pg_delivery_class p = c \<and> pg_consumer_epoch p = e")
    case False
    with Some show ?thesis by (auto simp: rabbit_commit_page_def bnd_def take_page_eq raise_def)
  next
    case True
    let ?a = "for_each (\<lambda>tag. send_ok en (BasicAck (pg_channel p) tag)) (pg_delivery_tags p)"
    obtain ys zs where ys: "pg_delivery_tags p = ys @ zs"
      "snd (?a ?s1) = ?s1\<lparr>gw_log := gw_log ?s1 @ map (BasicAck (pg_channel p)) ys\<rparr>"
      using for_each_send_ok_log by metis
    show ?thesis
    proof (cases "fst (?a ?s1)")
      case (Inl m)
      with ys Some True show ?thesis
        by (intro disjI2 exI [of _ p] exI [of _ ys] exI [of _ "[]"])
          (auto simp: rabbit_commit_page_def snd_bnd take_page_eq)
    next
      case (Inr u)
      then have "?a ?s1 = (Inr u, snd (?a ?s1))" by (metis prod.collapse)
      then have "snd (?a ?s1) = ?s1\<lparr>gw_log := gw_log ?s1 @ map (BasicAck (pg_channel p)) (pg_delivery_tags p)\<rparr>"
        by (rule for_each_send_ok_Inr)
      with Inr Some True show ?thesis
        by (intro disjI2 exI [of _ p] exI [of _ "pg_delivery_tags p"]
            exI [of _ "[CloseChannel (pg_channel p) 200 ''mailbox page committed'']"])
          (auto simp: rabbit_commit_page_def snd_bnd take_page_eq ret_def split: sum.splits)
    qed
  qed
qed

subsection \<open>Pulling a page\<close>

text \<open>The messages a channel's consumer was handed by the commands \<open>cs\<close> sent after \<open>pre\<close>.\<close>

definition fetched ::
  "(broker_cmd list \<Rightarrow> broker_cmd \<Rightarrow> broker_reply) \<Rightarrow> broker_cmd list \<Rightarrow> broker_cmd list \<Rightarrow> nat
   \<Rightarrow> broker_message list" where
  "fetched B pre cs ch = concat (map (\<lambda>(c, r). case r of
      ReplyMessage m \<Rightarrow> if c = ConsumerNext ch then [m] else [] | _ \<Rightarrow> []) (trace B pre cs))"

definition own_message :: "string \<Rightarrow> broker_message \<Rightarrow> bool" where
  "own_message p m = (case bm_envelope m of Some (Record r) \<Rightarrow> br_source_principal_id r = p | _ \<Rightarrow> False)"

lemma fetched_append: "fetched B pre (cs @ ds) ch = fetched B pre cs ch @ fetched B (pre @ cs) ds ch"
  by (simp add: fetched_def trace_append)

lemma fetched_none:
  "(\<And>c. c \<in> set cs \<Longrightarrow> c \<noteq> ConsumerNext ch) \<Longrightarrow> fetched B pre cs ch = []"
  by (induction cs arbitrary: pre) (auto simp: fetched_def split: broker_reply.splits)

lemma fetched_Nil: "fetched B pre [] ch = []"
  by (simp add: fetched_def)

lemma fetched_next:
  "fetched B pre (ConsumerNext ch # cs) ch = (case B pre (ConsumerNext ch) of
     ReplyMessage m \<Rightarrow> m # fetched B (pre @ [ConsumerNext ch]) cs ch
   | _ \<Rightarrow> fetched B (pre @ [ConsumerNext ch]) cs ch)"
  by (auto simp: fetched_def split: broker_reply.splits)

lemma consume_Inr:
  "consume en ch n s = (Inr ms, s') \<Longrightarrow>
     \<exists>k. s' = s\<lparr>gw_log := gw_log s @ replicate k (ConsumerNext ch)\<rparr>
       \<and> fetched (en_broker en) (gw_log s) (replicate k (ConsumerNext ch)) ch = ms"
proof (induction n arbitrary: s ms)
  case 0
  then show ?case by (auto simp: ret_def fetched_Nil intro!: exI [of _ 0])
next
  case (Suc n)
  let ?s1 = "s\<lparr>gw_log := gw_log s @ [ConsumerNext ch]\<rparr>"
  show ?case
  proof (cases "en_broker en (gw_log s) (ConsumerNext ch)")
    case (ReplyMessage m)
    with Suc.prems obtain ms1 where "consume en ch n ?s1 = (Inr ms1, s')" "ms = m # ms1"
      by (auto simp: bnd_def send_def ret_def split: prod.splits sum.splits)
    with Suc.IH [OF this(1)] obtain k where
      "s' = ?s1\<lparr>gw_log := gw_log ?s1 @ replicate k (ConsumerNext ch)\<rparr>"
      "fetched (en_broker en) (gw_log ?s1) (replicate k (ConsumerNext ch)) ch = ms1" by blast
    with ReplyMessage \<open>ms = m # ms1\<close> show ?thesis
      by (intro exI [of _ "Suc k"]) (simp add: fetched_next)
  qed (use Suc.prems in \<open>auto simp: bnd_def send_def ret_def raise_def fetched_next fetched_Nil intro!: exI [of _ 1]\<close>)
qed

lemma consume_distinct:
  assumes "fresh_tags B"
  shows "distinct (map bm_delivery_tag (fetched B pre (replicate k (ConsumerNext ch)) ch))
    \<and> bm_delivery_tag ` set (fetched B pre (replicate k (ConsumerNext ch)) ch) \<inter> delivered B pre ch = {}"
proof (induction k arbitrary: pre)
  case (Suc k)
  let ?c = "ConsumerNext ch" and ?f = "fetched B (pre @ [ConsumerNext ch]) (replicate k (ConsumerNext ch)) ch"
  have IH: "distinct (map bm_delivery_tag ?f)"
    "bm_delivery_tag ` set ?f \<inter> delivered B (pre @ [?c]) ch = {}"
    using Suc.IH [of "pre @ [?c]"] by blast+
  have mono: "delivered B pre ch \<subseteq> delivered B (pre @ [?c]) ch" by (rule delivered_append)
  show ?case
  proof (cases "\<exists>m. B pre ?c = ReplyMessage m")
    case True
    then obtain m where m: "B pre ?c = ReplyMessage m" ..
    then have "bm_delivery_tag m \<notin> delivered B pre ch" using assms by (auto simp: fresh_tags_def)
    moreover have "bm_delivery_tag m \<in> delivered B (pre @ [?c]) ch"
      using m by (auto simp: delivered_snoc)
    moreover have "fetched B pre (replicate (Suc k) ?c) ch = m # ?f" using m by (simp add: fetched_next)
    ultimately show ?thesis using IH mono by auto
  next
    case False
    then have "fetched B pre (replicate (Suc k) ?c) ch = ?f"
      by (auto simp: fetched_next split: broker_reply.splits)
    with IH mono show ?thesis by auto
  qed
qed (simp add: fetched_Nil)

text \<open>The page loop: what it lists and what it acknowledges.\<close>

lemma no_contents_simps [simp]:
  "pc_tags no_contents = []" "pc_deliveries no_contents = []" "pc_controls no_contents = []"
  by (simp_all add: no_contents_def)

lemma sort_message_Inr:
  assumes "sort_message en ch n p c m acc s = (Inr acc', s')"
  shows "pc_tags acc' = pc_tags acc @ (if own_message p m then [] else [bm_delivery_tag m])"
    and "length (pc_deliveries acc') + length (pc_controls acc')
       = length (pc_deliveries acc) + length (pc_controls acc) + (if own_message p m then 0 else 1)"
    and "gw_log s' = gw_log s @ (if own_message p m then [BasicAck ch (bm_delivery_tag m)] else [])"
  using assms
  by (auto simp: sort_message_def own_message_def Let_def bnd_Inr send_ok_Inr ret_def raise_def lift_res_def
      split: option.splits broker_envelope.splits if_splits)

lemma preserves_sort [simp]:
  "preserves gw_pages (sort_messages en ch n p c ms acc)" "preserves gw_db (sort_messages en ch n p c ms acc)"
proof -
  have "preserves gw_pages (sort_message en ch n p c m acc)" "preserves gw_db (sort_message en ch n p c m acc)"
    for m acc
    unfolding sort_message_def Let_def
    by (auto intro!: preserves_bnd split: option.splits broker_envelope.splits)
  then show "preserves gw_pages (sort_messages en ch n p c ms acc)"
    "preserves gw_db (sort_messages en ch n p c ms acc)"
    by (induction ms arbitrary: acc) (auto intro!: preserves_bnd)
qed

lemma emits_sort: "ch \<notin> C \<Longrightarrow> emits (spares C) (sort_messages en ch n p c ms acc)"
proof (induction ms arbitrary: acc)
  case (Cons m ms)
  then have "emits (spares C) (sort_message en ch n p c m acc)"
    unfolding sort_message_def Let_def
    by (auto intro!: emits_bnd emits_send_ok simp: spares_def split: option.splits broker_envelope.splits)
  with Cons show ?case by (auto intro!: emits_bnd)
qed simp

lemma sort_messages_Inr:
  assumes "sort_messages en ch n p c ms acc s = (Inr acc', s')"
  shows "pc_tags acc' = pc_tags acc @ map bm_delivery_tag (filter (\<lambda>m. \<not> own_message p m) ms)
    \<and> length (pc_deliveries acc') + length (pc_controls acc')
       = length (pc_deliveries acc) + length (pc_controls acc) + length (filter (\<lambda>m. \<not> own_message p m) ms)
    \<and> gw_log s' = gw_log s @ map (\<lambda>m. BasicAck ch (bm_delivery_tag m)) (filter (own_message p) ms)"
  using assms
proof (induction ms arbitrary: acc s)
  case Nil
  then show ?case by (simp add: ret_def)
next
  case (Cons m ms)
  then obtain acc1 s1 where 1: "sort_message en ch n p c m acc s = (Inr acc1, s1)"
    and 2: "sort_messages en ch n p c ms acc1 s1 = (Inr acc', s')"
    by (auto simp: bnd_Inr)
  show ?case using Cons.IH [OF 2] sort_message_Inr [OF 1] by auto
qed

lemma fetch_messages_frame [simp]:
  "preserves gw_pages (fetch_messages en n p c page limit)" "preserves gw_db (fetch_messages en n p c page limit)"
  "emits (\<lambda>c. settled c = None) (fetch_messages en n p c page limit)"
proof -
  have "preserves gw_pages (consume en ch k)" "preserves gw_db (consume en ch k)"
    "emits (\<lambda>c. settled c = None) (consume en ch k)" for ch k
    by (induction k) (auto intro!: preserves_bnd emits_bnd simp: emits_send split: broker_reply.splits)
  then show "preserves gw_pages (fetch_messages en n p c page limit)"
    "preserves gw_db (fetch_messages en n p c page limit)"
    "emits (\<lambda>c. settled c = None) (fetch_messages en n p c page limit)"
    unfolding fetch_messages_def by (auto intro!: frame_intros)
qed

lemma fetch_messages_Inr:
  assumes "fetch_messages en n p c page limit s = (Inr (ch, ms), s')"
  shows "\<exists>k pre post. gw_log s' = gw_log s @ pre @ replicate k (ConsumerNext ch) @ post
      \<and> fetched (en_broker en) (gw_log s @ pre) (replicate k (ConsumerNext ch)) ch = ms
      \<and> (\<forall>x\<in>set (pre @ post). settled x = None \<and> \<not> is_next x)
      \<and> en_broker en (gw_log s) CreateChannel = ReplyChannel ch \<and> (\<exists>pre'. pre = CreateChannel # pre')"
proof -
  let ?a = "BasicQos ch (min (rabbitmq_prefetch (en_config en)) (min (max limit 1) 65535))"
  let ?b = "BasicConsume ch (queue_name (en_x en) n p c) (''cs-page-'' @ page)"
  let ?z = "BasicCancel ch (''cs-page-'' @ page)"
  obtain s1 where "en_broker en (gw_log s) CreateChannel = ReplyChannel ch"
    "consume en ch limit (s\<lparr>gw_log := gw_log s @ [CreateChannel, ?a, ?b]\<rparr>) = (Inr ms, s1)"
    "gw_log s' = gw_log s1 @ [?z]"
    using assms by (auto simp: fetch_messages_def bnd_Inr create_channel_Inr send_ok_Inr ret_def)
  with consume_Inr [OF this(2)] show ?thesis
    by (elim exE) (rule_tac x = k in exI, intro exI [of _ "[CreateChannel, ?a, ?b]"] exI [of _ "[?z]"],
      simp add: is_next_def)
qed

text \<open>What the page loop and the insertion of the page leave behind.\<close>

lemma open_page_cases:
  assumes "open_page en n p c page epoch ch ms s = (r, s')"
  shows "(\<exists>m. r = Inl m) \<and> gw_pages s' = gw_pages s
         \<and> (\<exists>cs. gw_log s' = gw_log s @ cs \<and> (\<forall>x\<in>set cs. settled x = Some ch))
       \<or> (gw_pages s' = page_delete page (gw_pages s)
         \<and> (\<exists>cs. gw_log s' = gw_log s @ cs \<and> (\<forall>x\<in>set cs. settled x = Some ch)) \<and> (\<forall>pp. r \<noteq> Inr (Some pp)))
       \<or> (\<exists>pp q. r = Inr (Some pp) \<and> gw_pages s' = page_insert page q (gw_pages s)
         \<and> pg_channel q = ch \<and> pg_network_id q = n \<and> pg_principal_id q = p \<and> pg_delivery_class q = c
         \<and> pg_consumer_epoch q = epoch \<and> pg_opened_at q = en_now en
         \<and> pg_delivery_tags q = map bm_delivery_tag (filter (\<lambda>m. \<not> own_message p m) ms)
         \<and> length (pp_deliveries pp) + length (pp_controls pp) = length (pg_delivery_tags q)
         \<and> pg_delivery_tags q \<noteq> [] \<and> pp_page_id pp = page \<and> pp_consumer_epoch pp = epoch
         \<and> gw_log s' = gw_log s @ map (\<lambda>m. BasicAck ch (bm_delivery_tag m)) (filter (own_message p) ms))"
proof (cases "sort_messages en ch n p c ms no_contents s")
  case (Pair x s1)
  have pages: "gw_pages s1 = gw_pages s" by (rule preservesD [OF preserves_sort(1) Pair])
  have "emits (\<lambda>x. settled x = Some ch) (sort_message en ch n p c m acc)" for m acc
    unfolding sort_message_def Let_def
    by (auto intro!: emits_bnd emits_send_ok split: option.splits broker_envelope.splits)
  then have "emits (\<lambda>x. settled x = Some ch) (sort_messages en ch n p c ms acc)" for acc
    by (induction ms arbitrary: acc) (auto intro!: emits_bnd)
  from emitsD [OF this Pair] obtain cs
    where cs: "gw_log s1 = gw_log s @ cs" "\<forall>x\<in>set cs. settled x = Some ch" by (auto simp: list_all_iff)
  show ?thesis
  proof (cases x)
    case (Inl m)
    then show ?thesis using assms Pair pages cs by (auto simp: open_page_def bnd_def)
  next
    case (Inr acc)
    note acc = sort_messages_Inr [OF Pair [unfolded Inr]]
    show ?thesis
    proof (cases "pc_deliveries acc = [] \<and> pc_controls acc = []")
      case True
      have "gw_pages s' = page_delete page (gw_pages s) \<and> (\<forall>pp. r \<noteq> Inr (Some pp))
          \<and> gw_log s' = gw_log s @ cs @ [CloseChannel ch 200 ''self delivery filtered'']"
        using assms True cs pages
        by (auto simp: open_page_def bnd_def Pair Inr modify_def take_page_eq send_ok_def send_def op_defs
            page_insert_def page_delete_def split: broker_reply.splits)
      then show ?thesis using cs(2) by (intro disjI2 disjI1) auto
    next
      case False
      then have ne: "filter (\<lambda>m. \<not> own_message p m) ms \<noteq> []" using acc by auto
      have "\<not> (pc_deliveries acc = [] \<and> pc_controls acc = [])" by fact
      then have "r = Inr (Some \<lparr>pp_page_id = page,
           pp_binding = \<lparr>bn_network_id = n, bn_recipient_principal_id = p, bn_delivery_class = c\<rparr>,
           pp_deliveries = pc_deliveries acc, pp_controls = pc_controls acc, pp_consumer_epoch = epoch\<rparr>)"
        "gw_log s' = gw_log s1"
        "gw_pages s' = page_insert page \<lparr>pg_channel = ch, pg_delivery_tags = pc_tags acc,
           pg_network_id = n, pg_principal_id = p, pg_delivery_class = c, pg_consumer_epoch = epoch,
           pg_opened_at = en_now en, pg_oldest_enqueued_at = pc_oldest acc\<rparr> (gw_pages s1)"
        using assms by (auto simp: open_page_def bnd_def Pair Inr op_defs)
      with ne acc pages show ?thesis by (intro disjI2) auto
    qed
  qed
qed

lemma pages_ok_insert:
  assumes ok: "pages_ok B s" and log: "gw_log s' = gw_log s @ cs" "list_all (spares (created B (gw_log s))) cs"
    and q: "pg_channel q \<notin> created B (gw_log s)" "pg_channel q \<in> created B (gw_log s')"
      "distinct (pg_delivery_tags q)" "page_open (gw_log s') q"
    and pages: "gw_pages s' = page_insert k q (gw_pages s)"
  shows "pages_ok B s'"
proof -
  let ?s1 = "s'\<lparr>gw_pages := page_delete k (gw_pages s)\<rparr>"
  have "pages_ok B (s\<lparr>gw_pages := page_delete k (gw_pages s)\<rparr>)" using ok by (rule pages_ok_delete)
  then have ok1: "pages_ok B ?s1" by (rule pages_ok_frame [where cs = cs]) (use log in simp_all)
  have "gw_pages s' = (k, q) # gw_pages ?s1" by (simp add: pages page_insert_def page_delete_def)
  moreover have "pg_channel q \<notin> (pg_channel \<circ> snd) ` set (gw_pages ?s1)"
    using ok q(1) by (auto simp: pages_ok_def page_delete_def)
  moreover have "k \<notin> fst ` set (gw_pages ?s1)" by (auto simp: page_delete_def)
  ultimately show ?thesis using ok1 q(2-4) by (auto simp: pages_ok_def)
qed

definition acks_kept :: "(broker_cmd list \<Rightarrow> broker_cmd \<Rightarrow> broker_reply) \<Rightarrow> gw \<Rightarrow> gw \<Rightarrow> bool" where
  "acks_kept B s s' \<longleftrightarrow> (\<exists>cs. gw_log s' = gw_log s @ cs
     \<and> (\<forall>ch\<in>created B (gw_log s). \<forall>t. BasicAck ch t \<notin> set cs))"

lemma acks_kept_trans: "acks_kept B s s1 \<Longrightarrow> acks_kept B s1 s2 \<Longrightarrow> acks_kept B s s2"
  unfolding acks_kept_def
proof (elim exE conjE)
  fix cs ds
  assume "gw_log s1 = gw_log s @ cs" "\<forall>ch\<in>created B (gw_log s). \<forall>t. BasicAck ch t \<notin> set cs"
    "gw_log s2 = gw_log s1 @ ds" "\<forall>ch\<in>created B (gw_log s1). \<forall>t. BasicAck ch t \<notin> set ds"
  then show "\<exists>cs. gw_log s2 = gw_log s @ cs \<and> (\<forall>ch\<in>created B (gw_log s). \<forall>t. BasicAck ch t \<notin> set cs)"
    by (intro exI [of _ "cs @ ds"]) (auto simp: created_append)
qed

lemma acks_kept_spares:
  "gw_log s' = gw_log s @ cs \<Longrightarrow> list_all (spares (created B (gw_log s))) cs \<Longrightarrow> acks_kept B s s'"
  unfolding acks_kept_def list_all_iff spares_def by (metis settled_simps(1))

lemma acks_kept_at: "emits_at (spares (created B (gw_log s))) m s \<Longrightarrow> acks_kept B s (snd (m s))"
  by (auto simp: emits_at_def intro: acks_kept_spares)

lemma acks_kept_close: "acks_kept B s (snd (close_pages en P s))"
  using close_pages_log [of en P s] unfolding acks_kept_def by fastforce

lemma pull_tail:
  assumes B: "fresh_channels (en_broker en)" "fresh_tags (en_broker en)" and ok: "pages_ok (en_broker en) s"
    and f: "fetch_messages en n p c page limit s = (Inr (ch, ms), s3)"
    and o: "open_page en n p c page epoch ch ms s3 = (r, s')"
  shows "pages_ok (en_broker en) s' \<and> acks_kept (en_broker en) s s'"
proof -
  let ?B = "en_broker en"
  obtain k pre post where log3: "gw_log s3 = gw_log s @ pre @ replicate k (ConsumerNext ch) @ post"
    and ms: "fetched ?B (gw_log s @ pre) (replicate k (ConsumerNext ch)) ch = ms"
    and quiet: "\<forall>x\<in>set (pre @ post). settled x = None" and new: "?B (gw_log s) CreateChannel = ReplyChannel ch"
    and cr: "\<exists>pre'. pre = CreateChannel # pre'"
    using fetch_messages_Inr [OF f] by blast
  have fresh: "ch \<notin> created ?B (gw_log s)" "\<And>x. x \<in> set (gw_log s) \<Longrightarrow> cmd_channel x \<noteq> Some ch"
    using B(1) new by (auto simp: fresh_channels_def)
  have pages3: "gw_pages s3 = gw_pages s" by (rule preservesD [OF fetch_messages_frame(1) f])
  have sp: "list_all (spares (created ?B (gw_log s))) (pre @ replicate k (ConsumerNext ch) @ post @ cs)"
    if "\<forall>x\<in>set cs. settled x = Some ch" for cs
    using that quiet fresh(1) by (auto simp: list_all_iff spares_def)
  have frame: "pages_ok ?B t \<and> acks_kept ?B s t"
    if "gw_log t = gw_log s3 @ cs" "\<forall>x\<in>set cs. settled x = Some ch" "gw_pages t = gw_pages s" for t cs
    using pages_ok_frame [OF ok _ sp [OF that(2)], of t] acks_kept_spares [OF _ sp [OF that(2)], of t]
      that log3 by simp
  from open_page_cases [OF o] show ?thesis
  proof (elim disjE conjE exE)
    fix cs
    assume *: "gw_pages s' = gw_pages s3" "gw_log s' = gw_log s3 @ cs" "\<forall>x\<in>set cs. settled x = Some ch"
    then show ?thesis using frame [of s' cs] pages3 by simp
  next
    fix cs
    assume *: "gw_pages s' = page_delete page (gw_pages s3)" "gw_log s' = gw_log s3 @ cs"
      "\<forall>x\<in>set cs. settled x = Some ch"
    have "pages_ok ?B (s'\<lparr>gw_pages := gw_pages s\<rparr>) \<and> acks_kept ?B s (s'\<lparr>gw_pages := gw_pages s\<rparr>)"
      using frame [of _ cs] * by simp
    moreover from this have "pages_ok ?B (s'\<lparr>gw_pages := page_delete page (gw_pages s)\<rparr>)"
      using pages_ok_delete [of ?B "s'\<lparr>gw_pages := gw_pages s\<rparr>" page] by simp
    then have "pages_ok ?B s'" by (rule pages_ok_cong [THEN iffD1, rotated 2]) (use * pages3 in simp_all)
    ultimately show ?thesis using * by (simp add: acks_kept_def)
  next
    fix pp q
    let ?acks = "map (\<lambda>m. BasicAck ch (bm_delivery_tag m)) (filter (own_message p) ms)"
    assume q: "gw_pages s' = page_insert page q (gw_pages s3)" "pg_channel q = ch"
      "pg_delivery_tags q = map bm_delivery_tag (filter (\<lambda>m. \<not> own_message p m) ms)"
      "gw_log s' = gw_log s3 @ ?acks"
    have d: "distinct (map bm_delivery_tag ms)" using consume_distinct [OF B(2)] ms by metis
    then have tags: "distinct (pg_delivery_tags q)" by (simp add: q(3) distinct_map_filter)
    have disj: "bm_delivery_tag m \<notin> set (pg_delivery_tags q)" if "m \<in> set ms" "own_message p m" for m
      using d that by (auto simp: q(3) distinct_map inj_on_def)
    have "settled x \<noteq> Some ch" if "x \<in> set (gw_log s3)" for x
      using that fresh(2) [of x] quiet unfolding log3 by (auto dest: settled_channel)
    then have "page_open (gw_log s') q"
      using disj by (auto simp: page_open_def q(2,4)) (metis settled_simps)+
    moreover have "ch \<in> created ?B (gw_log s')"
      using cr new by (auto simp: q(4) log3 created_append)
    moreover have sq: "\<forall>x\<in>set ?acks. settled x = Some ch" by auto
    moreover have "acks_kept ?B s s'" using q(4) log3 by (intro acks_kept_spares [OF _ sp [OF sq]]) simp
    ultimately show ?thesis
      using pages_ok_insert [OF ok _ sp [OF sq], of s' q page] q log3 pages3 fresh(1) tags by simp
  qed
qed

lemma pull_page_ok:
  assumes B: "fresh_channels (en_broker en)" "fresh_tags (en_broker en)" and ok: "pages_ok (en_broker en) s"
  shows "pages_ok (en_broker en) (snd (pull_page en n p c page epoch limit s))
    \<and> acks_kept (en_broker en) s (snd (pull_page en n p c page epoch limit s))"
proof -
  let ?B = "en_broker en" and ?f = "fetch_messages en n p c page limit"
  define s1 where "s1 = snd (abandon_expired_pages en n p c s)"
  define s2 where "s2 = snd (ensure_tenant_mailboxes en n p s1)"
  have 1: "pages_ok ?B s1" "acks_kept ?B s s1"
    by (simp_all add: s1_def snd_abandon_expired close_pages_ok ok acks_kept_close)
  have 2: "pages_ok ?B s2" "acks_kept ?B s1 s2"
    unfolding s2_def by (rule pages_ok_at [OF 1(1)] acks_kept_at emits_unsettled; simp add: emits_unsettled)+
  have 3: "pages_ok ?B (snd (?f s2))" "acks_kept ?B s2 (snd (?f s2))"
    by (rule pages_ok_at [OF 2(1)] acks_kept_at emits_unsettled; simp add: emits_unsettled)+
  have 4: "pages_ok ?B s' \<and> acks_kept ?B s2 s'"
    if f: "?f s2 = (Inr (ch, ms), s3)" and s': "s' = snd ((if ms = [] then
      bnd (send_ok en (CloseChannel ch 200 ''empty mailbox page'')) (\<lambda>_.
      bnd (observed (record_delivery_page (en_elapsed en) 0 0)) (\<lambda>_. ret None))
      else open_page en n p c page epoch ch ms) s3)" for ch ms s3 s'
  proof (cases "ms = []")
    case False
    then have "open_page en n p c page epoch ch ms s3 = (fst (open_page en n p c page epoch ch ms s3), s')"
      using s' by simp
    then show ?thesis by (rule pull_tail [OF B 2(1) f])
  next
    case True
    then have log: "gw_log s' = gw_log s3 @ [CloseChannel ch 200 ''empty mailbox page'']" "gw_pages s' = gw_pages s3"
      using s' by (auto simp: bnd_def send_ok_def send_def op_defs split: broker_reply.splits)
    obtain cs where cs: "gw_log s3 = gw_log s2 @ cs" "list_all (spares (created ?B (gw_log s2))) cs"
      using emits_unsettled [OF fetch_messages_frame(3), of "created ?B (gw_log s2)" en n p c page limit s2] f
      by (auto simp: emits_at_def)
    have "ch \<notin> created ?B (gw_log s2)"
      using fetch_messages_Inr [OF f] B(1) by (auto simp: fresh_channels_def)
    then have "list_all (spares (created ?B (gw_log s2))) (cs @ [CloseChannel ch 200 ''empty mailbox page''])"
      using cs(2) by (auto simp: spares_def)
    then show ?thesis
      using pages_ok_frame [OF 2(1)] acks_kept_spares cs(1) log preservesD [OF fetch_messages_frame(1) f] by auto
  qed
  define s' where "s' = snd (pull_page en n p c page epoch limit s)"
  have "s' = s1 \<or> s' = s2 \<or> s' = snd (?f s2) \<or> (pages_ok ?B s' \<and> acks_kept ?B s2 s')"
  proof (cases "fst (?f s2)")
    case (Inl e)
    then show ?thesis
      by (auto simp: s'_def pull_page_def snd_bnd s1_def [symmetric] s2_def [symmetric] split: sum.splits)
  next
    case (Inr x)
    obtain ch ms where x: "x = (ch, ms)" by (cases x)
    with Inr have f: "?f s2 = (Inr (ch, ms), snd (?f s2))" by (metis prod.collapse)
    show ?thesis using 4 [OF f refl] Inr x
      by (auto simp: s'_def pull_page_def snd_bnd s1_def [symmetric] s2_def [symmetric] split: sum.splits)
  qed
  then show ?thesis unfolding s'_def [symmetric] using 1 2 3 acks_kept_trans by blast
qed

lemma preserves_drain [simp]: "preserves gw_pages (drain_dead_letters en limit)"
proof -
  have one: "preserves gw_pages (drain_one en ch m)" for ch m
    unfolding drain_one_def record_gap_op_def Let_def
    by (auto intro!: preserves_bnd simp: preserves_def [of gw_pages "modify _"] modify_def split: prod.splits)
  have "preserves gw_pages (drain_loop en ch k found)" for ch k found
    by (induction k arbitrary: found) (auto intro!: preserves_bnd one split: broker_reply.splits)
  then show ?thesis unfolding drain_dead_letters_def by (auto intro!: preserves_bnd)
qed

lemma drain_spares:
  assumes "fresh_channels (en_broker en)"
  shows "emits_at (spares (created (en_broker en) (gw_log s))) (drain_dead_letters en limit) s"
proof -
  have "emits (spares C) (drain_one en ch m)" if "ch \<notin> C" for C ch m
  proof -
    have "emits (spares C) (record_gap_op en n p c v r g)" for n p c v r g
      by (simp add: record_gap_op_def emits_def modify_def)
    then show ?thesis using that unfolding drain_one_def Let_def
      by (auto intro!: emits_bnd emits_send_ok simp: spares_def split: prod.splits)
  qed
  then have "emits (spares C) (drain_loop en ch k found)" if "ch \<notin> C" for C ch k found
    using that by (induction k arbitrary: found)
      (auto intro!: emits_bnd simp: emits_send spares_def split: broker_reply.splits)
  moreover have "ch \<notin> created (en_broker en) (gw_log s)" if "fst (create_channel en s) = Inr ch" for ch
    using create_channel_fresh(1) [OF assms, of s ch "snd (create_channel en s)"] that
    by (metis prod.collapse)
  ultimately show ?thesis unfolding drain_dead_letters_def
    by (intro emits_at_bnd emits_imp_at emits_create_channel) (simp_all add: spares_def)
qed

subsection \<open>The operations of an adapter\<close>

datatype mailbox_op =
    DeclareInfrastructure
  | EnsureMailboxes string string
  | BindMember string string string string
  | UnbindMember string string string string
  | PublishRecord "string option" broker_record
  | PublishControl broker_control_record
  | PullPage string string delivery_class string string nat
  | CommitPage string string delivery_class string
  | AbandonPage string
  | ReapExpired
  | DrainDeadLetters nat

fun mailbox_exec :: "env \<Rightarrow> mailbox_op \<Rightarrow> gw \<Rightarrow> gw" where
  "mailbox_exec en DeclareInfrastructure s = snd (declare_infrastructure en s)"
| "mailbox_exec en (EnsureMailboxes n p) s = snd (ensure_tenant_mailboxes en n p s)"
| "mailbox_exec en (BindMember n p a v) s = snd (bind_scope_member en n p a v s)"
| "mailbox_exec en (UnbindMember n p a v) s = snd (unbind_scope_member en n p a v s)"
| "mailbox_exec en (PublishRecord rcpt r) s = snd (rabbit_publish en rcpt r s)"
| "mailbox_exec en (PublishControl c) s = snd (publish_control en c s)"
| "mailbox_exec en (PullPage n p c page e limit) s = snd (pull_page en n p c page e limit s)"
| "mailbox_exec en (CommitPage page p c e) s = snd (rabbit_commit_page en page p c e s)"
| "mailbox_exec en (AbandonPage page) s = snd (abandon_page en page s)"
| "mailbox_exec en ReapExpired s = snd (reap_expired_pages en s)"
| "mailbox_exec en (DrainDeadLetters limit) s = snd (drain_dead_letters en limit s)"

text \<open>Any operation, at any time, with any database the other parts of the gateway left.\<close>

inductive mailbox_step ::
  "(broker_cmd list \<Rightarrow> broker_cmd \<Rightarrow> broker_reply) \<Rightarrow> mailbox_op \<Rightarrow> gw \<Rightarrow> gw \<Rightarrow> bool" for B where
  step: "en_broker en = B \<Longrightarrow> mailbox_step B op s (mailbox_exec en op (s\<lparr>gw_db := d\<rparr>))"

inductive mailbox_reachable :: "(broker_cmd list \<Rightarrow> broker_cmd \<Rightarrow> broker_reply) \<Rightarrow> gw \<Rightarrow> bool" for B where
  start: "gw_log s = [] \<Longrightarrow> gw_pages s = [] \<Longrightarrow> mailbox_reachable B s"
| next_op: "mailbox_reachable B s \<Longrightarrow> mailbox_step B op s s' \<Longrightarrow> mailbox_reachable B s'"

inductive_cases mailbox_stepE: "mailbox_step B op s s'"

lemma abandon_page_ok:
  assumes "pages_ok B s"
  shows "pages_ok B (snd (abandon_page en k s)) \<and> acks_kept B s (snd (abandon_page en k s))"
proof (cases "map_of (gw_pages s) k")
  case None
  then have eq: "snd (abandon_page en k s) = s\<lparr>gw_pages := page_delete k (gw_pages s)\<rparr>"
    by (simp add: abandon_page_def bnd_def take_page_eq ret_def)
  show ?thesis unfolding eq using pages_ok_delete [OF assms] by (simp add: acks_kept_def)
next
  case (Some p)
  then have eq: "snd (abandon_page en k s) = s\<lparr>gw_pages := page_delete k (gw_pages s),
      gw_log := gw_log s @ [CloseChannel (pg_channel p) 500 ''test or owner shutdown'']\<rparr>"
    by (auto simp: abandon_page_def bnd_def take_page_eq ret_def send_ok_def send_def raise_def
        split: broker_reply.splits)
  have "pages_ok B (snd (abandon_page en k s))"
    unfolding eq using map_of_SomeD [OF Some]
    by (intro pages_ok_remove [OF assms, where P = "\<lambda>e. fst e \<noteq> k"
        and cs = "[CloseChannel (pg_channel p) 500 ''test or owner shutdown'']"])
      (auto simp: page_delete_def intro!: bexI [of _ "(k, p)"])
  then show ?thesis by (simp add: eq acks_kept_def)
qed

lemma commit_page_ok:
  assumes "pages_ok B s"
  shows "pages_ok B (snd (rabbit_commit_page en k q c e s))"
  using commit_page_cases [of s k en q c e]
proof (elim disjE exE conjE)
  fix p ts rest
  assume p: "map_of (gw_pages s) k = Some p"
    and rest: "set rest \<subseteq> {CloseChannel (pg_channel p) 200 ''mailbox page committed''}"
    and eq: "snd (rabbit_commit_page en k q c e s) = s\<lparr>gw_pages := page_delete k (gw_pages s),
       gw_log := gw_log s @ map (BasicAck (pg_channel p)) ts @ rest\<rparr>"
  show ?thesis unfolding eq using map_of_SomeD [OF p] rest
    by (intro pages_ok_remove [OF assms, where P = "\<lambda>e. fst e \<noteq> k"
        and cs = "map (BasicAck (pg_channel p)) ts @ rest"])
      (auto simp: page_delete_def intro!: bexI [of _ "(k, p)"])
qed (use pages_ok_delete [OF assms] in auto)

lemma mailbox_exec_ok:
  assumes B: "fresh_channels (en_broker en)" "fresh_tags (en_broker en)" and ok: "pages_ok (en_broker en) s"
  shows "pages_ok (en_broker en) (mailbox_exec en op s)
    \<and> ((\<nexists>k q c e. op = CommitPage k q c e) \<longrightarrow> acks_kept (en_broker en) s (mailbox_exec en op s))"
proof -
  have quiet: "pages_ok (en_broker en) (snd (m s)) \<and> acks_kept (en_broker en) s (snd (m s))"
    if "emits (\<lambda>c. settled c = None) m" "preserves gw_pages m" for m :: "'a op"
    using pages_ok_at [OF ok emits_unsettled that(2)] acks_kept_at [OF emits_unsettled] that(1) by blast
  have drain: "pages_ok (en_broker en) (snd (drain_dead_letters en limit s))
      \<and> acks_kept (en_broker en) s (snd (drain_dead_letters en limit s))" for limit
    using pages_ok_at [OF ok drain_spares [OF B(1)]] acks_kept_at [OF drain_spares [OF B(1)]] by simp
  have reap: "pages_ok (en_broker en) (snd (reap_expired_pages en s))
      \<and> acks_kept (en_broker en) s (snd (reap_expired_pages en s))"
    using close_pages_ok [OF ok, of en "page_expired en"] acks_kept_close [of "en_broker en" s en "page_expired en"]
      pages_ok_cong [OF snd_reap_expired(2,1)] by (simp add: acks_kept_def snd_reap_expired)
  show ?thesis
    by (cases op) (simp_all add: quiet drain reap pull_page_ok [OF B ok] commit_page_ok [OF ok] abandon_page_ok [OF ok])
qed

lemma reachable_pages_ok:
  assumes "fresh_channels B" "fresh_tags B" and "mailbox_reachable B s"
  shows "pages_ok B s"
  using assms(3)
proof induction
  case (start s)
  then show ?case by (simp add: pages_ok_def)
next
  case (next_op s op s')
  then obtain en d where "en_broker en = B" "s' = mailbox_exec en op (s\<lparr>gw_db := d\<rparr>)"
    by (auto elim: mailbox_stepE)
  moreover have "pages_ok B (s\<lparr>gw_db := d\<rparr>)" using next_op.IH by (simp add: pages_ok_def)
  ultimately show ?case using mailbox_exec_ok assms(1,2) by blast
qed

subsection \<open>Acknowledged only by a commit\<close>

lemma page_channel_unique:
  "pages_ok B s \<Longrightarrow> (k, p) \<in> set (gw_pages s) \<Longrightarrow> (k', p') \<in> set (gw_pages s)
   \<Longrightarrow> pg_channel p = pg_channel p' \<Longrightarrow> k = k' \<and> p = p'"
  unfolding pages_ok_def distinct_map inj_on_def comp_def by (metis prod.inject snd_conv)

lemma commit_page_acks:
  assumes "pages_ok B s" and "(k, p) \<in> set (gw_pages s)" and "BasicAck (pg_channel p) t \<notin> set (gw_log s)"
    and "BasicAck (pg_channel p) t \<in> set (gw_log (snd (rabbit_commit_page en k' q c e s)))"
  shows "k' = k \<and> q = pg_principal_id p \<and> c = pg_delivery_class p \<and> e = pg_consumer_epoch p"
  using commit_page_cases [of s k' en q c e]
proof (elim disjE exE conjE)
  fix p' ts rest
  assume "map_of (gw_pages s) k' = Some p'" and own: "pg_principal_id p' = q" "pg_delivery_class p' = c"
    "pg_consumer_epoch p' = e" and "set rest \<subseteq> {CloseChannel (pg_channel p') 200 ''mailbox page committed''}"
    and "snd (rabbit_commit_page en k' q c e s) = s\<lparr>gw_pages := page_delete k' (gw_pages s),
       gw_log := gw_log s @ map (BasicAck (pg_channel p')) ts @ rest\<rparr>"
  then have "(k', p') \<in> set (gw_pages s)" "pg_channel p = pg_channel p'"
    using assms(3,4) by (auto dest: map_of_SomeD)
  with page_channel_unique [OF assms(1,2)] own show ?thesis by blast
qed (use assms(3,4) in auto)

text \<open>
  C9. A delivery on a pending page is acknowledged to the broker only by a commit of that page. In every
  state an adapter can reach, whatever pages were pulled, committed, abandoned, reaped or drained before,
  the channel of a pending page is open and none of its deliveries is acknowledged; and if the next
  operation acknowledges one of them, it is a commit that names the page and presents its principal, its
  delivery class and its consumer epoch. Everything else leaves the deliveries to be redelivered.
\<close>

theorem page_unacknowledged_until_commit:
  assumes "fresh_channels B" "fresh_tags B" and "mailbox_reachable B s" and "(k, p) \<in> set (gw_pages s)"
  shows "(\<forall>t\<in>set (pg_delivery_tags p). BasicAck (pg_channel p) t \<notin> set (gw_log s))
    \<and> (\<forall>code m. CloseChannel (pg_channel p) code m \<notin> set (gw_log s))
    \<and> (\<forall>op s' t. mailbox_step B op s s' \<longrightarrow> t \<in> set (pg_delivery_tags p)
         \<longrightarrow> BasicAck (pg_channel p) t \<in> set (gw_log s')
         \<longrightarrow> op = CommitPage k (pg_principal_id p) (pg_delivery_class p) (pg_consumer_epoch p))"
proof -
  have ok: "pages_ok B s" by (rule reachable_pages_ok [OF assms(1-3)])
  then have po: "page_open (gw_log s) p" and ch: "pg_channel p \<in> created B (gw_log s)"
    using assms(4) by (auto simp: pages_ok_def)
  have "op = CommitPage k (pg_principal_id p) (pg_delivery_class p) (pg_consumer_epoch p)"
    if st: "mailbox_step B op s s'" and t: "t \<in> set (pg_delivery_tags p)"
      and ack: "BasicAck (pg_channel p) t \<in> set (gw_log s')" for op s' t
  proof -
    obtain en d where en: "en_broker en = B" "s' = mailbox_exec en op (s\<lparr>gw_db := d\<rparr>)"
      using st by (auto elim: mailbox_stepE)
    let ?s = "s\<lparr>gw_db := d\<rparr>"
    have ok': "pages_ok B ?s" and old: "BasicAck (pg_channel p) t \<notin> set (gw_log ?s)"
      using ok po t by (auto simp: pages_ok_def page_open_def)
    have "\<exists>k q c e. op = CommitPage k q c e"
    proof (rule ccontr)
      assume "\<not> ?thesis"
      then have "acks_kept B ?s s'"
        using mailbox_exec_ok [of en ?s op] en assms(1,2) ok' by auto
      with ch ack old show False by (auto simp: acks_kept_def)
    qed
    then obtain k' q c e where op: "op = CommitPage k' q c e" by blast
    show ?thesis
      using commit_page_acks [OF ok' _ old, of k en k' q c e] assms(4) ack by (simp add: op en)
  qed
  then show ?thesis using po by (auto simp: page_open_def)
qed

text \<open>
  C25. A commit acknowledges exactly its page, once. When it succeeds it sent one acknowledgement per
  delivery of the page, in order, and closed the channel; a commit of an unknown page, or with another
  principal, class or epoch than the page's, acknowledges nothing. In every case the page is gone
  afterwards, and committing it again finds nothing.
\<close>

theorem commit_acknowledges_page:
  assumes "rabbit_commit_page en k q c e s = (r, s')"
  shows "(\<forall>n. r = Inr (Some n) \<longrightarrow> (\<exists>p. map_of (gw_pages s) k = Some p
        \<and> pg_principal_id p = q \<and> pg_delivery_class p = c \<and> pg_consumer_epoch p = e
        \<and> n = length (pg_delivery_tags p)
        \<and> gw_log s' = gw_log s @ map (BasicAck (pg_channel p)) (pg_delivery_tags p)
            @ [CloseChannel (pg_channel p) 200 ''mailbox page committed'']))
    \<and> (map_of (gw_pages s) k = None \<longrightarrow> r = Inr None \<and> gw_log s' = gw_log s)
    \<and> (\<forall>p. map_of (gw_pages s) k = Some p \<longrightarrow>
        \<not> (pg_principal_id p = q \<and> pg_delivery_class p = c \<and> pg_consumer_epoch p = e) \<longrightarrow>
        (\<exists>m. r = Inl m) \<and> gw_log s' = gw_log s)
    \<and> map_of (gw_pages s') k = None \<and> gw_db s' = gw_db s
    \<and> (\<forall>en' q' c' e'. rabbit_commit_page en' k q' c' e' s' = (Inr None, s'))"
proof -
  have pages: "gw_pages s' = page_delete k (gw_pages s)" "gw_db s' = gw_db s"
    using commit_page_cases [of s k en q c e] assms by auto
  have del: "map_of (page_delete k m) k = None" for m by (induction m) (auto simp: page_delete_def)
  have gone: "map_of (gw_pages s') k = None" "page_delete k (gw_pages s') = gw_pages s'"
    by (simp_all add: pages del) (simp add: page_delete_def)
  have again: "rabbit_commit_page en' k q' c' e' s' = (Inr None, s')" for en' q' c' e'
    using gone by (simp add: rabbit_commit_page_def bnd_def take_page_eq ret_def)
  have "\<exists>p. map_of (gw_pages s) k = Some p
        \<and> pg_principal_id p = q \<and> pg_delivery_class p = c \<and> pg_consumer_epoch p = e
        \<and> n = length (pg_delivery_tags p)
        \<and> gw_log s' = gw_log s @ map (BasicAck (pg_channel p)) (pg_delivery_tags p)
            @ [CloseChannel (pg_channel p) 200 ''mailbox page committed'']" if "r = Inr (Some n)" for n
    using assms that
    by (auto simp: rabbit_commit_page_def bnd_Inr take_page_eq send_ok_Inr ret_def raise_def
        split: option.splits if_splits dest!: for_each_send_ok_Inr)
  moreover have "r = Inr None \<and> gw_log s' = gw_log s" if "map_of (gw_pages s) k = None"
    using assms that by (auto simp: rabbit_commit_page_def bnd_def take_page_eq ret_def)
  moreover have "(\<exists>m. r = Inl m) \<and> gw_log s' = gw_log s" if "map_of (gw_pages s) k = Some p"
    "\<not> (pg_principal_id p = q \<and> pg_delivery_class p = c \<and> pg_consumer_epoch p = e)" for p
    using assms that by (auto simp: rabbit_commit_page_def bnd_def take_page_eq raise_def split: if_splits)
  ultimately show ?thesis using gone(1) again pages(2) by blast
qed

definition sample_message :: "u64 \<Rightarrow> string \<Rightarrow> broker_message" where
  "sample_message tag author = \<lparr>bm_delivery_tag = tag, bm_redelivered = False,
     bm_envelope = Some (Record (sample_record author)), bm_data_len = 10, bm_headers = []\<rparr>"

text \<open>A mailbox of \<open>bob\<close> with a record of his own between two of \<open>alice\<close>.\<close>

definition bob_mailbox :: env where
  "bob_mailbox = sample_env [sample_message 1 ''alice'', sample_message 2 ''bob'', sample_message 3 ''alice''] []"

definition bob_pulled :: gw where
  "bob_pulled = snd (pull_page bob_mailbox ''net'' ''bob'' Interactive ''page'' ''epoch''
     (Suc (Suc (Suc (Suc 0)))) (sample_gw empty_db))"

lemmas run_simps = with_binding_metric_def create_channel_def send_ok_def send_def op_defs
  sample_broker_def all_classes_def Let_def deadline_def is_next_def is_get_def named_sum_def

lemma bob_pulled_pages:
  "gw_pages bob_pulled = [(''page'', \<lparr>pg_channel = 5, pg_delivery_tags = [1, 3], pg_network_id = ''net'',
     pg_principal_id = ''bob'', pg_delivery_class = Interactive, pg_consumer_epoch = ''epoch'',
     pg_opened_at = 1000000, pg_oldest_enqueued_at = 5\<rparr>)]"
  by (simp add: bob_pulled_def bob_mailbox_def run_simps sample_message_def pull_page_def fetch_messages_def
      abandon_expired_pages_def close_pages_def ensure_tenant_mailboxes_def sample_env_def sample_gw_def)
    (simp add: open_page_def run_simps sort_message_def delivery_of_def sample_externs_def take_page_def
      page_insert_def no_contents_def)

lemma bob_reachable: "mailbox_reachable (en_broker bob_mailbox) bob_pulled"
proof -
  have "mailbox_step (en_broker bob_mailbox) (PullPage ''net'' ''bob'' Interactive ''page'' ''epoch''
      (Suc (Suc (Suc (Suc 0))))) (sample_gw empty_db) bob_pulled"
    using mailbox_step.step [OF refl, of bob_mailbox "PullPage ''net'' ''bob'' Interactive ''page'' ''epoch''
      (Suc (Suc (Suc (Suc 0))))" "sample_gw empty_db" empty_db]
    by (simp add: bob_pulled_def sample_gw_def)
  moreover have "mailbox_reachable (en_broker bob_mailbox) (sample_gw empty_db)"
    by (rule mailbox_reachable.start) simp_all
  ultimately show ?thesis by (rule mailbox_reachable.next_op [rotated])
qed

lemma bob_broker: "fresh_channels (en_broker bob_mailbox)" "fresh_tags (en_broker bob_mailbox)"
  by (simp_all add: bob_mailbox_def sample_broker_channels sample_broker_tags sample_message_def)

theorem page_unacknowledged_until_commit_witness:
  "\<exists>p. gw_pages bob_pulled = [(''page'', p)] \<and> pg_delivery_tags p = [1, 3]
     \<and> BasicAck (pg_channel p) 1 \<notin> set (gw_log bob_pulled)
     \<and> (\<forall>op s'. mailbox_step (en_broker bob_mailbox) op bob_pulled s'
          \<longrightarrow> BasicAck (pg_channel p) 3 \<in> set (gw_log s')
          \<longrightarrow> op = CommitPage ''page'' ''bob'' Interactive ''epoch'')"
  using page_unacknowledged_until_commit [OF bob_broker bob_reachable, of "''page''" "snd (hd (gw_pages bob_pulled))"]
  by (simp add: bob_pulled_pages)

theorem commit_acknowledges_page_witness:
  "\<exists>s'. rabbit_commit_page bob_mailbox ''page'' ''bob'' Interactive ''epoch'' bob_pulled = (Inr (Some 2), s')
     \<and> gw_log s' = gw_log bob_pulled @ [BasicAck 5 1, BasicAck 5 3, CloseChannel 5 200 ''mailbox page committed'']
     \<and> rabbit_commit_page bob_mailbox ''page'' ''bob'' Interactive ''epoch'' s' = (Inr None, s')"
proof -
  obtain s' where s': "rabbit_commit_page bob_mailbox ''page'' ''bob'' Interactive ''epoch'' bob_pulled
      = (Inr (Some 2), s')"
    by (simp add: rabbit_commit_page_def take_page_eq bob_pulled_pages bob_mailbox_def run_simps sample_env_def)
  from commit_acknowledges_page [OF s'] s' show ?thesis by (auto simp: bob_pulled_pages)
qed

end
