(* ===== verification/Dead_Letters.thy ===== *)
theory Dead_Letters
  imports Delivery_Pages
begin

text \<open>
  Nothing is lost silently: a delivery page accounts for every message fetched for it, and the drain of
  the dead-letter queue acknowledges a dead letter only after its loss is recorded in the database.
\<close>

section \<open>What a page lists\<close>

definition listed_records :: "string \<Rightarrow> broker_message list \<Rightarrow> broker_record list" where
  "listed_records p ms = List.map_filter (\<lambda>m. case bm_envelope m of
     Some (Record r) \<Rightarrow> if br_source_principal_id r = p then None else Some r | _ \<Rightarrow> None) ms"

definition listed_controls :: "broker_message list \<Rightarrow> broker_control_record list" where
  "listed_controls ms = List.map_filter (\<lambda>m. case bm_envelope m of Some (Control c) \<Rightarrow> Some c | _ \<Rightarrow> None) ms"

lemma listed_Cons:
  "listed_records p (m # ms) = listed_records p [m] @ listed_records p ms"
  "listed_controls (m # ms) = listed_controls [m] @ listed_controls ms"
  by (simp_all add: listed_records_def listed_controls_def map_filter_simps split: option.splits)

lemma sort_message_contents:
  assumes "sort_message en ch n p c m acc s = (Inr acc', s')"
  shows "map Inr (pc_deliveries acc') = map Inr (pc_deliveries acc)
      @ map (delivery_of (en_x en) n p) (listed_records p [m])"
    and "map Inr (pc_controls acc') = map Inr (pc_controls acc)
      @ map (control_of (en_x en) n p) (listed_controls [m])"
  using assms
  by (auto simp: sort_message_def listed_records_def listed_controls_def map_filter_simps Let_def bnd_Inr
      ret_def raise_def lift_res_def split: option.splits broker_envelope.splits if_splits)

lemma sort_messages_contents:
  assumes "sort_messages en ch n p c ms acc s = (Inr acc', s')"
  shows "map Inr (pc_deliveries acc') = map Inr (pc_deliveries acc)
      @ map (delivery_of (en_x en) n p) (listed_records p ms)
    \<and> map Inr (pc_controls acc') = map Inr (pc_controls acc)
      @ map (control_of (en_x en) n p) (listed_controls ms)"
  using assms
proof (induction ms arbitrary: acc s)
  case Nil
  then show ?case by (simp add: ret_def listed_records_def listed_controls_def map_filter_simps)
next
  case (Cons m ms)
  then obtain acc1 s1 where 1: "sort_message en ch n p c m acc s = (Inr acc1, s1)"
    and 2: "sort_messages en ch n p c ms acc1 s1 = (Inr acc', s')" by (auto simp: bnd_Inr)
  show ?case
    using Cons.IH [OF 2] sort_message_contents [OF 1]
    by (simp add: listed_Cons(1) [of p m ms] listed_Cons(2) [of m ms])
qed

lemma open_page_contents:
  assumes "open_page en n p c page epoch ch ms s = (Inr (Some pp), s')"
  shows "map Inr (pp_deliveries pp) = map (delivery_of (en_x en) n p) (listed_records p ms)
    \<and> map Inr (pp_controls pp) = map (control_of (en_x en) n p) (listed_controls ms)"
proof -
  obtain acc s1 where "sort_messages en ch n p c ms no_contents s = (Inr acc, s1)"
    "pp_deliveries pp = pc_deliveries acc" "pp_controls pp = pc_controls acc"
    using assms
    by (auto simp: open_page_def bnd_Inr ret_def modify_def observed_def take_page_eq split: if_splits)
  with sort_messages_contents [OF this(1)] show ?thesis by simp
qed

lemma is_next_simps [simp]:
  "is_next (ConsumerNext ch)" "\<not> is_next (BasicAck ch t)" "\<not> is_next (CloseChannel ch code m)"
  by (simp_all add: is_next_def)

lemma quiet_fetched: "(\<And>x. x \<in> set cs \<Longrightarrow> \<not> is_next x) \<Longrightarrow> fetched B pre cs ch = []"
  by (rule fetched_none) (metis is_next_simps(1))

lemma abandon_expired_log:
  assumes "abandon_expired_pages en n p c s = (r, s')"
  shows "\<exists>cs. gw_log s' = gw_log s @ cs \<and> (\<forall>x\<in>set cs. \<not> is_next x \<and> (\<forall>h t. x \<noteq> BasicAck h t))"
proof -
  let ?P = "\<lambda>q. pg_network_id q = n \<and> pg_principal_id q = p \<and> pg_delivery_class q = c \<and> page_expired en q"
  have "s' = snd (close_pages en ?P s)" using snd_abandon_expired [of en n p c s] assms by simp
  moreover obtain cs where 1: "snd (close_pages en ?P s)
      = s\<lparr>gw_pages := filter (\<lambda>e. \<not> ?P (snd e)) (gw_pages s), gw_log := gw_log s @ cs\<rparr>"
    and 2: "\<forall>x\<in>set cs. \<exists>e\<in>set (gw_pages s). ?P (snd e)
      \<and> x = CloseChannel (pg_channel (snd e)) 500 ''mailbox page owner lease expired''"
    using close_pages_log [of en ?P s] by blast
  moreover have "\<not> is_next x \<and> (\<forall>h t. x \<noteq> BasicAck h t)" if "x \<in> set cs" for x
    using bspec [OF 2 that] by auto
  ultimately show ?thesis by (intro exI [of _ cs]) simp
qed

lemma emits_no_next:
  "emits (\<lambda>x. \<not> is_next x \<and> settled x = None) (ensure_tenant_mailboxes en n p)"
  unfolding ensure_tenant_mailboxes_def by (auto intro!: frame_intros simp: Let_def is_next_def)

text \<open>
  A page accounts for every message fetched for it. When \<open>pull_page\<close> returns a page, the messages
  its consumer was handed are, in order, exactly the records and controls listed on the page, apart from
  records the principal published itself; those alone were acknowledged, and the pending page holds the
  delivery tags of all the others.
\<close>

theorem page_accounts_for_messages:
  assumes "pull_page en n p c page epoch limit s = (Inr (Some pp), s')"
  shows "\<exists>q cs. gw_log s' = gw_log s @ cs \<and> map_of (gw_pages s') page = Some q
    \<and> (let ms = fetched (en_broker en) (gw_log s) cs (pg_channel q) in
       map Inr (pp_deliveries pp) = map (delivery_of (en_x en) n p) (listed_records p ms)
       \<and> map Inr (pp_controls pp) = map (control_of (en_x en) n p) (listed_controls ms)
       \<and> pg_delivery_tags q = map bm_delivery_tag (filter (\<lambda>m. \<not> own_message p m) ms)
       \<and> {t. BasicAck (pg_channel q) t \<in> set cs} = bm_delivery_tag ` {m \<in> set ms. own_message p m})"
proof -
  obtain u1 s1 u2 s2 ch ms s3 where
    a: "abandon_expired_pages en n p c s = (Inr u1, s1)"
    and e: "ensure_tenant_mailboxes en n p s1 = (Inr u2, s2)"
    and f: "fetch_messages en n p c page limit s2 = (Inr (ch, ms), s3)"
    and o: "open_page en n p c page epoch ch ms s3 = (Inr (Some pp), s')"
    using assms by (auto simp: pull_page_def bnd_Inr ret_def split: if_splits)
  obtain c1 where c1: "gw_log s1 = gw_log s @ c1" "\<And>x. x \<in> set c1 \<Longrightarrow> \<not> is_next x \<and> (\<forall>h t. x \<noteq> BasicAck h t)"
    using abandon_expired_log [OF a] by blast
  obtain c2 where c2: "gw_log s2 = gw_log s1 @ c2" "\<And>x. x \<in> set c2 \<Longrightarrow> \<not> is_next x \<and> settled x = None"
    using emitsD [OF emits_no_next e] by (auto simp: list_all_iff)
  obtain k pre post where c3: "gw_log s3 = gw_log s2 @ pre @ replicate k (ConsumerNext ch) @ post"
    and ms: "fetched (en_broker en) (gw_log s2 @ pre) (replicate k (ConsumerNext ch)) ch = ms"
    and quiet: "\<And>x. x \<in> set (pre @ post) \<Longrightarrow> settled x = None \<and> \<not> is_next x"
    using fetch_messages_Inr [OF f] by blast
  obtain q where q: "gw_pages s' = page_insert page q (gw_pages s3)" "pg_channel q = ch"
    "pg_delivery_tags q = map bm_delivery_tag (filter (\<lambda>m. \<not> own_message p m) ms)"
    "gw_log s' = gw_log s3 @ map (\<lambda>m. BasicAck ch (bm_delivery_tag m)) (filter (own_message p) ms)"
    using open_page_cases [OF o] by blast
  let ?acks = "map (\<lambda>m. BasicAck ch (bm_delivery_tag m)) (filter (own_message p) ms)"
  define cs where "cs = (c1 @ c2 @ pre) @ replicate k (ConsumerNext ch) @ post @ ?acks"
  have log: "gw_log s' = gw_log s @ cs" by (simp add: cs_def q c3 c2 c1)
  have none: "fetched B pre' (c1 @ c2 @ pre) ch = []" "fetched B pre' (post @ ?acks) ch = []" for B pre'
    using c1(2) c2(2) quiet by (auto intro!: quiet_fetched)
  have "fetched (en_broker en) (gw_log s) cs ch = ms"
    unfolding cs_def fetched_append [of _ _ "c1 @ c2 @ pre"] fetched_append [of _ _ "replicate k (ConsumerNext ch)"]
    using ms by (simp add: none c1(1) c2(1))
  moreover have "{t. BasicAck ch t \<in> set cs} = bm_delivery_tag ` {m \<in> set ms. own_message p m}"
  proof -
    have "BasicAck ch t \<notin> set c1" "BasicAck ch t \<notin> set c2" "BasicAck ch t \<notin> set (pre @ post)" for t
      using c1(2) c2(2) [of "BasicAck ch t"] quiet [of "BasicAck ch t"] by auto
    then show ?thesis unfolding cs_def by auto
  qed
  moreover have "map_of (gw_pages s') page = Some q" by (simp add: q page_insert_def)
  ultimately show ?thesis using log q(2,3) open_page_contents [OF o] by (auto simp: Let_def)
qed

lemma bob_pull_result:
  "\<exists>pp. fst (pull_page bob_mailbox ''net'' ''bob'' Interactive ''page'' ''epoch''
     (Suc (Suc (Suc (Suc 0)))) (sample_gw empty_db)) = Inr (Some pp)"
  by (simp add: bob_mailbox_def run_simps sample_message_def pull_page_def fetch_messages_def
      abandon_expired_pages_def close_pages_def ensure_tenant_mailboxes_def sample_env_def sample_gw_def)
    (simp add: open_page_def run_simps sort_message_def delivery_of_def sample_externs_def take_page_def
      page_insert_def no_contents_def)

theorem page_accounts_for_messages_witness:
  "\<exists>pp q cs. pull_page bob_mailbox ''net'' ''bob'' Interactive ''page'' ''epoch''
      (Suc (Suc (Suc (Suc 0)))) (sample_gw empty_db) = (Inr (Some pp), bob_pulled)
    \<and> gw_log bob_pulled = cs \<and> gw_pages bob_pulled = [(''page'', q)]
    \<and> map bm_delivery_tag (filter (\<lambda>m. \<not> own_message ''bob'' m)
         (fetched (en_broker bob_mailbox) [] cs (pg_channel q))) = [1, 3]"
proof -
  obtain pp where pp: "pull_page bob_mailbox ''net'' ''bob'' Interactive ''page'' ''epoch''
      (Suc (Suc (Suc (Suc 0)))) (sample_gw empty_db) = (Inr (Some pp), bob_pulled)"
    using bob_pull_result unfolding bob_pulled_def by (metis prod.collapse)
  from page_accounts_for_messages [OF pp] show ?thesis
    by (auto simp: pp Let_def bob_pulled_pages)
qed

section \<open>Draining dead letters\<close>

definition losses :: "db \<Rightarrow> nat" where
  "losses d = sum_list (map gg_count (t_gaps d))"

text \<open>A dead letter of a record its mailbox's principal published itself.\<close>

definition own_letter :: "externs \<Rightarrow> broker_message \<Rightarrow> bool" where
  "own_letter E m \<longleftrightarrow> (case (bm_envelope m, header_string ''x-first-death-queue'' m) of
     (Some (Record r), Some queue) \<Rightarrow>
       principal_from_queue_name E queue (br_network_id r) = Some (br_source_principal_id r)
   | _ \<Rightarrow> False)"

definition letters ::
  "(broker_cmd list \<Rightarrow> broker_cmd \<Rightarrow> broker_reply) \<Rightarrow> broker_cmd list \<Rightarrow> broker_cmd list \<Rightarrow> broker_message list" where
  "letters B pre cs = concat (map (\<lambda>(c, r). case r of
      ReplyMessage m \<Rightarrow> if is_get c then [m] else [] | _ \<Rightarrow> []) (trace B pre cs))"

definition is_ack :: "broker_cmd \<Rightarrow> bool" where
  "is_ack c = (case c of BasicAck _ _ \<Rightarrow> True | _ \<Rightarrow> False)"

lemma letters_append: "letters B pre (cs @ ds) = letters B pre cs @ letters B (pre @ cs) ds"
  by (simp add: letters_def trace_append)

lemma letters_ack: "letters B pre [BasicAck ch t] = []"
  by (simp add: letters_def is_get_def split: broker_reply.splits)

lemma record_gap_losses:
  assumes "pk gap_key (t_gaps d)"
  shows "pk gap_key (t_gaps (snd (record_gap E now n p c v r g ms d)))"
    and "losses (snd (record_gap E now n p c v r g ms d)) = Suc (losses d)"
  using gap_exec_count [OF assms, of E "RecordGap now n p c v r g ms"] by (simp_all add: losses_def recorded_def)

text \<open>What one letter does, whatever the broker answers.\<close>

lemma drain_one_effect:
  assumes "drain_one en ch m s = (r, s')" and "pk gap_key (t_gaps (gw_db s))"
  shows "\<exists>cs. gw_log s' = gw_log s @ cs \<and> (cs = [] \<or> cs = [BasicAck ch (bm_delivery_tag m)])
    \<and> length cs + losses (gw_db s) \<le> losses (gw_db s') + (if own_letter (en_x en) m then 1 else 0)
    \<and> losses (gw_db s) \<le> losses (gw_db s') \<and> pk gap_key (t_gaps (gw_db s'))
    \<and> (\<forall>b. r = Inr b \<longrightarrow> length cs = 1 \<and> losses (gw_db s') = losses (gw_db s) + (if b then 1 else 0))"
proof -
  note rg = record_gap_losses [OF assms(2)]
  show ?thesis
  proof (cases "bm_envelope m")
    case None
    then show ?thesis using assms by (auto simp: drain_one_def bnd_def lift_res_def)
  next
    case (Some e)
    obtain n src rt cl pol where f: "envelope_gap_fields e = (n, src, rt, cl, pol)"
      by (cases "envelope_gap_fields e") auto
    let ?q = "header_string ''x-first-death-queue'' m"
    show ?thesis
    proof (cases "Option.bind ?q (\<lambda>q. principal_from_queue_name (en_x en) q n)")
      case None
      then show ?thesis using assms Some f
        by (auto simp: drain_one_def bnd_def lift_res_def Let_def or_err_def split: option.splits)
    next
      case (Some p)
      note p = this
      show ?thesis
      proof (cases "src = Some p")
        case True
        then have own: "own_letter (en_x en) m" using p f \<open>bm_envelope m = Some e\<close>
          by (auto simp: own_letter_def envelope_gap_fields_def split: option.splits broker_envelope.splits bind_splits)
        have "gw_log s' = gw_log s @ [BasicAck ch (bm_delivery_tag m)] \<and> gw_db s' = gw_db s \<and> (\<forall>b. r = Inr b \<longrightarrow> \<not> b)"
          using assms(1) True p f \<open>bm_envelope m = Some e\<close>
          by (auto simp: drain_one_def bnd_def lift_res_def Let_def ret_def send_ok_def send_def raise_def
              split: option.splits bind_splits broker_reply.splits)
        then show ?thesis using own assms(2) by (intro exI [of _ "[BasicAck ch (bm_delivery_tag m)]"]) auto
      next
        case False
        define g where "g = (if (case header_string ''x-first-death-reason'' m of None \<Rightarrow> ''delivery_limit''
            | Some r \<Rightarrow> r) = ''expired'' then Expired else DeliveryLimitExceeded)"
        have "gw_log s' = gw_log s @ [BasicAck ch (bm_delivery_tag m)]
            \<and> gw_db s' = snd (record_gap (en_x en) (en_now en) n p cl pol rt g (timestamp_ms (en_now en)) (gw_db s))
            \<and> (\<forall>b. r = Inr b \<longrightarrow> b)"
          using assms(1) False p f \<open>bm_envelope m = Some e\<close>
          by (auto simp: drain_one_def bnd_def lift_res_def Let_def ret_def send_ok_def send_def raise_def
              record_gap_op_def modify_def observed_def g_def split: option.splits bind_splits broker_reply.splits if_splits)
        then show ?thesis using rg by (intro exI [of _ "[BasicAck ch (bm_delivery_tag m)]"]) auto
      qed
    qed
  qed
qed

text \<open>The effect of the drain loop: \<open>k\<close> losses recorded, and no more acknowledgements than those and own letters.\<close>

definition drained :: "env \<Rightarrow> gw \<Rightarrow> gw \<Rightarrow> nat \<Rightarrow> broker_cmd list \<Rightarrow> bool" where
  "drained en s s' k cs \<longleftrightarrow> gw_log s' = gw_log s @ cs \<and> losses (gw_db s') = losses (gw_db s) + k
     \<and> pk gap_key (t_gaps (gw_db s'))
     \<and> length (filter is_ack cs) \<le> k + length (filter (own_letter (en_x en)) (letters (en_broker en) (gw_log s) cs))"

lemma drain_loop_effect:
  assumes "drain_loop en ch n found s = (r, s')" and "pk gap_key (t_gaps (gw_db s))"
  shows "\<exists>k cs. drained en s s' k cs
    \<and> (\<forall>f. r = Inr f \<longrightarrow> k \<le> n \<and> (unat found + n < 2 ^ 64 \<longrightarrow> unat f = unat found + k)
         \<and> length (filter is_ack cs) = length (letters (en_broker en) (gw_log s) cs))"
  using assms
proof (induction n arbitrary: found s)
  case 0
  then show ?case
    by (intro exI [of _ 0] exI [of _ "[]"]) (auto simp: ret_def drained_def letters_def)
next
  case (Suc n)
  let ?get = "BasicGet ch DEAD_LETTER_QUEUE"
  let ?s1 = "s\<lparr>gw_log := gw_log s @ [?get]\<rparr>"
  have no_ack: "\<not> is_ack ?get" and get: "is_get ?get" by (simp_all add: is_ack_def is_get_def)
  show ?case
  proof (cases "\<exists>m. en_broker en (gw_log s) ?get = ReplyMessage m")
    case False
    then have "gw_log s' = gw_log s @ [?get] \<and> gw_db s' = gw_db s \<and> (\<forall>f. r = Inr f \<longrightarrow> f = found)"
      using Suc.prems(1) by (auto simp: bnd_def send_def ret_def raise_def split: broker_reply.splits)
    moreover have "letters (en_broker en) (gw_log s) [?get] = []"
      using False by (auto simp: letters_def split: broker_reply.splits)
    ultimately show ?thesis using Suc.prems(2) no_ack
      by (intro exI [of _ 0] exI [of _ "[?get]"]) (auto simp: drained_def)
  next
    case True
    then obtain m where m: "en_broker en (gw_log s) ?get = ReplyMessage m" ..
    obtain r1 s1 where one: "drain_one en ch m ?s1 = (r1, s1)" by (cases "drain_one en ch m ?s1")
    have pk1: "pk gap_key (t_gaps (gw_db ?s1))" using Suc.prems(2) by simp
    let ?own = "if own_letter (en_x en) m then 1 else 0 :: nat"
    obtain as where as: "gw_log s1 = gw_log ?s1 @ as" "as = [] \<or> as = [BasicAck ch (bm_delivery_tag m)]"
      "length as + losses (gw_db s) \<le> losses (gw_db s1) + ?own" "losses (gw_db s) \<le> losses (gw_db s1)"
      "pk gap_key (t_gaps (gw_db s1))"
      "\<forall>b. r1 = Inr b \<longrightarrow> length as = 1 \<and> losses (gw_db s1) = losses (gw_db s) + (if b then 1 else 0)"
      using drain_one_effect [OF one pk1] by auto
    define k1 where "k1 = losses (gw_db s1) - losses (gw_db s)"
    have acks: "filter is_ack as = as" using as(2) by (auto simp: is_ack_def)
    have let1: "letters (en_broker en) (gw_log s) ([?get] @ as) = [m]"
      using as(2) m get unfolding letters_append by (auto simp: letters_def is_get_def split: broker_reply.splits)
    have d1: "drained en s s1 k1 ([?get] @ as)"
      unfolding drained_def let1 using as(1,3,4,5) no_ack acks by (auto simp: k1_def)
    show ?thesis
    proof (cases r1)
      case (Inl e)
      then have "r = Inl e" "s' = s1" using Suc.prems(1) m one by (auto simp: bnd_def send_def)
      with d1 show ?thesis by blast
    next
      case (Inr b)
      let ?found = "if b then sat_add found 1 else found"
      have "drain_loop en ch n ?found s1 = (r, s')"
        using Suc.prems(1) m one Inr by (simp add: bnd_def send_def)
      from Suc.IH [OF this as(5)] obtain k cs where d2: "drained en s1 s' k cs"
        and ok: "\<forall>f. r = Inr f \<longrightarrow> k \<le> n \<and> (unat ?found + n < 2 ^ 64 \<longrightarrow> unat f = unat ?found + k)
           \<and> length (filter is_ack cs) = length (letters (en_broker en) (gw_log s1) cs)" by blast
      have k1: "k1 = (if b then 1 else 0)" "length as = 1" using as(6) Inr by (auto simp: k1_def)
      have "drained en s s' (k1 + k) ([?get] @ as @ cs)"
        using d1 d2 letters_append [of "en_broker en" "gw_log s" "[?get] @ as" cs]
        by (auto simp: drained_def let1)
      moreover have "k1 + k \<le> Suc n \<and> (unat found + Suc n < 2 ^ 64 \<longrightarrow> unat f = unat found + (k1 + k))
          \<and> length (filter is_ack ([?get] @ as @ cs)) = length (letters (en_broker en) (gw_log s) ([?get] @ as @ cs))"
        if "r = Inr f" for f
        using ok that k1 acks no_ack letters_append [of "en_broker en" "gw_log s" "[?get] @ as" cs] let1 as(1)
        by (auto simp: u64_simps)
      ultimately show ?thesis by blast
    qed
  qed
qed


definition sample_letter :: "string \<Rightarrow> broker_message" where
  "sample_letter author = (sample_message 1 author)\<lparr>bm_headers :=
     [(''x-first-death-queue'', ShortString (queue_name sample_externs ''net'' ''bob'' Interactive))]\<rparr>"

lemma sample_drain:
  "\<exists>s'. drain_dead_letters (sample_env [] [sample_letter ''alice'', sample_letter ''bob'']) (Suc (Suc (Suc 0)))
     (sample_gw empty_db) = (Inr 1, s')"
proof -
  have p: "principal_from_queue_name sample_externs (queue_name sample_externs ''net'' ''bob'' Interactive) ''net''
      = Some ''bob''" by (rule principal_of_queue_name) simp
  show ?thesis
    by (simp add: drain_dead_letters_def drain_one_def run_simps sample_env_def sample_gw_def sample_letter_def
        sample_message_def envelope_gap_fields_def header_string_def amqp_string_def record_gap_op_def p sat_add_def)
qed


end
