(* ===== verification/Membership.thy ===== *)
theory Membership
  imports Delivery_Pages
begin

text \<open>
  Scope membership (\<open>service.rs\<close>): admission of a tenant's transport, admission of grants, the
  authority behind a membership snapshot, the application of a membership mutation inside its scope
  fence, and the reconciliation of RabbitMQ bindings before a publish. A statement on the transaction
  works on the view \<open>d\<close> that is passed along and becomes the database at the commit; a statement on the
  pool works on the database directly. An operation that fails leaves the database as the pool
  statements before the failure left it, which is the rollback of the transaction.
\<close>

section \<open>Definitions\<close>

datatype membership_mutation =
    Snapshot swarm_scope membership nat "signature_envelope list" string
  | PrincipalChange swarm_scope string bool string

fun mutation_scope :: "membership_mutation \<Rightarrow> swarm_scope" where
  "mutation_scope (Snapshot scope _ _ _ _) = scope"
| "mutation_scope (PrincipalChange scope _ _ _) = scope"

fun mutation_version :: "membership_mutation \<Rightarrow> string" where
  "mutation_version (Snapshot _ _ _ _ version) = version"
| "mutation_version (PrincipalChange _ _ _ version) = version"

text \<open>Statements on the pool.\<close>

definition db_op :: "(db \<Rightarrow> 'a result \<times> db) \<Rightarrow> 'a op" where
  "db_op f s = (fst (f (gw_db s)), s\<lparr>gw_db := snd (f (gw_db s))\<rparr>)"

definition validate_proposed_tenant_count :: "config \<Rightarrow> u64 \<Rightarrow> unit result" where
  "validate_proposed_tenant_count c active =
    (if max_active_tenants c < active \<or> max_fanout_recipients c < active then
       Inl ''membership would exceed ClientServer tenant or fanout admission''
     else if sat_mul (cluster_queue_limit c) (mailbox_shard_admission_percent c) div 100
        < sat_add (sat_mul active 2) 16 then
       Inl ''membership would exceed RabbitMQ queue admission''
     else if sat_mul (max_fanout_deliveries_per_second c) (fanout_admission_utilization_percent c) div 100
        < sat_add (sat_mul (max_global_publishes_per_second c) active)
            (reserved_non_global_deliveries_per_second c) then
       Inl ''membership would exceed Global delivery-rate admission''
     else Inr ())"

subsection \<open>The authority behind a snapshot\<close>

fun count_signatures :: "externs \<Rightarrow> string list \<Rightarrow> string \<Rightarrow> string list \<Rightarrow> signature_envelope list \<Rightarrow> nat \<Rightarrow> nat" where
  "count_signatures E allowed message seen [] confirmed = confirmed"
| "count_signatures E allowed message seen (g # gs) confirmed =
    (let signer = sg_signer_node_id g in
     if signer \<in> set seen \<or> signer \<notin> set allowed then
       count_signatures E allowed message (signer # seen) gs confirmed
     else if is_ok (x_verify_signature E signer message (sg_signature_hex g)) then
       count_signatures E allowed message (signer # seen) gs (min (confirmed + 1) (2 ^ 32 - 1))
     else count_signatures E allowed message (signer # seen) gs confirmed)"

definition global_members :: "db \<Rightarrow> string \<Rightarrow> membership_row list" where
  "global_members d network_id =
     filter (\<lambda>m. mb_network_id m = network_id \<and> mb_scope_label m = ''global'' \<and> mb_state m = Active)
       (t_memberships d)"

definition allowed_signers :: "db \<Rightarrow> string \<Rightarrow> string \<Rightarrow> string \<Rightarrow> string list result" where
  "allowed_signers d network_id genesis author =
    (if author = genesis then Inr [genesis]
     else let finalizers = map mb_principal_id (filter (\<lambda>m. Finalizer \<in> set (mb_roles m)) (global_members d network_id))
       in if author \<notin> set finalizers then Inl ''MembershipUpdated author is not a projected Finalizer''
          else Inr finalizers)"

definition validate_membership_snapshot_authority ::
  "externs \<Rightarrow> db \<Rightarrow> string \<Rightarrow> string \<Rightarrow> membership \<Rightarrow> nat \<Rightarrow> signature_envelope list \<Rightarrow> unit result" where
  "validate_membership_snapshot_authority E d network_id author membership threshold signatures =
    (if threshold = 0 \<or> length signatures < threshold then
       Inl ''membership quorum signatures are insufficient''
     else and_then (or_err (active_genesis d network_id) ''network Genesis authority is not projected'') (\<lambda>genesis.
       and_then (allowed_signers d network_id genesis author) (\<lambda>allowed.
       if count_signatures E allowed (x_membership_bytes E membership) [] signatures 0 < threshold then
         Inl ''membership quorum signatures are invalid''
       else Inr ())))"

subsection \<open>Applying a mutation\<close>

text \<open>The members with state \<open>active\<close>, as the \<open>BTreeSet\<close> the code collects.\<close>

definition active_members :: "db \<Rightarrow> string \<Rightarrow> string \<Rightarrow> string list" where
  "active_members d network_id scope_label =
     btree_set (map mb_principal_id (filter (\<lambda>m. mb_network_id m = network_id \<and> mb_scope_label m = scope_label
       \<and> mb_state m = Active) (t_memberships d)))"

fun desired_members :: "membership_mutation \<Rightarrow> string list \<Rightarrow> string list" where
  "desired_members (Snapshot _ membership _ _ _) existing = btree_set (map fst membership)"
| "desired_members (PrincipalChange _ p active _) existing =
     (if active then btree_set (p # existing) else filter (\<lambda>x. x \<noteq> p) existing)"

definition scope_binding :: "string \<Rightarrow> string \<Rightarrow> binding_row \<Rightarrow> bool" where
  "scope_binding network_id scope_label b \<longleftrightarrow> rb_network_id b = network_id \<and> rb_scope_label b = scope_label"

definition mutation_routes :: "db \<Rightarrow> string \<Rightarrow> string \<Rightarrow> string option \<Rightarrow> string list" where
  "mutation_routes d network_id scope_label additional =
    (let routes = remdups (map rb_route_address (filter (scope_binding network_id scope_label) (t_bindings d)))
     in case additional of
          Some route \<Rightarrow> if route \<in> set routes then routes else routes @ [route]
        | None \<Rightarrow> routes)"

definition bind_members ::
  "env \<Rightarrow> string \<Rightarrow> string list \<Rightarrow> string list \<Rightarrow> string list \<Rightarrow> string \<Rightarrow> unit op" where
  "bind_members en network_id existing desired routes version =
    bnd (for_each (\<lambda>address. for_each (\<lambda>p. bind_scope_member en network_id p address version) desired) routes) (\<lambda>_.
    for_each (\<lambda>p. ensure_tenant_mailboxes en network_id p) (filter (\<lambda>p. p \<notin> set existing) desired))"

definition revoke_scope :: "instant \<Rightarrow> string \<Rightarrow> string \<Rightarrow> string \<Rightarrow> db \<Rightarrow> db" where
  "revoke_scope now network_id scope_label version d =
     d\<lparr>t_memberships := update_where (\<lambda>m. mb_network_id m = network_id \<and> mb_scope_label m = scope_label)
       (\<lambda>m. m\<lparr>mb_state := Revoked, mb_version := version, mb_revoked_at := Some now,
              mb_interactive_binding := ''revoked'', mb_bulk_binding := ''revoked'',
              mb_binding_updated_at := Some now\<rparr>) (t_memberships d)\<rparr>"

definition member_merge :: "membership_row \<Rightarrow> membership_row \<Rightarrow> membership_row option" where
  "member_merge n e =
     Some (e\<lparr>mb_version := mb_version n, mb_state := Active, mb_revoked_at := None,
             mb_interactive_binding := ''active'', mb_bulk_binding := ''active'',
             mb_roles := mb_roles n, mb_binding_updated_at := mb_binding_updated_at n\<rparr>)"

fun mutation_roles :: "membership_mutation \<Rightarrow> string \<Rightarrow> role list" where
  "mutation_roles (Snapshot _ membership _ _ _) p = (case map_of membership p of None \<Rightarrow> [] | Some rs \<Rightarrow> rs)"
| "mutation_roles (PrincipalChange _ _ _ _) p = []"

definition activate_member ::
  "instant \<Rightarrow> string \<Rightarrow> string \<Rightarrow> membership_mutation \<Rightarrow> string \<Rightarrow> membership_row list \<Rightarrow> membership_row list" where
  "activate_member now network_id scope_label mut p t =
     upsert membership_key member_merge
       \<lparr>mb_network_id = network_id, mb_scope_label = scope_label, mb_principal_id = p,
        mb_version = mutation_version mut, mb_state = Active, mb_authorized_at = now, mb_revoked_at = None,
        mb_interactive_binding = ''active'', mb_bulk_binding = ''active'',
        mb_roles = mutation_roles mut p, mb_binding_updated_at = Some now\<rparr> t"

definition scope_binding_rows ::
  "instant \<Rightarrow> string \<Rightarrow> string \<Rightarrow> string list \<Rightarrow> string list \<Rightarrow> string \<Rightarrow> binding_row list" where
  "scope_binding_rows now network_id scope_label routes members version =
     concat (map (\<lambda>address. concat (map (\<lambda>p. map (\<lambda>class.
       \<lparr>rb_network_id = network_id, rb_scope_label = scope_label, rb_route_address = address,
        rb_principal_id = p, rb_class = class_str class, rb_version = version,
        rb_state = ''active'', rb_updated_at = now\<rparr>) all_classes) members)) routes)"

fun insert_rows :: "('r \<Rightarrow> 'k) \<Rightarrow> 'r list \<Rightarrow> 'r list \<Rightarrow> 'r list result" where
  "insert_rows key [] t = Inr t"
| "insert_rows key (r # rs) t =
     (case insert_row key r t of None \<Rightarrow> Inl duplicate_key | Some t' \<Rightarrow> insert_rows key rs t')"

definition scope_version_merge :: "version_row \<Rightarrow> version_row \<Rightarrow> version_row option" where
  "scope_version_merge n e =
     Some (e\<lparr>sv_version := sv_version n, sv_routing_fence := sv_routing_fence e + 1,
             sv_updated_at := sv_updated_at n\<rparr>)"

text \<open>The statements of the transaction after the bindings are in place.\<close>

definition project_membership ::
  "instant \<Rightarrow> string \<Rightarrow> string \<Rightarrow> membership_mutation \<Rightarrow> string list \<Rightarrow> string list \<Rightarrow> db \<Rightarrow> db result" where
  "project_membership now network_id scope_label mut routes desired d =
    (let version = mutation_version mut;
         d1 = revoke_scope now network_id scope_label version d;
         d2 = d1\<lparr>t_memberships := fold (activate_member now network_id scope_label mut) desired (t_memberships d1)\<rparr>
     in and_then (insert_rows binding_key (scope_binding_rows now network_id scope_label routes desired version)
          (delete_where (scope_binding network_id scope_label) (t_bindings d2))) (\<lambda>bs.
        Inr (d2\<lparr>t_bindings := bs,
          t_versions := upsert version_key scope_version_merge
            \<lparr>sv_network_id = network_id, sv_scope_label = scope_label, sv_version = version,
             sv_routing_fence = 1, sv_updated_at = now\<rparr> (t_versions d2)\<rparr>)))"

definition apply_membership_mutation ::
  "env \<Rightarrow> string \<Rightarrow> membership_mutation \<Rightarrow> string option \<Rightarrow> db \<Rightarrow> (u64 \<times> db) op" where
  "apply_membership_mutation en network_id mut additional d =
    bnd (lift_res (x_scope_label (en_x en) (mutation_scope mut))) (\<lambda>scope_label.
    bnd (lift_res (record_membership_mutation (en_now en) (en_config en) network_id scope_label
      (mutation_version mut) d)) (\<lambda>d1.
    let existing = active_members d1 network_id scope_label;
        desired = desired_members mut existing;
        routes = mutation_routes d1 network_id scope_label additional
    in
    bnd (lift_res (if mutation_scope mut = Global
      then validate_proposed_tenant_count (en_config en) (of_nat (length desired)) else Inr ())) (\<lambda>_.
    bnd (timed ''membership mutation binding timed out''
      (bind_members en network_id existing desired routes (mutation_version mut))) (\<lambda>_.
    bnd (lift_res (project_membership (en_now en) network_id scope_label mut routes desired d1)) (\<lambda>d2.
    if max_membership_binding_lag (en_config en) < en_elapsed en then
      raise ''membership binding lag exceeds configured guardrail''
    else ret (of_nat (length desired), d2))))))"

subsection \<open>Tenant transport and grants\<close>

definition global_routes :: "db \<Rightarrow> string \<Rightarrow> (string \<times> string) list" where
  "global_routes d network_id =
     remdups (map (\<lambda>b. (rb_route_address b, rb_version b))
       (filter (\<lambda>b. scope_binding network_id ''global'' b \<and> rb_state b = ''active'') (t_bindings d)))"

definition ensure_tenant_transport_admission :: "env \<Rightarrow> string \<Rightarrow> string \<Rightarrow> unit op" where
  "ensure_tenant_transport_admission en network_id principal_id =
    bnd (reads gw_db) (\<lambda>d.
    bnd (lift_res (validate_active_tenant_admission (en_now en) (en_config en) d network_id)) (\<lambda>_.
    bnd (lift_res (bail_if (\<not> principal_is_admitted (en_now en) d network_id principal_id)
      ''principal is not an active network member'')) (\<lambda>_.
    bnd (ensure_tenant_mailboxes en network_id principal_id) (\<lambda>_.
    for_each (\<lambda>(address, version). bind_scope_member en network_id principal_id address version)
      (global_routes d network_id)))))"

definition live_global_version :: "instant \<Rightarrow> db \<Rightarrow> string \<Rightarrow> string \<Rightarrow> string option" where
  "live_global_version now d network_id principal_id =
     map_option mb_version (find (\<lambda>m. mb_network_id m = network_id \<and> mb_scope_label m = ''global''
       \<and> mb_principal_id m = principal_id \<and> live_member now d m) (t_memberships d))"

definition admit_grant :: "env \<Rightarrow> grant \<Rightarrow> grant_admission op" where
  "admit_grant en g =
    (let network_id = gr_network_id g; principal_id = gr_principal_id g;
         response = (\<lambda>version. \<lparr>ga_network_id = network_id, ga_principal_id = principal_id,
           ga_membership_version = version, ga_status = ''active''\<rparr>) in
    bnd (lift_res (or_err (map_of (trusted_network_genesis (en_config en)) network_id)
      ''network is not configured with a trusted Genesis authority'')) (\<lambda>genesis.
    bnd (lift_res (x_verify_grant (en_x en) g genesis (timestamp_ms (en_now en)))) (\<lambda>_.
    bnd (reads gw_db) (\<lambda>d.
    bnd (lift_res (bail_if (\<not> principal_is_global_authority d network_id genesis)
      ''configured network Genesis authority is not active'')) (\<lambda>_.
    bnd (lift_res (x_grant_id (en_x en) g)) (\<lambda>grant_id.
    bnd (lift_res (upsert_network_membership_grant (en_now en) g grant_id d)) (\<lambda>d1.
    case live_global_version (en_now en) d1 network_id principal_id of
      Some version \<Rightarrow> bnd (modify (\<lambda>s. s\<lparr>gw_db := d1\<rparr>)) (\<lambda>_. ret (response version))
    | None \<Rightarrow>
        let version = ''grant:'' @ grant_id in
        bnd (apply_membership_mutation en network_id (PrincipalChange Global principal_id True version) None d1) (\<lambda>(_, d2).
        bnd (modify (\<lambda>s. s\<lparr>gw_db := d2\<rparr>)) (\<lambda>_. ret (response version)))))))))) "

subsection \<open>Reconciling bindings before a publish\<close>

definition scope_route_binding :: "string \<Rightarrow> string \<Rightarrow> string \<Rightarrow> binding_row \<Rightarrow> bool" where
  "scope_route_binding network_id scope_label address b \<longleftrightarrow>
     scope_binding network_id scope_label b \<and> rb_route_address b = address"

definition reconcile_rows :: "instant \<Rightarrow> string \<Rightarrow> string \<Rightarrow> string \<Rightarrow> string list \<Rightarrow> string \<Rightarrow> unit op" where
  "reconcile_rows now network_id scope_label address members version =
    bnd (db_op (\<lambda>d. (Inr (), d\<lparr>t_bindings :=
      delete_where (scope_route_binding network_id scope_label address) (t_bindings d)\<rparr>))) (\<lambda>_.
    bnd (for_each (\<lambda>r. db_op (\<lambda>d. case insert_row binding_key r (t_bindings d) of
          None \<Rightarrow> (Inl duplicate_key, d)
        | Some bs \<Rightarrow> (Inr (), d\<lparr>t_bindings := bs\<rparr>)))
      (scope_binding_rows now network_id scope_label [address] members version)) (\<lambda>_.
    db_op (\<lambda>d. (Inr (), d\<lparr>t_memberships := update_where
      (\<lambda>m. mb_network_id m = network_id \<and> mb_scope_label m = scope_label \<and> mb_state m = Active)
      (\<lambda>m. m\<lparr>mb_interactive_binding := ''active'', mb_bulk_binding := ''active'',
             mb_binding_updated_at := Some now\<rparr>) (t_memberships d)\<rparr>))))"

definition versioned_members :: "db \<Rightarrow> string \<Rightarrow> string \<Rightarrow> string \<Rightarrow> string list" where
  "versioned_members d network_id scope_label version =
     sort (map mb_principal_id (filter (\<lambda>m. mb_network_id m = network_id \<and> mb_scope_label m = scope_label
       \<and> mb_state m = Active \<and> mb_version m = version) (t_memberships d)))"

definition reconcile_scope_bindings :: "env \<Rightarrow> string \<Rightarrow> route \<Rightarrow> unit op" where
  "reconcile_scope_bindings en network_id route =
    (case rt_scope route of
       Node _ \<Rightarrow> ret ()
     | _ \<Rightarrow>
       bnd (lift_res (x_scope_label (en_x en) (rt_scope route))) (\<lambda>scope_label.
       bnd (reads gw_db) (\<lambda>d.
       bnd (lift_res (or_err (scope_version d network_id scope_label)
         ''shared scope has no active membership version'')) (\<lambda>version.
       let members = versioned_members d network_id scope_label version;
           bound = map rb_principal_id (filter (\<lambda>b. scope_route_binding network_id scope_label (rt_address route) b
             \<and> rb_state b = ''active'') (t_bindings d));
           desired = btree_set members; existing = btree_set bound
       in
       bnd (timed ''membership binding reconciliation timed out'' (
         bnd (for_each (\<lambda>p. bind_scope_member en network_id p (rt_address route) version) desired) (\<lambda>_.
         for_each (\<lambda>p. unbind_scope_member en network_id p (rt_address route) version)
           (filter (\<lambda>p. p \<notin> set desired) existing)))) (\<lambda>_.
       reconcile_rows (en_now en) network_id scope_label (rt_address route) members version)))))"

section \<open>The authority behind a snapshot\<close>

lemma count_signatures_bound:
  "count_signatures E allowed msg seen gs k \<le> k + card {p \<in> set allowed - set seen.
     \<exists>g\<in>set gs. sg_signer_node_id g = p \<and> is_ok (x_verify_signature E p msg (sg_signature_hex g))}"
proof (induction gs arbitrary: seen k)
  case (Cons g gs)
  let ?p = "sg_signer_node_id g"
  let ?S = "\<lambda>seen gs. {p \<in> set allowed - set seen.
     \<exists>g\<in>set gs. sg_signer_node_id g = p \<and> is_ok (x_verify_signature E p msg (sg_signature_hex g))}"
  have fin: "finite (?S seen gs)" for seen gs by simp
  have sub: "?S (?p # seen) gs \<subseteq> ?S seen (g # gs)" by auto
  have le: "card (?S (?p # seen) gs) \<le> card (?S seen (g # gs))" by (rule card_mono [OF fin sub])
  show ?case
  proof (cases "?p \<notin> set seen \<and> ?p \<in> set allowed \<and> is_ok (x_verify_signature E ?p msg (sg_signature_hex g))")
    case True
    then have "?p \<in> ?S seen (g # gs)" "?p \<notin> ?S (?p # seen) gs" by auto
    then have "Suc (card (?S (?p # seen) gs)) \<le> card (?S seen (g # gs))"
      using sub by (intro Suc_leI psubset_card_mono [OF fin]) blast
    moreover have "count_signatures E allowed msg (?p # seen) gs (min (k + 1) (2 ^ 32 - 1))
        \<le> min (k + 1) (2 ^ 32 - 1) + card (?S (?p # seen) gs)" by (rule Cons.IH)
    ultimately show ?thesis using True by (simp add: Let_def)
  next
    case False
    then have "count_signatures E allowed msg seen (g # gs) k = count_signatures E allowed msg (?p # seen) gs k"
      by (auto simp: Let_def)
    with Cons.IH [of "?p # seen" k] le show ?thesis by linarith
  qed
qed simp

lemma active_genesis_authority:
  "active_genesis d n = Some g \<Longrightarrow> principal_is_global_authority d n g"
  by (auto simp: active_genesis_def principal_is_global_authority_def find_Some_iff list_ex_iff)


definition genesis_db :: db where
  "genesis_db = snd (seed_trusted_network_genesis 0 (valid\<lparr>trusted_network_genesis := [(''net'', ''gen'')]\<rparr>) empty_db)"

lemma genesis_db_eq:
  "genesis_db = empty_db\<lparr>t_authorities := [\<lparr>au_network_id = ''net'', au_principal_id = ''gen'', au_kind = ''genesis'',
       au_projection_version = ''trusted-config-v1'', au_state = Active, au_updated_at = 0\<rparr>],
     t_memberships := [\<lparr>mb_network_id = ''net'', mb_scope_label = ''global'', mb_principal_id = ''gen'',
       mb_version = ''trusted-genesis:gen'', mb_state = Active, mb_authorized_at = 0, mb_revoked_at = None,
       mb_interactive_binding = ''pending'', mb_bulk_binding = ''pending'',
       mb_roles = [Proposer, Verifier, Committer, Finalizer], mb_binding_updated_at = None\<rparr>],
     t_versions := [\<lparr>sv_network_id = ''net'', sv_scope_label = ''global'', sv_version = ''trusted-genesis:gen'',
       sv_routing_fence = 1, sv_updated_at = 0\<rparr>]\<rparr>"
  by (simp add: genesis_db_def seed_trusted_network_genesis_def seed_one_genesis_def active_genesis_def empty_db_def
      upsert_def row_of_def insert_row_def Let_def)


section \<open>What a mutation leaves behind\<close>

interpretation members: keyed_upsert membership_key member_merge
  by unfold_locales (auto simp: member_merge_def membership_key_def)

interpretation scope_versions: keyed_upsert version_key scope_version_merge
  by unfold_locales (auto simp: scope_version_merge_def version_key_def)

lemma active_members_iff:
  assumes "pk membership_key (t_memberships d)"
  shows "p \<in> set (active_members d n l) \<longleftrightarrow>
    (\<exists>r. row_of membership_key (n, l, p) (t_memberships d) = Some r \<and> mb_state r = Active)"
proof -
  have "p \<in> set (active_members d n l) \<longleftrightarrow>
      (\<exists>r\<in>set (t_memberships d). membership_key r = (n, l, p) \<and> mb_state r = Active)"
    by (auto simp: active_members_def membership_key_def)
  also have "\<dots> \<longleftrightarrow> (\<exists>r. row_of membership_key (n, l, p) (t_memberships d) = Some r \<and> mb_state r = Active)"
    by (rule iffI) (force dest: row_of_pk [OF assms], force dest: row_of_Some)
  finally show ?thesis .
qed

lemma set_active_members_scope:
  "set (active_members d n l) = {mb_principal_id m | m. m \<in> set (t_memberships d)
     \<and> mb_network_id m = n \<and> mb_scope_label m = l \<and> mb_state m = Active}"
  by (auto simp: active_members_def)

lemma distinct_desired: "distinct existing \<Longrightarrow> distinct (desired_members mut existing)"
  by (cases mut) auto

lemma distinct_active_members [simp]: "distinct (active_members d n l)"
  by (simp add: active_members_def)

lemma activate_row:
  "\<exists>r. row_of membership_key (n, l, p) (activate_member now n l mut p t) = Some r \<and> mb_state r = Active
     \<and> mb_version r = mutation_version mut \<and> mb_roles r = mutation_roles mut p"
proof -
  let ?r = "\<lparr>mb_network_id = n, mb_scope_label = l, mb_principal_id = p,
        mb_version = mutation_version mut, mb_state = Active, mb_authorized_at = now, mb_revoked_at = None,
        mb_interactive_binding = ''active'', mb_bulk_binding = ''active'',
        mb_roles = mutation_roles mut p, mb_binding_updated_at = Some now\<rparr>"
  have "row_of membership_key (n, l, p) (activate_member now n l mut p t)
      = Some (merged member_merge ?r (row_of membership_key (n, l, p) t))"
    using members.row_of_upsert [of ?r t] by (simp add: activate_member_def membership_key_def)
  then show ?thesis by (cases "row_of membership_key (n, l, p) t")
    (simp_all add: merged_def resolve_def member_merge_def)
qed

lemma activate_fold:
  assumes "pk membership_key t"
  shows "pk membership_key (fold (activate_member now n l mut) ps t)
    \<and> (\<forall>k. (\<forall>p\<in>set ps. k \<noteq> (n, l, p)) \<longrightarrow>
         row_of membership_key k (fold (activate_member now n l mut) ps t) = row_of membership_key k t)
    \<and> (\<forall>p\<in>set ps. \<exists>r. row_of membership_key (n, l, p) (fold (activate_member now n l mut) ps t) = Some r
         \<and> mb_state r = Active \<and> mb_version r = mutation_version mut \<and> mb_roles r = mutation_roles mut p)"
  using assms
proof (induction ps arbitrary: t)
  case (Cons q ps)
  let ?t = "activate_member now n l mut q t"
  have pk1: "pk membership_key ?t" using Cons.prems by (simp add: activate_member_def members.pk_upsert)
  note IH = Cons.IH [OF pk1]
  have other: "row_of membership_key k ?t = row_of membership_key k t" if "k \<noteq> (n, l, q)" for k
    using that by (simp add: activate_member_def members.row_of_upsert_cases membership_key_def)
  note new = activate_row [of n l q now mut t]
  have "\<exists>r. row_of membership_key (n, l, p) (fold (activate_member now n l mut) (q # ps) t) = Some r
         \<and> mb_state r = Active \<and> mb_version r = mutation_version mut \<and> mb_roles r = mutation_roles mut p"
    if p: "p \<in> set (q # ps)" for p
  proof (cases "p \<in> set ps")
    case True
    then show ?thesis using IH by simp
  next
    case False
    then have "row_of membership_key (n, l, p) (fold (activate_member now n l mut) ps ?t)
        = row_of membership_key (n, l, p) ?t"
      using IH [THEN conjunct2, THEN conjunct1, rule_format, of "(n, l, p)"] by auto
    with new p False show ?thesis by auto
  qed
  moreover have "row_of membership_key k (fold (activate_member now n l mut) (q # ps) t) = row_of membership_key k t"
    if "\<forall>p\<in>set (q # ps). k \<noteq> (n, l, p)" for k
    using that IH [THEN conjunct2, THEN conjunct1, rule_format, of k] other [of k] by simp
  ultimately show ?case using IH by simp
qed simp

lemma revoke_rows:
  shows "row_of membership_key k (t_memberships (revoke_scope now n l v d)) =
    map_option (\<lambda>m. if mb_network_id m = n \<and> mb_scope_label m = l then m\<lparr>mb_state := Revoked, mb_version := v,
       mb_revoked_at := Some now, mb_interactive_binding := ''revoked'', mb_bulk_binding := ''revoked'',
       mb_binding_updated_at := Some now\<rparr> else m) (row_of membership_key k (t_memberships d))"
  and "pk membership_key (t_memberships d) \<Longrightarrow> pk membership_key (t_memberships (revoke_scope now n l v d))"
  by (auto simp: revoke_scope_def membership_key_def row_of_update_same intro!: pk_update)

lemma insert_rows_Inr:
  "insert_rows key rs t = Inr t' \<longleftrightarrow> distinct (map key rs) \<and> key ` set rs \<inter> key ` set t = {} \<and> t' = t @ rs"
proof (induction rs arbitrary: t)
  case (Cons r rs)
  then show ?case by (auto simp: insert_row_def)
qed auto

lemma pk_insert_rows: "pk key t \<Longrightarrow> insert_rows key rs t = Inr t' \<Longrightarrow> pk key t'"
  by (auto simp: insert_rows_Inr pk_def)

lemma set_scope_binding_rows:
  "set (scope_binding_rows now n l routes ps v) = {\<lparr>rb_network_id = n, rb_scope_label = l, rb_route_address = a,
      rb_principal_id = p, rb_class = class_str c, rb_version = v, rb_state = ''active'', rb_updated_at = now\<rparr>
      | a p c. a \<in> set routes \<and> p \<in> set ps}"
  by (auto simp: scope_binding_rows_def)

lemma distinct_scope_binding_rows:
  assumes "distinct routes" "distinct ps"
  shows "distinct (map binding_key (scope_binding_rows now n l routes ps v))"
proof -
  have "map binding_key (scope_binding_rows now n l routes ps v)
      = map (\<lambda>(a, p, c). (n, l, a, p, class_str c)) (List.product routes (List.product ps all_classes))"
    by (simp add: scope_binding_rows_def binding_key_def map_concat comp_def product_concat_map)
  moreover have "distinct (List.product routes (List.product ps all_classes))"
    using assms by (simp add: distinct_product)
  moreover have "inj (\<lambda>(a, p, c). (n, l, a, p, class_str c))" by (auto simp: inj_def)
  ultimately show ?thesis by (simp add: distinct_map inj_on_def)
qed

lemma distinct_mutation_routes: "distinct (mutation_routes d n l a)"
  by (auto simp: mutation_routes_def Let_def split: option.splits)

text \<open>The transaction part of a mutation always succeeds on a well-formed database, and writes three tables.\<close>

lemma project_membership_Inr:
  assumes ok: "schema_ok d" and dist: "distinct routes" "distinct desired"
  shows "project_membership now n l mut routes desired d = Inr (d\<lparr>
    t_memberships := fold (activate_member now n l mut) desired
      (t_memberships (revoke_scope now n l (mutation_version mut) d)),
    t_bindings := delete_where (scope_binding n l) (t_bindings d)
      @ scope_binding_rows now n l routes desired (mutation_version mut),
    t_versions := upsert version_key scope_version_merge
      \<lparr>sv_network_id = n, sv_scope_label = l, sv_version = mutation_version mut,
       sv_routing_fence = 1, sv_updated_at = now\<rparr> (t_versions d)\<rparr>)"
proof -
  let ?rows = "scope_binding_rows now n l routes desired (mutation_version mut)"
  have "binding_key ` set ?rows \<inter> binding_key ` set (delete_where (scope_binding n l) (t_bindings d)) = {}"
    by (auto simp: set_scope_binding_rows set_delete_where scope_binding_def binding_key_def)
  then have "insert_rows binding_key ?rows (delete_where (scope_binding n l) (t_bindings d))
      = Inr (delete_where (scope_binding n l) (t_bindings d) @ ?rows)"
    using distinct_scope_binding_rows [OF dist] by (simp add: insert_rows_Inr)
  then show ?thesis by (simp add: project_membership_def Let_def revoke_scope_def)
qed

lemma record_mutation_Inr:
  assumes "record_membership_mutation now c n l v d = Inr d1"
  shows "\<exists>w. d1 = d\<lparr>t_windows := w\<rparr> \<and> (pk window_key (t_windows d) \<longrightarrow> pk window_key w)"
  using assms by (auto simp: record_membership_mutation_def Let_def windows.pk_upsert split: option.splits if_splits)

lemma apply_mutation_Inr:
  assumes "apply_membership_mutation en n mut a d s = (Inr (k, d'), s')"
  obtains l d1 routes desired s1 where
    "x_scope_label (en_x en) (mutation_scope mut) = Inr l"
    "record_membership_mutation (en_now en) (en_config en) n l (mutation_version mut) d = Inr d1"
    "desired = desired_members mut (active_members d1 n l)" "routes = mutation_routes d1 n l a"
    "mutation_scope mut = Global \<longrightarrow> validate_proposed_tenant_count (en_config en) (of_nat (length desired)) = Inr ()"
    "bind_members en n (active_members d1 n l) desired routes (mutation_version mut) s = (Inr (), s1)" "s' = s1"
    "project_membership (en_now en) n l mut routes desired d1 = Inr d'" "k = of_nat (length desired)"
    "en_elapsed en \<le> max_membership_binding_lag (en_config en)"
proof -
  obtain l d1 where l: "x_scope_label (en_x en) (mutation_scope mut) = Inr l"
    and d1: "record_membership_mutation (en_now en) (en_config en) n l (mutation_version mut) d = Inr d1"
    using assms by (auto simp: apply_membership_mutation_def bnd_Inr lift_res_def)
  let ?e = "active_members d1 n l"
  let ?d = "desired_members mut ?e" and ?r = "mutation_routes d1 n l a"
  have "(if mutation_scope mut = Global then validate_proposed_tenant_count (en_config en) (of_nat (length ?d))
        else Inr ()) = Inr ()
      \<and> timed ''membership mutation binding timed out'' (bind_members en n ?e ?d ?r (mutation_version mut)) s = (Inr (), s')
      \<and> project_membership (en_now en) n l mut ?r ?d d1 = Inr d'
      \<and> k = of_nat (length ?d) \<and> en_elapsed en \<le> max_membership_binding_lag (en_config en)"
    using assms l d1
    by (auto simp: apply_membership_mutation_def bnd_Inr lift_res_def Let_def ret_def raise_def not_less split: if_splits)
  moreover from this have "bind_members en n ?e ?d ?r (mutation_version mut) s = (Inr (), s')"
    by (auto simp: timed_def split: prod.splits sum.splits)
  ultimately show thesis using l d1 that [of l d1 ?d ?r s'] by (simp split: if_splits)
qed

subsection \<open>Refinement of the membership view\<close>

text \<open>The abstract view: the active members and the version of every scope of every network.\<close>

definition membership_view :: "db \<Rightarrow> string \<times> string \<Rightarrow> string set \<times> string option" where
  "membership_view d = (\<lambda>(n, l). (set (active_members d n l), scope_version d n l))"

fun spec_members :: "membership_mutation \<Rightarrow> string set \<Rightarrow> string set" where
  "spec_members (Snapshot _ membership _ _ _) M = fst ` set membership"
| "spec_members (PrincipalChange _ p active _) M = (if active then insert p M else M - {p})"

lemma set_desired: "set (desired_members mut existing) = spec_members mut (set existing)"
  by (cases mut) auto

lemma project_rows:
  assumes ok: "pk membership_key (t_memberships d)" and other: "\<not> ((n', l') = (n, l) \<and> p \<in> set desired)"
  shows "row_of membership_key (n', l', p)
      (fold (activate_member now n l mut) desired (t_memberships (revoke_scope now n l (mutation_version mut) d)))
    = map_option (\<lambda>m. if (n', l') = (n, l) then m\<lparr>mb_state := Revoked, mb_version := mutation_version mut,
         mb_revoked_at := Some now, mb_interactive_binding := ''revoked'', mb_bulk_binding := ''revoked'',
         mb_binding_updated_at := Some now\<rparr> else m) (row_of membership_key (n', l', p) (t_memberships d))"
proof -
  have "row_of membership_key (n', l', p)
      (fold (activate_member now n l mut) desired (t_memberships (revoke_scope now n l (mutation_version mut) d)))
    = row_of membership_key (n', l', p) (t_memberships (revoke_scope now n l (mutation_version mut) d))"
    using activate_fold [OF revoke_rows(2) [OF ok, of now n l "mutation_version mut"],
      where now = now and n = n and l = l and mut = mut and ps = desired] other by auto
  then show ?thesis unfolding revoke_rows(1)
    by (cases "row_of membership_key (n', l', p) (t_memberships d)") (auto dest: row_of_Some simp: membership_key_def)
qed

lemma project_active:
  assumes ok: "pk membership_key (t_memberships d)"
    and d': "t_memberships d' = fold (activate_member now n l mut) desired
      (t_memberships (revoke_scope now n l (mutation_version mut) d))"
  shows "set (active_members d' n' l') = (if (n', l') = (n, l) then set desired else set (active_members d n' l'))"
    and "pk membership_key (t_memberships d')"
proof -
  note f = activate_fold [OF revoke_rows(2) [OF ok, of now n l "mutation_version mut"],
      where now = now and n = n and l = l and mut = mut and ps = desired]
  show pk': "pk membership_key (t_memberships d')" unfolding d' using f by blast
  have "p \<in> set (active_members d' n' l') \<longleftrightarrow>
      p \<in> (if (n', l') = (n, l) then set desired else set (active_members d n' l'))" for p
  proof (cases "(n', l') = (n, l) \<and> p \<in> set desired")
    case True
    then obtain r where "row_of membership_key (n', l', p) (t_memberships d') = Some r" "mb_state r = Active"
      using f unfolding d' by auto
    with True show ?thesis by (simp add: active_members_iff [OF pk'])
  next
    case False
    show ?thesis
      unfolding active_members_iff [OF pk'] d' project_rows [OF ok False] using False
      by (cases "row_of membership_key (n', l', p) (t_memberships d)") (auto simp: active_members_iff [OF ok])
  qed
  then show "set (active_members d' n' l') = (if (n', l') = (n, l) then set desired else set (active_members d n' l'))"
    by blast
qed

lemma filter_scope_bindings:
  "filter (scope_binding n l) (delete_where (scope_binding n l) t) = []"
  "filter (scope_binding n l) (scope_binding_rows now n l routes ps v) = scope_binding_rows now n l routes ps v"
  by (auto simp: delete_where_def set_scope_binding_rows scope_binding_def intro!: filter_True)

lemma scope_version_upsert:
  assumes "t_versions d' = upsert version_key scope_version_merge
      \<lparr>sv_network_id = n, sv_scope_label = l, sv_version = v, sv_routing_fence = f, sv_updated_at = now\<rparr> (t_versions d)"
  shows "scope_version d' n' l' = (if (n', l') = (n, l) then Some v else scope_version d n' l')"
  unfolding scope_version_def assms scope_versions.row_of_upsert_cases
  by (auto simp: version_key_def merged_def resolve_def scope_version_merge_def split: option.splits)

lemma apply_mutation_db:
  assumes "schema_ok d" and "apply_membership_mutation en n mut a d s = (Inr (k, d'), s')"
  obtains l w where "x_scope_label (en_x en) (mutation_scope mut) = Inr l"
    "d' = d\<lparr>t_windows := w,
      t_memberships := fold (activate_member (en_now en) n l mut) (desired_members mut (active_members d n l))
        (t_memberships (revoke_scope (en_now en) n l (mutation_version mut) d)),
      t_bindings := delete_where (scope_binding n l) (t_bindings d)
        @ scope_binding_rows (en_now en) n l (mutation_routes d n l a) (desired_members mut (active_members d n l))
            (mutation_version mut),
      t_versions := upsert version_key scope_version_merge
        \<lparr>sv_network_id = n, sv_scope_label = l, sv_version = mutation_version mut,
         sv_routing_fence = 1, sv_updated_at = en_now en\<rparr> (t_versions d)\<rparr>"
    "pk window_key w" "k = of_nat (length (desired_members mut (active_members d n l)))"
    "mutation_scope mut = Global \<longrightarrow>
      validate_proposed_tenant_count (en_config en) k = Inr ()"
proof (rule apply_mutation_Inr [OF assms(2)])
  fix l d1 routes desired s1
  assume l: "x_scope_label (en_x en) (mutation_scope mut) = Inr l"
    and r: "record_membership_mutation (en_now en) (en_config en) n l (mutation_version mut) d = Inr d1"
    and des: "desired = desired_members mut (active_members d1 n l)" "routes = mutation_routes d1 n l a"
    and val: "mutation_scope mut = Global \<longrightarrow> validate_proposed_tenant_count (en_config en) (of_nat (length desired)) = Inr ()"
    and p: "project_membership (en_now en) n l mut routes desired d1 = Inr d'" and k: "k = of_nat (length desired)"
  obtain w where w: "d1 = d\<lparr>t_windows := w\<rparr>" "pk window_key w"
    using record_mutation_Inr [OF r] assms(1) by (auto simp: schema_ok_def)
  have ok1: "schema_ok d1" using assms(1) w by (simp add: schema_ok_def)
  have same: "active_members d1 n l = active_members d n l" "mutation_routes d1 n l a = mutation_routes d n l a"
    by (simp_all add: w active_members_def mutation_routes_def)
  note d' = project_membership_Inr [OF ok1 distinct_mutation_routes [of d1 n l a]
      distinct_desired [OF distinct_active_members [of d1 n l], of mut], of "en_now en" n l mut]
  show thesis by (rule that [OF l _ w(2)]) (use p d' k val des same in \<open>simp_all add: w revoke_scope_def\<close>)
qed

lemma apply_mutation_schema:
  assumes "schema_ok d" and "apply_membership_mutation en n mut a d s = (Inr (k, d'), s')"
  shows "schema_ok d'"
proof (rule apply_mutation_db [OF assms])
  fix l w
  let ?des = "desired_members mut (active_members d n l)" and ?r = "mutation_routes d n l a"
  assume d': "d' = d\<lparr>t_windows := w,
      t_memberships := fold (activate_member (en_now en) n l mut) ?des
        (t_memberships (revoke_scope (en_now en) n l (mutation_version mut) d)),
      t_bindings := delete_where (scope_binding n l) (t_bindings d)
        @ scope_binding_rows (en_now en) n l ?r ?des (mutation_version mut),
      t_versions := upsert version_key scope_version_merge
        \<lparr>sv_network_id = n, sv_scope_label = l, sv_version = mutation_version mut,
         sv_routing_fence = 1, sv_updated_at = en_now en\<rparr> (t_versions d)\<rparr>" and w: "pk window_key w"
  have pks: "pk membership_key (t_memberships d)" "pk binding_key (t_bindings d)" "pk version_key (t_versions d)"
    using assms(1) by (auto simp: schema_ok_def)
  have "distinct (map binding_key (scope_binding_rows (en_now en) n l ?r ?des (mutation_version mut)))"
    by (intro distinct_scope_binding_rows distinct_mutation_routes distinct_desired distinct_active_members)
  then have "pk binding_key (t_bindings d')"
    using pk_delete [OF pks(2), of "scope_binding n l"]
    by (auto simp: d' pk_def set_scope_binding_rows set_delete_where scope_binding_def binding_key_def)
  moreover have "pk membership_key (t_memberships d')" by (rule project_active(2) [OF pks(1)]) (simp add: d')
  moreover have "pk version_key (t_versions d')" using pks(3) by (simp add: d' scope_versions.pk_upsert)
  ultimately show ?thesis using assms(1) w by (simp add: schema_ok_def d')
qed

lemma apply_mutation_version:
  assumes "schema_ok d" and "apply_membership_mutation en n mut extra d s = (Inr (k, d'), s')"
    and "x_scope_label (en_x en) (mutation_scope mut) = Inr l"
  shows "scope_version d' n l = Some (mutation_version mut)"
proof (rule apply_mutation_db [OF assms(1,2)])
  fix l' w
  assume "x_scope_label (en_x en) (mutation_scope mut) = Inr l'"
    and d': "d' = d\<lparr>t_windows := w,
      t_memberships := fold (activate_member (en_now en) n l' mut) (desired_members mut (active_members d n l'))
        (t_memberships (revoke_scope (en_now en) n l' (mutation_version mut) d)),
      t_bindings := delete_where (scope_binding n l') (t_bindings d)
        @ scope_binding_rows (en_now en) n l' (mutation_routes d n l' extra)
            (desired_members mut (active_members d n l')) (mutation_version mut),
      t_versions := upsert version_key scope_version_merge
        \<lparr>sv_network_id = n, sv_scope_label = l', sv_version = mutation_version mut,
         sv_routing_fence = 1, sv_updated_at = en_now en\<rparr> (t_versions d)\<rparr>"
  then show ?thesis using assms(3)
    using scope_version_upsert [of d' n l' "mutation_version mut" 1 "en_now en" d n l] by simp
qed

lemma mutation_active:
  assumes "schema_ok d" and "apply_membership_mutation en n mut extra d s = (Inr (k, d'), s')"
    and "x_scope_label (en_x en) (mutation_scope mut) = Inr l"
  shows "set (active_members d' n l) = spec_members mut (set (active_members d n l))"
proof (rule apply_mutation_db [OF assms(1,2)])
  fix l' w
  assume l': "x_scope_label (en_x en) (mutation_scope mut) = Inr l'"
    and d': "d' = d\<lparr>t_windows := w,
      t_memberships := fold (activate_member (en_now en) n l' mut) (desired_members mut (active_members d n l'))
        (t_memberships (revoke_scope (en_now en) n l' (mutation_version mut) d)),
      t_bindings := delete_where (scope_binding n l') (t_bindings d)
        @ scope_binding_rows (en_now en) n l' (mutation_routes d n l' extra)
            (desired_members mut (active_members d n l')) (mutation_version mut),
      t_versions := upsert version_key scope_version_merge
        \<lparr>sv_network_id = n, sv_scope_label = l', sv_version = mutation_version mut,
         sv_routing_fence = 1, sv_updated_at = en_now en\<rparr> (t_versions d)\<rparr>"
  have l: "l' = l" using l' assms(3) by simp
  have pks: "pk membership_key (t_memberships d)" using assms(1) by (auto simp: schema_ok_def)
  have "set (active_members d' n l) = set (desired_members mut (active_members d n l))"
    using project_active(1) [OF pks, of d' "en_now en" n l mut "desired_members mut (active_members d n l)" n l]
    by (simp add: d' l)
  then show ?thesis by (simp add: set_desired)
qed

text \<open>
  C15. A membership mutation implements its specification. On the abstract view of the database (the set
  of active members and the version of every scope) it replaces the scope's members by those of the
  snapshot, or adds or removes the one principal, and advances the scope to the mutation's version; every
  other scope of every network is unchanged. The binding table afterwards lists, for this scope, every
  known route and the route of the mutation, for exactly the new members, in both delivery classes, at
  the new version.
\<close>

theorem mutation_refines_view:
  assumes "schema_ok d" and "apply_membership_mutation en n mut extra d s = (Inr (k, d'), s')"
    and "x_scope_label (en_x en) (mutation_scope mut) = Inr l"
  shows "membership_view d' = (membership_view d)((n, l) :=
      (spec_members mut (fst (membership_view d (n, l))), Some (mutation_version mut)))
    \<and> {(rb_route_address b, rb_principal_id b, rb_class b, rb_version b) | b. b \<in> set (t_bindings d') \<and> scope_binding n l b}
      = {(a, p, class_str c, mutation_version mut) | a p c. a \<in> set (mutation_routes d n l extra)
           \<and> p \<in> spec_members mut (fst (membership_view d (n, l)))}
    \<and> schema_ok d'"
proof (rule apply_mutation_db [OF assms(1,2)])
  fix l' w
  let ?des = "desired_members mut (active_members d n l)" and ?r = "mutation_routes d n l extra"
  assume l': "x_scope_label (en_x en) (mutation_scope mut) = Inr l'"
    and d': "d' = d\<lparr>t_windows := w,
      t_memberships := fold (activate_member (en_now en) n l' mut) (desired_members mut (active_members d n l'))
        (t_memberships (revoke_scope (en_now en) n l' (mutation_version mut) d)),
      t_bindings := delete_where (scope_binding n l') (t_bindings d)
        @ scope_binding_rows (en_now en) n l' (mutation_routes d n l' extra)
            (desired_members mut (active_members d n l')) (mutation_version mut),
      t_versions := upsert version_key scope_version_merge
        \<lparr>sv_network_id = n, sv_scope_label = l', sv_version = mutation_version mut,
         sv_routing_fence = 1, sv_updated_at = en_now en\<rparr> (t_versions d)\<rparr>"
  have l: "l' = l" using l' assms(3) by simp
  have pks: "pk membership_key (t_memberships d)" using assms(1) by (auto simp: schema_ok_def)
  have act: "set (active_members d' x y) = (if (x, y) = (n, l) then set ?des else set (active_members d x y))" for x y
    by (rule project_active(1) [OF pks]) (simp add: d' l)
  have ver: "scope_version d' x y = (if (x, y) = (n, l) then Some (mutation_version mut) else scope_version d x y)" for x y
    by (rule scope_version_upsert) (simp add: d' l)
  have "membership_view d' = (membership_view d)((n, l) :=
      (spec_members mut (fst (membership_view d (n, l))), Some (mutation_version mut)))"
    by (auto simp: membership_view_def fun_eq_iff act ver set_desired)
  moreover have "{(rb_route_address b, rb_principal_id b, rb_class b, rb_version b) | b. b \<in> set (t_bindings d') \<and> scope_binding n l b}
      = {(a, p, class_str c, mutation_version mut) | a p c. a \<in> set ?r \<and> p \<in> set ?des}"
  proof -
    let ?rows = "scope_binding_rows (en_now en) n l ?r ?des (mutation_version mut)"
      and ?f = "\<lambda>b. (rb_route_address b, rb_principal_id b, rb_class b, rb_version b)"
    have "{?f b | b. b \<in> set (t_bindings d') \<and> scope_binding n l b} = ?f ` set (filter (scope_binding n l) (t_bindings d'))"
      by auto
    also have "filter (scope_binding n l) (t_bindings d') = ?rows"
      by (simp add: d' l filter_scope_bindings)
    also have "?f ` set ?rows = {(a, p, class_str c, mutation_version mut) | a p c. a \<in> set ?r \<and> p \<in> set ?des}"
      unfolding set_scope_binding_rows by (auto intro!: image_eqI)
    finally show ?thesis .
  qed
  moreover have "schema_ok d'" by (rule apply_mutation_schema [OF assms(1,2)])
  ultimately show ?thesis by (simp add: membership_view_def set_desired)
qed

text \<open>On the sample broker every binding succeeds.\<close>

lemma for_each_ok: "(\<And>x s. fst (f x s) = Inr ()) \<Longrightarrow> fst (for_each f xs s) = Inr ()"
proof (induction xs arbitrary: s)
  case (Cons x xs)
  from Cons.prems [of x s] obtain s1 where "f x s = (Inr (), s1)" by (metis prod.collapse)
  with Cons.IH [OF Cons.prems, of s1] show ?case by (simp add: bnd_def)
qed (simp add: ret_def)

lemma bnd_ok: "fst (m s) = Inr () \<Longrightarrow> fst (k () (snd (m s))) = Inr w \<Longrightarrow> fst (bnd m k s) = Inr w"
  by (cases "m s") (simp add: bnd_def)

lemma sample_ensure: "fst (ensure_tenant_mailboxes (sample_env ms ds) n p s) = Inr ()"
  by (simp add: ensure_tenant_mailboxes_def run_simps sample_env_def)

lemma sample_bind:
  "fst (bind_scope_member (sample_env ms ds) n p a v s) = Inr ()"
proof -
  obtain s1 where "ensure_tenant_mailboxes (sample_env ms ds) n p s = (Inr (), s1)"
    using sample_ensure by (metis prod.collapse)
  then show ?thesis
    by (simp add: bind_scope_member_def with_binding_metric_def run_simps sample_env_def)
qed

lemma sample_bind_members: "fst (bind_members (sample_env ms ds) n e des r v s) = Inr ()"
  unfolding bind_members_def by (intro bnd_ok for_each_ok sample_bind sample_ensure)

lemma apply_mutation_intro:
  assumes "x_scope_label (en_x en) (mutation_scope mut) = Inr l"
    and "record_membership_mutation (en_now en) (en_config en) n l (mutation_version mut) d = Inr d1" and "schema_ok d1"
    and "mutation_scope mut = Global \<longrightarrow>
      validate_proposed_tenant_count (en_config en) (of_nat (length (desired_members mut (active_members d1 n l)))) = Inr ()"
    and bind: "\<And>e des r v. fst (bind_members en n e des r v s) = Inr ()"
    and "en_elapsed en \<le> max_membership_binding_lag (en_config en)"
  shows "\<exists>d' s'. apply_membership_mutation en n mut extra d s
    = (Inr (of_nat (length (desired_members mut (active_members d1 n l))), d'), s')"
proof -
  let ?e = "active_members d1 n l"
  let ?des = "desired_members mut ?e" and ?r = "mutation_routes d1 n l extra"
  obtain s1 where "bind_members en n ?e ?des ?r (mutation_version mut) s = (Inr (), s1)"
    using bind by (metis prod.collapse)
  then have t: "timed ''membership mutation binding timed out'' (bind_members en n ?e ?des ?r (mutation_version mut)) s
      = (Inr (), s1)" by (simp add: timed_def)
  obtain d' where p: "project_membership (en_now en) n l mut ?r ?des d1 = Inr d'"
    using project_membership_Inr [OF assms(3) distinct_mutation_routes distinct_desired [OF distinct_active_members]]
    by blast
  have v: "(if mutation_scope mut = Global then validate_proposed_tenant_count (en_config en) (of_nat (length ?des))
      else Inr ()) = Inr ()" using assms(4) by simp
  show ?thesis unfolding apply_membership_mutation_def Let_def bnd_def lift_res_def
    using assms(1,2,6) t p v by (simp add: ret_def)
qed

lemma genesis_window:
  "\<exists>w. record_membership_mutation 1000000 valid ''net'' ''global'' v genesis_db = Inr (genesis_db\<lparr>t_windows := [w]\<rparr>)"
  by (simp add: record_membership_mutation_def genesis_db_eq empty_db_def upsert_def row_of_def Let_def window_key_def
      valid_def)

lemma sample_mutation:
  "\<exists>k d' s'. apply_membership_mutation (sample_env [] []) ''net'' (PrincipalChange Global ''alice'' True ''v2'')
     (Some ''addr'') genesis_db (sample_gw genesis_db) = (Inr (k, d'), s')"
proof -
  let ?mut = "PrincipalChange Global ''alice'' True ''v2''"
  obtain w where w: "record_membership_mutation 1000000 valid ''net'' ''global'' ''v2'' genesis_db
      = Inr (genesis_db\<lparr>t_windows := [w]\<rparr>)" using genesis_window by blast
  let ?d1 = "genesis_db\<lparr>t_windows := [w]\<rparr>"
  have act: "active_members ?d1 ''net'' ''global'' = [''gen'']"
    by (simp add: active_members_def genesis_db_eq btree_set_def)
  have v: "validate_proposed_tenant_count valid 2 = Inr ()"
    by (simp add: validate_proposed_tenant_count_def valid_def sat_mul_def sat_add_def)
  have ok: "schema_ok ?d1" by (simp add: genesis_db_eq schema_ok_def empty_db_def pk_def)
  have e: "en_elapsed (sample_env [] []) \<le> max_membership_binding_lag (en_config (sample_env [] []))"
    by (simp add: sample_env_def valid_def)
  have "\<exists>d' s'. apply_membership_mutation (sample_env [] []) ''net'' ?mut (Some ''addr'') genesis_db (sample_gw genesis_db)
      = (Inr (of_nat (length (desired_members ?mut (active_members ?d1 ''net'' ''global''))), d'), s')"
    by (rule apply_mutation_intro [OF _ _ ok _ sample_bind_members e])
      (simp_all add: sample_externs_def w act btree_set_def v)
  then show ?thesis by blast
qed

theorem mutation_refines_view_witness:
  "\<exists>k d' s'. apply_membership_mutation (sample_env [] []) ''net'' (PrincipalChange Global ''alice'' True ''v2'')
     (Some ''addr'') genesis_db (sample_gw genesis_db) = (Inr (k, d'), s')
   \<and> membership_view d' (''net'', ''global'') = ({''gen'', ''alice''}, Some ''v2'')"
proof -
  obtain k d' s' where a: "apply_membership_mutation (sample_env [] []) ''net'' (PrincipalChange Global ''alice'' True ''v2'')
     (Some ''addr'') genesis_db (sample_gw genesis_db) = (Inr (k, d'), s')" using sample_mutation by blast
  have "schema_ok genesis_db" by (simp add: genesis_db_eq schema_ok_def empty_db_def pk_def)
  from mutation_refines_view [OF this a, of "''global''"]
  have "membership_view d' (''net'', ''global'')
      = (insert ''alice'' (fst (membership_view genesis_db (''net'', ''global''))), Some ''v2'')"
    by (simp add: sample_externs_def)
  moreover have "fst (membership_view genesis_db (''net'', ''global'')) = {''gen''}"
    by (simp add: membership_view_def genesis_db_eq active_members_def)
  ultimately show ?thesis using a by (metis insert_commute)
qed

subsection \<open>Tenant admission after a mutation\<close>

lemma proposed_count_mono:
  assumes "validate_proposed_tenant_count c b = Inr ()" and "active_tenant_count now d n \<le> b"
  shows "validate_active_tenant_admission now c d n = Inr (active_tenant_count now d n)"
proof -
  let ?a = "active_tenant_count now d n"
  have "sat_add (sat_mul ?a 2) 16 \<le> sat_add (sat_mul b 2) 16"
    "sat_add (sat_mul (max_global_publishes_per_second c) ?a) (reserved_non_global_deliveries_per_second c)
     \<le> sat_add (sat_mul (max_global_publishes_per_second c) b) (reserved_non_global_deliveries_per_second c)"
    using assms(2) by (simp_all add: sat_add_mono sat_mul_mono)
  then show ?thesis using assms
    by (auto simp: validate_proposed_tenant_count_def validate_active_tenant_admission_def admitted_queues_def
        safe_delivery_rate_def Let_def split: if_splits)
qed

lemma admitted_subset_active:
  "{p. principal_is_admitted now d n p} \<subseteq> set (active_members d n ''global'')"
  by (auto simp: principal_is_admitted_iff set_active_members_scope)

text \<open>
  The check on a proposed global membership implies the admission check of every later request: after
  a mutation of the global scope is applied, at any time and whatever grants have expired by then, the
  network's active tenants pass \<open>validate_active_tenant_admission\<close> and number at most the members the
  mutation left, which are within the configured tenant and fan-out limits.
\<close>

theorem global_mutation_keeps_admission:
  assumes "schema_ok d" and "x_scope_label (en_x en) Global = Inr ''global''" and "mutation_scope mut = Global"
    and "apply_membership_mutation en n mut extra d s = (Inr (k, d'), s')"
    and "length (desired_members mut (active_members d n ''global'')) < 2 ^ 64"
  shows "validate_active_tenant_admission now (en_config en) d' n = Inr (active_tenant_count now d' n)
    \<and> active_tenant_count now d' n \<le> k \<and> k \<le> max_active_tenants (en_config en)
    \<and> k \<le> max_fanout_recipients (en_config en)"
proof (rule apply_mutation_db [OF assms(1,4)])
  fix l w
  let ?des = "desired_members mut (active_members d n l)"
  assume l': "x_scope_label (en_x en) (mutation_scope mut) = Inr l"
    and d': "d' = d\<lparr>t_windows := w,
      t_memberships := fold (activate_member (en_now en) n l mut) ?des
        (t_memberships (revoke_scope (en_now en) n l (mutation_version mut) d)),
      t_bindings := delete_where (scope_binding n l) (t_bindings d)
        @ scope_binding_rows (en_now en) n l (mutation_routes d n l extra) ?des (mutation_version mut),
      t_versions := upsert version_key scope_version_merge
        \<lparr>sv_network_id = n, sv_scope_label = l, sv_version = mutation_version mut,
         sv_routing_fence = 1, sv_updated_at = en_now en\<rparr> (t_versions d)\<rparr>"
    and k: "k = of_nat (length ?des)"
    and val: "mutation_scope mut = Global \<longrightarrow> validate_proposed_tenant_count (en_config en) k = Inr ()"
  have l: "l = ''global''" using l' assms(2,3) by simp
  have pks: "pk membership_key (t_memberships d)" using assms(1) by (auto simp: schema_ok_def)
  have "set (active_members d' n ''global'') = set ?des"
    using project_active(1) [OF pks, of d' "en_now en" n l mut ?des n "''global''"] by (simp add: d' l)
  then have "card {p. principal_is_admitted now d' n p} \<le> card (set ?des)"
    using admitted_subset_active [of now d' n] by (intro card_mono) simp_all
  also have "\<dots> \<le> length ?des" by (rule card_length)
  finally have "active_tenant_count now d' n \<le> k"
    using assms(5) unfolding active_tenant_count_card k l
    by (simp add: word_le_nat_alt unat_of_nat)
  moreover from this have "validate_active_tenant_admission now (en_config en) d' n = Inr (active_tenant_count now d' n)"
    using val assms(3) by (intro proposed_count_mono) auto
  ultimately show ?thesis
    using val assms(3) by (auto simp: validate_proposed_tenant_count_def split: if_splits)
qed

theorem global_mutation_keeps_admission_witness:
  "\<exists>k d' s'. apply_membership_mutation (sample_env [] []) ''net'' (PrincipalChange Global ''alice'' True ''v2'')
     (Some ''addr'') genesis_db (sample_gw genesis_db) = (Inr (k, d'), s')
   \<and> is_ok (validate_active_tenant_admission 5 valid d' ''net'') \<and> active_tenant_count 5 d' ''net'' \<le> k"
proof -
  obtain k d' s' where a: "apply_membership_mutation (sample_env [] []) ''net'' (PrincipalChange Global ''alice'' True ''v2'')
     (Some ''addr'') genesis_db (sample_gw genesis_db) = (Inr (k, d'), s')" using sample_mutation by blast
  have ok: "schema_ok genesis_db" by (simp add: genesis_db_eq schema_ok_def empty_db_def pk_def)
  have "active_members genesis_db ''net'' ''global'' = [''gen'']"
    by (simp add: active_members_def genesis_db_eq btree_set_def)
  then have "length (desired_members (PrincipalChange Global ''alice'' True ''v2'') (active_members genesis_db ''net'' ''global'')) < 2 ^ 64"
    by (simp add: btree_set_def)
  from global_mutation_keeps_admission [OF ok _ _ a this, of 5] a show ?thesis
    by (auto simp: sample_externs_def)
qed

end
