(* ===== verification/Routing.thy ===== *)
theory Routing
  imports Membership
begin

text \<open>
  Where a published record goes. The queues bound to an exchange and key are read off the binding
  commands sent so far and the broker's replies: \<open>bound\<close> holds the bindings that certainly exist,
  \<open>maybe_bound\<close> those that may exist when some reply was an error. Applying a membership mutation under a
  new version makes both equal to the mailboxes of exactly the new members.
\<close>

section \<open>Bindings\<close>

type_synonym queue_binding = "string \<times> string \<times> string"

definition must_step :: "broker_cmd \<times> broker_reply \<Rightarrow> queue_binding set \<Rightarrow> queue_binding set" where
  "must_step e S = (case fst e of
     QueueBind _ q x k \<Rightarrow> if snd e = ReplyOk then insert (q, x, k) S else S
   | QueueUnbind _ q x k \<Rightarrow> S - {(q, x, k)}
   | _ \<Rightarrow> S)"

definition may_step :: "broker_cmd \<times> broker_reply \<Rightarrow> queue_binding set \<Rightarrow> queue_binding set" where
  "may_step e S = (case fst e of
     QueueBind _ q x k \<Rightarrow> insert (q, x, k) S
   | QueueUnbind _ q x k \<Rightarrow> if snd e = ReplyOk then S - {(q, x, k)} else S
   | _ \<Rightarrow> S)"

definition bound :: "(broker_cmd list \<Rightarrow> broker_cmd \<Rightarrow> broker_reply) \<Rightarrow> broker_cmd list \<Rightarrow> queue_binding set" where
  "bound B lg = fold must_step (trace B [] lg) {}"

definition maybe_bound :: "(broker_cmd list \<Rightarrow> broker_cmd \<Rightarrow> broker_reply) \<Rightarrow> broker_cmd list \<Rightarrow> queue_binding set" where
  "maybe_bound B lg = fold may_step (trace B [] lg) {}"

lemma bound_append: "bound B (lg @ cs) = fold must_step (trace B lg cs) (bound B lg)"
  by (simp add: bound_def trace_append)

lemma maybe_bound_append: "maybe_bound B (lg @ cs) = fold may_step (trace B lg cs) (maybe_bound B lg)"
  by (simp add: maybe_bound_def trace_append)

lemma bound_subset: "bound B lg \<subseteq> maybe_bound B lg"
proof -
  have "S \<subseteq> T \<Longrightarrow> fold must_step es S \<subseteq> fold may_step es T" for es S T
  proof (induction es arbitrary: S T)
    case (Cons e es)
    then have "must_step e S \<subseteq> may_step e T" by (auto simp: must_step_def may_step_def split: broker_cmd.splits)
    then show ?case using Cons.IH by simp
  qed simp
  then show ?thesis by (simp add: bound_def maybe_bound_def)
qed

definition is_unbind :: "broker_cmd \<Rightarrow> bool" where
  "is_unbind c = (case c of QueueUnbind _ _ _ _ \<Rightarrow> True | _ \<Rightarrow> False)"

definition binds_in :: "queue_binding set \<Rightarrow> broker_cmd \<Rightarrow> bool" where
  "binds_in A c = (case c of QueueBind _ q x k \<Rightarrow> (q, x, k) \<in> A | QueueUnbind _ _ _ _ \<Rightarrow> False | _ \<Rightarrow> True)"

lemma bound_mono:
  assumes "list_all (\<lambda>c. \<not> is_unbind c) cs"
  shows "bound B lg \<subseteq> bound B (lg @ cs)"
proof -
  have "S \<subseteq> fold must_step (trace B pre cs) S" for pre S
    using assms
  proof (induction cs arbitrary: pre S)
    case (Cons c cs)
    have "S \<subseteq> must_step (c, B pre c) S"
      using Cons.prems by (auto simp: must_step_def is_unbind_def split: broker_cmd.splits)
    also have "\<dots> \<subseteq> fold must_step (trace B (pre @ [c]) cs) (must_step (c, B pre c) S)"
      using Cons by simp
    finally show ?case by simp
  qed simp
  then show ?thesis unfolding bound_append .
qed

lemma maybe_bound_grow:
  assumes "list_all (binds_in A) cs"
  shows "maybe_bound B (lg @ cs) \<subseteq> maybe_bound B lg \<union> A"
proof -
  have "fold may_step (trace B pre cs) S \<subseteq> S \<union> A" for pre S
    using assms
  proof (induction cs arbitrary: pre S)
    case (Cons c cs)
    have "may_step (c, B pre c) S \<subseteq> S \<union> A"
      using Cons.prems by (auto simp: may_step_def binds_in_def split: broker_cmd.splits)
    moreover have "fold may_step (trace B (pre @ [c]) cs) (may_step (c, B pre c) S) \<subseteq> may_step (c, B pre c) S \<union> A"
      using Cons by simp
    ultimately show ?case by auto
  qed simp
  then show ?thesis unfolding maybe_bound_append .
qed

section \<open>What binding a member establishes\<close>

abbreviation scope_key :: "env \<Rightarrow> string \<Rightarrow> string \<Rightarrow> string \<Rightarrow> string" where
  "scope_key en n a v \<equiv> scope_route_key (en_x en) n a v"

definition direct_bindings :: "env \<Rightarrow> string \<Rightarrow> string \<Rightarrow> queue_binding set" where
  "direct_bindings en n p =
     {(queue_name (en_x en) n p c, direct_exchange c, direct_route_key (en_x en) n p) | c. True}"

definition scope_bindings :: "env \<Rightarrow> string \<Rightarrow> string \<Rightarrow> string \<Rightarrow> string \<Rightarrow> queue_binding set" where
  "scope_bindings en n p a v =
     {(queue_name (en_x en) n p c, scope_exchange c, scope_key en n a v) | c. True}"

lemma emits_ensure_binds: "direct_bindings en n p \<subseteq> A \<Longrightarrow> emits (binds_in A) (ensure_tenant_mailboxes en n p)"
  unfolding ensure_tenant_mailboxes_def
  by (auto intro!: frame_intros simp: Let_def binds_in_def direct_bindings_def)

lemma emits_bind_binds:
  "direct_bindings en n p \<union> scope_bindings en n p a v \<subseteq> A \<Longrightarrow> emits (binds_in A) (bind_scope_member en n p a v)"
  unfolding bind_scope_member_def
  by (auto intro!: frame_intros emits_ensure_binds simp: binds_in_def scope_bindings_def)

lemma emits_no_unbind:
  "emits (\<lambda>c. \<not> is_unbind c) (ensure_tenant_mailboxes en n p)"
  "emits (\<lambda>c. \<not> is_unbind c) (bind_scope_member en n p a v)"
  by (rule emits_mono [OF emits_ensure_binds [OF subset_UNIV]] emits_mono [OF emits_bind_binds [OF subset_UNIV]],
      auto simp: binds_in_def is_unbind_def split: broker_cmd.splits)+

lemma bind_member_bound:
  assumes "bind_scope_member en n p a v s = (Inr u, s')"
  shows "scope_bindings en n p a v \<subseteq> bound (en_broker en) (gw_log s')"
proof -
  let ?b = "\<lambda>ch c. QueueBind ch (queue_name (en_x en) n p c) (scope_exchange c) (scope_key en n a v)"
  obtain s1 where "bnd (ensure_tenant_mailboxes en n p) (\<lambda>_. bnd (create_channel en) (\<lambda>ch.
      for_each (\<lambda>class. send_ok en (?b ch class)) all_classes)) s = (Inr (), s1)"
    and log: "gw_log s' = gw_log s1"
    using with_binding_metric_Inr [OF assms [unfolded bind_scope_member_def]] by auto
  then obtain s0 ch where "en_broker en (gw_log s0) CreateChannel = ReplyChannel ch"
    and f: "for_each (\<lambda>class. send_ok en (?b ch class)) all_classes
      (s0\<lparr>gw_log := gw_log s0 @ [CreateChannel]\<rparr>) = (Inr (), s1)"
    by (auto simp: bnd_Inr create_channel_Inr)
  from f have "gw_log s1 = gw_log s0 @ [CreateChannel, ?b ch Interactive, ?b ch Bulk]"
    "en_broker en (gw_log s0 @ [CreateChannel]) (?b ch Interactive) = ReplyOk"
    "en_broker en (gw_log s0 @ [CreateChannel, ?b ch Interactive]) (?b ch Bulk) = ReplyOk"
    by (auto simp: bnd_Inr send_ok_Inr all_classes_def ret_def)
  then show ?thesis
    unfolding log by (auto simp: bound_append must_step_def scope_bindings_def) (metis delivery_class.exhaust)+
qed

lemma for_each_establishes:
  assumes "for_each f xs s = (Inr u, s')"
    and "\<And>x t t'. f x t = (Inr (), t') \<Longrightarrow> Q x t'"
    and "\<And>x y t r t'. Q x t \<Longrightarrow> f y t = (r, t') \<Longrightarrow> Q x t'"
  shows "\<forall>x\<in>set xs. Q x s'"
  using assms(1)
proof (induction xs arbitrary: s)
  case (Cons x xs)
  then obtain s1 where 1: "f x s = (Inr (), s1)" and 2: "for_each f xs s1 = (Inr u, s')"
    by (auto simp: bnd_Inr)
  have keep: "Q y t \<Longrightarrow> for_each f zs t = (r, t') \<Longrightarrow> Q y t'" for y zs t r t'
  proof (induction zs arbitrary: t)
    case Nil
    then show ?case by (simp add: ret_def)
  next
    case (Cons z zs)
    obtain r1 t1 where t1: "f z t = (r1, t1)" by fastforce
    with assms(3) Cons.prems(1) have q1: "Q y t1" by blast
    show ?case
    proof (cases r1)
      case (Inl e)
      then show ?thesis using Cons.prems(2) t1 q1 by (simp add: bnd_def)
    next
      case (Inr v)
      then have "for_each f zs t1 = (r, t')" using Cons.prems(2) t1 by (simp add: bnd_def)
      with q1 show ?thesis by (rule Cons.IH)
    qed
  qed
  have "Q x s'" by (rule keep [OF _ 2]) (rule assms(2) [OF 1])
  with Cons.IH [OF 2] show ?case by simp
qed simp

section \<open>Routing after a mutation\<close>

lemma emits_bind_members:
  "(\<Union>p\<in>set des. direct_bindings en n p \<union> (\<Union>a\<in>set rs. scope_bindings en n p a v)) \<subseteq> A
   \<Longrightarrow> emits (binds_in A) (bind_members en n ex des rs v)"
  unfolding bind_members_def
  by (intro emits_bnd emits_for_each emits_bind_binds emits_ensure_binds) auto

lemma bind_members_bound:
  assumes "bind_members en n ex des rs v s = (Inr u, s')" and "a \<in> set rs" and "p \<in> set des"
  shows "scope_bindings en n p a v \<subseteq> bound (en_broker en) (gw_log s')"
proof -
  let ?B = "en_broker en"
  let ?row = "\<lambda>a. for_each (\<lambda>p. bind_scope_member en n p a v) des"
  have grow: "bound ?B (gw_log t) \<subseteq> bound ?B (gw_log t')"
    if "emits (\<lambda>c. \<not> is_unbind c) m" "m t = (r, t')" for m :: "unit op" and t r t'
    using emitsD [OF that] bound_mono by metis
  have row: "\<forall>p\<in>set des. scope_bindings en n p a v \<subseteq> bound ?B (gw_log t')" if "?row a t = (Inr (), t')" for a t t'
    by (rule for_each_establishes [OF that bind_member_bound]) (assumption, use grow [OF emits_no_unbind(2)] in blast)
  have keep: "bound ?B (gw_log t) \<subseteq> bound ?B (gw_log t')" if "?row a t = (r, t')" for a t r t'
    by (rule grow [OF emits_for_each [OF emits_no_unbind(2)] that])
  obtain s1 where s1: "for_each ?row rs s = (Inr (), s1)"
    and s2: "for_each (\<lambda>p. ensure_tenant_mailboxes en n p) (filter (\<lambda>p. p \<notin> set ex) des) s1 = (Inr u, s')"
    using assms(1) by (auto simp: bind_members_def bnd_Inr)
  have "\<forall>a\<in>set rs. \<forall>p\<in>set des. scope_bindings en n p a v \<subseteq> bound ?B (gw_log s1)"
    by (rule for_each_establishes [OF s1 row]) (assumption, use keep in blast)
  moreover have "bound ?B (gw_log s1) \<subseteq> bound ?B (gw_log s')"
    by (rule grow [where m = "for_each (\<lambda>p. ensure_tenant_mailboxes en n p) (filter (\<lambda>p. p \<notin> set ex) des)"])
      (intro emits_for_each emits_no_unbind(1), rule s2)
  ultimately show ?thesis using assms(2,3) by blast
qed

lemma scope_exchange_simps [simp]:
  "scope_exchange c \<noteq> direct_exchange c'" "direct_exchange c' \<noteq> scope_exchange c"
  "scope_exchange c = scope_exchange c' \<longleftrightarrow> c = c'"
  by (cases c; cases c'; simp add: scope_exchange_def direct_exchange_def)+

text \<open>The queues a record published to the scope exchange of a class under a key can reach.\<close>

definition reached :: "env \<Rightarrow> gw \<Rightarrow> delivery_class \<Rightarrow> string \<Rightarrow> string set" where
  "reached en s c k = {q. (q, scope_exchange c, k) \<in> maybe_bound (en_broker en) (gw_log s)}"

definition surely_reached :: "env \<Rightarrow> gw \<Rightarrow> delivery_class \<Rightarrow> string \<Rightarrow> string set" where
  "surely_reached en s c k = {q. (q, scope_exchange c, k) \<in> bound (en_broker en) (gw_log s)}"

lemma bind_members_reached:
  assumes "bind_members en n ex des rs v s = (Inr u, s')" and "a \<in> set rs"
    and fresh: "reached en s c (scope_key en n a v) = {}"
  shows "surely_reached en s' c (scope_key en n a v) = (\<lambda>p. queue_name (en_x en) n p c) ` set des"
    and "reached en s' c (scope_key en n a v) = (\<lambda>p. queue_name (en_x en) n p c) ` set des"
proof -
  let ?A = "\<Union>p\<in>set des. direct_bindings en n p \<union> (\<Union>a\<in>set rs. scope_bindings en n p a v)"
  let ?Q = "(\<lambda>p. queue_name (en_x en) n p c) ` set des"
  obtain cs where cs: "gw_log s' = gw_log s @ cs" "list_all (binds_in ?A) cs"
    using emitsD [OF emits_bind_members [OF order_refl] assms(1)] by blast
  have "maybe_bound (en_broker en) (gw_log s') \<subseteq> maybe_bound (en_broker en) (gw_log s) \<union> ?A"
    unfolding cs(1) by (rule maybe_bound_grow [OF cs(2)])
  moreover have "q \<in> ?Q" if "(q, scope_exchange c, k) \<in> ?A" for q k
    using that by (auto simp: direct_bindings_def scope_bindings_def)
  ultimately have "reached en s' c (scope_key en n a v) \<subseteq> ?Q"
    using fresh unfolding reached_def by blast
  moreover have "?Q \<subseteq> surely_reached en s' c (scope_key en n a v)"
  proof
    fix q assume "q \<in> ?Q"
    then obtain p where "p \<in> set des" "q = queue_name (en_x en) n p c" by blast
    then show "q \<in> surely_reached en s' c (scope_key en n a v)"
      using bind_members_bound [OF assms(1,2), of p] by (auto simp: surely_reached_def scope_bindings_def)
  qed
  moreover have "surely_reached en s' c (scope_key en n a v) \<subseteq> reached en s' c (scope_key en n a v)"
    using bound_subset by (auto simp: reached_def surely_reached_def)
  ultimately show "surely_reached en s' c (scope_key en n a v) = ?Q" "reached en s' c (scope_key en n a v) = ?Q"
    by blast+
qed

text \<open>
  C11. Routing follows membership. When a mutation with a version not yet bound at the broker is
  applied, a record published to any route of the scope under the new version reaches, in either class,
  the mailboxes of exactly the members the mutation leaves: every member's mailbox is certainly bound,
  and no other mailbox can be, whatever the broker answered before. So a revoked principal receives
  nothing published at the new version, although its old bindings are never removed.
\<close>

theorem routing_follows_membership:
  assumes "schema_ok d" and "apply_membership_mutation en n mut extra d s = (Inr (k, d'), s')"
    and "x_scope_label (en_x en) (mutation_scope mut) = Inr l"
    and "a \<in> set (mutation_routes d n l extra)"
    and "reached en s c (scope_key en n a (mutation_version mut)) = {}"
  shows "surely_reached en s' c (scope_key en n a (mutation_version mut))
      = (\<lambda>p. queue_name (en_x en) n p c) ` spec_members mut (set (active_members d n l))
    \<and> reached en s' c (scope_key en n a (mutation_version mut))
      = (\<lambda>p. queue_name (en_x en) n p c) ` spec_members mut (set (active_members d n l))
    \<and> (\<forall>p. (\<forall>q\<in>insert p (set (active_members d' n l)). CHR ''.'' \<notin> set q)
        \<and> p \<notin> set (active_members d' n l)
        \<longrightarrow> queue_name (en_x en) n p c \<notin> reached en s' c (scope_key en n a (mutation_version mut)))"
proof (rule apply_mutation_Inr [OF assms(2)])
  fix l' d1 routes desired s1
  assume l': "x_scope_label (en_x en) (mutation_scope mut) = Inr l'"
    and r: "record_membership_mutation (en_now en) (en_config en) n l' (mutation_version mut) d = Inr d1"
    and des: "desired = desired_members mut (active_members d1 n l')" "routes = mutation_routes d1 n l' extra"
    and b: "bind_members en n (active_members d1 n l') desired routes (mutation_version mut) s = (Inr (), s1)" "s' = s1"
  have l: "l' = l" using l' assms(3) by simp
  obtain w where w: "d1 = d\<lparr>t_windows := w\<rparr>" using record_mutation_Inr [OF r] by blast
  have same: "active_members d1 n l = active_members d n l" "mutation_routes d1 n l extra = mutation_routes d n l extra"
    by (simp_all add: w active_members_def mutation_routes_def)
  let ?Q = "(\<lambda>p. queue_name (en_x en) n p c) ` spec_members mut (set (active_members d n l))"
  have Q: "surely_reached en s' c (scope_key en n a (mutation_version mut)) = ?Q"
    "reached en s' c (scope_key en n a (mutation_version mut)) = ?Q"
    using bind_members_reached [OF b(1) _ assms(5)] assms(4) b(2)
    by (simp_all add: des l same set_desired)
  have act: "set (active_members d' n l) = spec_members mut (set (active_members d n l))"
    by (rule mutation_active [OF assms(1-3)])
  have "queue_name (en_x en) n p c \<notin> ?Q"
    if "\<forall>q\<in>insert p (set (active_members d' n l)). CHR ''.'' \<notin> set q" "p \<notin> set (active_members d' n l)" for p
  proof
    assume "queue_name (en_x en) n p c \<in> ?Q"
    then obtain q where "q \<in> set (active_members d' n l)" "queue_name (en_x en) n p c = queue_name (en_x en) n q c"
      by (auto simp: act)
    with queue_name_inject(2) that show False by (metis insert_iff)
  qed
  with Q show ?thesis by simp
qed

theorem routing_follows_membership_witness:
  "\<exists>k d' s'. apply_membership_mutation (sample_env [] []) ''net'' (PrincipalChange Global ''alice'' True ''v2'')
     (Some ''addr'') genesis_db (sample_gw genesis_db) = (Inr (k, d'), s')
   \<and> reached (sample_env [] []) s' Bulk (scope_key (sample_env [] []) ''net'' ''addr'' ''v2'')
     = {queue_name sample_externs ''net'' ''gen'' Bulk, queue_name sample_externs ''net'' ''alice'' Bulk}"
proof -
  let ?mut = "PrincipalChange Global ''alice'' True ''v2''"
  obtain k d' s' where a: "apply_membership_mutation (sample_env [] []) ''net'' ?mut
     (Some ''addr'') genesis_db (sample_gw genesis_db) = (Inr (k, d'), s')" using sample_mutation by blast
  have ok: "schema_ok genesis_db" by (simp add: genesis_db_eq schema_ok_def empty_db_def pk_def)
  have r: "''addr'' \<in> set (mutation_routes genesis_db ''net'' ''global'' (Some ''addr''))"
    by (simp add: mutation_routes_def Let_def)
  have f: "reached (sample_env [] []) (sample_gw genesis_db) Bulk
      (scope_key (sample_env [] []) ''net'' ''addr'' (mutation_version ?mut)) = {}"
    by (simp add: reached_def maybe_bound_def)
  have "set (active_members genesis_db ''net'' ''global'') = {''gen''}"
    by (simp add: genesis_db_eq active_members_def)
  moreover have l: "x_scope_label (en_x (sample_env [] [])) (mutation_scope ?mut) = Inr ''global''"
    by (simp add: sample_externs_def)
  ultimately have "reached (sample_env [] []) s' Bulk (scope_key (sample_env [] []) ''net'' ''addr'' ''v2'')
     = {queue_name sample_externs ''net'' ''gen'' Bulk, queue_name sample_externs ''net'' ''alice'' Bulk}"
    using routing_follows_membership [OF ok a l r f] by (simp add: insert_commute)
  with a show ?thesis by blast
qed

end
