(* ===== verification/Auth.thy ===== *)
theory Auth
  imports Store Sample_Externs
begin

text \<open>
  Session authentication (\<open>auth.rs\<close>): a challenge bound to one principal, the proof that consumes it
  and opens a session, and the verification of bearer tokens. UUIDs and the random nonce are
  arguments. All statements of \<open>prove_session\<close> run in one transaction, so an error leaves the
  database as it was.
\<close>

record verified_session =
  vs_session_id :: string
  vs_network_id :: string
  vs_principal_id :: string

definition hash_token :: "externs \<Rightarrow> string \<Rightarrow> string" where
  "hash_token E token = sha256_hex E token"

definition create_challenge ::
  "externs \<Rightarrow> instant \<Rightarrow> string \<Rightarrow> string \<Rightarrow> challenge_request \<Rightarrow> db \<Rightarrow> (challenge_response \<times> db) result" where
  "create_challenge E now uuid nonce request d =
    (case cq_principals request of
       [claim] \<Rightarrow>
         if pc_principal_id claim \<noteq> pc_public_key_hex claim then
           Inl ''principal id must match its Ed25519 public key''
         else if (case pc_tenant_instance_id claim of None \<Rightarrow> False
                  | Some v \<Rightarrow> blank v \<or> 128 < length v) then
           Inl ''tenant instance id must be non-empty and at most 128 bytes''
         else if \<not> principal_is_admitted now d (cq_network_id request) (pc_principal_id claim) then
           Inl ''principal is not an active network member''
         else let expires = now + 120000000 in
           (case insert_row ch_challenge_id
              \<lparr>ch_challenge_id = uuid, ch_network_id = cq_network_id request,
               ch_principals = cq_principals request, ch_nonce = hex_encode nonce,
               ch_expires_at = expires, ch_consumed_at = None\<rparr> (t_challenges d) of
              None \<Rightarrow> Inl duplicate_key
            | Some t \<Rightarrow> Inr (\<lparr>cr_challenge_id = uuid, cr_nonce = hex_encode nonce,
                             cr_expires_at = millis_u64 expires\<rparr>, d\<lparr>t_challenges := t\<rparr>))
     | _ \<Rightarrow> Inl ''Message Gateway V1 accepts exactly one principal'')"

text \<open>The challenge row a proof consumes: unconsumed, bound to the same network and principals, alive.\<close>

definition claimed_challenge ::
  "externs \<Rightarrow> instant \<Rightarrow> session_proof_request \<Rightarrow> db \<Rightarrow> challenge_row result" where
  "claimed_challenge E now request d =
    and_then (x_parse_uuid E (sq_challenge_id request)) (\<lambda>challenge_id.
    and_then (or_err (find (\<lambda>r. ch_challenge_id r = challenge_id \<and> ch_consumed_at r = None)
        (t_challenges d)) ''unknown or consumed challenge'') (\<lambda>row.
    if ch_network_id row \<noteq> sq_network_id request \<or> ch_principals row \<noteq> sq_principals request
       \<or> ch_expires_at row \<le> now
    then Inl ''challenge binding or expiry validation failed'' else Inr row))"

definition session_history ::
  "instant \<Rightarrow> string \<Rightarrow> principal_claim \<Rightarrow> db \<Rightarrow> history_status \<times> db" where
  "session_history now network_id claim d =
    (case pc_tenant_instance_id claim of
       None \<Rightarrow> (CurrentMailboxOnly, d)
     | Some inst \<Rightarrow>
        (case register_principal_instance now network_id (pc_principal_id claim) inst d of
           (h, d') \<Rightarrow> (if h then HistoryUnavailable else CurrentMailboxOnly, d')))"

definition insert_session ::
  "instant \<Rightarrow> string \<Rightarrow> string \<Rightarrow> string \<Rightarrow> string \<Rightarrow> instant \<Rightarrow> db \<Rightarrow> db result" where
  "insert_session now session_id token_hash network_id principal_id expires d =
    (if token_hash \<in> se_token_hash ` set (t_sessions d) then Inl duplicate_key
     else case insert_row se_session_id
       \<lparr>se_session_id = session_id, se_token_hash = token_hash, se_network_id = network_id,
        se_expires_at = expires, se_created_at = now\<rparr> (t_sessions d) of
       None \<Rightarrow> Inl duplicate_key
     | Some ss \<Rightarrow> (case insert_row session_principal_key
         \<lparr>sp_session_id = session_id, sp_principal_id = principal_id, sp_verified_at = now,
          sp_expires_at = expires\<rparr> (t_session_principals d) of
         None \<Rightarrow> Inl duplicate_key
       | Some ps \<Rightarrow> Inr (d\<lparr>t_sessions := ss, t_session_principals := ps\<rparr>)))"

definition prove_session ::
  "externs \<Rightarrow> config \<Rightarrow> instant \<Rightarrow> string \<times> string \<times> string \<Rightarrow> session_proof_request \<Rightarrow> db
   \<Rightarrow> (session_response \<times> db) result" where
  "prove_session E c now uuids request d =
    (case (sq_principals request, sq_proofs request) of
       ([claim], [proof]) \<Rightarrow>
         if sq_delivery_policy_version request \<noteq> x_policy_version E then
           Inl ''delivery policy version mismatch''
         else
         and_then (claimed_challenge E now request d) (\<lambda>row.
         if pp_principal_id proof \<noteq> pc_principal_id claim
            \<or> \<not> principal_is_admitted now d (ch_network_id row) (pc_principal_id claim) then
           Inl ''principal proof is not admitted''
         else
         and_then (x_session_proof_message E (ch_network_id row) (sq_principals request)
           \<lparr>cr_challenge_id = ch_challenge_id row, cr_nonce = ch_nonce row,
            cr_expires_at = millis_u64 (ch_expires_at row)\<rparr>) (\<lambda>message.
         and_then (x_verify_signature E (pc_public_key_hex claim) message (pp_signature_hex proof)) (\<lambda>_.
         let (session_id, token_uuid, audit_uuid) = uuids;
             (history, d1) = session_history now (ch_network_id row) claim d;
             d2 = d1\<lparr>t_challenges := update_where (\<lambda>r. ch_challenge_id r = ch_challenge_id row)
                    (\<lambda>r. r\<lparr>ch_consumed_at := Some now\<rparr>) (t_challenges d1)\<rparr>;
             token = session_id @ ''.'' @ token_uuid
         in
         and_then (i64_try_from (session_ttl c) ''session TTL outside chrono range'') (\<lambda>ttl.
         let expires = now + interval_ms ttl in
         and_then (insert_session now session_id (hash_token E token) (ch_network_id row)
           (pc_principal_id claim) expires d2) (\<lambda>d3.
         and_then (record_audit now audit_uuid (Some (ch_network_id row))
           (Some (pc_principal_id claim)) ''session_proof'' ''accepted''
           [(''delivery_policy_version'', decimal (unat (sq_delivery_policy_version request))),
            (''history_status'', x_history_label E history)] d3) (\<lambda>d4.
         Inr (\<lparr>sr_session_token = token, sr_network_id = ch_network_id row,
               sr_principal_id = pc_principal_id claim,
               sr_delivery_policy_version = sq_delivery_policy_version request,
               sr_history_status = history, sr_expires_at = millis_u64 expires\<rparr>, d4)))))))
     | _ \<Rightarrow> Inl ''Message Gateway V1 requires one complete principal proof'')"

text \<open>The join of sessions and their principals that \<open>verify_bearer\<close> selects from.\<close>

definition live_sessions :: "instant \<Rightarrow> string \<Rightarrow> db \<Rightarrow> (session_row \<times> session_principal_row) list" where
  "live_sessions now token_hash d =
     filter (\<lambda>(s, p). se_token_hash s = token_hash \<and> now < se_expires_at s
               \<and> sp_session_id p = se_session_id s \<and> now < sp_expires_at p)
       (List.product (t_sessions d) (t_session_principals d))"

definition verify_bearer :: "externs \<Rightarrow> instant \<Rightarrow> string \<Rightarrow> db \<Rightarrow> verified_session result" where
  "verify_bearer E now token d =
    (if blank token then Inl ''missing bearer token''
     else case live_sessions now (hash_token E token) d of
       [] \<Rightarrow> Inl ''invalid or expired session''
     | (s, p) # _ \<Rightarrow>
         if \<not> principal_is_admitted now d (se_network_id s) (sp_principal_id p) then
           Inl ''session principal is no longer admitted''
         else Inr \<lparr>vs_session_id = se_session_id s, vs_network_id = se_network_id s,
                   vs_principal_id = sp_principal_id p\<rparr>)"

section \<open>What a successful proof established\<close>

lemma claimed_challenge_Inr:
  assumes "claimed_challenge E now req d = Inr row"
  shows "row \<in> set (t_challenges d)" and "x_parse_uuid E (sq_challenge_id req) = Inr (ch_challenge_id row)"
    and "ch_consumed_at row = None" and "ch_network_id row = sq_network_id req"
    and "ch_principals row = sq_principals req" and "now < ch_expires_at row"
  using assms
  by (auto simp: claimed_challenge_def and_then_Inr_iff find_Some_iff not_le split: if_splits)

lemma session_history_frame:
  assumes "session_history now n claim d = (h, d1)"
  shows "t_challenges d1 = t_challenges d" "t_sessions d1 = t_sessions d"
    "t_session_principals d1 = t_session_principals d" "t_memberships d1 = t_memberships d"
    "t_grants d1 = t_grants d"
  using assms
  by (auto simp: session_history_def register_principal_instance_def Let_def
      split: option.splits prod.splits)

lemma insert_session_Inr:
  assumes "insert_session now sid th n p ex d = Inr d'"
  shows "d' = d\<lparr>t_sessions := t_sessions d @ [\<lparr>se_session_id = sid, se_token_hash = th,
            se_network_id = n, se_expires_at = ex, se_created_at = now\<rparr>],
          t_session_principals := t_session_principals d @ [\<lparr>sp_session_id = sid,
            sp_principal_id = p, sp_verified_at = now, sp_expires_at = ex\<rparr>]\<rparr>"
    and "sid \<notin> se_session_id ` set (t_sessions d)" and "th \<notin> se_token_hash ` set (t_sessions d)"
    and "(sid, p) \<notin> session_principal_key ` set (t_session_principals d)"
  using assms
  by (auto simp: insert_session_def insert_row_def session_principal_key_def
      split: if_splits option.splits)

lemma record_audit_frame:
  assumes "record_audit now u n p a out det d = Inr d'"
  shows "t_challenges d' = t_challenges d" "t_sessions d' = t_sessions d"
    "t_session_principals d' = t_session_principals d" "t_memberships d' = t_memberships d"
    "t_grants d' = t_grants d"
  using assms by (auto simp: record_audit_def split: option.splits)

lemma prove_session_Inr:
  assumes "prove_session E c now (sid, tok, aud) req d = Inr (resp, d')"
  obtains claim pf row msg where
    "sq_principals req = [claim]" "sq_proofs req = [pf]" "claimed_challenge E now req d = Inr row"
    "pp_principal_id pf = pc_principal_id claim"
    "principal_is_admitted now d (ch_network_id row) (pc_principal_id claim)"
    "x_session_proof_message E (ch_network_id row) [claim] \<lparr>cr_challenge_id = ch_challenge_id row,
       cr_nonce = ch_nonce row, cr_expires_at = millis_u64 (ch_expires_at row)\<rparr> = Inr msg"
    "x_verify_signature E (pc_public_key_hex claim) msg (pp_signature_hex pf) = Inr ()"
    "sr_session_token resp = sid @ ''.'' @ tok" "sr_network_id resp = ch_network_id row"
    "sr_principal_id resp = pc_principal_id claim"
    "t_challenges d' = update_where (\<lambda>r. ch_challenge_id r = ch_challenge_id row)
       (\<lambda>r. r\<lparr>ch_consumed_at := Some now\<rparr>) (t_challenges d)"
    "t_sessions d' = t_sessions d @ [\<lparr>se_session_id = sid,
       se_token_hash = hash_token E (sid @ ''.'' @ tok), se_network_id = ch_network_id row,
       se_expires_at = now + interval_ms (int (session_ttl c)), se_created_at = now\<rparr>]"
    "t_session_principals d' = t_session_principals d @ [\<lparr>sp_session_id = sid,
       sp_principal_id = pc_principal_id claim, sp_verified_at = now,
       sp_expires_at = now + interval_ms (int (session_ttl c))\<rparr>]"
    "sid \<notin> se_session_id ` set (t_sessions d)"
    "hash_token E (sid @ ''.'' @ tok) \<notin> se_token_hash ` set (t_sessions d)"
    "t_memberships d' = t_memberships d" "t_grants d' = t_grants d"
proof -
  from assms obtain claim pf where cp: "sq_principals req = [claim]" "sq_proofs req = [pf]"
    by (auto simp: prove_session_def split: list.splits)
  obtain h d1 row where row: "claimed_challenge E now req d = Inr row"
    and h: "session_history now (ch_network_id row) claim d = (h, d1)"
    using assms by (force simp: prove_session_def cp and_then_Inr_iff split: if_splits)
  define d2 where "d2 = d1\<lparr>t_challenges := update_where (\<lambda>r. ch_challenge_id r = ch_challenge_id row)
       (\<lambda>r. r\<lparr>ch_consumed_at := Some now\<rparr>) (t_challenges d1)\<rparr>"
  obtain msg d3 det where *: "pp_principal_id pf = pc_principal_id claim"
    "principal_is_admitted now d (ch_network_id row) (pc_principal_id claim)"
    "x_session_proof_message E (ch_network_id row) [claim] \<lparr>cr_challenge_id = ch_challenge_id row,
       cr_nonce = ch_nonce row, cr_expires_at = millis_u64 (ch_expires_at row)\<rparr> = Inr msg"
    "x_verify_signature E (pc_public_key_hex claim) msg (pp_signature_hex pf) = Inr ()"
    and d3: "insert_session now sid (hash_token E (sid @ ''.'' @ tok)) (ch_network_id row)
       (pc_principal_id claim) (now + interval_ms (int (session_ttl c))) d2 = Inr d3"
    and aud: "record_audit now aud (Some (ch_network_id row)) (Some (pc_principal_id claim))
       ''session_proof'' ''accepted'' det d3 = Inr d'"
    and resp: "sr_session_token resp = sid @ ''.'' @ tok" "sr_network_id resp = ch_network_id row"
      "sr_principal_id resp = pc_principal_id claim"
    using assms
    by (auto simp: prove_session_def cp row h and_then_Inr_iff Let_def d2_def split: if_splits)
  note frames = session_history_frame [OF h] record_audit_frame [OF aud]
  note ins = insert_session_Inr [OF d3]
  show thesis
    by (rule that [OF cp row * resp]) (use ins in \<open>simp_all add: frames d2_def\<close>)
qed

section \<open>Histories\<close>

text \<open>
  The state-changing operations of the authentication component, in any order, with challenges
  created under fresh identifiers (other than \<open>k\<close>).
\<close>

inductive auth_step :: "string \<Rightarrow> db \<Rightarrow> db \<Rightarrow> bool" for k :: string where
  create: "create_challenge E now uuid nonce req d = Inr (resp, d') \<Longrightarrow> uuid \<noteq> k \<Longrightarrow> auth_step k d d'"
| prove: "prove_session E c now uuids req d = Inr (resp, d') \<Longrightarrow> auth_step k d d'"
| cleanup: "cleanup_expired_metadata now ret d = (res, d') \<Longrightarrow> auth_step k d d'"

definition consumed :: "string \<Rightarrow> db \<Rightarrow> bool" where
  "consumed k d \<longleftrightarrow> (\<forall>r\<in>set (t_challenges d). ch_challenge_id r = k \<longrightarrow> ch_consumed_at r \<noteq> None)"

lemma create_challenge_Inr:
  assumes "create_challenge E now uuid nonce req d = Inr (resp, d')"
  shows "\<exists>r. ch_challenge_id r = uuid \<and> t_challenges d' = t_challenges d @ [r]"
    and "uuid \<notin> ch_challenge_id ` set (t_challenges d)" and "t_sessions d' = t_sessions d"
    and "t_session_principals d' = t_session_principals d"
  using assms
  by (auto simp: create_challenge_def Let_def insert_row_def split: list.splits if_splits option.splits)

lemma cleanup_challenges:
  assumes "cleanup_expired_metadata now ret d = (res, d')"
  shows "set (t_challenges d') \<subseteq> set (t_challenges d)"
  using assms by (auto simp: cleanup_expired_metadata_def Let_def tab_simps split: sum.splits)

lemma auth_step_consumed: "auth_step k d d' \<Longrightarrow> consumed k d \<Longrightarrow> consumed k d'"
proof (induction rule: auth_step.induct)
  case (create E now uuid nonce req d resp d')
  then show ?case using create_challenge_Inr [OF create.hyps(1)] by (auto simp: consumed_def)
next
  case (prove E c now uuids req d resp d')
  obtain sid tok aud where u: "uuids = (sid, tok, aud)" by (cases uuids)
  from prove.hyps [unfolded u] have "\<exists>P. t_challenges d' = update_where P
      (\<lambda>r. r\<lparr>ch_consumed_at := Some now\<rparr>) (t_challenges d)"
    by (rule prove_session_Inr) blast
  then show ?case using prove.prems by (auto simp: consumed_def tab_simps)
next
  case (cleanup now ret d res d')
  then show ?case using cleanup_challenges [OF cleanup.hyps] by (auto simp: consumed_def)
qed

lemma prove_session_consumed:
  assumes "consumed k d" and "x_parse_uuid E (sq_challenge_id req) = Inr k"
  shows "\<not> is_ok (prove_session E c now uuids req d)"
proof
  assume "is_ok (prove_session E c now uuids req d)"
  then obtain resp d' where ok: "prove_session E c now uuids req d = Inr (resp, d')"
    by (auto simp: is_ok_iff)
  obtain sid tok aud where u: "uuids = (sid, tok, aud)" by (cases uuids)
  from ok [unfolded u] obtain row where "claimed_challenge E now req d = Inr row"
    by (rule prove_session_Inr) blast
  from claimed_challenge_Inr [OF this] assms show False by (auto simp: consumed_def)
qed

text \<open>The session tables: unique tokens, and principals only of sessions that exist.\<close>

definition sessions_ok :: "db \<Rightarrow> bool" where
  "sessions_ok d \<longleftrightarrow> pk se_session_id (t_sessions d) \<and> pk se_token_hash (t_sessions d)
     \<and> sp_session_id ` set (t_session_principals d) \<subseteq> se_session_id ` set (t_sessions d)"

lemma auth_step_sessions_ok: "auth_step k d d' \<Longrightarrow> sessions_ok d \<Longrightarrow> sessions_ok d'"
proof (induction rule: auth_step.induct)
  case (create E now uuid nonce req d resp d')
  then show ?case using create_challenge_Inr(3,4) [OF create.hyps(1)] by (simp add: sessions_ok_def)
next
  case (prove E c now uuids req d resp d')
  obtain sid tok aud where u: "uuids = (sid, tok, aud)" by (cases uuids)
  from prove.hyps [unfolded u] show ?case
    by (rule prove_session_Inr)
      (use prove.prems in \<open>auto simp: sessions_ok_def intro: pk_append_fresh\<close>)
next
  case (cleanup now ret d res d')
  show ?case
  proof (cases "i64_try_from ret ''acknowledged gap retention is too large''")
    case (Inr v)
    then have s: "t_sessions d' = delete_where (\<lambda>r. se_expires_at r \<le> now) (t_sessions d)"
      and p: "t_session_principals d' = delete_where
          (\<lambda>p. sp_session_id p \<in> set (expired_session_ids now d)) (t_session_principals d)"
      using cleanup.hyps [unfolded cleanup_expired_metadata_def Inr] by (auto simp: Let_def)
    have "sp_session_id x \<in> se_session_id ` set (t_sessions d')"
      if "x \<in> set (t_session_principals d')" for x
    proof -
      from that have x: "x \<in> set (t_session_principals d)"
        "sp_session_id x \<notin> set (expired_session_ids now d)" by (auto simp: p tab_simps)
      then obtain r where "r \<in> set (t_sessions d)" "se_session_id r = sp_session_id x"
        using cleanup.prems by (force simp: sessions_ok_def)
      with x(2) show ?thesis by (force simp: s tab_simps expired_session_ids_def)
    qed
    then show ?thesis using cleanup.prems pk_delete by (auto simp: sessions_ok_def s)
  qed (use cleanup in \<open>simp add: cleanup_expired_metadata_def\<close>)
qed

section \<open>Bearer tokens\<close>

lemma blank_chars: "blank s \<Longrightarrow> c \<in> set s \<Longrightarrow> \<exists>w\<in>set ws_encodings. c \<in> set w"
proof (induction s rule: blank.induct)
  case (1 s)
  then have "s \<noteq> []" by auto
  with 1(2) obtain w where w: "find (\<lambda>w. starts_with w s) ws_encodings = Some w"
    and rest: "blank (drop (length w) s)"
    by (subst (asm) blank.simps) (auto split: option.splits)
  then have ws: "w \<in> set ws_encodings" "starts_with w s" by (auto simp: find_Some_iff)
  then have "s = w @ drop (length w) s" by (metis append_take_drop_id starts_with_def)
  with 1(3) have "c \<in> set w \<or> c \<in> set (drop (length w) s)" by (metis Un_iff set_append)
  with 1(1) [OF \<open>s \<noteq> []\<close> w rest] ws(1) show ?case by blast
qed

lemma session_token_not_blank: "\<not> blank (a @ CHR ''.'' # b)"
  using blank_chars [of "a @ CHR ''.'' # b" "CHR ''.''"] by (auto simp: ws_encodings_def)

text \<open>In a consistent database a token selects the principals of one session.\<close>

lemma live_sessions_unique:
  assumes "sessions_ok d" and "(s, p) \<in> set (live_sessions now h d)" and "(s', p') \<in> set (live_sessions now h d)"
  shows "s = s'"
  using assms by (auto simp: live_sessions_def sessions_ok_def intro: pk_unique)

lemma live_sessions_iff:
  "(s, p) \<in> set (live_sessions now h d) \<longleftrightarrow>
     s \<in> set (t_sessions d) \<and> p \<in> set (t_session_principals d) \<and> se_token_hash s = h
     \<and> now < se_expires_at s \<and> sp_session_id p = se_session_id s \<and> now < sp_expires_at p"
  by (auto simp: live_sessions_def)

lemma principal_is_admitted_frame:
  "t_memberships d' = t_memberships d \<Longrightarrow> t_grants d' = t_grants d \<Longrightarrow>
   principal_is_admitted now d' n p = principal_is_admitted now d n p"
  by (simp add: principal_is_admitted_iff grant_live_def)

text \<open>The bearer of the token of a session just inserted.\<close>

lemma verify_bearer_inserted:
  assumes ok: "sessions_ok d"
    and ts: "t_sessions d' = t_sessions d @ [s]" and tp: "t_session_principals d' = t_session_principals d @ [p]"
    and new: "se_session_id s \<notin> se_session_id ` set (t_sessions d)"
      "se_token_hash s \<notin> se_token_hash ` set (t_sessions d)"
      "sp_session_id p = se_session_id s" "sp_expires_at p = se_expires_at s"
    and token: "se_token_hash s = hash_token E token" "\<not> blank token"
    and frame: "t_memberships d' = t_memberships d" "t_grants d' = t_grants d"
  shows "verify_bearer E t token d' =
     (if se_expires_at s \<le> t then Inl ''invalid or expired session''
      else if principal_is_admitted t d (se_network_id s) (sp_principal_id p)
      then Inr \<lparr>vs_session_id = se_session_id s, vs_network_id = se_network_id s,
                vs_principal_id = sp_principal_id p\<rparr>
      else Inl ''session principal is no longer admitted'')"
proof -
  have 1: "se_token_hash x \<noteq> se_token_hash s" if "x \<in> set (t_sessions d)" for x
    using new(2) that by (metis imageI)
  have 2: "sp_session_id x \<noteq> se_session_id s" if "x \<in> set (t_session_principals d)" for x
    using new(1) ok that unfolding sessions_ok_def by (metis imageI subsetD)
  have only: "(x, y) \<in> set (live_sessions t (hash_token E token) d') \<longleftrightarrow>
      x = s \<and> y = p \<and> t < se_expires_at s" for x y
    using 1 2 new(3,4) unfolding live_sessions_iff ts tp token(1) [symmetric] by auto
  show ?thesis
  proof (cases "live_sessions t (hash_token E token) d'")
    case Nil
    then have "se_expires_at s \<le> t" using only [of s p] by auto
    with Nil token(2) show ?thesis by (simp add: verify_bearer_def)
  next
    case (Cons xy rest)
    then have "xy = (s, p)" "t < se_expires_at s"
      using only [of "fst xy" "snd xy"] by (auto simp: prod_eq_iff)
    with Cons token(2) show ?thesis
      by (simp add: verify_bearer_def principal_is_admitted_frame [OF frame])
  qed
qed

section \<open>Properties\<close>

text \<open>
  C22. A challenge opens at most one session: after a successful proof, no later proof that names the
  same challenge succeeds, whatever challenges, proofs and cleanups happen in between.
\<close>

theorem challenge_single_use:
  assumes "prove_session E c now uuids req d = Inr (resp, d')"
    and "x_parse_uuid E (sq_challenge_id req) = Inr k"
    and "(auth_step k)\<^sup>*\<^sup>* d' d''"
    and "x_parse_uuid E' (sq_challenge_id req') = Inr k"
  shows "\<not> is_ok (prove_session E' c' now' uuids' req' d'')"
proof -
  obtain sid tok aud where u: "uuids = (sid, tok, aud)" by (cases uuids)
  from assms(1) [unfolded u] have "\<exists>row. claimed_challenge E now req d = Inr row
      \<and> t_challenges d' = update_where (\<lambda>r. ch_challenge_id r = ch_challenge_id row)
          (\<lambda>r. r\<lparr>ch_consumed_at := Some now\<rparr>) (t_challenges d)"
    by (rule prove_session_Inr) blast
  then have "consumed k d'"
    using claimed_challenge_Inr(2) assms(2) by (fastforce simp: consumed_def tab_simps)
  with assms(3) have "consumed k d''"
    by (induction rule: rtranclp_induct) (auto intro: auth_step_consumed)
  then show ?thesis using assms(4) by (rule prove_session_consumed)
qed


section \<open>A session of the sample member\<close>

definition alice_claim :: principal_claim where
  "alice_claim = \<lparr>pc_principal_id = ''alice'', pc_public_key_hex = ''alice'', pc_tenant_instance_id = None\<rparr>"

definition challenged_db :: db where
  "challenged_db = one_member_db\<lparr>t_challenges :=
     [\<lparr>ch_challenge_id = ''c1'', ch_network_id = ''net'', ch_principals = [alice_claim],
       ch_nonce = ''6e'', ch_expires_at = 120000000, ch_consumed_at = None\<rparr>]\<rparr>"

definition alice_proof :: session_proof_request where
  "alice_proof = \<lparr>sq_network_id = ''net'', sq_challenge_id = ''c1'', sq_principals = [alice_claim],
     sq_proofs = [\<lparr>pp_principal_id = ''alice'', pp_signature_hex = ''alicenetc16e''\<rparr>],
     sq_delivery_policy_version = 1\<rparr>"

lemma alice_proves:
  "\<exists>resp d'. prove_session sample_externs valid 1000000 (''s'', ''t'', ''a'') alice_proof challenged_db
     = Inr (resp, d')"
  by (simp add: prove_session_def alice_proof_def alice_claim_def sample_externs_def
      claimed_challenge_def challenged_db_def one_member_db_def empty_db_def principal_is_admitted_def
      live_member_def grant_live_def row_of_def session_history_def Let_def insert_session_def
      insert_row_def record_audit_def i64_try_from_def valid_def)

theorem challenge_single_use_witness:
  "\<exists>resp d'. prove_session sample_externs valid 1000000 (''s'', ''t'', ''a'') alice_proof challenged_db
       = Inr (resp, d')
     \<and> \<not> is_ok (prove_session sample_externs valid 2000000 (''s2'', ''t2'', ''a2'') alice_proof d')"
proof -
  obtain resp d' where ok: "prove_session sample_externs valid 1000000 (''s'', ''t'', ''a'') alice_proof
      challenged_db = Inr (resp, d')" using alice_proves by blast
  moreover have "\<not> is_ok (prove_session sample_externs valid 2000000 (''s2'', ''t2'', ''a2'') alice_proof d')"
    by (rule challenge_single_use [OF ok, of "''c1''"]) (simp_all add: alice_proof_def sample_externs_def)
  ultimately show ?thesis by blast
qed


end
