(* ===== verification/Publish.thy ===== *)
theory Publish
  imports Routing Auth Rate_Buckets
begin

text \<open>
  Publishing (\<open>service.rs\<close>): validation of the signed frames of every payload type, the idempotency
  receipts, \<open>publish\<close> with its authorization, mutation, budgets, token buckets, confirmed fan-out and
  receipt, and \<open>send_control\<close>. While a publish holds the transaction of its scope fence, statements on the
  pool act on the database and the transaction's own writes (a membership mutation) are kept beside it as
  a view; the commit lays that view over the database.
\<close>

section \<open>Validation of frames\<close>

record validated_frame =
  vf_route :: route
  vf_urgency :: urgency
  vf_membership_mutation :: "membership_mutation option"

fun scope_from_hint :: "scope_hint \<Rightarrow> swarm_scope" where
  "scope_from_hint HintGlobal = Global"
| "scope_from_hint (HintRegion i) = Region i"
| "scope_from_hint (HintNode i) = Node i"
| "scope_from_hint (HintGroup i) = Group i"

definition is_public_global_control :: "event_payload \<Rightarrow> bool" where
  "is_public_global_control p =
    (case p of
       MembershipUpdated _ \<Rightarrow> True | PolicyTuned \<Rightarrow> True | NetworkParamsUpdated \<Rightarrow> True
     | CheckpointCreated \<Rightarrow> True | AdvisoryCreated \<Rightarrow> True | AdvisoryApproved \<Rightarrow> True
     | AdvisoryApplied \<Rightarrow> True | EventRevoked \<Rightarrow> True | SummaryRevoked \<Rightarrow> True
     | NodePenalized \<Rightarrow> True | _ \<Rightarrow> False)"

definition announcement_route :: "externs \<Rightarrow> swarm_scope \<Rightarrow> lane \<Rightarrow> bool \<Rightarrow> route result" where
  "announcement_route E scope l public = x_route_from_kind E scope l (x_lane_str E l) public"

definition verify_authority_record ::
  "externs \<Rightarrow> verified_session \<Rightarrow> string option \<Rightarrow> string option \<Rightarrow> string \<Rightarrow> unit result" where
  "verify_authority_record E session signer signature message =
    (case (signer, signature) of
       (Some signer, Some signature) \<Rightarrow>
         if signer \<noteq> vs_principal_id session then
           Inl ''Global authority record signer does not match session''
         else x_verify_signature E signer message signature
     | _ \<Rightarrow> Inl ''Global authority record requires an author signature'')"

definition event_mutation :: "event \<Rightarrow> membership_mutation option result" where
  "event_mutation e =
    (case ev_payload e of
       MembershipUpdated u \<Rightarrow> Inr (Some (Snapshot Global (mu_new_membership u) (mu_quorum_threshold u)
         (mu_quorum_signatures u) (ev_event_id e)))
     | FeedSubscriptionUpdated u \<Rightarrow>
         and_then (or_err (map_option scope_from_hint (fs_scope u)) ''subscription mutation has invalid scope'') (\<lambda>scope.
         if fs_subscriber_node_id u \<noteq> ev_author_node_id e then
           Inl ''subscription mutation author must be its subscriber''
         else Inr (case scope of
             Global \<Rightarrow> None | Node _ \<Rightarrow> None
           | _ \<Rightarrow> Some (PrincipalChange scope (fs_subscriber_node_id u) (fs_active u) (ev_event_id e))))
     | _ \<Rightarrow> Inr None)"

definition event_lane :: "event \<Rightarrow> lane" where
  "event_lane e = (if ev_event_kind e = ''TopicMessagePosted'' then Messages else Events)"

definition event_urgency :: "swarm_scope \<Rightarrow> bool \<Rightarrow> urgency" where
  "event_urgency scope public =
    (case scope of Node _ \<Rightarrow> ExplicitRecipient
     | _ \<Rightarrow> if public then TimeSensitiveControl else Background)"

definition validate_event_frame :: "externs \<Rightarrow> publish_frame \<Rightarrow> verified_session \<Rightarrow> validated_frame result" where
  "validate_event_frame E frame session =
    and_then (x_decode_event E (pf_payload frame)) (\<lambda>e.
    and_then (x_verify_event_signature E e) (\<lambda>_.
    if ev_event_id e \<noteq> pf_record_id frame \<or> ev_author_node_id e \<noteq> vs_principal_id session then
      Inl ''signed Event identity or author does not match session''
    else and_then (or_err (map_option scope_from_hint (x_parse_scope E (ev_swarm_scope e)))
      ''signed Event has invalid swarm scope'') (\<lambda>scope.
    let public = is_public_global_control (ev_payload e) in
    and_then (x_route_from_kind E scope (event_lane e) (ev_event_kind e) public) (\<lambda>route.
    if route \<noteq> pf_transport frame then
      Inl ''transport route does not match signed Event scope and kind''
    else if pf_payload_type frame = PMessage \<and> rt_lane route \<noteq> Messages then
      Inl ''Message payload type requires the existing Messages lane Event''
    else if rt_scope route = Global \<and> \<not> public then
      Inl ''non-control Event cannot use the Global route''
    else and_then (event_mutation e) (\<lambda>mut.
    if (case mut of None \<Rightarrow> False | Some m \<Rightarrow> mutation_scope m \<noteq> rt_scope route) then
      Inl ''membership mutation scope does not match signed Event route''
    else Inr \<lparr>vf_route = route, vf_urgency = event_urgency (rt_scope route) public,
              vf_membership_mutation = mut\<rparr>)))))"

definition validate_rule_frame :: "externs \<Rightarrow> publish_frame \<Rightarrow> verified_session \<Rightarrow> validated_frame result" where
  "validate_rule_frame E frame session =
    and_then (x_decode_rule E (pf_payload frame)) (\<lambda>rule.
    if pf_record_id frame \<noteq> sha256_hex E (pf_payload frame) then
      Inl ''Rule record id does not match its canonical record bytes''
    else and_then (if ra_scope rule = Global
      then verify_authority_record E session (ra_signer rule) (ra_signature rule) (x_rule_message E rule)
      else Inr ()) (\<lambda>_.
    and_then (announcement_route E (ra_scope rule) Rules (ra_scope rule = Global)) (\<lambda>route.
    if route \<noteq> pf_transport frame then Inl ''Rule transport route mismatch''
    else Inr \<lparr>vf_route = route, vf_urgency = TimeSensitiveControl, vf_membership_mutation = None\<rparr>)))"

definition validate_checkpoint_frame ::
  "externs \<Rightarrow> publish_frame \<Rightarrow> verified_session \<Rightarrow> validated_frame result" where
  "validate_checkpoint_frame E frame session =
    and_then (x_decode_checkpoint E (pf_payload frame)) (\<lambda>c.
    if ca_checkpoint_id c \<noteq> pf_record_id frame then Inl ''Checkpoint record id mismatch''
    else and_then (if ca_scope c = Global
      then verify_authority_record E session (ca_signer c) (ca_signature c) (x_checkpoint_message E c)
      else Inr ()) (\<lambda>_.
    and_then (announcement_route E (ca_scope c) Checkpoints (ca_scope c = Global)) (\<lambda>route.
    if route \<noteq> pf_transport frame then Inl ''Checkpoint transport route mismatch''
    else Inr \<lparr>vf_route = route, vf_urgency = Background, vf_membership_mutation = None\<rparr>)))"

definition validate_summary_frame :: "externs \<Rightarrow> publish_frame \<Rightarrow> verified_session \<Rightarrow> validated_frame result" where
  "validate_summary_frame E frame session =
    and_then (x_decode_summary E (pf_payload frame)) (\<lambda>u.
    if sa_summary_id u \<noteq> pf_record_id frame \<or> sa_source_node_id u \<noteq> vs_principal_id session then
      Inl ''Summary identity or source does not match session''
    else and_then (announcement_route E (sa_scope u) Summaries False) (\<lambda>route.
    if route \<noteq> pf_transport frame then Inl ''Summary transport route mismatch''
    else Inr \<lparr>vf_route = route, vf_urgency = Background, vf_membership_mutation = None\<rparr>))"

definition validate_record_frame :: "externs \<Rightarrow> publish_frame \<Rightarrow> verified_session \<Rightarrow> validated_frame result" where
  "validate_record_frame E frame session =
    (if 1024 * 1024 < length (pf_payload frame) then Inl ''publish frame exceeds the V1 size limit''
     else case pf_payload_type frame of
       PEvent \<Rightarrow> validate_event_frame E frame session
     | PMessage \<Rightarrow> validate_event_frame E frame session
     | PRule \<Rightarrow> validate_rule_frame E frame session
     | PCheckpoint \<Rightarrow> validate_checkpoint_frame E frame session
     | PSummary \<Rightarrow> validate_summary_frame E frame session)"

section \<open>Receipts\<close>

definition class_of_str :: "string \<Rightarrow> delivery_class option" where
  "class_of_str s = (if s = ''interactive'' then Some Interactive else if s = ''bulk'' then Some Bulk else None)"

definition receipt_lifetime :: int where
  "receipt_lifetime = interval_ms (24 * 3600 * 1000)"

definition live_receipt :: "instant \<Rightarrow> db \<Rightarrow> string \<Rightarrow> string \<Rightarrow> string \<Rightarrow> receipt_row option" where
  "live_receipt now d network_id principal_id record_id =
     find (\<lambda>r. receipt_key r = (network_id, principal_id, record_id) \<and> pr_status r = ''confirmed''
       \<and> now < pr_expires_at r) (t_receipts d)"

definition load_confirmed_receipt ::
  "instant \<Rightarrow> db \<Rightarrow> string \<Rightarrow> string \<Rightarrow> string \<Rightarrow> string \<Rightarrow> string \<Rightarrow> publish_acceptance option result" where
  "load_confirmed_receipt now d network_id principal_id record_id record_hash route_hash =
    (case live_receipt now d network_id principal_id record_id of
       None \<Rightarrow> Inr None
     | Some r \<Rightarrow>
         if pr_route_hash r \<noteq> route_hash \<or> pr_record_hash r \<noteq> record_hash then
           Inl ''idempotent publish record or route mismatch''
         else and_then (or_err (class_of_str (pr_class r)) ''stored receipt has invalid delivery class'') (\<lambda>class.
           Inr (Some \<lparr>pa_publish_receipt = ''existing:'' @ record_id, pa_record_id = record_id,
             pa_delivery_class = class, pa_delivery_policy_version = pr_policy_version r,
             pa_membership_version = pr_membership_version r\<rparr>)))"

definition receipt_merge :: "instant \<Rightarrow> receipt_row \<Rightarrow> receipt_row \<Rightarrow> receipt_row option" where
  "receipt_merge now n e =
    (if pr_expires_at e \<le> now then
       Some (e\<lparr>pr_route_hash := pr_route_hash n, pr_record_hash := pr_record_hash n,
               pr_membership_version := pr_membership_version n, pr_class := pr_class n,
               pr_policy_version := pr_policy_version n, pr_expected_recipients := pr_expected_recipients n,
               pr_binding_set_hash := pr_binding_set_hash n, pr_status := ''confirmed'',
               pr_confirmed_at := Some now, pr_expires_at := pr_expires_at n\<rparr>)
     else None)"

section \<open>Publishing a record\<close>

text \<open>The writes of the scope-fence transaction laid over the database.\<close>

definition tx_view :: "db option \<Rightarrow> db \<Rightarrow> db" where
  "tx_view tx d =
    (case tx of
       None \<Rightarrow> d
     | Some t \<Rightarrow> d\<lparr>t_memberships := t_memberships t, t_windows := t_windows t,
                   t_bindings := t_bindings t, t_versions := t_versions t\<rparr>)"

definition self_subscription :: "verified_session \<Rightarrow> membership_mutation option \<Rightarrow> bool" where
  "self_subscription session mut =
    (case mut of Some (PrincipalChange _ q active _) \<Rightarrow> active \<and> q = vs_principal_id session | _ \<Rightarrow> False)"

definition mutate_scope ::
  "env \<Rightarrow> verified_session \<Rightarrow> validated_frame \<Rightarrow> string option \<times> u64 \<Rightarrow> (string option \<times> u64 \<times> db option) op" where
  "mutate_scope en session v authorized =
    (case vf_membership_mutation v of
       None \<Rightarrow> ret (fst authorized, snd authorized, None)
     | Some mut \<Rightarrow>
         bnd (reads gw_db) (\<lambda>d.
         bnd (attempt (apply_membership_mutation en (vs_network_id session) mut
           (Some (rt_address (vf_route v))) d)) (\<lambda>result.
         bnd (observed (record_membership_update (en_elapsed en) (is_ok result))) (\<lambda>_.
         bnd (lift_res result) (\<lambda>(recipients, tx).
         ret (Some (mutation_version mut), recipients, Some tx))))))"

definition author_is_recipient ::
  "instant \<Rightarrow> externs \<Rightarrow> db \<Rightarrow> verified_session \<Rightarrow> validated_frame \<Rightarrow> string option \<Rightarrow> bool result" where
  "author_is_recipient now E d session v version =
    (let p = vs_principal_id session;
         stored = scope_contains_principal now E d (vs_network_id session) (rt_scope (vf_route v)) p version
     in case vf_membership_mutation v of
          Some (Snapshot _ membership _ _ _) \<Rightarrow> Inr (p \<in> set (map fst membership))
        | Some (PrincipalChange _ q active _) \<Rightarrow> if q = p then Inr active else stored
        | None \<Rightarrow> stored)"

definition check_byte_budget :: "config \<Rightarrow> publish_frame \<Rightarrow> u64 \<Rightarrow> unit result" where
  "check_byte_budget c frame recipients =
    and_then (or_err (checked_mul (of_nat (length (pf_payload frame))) recipients)
      ''fanout byte budget overflow'') (\<lambda>fanout_bytes.
    bail_if (max_fanout_bytes_per_publish c < fanout_bytes)
      ''scope fanout exceeds the per-publish byte budget'')"

text \<open>A token acquisition commits its own transaction on the pool, also when it is refused.\<close>

definition acquire_with ::
  "env \<Rightarrow> bool \<Rightarrow> (db \<Rightarrow> (bool \<times> db) result) \<Rightarrow> string \<Rightarrow> unit op" where
  "acquire_with en global acquire refusal =
    bnd (attempt (db_op (\<lambda>d. case acquire d of Inl e \<Rightarrow> (Inl e, d) | Inr (ok, d') \<Rightarrow> (Inr ok, d')))) (\<lambda>result.
    bnd (observed (record_token_bucket_acquire (en_elapsed en) global)) (\<lambda>_.
    bnd (if is_ok result then ret () else observed record_postgres_fail_closed) (\<lambda>_.
    bnd (lift_res result) (\<lambda>allowed.
    if allowed then ret ()
    else bnd (observed (record_backpressure global)) (\<lambda>_. raise refusal)))))"

definition acquire_tokens ::
  "env \<Rightarrow> verified_session \<Rightarrow> publish_frame \<Rightarrow> swarm_scope \<Rightarrow> delivery_class \<Rightarrow> u64 \<Rightarrow> unit op" where
  "acquire_tokens en session frame scope class recipients =
    (let c = en_config en; ts = (en_now en, en_now en, en_now en) in
     case scope of
       Node _ \<Rightarrow> ret ()
     | Global \<Rightarrow> acquire_with en True (acquire_global_token ts (vs_network_id session) ''cell-0'' class
         (max_global_publishes_per_second c)
         (sat_sub (max_global_publishes_per_second c) (global_interactive_reserved_per_second c))
         (global_publish_burst c) (pf_delivery_policy_version frame))
         ''Global publish is backpressured by the shared cell token bucket''
     | _ \<Rightarrow> acquire_with en False (acquire_non_global_delivery_tokens ts (vs_network_id session) ''cell-0''
         recipients (reserved_non_global_deliveries_per_second c) (pf_delivery_policy_version frame))
         ''non-Global fanout is backpressured by the shared cell token bucket'')"

definition record_of ::
  "env \<Rightarrow> verified_session \<Rightarrow> publish_frame \<Rightarrow> route \<Rightarrow> delivery_class \<Rightarrow> string option \<Rightarrow> broker_record" where
  "record_of en session frame route class version =
    \<lparr>br_network_id = vs_network_id session, br_record_id = pf_record_id frame,
     br_source_principal_id = vs_principal_id session, br_route = route, br_record = pf_payload frame,
     br_membership_version = version, br_delivery_class = class,
     br_delivery_policy_version = pf_delivery_policy_version frame,
     br_enqueued_at = millis_u64 (en_now en),
     br_expires_at = Some (millis_u64 (en_now en) + mailbox_message_ttl_ms (en_config en))\<rparr>"

definition direct_recipient :: "swarm_scope \<Rightarrow> string option" where
  "direct_recipient scope = (case scope of Node node_id \<Rightarrow> Some node_id | _ \<Rightarrow> None)"

definition publish_record ::
  "env \<Rightarrow> verified_session \<Rightarrow> publish_frame \<Rightarrow> route \<Rightarrow> delivery_class \<Rightarrow> string option \<Rightarrow> u64 \<Rightarrow> unit op" where
  "publish_record en session frame route class version expected =
    bnd (attempt (rabbit_publish en (direct_recipient (rt_scope route))
      (record_of en session frame route class version))) (\<lambda>result.
    bnd (observed (record_publish_confirm (en_x en) (vs_network_id session) (rt_scope route) (rt_lane route)
      expected (en_elapsed en) (publish_confirm_outcome result))) (\<lambda>_.
    lift_res result))"

definition json_opt :: "string option \<Rightarrow> string" where
  "json_opt v = (case v of None \<Rightarrow> ''null'' | Some s \<Rightarrow> s)"

definition store_receipt ::
  "env \<Rightarrow> verified_session \<Rightarrow> publish_frame \<Rightarrow> route \<Rightarrow> delivery_class \<Rightarrow> string \<Rightarrow> string
   \<Rightarrow> string option \<Rightarrow> u64 \<Rightarrow> db \<Rightarrow> db result" where
  "store_receipt en session frame route class record_hash route_hash version expected d =
    (let binding_hash = sha256_hex (en_x en) (route_hash @ '':'' @ (case version of None \<Rightarrow> [] | Some v \<Rightarrow> v)
           @ '':'' @ decimal (unat expected));
         d1 = d\<lparr>t_receipts := upsert receipt_key (receipt_merge (en_now en))
           \<lparr>pr_network_id = vs_network_id session, pr_principal_id = vs_principal_id session,
            pr_record_id = pf_record_id frame, pr_route_hash = route_hash, pr_record_hash = record_hash,
            pr_membership_version = version, pr_class = class_str class,
            pr_policy_version = pf_delivery_policy_version frame, pr_expected_recipients = expected,
            pr_binding_set_hash = binding_hash, pr_status = ''confirmed'',
            pr_confirmed_at = Some (en_now en), pr_expires_at = en_now en + receipt_lifetime\<rparr> (t_receipts d)\<rparr>
     in record_audit (en_now en) (en_uuid en 1) (Some (vs_network_id session)) (Some (vs_principal_id session))
          ''publish'' ''confirmed''
          [(''record_id'', pf_record_id frame), (''scope'', x_json_scope (en_x en) (rt_scope route)),
           (''lane'', x_json_lane (en_x en) (rt_lane route)), (''delivery_class'', x_json_class (en_x en) class),
           (''delivery_policy_version'', decimal (unat (pf_delivery_policy_version frame))),
           (''membership_version'', json_opt version), (''expected_recipients'', decimal (unat expected))] d1)"

text \<open>The budgets, the fan-out and the receipt, for a known version and number of recipients.\<close>

definition publish_admitted ::
  "env \<Rightarrow> verified_session \<Rightarrow> publish_frame \<Rightarrow> validated_frame \<Rightarrow> delivery_class \<Rightarrow> string \<Rightarrow> string
   \<Rightarrow> string option \<Rightarrow> u64 \<Rightarrow> db option \<Rightarrow> publish_acceptance op" where
  "publish_admitted en session frame v class record_hash route_hash version recipients tx =
    (let route = vf_route v in
    bnd (lift_res (bail_if (recipients = 0 \<or> max_fanout_recipients (en_config en) < recipients)
      ''scope fanout is empty or exceeds recipient admission'')) (\<lambda>_.
    bnd (reads gw_db) (\<lambda>d1.
    bnd (lift_res (author_is_recipient (en_now en) (en_x en) d1 session v version)) (\<lambda>own.
    let expected = sat_sub recipients (if own then 1 else 0) in
    bnd (lift_res (check_byte_budget (en_config en) frame recipients)) (\<lambda>_.
    bnd (acquire_tokens en session frame (rt_scope route) class recipients) (\<lambda>_.
    bnd (if tx = None then reconcile_scope_bindings en (vs_network_id session) route else ret ()) (\<lambda>_.
    bnd (publish_record en session frame route class version expected) (\<lambda>_.
    bnd (reads gw_db) (\<lambda>d2.
    bnd (lift_res (store_receipt en session frame route class record_hash route_hash version expected
      (tx_view tx d2))) (\<lambda>d3.
    bnd (modify (\<lambda>s. s\<lparr>gw_db := d3\<rparr>)) (\<lambda>_.
    ret \<lparr>pa_publish_receipt = en_uuid en 0, pa_record_id = pf_record_id frame, pa_delivery_class = class,
         pa_delivery_policy_version = pf_delivery_policy_version frame,
         pa_membership_version = version\<rparr>)))))))))))"

text \<open>The part of \<open>publish\<close> inside the scope fence, and the whole.\<close>

definition publish_fresh ::
  "env \<Rightarrow> verified_session \<Rightarrow> publish_frame \<Rightarrow> validated_frame \<Rightarrow> delivery_class \<Rightarrow> string \<Rightarrow> string
   \<Rightarrow> publish_acceptance op" where
  "publish_fresh en session frame v class record_hash route_hash =
    bnd (lift_res (x_scope_label (en_x en) (rt_scope (vf_route v)))) (\<lambda>_.
    bnd (reads gw_db) (\<lambda>d.
    bnd (lift_res (authorized_scope_version_and_count (en_now en) (en_x en) d (vs_network_id session)
      (rt_scope (vf_route v)) (vs_principal_id session)
      (self_subscription session (vf_membership_mutation v)))) (\<lambda>authorized.
    bnd (mutate_scope en session v authorized) (\<lambda>(version, recipients, tx).
    publish_admitted en session frame v class record_hash route_hash version recipients tx))))"

definition snapshot_authority ::
  "externs \<Rightarrow> verified_session \<Rightarrow> membership_mutation option \<Rightarrow> db \<Rightarrow> unit result" where
  "snapshot_authority E session mut d =
    (case mut of
       Some (Snapshot _ membership threshold signatures _) \<Rightarrow>
         validate_membership_snapshot_authority E d (vs_network_id session) (vs_principal_id session)
           membership threshold signatures
     | _ \<Rightarrow> Inr ())"

definition publish :: "env \<Rightarrow> verified_session \<Rightarrow> publish_frame \<Rightarrow> publish_acceptance op" where
  "publish en session frame =
    bnd (lift_res (bail_if (pf_framing_version frame \<noteq> ''1''
        \<or> pf_delivery_policy_version frame \<noteq> x_policy_version (en_x en)
        \<or> pf_network_id frame \<noteq> vs_network_id session) ''publish framing, policy, or network mismatch'')) (\<lambda>_.
    bnd (lift_res (validate_record_frame (en_x en) frame session)) (\<lambda>v.
    bnd (reads gw_db) (\<lambda>d.
    bnd (lift_res (snapshot_authority (en_x en) session (vf_membership_mutation v) d)) (\<lambda>_.
    let route = vf_route v in
    bnd (lift_res (bail_if (rt_scope route = Global \<and> (rt_lane route = Rules \<or> rt_lane route = Checkpoints)
        \<and> \<not> principal_is_global_authority d (vs_network_id session) (vs_principal_id session))
      ''Global Rule/Checkpoint signer is not the projected Genesis authority'')) (\<lambda>_.
    let class = x_class_for_record (en_x en) (rt_lane route) (vf_urgency v);
        record_hash = sha256_hex (en_x en) (pf_payload frame);
        route_hash = sha256_hex (en_x en) (x_route_bytes (en_x en) route)
    in
    bnd (lift_res (load_confirmed_receipt (en_now en) d (vs_network_id session) (vs_principal_id session)
      (pf_record_id frame) record_hash route_hash)) (\<lambda>receipt.
    case receipt of
      Some r \<Rightarrow>
        if pa_delivery_class r \<noteq> class \<or> pa_delivery_policy_version r \<noteq> pf_delivery_policy_version frame then
          raise ''idempotent publish classification mismatch''
        else bnd (observed record_duplicate_publish) (\<lambda>_. ret r)
    | None \<Rightarrow> publish_fresh en session frame v class record_hash route_hash))))))"

section \<open>Control messages\<close>

definition control_record :: "env \<Rightarrow> verified_session \<Rightarrow> control_frame \<Rightarrow> route \<Rightarrow> broker_control_record" where
  "control_record en session frame gap_route =
    \<lparr>bc_network_id = vs_network_id session, bc_correlation_id = cf_correlation_id frame,
     bc_source_principal_id = cf_source_principal_id frame,
     bc_target_principal_id = cf_target_principal_id frame, bc_control_kind = cf_control_kind frame,
     bc_payload = cf_payload frame, bc_gap_route = gap_route,
     bc_delivery_policy_version = x_policy_version (en_x en), bc_enqueued_at = timestamp_ms (en_now en),
     bc_expires_at = Some (timestamp_ms (en_now en) + mailbox_message_ttl_ms (en_config en))\<rparr>"

text \<open>
  The statement does not name the column \<open>record_hash\<close>, so the row gets the column default; without a
  default the \<open>NOT NULL\<close> constraint fails, before any conflict is looked for.
\<close>

definition insert_control_receipt ::
  "env \<Rightarrow> verified_session \<Rightarrow> control_frame \<Rightarrow> string \<Rightarrow> string \<Rightarrow> db \<Rightarrow> unit result \<times> db" where
  "insert_control_receipt en session frame route_hash binding_hash d =
    (case en_record_hash_default en of
       None \<Rightarrow> (Inl ''null value in column record_hash violates not-null constraint'', d)
     | Some record_hash \<Rightarrow> (Inr (), d\<lparr>t_receipts := upsert receipt_key do_nothing
         \<lparr>pr_network_id = vs_network_id session, pr_principal_id = vs_principal_id session,
          pr_record_id = cf_correlation_id frame, pr_route_hash = route_hash, pr_record_hash = record_hash,
          pr_membership_version = None, pr_class = ''interactive'',
          pr_policy_version = x_policy_version (en_x en), pr_expected_recipients = 1,
          pr_binding_set_hash = binding_hash, pr_status = ''confirmed'',
          pr_confirmed_at = Some (en_now en), pr_expires_at = en_now en + receipt_lifetime\<rparr> (t_receipts d)\<rparr>))"

definition control_frame_invalid :: "verified_session \<Rightarrow> control_frame \<Rightarrow> bool" where
  "control_frame_invalid session frame \<longleftrightarrow>
     cf_framing_version frame \<noteq> ''1'' \<or> cf_network_id frame \<noteq> vs_network_id session
     \<or> cf_source_principal_id frame \<noteq> vs_principal_id session \<or> blank (cf_correlation_id frame)
     \<or> 1024 * 1024 < length (cf_payload frame)"

definition send_control :: "env \<Rightarrow> verified_session \<Rightarrow> control_frame \<Rightarrow> control_acceptance op" where
  "send_control en session frame =
    (let E = en_x en; network_id = vs_network_id session in
    bnd (lift_res (bail_if (control_frame_invalid session frame)
      ''control frame binding or size is invalid'')) (\<lambda>_.
    bnd (reads gw_db) (\<lambda>d.
    bnd (lift_res (bail_if (\<not> principal_is_admitted (en_now en) d network_id (cf_target_principal_id frame))
      ''control target is not an active network member'')) (\<lambda>_.
    bnd (lift_res (x_control_message E frame)) (\<lambda>message.
    bnd (lift_res (x_verify_signature E (cf_source_principal_id frame) message (cf_signature_hex frame))) (\<lambda>_.
    bnd (lift_res (x_stable_delivery_id E network_id (cf_correlation_id frame)
      (cf_target_principal_id frame) None)) (\<lambda>delivery_id.
    bnd (lift_res (x_route_from_kind E (Node (cf_target_principal_id frame)) Events
      ''ClientServerControl'' False)) (\<lambda>gap_route.
    let route_hash = sha256_hex E (x_route_bytes E gap_route);
        binding_hash = sha256_hex E (x_control_binding_bytes E frame);
        accepted = \<lparr>ka_correlation_id = cf_correlation_id frame, ka_delivery_id = delivery_id\<rparr>
    in case live_receipt (en_now en) d network_id (vs_principal_id session) (cf_correlation_id frame) of
      Some r \<Rightarrow>
        if pr_route_hash r \<noteq> route_hash \<or> pr_binding_set_hash r \<noteq> binding_hash
           \<or> pr_class r \<noteq> ''interactive'' \<or> pr_policy_version r \<noteq> x_policy_version E then
          raise ''control correlation id was already used with different immutable fields''
        else bnd (observed record_duplicate_publish) (\<lambda>_. ret accepted)
    | None \<Rightarrow>
        bnd (publish_control en (control_record en session frame gap_route)) (\<lambda>_.
        bnd (db_op (insert_control_receipt en session frame route_hash binding_hash)) (\<lambda>_.
        ret accepted))))))))))"

end
