(* ===== verification/Publish_Safety.thy ===== *)
theory Publish_Safety
  imports Publish
begin

text \<open>
  What a publish may do: nothing reaches the broker without a valid signature of the session's
  principal and its membership in the scope, a failed publish leaves no trace in the tables that decide
  later requests, and a replayed publish is answered from its receipt without reaching the broker.
\<close>

section \<open>Operations that may fail\<close>

lemma emits_at_lift: "(\<And>v. r = Inr v \<Longrightarrow> emits_at P (k v) s) \<Longrightarrow> emits_at P (bnd (lift_res r) k) s"
  by (cases r) (auto simp: emits_at_def bnd_def lift_res_def)

lemma emits_at_reads: "emits_at P (k (f s)) s \<Longrightarrow> emits_at P (bnd (reads f) k) s"
  by (simp add: emits_at_def bnd_def reads_def)

lemma emits_at_step:
  assumes "emits P m" and "\<And>v s'. m s = (Inr v, s') \<Longrightarrow> emits_at P (k v) s'"
  shows "emits_at P (bnd m k) s"
  by (rule emits_at_bnd [OF emits_imp_at [OF assms(1)]]) (use assms(2) in \<open>metis prod.collapse\<close>)

text \<open>What an operation leaves unchanged when it fails.\<close>

definition fails_clean :: "(gw \<Rightarrow> 'x) \<Rightarrow> 'a op \<Rightarrow> bool" where
  "fails_clean f m \<longleftrightarrow> (\<forall>s e s'. m s = (Inl e, s') \<longrightarrow> f s' = f s)"

lemma fails_clean_preserves: "preserves f m \<Longrightarrow> fails_clean f m"
  by (auto simp: fails_clean_def dest: preservesD)

lemma fails_clean_bnd:
  assumes "preserves f m" and "\<And>v. fails_clean f (k v)"
  shows "fails_clean f (bnd m k)"
  unfolding fails_clean_def
proof (intro allI impI)
  fix s e s' assume "bnd m k s = (Inl e, s')"
  then show "f s' = f s"
    using assms unfolding fails_clean_def bnd_def
    by (auto split: prod.splits sum.splits dest: preservesD)
qed

lemma fails_clean_commit: "fails_clean f (bnd (modify g) (\<lambda>_. ret v))"
  by (simp add: fails_clean_def op_defs)

lemma preserves_comp: "preserves f m \<Longrightarrow> preserves (\<lambda>s. g (f s)) m"
  by (simp add: preserves_def)

section \<open>Frames of the parts\<close>

lemma emits_db_op [frame_intros, simp]: "emits P (db_op f)"
  by (simp add: emits_def db_op_def)

lemma emits_bind_no_publish [simp]:
  "emits (\<lambda>c. \<not> is_publish c) (ensure_tenant_mailboxes en n p)"
  "emits (\<lambda>c. \<not> is_publish c) (bind_scope_member en n p a v)"
  "emits (\<lambda>c. \<not> is_publish c) (unbind_scope_member en n p a v)"
  unfolding ensure_tenant_mailboxes_def bind_scope_member_def unbind_scope_member_def
  by (auto intro!: frame_intros simp: Let_def)

lemma emits_bind_members_no_publish [simp]: "emits (\<lambda>c. \<not> is_publish c) (bind_members en n e des rs v)"
  unfolding bind_members_def by (intro emits_bnd emits_for_each emits_bind_no_publish)

lemma emits_mutation_no_publish [simp]: "emits (\<lambda>c. \<not> is_publish c) (apply_membership_mutation en n mut a d)"
  unfolding apply_membership_mutation_def Let_def
  by (intro emits_bnd emits_timed) (auto split: if_splits)

lemma emits_reconcile_no_publish [simp]: "emits (\<lambda>c. \<not> is_publish c) (reconcile_scope_bindings en n r)"
  unfolding reconcile_scope_bindings_def reconcile_rows_def Let_def
  by (auto intro!: frame_intros split: swarm_scope.splits)

lemma emits_mutate_no_publish: "emits (\<lambda>c. \<not> is_publish c) (mutate_scope en ss v a)"
  unfolding mutate_scope_def
  by (auto intro!: frame_intros split: option.splits prod.splits)

lemma emits_acquire: "emits P (acquire_tokens en ss f sc c k)"
  unfolding acquire_tokens_def acquire_with_def Let_def
  by (auto intro!: frame_intros split: swarm_scope.splits)

lemma emits_await [simp]: "P (AwaitConfirm ch) \<Longrightarrow> emits P (await_confirm en w ch)"
  unfolding await_confirm_def
  by (rule emits_bnd) (auto simp: emits_send split: broker_reply.splits confirmation.splits)

lemma emits_publish_only:
  assumes "\<And>c. \<not> is_publish c \<Longrightarrow> P c" and "\<And>ch ex key. P (BasicPublish ch ex key (br_record_id r) (Record r))"
  shows "emits P (rabbit_publish en rcpt r)"
proof -
  have "emits P (publish_target en rcpt r)"
    unfolding publish_target_def
    by (auto intro!: emits_bnd emits_mono [OF emits_bind_no_publish(1)] assms(1) split: option.splits)
  then show ?thesis unfolding rabbit_publish_def
    by (auto intro!: frame_intros emits_await assms split: prod.splits)
qed

section \<open>Nothing is published without authority\<close>

text \<open>The record of a frame is authentic: signed by the session's principal, under the id it names, for its route.\<close>

definition authentic :: "externs \<Rightarrow> verified_session \<Rightarrow> publish_frame \<Rightarrow> route \<Rightarrow> bool" where
  "authentic E session frame route \<longleftrightarrow>
    (let p = vs_principal_id session;
         signed = (\<lambda>signer signature message. signer = Some p
           \<and> (\<exists>g. signature = Some g \<and> x_verify_signature E p message g = Inr ()))
     in case pf_payload_type frame of
       PRule \<Rightarrow> (\<exists>r. x_decode_rule E (pf_payload frame) = Inr r \<and> pf_record_id frame = sha256_hex E (pf_payload frame)
         \<and> announcement_route E (ra_scope r) Rules (ra_scope r = Global) = Inr route
         \<and> (ra_scope r = Global \<longrightarrow> signed (ra_signer r) (ra_signature r) (x_rule_message E r)))
     | PCheckpoint \<Rightarrow> (\<exists>c. x_decode_checkpoint E (pf_payload frame) = Inr c \<and> pf_record_id frame = ca_checkpoint_id c
         \<and> announcement_route E (ca_scope c) Checkpoints (ca_scope c = Global) = Inr route
         \<and> (ca_scope c = Global \<longrightarrow> signed (ca_signer c) (ca_signature c) (x_checkpoint_message E c)))
     | PSummary \<Rightarrow> (\<exists>u. x_decode_summary E (pf_payload frame) = Inr u \<and> pf_record_id frame = sa_summary_id u
         \<and> sa_source_node_id u = p \<and> announcement_route E (sa_scope u) Summaries False = Inr route)
     | _ \<Rightarrow> (\<exists>e h. x_decode_event E (pf_payload frame) = Inr e \<and> x_verify_event_signature E e = Inr ()
         \<and> ev_event_id e = pf_record_id frame \<and> ev_author_node_id e = p
         \<and> x_parse_scope E (ev_swarm_scope e) = Some h
         \<and> x_route_from_kind E (scope_from_hint h) (event_lane e) (ev_event_kind e)
             (is_public_global_control (ev_payload e)) = Inr route
         \<and> (rt_scope route = Global \<longrightarrow> is_public_global_control (ev_payload e))))"

text \<open>The author may publish to the scope: a live member of it, or of the network when it subscribes itself.\<close>

definition may_publish :: "instant \<Rightarrow> externs \<Rightarrow> db \<Rightarrow> verified_session \<Rightarrow> swarm_scope \<Rightarrow> bool \<Rightarrow> bool" where
  "may_publish now E d session scope subscribing \<longleftrightarrow>
    (let n = vs_network_id session; p = vs_principal_id session in
     case scope of
       Node q \<Rightarrow> principal_is_admitted now d n p \<and> principal_is_admitted now d n q
     | _ \<Rightarrow> \<exists>l m. x_scope_label E scope = Inr l \<and> m \<in> set (t_memberships d) \<and> mb_network_id m = n
         \<and> mb_principal_id m = p \<and> live_member now d m
         \<and> (mb_scope_label m = l \<or> subscribing \<and> mb_scope_label m = ''global''))"

lemma validate_event_Inr:
  assumes "validate_event_frame E f ss = Inr v" and "pf_payload_type f \<in> {PEvent, PMessage}"
  shows "authentic E ss f (vf_route v) \<and> vf_route v = pf_transport f"
  using assms unfolding validate_event_frame_def authentic_def Let_def
  by (auto simp: and_then_Inr_iff split: if_splits)

lemma verify_authority_Inr:
  "verify_authority_record E ss signer g msg = Inr () \<longleftrightarrow> signer = Some (vs_principal_id ss)
     \<and> (\<exists>h. g = Some h \<and> x_verify_signature E (vs_principal_id ss) msg h = Inr ())"
  by (auto simp: verify_authority_record_def split: option.splits)

lemma validate_record_Inr:
  assumes "validate_record_frame E f ss = Inr v"
  shows "authentic E ss f (vf_route v) \<and> vf_route v = pf_transport f \<and> length (pf_payload f) \<le> 1048576"
proof (cases "pf_payload_type f \<in> {PEvent, PMessage}")
  case True
  then show ?thesis using assms validate_event_Inr [of E f ss v]
    by (auto simp: validate_record_frame_def split: if_splits)
next
  case False
  then show ?thesis using assms
    by (cases "pf_payload_type f")
      (auto simp: validate_record_frame_def validate_rule_frame_def validate_checkpoint_frame_def
        validate_summary_frame_def authentic_def Let_def and_then_Inr_iff verify_authority_Inr split: if_splits)
qed

lemma authorized_may_publish:
  "authorized_scope_version_and_count now E d (vs_network_id ss) scope (vs_principal_id ss) b = Inr x
   \<Longrightarrow> may_publish now E d ss scope b"
  by (cases scope)
    (auto simp: authorized_scope_version_and_count_def may_publish_def Let_def and_then_Inr_iff list_ex_iff split: if_splits)

text \<open>What holds of every message a publish hands to the broker.\<close>

definition publishable :: "env \<Rightarrow> verified_session \<Rightarrow> publish_frame \<Rightarrow> validated_frame \<Rightarrow> db \<Rightarrow> broker_cmd \<Rightarrow> bool" where
  "publishable en ss f v d c \<longleftrightarrow>
    (case c of
       BasicPublish _ _ _ _ e \<Rightarrow>
         may_publish (en_now en) (en_x en) d ss (rt_scope (vf_route v)) (self_subscription ss (vf_membership_mutation v))
         \<and> (\<exists>version k. e = Record (record_of en ss f (vf_route v)
              (x_class_for_record (en_x en) (rt_lane (vf_route v)) (vf_urgency v)) version)
            \<and> 0 < k \<and> k \<le> max_fanout_recipients (en_config en)
            \<and> check_byte_budget (en_config en) f k = Inr ())
     | _ \<Rightarrow> True)"

lemma publishable_other: "\<not> is_publish c \<Longrightarrow> publishable en ss f v d c"
  by (cases c) (simp_all add: publishable_def)

lemma publish_record_emits:
  assumes "\<And>ch ex key. P (BasicPublish ch ex key (pf_record_id f) (Record (record_of en ss f r c version)))"
    and "\<And>c. \<not> is_publish c \<Longrightarrow> P c"
  shows "emits P (publish_record en ss f r c version k)"
  unfolding publish_record_def
  by (intro emits_bnd emits_attempt emits_publish_only) (use assms in \<open>auto simp: record_of_def\<close>)

lemma emits_at_let_pair: "(\<And>a b c. x = (a, b, c) \<Longrightarrow> emits_at P (k a b c) s) \<Longrightarrow> emits_at P (case x of (a, b, c) \<Rightarrow> k a b c) s"
  by (cases x) auto

lemma publish_admitted_emits:
  assumes "may_publish (en_now en) (en_x en) d ss (rt_scope (vf_route v)) (self_subscription ss (vf_membership_mutation v))"
    and "c = x_class_for_record (en_x en) (rt_lane (vf_route v)) (vf_urgency v)"
  shows "emits_at (publishable en ss f v d) (publish_admitted en ss f v c rh roh version k tx) s"
proof -
  note nopub = emits_mono [OF _ publishable_other [of _ en ss f v d]]
  show ?thesis unfolding publish_admitted_def Let_def
    apply (intro emits_at_lift emits_at_reads)
    apply (rule emits_at_step [OF emits_acquire])
    apply (rule emits_at_step)
     apply (rule nopub [where P = "\<lambda>c. \<not> is_publish c"]; simp)
    apply (rule emits_imp_at)
    apply (intro emits_bnd publish_record_emits)
    using assms by (auto simp: publishable_def word_neq_0_conv not_less emits_def op_defs split: broker_cmd.splits)
qed

lemma publish_fresh_emits:
  assumes "c = x_class_for_record (en_x en) (rt_lane (vf_route v)) (vf_urgency v)"
  shows "emits_at (publishable en ss f v (gw_db s)) (publish_fresh en ss f v c rh roh) s"
  unfolding publish_fresh_def
  by (intro emits_at_lift emits_at_reads emits_at_step emits_at_let_pair publish_admitted_emits assms
      emits_mono [OF emits_mutate_no_publish])
    (auto intro: publishable_other authorized_may_publish)

lemma publish_emits:
  "emits_at (\<lambda>c. is_publish c \<longrightarrow> (\<exists>v. validate_record_frame (en_x en) f ss = Inr v \<and> publishable en ss f v (gw_db s) c
     \<and> snapshot_authority (en_x en) ss (vf_membership_mutation v) (gw_db s) = Inr ()
     \<and> (rt_scope (vf_route v) = Global \<and> rt_lane (vf_route v) \<in> {Rules, Checkpoints}
        \<longrightarrow> principal_is_global_authority (gw_db s) (vs_network_id ss) (vs_principal_id ss)))
     \<and> pf_network_id f = vs_network_id ss)
   (publish en ss f) s"
  unfolding publish_def Let_def
proof (intro emits_at_lift emits_at_reads, goal_cases)
  case (1 _ v _ _ receipt)
  show ?case
  proof (cases receipt)
    case None
    have "emits_at (publishable en ss f v (gw_db s)) (publish_fresh en ss f v
        (x_class_for_record (en_x en) (rt_lane (vf_route v)) (vf_urgency v)) (sha256_hex (en_x en) (pf_payload f))
        (sha256_hex (en_x en) (x_route_bytes (en_x en) (vf_route v)))) s"
      by (rule publish_fresh_emits) simp
    with 1 None show ?thesis by (auto simp: emits_at_def elim!: list.pred_mono_strong)
  qed (simp add: emits_at_def op_defs)
qed

lemma byte_budget:
  assumes "check_byte_budget c f k = Inr ()" and "length (pf_payload f) \<le> 1048576"
  shows "length (pf_payload f) * unat k \<le> unat (max_fanout_bytes_per_publish c)"
proof -
  have "unat (of_nat (length (pf_payload f)) :: u64) = length (pf_payload f)"
    using assms(2) by (simp add: unat_of_nat)
  then show ?thesis using assms(1)
    by (auto simp: check_byte_budget_def and_then_Inr_iff checked_mul_Some_iff word_less_nat_alt not_less)
qed


section \<open>Successful publishes\<close>

lemma bnd_lift_Inr: "bnd (lift_res r) k s = (Inr v, s') \<longleftrightarrow> (\<exists>x. r = Inr x \<and> k x s = (Inr v, s'))"
  by (cases r) (simp_all add: bnd_def lift_res_def)

lemma bnd_lift_ok [simp]: "bnd (lift_res (Inr x)) k s = k x s"
  by (simp add: bnd_def lift_res_def)

lemma bnd_modify: "bnd (modify g) k s = k () (g s)"
  by (simp add: bnd_def modify_def)

lemma bnd_reads [simp]: "bnd (reads f) k s = k (f s) s"
  by (simp add: bnd_def reads_def)

lemma bnd_modify_Inr: "bnd (modify g) (\<lambda>_. ret x) s = (Inr v, s') \<longleftrightarrow> s' = g s \<and> v = x"
  by (auto simp: bnd_def modify_def ret_def)

definition acceptance_of ::
  "env \<Rightarrow> publish_frame \<Rightarrow> delivery_class \<Rightarrow> string option \<Rightarrow> publish_acceptance" where
  "acceptance_of en f c version = \<lparr>pa_publish_receipt = en_uuid en 0, pa_record_id = pf_record_id f,
     pa_delivery_class = c, pa_delivery_policy_version = pf_delivery_policy_version f,
     pa_membership_version = version\<rparr>"

lemma publish_admitted_Inr:
  "publish_admitted en ss f v c rh roh version k tx s = (Inr a, s') \<longleftrightarrow>
    (\<exists>own s1 s2 s3 d3. 0 < k \<and> k \<le> max_fanout_recipients (en_config en)
      \<and> author_is_recipient (en_now en) (en_x en) (gw_db s) ss v version = Inr own
      \<and> check_byte_budget (en_config en) f k = Inr ()
      \<and> acquire_tokens en ss f (rt_scope (vf_route v)) c k s = (Inr (), s1)
      \<and> (if tx = None then reconcile_scope_bindings en (vs_network_id ss) (vf_route v) else ret ()) s1 = (Inr (), s2)
      \<and> publish_record en ss f (vf_route v) c version (sat_sub k (if own then 1 else 0)) s2 = (Inr (), s3)
      \<and> store_receipt en ss f (vf_route v) c rh roh version (sat_sub k (if own then 1 else 0))
          (tx_view tx (gw_db s3)) = Inr d3
      \<and> s' = s3\<lparr>gw_db := d3\<rparr> \<and> a = acceptance_of en f c version)"
  unfolding publish_admitted_def Let_def acceptance_of_def
  by (simp add: bnd_lift_Inr bnd_reads bnd_modify_Inr bnd_Inr [of "acquire_tokens en ss f sc c k" for sc]
      bnd_Inr [of "if tx = None then reconcile_scope_bindings en n r else ret ()" for n r]
      bnd_Inr [of "publish_record en ss f r c version e" for r e] word_neq_0_conv not_less)

lemma publish_fresh_Inr:
  "publish_fresh en ss f v c rh roh s = (Inr a, s') \<longleftrightarrow>
    (\<exists>l auth version k tx s1. x_scope_label (en_x en) (rt_scope (vf_route v)) = Inr l
      \<and> authorized_scope_version_and_count (en_now en) (en_x en) (gw_db s) (vs_network_id ss)
          (rt_scope (vf_route v)) (vs_principal_id ss) (self_subscription ss (vf_membership_mutation v)) = Inr auth
      \<and> mutate_scope en ss v auth s = (Inr (version, k, tx), s1)
      \<and> publish_admitted en ss f v c rh roh version k tx s1 = (Inr a, s'))"
  unfolding publish_fresh_def bnd_Inr lift_res_def reads_def by auto

abbreviation frame_class :: "env \<Rightarrow> validated_frame \<Rightarrow> delivery_class" where
  "frame_class en v \<equiv> x_class_for_record (en_x en) (rt_lane (vf_route v)) (vf_urgency v)"

abbreviation record_hash_of :: "env \<Rightarrow> publish_frame \<Rightarrow> string" where
  "record_hash_of en f \<equiv> sha256_hex (en_x en) (pf_payload f)"

abbreviation route_hash_of :: "env \<Rightarrow> route \<Rightarrow> string" where
  "route_hash_of en r \<equiv> sha256_hex (en_x en) (x_route_bytes (en_x en) r)"

text \<open>The checks every publish passes before the receipt is looked up.\<close>

definition publish_guard :: "env \<Rightarrow> verified_session \<Rightarrow> publish_frame \<Rightarrow> db \<Rightarrow> validated_frame \<Rightarrow> bool" where
  "publish_guard en ss f d v \<longleftrightarrow> pf_framing_version f = ''1''
     \<and> pf_delivery_policy_version f = x_policy_version (en_x en) \<and> pf_network_id f = vs_network_id ss
     \<and> validate_record_frame (en_x en) f ss = Inr v
     \<and> snapshot_authority (en_x en) ss (vf_membership_mutation v) d = Inr ()
     \<and> (rt_scope (vf_route v) = Global \<and> (rt_lane (vf_route v) = Rules \<or> rt_lane (vf_route v) = Checkpoints)
        \<longrightarrow> principal_is_global_authority d (vs_network_id ss) (vs_principal_id ss))"

lemma publish_guarded:
  assumes "publish_guard en ss f (gw_db s) v"
  shows "publish en ss f s =
    (case load_confirmed_receipt (en_now en) (gw_db s) (vs_network_id ss) (vs_principal_id ss) (pf_record_id f)
        (record_hash_of en f) (route_hash_of en (vf_route v)) of
       Inl e \<Rightarrow> (Inl e, s)
     | Inr (Some r) \<Rightarrow>
         if pa_delivery_class r \<noteq> frame_class en v \<or> pa_delivery_policy_version r \<noteq> pf_delivery_policy_version f
         then (Inl ''idempotent publish classification mismatch'', s)
         else (Inr r, s\<lparr>gw_obs := record_duplicate_publish (gw_obs s)\<rparr>)
     | Inr None \<Rightarrow> publish_fresh en ss f v (frame_class en v) (record_hash_of en f) (route_hash_of en (vf_route v)) s)"
  using assms unfolding publish_guard_def publish_def Let_def bail_if_def
  by (auto simp: bnd_def lift_res_def reads_def raise_def ret_def observed_def modify_def
      split: sum.splits option.splits)

lemma publish_unguarded:
  assumes "\<And>v. \<not> publish_guard en ss f (gw_db s) v"
  shows "\<exists>e. publish en ss f s = (Inl e, s)"
proof (cases "validate_record_frame (en_x en) f ss")
  case (Inl e)
  then show ?thesis by (auto simp: publish_def bail_if_def bnd_def lift_res_def)
next
  case (Inr v)
  with assms [of v] show ?thesis
    by (auto simp: publish_guard_def publish_def Let_def bail_if_def bnd_def lift_res_def reads_def split: sum.splits)
qed

lemma record_audit_Inr:
  "record_audit now u n p a out det d = Inr d' \<longleftrightarrow> u \<notin> ad_audit_id ` set (t_audit d)
     \<and> d' = d\<lparr>t_audit := t_audit d @ [\<lparr>ad_audit_id = u, ad_network_id = n, ad_principal_id = p,
         ad_action = a, ad_outcome = out, ad_details = det, ad_created_at = now\<rparr>]\<rparr>"
  by (auto simp: record_audit_def insert_row_def split: option.splits)

lemma store_receipt_ok:
  "en_uuid en 1 \<notin> ad_audit_id ` set (t_audit d) \<Longrightarrow> \<exists>d'. store_receipt en ss f r c rh roh version k d = Inr d'"
  by (simp add: store_receipt_def Let_def record_audit_Inr)

lemma publish_record_Inr:
  "publish_record en ss f r c version k s = (Inr u, s') \<longleftrightarrow> (\<exists>s1.
     rabbit_publish en (direct_recipient (rt_scope r)) (record_of en ss f r c version) s = (Inr (), s1)
     \<and> s' = s1\<lparr>gw_obs := record_publish_confirm (en_x en) (vs_network_id ss) (rt_scope r) (rt_lane r) k
          (en_elapsed en) (publish_confirm_outcome (Inr ())) (gw_obs s1)\<rparr>)"
  by (cases "rabbit_publish en (direct_recipient (rt_scope r)) (record_of en ss f r c version) s")
    (auto simp: publish_record_def op_defs split: sum.splits)

section \<open>A concrete publish\<close>

definition member_row :: "string \<Rightarrow> string \<Rightarrow> membership_row" where
  "member_row l p = \<lparr>mb_network_id = ''net'', mb_scope_label = l, mb_principal_id = p, mb_version = ''v1'',
     mb_state = Active, mb_authorized_at = 0, mb_revoked_at = None, mb_interactive_binding = ''active'',
     mb_bulk_binding = ''active'', mb_roles = [], mb_binding_updated_at = None\<rparr>"

definition duo_db :: db where
  "duo_db = empty_db\<lparr>t_memberships := [member_row ''global'' ''alice'', member_row ''global'' ''bob'']\<rparr>"

definition alice_event :: event where
  "alice_event = \<lparr>ev_event_id = ''e1'', ev_author_node_id = ''alice'', ev_swarm_scope = ''node:bob'',
     ev_event_kind = ''Ping'', ev_payload = OtherPayload ''ping'', ev_signature_hex = ''alicee1''\<rparr>"

definition alice_frame :: publish_frame where
  "alice_frame = \<lparr>pf_framing_version = ''1'', pf_delivery_policy_version = 1, pf_record_id = ''e1'',
     pf_network_id = ''net'', pf_transport = sample_route (Node ''bob'') Events ''Ping'' False,
     pf_payload_type = PEvent, pf_payload = ''ping''\<rparr>"

definition alice_session :: verified_session where
  "alice_session = \<lparr>vs_session_id = ''s1'', vs_network_id = ''net'', vs_principal_id = ''alice''\<rparr>"

definition event_externs :: "event \<Rightarrow> scope_hint \<Rightarrow> externs" where
  "event_externs e h = sample_externs\<lparr>x_decode_event := (\<lambda>s. Inr e), x_parse_scope := (\<lambda>s. Some h)\<rparr>"

definition event_env :: "event \<Rightarrow> scope_hint \<Rightarrow> env" where
  "event_env e h = (sample_env [] [])\<lparr>en_x := event_externs e h\<rparr>"

lemma event_env_simps [simp]:
  "en_x (event_env e h) = event_externs e h" "en_config (event_env e h) = valid"
  "en_broker (event_env e h) = sample_broker [] []" "en_now (event_env e h) = 1000000"
  "en_record_hash_default (event_env e h) = None"
  by (simp_all add: event_env_def sample_env_def)

lemma event_externs_simps [simp]:
  "x_policy_version (event_externs e h) = 1" "x_decode_event (event_externs e h) s = Inr e"
  "x_parse_scope (event_externs e h) t = Some h" "x_scope_label (event_externs e h) sc = Inr (sample_scope_label sc)"
  "x_route_from_kind (event_externs e h) sc l k b = Inr (sample_route sc l k b)"
  "x_class_for_record (event_externs e h) l u = (if u = Background then Bulk else Interactive)"
  "x_verify_event_signature (event_externs e h) e' =
     (if ev_signature_hex e' = ev_author_node_id e' @ ev_event_id e' then Inr () else Inl ''signature mismatch'')"
  by (simp_all add: event_externs_def sample_externs_def)

lemma alice_validated:
  "validate_record_frame (event_externs alice_event (HintNode ''bob'')) alice_frame alice_session
     = Inr \<lparr>vf_route = sample_route (Node ''bob'') Events ''Ping'' False, vf_urgency = ExplicitRecipient,
            vf_membership_mutation = None\<rparr>"
  by (simp add: validate_record_frame_def validate_event_frame_def alice_frame_def alice_event_def alice_session_def
      is_public_global_control_def event_lane_def event_mutation_def event_urgency_def sample_route_def Let_def)

lemma sample_rabbit_publish:
  assumes "en_broker en = sample_broker [] []" and "br_membership_version r \<noteq> None \<or> rcpt \<noteq> None"
  shows "fst (rabbit_publish en rcpt r s) = Inr ()"
proof -
  have e: "\<exists>s1. ensure_tenant_mailboxes en n p s = (Inr (), s1)" for n p s
    by (simp add: ensure_tenant_mailboxes_def run_simps assms(1))
  have "\<exists>x s1. publish_target en rcpt r s = (Inr x, s1)" for s
  proof (cases rcpt)
    case None
    with assms(2) show ?thesis by (auto simp: publish_target_def op_defs)
  next
    case (Some p)
    obtain s1 where "ensure_tenant_mailboxes en (br_network_id r) p s = (Inr (), s1)" using e by blast
    with Some show ?thesis by (simp add: publish_target_def op_defs)
  qed
  then obtain x s1 where x: "publish_target en rcpt r (s\<lparr>gw_log := gw_log s @ [CreateChannel,
      ConfirmSelect (length (gw_log s) + named_sum (gw_log s))]\<rparr>) = (Inr x, s1)" by blast
  show ?thesis
    by (cases x) (simp add: rabbit_publish_def create_channel_def send_ok_def send_def op_defs await_confirm_def
        assms(1) sample_broker_def x)
qed

lemma alice_run:
  "\<exists>s' ch ex key e. publish (event_env alice_event (HintNode ''bob'')) alice_session alice_frame (sample_gw duo_db)
     = (Inr (acceptance_of (event_env alice_event (HintNode ''bob'')) alice_frame Interactive None), s')
     \<and> BasicPublish ch ex key ''e1'' e \<in> set (gw_log s')"
proof -
  let ?en = "event_env alice_event (HintNode ''bob'')"
  let ?r = "sample_route (Node ''bob'') Events ''Ping'' False"
  let ?v = "\<lparr>vf_route = ?r, vf_urgency = ExplicitRecipient, vf_membership_mutation = None\<rparr>"
  let ?rec = "record_of ?en alice_session alice_frame ?r Interactive None"
  obtain s1 where s1: "rabbit_publish ?en (Some ''bob'') ?rec (sample_gw duo_db) = (Inr (), s1)"
    using sample_rabbit_publish [of ?en ?rec "Some ''bob''" "sample_gw duo_db"] by (metis event_env_simps(3) option.distinct(1) prod.collapse)
  have db: "gw_db s1 = duo_db" using preservesD [OF preserves_publish(1) s1] by simp
  have auth: "authorized_scope_version_and_count 1000000 (event_externs alice_event (HintNode ''bob'')) duo_db
      ''net'' (Node ''bob'') ''alice'' b = Inr (None, 1)" for b
    by (simp add: authorized_scope_version_and_count_def principal_is_admitted_def duo_db_def member_row_def
        live_member_def grant_live_def empty_db_def row_of_def)
  have mut: "mutate_scope ?en alice_session ?v (None, 1) (sample_gw duo_db) = (Inr (None, 1, None), sample_gw duo_db)"
    by (simp add: mutate_scope_def ret_def)
  have own: "author_is_recipient 1000000 (event_externs alice_event (HintNode ''bob'')) duo_db alice_session ?v None = Inr False"
    by (simp add: author_is_recipient_def scope_contains_principal_def sample_route_def alice_session_def Let_def)
  have budget: "check_byte_budget valid alice_frame 1 = Inr ()"
    by (simp add: check_byte_budget_def checked_mul_def alice_frame_def valid_def bail_if_def)
  obtain d3 where d3: "store_receipt ?en alice_session alice_frame ?r Interactive (record_hash_of ?en alice_frame)
      (route_hash_of ?en ?r) None 1 duo_db = Inr d3"
  proof -
    have "en_uuid ?en 1 \<notin> ad_audit_id ` set (t_audit duo_db)" by (simp add: duo_db_def empty_db_def)
    with store_receipt_ok that show thesis by blast
  qed
  let ?s = "s1\<lparr>gw_obs := record_publish_confirm (en_x ?en) (vs_network_id alice_session) (rt_scope ?r) (rt_lane ?r) 1
      (en_elapsed ?en) (publish_confirm_outcome (Inr ())) (gw_obs s1), gw_db := d3\<rparr>"
  have "publish_admitted ?en alice_session alice_frame ?v Interactive (record_hash_of ?en alice_frame)
      (route_hash_of ?en ?r) None 1 None (sample_gw duo_db) = (Inr (acceptance_of ?en alice_frame Interactive None), ?s)"
    unfolding publish_admitted_Inr publish_record_Inr using own budget s1 d3
    by (intro exI [of _ False])
      (simp add: acquire_tokens_def reconcile_scope_bindings_def sample_route_def ret_def direct_recipient_def db
        tx_view_def valid_def sat_sub_def)
  then have fresh: "publish_fresh ?en alice_session alice_frame ?v Interactive (record_hash_of ?en alice_frame)
      (route_hash_of ?en ?r) (sample_gw duo_db) = (Inr (acceptance_of ?en alice_frame Interactive None), ?s)"
    unfolding publish_fresh_Inr using auth mut by (simp add: sample_route_def alice_session_def)
  have guard: "publish_guard ?en alice_session alice_frame (gw_db (sample_gw duo_db)) ?v"
    by (simp add: publish_guard_def alice_validated snapshot_authority_def)
      (simp add: alice_frame_def alice_session_def sample_route_def)
  have "load_confirmed_receipt 1000000 duo_db n p rid rh roh = Inr None" for n p rid rh roh
    by (simp add: load_confirmed_receipt_def live_receipt_def duo_db_def empty_db_def)
  then have "publish ?en alice_session alice_frame (sample_gw duo_db)
      = (Inr (acceptance_of ?en alice_frame Interactive None), ?s)"
    using publish_guarded [OF guard] fresh by simp
  moreover have "\<exists>ch ex key e. BasicPublish ch ex key ''e1'' e \<in> set (gw_log ?s)"
  proof -
    have rid: "br_record_id ?rec = ''e1''" by (simp add: record_of_def alice_frame_def)
    obtain pre ch ex key where "gw_log s1 = pre @ [BasicPublish ch ex key (br_record_id ?rec) (Record ?rec), AwaitConfirm ch]"
      using rabbit_publish_Inr [OF s1] by auto
    then have "BasicPublish ch ex key ''e1'' (Record ?rec) \<in> set (gw_log ?s)" unfolding rid by simp
    then show ?thesis by blast
  qed
  ultimately show ?thesis by blast
qed


section \<open>A failed publish\<close>

text \<open>
  What later requests decide on: receipts, audit, scope versions, mutation windows, grants, authorities
  and the membership view; the token buckets and the binding columns are left out.
\<close>

definition member_versions :: "db \<Rightarrow> (string \<times> string \<times> row_state \<times> string) list" where
  "member_versions d = map (\<lambda>m. (mb_network_id m, mb_scope_label m, mb_state m, mb_version m)) (t_memberships d)"

definition decisive :: "db \<Rightarrow> receipt_row list \<times> audit_row list \<times> version_row list \<times> window_row list
  \<times> grant_row list \<times> authority_row list \<times> (string \<times> string \<times> row_state \<times> string) list
  \<times> (string \<times> string \<Rightarrow> string set \<times> string option)" where
  "decisive d = (t_receipts d, t_audit d, t_versions d, t_windows d, t_grants d, t_authorities d,
     member_versions d, membership_view d)"

abbreviation keeps_decisive :: "'a op \<Rightarrow> bool" where
  "keeps_decisive \<equiv> preserves (\<lambda>s. decisive (gw_db s))"

lemma keeps_decisive_db: "preserves gw_db m \<Longrightarrow> keeps_decisive m"
  by (rule preserves_comp)

lemma keeps_decisive_ops [simp]:
  "keeps_decisive (observed f)" "keeps_decisive (bind_scope_member en n p a w)"
  "keeps_decisive (unbind_scope_member en n p a w)"
  by (simp_all add: keeps_decisive_db)

lemma keeps_db_op: "(\<And>d. decisive (snd (f d)) = decisive d) \<Longrightarrow> keeps_decisive (db_op f)"
  by (simp add: preserves_def db_op_def)

lemma update_active_members:
  assumes "\<And>m. mb_principal_id (g m) = mb_principal_id m \<and> mb_network_id (g m) = mb_network_id m
      \<and> mb_scope_label (g m) = mb_scope_label m \<and> mb_state (g m) = mb_state m"
  shows "active_members (d\<lparr>t_memberships := update_where P g t\<rparr>) n l = active_members (d\<lparr>t_memberships := t\<rparr>) n l"
proof -
  have "map mb_principal_id (filter (\<lambda>m. mb_network_id m = n \<and> mb_scope_label m = l \<and> mb_state m = Active)
      (update_where P g t)) = map mb_principal_id (filter (\<lambda>m. mb_network_id m = n \<and> mb_scope_label m = l \<and> mb_state m = Active) t)"
    using assms by (induction t) (auto simp: update_where_def)
  then show ?thesis by (simp add: active_members_def)
qed

lemma preserves_mutation [simp]: "preserves gw_db (apply_membership_mutation en n mut a d)"
  unfolding apply_membership_mutation_def bind_members_def Let_def
  by (auto intro!: frame_intros split: if_splits)

lemma preserves_mutate [simp]: "preserves gw_db (mutate_scope en ss v a)"
  unfolding mutate_scope_def by (auto intro!: frame_intros split: option.splits prod.splits)

lemma preserves_publish_record [simp]: "preserves gw_db (publish_record en ss f r c version k)"
  unfolding publish_record_def by (auto intro!: frame_intros)

lemma decisive_buckets [simp]:
  "decisive (d\<lparr>t_global_buckets := b\<rparr>) = decisive d" "decisive (d\<lparr>t_cell_buckets := b'\<rparr>) = decisive d"
  "decisive (d\<lparr>t_bindings := bs\<rparr>) = decisive d"
  by (simp_all add: decisive_def membership_view_def active_members_def scope_version_def member_versions_def)

lemma keeps_decisive_acquire: "keeps_decisive (acquire_tokens en ss f sc c k)"
proof -
  have *: "keeps_decisive (acquire_with en b acq msg)"
    if "\<And>d ok d'. acq d = Inr (ok, d') \<Longrightarrow> decisive d' = decisive d" for b acq msg
    unfolding acquire_with_def
    using that by (auto intro!: preserves_bnd preserves_attempt keeps_db_op split: sum.splits if_splits)
  show ?thesis unfolding acquire_tokens_def Let_def
    by (auto intro!: * simp: acquire_global_token_def acquire_non_global_delivery_tokens_def ensure_bucket_def
        ensure_cell_bucket_def and_then_Inr_iff Let_def split: swarm_scope.splits if_splits)
qed

lemma keeps_decisive_reconcile: "keeps_decisive (reconcile_scope_bindings en n r)"
proof -
  have "decisive (d\<lparr>t_memberships := update_where P (\<lambda>m. m\<lparr>mb_interactive_binding := a, mb_bulk_binding := b,
      mb_binding_updated_at := t\<rparr>) (t_memberships d)\<rparr>) = decisive d" for d P a b t
    by (simp add: decisive_def membership_view_def member_versions_def fun_eq_iff scope_version_def update_where_def)
      (simp add: update_active_members flip: update_where_def)
  then have rows: "keeps_decisive (reconcile_rows now n l a ms v)" for now l a ms v
    unfolding reconcile_rows_def
    by (intro preserves_bnd preserves_for_each keeps_db_op) (auto split: option.splits)
  then show ?thesis unfolding reconcile_scope_bindings_def Let_def
    by (auto intro!: preserves_bnd preserves_timed preserves_for_each rows split: swarm_scope.splits)
qed

lemma publish_fails_clean: "fails_clean (\<lambda>s. decisive (gw_db s)) (publish_fresh en ss f v c rh roh)"
proof -
  have "fails_clean (\<lambda>s. decisive (gw_db s)) (publish_admitted en ss f v c rh roh version k tx)" for version k tx
    unfolding publish_admitted_def Let_def
    by (intro fails_clean_bnd fails_clean_commit keeps_decisive_acquire)
      (auto intro!: keeps_decisive_reconcile keeps_decisive_db)
  then show ?thesis unfolding publish_fresh_def
    by (intro fails_clean_bnd) (auto intro!: keeps_decisive_db split: prod.splits)
qed

text \<open>
  A failed publish decides nothing. If a publish ends in an error, whichever step failed and whatever
  the broker was sent by then, the receipts, the audit, the scope versions, the mutation windows, the
  grants, the authorities and the active members of every scope are as before, so the membership mutation it carried is
  not in effect and the record can be published again.
\<close>

theorem failed_publish_rolls_back:
  assumes "publish en ss f s = (Inl e, s')"
  shows "t_receipts (gw_db s') = t_receipts (gw_db s) \<and> t_audit (gw_db s') = t_audit (gw_db s)
    \<and> t_versions (gw_db s') = t_versions (gw_db s) \<and> t_windows (gw_db s') = t_windows (gw_db s)
    \<and> t_grants (gw_db s') = t_grants (gw_db s) \<and> t_authorities (gw_db s') = t_authorities (gw_db s)
    \<and> membership_view (gw_db s') = membership_view (gw_db s)"
proof (cases "\<exists>v. publish_guard en ss f (gw_db s) v")
  case True
  then obtain v where v: "publish_guard en ss f (gw_db s) v" ..
  have "decisive (gw_db s') = decisive (gw_db s)"
    using assms publish_fails_clean unfolding publish_guarded [OF v]
    by (auto simp: fails_clean_def split: sum.splits option.splits if_splits)
  then show ?thesis by (simp add: decisive_def)
next
  case False
  then have "s' = s" using publish_unguarded [of en ss f s] assms by auto
  then show ?thesis by simp
qed

theorem failed_publish_rolls_back_witness:
  "\<exists>e s'. publish (event_env alice_event (HintNode ''bob'')) alice_session alice_frame (sample_gw empty_db) = (Inl e, s')
     \<and> t_receipts (gw_db s') = [] \<and> membership_view (gw_db s') = membership_view empty_db"
proof -
  let ?en = "event_env alice_event (HintNode ''bob'')"
  let ?v = "\<lparr>vf_route = sample_route (Node ''bob'') Events ''Ping'' False, vf_urgency = ExplicitRecipient,
    vf_membership_mutation = None\<rparr>"
  have guard: "publish_guard ?en alice_session alice_frame (gw_db (sample_gw empty_db)) ?v"
    by (simp add: publish_guard_def alice_validated snapshot_authority_def)
      (simp add: alice_frame_def alice_session_def sample_route_def)
  have "load_confirmed_receipt 1000000 empty_db n p rid rh roh = Inr None" for n p rid rh roh
    by (simp add: load_confirmed_receipt_def live_receipt_def empty_db_def)
  moreover have "authorized_scope_version_and_count 1000000 E empty_db n (Node q) p b
      = Inl ''direct route author or recipient is not an active network member''" for E n p q b
    by (simp add: authorized_scope_version_and_count_def principal_is_admitted_def empty_db_def)
  ultimately have "\<exists>e. publish ?en alice_session alice_frame (sample_gw empty_db) = (Inl e, sample_gw empty_db)"
    unfolding publish_guarded [OF guard]
    by (simp add: publish_fresh_def bnd_def lift_res_def reads_def sample_route_def)
  then obtain e s' where e: "publish ?en alice_session alice_frame (sample_gw empty_db) = (Inl e, s')" by blast
  from failed_publish_rolls_back [OF e] e show ?thesis by (auto simp: empty_db_def)
qed

end
