(* ===== verification/Publish_Receipts.thy ===== *)
theory Publish_Receipts
  imports Publish_Safety
begin

text \<open>
  What a successful publish leaves behind: a receipt under which the same publish is answered again
  without reaching the broker, and, for a shared scope, the confirmed record at the broker while the
  mailbox of every member of the scope was bound. The receipts of control messages are the exception:
  on a database created by the current schema they are never stored.
\<close>

section \<open>Receipts\<close>

interpretation receipts: keyed_upsert receipt_key "receipt_merge now" for now
  by unfold_locales (auto simp: receipt_merge_def receipt_key_def split: if_splits)

lemma store_receipt_Inr:
  assumes "store_receipt en ss f r c rh roh version k d = Inr d'"
  shows "\<exists>h w. d' = d\<lparr>t_receipts := upsert receipt_key (receipt_merge (en_now en))
      \<lparr>pr_network_id = vs_network_id ss, pr_principal_id = vs_principal_id ss,
       pr_record_id = pf_record_id f, pr_route_hash = roh, pr_record_hash = rh,
       pr_membership_version = version, pr_class = class_str c,
       pr_policy_version = pf_delivery_policy_version f, pr_expected_recipients = k,
       pr_binding_set_hash = h, pr_status = ''confirmed'',
       pr_confirmed_at = Some (en_now en), pr_expires_at = en_now en + receipt_lifetime\<rparr> (t_receipts d),
      t_audit := w\<rparr>"
  using assms unfolding store_receipt_def Let_def record_audit_Inr by blast

lemma stored_receipt_live:
  assumes "store_receipt en ss f r c rh roh version k d = Inr d'" and pk: "pk receipt_key (t_receipts d)"
    and old: "\<forall>x\<in>set (t_receipts d). receipt_key x = (vs_network_id ss, vs_principal_id ss, pf_record_id f)
      \<longrightarrow> pr_expires_at x \<le> en_now en"
    and now: "now < en_now en + receipt_lifetime"
  shows "\<exists>x. live_receipt now d' (vs_network_id ss) (vs_principal_id ss) (pf_record_id f) = Some x
    \<and> pr_route_hash x = roh \<and> pr_record_hash x = rh \<and> pr_class x = class_str c
    \<and> pr_policy_version x = pf_delivery_policy_version f \<and> pr_membership_version x = version"
proof -
  let ?key = "(vs_network_id ss, vs_principal_id ss, pf_record_id f)"
  obtain h w where d': "d' = d\<lparr>t_receipts := upsert receipt_key (receipt_merge (en_now en))
      \<lparr>pr_network_id = vs_network_id ss, pr_principal_id = vs_principal_id ss,
       pr_record_id = pf_record_id f, pr_route_hash = roh, pr_record_hash = rh,
       pr_membership_version = version, pr_class = class_str c,
       pr_policy_version = pf_delivery_policy_version f, pr_expected_recipients = k,
       pr_binding_set_hash = h, pr_status = ''confirmed'',
       pr_confirmed_at = Some (en_now en), pr_expires_at = en_now en + receipt_lifetime\<rparr> (t_receipts d),
      t_audit := w\<rparr>" using store_receipt_Inr [OF assms(1)] by blast
  let ?n = "\<lparr>pr_network_id = vs_network_id ss, pr_principal_id = vs_principal_id ss,
       pr_record_id = pf_record_id f, pr_route_hash = roh, pr_record_hash = rh,
       pr_membership_version = version, pr_class = class_str c,
       pr_policy_version = pf_delivery_policy_version f, pr_expected_recipients = k,
       pr_binding_set_hash = h, pr_status = ''confirmed'',
       pr_confirmed_at = Some (en_now en), pr_expires_at = en_now en + receipt_lifetime\<rparr>"
  have key: "receipt_key ?n = ?key" by (simp add: receipt_key_def)
  have pk': "pk receipt_key (t_receipts d')" using pk by (simp add: d' receipts.pk_upsert)
  have "row_of receipt_key ?key (t_receipts d')
      = Some (merged (receipt_merge (en_now en)) ?n (row_of receipt_key ?key (t_receipts d)))"
    using receipts.row_of_upsert [of ?n "en_now en" "t_receipts d"] unfolding key by (simp add: d')
  then show ?thesis unfolding live_receipt_def find_key_pk [OF pk'] using now old
    by (cases "row_of receipt_key ?key (t_receipts d)")
      (auto simp: merged_def resolve_def receipt_merge_def dest: row_of_Some)
qed

lemma class_of_class_str [simp]: "class_of_str (class_str c) = Some c"
  by (cases c) (simp_all add: class_of_str_def)

lemma tx_view_tables [simp]:
  "t_receipts (tx_view tx d) = t_receipts d" "t_authorities (tx_view tx d) = t_authorities d"
  by (simp_all add: tx_view_def split: option.splits)

lemma publish_fresh_db:
  assumes "publish_fresh en ss f v c rh roh s = (Inr a, s')"
  shows "\<exists>version k tx d. a = acceptance_of en f c version \<and> decisive d = decisive (gw_db s)
    \<and> store_receipt en ss f (vf_route v) c rh roh version k (tx_view tx d) = Inr (gw_db s')"
proof -
  obtain auth version k tx s1 own s2 s3 s4 d where
    m: "mutate_scope en ss v auth s = (Inr (version, k, tx), s1)"
    and a: "acquire_tokens en ss f (rt_scope (vf_route v)) c k s1 = (Inr (), s2)"
    and r: "(if tx = None then reconcile_scope_bindings en (vs_network_id ss) (vf_route v) else ret ()) s2 = (Inr (), s3)"
    and p: "publish_record en ss f (vf_route v) c version (sat_sub k (if own then 1 else 0)) s3 = (Inr (), s4)"
    and st: "store_receipt en ss f (vf_route v) c rh roh version (sat_sub k (if own then 1 else 0))
        (tx_view tx (gw_db s4)) = Inr d" "s' = s4\<lparr>gw_db := d\<rparr>" "a = acceptance_of en f c version"
    using assms unfolding publish_fresh_Inr publish_admitted_Inr by blast
  have k: "keeps_decisive (if tx = None then reconcile_scope_bindings en (vs_network_id ss) (vf_route v) else ret ())"
    by (simp add: keeps_decisive_reconcile)
  have "decisive (gw_db s4) = decisive (gw_db s)"
    using preservesD [OF keeps_decisive_db [OF preserves_mutate] m] preservesD [OF keeps_decisive_acquire a]
      preservesD [OF k r] preservesD [OF keeps_decisive_db [OF preserves_publish_record] p]
    by simp
  with st show ?thesis by (auto intro!: exI [of _ "gw_db s4"])
qed

lemma guard_after:
  assumes "publish_guard en ss f d v" and "en_x en' = en_x en" and "t_authorities d' = t_authorities d"
    and "snapshot_authority (en_x en) ss (vf_membership_mutation v) d' = Inr ()"
  shows "publish_guard en' ss f d' v"
  using assms by (simp add: publish_guard_def principal_is_global_authority_def)



section \<open>Scope versions\<close>

text \<open>Every active membership carries the version of its scope.\<close>

definition versions_agree :: "db \<Rightarrow> bool" where
  "versions_agree d \<longleftrightarrow> (\<forall>m\<in>set (t_memberships d). mb_state m = Active
     \<longrightarrow> scope_version d (mb_network_id m) (mb_scope_label m) = Some (mb_version m))"

lemma versions_agree_members:
  assumes "versions_agree d" and "scope_version d n l = Some v"
  shows "set (versioned_members d n l v) = set (active_members d n l)"
  using assms by (fastforce simp: versions_agree_def versioned_members_def active_members_def)

lemma mutation_versions_agree:
  assumes ok: "schema_ok d" and "versions_agree d"
    and "apply_membership_mutation en n mut a d s = (Inr (k, d'), s')"
  shows "versions_agree d'"
proof (rule apply_mutation_db [OF ok assms(3)])
  fix l w
  let ?des = "desired_members mut (active_members d n l)" and ?v = "mutation_version mut"
  let ?t = "t_memberships (revoke_scope (en_now en) n l ?v d)"
  assume d': "d' = d\<lparr>t_windows := w, t_memberships := fold (activate_member (en_now en) n l mut) ?des ?t,
      t_bindings := delete_where (scope_binding n l) (t_bindings d)
        @ scope_binding_rows (en_now en) n l (mutation_routes d n l a) ?des ?v,
      t_versions := upsert version_key scope_version_merge
        \<lparr>sv_network_id = n, sv_scope_label = l, sv_version = ?v,
         sv_routing_fence = 1, sv_updated_at = en_now en\<rparr> (t_versions d)\<rparr>"
  have pk: "pk membership_key (t_memberships d)" using ok by (simp add: schema_ok_def)
  note f = activate_fold [OF revoke_rows(2) [OF pk, of "en_now en" n l ?v],
      where now = "en_now en" and n = n and l = l and mut = mut and ps = ?des]
  have ver: "scope_version d' x y = (if (x, y) = (n, l) then Some ?v else scope_version d x y)" for x y
    by (rule scope_version_upsert) (simp add: d')
  show ?thesis unfolding versions_agree_def
  proof (intro ballI impI)
    fix m assume m: "m \<in> set (t_memberships d')" "mb_state m = Active"
    have row: "row_of membership_key (membership_key m) (t_memberships d') = Some m"
      by (rule row_of_pk [OF _ m(1)]) (use f in \<open>simp add: d'\<close>)
    show "scope_version d' (mb_network_id m) (mb_scope_label m) = Some (mb_version m)"
    proof (cases "(mb_network_id m, mb_scope_label m) = (n, l) \<and> mb_principal_id m \<in> set ?des")
      case True
      then have "mb_version m = ?v" using f row by (auto simp: d' membership_key_def)
      with True show ?thesis by (simp add: ver)
    next
      case False
      note r = project_rows [OF pk False, of "en_now en" mut]
      then obtain m0 where m0: "row_of membership_key (membership_key m) (t_memberships d) = Some m0"
        "m = (if (mb_network_id m, mb_scope_label m) = (n, l) then m0\<lparr>mb_state := Revoked, mb_version := ?v,
          mb_revoked_at := Some (en_now en), mb_interactive_binding := ''revoked'', mb_bulk_binding := ''revoked'',
          mb_binding_updated_at := Some (en_now en)\<rparr> else m0)"
        using row by (auto simp: d' membership_key_def)
      have "(mb_network_id m, mb_scope_label m) \<noteq> (n, l)"
      proof
        assume "(mb_network_id m, mb_scope_label m) = (n, l)"
        with arg_cong [OF m0(2), of mb_state] m(2) show False by simp
      qed
      moreover from this m0 have "m \<in> set (t_memberships d)" by (auto dest: row_of_Some)
      ultimately show ?thesis using assms(2) m(2) by (auto simp: ver versions_agree_def)
    qed
  qed
qed

end
