(* ===== verification/Fanout.thy ===== *)
theory Fanout
  imports Publish_Receipts
begin

text \<open>
  The fan-out of a shared-scope record end to end: reconciliation or mutation binds the mailboxes of the
  scope's members, the record is published under the scope's version, and the broker confirms it.
\<close>

section \<open>What reconciliation establishes\<close>

definition unbinds_in :: "queue_binding set \<Rightarrow> broker_cmd \<Rightarrow> bool" where
  "unbinds_in A c = (case c of QueueUnbind _ q x k \<Rightarrow> (q, x, k) \<in> A | _ \<Rightarrow> True)"

lemma bound_shrink:
  assumes "list_all (unbinds_in A) cs"
  shows "bound B lg - A \<subseteq> bound B (lg @ cs)"
proof -
  have "S - A \<subseteq> fold must_step (trace B pre cs) S" for pre S
    using assms
  proof (induction cs arbitrary: pre S)
    case (Cons c cs)
    have "S - A \<subseteq> must_step (c, B pre c) S - A"
      using Cons.prems by (auto simp: must_step_def unbinds_in_def split: broker_cmd.splits)
    also have "\<dots> \<subseteq> fold must_step (trace B (pre @ [c]) cs) (must_step (c, B pre c) S)"
      using Cons by simp
    finally show ?case by simp
  qed auto
  then show ?thesis unfolding bound_append .
qed

lemma emits_unbind: "scope_bindings en n p a v \<subseteq> A \<Longrightarrow> emits (unbinds_in A) (unbind_scope_member en n p a v)"
  unfolding unbind_scope_member_def
  by (auto intro!: frame_intros simp: unbinds_in_def scope_bindings_def)

lemma timed_Inr: "timed msg m s = (Inr v, s') \<longleftrightarrow> m s = (Inr v, s')"
  by (auto simp: timed_def split: prod.splits sum.splits)

lemma reconcile_rows_log: "preserves gw_log (reconcile_rows now n l a ms v)"
proof -
  have "preserves gw_log (db_op f)" for f :: "db \<Rightarrow> unit result \<times> db" by (simp add: preserves_def db_op_def)
  then show ?thesis unfolding reconcile_rows_def by (intro preserves_bnd preserves_for_each)
qed

definition dotless :: "db \<Rightarrow> bool" where
  "dotless d \<longleftrightarrow> (\<forall>p \<in> mb_principal_id ` set (t_memberships d) \<union> rb_principal_id ` set (t_bindings d).
     CHR ''.'' \<notin> set p)"

lemma reconcile_bound:
  assumes "reconcile_scope_bindings en n r s = (Inr u, s')" and "\<And>q. rt_scope r \<noteq> Node q" and "dotless (gw_db s)"
  shows "\<exists>l v. x_scope_label (en_x en) (rt_scope r) = Inr l \<and> scope_version (gw_db s) n l = Some v
    \<and> (\<forall>p\<in>set (versioned_members (gw_db s) n l v).
         scope_bindings en n p (rt_address r) v \<subseteq> bound (en_broker en) (gw_log s'))"
proof -
  let ?B = "en_broker en" and ?d = "gw_db s" and ?a = "rt_address r"
  obtain l v where l: "x_scope_label (en_x en) (rt_scope r) = Inr l" and v: "scope_version ?d n l = Some v"
    using assms(1,2) by (cases "rt_scope r") (auto simp: reconcile_scope_bindings_def bnd_Inr lift_res_def reads_def)
  let ?ms = "versioned_members ?d n l v"
  let ?des = "btree_set ?ms" and ?old = "btree_set (map rb_principal_id (filter (\<lambda>b. scope_route_binding n l ?a b
      \<and> rb_state b = ''active'') (t_bindings ?d)))"
  obtain s1 s2 where
    s1: "for_each (\<lambda>p. bind_scope_member en n p ?a v) ?des s = (Inr (), s1)"
    and s2: "for_each (\<lambda>p. unbind_scope_member en n p ?a v) (filter (\<lambda>p. p \<notin> set ?des) ?old) s1 = (Inr (), s2)"
    and s3: "reconcile_rows (en_now en) n l ?a ?ms v s2 = (Inr (), s')"
    using assms(1,2) l v
    by (cases "rt_scope r") (auto simp: reconcile_scope_bindings_def bnd_Inr lift_res_def reads_def timed_Inr Let_def)
  have grow: "bound ?B (gw_log t) \<subseteq> bound ?B (gw_log t')" if "bind_scope_member en n p ?a v t = (x, t')" for p t x t'
    using emitsD [OF emits_no_unbind(2) that] bound_mono by metis
  have b1: "\<forall>p\<in>set ?des. scope_bindings en n p ?a v \<subseteq> bound ?B (gw_log s1)"
    by (rule for_each_establishes [OF s1 bind_member_bound]) (assumption, use grow in blast)
  let ?A = "\<Union>p\<in>set (filter (\<lambda>p. p \<notin> set ?des) ?old). scope_bindings en n p ?a v"
  have "emits (unbinds_in ?A) (for_each (\<lambda>p. unbind_scope_member en n p ?a v) (filter (\<lambda>p. p \<notin> set ?des) ?old))"
    by (intro emits_for_each emits_unbind) blast
  then obtain cs where "gw_log s2 = gw_log s1 @ cs" "list_all (unbinds_in ?A) cs" using emitsD s2 by blast
  then have b2: "bound ?B (gw_log s1) - ?A \<subseteq> bound ?B (gw_log s2)" using bound_shrink by simp
  have "scope_bindings en n p ?a v \<inter> ?A = {}" if p: "p \<in> set ?des" for p
  proof -
    have "CHR ''.'' \<notin> set q" if "q \<in> set ?des \<union> set ?old" for q
      using that assms(3) by (auto simp: dotless_def versioned_members_def)
    then show ?thesis using p by (auto simp: scope_bindings_def dest: queue_name_inject(2))
  qed
  with b1 b2 have "\<forall>p\<in>set ?des. scope_bindings en n p ?a v \<subseteq> bound ?B (gw_log s2)" by blast
  then show ?thesis using l v preservesD [OF reconcile_rows_log s3] by auto
qed

section \<open>The end of a publish\<close>

lemma publish_record_log:
  assumes "publish_record en ss f r c version k s = (Inr u, s')" and "\<And>q. rt_scope r \<noteq> Node q"
  shows "\<exists>ch v. version = Some v \<and> gw_log s' = gw_log s @ [CreateChannel, ConfirmSelect ch]
      @ [BasicPublish ch (scope_exchange c) (scope_key en (vs_network_id ss) (rt_address r) v) (pf_record_id f)
           (Record (record_of en ss f r c version)), AwaitConfirm ch]
    \<and> en_broker en (gw_log s @ [CreateChannel, ConfirmSelect ch, BasicPublish ch (scope_exchange c)
           (scope_key en (vs_network_id ss) (rt_address r) v) (pf_record_id f)
           (Record (record_of en ss f r c version))]) (AwaitConfirm ch) = ReplyConfirm ConfirmAck"
proof -
  let ?rec = "record_of en ss f r c version"
  obtain s1 where s1: "rabbit_publish en (direct_recipient (rt_scope r)) ?rec s = (Inr (), s1)"
    and log: "gw_log s' = gw_log s1" using assms(1) by (auto simp: publish_record_Inr)
  have none: "direct_recipient (rt_scope r) = None"
    using assms(2) by (auto simp: direct_recipient_def split: swarm_scope.splits)
  obtain pre ch ex key t1 t2 where "gw_log s1 = gw_log s @ pre
      @ [BasicPublish ch ex key (br_record_id ?rec) (Record ?rec), AwaitConfirm ch]"
    and "gw_log t1 = gw_log s @ [CreateChannel, ConfirmSelect ch]"
    and "publish_target en None ?rec t1 = (Inr (ex, key), t2)" and "gw_log t2 = gw_log s @ pre"
    and "en_broker en (gw_log s @ pre @ [BasicPublish ch ex key (br_record_id ?rec) (Record ?rec)])
         (AwaitConfirm ch) = ReplyConfirm ConfirmAck"
    using rabbit_publish_Inr [OF s1] unfolding none by blast
  moreover from this(3) have "gw_log t2 = gw_log t1" "\<exists>v. version = Some v \<and> ex = scope_exchange c
      \<and> key = scope_key en (vs_network_id ss) (rt_address r) v"
    using publish_target_Inr by (fastforce simp: record_of_def)+
  ultimately show ?thesis unfolding log by (auto simp: record_of_def)
qed

lemma acquire_db:
  assumes "acquire_tokens en ss f sc c k s = (Inr (), s')"
  shows "\<exists>g b. gw_db s' = (gw_db s)\<lparr>t_global_buckets := g, t_cell_buckets := b\<rparr> \<and> gw_log s' = gw_log s"
proof -
  have *: "\<exists>g b. gw_db t' = (gw_db t)\<lparr>t_global_buckets := g, t_cell_buckets := b\<rparr> \<and> gw_log t' = gw_log t"
    if run: "acquire_with en gl acq msg t = (Inr (), t')"
      and acq: "\<And>d ok d'. acq d = Inr (ok, d') \<Longrightarrow> \<exists>g b. d' = d\<lparr>t_global_buckets := g, t_cell_buckets := b\<rparr>"
    for gl acq msg t t'
  proof -
    obtain ok d' where "acq (gw_db t) = Inr (ok, d')" "gw_db t' = d'" "gw_log t' = gw_log t"
      using run by (cases "acq (gw_db t)")
        (auto simp: acquire_with_def bnd_def op_defs db_op_def split: prod.splits if_splits)
    with acq show ?thesis by blast
  qed
  have self: "\<exists>g b. d = d\<lparr>t_global_buckets := g, t_cell_buckets := b\<rparr>"
    "\<exists>g' b. d\<lparr>t_global_buckets := g\<rparr> = d\<lparr>t_global_buckets := g', t_cell_buckets := b\<rparr>"
    "\<exists>g b'. d\<lparr>t_cell_buckets := b\<rparr> = d\<lparr>t_global_buckets := g, t_cell_buckets := b'\<rparr>" for d g b
    by (metis db.surjective db.update_convs(12,13))+
  have gl: "\<exists>g b. d' = d\<lparr>t_global_buckets := g, t_cell_buckets := b\<rparr>"
    if "acquire_global_token ts n cell cl r1 r2 bu po d = Inr (ok, d')" for ts n cell cl r1 r2 bu po d ok d'
    using that by (auto simp: acquire_global_token_def ensure_bucket_def and_then_Inr_iff Let_def self split: prod.splits)
  have nongl: "\<exists>g b. d' = d\<lparr>t_global_buckets := g, t_cell_buckets := b\<rparr>"
    if "acquire_non_global_delivery_tokens ts n cell co r po d = Inr (ok, d')" for ts n cell co r po d ok d'
    using that by (auto simp: acquire_non_global_delivery_tokens_def ensure_cell_bucket_def and_then_Inr_iff Let_def self
        split: prod.splits if_splits)
  note run = assms [unfolded acquire_tokens_def Let_def]
  show ?thesis
  proof (cases sc)
    case Global
    show ?thesis by (rule * [OF run [unfolded Global, simplified] gl])
  next
    case (Region x)
    show ?thesis by (rule * [OF run [unfolded Region, simplified] nongl])
  next
    case (Node x)
    then show ?thesis using run self(1) by (auto simp: ret_def)
  next
    case (Group x)
    show ?thesis by (rule * [OF run [unfolded Group, simplified] nongl])
  qed
qed

lemma validated_mutation_scope:
  assumes "validate_record_frame E f ss = Inr v" and "vf_membership_mutation v = Some m"
  shows "mutation_scope m = rt_scope (vf_route v)" and "\<And>q. rt_scope (vf_route v) \<noteq> Node q"
proof -
  obtain e where "validate_event_frame E f ss = Inr v" and e: "event_mutation e = Inr (Some m)"
    and *: "mutation_scope m = rt_scope (vf_route v)"
    using assms by (auto simp: validate_record_frame_def validate_rule_frame_def validate_checkpoint_frame_def
        validate_summary_frame_def validate_event_frame_def and_then_Inr_iff Let_def split: if_splits payload_type.splits)
  then show "mutation_scope m = rt_scope (vf_route v)" by simp
  show "rt_scope (vf_route v) \<noteq> Node q" for q
    using e unfolding * [symmetric]
    by (auto simp: event_mutation_def and_then_Inr_iff split: event_payload.splits if_splits swarm_scope.splits)
qed

section \<open>Every member is bound when the record is published\<close>

lemma versions_agree_iff:
  "versions_agree d \<longleftrightarrow> (\<forall>(n, l, st, v)\<in>set (member_versions d). st = Active \<longrightarrow> scope_version d n l = Some v)"
  by (auto simp: versions_agree_def member_versions_def)

lemma decisive_eqD:
  assumes "decisive d = decisive d'"
  shows "scope_version d = scope_version d'" and "set (active_members d n l) = set (active_members d' n l)"
    and "versions_agree d \<longleftrightarrow> versions_agree d'"
proof -
  have v: "t_versions d = t_versions d'" and m: "membership_view d (n, l) = membership_view d' (n, l)"
    and mv: "member_versions d = member_versions d'" using assms by (simp_all add: decisive_def)
  show "scope_version d = scope_version d'" by (simp add: scope_version_def fun_eq_iff v)
  then show "versions_agree d \<longleftrightarrow> versions_agree d'" by (simp add: versions_agree_iff mv)
  show "set (active_members d n l) = set (active_members d' n l)" using m by (simp add: membership_view_def)
qed

lemma stored_members:
  assumes "store_receipt en ss f r c rh roh version k d = Inr d'"
  shows "scope_version d' = scope_version d" and "active_members d' = active_members d"
    and "versions_agree d' \<longleftrightarrow> versions_agree d"
  using store_receipt_Inr [OF assms]
  by (auto simp: scope_version_def active_members_def versions_agree_def fun_eq_iff)

text \<open>The state of affairs just before the record is handed to the broker, in the two cases.\<close>

definition members_bound :: "env \<Rightarrow> string \<Rightarrow> string \<Rightarrow> route \<Rightarrow> string \<Rightarrow> db \<Rightarrow> gw \<Rightarrow> bool" where
  "members_bound en n l r version d s \<longleftrightarrow> scope_version d n l = Some version \<and> versions_agree d
     \<and> (\<forall>p\<in>set (active_members d n l).
          scope_bindings en n p (rt_address r) version \<subseteq> bound (en_broker en) (gw_log s))"

lemma unmutated_bound:
  assumes "versions_agree (gw_db s)" and "dotless (gw_db s)" and shared: "\<And>q. rt_scope (vf_route v) \<noteq> Node q"
    and l: "x_scope_label (en_x en) (rt_scope (vf_route v)) = Inr l"
    and a: "acquire_tokens en ss f (rt_scope (vf_route v)) c k s = (Inr (), s1)"
    and r: "reconcile_scope_bindings en n (vf_route v) s1 = (Inr (), s2)"
  shows "\<exists>version. members_bound en n l (vf_route v) version (gw_db s2) s2
    \<and> scope_version (gw_db s) n l = Some version"
proof -
  obtain g b where db: "gw_db s1 = (gw_db s)\<lparr>t_global_buckets := g, t_cell_buckets := b\<rparr>"
    using acquire_db [OF a] by blast
  have "dotless (gw_db s1)" using assms(2) by (simp add: db dotless_def)
  then obtain version where ver: "scope_version (gw_db s1) n l = Some version"
    and bound: "\<forall>p\<in>set (versioned_members (gw_db s1) n l version).
      scope_bindings en n p (rt_address (vf_route v)) version \<subseteq> bound (en_broker en) (gw_log s2)"
    using reconcile_bound [OF r shared] l by auto
  have "versions_agree (gw_db s1)" using assms(1) by (simp add: db versions_agree_def scope_version_def)
  moreover note dec = decisive_eqD [OF preservesD [OF keeps_decisive_reconcile r]]
  ultimately show ?thesis using ver bound versions_agree_members [of "gw_db s1" n l version]
    by (auto simp: members_bound_def dec db scope_version_def)
qed

lemma mutated_bound:
  assumes "schema_ok d" and "versions_agree d"
    and "x_scope_label (en_x en) (mutation_scope mut) = Inr l"
    and m: "apply_membership_mutation en n mut (Some (rt_address r)) d s = (Inr (k, d'), s')"
  shows "members_bound en n l r (mutation_version mut) d' s'"
proof -
  have act: "set (active_members d' n l) = spec_members mut (set (active_members d n l))"
    by (rule mutation_active [OF assms(1) m assms(3)])
  have ver: "scope_version d' n l = Some (mutation_version mut)"
    using apply_mutation_version [OF assms(1) m assms(3)] .
  have "scope_bindings en n p (rt_address r) (mutation_version mut) \<subseteq> bound (en_broker en) (gw_log s')"
    if "p \<in> spec_members mut (set (active_members d n l))" for p
  proof (rule apply_mutation_Inr [OF m])
    fix l' d1 routes desired s1
    assume l': "x_scope_label (en_x en) (mutation_scope mut) = Inr l'"
      and rec: "record_membership_mutation (en_now en) (en_config en) n l' (mutation_version mut) d = Inr d1"
      and des: "desired = desired_members mut (active_members d1 n l')" "routes = mutation_routes d1 n l' (Some (rt_address r))"
      and b: "bind_members en n (active_members d1 n l') desired routes (mutation_version mut) s = (Inr (), s1)" "s' = s1"
    obtain w where w: "d1 = d\<lparr>t_windows := w\<rparr>" using record_mutation_Inr [OF rec] by blast
    have "p \<in> set desired" using that l' assms(3) by (simp add: des set_desired w active_members_def)
    moreover have "rt_address r \<in> set routes" by (simp add: des mutation_routes_def Let_def)
    ultimately show ?thesis using bind_members_bound [OF b(1)] b(2) by blast
  qed
  then show ?thesis using act ver mutation_versions_agree [OF assms(1,2) m] by (simp add: members_bound_def)
qed

lemma members_bound_cong:
  assumes "members_bound en n l r version d s" and "scope_version d' = scope_version d"
    and "set (active_members d' n l) = set (active_members d n l)" and "versions_agree d' \<longleftrightarrow> versions_agree d"
    and "bound (en_broker en) (gw_log s) \<subseteq> bound (en_broker en) (gw_log s')"
  shows "members_bound en n l r version d' s'"
  using assms by (auto simp: members_bound_def)

lemma tx_view_members:
  "scope_version (tx_view (Some t) d) = scope_version t" "active_members (tx_view (Some t) d) = active_members t"
  "versions_agree (tx_view (Some t) d) \<longleftrightarrow> versions_agree t"
  by (auto simp: tx_view_def scope_version_def active_members_def versions_agree_def fun_eq_iff)

lemma fresh_members_bound:
  assumes ok: "schema_ok (gw_db s)" "versions_agree (gw_db s)" "dotless (gw_db s)"
    and v: "validate_record_frame (en_x en) f ss = Inr v" and shared: "\<And>q. rt_scope (vf_route v) \<noteq> Node q"
    and run: "publish_fresh en ss f v c rh roh s = (Inr a, s')"
  shows "\<exists>l version k s3 s4. x_scope_label (en_x en) (rt_scope (vf_route v)) = Inr l
    \<and> a = acceptance_of en f c (Some version) \<and> gw_log s' = gw_log s4
    \<and> publish_record en ss f (vf_route v) c (Some version) k s3 = (Inr (), s4)
    \<and> members_bound en (vs_network_id ss) l (vf_route v) version (gw_db s') s3"
proof -
  let ?n = "vs_network_id ss" and ?r = "vf_route v"
  obtain l auth version k tx s1 own s2 s3 s4 d where l: "x_scope_label (en_x en) (rt_scope ?r) = Inr l"
    and au: "authorized_scope_version_and_count (en_now en) (en_x en) (gw_db s) ?n (rt_scope ?r) (vs_principal_id ss)
      (self_subscription ss (vf_membership_mutation v)) = Inr auth"
    and m: "mutate_scope en ss v auth s = (Inr (version, k, tx), s1)"
    and a: "acquire_tokens en ss f (rt_scope ?r) c k s1 = (Inr (), s2)"
    and r: "(if tx = None then reconcile_scope_bindings en ?n ?r else ret ()) s2 = (Inr (), s3)"
    and p: "publish_record en ss f ?r c version (sat_sub k (if own then 1 else 0)) s3 = (Inr (), s4)"
    and st: "store_receipt en ss f ?r c rh roh version (sat_sub k (if own then 1 else 0))
        (tx_view tx (gw_db s4)) = Inr d" "s' = s4\<lparr>gw_db := d\<rparr>" "a = acceptance_of en f c version"
    using run unfolding publish_fresh_Inr publish_admitted_Inr by blast
  have db4: "gw_db s4 = gw_db s3" by (rule preservesD [OF preserves_publish_record p])
  have "\<exists>ver. version = Some ver \<and> members_bound en ?n l ?r ver (gw_db s') s3"
  proof (cases "vf_membership_mutation v")
    case None
    then have s1: "s1 = s" "version = fst auth" "tx = None" using m by (auto simp: mutate_scope_def ret_def)
    have "fst auth = scope_version (gw_db s) ?n l"
      using au l shared by (cases "rt_scope ?r")
        (auto simp: authorized_scope_version_and_count_def Let_def and_then_Inr_iff split: if_splits)
    moreover have a': "acquire_tokens en ss f (rt_scope ?r) c k s = (Inr (), s2)"
      and r': "reconcile_scope_bindings en ?n ?r s2 = (Inr (), s3)" using a r s1 by simp_all
    obtain ver where "members_bound en ?n l ?r ver (gw_db s3) s3" "scope_version (gw_db s) ?n l = Some ver"
      using unmutated_bound [OF ok(2,3) shared l a' r'] by blast
    ultimately show ?thesis using stored_members [OF st(1)] st(2) s1 db4
      by (auto intro: members_bound_cong simp: tx_view_def)
  next
    case (Some mut)
    then obtain t t' where mm: "apply_membership_mutation en ?n mut (Some (rt_address ?r)) (gw_db s) s = (Inr (k, t), t')"
      and mv: "version = Some (mutation_version mut)" "tx = Some t" "gw_log s1 = gw_log t'"
      using m by (cases "apply_membership_mutation en ?n mut (Some (rt_address ?r)) (gw_db s) s")
        (auto simp: mutate_scope_def bnd_def op_defs split: sum.splits prod.splits)
    have "members_bound en ?n l ?r (mutation_version mut) t t'"
      by (rule mutated_bound [OF ok(1,2) _ mm]) (use l validated_mutation_scope(1) [OF v Some] in simp)
    moreover have "gw_log s3 = gw_log t'" using r mv acquire_db [OF a] by (auto simp: ret_def)
    ultimately show ?thesis using stored_members [OF st(1)] st(2) mv
      by (auto intro: members_bound_cong simp: tx_view_members)
  qed
  with l p st show ?thesis by auto
qed

text \<open>
  C27. A successful publish to a shared scope reaches every member. The version in the acceptance is the
  scope's active version in the database the publish leaves; the last thing sent to the broker is the
  record, published to the scope exchange of its class under the routing key of that version, and the
  broker confirmed it; and before that the mailbox of every active member of the scope, including those a
  membership mutation in this very record has just added, was bound to that key. The agreement of member
  and scope versions is kept. Principal ids contain no dot, as hexadecimal keys do not.
\<close>

theorem publish_reaches_members:
  assumes "schema_ok (gw_db s)" and "versions_agree (gw_db s)" and "dotless (gw_db s)"
    and "publish en ss f s = (Inr a, s')" and "\<And>q. rt_scope (pf_transport f) \<noteq> Node q"
    and "live_receipt (en_now en) (gw_db s) (vs_network_id ss) (vs_principal_id ss) (pf_record_id f) = None"
  shows "\<exists>l version pre ch. x_scope_label (en_x en) (rt_scope (pf_transport f)) = Inr l
    \<and> pa_membership_version a = Some version \<and> scope_version (gw_db s') (vs_network_id ss) l = Some version
    \<and> versions_agree (gw_db s')
    \<and> (let x = scope_exchange (pa_delivery_class a);
           key = scope_key en (vs_network_id ss) (rt_address (pf_transport f)) version;
           msg = BasicPublish ch x key (pf_record_id f)
             (Record (record_of en ss f (pf_transport f) (pa_delivery_class a) (Some version)))
       in gw_log s' = pre @ [msg, AwaitConfirm ch]
        \<and> en_broker en (pre @ [msg]) (AwaitConfirm ch) = ReplyConfirm ConfirmAck
        \<and> (\<forall>p\<in>set (active_members (gw_db s') (vs_network_id ss) l).
             (queue_name (en_x en) (vs_network_id ss) p (pa_delivery_class a), x, key) \<in> bound (en_broker en) pre))"
proof -
  let ?n = "vs_network_id ss"
  obtain v where v: "publish_guard en ss f (gw_db s) v"
    using assms(4) publish_unguarded [of en ss f s] by auto
  have val: "validate_record_frame (en_x en) f ss = Inr v" using v by (simp add: publish_guard_def)
  have route: "vf_route v = pf_transport f" using validate_record_Inr [OF val] by simp
  let ?c = "frame_class en v"
  have "publish_fresh en ss f v ?c (record_hash_of en f) (route_hash_of en (vf_route v)) s = (Inr a, s')"
    using assms(4,6) unfolding publish_guarded [OF v] by (simp add: load_confirmed_receipt_def)
  from fresh_members_bound [OF assms(1-3) val _ this] assms(5) obtain l version k s3 s4
    where l: "x_scope_label (en_x en) (rt_scope (pf_transport f)) = Inr l"
    and a: "a = acceptance_of en f ?c (Some version)" and log: "gw_log s' = gw_log s4"
    and p: "publish_record en ss f (pf_transport f) ?c (Some version) k s3 = (Inr (), s4)"
    and b: "members_bound en ?n l (pf_transport f) version (gw_db s') s3" unfolding route by auto
  let ?key = "scope_key en ?n (rt_address (pf_transport f)) version"
  let ?msg = "\<lambda>ch. BasicPublish ch (scope_exchange ?c) ?key (pf_record_id f)
    (Record (record_of en ss f (pf_transport f) ?c (Some version)))"
  obtain ch where log4: "gw_log s4 = (gw_log s3 @ [CreateChannel, ConfirmSelect ch]) @ [?msg ch, AwaitConfirm ch]"
    and ack: "en_broker en ((gw_log s3 @ [CreateChannel, ConfirmSelect ch]) @ [?msg ch]) (AwaitConfirm ch)
      = ReplyConfirm ConfirmAck"
    using publish_record_log [OF p assms(5)] by auto
  have "bound (en_broker en) (gw_log s3) \<subseteq> bound (en_broker en) (gw_log s3 @ [CreateChannel, ConfirmSelect ch])"
    by (rule bound_mono) (simp add: is_unbind_def)
  then have "\<forall>p\<in>set (active_members (gw_db s') ?n l). (queue_name (en_x en) ?n p ?c, scope_exchange ?c, ?key)
      \<in> bound (en_broker en) (gw_log s3 @ [CreateChannel, ConfirmSelect ch])"
    using b unfolding members_bound_def scope_bindings_def by blast
  then show ?thesis using l a b log log4 ack unfolding members_bound_def Let_def
    by (intro exI [of _ l] exI [of _ version] exI [of _ "gw_log s3 @ [CreateChannel, ConfirmSelect ch]"] exI [of _ ch])
      (simp add: acceptance_of_def)
qed

section \<open>A concrete fan-out\<close>

lemma run_ok: "fst x = Inr v \<Longrightarrow> \<exists>s'. x = (Inr v, s')"
  by (cases x) simp

lemma reconcile_rows_ok:
  assumes "distinct ms"
  shows "fst (reconcile_rows now n l a ms v s) = Inr ()"
proof -
  let ?ins = "\<lambda>r. db_op (\<lambda>d. case insert_row binding_key r (t_bindings d) of
    None \<Rightarrow> (Inl duplicate_key, d) | Some bs \<Rightarrow> (Inr (), d\<lparr>t_bindings := bs\<rparr>))"
  have ins: "fst (for_each ?ins rs t) = Inr ()" if "insert_rows binding_key rs (t_bindings (gw_db t)) = Inr bs" for rs t bs
    using that
  proof (induction rs arbitrary: t)
    case (Cons r rs)
    then obtain b1 where b1: "insert_row binding_key r (t_bindings (gw_db t)) = Some b1" "insert_rows binding_key rs b1 = Inr bs"
      by (auto split: option.splits)
    let ?t = "t\<lparr>gw_db := (gw_db t)\<lparr>t_bindings := b1\<rparr>\<rparr>"
    have "?ins r t = (Inr (), ?t)" by (simp add: db_op_def b1)
    with Cons.IH [of ?t] b1 show ?case by (simp add: bnd_def)
  qed (simp add: ret_def)
  let ?rows = "scope_binding_rows now n l [a] ms v"
  let ?t = "delete_where (scope_route_binding n l a) (t_bindings (gw_db s))"
  have "binding_key ` set ?rows \<inter> binding_key ` set ?t = {}"
    by (auto simp: set_scope_binding_rows set_delete_where scope_route_binding_def scope_binding_def binding_key_def)
  then have "insert_rows binding_key ?rows ?t = Inr (?t @ ?rows)"
    using distinct_scope_binding_rows [of "[a]" ms now n l v] assms by (simp add: insert_rows_Inr)
  with ins show ?thesis unfolding reconcile_rows_def
    by (intro bnd_ok) (auto simp: db_op_def)
qed

lemma sample_reconcile:
  assumes "en_broker en = sample_broker [] []" and "pk membership_key (t_memberships (gw_db s))"
    and "t_bindings (gw_db s) = []"
    and "x_scope_label (en_x en) (rt_scope r) = Inr l" and "scope_version (gw_db s) n l = Some v"
  shows "fst (reconcile_scope_bindings en n r s) = Inr ()"
proof (cases "\<exists>q. rt_scope r = Node q")
  case True
  then show ?thesis by (auto simp: reconcile_scope_bindings_def ret_def)
next
  case False
  let ?ms = "versioned_members (gw_db s) n l v"
  have ens: "fst (ensure_tenant_mailboxes en n p t) = Inr ()" for p t
    by (simp add: ensure_tenant_mailboxes_def run_simps assms(1))
  have bind: "fst (bind_scope_member en n p (rt_address r) v t) = Inr ()" for p t
  proof -
    obtain t1 where "ensure_tenant_mailboxes en n p t = (Inr (), t1)" using ens by (metis prod.collapse)
    then show ?thesis by (simp add: bind_scope_member_def with_binding_metric_def run_simps assms(1))
  qed
  obtain s1 where s1: "for_each (\<lambda>p. bind_scope_member en n p (rt_address r) v) (btree_set ?ms) s = (Inr (), s1)"
    using run_ok [OF for_each_ok [of "\<lambda>p. bind_scope_member en n p (rt_address r) v", OF bind]] by blast
  then have db: "gw_db s1 = gw_db s" by (rule preservesD [OF preserves_for_each [OF preserves_mailboxes(3)]])
  have "distinct ?ms"
  proof -
    have "distinct (map membership_key (filter (\<lambda>m. mb_network_id m = n \<and> mb_scope_label m = l \<and> mb_state m = Active
        \<and> mb_version m = v) (t_memberships (gw_db s))))" using assms(2) by (simp add: pk_def distinct_map_filter)
    then show ?thesis by (auto simp: versioned_members_def distinct_map membership_key_def inj_on_def)
  qed
  then have rows: "fst (reconcile_rows (en_now en) n l (rt_address r) ?ms v s1) = Inr ()"
    by (rule reconcile_rows_ok)
  show ?thesis
    using False s1 rows assms(4) by (cases "rt_scope r")
      (auto simp: reconcile_scope_bindings_def bnd_def lift_res_def reads_def timed_def ret_def assms(3,5) Let_def btree_set_def)
qed

definition group_event :: event where
  "group_event = alice_event\<lparr>ev_swarm_scope := ''group:g''\<rparr>"

definition group_frame :: publish_frame where
  "group_frame = alice_frame\<lparr>pf_transport := sample_route (Group ''g'') Events ''Ping'' False\<rparr>"

definition group_env :: env where
  "group_env = event_env group_event (HintGroup ''g'')"

definition group_db :: db where
  "group_db = empty_db\<lparr>t_memberships := [member_row ''group:g'' ''alice'', member_row ''group:g'' ''bob''],
     t_versions := [\<lparr>sv_network_id = ''net'', sv_scope_label = ''group:g'', sv_version = ''v1'',
       sv_routing_fence = 1, sv_updated_at = 0\<rparr>]\<rparr>"

definition group_validated :: validated_frame where
  "group_validated = \<lparr>vf_route = sample_route (Group ''g'') Events ''Ping'' False, vf_urgency = Background,
     vf_membership_mutation = None\<rparr>"

lemma group_guard: "publish_guard group_env alice_session group_frame group_db group_validated"
  by (simp add: publish_guard_def group_env_def group_validated_def snapshot_authority_def validate_record_frame_def
      validate_event_frame_def group_frame_def alice_frame_def group_event_def alice_event_def alice_session_def
      is_public_global_control_def event_lane_def event_mutation_def event_urgency_def sample_route_def Let_def)

lemma group_db_ok: "schema_ok group_db" "versions_agree group_db" "dotless group_db"
  by (simp_all add: group_db_def schema_ok_def empty_db_def pk_def member_row_def membership_key_def versions_agree_def
      dotless_def scope_version_def row_of_def version_key_def)

lemma sample_cell_tokens:
  assumes "t_cell_buckets d = []"
  shows "\<exists>d'. acquire_non_global_delivery_tokens (t, t, t) n cell 2 10000 policy d = Inr (True, d')"
proof -
  have "f64_of_u64 10000 = 10000" "f64_of_u64 2 = 2" by (simp_all add: f64_of_u64_exact)
  moreover have "f64_elapsed t t = 0" by (simp add: f64_elapsed_def)
  moreover have "f64_round (10000 :: rat) = 10000" using f64_round_nat [of 10000] by simp
  ultimately show ?thesis using assms
    by (simp add: acquire_non_global_delivery_tokens_def ensure_cell_bucket_def upsert_def row_of_def
        cell_bucket_key_def refill_def Let_def)
qed

lemma group_run:
  "\<exists>s'. publish group_env alice_session group_frame (sample_gw group_db)
     = (Inr (acceptance_of group_env group_frame Bulk (Some ''v1'')), s')"
proof -
  let ?en = group_env and ?v = group_validated
  let ?r = "sample_route (Group ''g'') Events ''Ping'' False"
  have simps: "en_x ?en = event_externs group_event (HintGroup ''g'')" "en_config ?en = valid"
    "en_broker ?en = sample_broker [] []" "en_now ?en = 1000000" "vf_route ?v = ?r" "vf_membership_mutation ?v = None"
    "rt_scope ?r = Group ''g''" "rt_lane ?r = Events" "vf_urgency ?v = Background"
    by (simp_all add: group_env_def group_validated_def sample_route_def)
  have auth: "authorized_scope_version_and_count 1000000 (en_x ?en) group_db ''net'' (Group ''g'') ''alice'' b
      = Inr (Some ''v1'', 2)" for b
    by (simp add: simps authorized_scope_version_and_count_def group_db_def member_row_def live_member_def grant_live_def
        empty_db_def row_of_def scope_version_def version_key_def version_matches_def Let_def)
  obtain own where own: "author_is_recipient 1000000 (en_x ?en) group_db alice_session ?v (Some ''v1'') = Inr own"
    by (simp add: author_is_recipient_def scope_contains_principal_def simps Let_def)
  have budget: "check_byte_budget valid group_frame 2 = Inr ()"
    by (simp add: check_byte_budget_def checked_mul_def group_frame_def alice_frame_def valid_def bail_if_def)
  have nob: "t_cell_buckets group_db = []" by (simp add: group_db_def empty_db_def)
  obtain d1 where d1: "acquire_non_global_delivery_tokens (1000000, 1000000, 1000000) (vs_network_id alice_session)
      ''cell-0'' 2 10000 (pf_delivery_policy_version group_frame) group_db = Inr (True, d1)"
    using sample_cell_tokens [OF nob] by blast
  obtain s1 where s1: "acquire_tokens ?en alice_session group_frame (Group ''g'') Bulk 2 (sample_gw group_db) = (Inr (), s1)"
    by (simp add: acquire_tokens_def acquire_with_def simps valid_def bnd_def op_defs db_op_def Let_def d1)
  obtain g b where db1: "gw_db s1 = group_db\<lparr>t_global_buckets := g, t_cell_buckets := b\<rparr>"
    using acquire_db [OF s1] by auto
  have "scope_version (gw_db s1) ''net'' ''group:g'' = Some ''v1''" "t_bindings (gw_db s1) = []"
    "pk membership_key (t_memberships (gw_db s1))"
    by (simp_all add: db1 group_db_def empty_db_def pk_def member_row_def membership_key_def scope_version_def row_of_def
        version_key_def)
  then obtain s2 where s2: "reconcile_scope_bindings ?en ''net'' ?r s1 = (Inr (), s2)"
    using run_ok [OF sample_reconcile [of ?en s1 ?r "''group:g''" "''net''" "''v1''"]] by (auto simp: simps)
  have "br_membership_version (record_of ?en alice_session group_frame ?r Bulk (Some ''v1'')) \<noteq> None"
    by (simp add: record_of_def)
  then obtain s3 where s3: "rabbit_publish ?en None (record_of ?en alice_session group_frame ?r Bulk (Some ''v1'')) s2 = (Inr (), s3)"
    using run_ok [OF sample_rabbit_publish [OF simps(3)]] by blast
  let ?k = "sat_sub 2 (if own then 1 else 0)"
  obtain s4 where s4: "publish_record ?en alice_session group_frame ?r Bulk (Some ''v1'') ?k s2 = (Inr (), s4)"
    "gw_db s4 = gw_db s3" unfolding publish_record_Inr by (simp add: simps direct_recipient_def s3)
  have "en_uuid ?en 1 \<notin> ad_audit_id ` set (t_audit (gw_db s4))"
    using preservesD [OF preserves_publish(1) s3] preservesD [OF keeps_decisive_reconcile s2] s4(2)
    by (simp add: decisive_def db1 group_db_def empty_db_def)
  then obtain d where d: "store_receipt ?en alice_session group_frame ?r Bulk (record_hash_of ?en group_frame)
      (route_hash_of ?en ?r) (Some ''v1'') ?k (gw_db s4) = Inr d"
    using store_receipt_ok by blast
  have k: "0 < (2 :: u64)" "(2 :: u64) \<le> max_fanout_recipients valid" by (simp_all add: valid_def)
  have "\<exists>s'. publish_admitted ?en alice_session group_frame ?v Bulk (record_hash_of ?en group_frame) (route_hash_of ?en ?r)
      (Some ''v1'') 2 None (sample_gw group_db) = (Inr (acceptance_of ?en group_frame Bulk (Some ''v1'')), s')"
    unfolding publish_admitted_Inr using own budget s1 s2 s4 d k
    by (intro exI [of _ "s4\<lparr>gw_db := d\<rparr>"] exI [of _ own] exI [of _ s1] exI [of _ s2] exI [of _ s4] exI [of _ d])
      (simp add: simps alice_session_def tx_view_def)
  moreover have "mutate_scope ?en alice_session ?v (Some ''v1'', 2) (sample_gw group_db)
      = (Inr (Some ''v1'', 2, None), sample_gw group_db)" by (simp add: mutate_scope_def ret_def simps)
  ultimately have fresh: "\<exists>s'. publish_fresh ?en alice_session group_frame ?v Bulk (record_hash_of ?en group_frame)
      (route_hash_of ?en ?r) (sample_gw group_db) = (Inr (acceptance_of ?en group_frame Bulk (Some ''v1'')), s')"
    unfolding publish_fresh_Inr using auth by (simp add: simps alice_session_def)
  have "load_confirmed_receipt 1000000 group_db n p rid rh roh = Inr None" for n p rid rh roh
    by (simp add: load_confirmed_receipt_def live_receipt_def group_db_def empty_db_def)
  with fresh show ?thesis using publish_guarded [of ?en alice_session group_frame "sample_gw group_db" ?v] group_guard
    by (simp add: simps)
qed

theorem publish_reaches_members_witness:
  "\<exists>a s' pre ch key e. publish group_env alice_session group_frame (sample_gw group_db) = (Inr a, s')
     \<and> gw_log s' = pre @ [BasicPublish ch (scope_exchange Bulk) key ''e1'' e, AwaitConfirm ch]
     \<and> (\<forall>p\<in>set (active_members (gw_db s') ''net'' ''group:g'').
          (queue_name (en_x group_env) ''net'' p Bulk, scope_exchange Bulk, key) \<in> bound (en_broker group_env) pre)"
proof -
  obtain s' where run: "publish group_env alice_session group_frame (sample_gw group_db)
     = (Inr (acceptance_of group_env group_frame Bulk (Some ''v1'')), s')" using group_run by blast
  have none: "live_receipt t (gw_db (sample_gw group_db)) n p i = None" for t n p i
    by (simp add: live_receipt_def group_db_def empty_db_def)
  have shared: "rt_scope (pf_transport group_frame) \<noteq> Node q" for q
    by (simp add: group_frame_def sample_route_def)
  have fields: "pf_record_id group_frame = ''e1''" "vs_network_id alice_session = ''net''"
    "pa_delivery_class (acceptance_of group_env group_frame Bulk (Some ''v1'')) = Bulk"
    "x_scope_label (en_x group_env) (rt_scope (pf_transport group_frame)) = Inr ''group:g''"
    by (simp_all add: group_frame_def alice_frame_def alice_session_def acceptance_of_def group_env_def sample_route_def)
  from publish_reaches_members [OF _ _ _ run shared none] group_db_ok
  show ?thesis unfolding fields Let_def using run by (simp add: fields) blast
qed

end
