(* ===== verification/Controls.thy ===== *)
theory Controls
  imports Publish_Receipts
begin

text \<open>
  Control messages (\<open>send_control\<close>): what a success means when the receipt can be stored, and that on a
  database created by the current schema it never can, because the statement leaves out a column that is
  \<open>NOT NULL\<close> and has no default there.
\<close>

section \<open>The steps before the receipt is looked up\<close>

definition control_guard ::
  "env \<Rightarrow> verified_session \<Rightarrow> control_frame \<Rightarrow> db \<Rightarrow> string \<Rightarrow> route \<Rightarrow> bool" where
  "control_guard en ss f d did gap_route \<longleftrightarrow> \<not> control_frame_invalid ss f
     \<and> principal_is_admitted (en_now en) d (vs_network_id ss) (cf_target_principal_id f)
     \<and> (\<exists>message. x_control_message (en_x en) f = Inr message
          \<and> x_verify_signature (en_x en) (cf_source_principal_id f) message (cf_signature_hex f) = Inr ())
     \<and> x_stable_delivery_id (en_x en) (vs_network_id ss) (cf_correlation_id f) (cf_target_principal_id f) None = Inr did
     \<and> x_route_from_kind (en_x en) (Node (cf_target_principal_id f)) Events ''ClientServerControl'' False = Inr gap_route"

abbreviation control_hash :: "env \<Rightarrow> control_frame \<Rightarrow> string" where
  "control_hash en f \<equiv> sha256_hex (en_x en) (x_control_binding_bytes (en_x en) f)"

lemma send_control_guarded:
  assumes "control_guard en ss f (gw_db s) did g"
  shows "send_control en ss f s =
    (case live_receipt (en_now en) (gw_db s) (vs_network_id ss) (vs_principal_id ss) (cf_correlation_id f) of
       Some r \<Rightarrow>
         if pr_route_hash r \<noteq> route_hash_of en g \<or> pr_binding_set_hash r \<noteq> control_hash en f
            \<or> pr_class r \<noteq> ''interactive'' \<or> pr_policy_version r \<noteq> x_policy_version (en_x en)
         then (Inl ''control correlation id was already used with different immutable fields'', s)
         else (Inr \<lparr>ka_correlation_id = cf_correlation_id f, ka_delivery_id = did\<rparr>,
               s\<lparr>gw_obs := record_duplicate_publish (gw_obs s)\<rparr>)
     | None \<Rightarrow>
         bnd (publish_control en (control_record en ss f g)) (\<lambda>_.
         bnd (db_op (insert_control_receipt en ss f (route_hash_of en g) (control_hash en f))) (\<lambda>_.
         ret \<lparr>ka_correlation_id = cf_correlation_id f, ka_delivery_id = did\<rparr>)) s)"
  using assms unfolding control_guard_def send_control_def Let_def bail_if_def
  by (auto simp: bnd_lift_ok observed_def bnd_modify raise_def ret_def split: option.splits)

lemma send_control_unguarded:
  assumes "\<And>did g. \<not> control_guard en ss f (gw_db s) did g"
  shows "\<exists>e. send_control en ss f s = (Inl e, s)"
  using assms unfolding control_guard_def send_control_def Let_def bail_if_def
  by (cases "x_control_message (en_x en) f"; cases "x_stable_delivery_id (en_x en) (vs_network_id ss) (cf_correlation_id f)
      (cf_target_principal_id f) None"; cases "x_route_from_kind (en_x en) (Node (cf_target_principal_id f)) Events
      ''ClientServerControl'' False")
    (auto simp: bnd_def lift_res_def reads_def split: sum.splits)

section \<open>Receipts that cannot be stored\<close>

lemma control_publish_frame:
  assumes "bnd (publish_control en c) (\<lambda>_. bnd (db_op f) (\<lambda>_. ret a)) s = (r, s')"
    and "\<And>d. \<exists>e. f d = (Inl e, d)"
  shows "gw_db s' = gw_db s \<and> (\<exists>e. r = Inl e)"
proof -
  obtain x s1 where x: "publish_control en c s = (x, s1)" by fastforce
  have db: "gw_db s1 = gw_db s" by (rule preservesD [OF preserves_publish(3) x])
  obtain e where "f (gw_db s1) = (Inl e, gw_db s1)" using assms(2) by blast
  then show ?thesis using assms(1) x db by (cases x) (auto simp: bnd_def db_op_def)
qed

text \<open>
  C28. On a fresh database a control message is never accepted. When the receipts table was created by
  the current schema, whose column \<open>record_hash\<close> is \<open>NOT NULL\<close> without a default, every request that gets as
  far as the broker ends in an error, also when the broker confirmed the message, and stores no receipt;
  so the database never changes, and sending the same message again repeats the delivery instead of being
  recognized as a duplicate. A success is only the answer to a correlation id that some publish used.
\<close>

theorem control_receipt_never_stored:
  assumes "en_record_hash_default en = None" and "send_control en ss f s = (r, s')"
  shows "gw_db s' = gw_db s \<and> (gw_log s' \<noteq> gw_log s \<longrightarrow> (\<exists>e. r = Inl e))
    \<and> (live_receipt (en_now en) (gw_db s) (vs_network_id ss) (vs_principal_id ss) (cf_correlation_id f) = None
       \<longrightarrow> (\<exists>e. r = Inl e)
         \<and> live_receipt (en_now en) (gw_db s') (vs_network_id ss) (vs_principal_id ss) (cf_correlation_id f) = None)"
proof (cases "\<exists>did g. control_guard en ss f (gw_db s) did g")
  case True
  then obtain did g where g: "control_guard en ss f (gw_db s) did g" by blast
  let ?live = "live_receipt (en_now en) (gw_db s) (vs_network_id ss) (vs_principal_id ss) (cf_correlation_id f)"
  have ins: "\<exists>e. insert_control_receipt en ss f h b d = (Inl e, d)" for h b d
    by (simp add: insert_control_receipt_def assms(1))
  show ?thesis
  proof (cases ?live)
    case None
    then show ?thesis
      using control_publish_frame [OF _ ins] assms(2) unfolding send_control_guarded [OF g] by fastforce
  next
    case (Some x)
    then show ?thesis using assms(2) unfolding send_control_guarded [OF g] by (auto split: if_splits)
  qed
next
  case False
  then show ?thesis using send_control_unguarded [of en ss f s] assms(2) by auto
qed

definition ping_control :: control_frame where
  "ping_control = \<lparr>cf_framing_version = ''1'', cf_network_id = ''net'', cf_source_principal_id = ''alice'',
     cf_target_principal_id = ''bob'', cf_correlation_id = ''c1'', cf_control_kind = ''ping'', cf_payload = ''hello'',
     cf_signature_hex = ''alicec1hello''\<rparr>"

lemma control_frame_selectors [simp]:
  "cf_correlation_id ping_control = ''c1''" "cf_target_principal_id ping_control = ''bob''"
  "cf_source_principal_id ping_control = ''alice''"
  by (simp_all add: ping_control_def)

lemma ping_control_guard:
  "control_guard (sample_env [] []) alice_session ping_control duo_db ''netc1bob''
     (sample_route (Node ''bob'') Events ''ClientServerControl'' False)"
  by (simp add: control_guard_def control_frame_invalid_def ping_control_def alice_session_def
      principal_is_admitted_def duo_db_def member_row_def live_member_def grant_live_def empty_db_def row_of_def
      sample_externs_def) (simp add: blank.simps [of "''c1''"] ws_encodings_def starts_with_def)

lemma sample_publish_control:
  assumes "en_broker en = sample_broker [] []"
  shows "\<exists>s'. publish_control en c s = (Inr (), s') \<and> gw_log s' \<noteq> gw_log s"
proof -
  obtain s1 where "ensure_tenant_mailboxes en (bc_network_id c) (bc_target_principal_id c) s = (Inr (), s1)"
    and "\<exists>cs. gw_log s1 = gw_log s @ cs"
    by (simp add: ensure_tenant_mailboxes_def run_simps assms)
  then show ?thesis
    by (auto simp: publish_control_def create_channel_def send_ok_def send_def op_defs await_confirm_def
        assms sample_broker_def)
qed

theorem control_receipt_never_stored_witness:
  "\<exists>e s'. send_control (sample_env [] []) alice_session ping_control (sample_gw duo_db) = (Inl e, s')
     \<and> gw_log s' \<noteq> [] \<and> gw_db s' = duo_db
     \<and> live_receipt 1000000 (gw_db s') ''net'' ''alice'' ''c1'' = None"
proof -
  let ?en = "sample_env [] []"
  let ?g = "sample_route (Node ''bob'') Events ''ClientServerControl'' False"
  have none: "live_receipt 1000000 duo_db n p c = None" for n p c
    by (simp add: live_receipt_def duo_db_def empty_db_def)
  obtain s1 where s1: "publish_control ?en (control_record ?en alice_session ping_control ?g) (sample_gw duo_db)
      = (Inr (), s1)" "gw_log s1 \<noteq> gw_log (sample_gw duo_db)"
    using sample_publish_control [of ?en] by (metis sample_env_simps(3))
  have g: "control_guard ?en alice_session ping_control (gw_db (sample_gw duo_db)) ''netc1bob'' ?g"
    using ping_control_guard by simp
  have d: "en_record_hash_default ?en = None" by (simp add: sample_env_def)
  obtain r s' where run: "send_control ?en alice_session ping_control (sample_gw duo_db) = (r, s')" by fastforce
  then have log: "gw_log s' \<noteq> gw_log (sample_gw duo_db)"
    using s1 unfolding send_control_guarded [OF g]
    by (auto simp: none bnd_def db_op_def insert_control_receipt_def d split: prod.splits)
  with control_receipt_never_stored [OF d run] run show ?thesis
    by (auto simp: none alice_session_def)
qed

end
