(* ===== verification/Ascii.thy ===== *)
theory Ascii
  imports Prelude "HOL-Library.Char_ord"
begin

text \<open>Lower case of ASCII letters, as \<open>to_ascii_lowercase\<close> of both gateways computes it.\<close>

definition ascii_lower_char :: "char \<Rightarrow> char" where
  "ascii_lower_char c = (if CHR ''A'' \<le> c \<and> c \<le> CHR ''Z'' then char_of ((of_char c :: nat) + 32) else c)"

definition to_ascii_lowercase :: "string \<Rightarrow> string" where
  "to_ascii_lowercase s = map ascii_lower_char s"

end
