(* ===== verification/Http_Api.thy ===== *)
theory Http_Api
  imports Controls Dead_Letters Owners Commit_Token Ascii
begin

text \<open>
  The HTTP handlers of the message gateway (\<open>http.rs\<close>): what each one does with the session, the
  store, the delivery-owner lease and the broker adapter, in the order of its statements. A handler
  maps the state to an error with its status or to the body of its answer; \<open>None\<close> is the empty answer
  (\<open>NO_CONTENT\<close> of a page, \<open>NOT_FOUND\<close> of an object). The header argument is the text of the
  \<open>Authorization\<close> header when it is present and printable.
\<close>

section \<open>Errors and sessions\<close>

datatype status = UNAUTHORIZED | BAD_REQUEST

record api_error =
  ae_status :: status
  ae_message :: string

definition unauthorized :: "string \<Rightarrow> api_error" where
  "unauthorized m = \<lparr>ae_status = UNAUTHORIZED, ae_message = m\<rparr>"

definition bad_request :: "string \<Rightarrow> api_error" where
  "bad_request m = \<lparr>ae_status = BAD_REQUEST, ae_message = m\<rparr>"

type_synonym 'a handler = "gw \<Rightarrow> (api_error + 'a) \<times> gw"

text \<open>\<open>?\<close> in a handler: every error of the crate becomes a bad request.\<close>

definition respond :: "'a op \<Rightarrow> 'a handler" where
  "respond m s = (case m s of (Inl e, s') \<Rightarrow> (Inl (bad_request e), s') | (Inr v, s') \<Rightarrow> (Inr v, s'))"

definition session :: "env \<Rightarrow> string option \<Rightarrow> db \<Rightarrow> api_error + verified_session" where
  "session en header d =
    (case Option.bind header (strip_prefix ''Bearer '') of
       None \<Rightarrow> Inl (unauthorized ''missing bearer token'')
     | Some token \<Rightarrow>
         (case verify_bearer (en_x en) (en_now en) token d of
            Inl _ \<Rightarrow> Inl (unauthorized ''invalid or expired session'')
          | Inr ss \<Rightarrow> Inr ss))"

definition with_session :: "env \<Rightarrow> string option \<Rightarrow> (verified_session \<Rightarrow> 'a op) \<Rightarrow> 'a handler" where
  "with_session en header k s =
    (case session en header (gw_db s) of Inl e \<Rightarrow> (Inl e, s) | Inr ss \<Rightarrow> respond (k ss) s)"

text \<open>A call into the store that commits its changes only when it succeeds.\<close>

definition store_op :: "(db \<Rightarrow> ('a \<times> db) result) \<Rightarrow> 'a op" where
  "store_op f = db_op (\<lambda>d. case f d of Inl e \<Rightarrow> (Inl e, d) | Inr (v, d') \<Rightarrow> (Inr v, d'))"

section \<open>Admission and sessions\<close>

definition http_admit_grant :: "env \<Rightarrow> grant \<Rightarrow> grant_admission handler" where
  "http_admit_grant en g = respond (admit_grant en g)"

definition challenge :: "env \<Rightarrow> string \<Rightarrow> challenge_request \<Rightarrow> challenge_response handler" where
  "challenge en nonce request = respond (
    case cq_principals request of
      [] \<Rightarrow> raise ''one principal is required''
    | p # _ \<Rightarrow>
        bnd (ensure_tenant_transport_admission en (cq_network_id request) (pc_principal_id p)) (\<lambda>_.
        store_op (create_challenge (en_x en) (en_now en) (en_uuid en 0) nonce request)))"

definition db_admission :: "env \<Rightarrow> string \<Rightarrow> unit op" where
  "db_admission en network_id =
    bnd (reads gw_db) (\<lambda>d.
    bnd (lift_res (validate_active_tenant_admission (en_now en) (en_config en) d network_id)) (\<lambda>_. ret ()))"

definition proof_session :: "env \<Rightarrow> session_proof_request \<Rightarrow> session_response handler" where
  "proof_session en request = respond (
    bnd (db_admission en (sq_network_id request)) (\<lambda>_.
    bnd (attempt (store_op (prove_session (en_x en) (en_config en) (en_now en)
      (en_uuid en 0, en_uuid en 1, en_uuid en 2) request))) (\<lambda>result.
    bnd (observed (record_session (is_ok result))) (\<lambda>_. lift_res result))))"

section \<open>Publishing\<close>

definition version_rejection :: "'a result \<Rightarrow> bool" where
  "version_rejection result = (case result of Inl m \<Rightarrow> contains ''membership version'' m | Inr _ \<Rightarrow> False)"

definition http_publish :: "env \<Rightarrow> string option \<Rightarrow> publish_frame \<Rightarrow> publish_acceptance handler" where
  "http_publish en header frame = with_session en header (\<lambda>ss.
    bnd (attempt (publish en ss frame)) (\<lambda>result.
    bnd (if version_rejection result then observed record_old_membership_version_rejection else ret ()) (\<lambda>_.
    lift_res result)))"

definition http_send_control :: "env \<Rightarrow> string option \<Rightarrow> control_frame \<Rightarrow> control_acceptance handler" where
  "http_send_control en header frame = with_session en header (\<lambda>ss. send_control en ss frame)"

section \<open>Delivery pages\<close>

definition page_limit :: "config \<Rightarrow> nat option \<Rightarrow> nat" where
  "page_limit c limit =
     min (case limit of None \<Rightarrow> delivery_page_size c | Some n \<Rightarrow> n) (delivery_page_size c)"

definition lease_ms :: "duration \<Rightarrow> u64" where
  "lease_ms lease = (if lease < 2 ^ 64 then of_nat lease else - 1)"

definition page_claims :: "env \<Rightarrow> verified_session \<Rightarrow> delivery_class \<Rightarrow> string \<Rightarrow> string \<Rightarrow> commit_claims" where
  "page_claims en ss class page_id epoch =
    \<lparr>cc_page_id = page_id, cc_network_id = vs_network_id ss, cc_principal_id = vs_principal_id ss,
     cc_delivery_class = class, cc_owner_instance_id = config.instance_id (en_config en),
     cc_consumer_epoch = epoch,
     cc_expires_at = sat_add (timestamp_ms (en_now en)) (lease_ms (delivery_owner_lease (en_config en)))\<rparr>"

definition release_op :: "string \<Rightarrow> string \<Rightarrow> delivery_class \<Rightarrow> string \<Rightarrow> string \<Rightarrow> unit op" where
  "release_op network_id principal_id class inst epoch =
     db_op (\<lambda>d. (Inr (), snd (release_delivery_owner network_id principal_id class inst epoch d)))"

definition owned_page ::
  "env \<Rightarrow> verified_session \<Rightarrow> delivery_class \<Rightarrow> nat \<Rightarrow> string \<Rightarrow> string
   \<Rightarrow> (pulled_page option \<times> mailbox_gap list) op" where
  "owned_page en ss class limit page_id epoch =
    bnd (pull_page en (vs_network_id ss) (vs_principal_id ss) class page_id epoch limit) (\<lambda>page.
    bnd (db_op (load_for_page (en_now en) (vs_network_id ss) (vs_principal_id ss) class page_id limit
      (delivery_owner_lease (en_config en)))) (\<lambda>gaps.
    bnd (if page = None \<and> gaps = []
         then release_op (vs_network_id ss) (vs_principal_id ss) class (config.instance_id (en_config en)) epoch
         else ret ()) (\<lambda>_.
    ret (page, gaps))))"

definition page_response ::
  "env \<Rightarrow> verified_session \<Rightarrow> delivery_class \<Rightarrow> string \<Rightarrow> string \<Rightarrow> pulled_page option \<Rightarrow> mailbox_gap list
   \<Rightarrow> delivery_page result" where
  "page_response en ss class page_id epoch page gaps =
    (let consumer_epoch = (case page of None \<Rightarrow> epoch | Some p \<Rightarrow> pp_consumer_epoch p) in
     and_then (issue (en_x en) (commit_hmac_secret (en_config en))
       (page_claims en ss class page_id consumer_epoch)) (\<lambda>commit_token.
     let response = \<lparr>dp_page_id = page_id,
       dp_binding = (case page of
          None \<Rightarrow> \<lparr>bn_network_id = vs_network_id ss, bn_recipient_principal_id = vs_principal_id ss,
                   bn_delivery_class = class\<rparr>
        | Some p \<Rightarrow> pp_binding p),
       dp_deliveries = (case page of None \<Rightarrow> [] | Some p \<Rightarrow> pp_deliveries p),
       dp_controls = (case page of None \<Rightarrow> [] | Some p \<Rightarrow> pp_controls p),
       dp_gaps = gaps, dp_commit_token = commit_token\<rparr>
     in and_then (x_validate_page (en_x en) response) (\<lambda>_. Inr response)))"

definition http_pull_page ::
  "env \<Rightarrow> string option \<Rightarrow> delivery_class \<Rightarrow> nat option \<Rightarrow> delivery_page option handler" where
  "http_pull_page en header class limit = with_session en header (\<lambda>ss.
    let n = page_limit (en_config en) limit; page_id = en_uuid en 0; epoch = en_uuid en 1 in
    bnd (store_op (try_acquire_delivery_owner (en_now en) (vs_network_id ss) (vs_principal_id ss) class
      (config.instance_id (en_config en)) epoch (internal_route (en_config en))
      (delivery_owner_lease (en_config en)))) (\<lambda>acquired.
    bnd (if acquired then owned_page en ss class n page_id epoch else ret (None, [])) (\<lambda>(page, gaps).
    if page = None \<and> gaps = [] then ret None
    else bnd (lift_res (page_response en ss class page_id epoch page gaps)) (\<lambda>r. ret (Some r)))))"

section \<open>Commits\<close>

definition owner_or_err :: "env \<Rightarrow> commit_claims \<Rightarrow> delivery_owner op" where
  "owner_or_err en claims =
    bnd (reads gw_db) (\<lambda>d. lift_res (or_err
      (load_delivery_owner (en_now en) (cc_network_id claims) (cc_principal_id claims)
        (cc_delivery_class claims) d)
      ''delivery owner lease is gone; page will requeue''))"

definition release_claims :: "commit_claims \<Rightarrow> unit op" where
  "release_claims claims = release_op (cc_network_id claims) (cc_principal_id claims)
     (cc_delivery_class claims) (cc_owner_instance_id claims) (cc_consumer_epoch claims)"

definition commit_local_deliveries :: "env \<Rightarrow> commit_claims \<Rightarrow> nat option op" where
  "commit_local_deliveries en claims =
    bnd (owner_or_err en claims) (\<lambda>owner.
    bnd (lift_res (bail_if (do_instance_id owner \<noteq> cc_owner_instance_id claims
        \<or> do_consumer_epoch owner \<noteq> cc_consumer_epoch claims
        \<or> do_instance_id owner \<noteq> config.instance_id (en_config en))
      ''delivery owner epoch changed; old commit token is invalid'')) (\<lambda>_.
    bnd (rabbit_commit_page en (cc_page_id claims) (cc_principal_id claims) (cc_delivery_class claims)
      (cc_consumer_epoch claims)) (\<lambda>committed.
    bnd (if committed \<noteq> None then release_claims claims else ret ()) (\<lambda>_.
    ret committed))))"

definition forward_commit_to_owner :: "env \<Rightarrow> commit_request \<Rightarrow> commit_claims \<Rightarrow> nat option op" where
  "forward_commit_to_owner en request claims =
    bnd (owner_or_err en claims) (\<lambda>owner.
    bnd (lift_res (bail_if (do_instance_id owner \<noteq> cc_owner_instance_id claims
        \<or> do_consumer_epoch owner \<noteq> cc_consumer_epoch claims \<or> do_owner_route owner = [])
      ''delivery owner epoch changed; old commit token is invalid'')) (\<lambda>_.
    bnd (lift_res (or_err (internal_mtls_identity_pem (en_config en))
      ''owner forwarding mTLS identity is unavailable'')) (\<lambda>identity.
    bnd (lift_res (or_err (internal_mtls_ca_pem (en_config en))
      ''owner forwarding mTLS CA is unavailable'')) (\<lambda>ca.
    bnd (db_op (en_forward en identity ca
      (trim_end_slashes (do_owner_route owner) @ ''/internal/v1/mailbox/commit'') request)) (\<lambda>count.
    ret (map_option unat count))))))"

record commit_summary =
  cs_committed_deliveries :: nat
  cs_committed_gaps :: nat

definition commit_page :: "env \<Rightarrow> string option \<Rightarrow> commit_request \<Rightarrow> commit_summary handler" where
  "commit_page en header request = with_session en header (\<lambda>ss.
    bnd (lift_res (verify (en_x en) (commit_hmac_secret (en_config en)) (mr_commit_token request)
      (timestamp_ms (en_now en)))) (\<lambda>claims.
    bnd (lift_res (bail_if (cc_page_id claims \<noteq> mr_page_id request
        \<or> cc_network_id claims \<noteq> vs_network_id ss \<or> cc_principal_id claims \<noteq> vs_principal_id ss
        \<or> cc_delivery_class claims \<noteq> mr_delivery_class request)
      ''commit token binding mismatch'')) (\<lambda>_.
    let forwarded = cc_owner_instance_id claims \<noteq> config.instance_id (en_config en) in
    bnd (attempt (if \<not> forwarded then commit_local_deliveries en claims
      else forward_commit_to_owner en request claims)) (\<lambda>commit_result.
    bnd (observed (record_commit (en_elapsed en) forwarded (is_ok commit_result))) (\<lambda>_.
    bnd (lift_res commit_result) (\<lambda>committed.
    bnd (db_op (\<lambda>d. case acknowledge_page (en_now en) (vs_network_id ss) (vs_principal_id ss)
        (mr_delivery_class request) (mr_page_id request) d of (n, d') \<Rightarrow> (Inr n, d'))) (\<lambda>gaps.
    bnd (if 0 < gaps then release_claims claims else ret ()) (\<lambda>_.
    if committed = None \<and> gaps = 0 then raise ''page owner is gone or already committed''
    else ret \<lparr>cs_committed_deliveries = (case committed of None \<Rightarrow> 0 | Some n \<Rightarrow> n),
              cs_committed_gaps = gaps\<rparr>))))))))"

definition commit_owned_page :: "env \<Rightarrow> commit_request \<Rightarrow> nat option handler" where
  "commit_owned_page en request = respond (
    bnd (lift_res (verify (en_x en) (commit_hmac_secret (en_config en)) (mr_commit_token request)
      (timestamp_ms (en_now en)))) (\<lambda>claims.
    bnd (lift_res (bail_if (cc_page_id claims \<noteq> mr_page_id request
        \<or> cc_delivery_class claims \<noteq> mr_delivery_class request
        \<or> cc_owner_instance_id claims \<noteq> config.instance_id (en_config en))
      ''internal commit owner binding mismatch'')) (\<lambda>_.
    bnd (attempt (commit_local_deliveries en claims)) (\<lambda>committed.
    bnd (observed (record_commit (en_elapsed en) False (is_ok committed))) (\<lambda>_.
    lift_res committed)))))"

section \<open>Objects\<close>

definition fetch_object :: "env \<Rightarrow> string option \<Rightarrow> string \<Rightarrow> string option handler" where
  "fetch_object en header digest = with_session en header (\<lambda>ss.
    let expected = (case strip_prefix ''sha256:'' digest of None \<Rightarrow> digest | Some e \<Rightarrow> e) in
    bnd (lift_res (bail_if (length expected \<noteq> 64 \<or> \<not> is_hex_string expected)
      ''invalid SHA-256 object digest'')) (\<lambda>_.
    case object_store_root (en_config en) of
      None \<Rightarrow> ret None
    | Some store_root \<Rightarrow>
        let path = [store_root, hex_encode (x_sha256 (en_x en) (vs_network_id ss)), digest] in
        (case en_metadata en path of
           Some (True, len) \<Rightarrow>
             bnd (lift_res (bail_if (max_object_bytes (en_config en) < len)
               ''object exceeds configured read limit'')) (\<lambda>_.
             bnd (lift_res (en_read en path)) (\<lambda>bytes.
             bnd (lift_res (bail_if (hex_encode (x_sha256 (en_x en) bytes) \<noteq> to_ascii_lowercase expected)
               ''stored object digest mismatch'')) (\<lambda>_.
             ret (Some bytes))))
         | _ \<Rightarrow> ret None)))"

end
