(* ===== verification/Mailbox_Api.thy ===== *)
theory Mailbox_Api
  imports Http_Api
begin

text \<open>
  What the page handlers of \<open>http.rs\<close> guarantee together: a page that was handed out can be committed
  with its token and then frees the mailbox, nothing else acknowledges deliveries, a commit that
  arrives at another instance has the effect of one at the owner, and an object is served only when
  its bytes have the requested digest.
\<close>

section \<open>Handlers in terms of their operations\<close>

lemma respond_Inr: "respond m s = (Inr v, s') \<longleftrightarrow> m s = (Inr v, s')"
  by (auto simp: respond_def split: prod.splits sum.splits)

lemma snd_respond: "snd (respond m s) = snd (m s)"
  by (auto simp: respond_def split: prod.splits sum.splits)

lemma with_session_Inr:
  "with_session en h k s = (Inr v, s') \<longleftrightarrow> (\<exists>ss. session en h (gw_db s) = Inr ss \<and> k ss s = (Inr v, s'))"
  by (auto simp: with_session_def respond_Inr split: sum.splits)

lemma store_op_Inr:
  "store_op f s = (Inr v, s') \<longleftrightarrow> (\<exists>d. f (gw_db s) = Inr (v, d) \<and> s' = s\<lparr>gw_db := d\<rparr>)"
  by (auto simp: store_op_def db_op_def split: sum.splits)

lemma db_op_Inr:
  "db_op f s = (Inr v, s') \<longleftrightarrow> (\<exists>d. f (gw_db s) = (Inr v, d) \<and> s' = s\<lparr>gw_db := d\<rparr>)"
  by (auto simp: db_op_def) (metis prod.collapse)

lemmas handler_simps = bnd_def ret_def raise_def lift_res_def reads_def attempt_def observed_def modify_def
  with_session_def respond_def store_op_def db_op_def bail_if_def

section \<open>Pulled pages\<close>

lemma load_for_page_owners: "t_owners (snd (load_for_page now n p c k l red d)) = t_owners d"
  by (auto simp: load_for_page_def Let_def split: sum.splits)

lemma pull_success:
  assumes "http_pull_page en h c limit s = (Inr (Some page), s1)"
  obtains ss d0 pp gs s2 where "session en h (gw_db s) = Inr ss"
    "try_acquire_delivery_owner (en_now en) (vs_network_id ss) (vs_principal_id ss) c
       (config.instance_id (en_config en)) (en_uuid en 1) (internal_route (en_config en))
       (delivery_owner_lease (en_config en)) (gw_db s) = Inr (True, d0)"
    "pull_page en (vs_network_id ss) (vs_principal_id ss) c (en_uuid en 0) (en_uuid en 1)
       (page_limit (en_config en) limit) (s\<lparr>gw_db := d0\<rparr>) = (Inr pp, s2)"
    "load_for_page (en_now en) (vs_network_id ss) (vs_principal_id ss) c (en_uuid en 0)
       (page_limit (en_config en) limit) (delivery_owner_lease (en_config en)) (gw_db s2) = (Inr gs, gw_db s1)"
    "s1 = s2\<lparr>gw_db := gw_db s1\<rparr>" "\<not> (pp = None \<and> gs = [])"
    "page_response en ss c (en_uuid en 0) (en_uuid en 1) pp gs = Inr page"
proof -
  obtain ss acq d0 x s3 where ss: "session en h (gw_db s) = Inr ss"
    and acq: "try_acquire_delivery_owner (en_now en) (vs_network_id ss) (vs_principal_id ss) c
       (config.instance_id (en_config en)) (en_uuid en 1) (internal_route (en_config en))
       (delivery_owner_lease (en_config en)) (gw_db s) = Inr (acq, d0)"
    and x: "(if acq then owned_page en ss c (page_limit (en_config en) limit) (en_uuid en 0) (en_uuid en 1)
        else ret (None, [])) (s\<lparr>gw_db := d0\<rparr>) = (Inr x, s3)"
    and r: "(if fst x = None \<and> snd x = [] then ret None
       else bnd (lift_res (page_response en ss c (en_uuid en 0) (en_uuid en 1) (fst x) (snd x))) (\<lambda>r. ret (Some r))) s3
       = (Inr (Some page), s1)"
    using assms unfolding http_pull_page_def with_session_Inr Let_def
    by (auto simp: bnd_Inr store_op_Inr case_prod_beta)
  have ne: "\<not> (fst x = None \<and> snd x = [])" using r by (auto simp: ret_def)
  then have acq': "acq" using x by (cases acq) (auto simp: ret_def)
  have s3: "s3 = s1" and resp: "page_response en ss c (en_uuid en 0) (en_uuid en 1) (fst x) (snd x) = Inr page"
    using r ne by (auto simp: bnd_lift_Inr ret_def split: if_splits)
  obtain s2 d where pull: "pull_page en (vs_network_id ss) (vs_principal_id ss) c (en_uuid en 0) (en_uuid en 1)
       (page_limit (en_config en) limit) (s\<lparr>gw_db := d0\<rparr>) = (Inr (fst x), s2)"
    and load: "load_for_page (en_now en) (vs_network_id ss) (vs_principal_id ss) c (en_uuid en 0)
       (page_limit (en_config en) limit) (delivery_owner_lease (en_config en)) (gw_db s2) = (Inr (snd x), d)"
    and s1: "s1 = s2\<lparr>gw_db := d\<rparr>"
    using x ne acq' unfolding owned_page_def s3
    by (auto simp: bnd_Inr db_op_Inr ret_def split: if_splits)
  from acq acq' have "try_acquire_delivery_owner (en_now en) (vs_network_id ss) (vs_principal_id ss) c
       (config.instance_id (en_config en)) (en_uuid en 1) (internal_route (en_config en))
       (delivery_owner_lease (en_config en)) (gw_db s) = Inr (True, d0)" by simp
  from that [OF ss this pull _ _ ne resp] load s1 show thesis by simp
qed

lemma map_of_page_insert [simp]: "map_of (page_insert k v m) k' = (if k' = k then Some v else map_of m k')"
proof -
  have "map_of (filter (\<lambda>e. fst e \<noteq> k) m) k' = map_of m k'" if "k' \<noteq> k"
    using that by (induction m) auto
  then show ?thesis by (simp add: page_insert_def)
qed

lemma map_of_page_delete [simp]: "map_of (page_delete k m) k = None"
  by (auto simp: page_delete_def map_of_eq_None_iff)

text \<open>
  What the adapter's \<open>pull_page\<close> leaves behind under a fresh page id: a pending page that matches the
  answer, or none when there is nothing to deliver.
\<close>

definition page_of_mailbox :: "pending_page \<Rightarrow> string \<Rightarrow> delivery_class \<Rightarrow> string \<Rightarrow> bool" where
  "page_of_mailbox q p c epoch \<longleftrightarrow> pg_principal_id q = p \<and> pg_delivery_class q = c \<and> pg_consumer_epoch q = epoch"

lemma open_page_db: "preserves gw_db (open_page en n p c page epoch ch ms)"
proof -
  have m: "preserves gw_db (modify (\<lambda>s. s\<lparr>gw_pages := f s\<rparr>))" for f by (simp add: preserves_def modify_def)
  have "preserves gw_db (take_page k)" for k unfolding take_page_def by (auto intro!: preserves_bnd m)
  then show ?thesis unfolding open_page_def by (auto intro!: preserves_bnd m)
qed

lemma pull_page_result:
  assumes "pull_page en n p c page epoch limit s = (Inr r, s')" and "map_of (gw_pages s) page = None"
  shows "gw_db s' = gw_db s" and "r = None \<Longrightarrow> map_of (gw_pages s') page = None"
    and "\<And>pp. r = Some pp \<Longrightarrow> \<exists>q. map_of (gw_pages s') page = Some q \<and> page_of_mailbox q p c epoch
      \<and> length (pp_deliveries pp) + length (pp_controls pp) = length (pg_delivery_tags q)
      \<and> pp_consumer_epoch pp = epoch"
proof -
  obtain s1 s2 s3 ch ms where s1: "abandon_expired_pages en n p c s = (Inr (), s1)"
    and s2: "ensure_tenant_mailboxes en n p s1 = (Inr (), s2)"
    and s3: "fetch_messages en n p c page limit s2 = (Inr (ch, ms), s3)"
    and r: "(if ms = [] then bnd (send_ok en (CloseChannel ch 200 ''empty mailbox page'')) (\<lambda>_.
      bnd (observed (record_delivery_page (en_elapsed en) 0 0)) (\<lambda>_. ret None))
      else open_page en n p c page epoch ch ms) s3 = (Inr r, s')"
    using assms(1) unfolding pull_page_def by (auto simp: bnd_Inr)
  let ?P = "\<lambda>q. pg_network_id q = n \<and> pg_principal_id q = p \<and> pg_delivery_class q = c \<and> page_expired en q"
  have "s1 = snd (close_pages en ?P s)" using snd_abandon_expired [of en n p c s] s1 by simp
  then obtain cs where "s1 = s\<lparr>gw_pages := filter (\<lambda>e. \<not> ?P (snd e)) (gw_pages s), gw_log := gw_log s @ cs\<rparr>"
    using close_pages_log [of en ?P s] by blast
  then have 1: "gw_db s1 = gw_db s" "page \<notin> fst ` set (gw_pages s1)"
    using assms(2) by (auto simp: map_of_eq_None_iff)
  have 3: "gw_db s3 = gw_db s" "gw_pages s3 = gw_pages s1"
    using preservesD [OF preserves_mailboxes(1) s2] preservesD [OF preserves_mailboxes(2) s2]
      preservesD [OF fetch_messages_frame(1) s3] preservesD [OF fetch_messages_frame(2) s3] 1 by simp_all
  have none: "map_of (gw_pages s3) page = None" using 1 3 by (simp add: map_of_eq_None_iff)
  show "gw_db s' = gw_db s"
  proof (cases "ms = []")
    case True
    then show ?thesis using r 3 by (auto simp: bnd_Inr send_ok_Inr observed_def modify_def ret_def)
  next
    case False
    then have "open_page en n p c page epoch ch ms s3 = (Inr r, s')" using r by simp
    from preservesD [OF open_page_db this] 3 show ?thesis by simp
  qed
  show "r = None \<Longrightarrow> map_of (gw_pages s') page = None"
  proof (cases "ms = []")
    case True
    then show ?thesis using r none by (auto simp: bnd_Inr send_ok_Inr observed_def modify_def ret_def)
  next
    case False
    then have "open_page en n p c page epoch ch ms s3 = (Inr r, s')" using r by simp
    from open_page_cases [OF this] show "r = None \<Longrightarrow> map_of (gw_pages s') page = None" by auto
  qed
  show "\<exists>q. map_of (gw_pages s') page = Some q \<and> page_of_mailbox q p c epoch
      \<and> length (pp_deliveries pp) + length (pp_controls pp) = length (pg_delivery_tags q)
      \<and> pp_consumer_epoch pp = epoch" if "r = Some pp" for pp
  proof -
    have "ms \<noteq> []" using r that by (auto simp: bnd_Inr observed_def modify_def ret_def)
    then have "open_page en n p c page epoch ch ms s3 = (Inr r, s')" using r by simp
    from open_page_cases [OF this] that show ?thesis by (auto simp: page_of_mailbox_def)
  qed
qed

lemma acknowledged_count:
  assumes "pk gap_key (t_gaps d)" and "\<And>r. r \<in> set (t_gaps d) \<Longrightarrow> gg_page_id r \<noteq> Some page"
    and load: "load_for_page now n p c page limit red d = (Inr gs, d1)"
    and ack: "acknowledge_page now' n p c page d1 = (k, d2)"
  shows "k = length gs"
proof -
  obtain rows where rows: "rows = page_rows now n p c page limit (int red) d"
    and col: "collect_gaps c rows = Inr gs"
    and d1: "t_gaps d1 = update_where (\<lambda>r. r \<in> set rows)
       (\<lambda>r. r\<lparr>gg_page_id := Some page, gg_delivered_at := Some now\<rparr>) (t_gaps d)"
    by (rule load_for_page_eq [OF load assms(1)])
  have in_t: "set rows \<subseteq> set (t_gaps d)" and free: "\<And>r. r \<in> set rows \<Longrightarrow> mailbox_gap_row n p c r \<and> gg_acknowledged_at r = None"
    using page_rows_set unfolding rows by (auto simp: page_candidate_def)
  have "k = length (filter (\<lambda>r. r \<in> set rows) (t_gaps d))"
    by (rule acknowledge_listed(1) [OF d1 assms(2) free ack])
  also have "\<dots> = card (set rows)"
  proof -
    have "set (filter (\<lambda>r. r \<in> set rows) (t_gaps d)) = set rows" using in_t by auto
    moreover have "distinct (filter (\<lambda>r. r \<in> set rows) (t_gaps d))"
      using assms(1) by (simp add: pk_def distinct_map)
    ultimately show ?thesis using distinct_card by metis
  qed
  also have "\<dots> = length gs"
    using distinct_card [OF page_rows_distinct [OF assms(1)]] collect_gaps_ids [OF col] unfolding rows
    by (metis length_map)
  finally show ?thesis .
qed

section \<open>Commits\<close>

lemma issued_verifies:
  assumes "x_decode_claims E (x_claims_bytes E claims) = Inr claims"
    and "\<And>s t. x_commit_token E s = Inr t \<Longrightarrow> t = s"
    and "issue E secret claims = Inr token" and "now_ms < cc_expires_at claims"
  shows "verify E secret token now_ms = Inr claims"
proof -
  have "token = hex_encode (x_claims_bytes E claims) @ ''.''
      @ hex_encode (x_hmac E secret (x_claims_bytes E claims))"
    using assms(2) [OF assms(3) [unfolded issue_def Let_def]] .
  with assms(1,4) show ?thesis by (simp add: verify_parts)
qed

definition settles_ok :: "env \<Rightarrow> bool" where
  "settles_ok en \<longleftrightarrow> (\<forall>lg c. settled c \<noteq> None \<longrightarrow> en_broker en lg c = ReplyOk)"

lemma settles_ok_send: "settles_ok en \<Longrightarrow> settled c \<noteq> None \<Longrightarrow> send_ok en c s = (Inr (), s\<lparr>gw_log := gw_log s @ [c]\<rparr>)"
  by (simp add: settles_ok_def send_ok_def send_def bnd_def ret_def)

lemma settles_ok_acks:
  "settles_ok en \<Longrightarrow> for_each (\<lambda>t. send_ok en (BasicAck ch t)) ts s = (Inr (), s\<lparr>gw_log := gw_log s @ map (BasicAck ch) ts\<rparr>)"
  by (induction ts arbitrary: s) (simp_all add: ret_def bnd_def settles_ok_send)

definition page_settled :: "pending_page \<Rightarrow> broker_cmd list" where
  "page_settled q = map (BasicAck (pg_channel q)) (pg_delivery_tags q)
     @ [CloseChannel (pg_channel q) 200 ''mailbox page committed'']"

lemma commit_page_runs:
  assumes "settles_ok en" and "map_of (gw_pages s) k = Some q" and "page_of_mailbox q p c e"
  shows "rabbit_commit_page en k p c e s = (Inr (Some (length (pg_delivery_tags q))),
    s\<lparr>gw_pages := page_delete k (gw_pages s), gw_log := gw_log s @ page_settled q\<rparr>)"
  using assms by (simp add: rabbit_commit_page_def take_page_eq bnd_def page_of_mailbox_def page_settled_def
      settles_ok_acks settles_ok_send ret_def)

definition released :: "commit_claims \<Rightarrow> db \<Rightarrow> db" where
  "released claims d = snd (release_delivery_owner (cc_network_id claims) (cc_principal_id claims)
     (cc_delivery_class claims) (cc_owner_instance_id claims) (cc_consumer_epoch claims) d)"

lemma release_claims_eq: "release_claims claims s = (Inr (), s\<lparr>gw_db := released claims (gw_db s)\<rparr>)"
  by (simp add: release_claims_def release_op_def released_def db_op_def)

text \<open>The lease under which a commit token is valid.\<close>

definition holds_lease :: "instant \<Rightarrow> commit_claims \<Rightarrow> db \<Rightarrow> bool" where
  "holds_lease now claims d \<longleftrightarrow> (\<exists>route. load_delivery_owner now (cc_network_id claims) (cc_principal_id claims)
     (cc_delivery_class claims) d = Some \<lparr>do_instance_id = cc_owner_instance_id claims,
       do_consumer_epoch = cc_consumer_epoch claims, do_owner_route = route\<rparr>)"

lemma commit_local_eq:
  "commit_local_deliveries en claims s =
    (if holds_lease (en_now en) claims (gw_db s) \<and> cc_owner_instance_id claims = config.instance_id (en_config en)
     then bnd (rabbit_commit_page en (cc_page_id claims) (cc_principal_id claims) (cc_delivery_class claims)
       (cc_consumer_epoch claims)) (\<lambda>committed.
       bnd (if committed \<noteq> None then release_claims claims else ret ()) (\<lambda>_. ret committed)) s
     else (Inl (case load_delivery_owner (en_now en) (cc_network_id claims) (cc_principal_id claims)
         (cc_delivery_class claims) (gw_db s) of
         None \<Rightarrow> ''delivery owner lease is gone; page will requeue''
       | Some _ \<Rightarrow> ''delivery owner epoch changed; old commit token is invalid''), s))"
proof (cases "load_delivery_owner (en_now en) (cc_network_id claims) (cc_principal_id claims)
         (cc_delivery_class claims) (gw_db s)")
  case None
  then show ?thesis by (simp add: commit_local_deliveries_def owner_or_err_def holds_lease_def bnd_def reads_def lift_res_def)
next
  case (Some owner)
  have "(\<exists>route. owner = \<lparr>do_instance_id = i, do_consumer_epoch = e, do_owner_route = route\<rparr>)
      \<longleftrightarrow> do_instance_id owner = i \<and> do_consumer_epoch owner = e" for i e by (cases owner) auto
  with Some show ?thesis
    by (auto simp: commit_local_deliveries_def owner_or_err_def holds_lease_def bnd_def reads_def lift_res_def bail_if_def)
qed

lemma local_commit_ok:
  assumes "settles_ok en" and "holds_lease (en_now en) claims (gw_db s)"
    and "cc_owner_instance_id claims = config.instance_id (en_config en)"
    and "\<And>q. map_of (gw_pages s) (cc_page_id claims) = Some q \<Longrightarrow>
      page_of_mailbox q (cc_principal_id claims) (cc_delivery_class claims) (cc_consumer_epoch claims)"
  shows "commit_local_deliveries en claims s =
    (case map_of (gw_pages s) (cc_page_id claims) of
       None \<Rightarrow> (Inr None, s\<lparr>gw_pages := page_delete (cc_page_id claims) (gw_pages s)\<rparr>)
     | Some q \<Rightarrow> (Inr (Some (length (pg_delivery_tags q))),
         s\<lparr>gw_pages := page_delete (cc_page_id claims) (gw_pages s), gw_log := gw_log s @ page_settled q,
           gw_db := released claims (gw_db s)\<rparr>))"
proof (cases "map_of (gw_pages s) (cc_page_id claims)")
  case None
  then show ?thesis using assms(2,3)
    by (simp add: commit_local_eq rabbit_commit_page_def take_page_eq bnd_def ret_def)
next
  case (Some q)
  with assms(4) have "page_of_mailbox q (cc_principal_id claims) (cc_delivery_class claims) (cc_consumer_epoch claims)"
    by blast
  with Some assms(1-3) show ?thesis
    by (simp add: commit_local_eq commit_page_runs bnd_def release_claims_eq ret_def)
qed

text \<open>The handler once the session and the token are accepted.\<close>

definition bound_claims :: "env \<Rightarrow> commit_request \<Rightarrow> verified_session \<Rightarrow> commit_claims \<Rightarrow> bool" where
  "bound_claims en request ss claims \<longleftrightarrow>
     verify (en_x en) (commit_hmac_secret (en_config en)) (mr_commit_token request) (timestamp_ms (en_now en)) = Inr claims
     \<and> cc_page_id claims = mr_page_id request \<and> cc_network_id claims = vs_network_id ss
     \<and> cc_principal_id claims = vs_principal_id ss \<and> cc_delivery_class claims = mr_delivery_class request"

definition finish_commit :: "env \<Rightarrow> commit_claims \<Rightarrow> nat option \<Rightarrow> commit_summary op" where
  "finish_commit en claims committed =
    bnd (db_op (\<lambda>d. case acknowledge_page (en_now en) (cc_network_id claims) (cc_principal_id claims)
        (cc_delivery_class claims) (cc_page_id claims) d of (n, d') \<Rightarrow> (Inr n, d'))) (\<lambda>gaps.
    bnd (if 0 < gaps then release_claims claims else ret ()) (\<lambda>_.
    if committed = None \<and> gaps = 0 then raise ''page owner is gone or already committed''
    else ret \<lparr>cs_committed_deliveries = (case committed of None \<Rightarrow> 0 | Some n \<Rightarrow> n),
              cs_committed_gaps = gaps\<rparr>))"

lemma commit_page_eq:
  assumes "session en h (gw_db s) = Inr ss" and "bound_claims en request ss claims"
  shows "commit_page en h request s = respond (
    let forwarded = cc_owner_instance_id claims \<noteq> config.instance_id (en_config en) in
    bnd (attempt (if \<not> forwarded then commit_local_deliveries en claims
      else forward_commit_to_owner en request claims)) (\<lambda>commit_result.
    bnd (observed (record_commit (en_elapsed en) forwarded (is_ok commit_result))) (\<lambda>_.
    bnd (lift_res commit_result) (finish_commit en claims)))) s"
proof -
  have eqs: "cc_page_id claims = mr_page_id request" "cc_network_id claims = vs_network_id ss"
    "cc_principal_id claims = vs_principal_id ss" "cc_delivery_class claims = mr_delivery_class request"
    using assms(2) by (simp_all add: bound_claims_def)
  have v: "verify (en_x en) (commit_hmac_secret (en_config en)) (mr_commit_token request) (timestamp_ms (en_now en)) = Inr claims"
    using assms(2) by (simp add: bound_claims_def)
  show ?thesis
    unfolding commit_page_def with_session_def assms(1)
    by (simp add: v bnd_lift_ok eqs bail_if_def finish_commit_def [abs_def] respond_def)
qed

lemma commit_page_unbound:
  assumes "\<And>ss claims. session en h (gw_db s) = Inr ss \<Longrightarrow> \<not> bound_claims en request ss claims"
  shows "\<exists>e. commit_page en h request s = (Inl e, s)"
proof (cases "session en h (gw_db s)")
  case (Inr ss)
  show ?thesis
  proof (cases "verify (en_x en) (commit_hmac_secret (en_config en)) (mr_commit_token request) (timestamp_ms (en_now en))")
    case (Inr claims)
    with assms \<open>session en h (gw_db s) = Inr ss\<close> have "\<not> bound_claims en request ss claims" by blast
    with Inr \<open>session en h (gw_db s) = Inr ss\<close> show ?thesis
      by (auto simp: commit_page_def handler_simps bound_claims_def)
  qed (simp add: commit_page_def handler_simps \<open>session en h (gw_db s) = Inr ss\<close>)
qed (simp add: commit_page_def with_session_def)

lemma preserves_log:
  "preserves gw_log (db_op f)" "preserves gw_log (release_claims claims)" "preserves gw_log (observed g)"
  "preserves gw_log (finish_commit en claims v)" "preserves gw_log (forward_commit_to_owner en request claims)"
proof -
  show db: "preserves gw_log (db_op f)" for f :: "db \<Rightarrow> 'b result \<times> db" by (simp add: preserves_def db_op_def)
  show rel: "preserves gw_log (release_claims claims)" by (simp add: preserves_def release_claims_eq)
  show "preserves gw_log (observed g)" by (simp add: preserves_def observed_def modify_def)
  show "preserves gw_log (finish_commit en claims v)"
    unfolding finish_commit_def by (auto intro!: preserves_bnd db rel)
  show "preserves gw_log (forward_commit_to_owner en request claims)"
    unfolding forward_commit_to_owner_def owner_or_err_def by (auto intro!: preserves_bnd db)
qed

lemma preserves_after_attempt: "(\<And>r. preserves f (k r)) \<Longrightarrow> f (snd (bnd (attempt m) k s)) = f (snd (m s))"
  by (simp add: snd_bnd attempt_def preserves_def)

lemma commit_page_log:
  assumes "session en h (gw_db s) = Inr ss" and "bound_claims en request ss claims"
  shows "gw_log (snd (commit_page en h request s)) =
    (if holds_lease (en_now en) claims (gw_db s) \<and> cc_owner_instance_id claims = config.instance_id (en_config en)
     then gw_log (snd (rabbit_commit_page en (mr_page_id request) (vs_principal_id ss) (mr_delivery_class request)
       (cc_consumer_epoch claims) s)) else gw_log s)"
proof -
  let ?m = "if \<not> cc_owner_instance_id claims \<noteq> config.instance_id (en_config en)
    then commit_local_deliveries en claims else forward_commit_to_owner en request claims"
  have "gw_log (snd (commit_page en h request s)) = gw_log (snd (?m s))"
    unfolding commit_page_eq [OF assms] snd_respond Let_def
    by (rule preserves_after_attempt) (auto intro!: preserves_bnd preserves_log)
  also have "\<dots> = (if cc_owner_instance_id claims = config.instance_id (en_config en)
      then gw_log (snd (commit_local_deliveries en claims s)) else gw_log s)"
    using preserves_log(5) by (simp add: preserves_def)
  also have "gw_log (snd (commit_local_deliveries en claims s)) =
      (if holds_lease (en_now en) claims (gw_db s) \<and> cc_owner_instance_id claims = config.instance_id (en_config en)
       then gw_log (snd (rabbit_commit_page en (cc_page_id claims) (cc_principal_id claims) (cc_delivery_class claims)
         (cc_consumer_epoch claims) s)) else gw_log s)"
    unfolding commit_local_eq
    by (auto simp: snd_bnd release_claims_eq ret_def split: sum.splits prod.splits)
  finally show ?thesis using assms(2) by (auto simp: bound_claims_def)
qed

text \<open>
  C6. The commit handler acknowledges a delivery to the broker only for the principal that may take it.
  Whenever a commit request makes the instance acknowledge a message, the request carried a live session
  and an unexpired token of this gateway whose claims name the session's network and principal and the
  request's page and class; this instance holds the live lease of that mailbox under the epoch of the
  token; and the message is one of the page with that id, pulled for this principal, class and epoch.
\<close>

theorem commit_only_by_leaseholder:
  assumes "commit_page en h request s = (r, s')" and "gw_log s' = gw_log s @ cs" and "BasicAck ch t \<in> set cs"
  shows "\<exists>ss claims q. session en h (gw_db s) = Inr ss
    \<and> verify (en_x en) (commit_hmac_secret (en_config en)) (mr_commit_token request) (timestamp_ms (en_now en)) = Inr claims
    \<and> cc_network_id claims = vs_network_id ss \<and> cc_principal_id claims = vs_principal_id ss
    \<and> (\<exists>route. load_delivery_owner (en_now en) (vs_network_id ss) (vs_principal_id ss) (mr_delivery_class request) (gw_db s)
        = Some \<lparr>do_instance_id = config.instance_id (en_config en), do_consumer_epoch = cc_consumer_epoch claims,
                do_owner_route = route\<rparr>)
    \<and> map_of (gw_pages s) (mr_page_id request) = Some q \<and> pg_principal_id q = vs_principal_id ss
    \<and> pg_delivery_class q = mr_delivery_class request \<and> pg_consumer_epoch q = cc_consumer_epoch claims
    \<and> ch = pg_channel q \<and> t \<in> set (pg_delivery_tags q)"
proof -
  obtain ss claims where ss: "session en h (gw_db s) = Inr ss" and b: "bound_claims en request ss claims"
    using commit_page_unbound [of en h s request] assms by (cases "s' = s") auto
  let ?cond = "holds_lease (en_now en) claims (gw_db s) \<and> cc_owner_instance_id claims = config.instance_id (en_config en)"
  have cond: ?cond and log: "gw_log (snd (rabbit_commit_page en (mr_page_id request) (vs_principal_id ss)
      (mr_delivery_class request) (cc_consumer_epoch claims) s)) = gw_log s @ cs"
    using commit_page_log [OF ss b] assms by (auto split: if_splits)
  from commit_page_cases [of s "mr_page_id request" en "vs_principal_id ss" "mr_delivery_class request" "cc_consumer_epoch claims"]
  obtain q ts rest where q: "map_of (gw_pages s) (mr_page_id request) = Some q" "pg_principal_id q = vs_principal_id ss"
    "pg_delivery_class q = mr_delivery_class request" "pg_consumer_epoch q = cc_consumer_epoch claims"
    and "set ts \<subseteq> set (pg_delivery_tags q)" "cs = map (BasicAck (pg_channel q)) ts @ rest"
      "set rest \<subseteq> {CloseChannel (pg_channel q) 200 ''mailbox page committed''}"
    using log assms(3) by auto
  then have "ch = pg_channel q" "t \<in> set (pg_delivery_tags q)" using assms(3) by auto
  with q show ?thesis using ss b cond unfolding bound_claims_def holds_lease_def
    by (intro exI [of _ ss] exI [of _ claims] exI [of _ q]) auto
qed

section \<open>A page that was handed out\<close>

lemma owner_row_cong: "t_owners d = t_owners d' \<Longrightarrow> owner_row_of n p c d = owner_row_of n p c d'"
  by (simp add: owner_row_of_def)

lemma acknowledge_owners: "t_owners (snd (acknowledge_page now n p c k d)) = t_owners d"
  by (simp add: acknowledge_page_def Let_def)

lemma released_owner:
  assumes "pk owner_key (t_owners d)"
    and "owner_row_of (cc_network_id claims) (cc_principal_id claims) (cc_delivery_class claims) d = None
      \<or> (\<exists>r. owner_row_of (cc_network_id claims) (cc_principal_id claims) (cc_delivery_class claims) d = Some r
          \<and> ow_instance_id r = cc_owner_instance_id claims \<and> ow_epoch r = cc_consumer_epoch claims)"
  shows "owner_row_of (cc_network_id claims) (cc_principal_id claims) (cc_delivery_class claims) (released claims d) = None"
    and "pk owner_key (t_owners (released claims d))"
proof -
  obtain ok d' where r: "release_delivery_owner (cc_network_id claims) (cc_principal_id claims)
     (cc_delivery_class claims) (cc_owner_instance_id claims) (cc_consumer_epoch claims) d = (ok, d')" by fastforce
  then have "released claims d = d'" by (simp add: released_def)
  with release_cases(1-3) [OF r assms(1)] assms(2)
  show "owner_row_of (cc_network_id claims) (cc_principal_id claims) (cc_delivery_class claims) (released claims d) = None"
    "pk owner_key (t_owners (released claims d))" by auto
qed

lemma released_gaps: "t_gaps (released claims d) = t_gaps d"
  by (simp add: released_def release_delivery_owner_def Let_def)

lemma page_response_Inr:
  assumes "page_response en ss c pid epoch pp gs = Inr page" and "\<And>p. pp = Some p \<Longrightarrow> pp_consumer_epoch p = epoch"
  shows "dp_page_id page = pid" "dp_gaps page = gs"
    "issue (en_x en) (commit_hmac_secret (en_config en)) (page_claims en ss c pid epoch) = Inr (dp_commit_token page)"
    "length (dp_deliveries page) + length (dp_controls page) =
       (case pp of None \<Rightarrow> 0 | Some p \<Rightarrow> length (pp_deliveries p) + length (pp_controls p))"
  using assms by (auto simp: page_response_def Let_def and_then_Inr_iff split: option.splits)

text \<open>The state in which a page waits for its commit.\<close>

lemma pulled_page_waits:
  assumes "pk owner_key (t_owners (gw_db s))" and "map_of (gw_pages s) (en_uuid en 0) = None"
    and "http_pull_page en h c limit s = (Inr (Some page), s1)"
  obtains ss d gs where "session en h (gw_db s) = Inr ss" "pk owner_key (t_owners (gw_db s1))"
    "\<exists>r. owner_row_of (vs_network_id ss) (vs_principal_id ss) c (gw_db s1) = Some r \<and> ow_epoch r = en_uuid en 1
       \<and> ow_instance_id r = config.instance_id (en_config en)
       \<and> ow_lease_expires_at r = en_now en + interval_ms (int (delivery_owner_lease (en_config en)))"
    "\<And>q. map_of (gw_pages s1) (en_uuid en 0) = Some q \<Longrightarrow> page_of_mailbox q (vs_principal_id ss) c (en_uuid en 1)"
    "length (dp_deliveries page) + length (dp_controls page) =
       (case map_of (gw_pages s1) (en_uuid en 0) of None \<Rightarrow> 0 | Some q \<Rightarrow> length (pg_delivery_tags q))"
    "dp_page_id page = en_uuid en 0" "map_of (gw_pages s1) (en_uuid en 0) = None \<Longrightarrow> dp_gaps page \<noteq> []"
    "issue (en_x en) (commit_hmac_secret (en_config en)) (page_claims en ss c (en_uuid en 0) (en_uuid en 1))
       = Inr (dp_commit_token page)"
    "t_gaps d = t_gaps (gw_db s)"
    "load_for_page (en_now en) (vs_network_id ss) (vs_principal_id ss) c (en_uuid en 0)
       (page_limit (en_config en) limit) (delivery_owner_lease (en_config en)) d = (Inr (dp_gaps page), gw_db s1)"
proof -
  obtain ss d0 pp gs s2 where ss: "session en h (gw_db s) = Inr ss"
    and acq: "try_acquire_delivery_owner (en_now en) (vs_network_id ss) (vs_principal_id ss) c
       (config.instance_id (en_config en)) (en_uuid en 1) (internal_route (en_config en))
       (delivery_owner_lease (en_config en)) (gw_db s) = Inr (True, d0)"
    and pull: "pull_page en (vs_network_id ss) (vs_principal_id ss) c (en_uuid en 0) (en_uuid en 1)
       (page_limit (en_config en) limit) (s\<lparr>gw_db := d0\<rparr>) = (Inr pp, s2)"
    and load: "load_for_page (en_now en) (vs_network_id ss) (vs_principal_id ss) c (en_uuid en 0)
       (page_limit (en_config en) limit) (delivery_owner_lease (en_config en)) (gw_db s2) = (Inr gs, gw_db s1)"
    and s1: "s1 = s2\<lparr>gw_db := gw_db s1\<rparr>" and ne: "\<not> (pp = None \<and> gs = [])"
    and resp: "page_response en ss c (en_uuid en 0) (en_uuid en 1) pp gs = Inr page"
    by (rule pull_success [OF assms(3)])
  have none: "map_of (gw_pages (s\<lparr>gw_db := d0\<rparr>)) (en_uuid en 0) = None" using assms(2) by simp
  note res = pull_page_result [OF pull none]
  have pages: "gw_pages s1 = gw_pages s2" using arg_cong [OF s1, of gw_pages] by simp
  have own: "t_owners (gw_db s1) = t_owners d0"
    using load_for_page_owners [of "en_now en" "vs_network_id ss" "vs_principal_id ss" c "en_uuid en 0"
      "page_limit (en_config en) limit" "delivery_owner_lease (en_config en)" "gw_db s2"] load res(1) by simp
  have gaps: "t_gaps d0 = t_gaps (gw_db s)"
    using acq by (auto simp: try_acquire_delivery_owner_def and_then_Inr_iff Let_def)
  note row = acquire_cases(1,3) [OF acq assms(1)]
  have "pp_consumer_epoch p = en_uuid en 1" if "pp = Some p" for p using res(3) [OF that] by blast
  note pr = page_response_Inr [OF resp this]
  show thesis
  proof (rule that [OF ss _ _ _ _ _ _ _ gaps])
    show "pk owner_key (t_owners (gw_db s1))" using row(1) own by simp
    show "\<exists>r. owner_row_of (vs_network_id ss) (vs_principal_id ss) c (gw_db s1) = Some r \<and> ow_epoch r = en_uuid en 1
       \<and> ow_instance_id r = config.instance_id (en_config en)
       \<and> ow_lease_expires_at r = en_now en + interval_ms (int (delivery_owner_lease (en_config en)))"
      using row(2) owner_row_cong [OF own] by auto
    show "\<And>q. map_of (gw_pages s1) (en_uuid en 0) = Some q \<Longrightarrow> page_of_mailbox q (vs_principal_id ss) c (en_uuid en 1)"
      using res(2,3) unfolding pages by (cases pp) auto
    show "length (dp_deliveries page) + length (dp_controls page) =
       (case map_of (gw_pages s1) (en_uuid en 0) of None \<Rightarrow> 0 | Some q \<Rightarrow> length (pg_delivery_tags q))"
      using res(2,3) pr(4) unfolding pages by (cases pp) auto
    show "dp_page_id page = en_uuid en 0" by (rule pr(1))
    show "map_of (gw_pages s1) (en_uuid en 0) = None \<Longrightarrow> dp_gaps page \<noteq> []"
      using res(2,3) pr(2) ne unfolding pages by (cases pp) auto
    show "issue (en_x en) (commit_hmac_secret (en_config en)) (page_claims en ss c (en_uuid en 0) (en_uuid en 1))
       = Inr (dp_commit_token page)" by (rule pr(3))
    show "load_for_page (en_now en) (vs_network_id ss) (vs_principal_id ss) c (en_uuid en 0)
       (page_limit (en_config en) limit) (delivery_owner_lease (en_config en)) d0 = (Inr (dp_gaps page), gw_db s1)"
      using load res(1) pr(2) by simp
  qed
qed

lemma finish_commit_ok:
  assumes "acknowledge_page (en_now en) (cc_network_id claims) (cc_principal_id claims)
      (cc_delivery_class claims) (cc_page_id claims) (gw_db s) = (k, d')"
    and "committed \<noteq> None \<or> 0 < k"
  shows "finish_commit en claims committed s =
    (Inr \<lparr>cs_committed_deliveries = (case committed of None \<Rightarrow> 0 | Some n \<Rightarrow> n), cs_committed_gaps = k\<rparr>,
     s\<lparr>gw_db := (if 0 < k then released claims d' else d')\<rparr>)"
  using assms by (auto simp: finish_commit_def db_op_def bnd_def ret_def release_claims_eq)

lemma finish_commit_effect:
  assumes "pk owner_key (t_owners d)"
    and "acknowledge_page now (cc_network_id claims) (cc_principal_id claims) (cc_delivery_class claims)
      (cc_page_id claims) d = (k, d')"
    and "\<exists>r. owner_row_of (cc_network_id claims) (cc_principal_id claims) (cc_delivery_class claims) d0 = Some r
          \<and> ow_instance_id r = cc_owner_instance_id claims \<and> ow_epoch r = cc_consumer_epoch claims"
    and "pk owner_key (t_owners d0)" and "d = (if committed then released claims d0 else d0)" and "committed \<or> 0 < k"
  shows "owner_row_of (cc_network_id claims) (cc_principal_id claims) (cc_delivery_class claims)
     (if 0 < k then released claims d' else d') = None"
proof -
  let ?row = "owner_row_of (cc_network_id claims) (cc_principal_id claims) (cc_delivery_class claims)"
  have own: "t_owners d' = t_owners d" using acknowledge_owners assms(2) by (metis snd_conv)
  have row: "?row d' = (if committed then None else ?row d0)"
    using owner_row_cong [OF own] released_owner(1) [OF assms(4)] assms(3,5) by auto
  show ?thesis
  proof (cases "0 < k")
    case True
    have "pk owner_key (t_owners d')" using own assms(1) by simp
    from released_owner(1) [OF this] row assms(3) True show ?thesis by auto
  next
    case False
    with row assms(6) show ?thesis by simp
  qed
qed

lemma fst_acknowledge_cong:
  "t_gaps d = t_gaps e \<Longrightarrow> fst (acknowledge_page now n p c k d) = fst (acknowledge_page now n p c k e)"
  by (simp add: acknowledge_page_def Let_def)

lemma commit_runs:
  assumes ss: "session en h (gw_db s) = Inr ss" and b: "bound_claims en request ss claims"
    and here: "cc_owner_instance_id claims = config.instance_id (en_config en)"
    and ok: "settles_ok en" and lease: "holds_lease (en_now en) claims (gw_db s)" and pk: "pk owner_key (t_owners (gw_db s))"
    and mine: "\<And>q. map_of (gw_pages s) (cc_page_id claims) = Some q \<Longrightarrow>
      page_of_mailbox q (cc_principal_id claims) (cc_delivery_class claims) (cc_consumer_epoch claims)"
    and row: "\<exists>r. owner_row_of (cc_network_id claims) (cc_principal_id claims) (cc_delivery_class claims) (gw_db s) = Some r
          \<and> ow_instance_id r = cc_owner_instance_id claims \<and> ow_epoch r = cc_consumer_epoch claims"
    and k: "fst (acknowledge_page (en_now en) (cc_network_id claims) (cc_principal_id claims)
      (cc_delivery_class claims) (cc_page_id claims) (gw_db s)) = k"
    and ne: "map_of (gw_pages s) (cc_page_id claims) \<noteq> None \<or> 0 < k"
  shows "\<exists>s'. commit_page en h request s = (Inr \<lparr>cs_committed_deliveries =
        (case map_of (gw_pages s) (cc_page_id claims) of None \<Rightarrow> 0 | Some q \<Rightarrow> length (pg_delivery_tags q)),
        cs_committed_gaps = k\<rparr>, s')
    \<and> gw_log s' = gw_log s @ (case map_of (gw_pages s) (cc_page_id claims) of None \<Rightarrow> [] | Some q \<Rightarrow> page_settled q)
    \<and> gw_pages s' = page_delete (cc_page_id claims) (gw_pages s) \<and> pk owner_key (t_owners (gw_db s'))
    \<and> owner_row_of (cc_network_id claims) (cc_principal_id claims) (cc_delivery_class claims) (gw_db s') = None"
proof -
  let ?q = "map_of (gw_pages s) (cc_page_id claims)"
  define u where "u = s\<lparr>gw_pages := page_delete (cc_page_id claims) (gw_pages s),
    gw_log := gw_log s @ (case ?q of None \<Rightarrow> [] | Some q \<Rightarrow> page_settled q),
    gw_db := (if ?q \<noteq> None then released claims (gw_db s) else gw_db s)\<rparr>"
  let ?v = "u\<lparr>gw_obs := record_commit (en_elapsed en) False True (gw_obs u)\<rparr>"
  have loc: "commit_local_deliveries en claims s = (Inr (map_option (\<lambda>q. length (pg_delivery_tags q)) ?q), u)"
    using local_commit_ok [OF ok lease here] mine by (cases ?q) (auto simp: u_def)
  obtain k' d' where ack: "acknowledge_page (en_now en) (cc_network_id claims) (cc_principal_id claims)
      (cc_delivery_class claims) (cc_page_id claims) (gw_db ?v) = (k', d')" by fastforce
  have "t_gaps (gw_db u) = t_gaps (gw_db s)" by (simp add: u_def released_gaps)
  from fst_acknowledge_cong [OF this] ack k have kk: "k' = k" by (metis fst_conv gw.select_convs(1) gw.surjective gw.update_convs(4))
  have fin: "finish_commit en claims (map_option (\<lambda>q. length (pg_delivery_tags q)) ?q) ?v
      = (Inr \<lparr>cs_committed_deliveries = (case map_option (\<lambda>q. length (pg_delivery_tags q)) ?q of None \<Rightarrow> 0 | Some n \<Rightarrow> n),
              cs_committed_gaps = k'\<rparr>, ?v\<lparr>gw_db := (if 0 < k' then released claims d' else d')\<rparr>)"
    by (rule finish_commit_ok [OF ack]) (use ne kk in auto)
  have run: "commit_page en h request s = (Inr \<lparr>cs_committed_deliveries = (case ?q of None \<Rightarrow> 0 | Some q \<Rightarrow> length (pg_delivery_tags q)),
        cs_committed_gaps = k\<rparr>, ?v\<lparr>gw_db := (if 0 < k' then released claims d' else d')\<rparr>)"
    unfolding commit_page_eq [OF ss b] Let_def using here
    by (simp add: bnd_def attempt_def loc observed_def modify_def lift_res_def respond_def)
      (simp add: fin kk split: option.splits)
  have pku: "pk owner_key (t_owners (gw_db ?v))" using pk by (simp add: u_def released_def release_delivery_owner_def Let_def pk_delete)
  have "owner_row_of (cc_network_id claims) (cc_principal_id claims) (cc_delivery_class claims)
     (if 0 < k' then released claims d' else d') = None"
    by (rule finish_commit_effect [OF pku ack row pk, of "?q \<noteq> None"]) (use ne kk in \<open>auto simp: u_def\<close>)
  moreover have "pk owner_key (t_owners (if 0 < k' then released claims d' else d'))"
  proof -
    have "t_owners d' = t_owners (gw_db ?v)" using acknowledge_owners ack by (metis snd_conv)
    then show ?thesis using pku by (simp add: released_def release_delivery_owner_def Let_def pk_delete)
  qed
  ultimately show ?thesis unfolding run by (simp add: u_def)
qed

text \<open>
  C18. A page that was handed out can be committed, and the commit frees the mailbox. Take an answer of
  the page handler with page id, token, deliveries and gaps. As long as the lease and the token have not
  run out, the instance still has the page, and the broker accepts acknowledgements, a commit request
  with that page id and token under a session of the same principal succeeds; it reports exactly the
  number of deliveries and of gaps of the page, acknowledges the page's messages on its channel and closes
  the channel, marks every gap of the page as acknowledged, and gives up the lease, so that the next pull
  can take the mailbox.
\<close>

theorem pulled_page_commits:
  assumes "pk owner_key (t_owners (gw_db s))" and "pk gap_key (t_gaps (gw_db s))"
    and "map_of (gw_pages s) (en_uuid en 0) = None"
    and "\<And>r. r \<in> set (t_gaps (gw_db s)) \<Longrightarrow> gg_page_id r \<noteq> Some (en_uuid en 0)"
    and "http_pull_page en h c limit s = (Inr (Some page), s1)" and "session en h (gw_db s) = Inr ss"
    and "gw_db t = gw_db s1" and "gw_pages t = gw_pages s1"
    and "en_x en' = en_x en" and "en_config en' = en_config en" and "settles_ok en'"
    and "session en' h' (gw_db t) = Inr ss'" and "vs_network_id ss' = vs_network_id ss"
    and "vs_principal_id ss' = vs_principal_id ss"
    and "en_now en' < en_now en + interval_ms (int (delivery_owner_lease (en_config en)))"
    and "timestamp_ms (en_now en') < sat_add (timestamp_ms (en_now en)) (lease_ms (delivery_owner_lease (en_config en)))"
    and "x_decode_claims (en_x en) (x_claims_bytes (en_x en) (page_claims en ss c (en_uuid en 0) (en_uuid en 1)))
      = Inr (page_claims en ss c (en_uuid en 0) (en_uuid en 1))"
    and "\<And>x token. x_commit_token (en_x en) x = Inr token \<Longrightarrow> token = x"
  shows "\<exists>t'. commit_page en' h' \<lparr>mr_page_id = dp_page_id page, mr_delivery_class = c,
        mr_commit_token = dp_commit_token page\<rparr> t
      = (Inr \<lparr>cs_committed_deliveries = length (dp_deliveries page) + length (dp_controls page),
              cs_committed_gaps = length (dp_gaps page)\<rparr>, t')
    \<and> gw_log t' = gw_log t @ (case map_of (gw_pages s1) (dp_page_id page) of
        None \<Rightarrow> [] | Some q \<Rightarrow> map (BasicAck (pg_channel q)) (pg_delivery_tags q)
          @ [CloseChannel (pg_channel q) 200 ''mailbox page committed''])
    \<and> (\<forall>now'. load_delivery_owner now' (vs_network_id ss) (vs_principal_id ss) c (gw_db t') = None)
    \<and> map_of (gw_pages t') (dp_page_id page) = None"
proof -
  let ?cl = "page_claims en ss c (en_uuid en 0) (en_uuid en 1)"
  let ?req = "\<lparr>mr_page_id = dp_page_id page, mr_delivery_class = c, mr_commit_token = dp_commit_token page\<rparr>"
  obtain d where pk1: "pk owner_key (t_owners (gw_db s1))"
    and row: "\<exists>r. owner_row_of (vs_network_id ss) (vs_principal_id ss) c (gw_db s1) = Some r \<and> ow_epoch r = en_uuid en 1
       \<and> ow_instance_id r = config.instance_id (en_config en)
       \<and> ow_lease_expires_at r = en_now en + interval_ms (int (delivery_owner_lease (en_config en)))"
    and mine: "\<And>q. map_of (gw_pages s1) (en_uuid en 0) = Some q \<Longrightarrow> page_of_mailbox q (vs_principal_id ss) c (en_uuid en 1)"
    and len: "length (dp_deliveries page) + length (dp_controls page) =
       (case map_of (gw_pages s1) (en_uuid en 0) of None \<Rightarrow> 0 | Some q \<Rightarrow> length (pg_delivery_tags q))"
    and pid: "dp_page_id page = en_uuid en 0" and ne: "map_of (gw_pages s1) (en_uuid en 0) = None \<Longrightarrow> dp_gaps page \<noteq> []"
    and iss: "issue (en_x en) (commit_hmac_secret (en_config en)) ?cl = Inr (dp_commit_token page)"
    and gd: "t_gaps d = t_gaps (gw_db s)"
    and load: "load_for_page (en_now en) (vs_network_id ss) (vs_principal_id ss) c (en_uuid en 0)
       (page_limit (en_config en) limit) (delivery_owner_lease (en_config en)) d = (Inr (dp_gaps page), gw_db s1)"
    using pulled_page_waits [OF assms(1,3,5)] assms(6) by (metis Inr_inject)
  have bound: "bound_claims en' ?req ss' ?cl"
    using issued_verifies [OF assms(17,18) iss] assms(9,10,13,14,16)
    by (simp add: bound_claims_def pid) (simp add: page_claims_def)
  have lease: "holds_lease (en_now en') ?cl (gw_db t)"
    using row assms(7,15) pk1 by (auto simp: holds_lease_def load_delivery_owner_row page_claims_def)
  obtain k d' where ack: "acknowledge_page (en_now en') (vs_network_id ss) (vs_principal_id ss) c (en_uuid en 0) (gw_db s1) = (k, d')"
    by fastforce
  have k: "k = length (dp_gaps page)"
    by (rule acknowledged_count [OF _ _ load ack]) (use assms(2,4) gd in auto)
  have cl: "cc_page_id ?cl = en_uuid en 0" "cc_network_id ?cl = vs_network_id ss" "cc_principal_id ?cl = vs_principal_id ss"
    "cc_delivery_class ?cl = c" "cc_consumer_epoch ?cl = en_uuid en 1"
    "cc_owner_instance_id ?cl = config.instance_id (en_config en)" by (simp_all add: page_claims_def)
  obtain t' where "commit_page en' h' ?req t = (Inr \<lparr>cs_committed_deliveries =
        (case map_of (gw_pages t) (cc_page_id ?cl) of None \<Rightarrow> 0 | Some q \<Rightarrow> length (pg_delivery_tags q)),
        cs_committed_gaps = length (dp_gaps page)\<rparr>, t')"
    "gw_log t' = gw_log t @ (case map_of (gw_pages t) (cc_page_id ?cl) of None \<Rightarrow> [] | Some q \<Rightarrow> page_settled q)"
    "gw_pages t' = page_delete (cc_page_id ?cl) (gw_pages t)" "pk owner_key (t_owners (gw_db t'))"
    "owner_row_of (cc_network_id ?cl) (cc_principal_id ?cl) (cc_delivery_class ?cl) (gw_db t') = None"
    using commit_runs [OF assms(12) bound _ assms(11) lease, of "length (dp_gaps page)"] pk1 row mine ne ack k
    unfolding cl assms(7,8,10) by auto
  then show ?thesis unfolding cl
    by (intro exI [of _ t']) (simp add: pid len assms(8) page_settled_def load_delivery_owner_row split: option.splits)
qed

section \<open>A concrete page\<close>

definition bob_db :: db where
  "bob_db = empty_db\<lparr>t_memberships := [member_row ''global'' ''bob''],
     t_sessions := [\<lparr>se_session_id = ''s'', se_token_hash = hex_encode ''t'', se_network_id = ''net'',
       se_expires_at = 9000000, se_created_at = 0\<rparr>],
     t_session_principals := [\<lparr>sp_session_id = ''s'', sp_principal_id = ''bob'', sp_verified_at = 0, sp_expires_at = 9000000\<rparr>]\<rparr>"

definition bob_session :: verified_session where
  "bob_session = \<lparr>vs_session_id = ''s'', vs_network_id = ''net'', vs_principal_id = ''bob''\<rparr>"

definition bob_claims :: commit_claims where
  "bob_claims = \<lparr>cc_page_id = ''page'', cc_network_id = ''net'', cc_principal_id = ''bob'', cc_delivery_class = Interactive,
     cc_owner_instance_id = config.instance_id valid, cc_consumer_epoch = ''epoch'',
     cc_expires_at = sat_add (timestamp_ms 1000000) (lease_ms (delivery_owner_lease valid))\<rparr>"

definition bob_env :: env where
  "bob_env = bob_mailbox\<lparr>en_uuid := (\<lambda>n. if n = 0 then ''page'' else ''epoch''),
     en_x := sample_externs\<lparr>x_decode_claims := (\<lambda>s. Inr bob_claims)\<rparr>\<rparr>"

lemma bob_env_simps [simp]:
  "en_x bob_env = sample_externs\<lparr>x_decode_claims := (\<lambda>s. Inr bob_claims)\<rparr>" "en_config bob_env = valid"
  "en_now bob_env = 1000000" "en_uuid bob_env 0 = ''page''" "en_uuid bob_env 1 = ''epoch''" "en_uuid bob_env (Suc 0) = ''epoch''"
  "en_broker bob_env = en_broker bob_mailbox"
  by (simp_all add: bob_env_def bob_mailbox_def)

lemma bob_has_session: "session bob_env (Some ''Bearer t'') bob_db = Inr bob_session"
  by (simp add: session_def strip_prefix_def starts_with_def verify_bearer_def live_sessions_def hash_token_def
      bob_db_def bob_session_def principal_is_admitted_def live_member_def grant_live_def member_row_def empty_db_def row_of_def
      blank.simps [of "''t''"] ws_encodings_def sha256_hex_def sample_externs_def)

lemma bob_pulls:
  "\<exists>pp. fst (pull_page bob_env ''net'' ''bob'' Interactive ''page'' ''epoch''
     (Suc (Suc (Suc (Suc 0)))) (sample_gw d)) = Inr (Some pp)"
  by (simp add: bob_env_def bob_mailbox_def run_simps sample_message_def pull_page_def fetch_messages_def
      abandon_expired_pages_def close_pages_def ensure_tenant_mailboxes_def sample_env_def sample_gw_def)
    (simp add: open_page_def run_simps sort_message_def delivery_of_def sample_externs_def take_page_def
      page_insert_def no_contents_def)

definition bob_owned :: db where
  "bob_owned = bob_db\<lparr>t_owners := [\<lparr>ow_binding_key = mailbox_binding_key ''net'' ''bob'', ow_class = ''interactive'',
     ow_instance_id = config.instance_id valid, ow_epoch = ''epoch'',
     ow_lease_expires_at = 1000000 + interval_ms (int (delivery_owner_lease valid)), ow_route = [], ow_updated_at = 1000000\<rparr>]\<rparr>"

lemma bob_owned_session: "session bob_env (Some ''Bearer t'') bob_owned = Inr bob_session"
proof -
  have "principal_is_admitted now bob_owned n p = principal_is_admitted now bob_db n p" for now n p
    by (simp add: bob_owned_def principal_is_admitted_def live_member_def grant_live_def)
  moreover have "live_sessions now h bob_owned = live_sessions now h bob_db" for now h
    by (simp add: bob_owned_def live_sessions_def)
  ultimately have "verify_bearer E now k bob_owned = verify_bearer E now k bob_db" for E now k
    by (simp add: verify_bearer_def split: list.splits)
  then show ?thesis using bob_has_session by (simp add: session_def split: option.splits)
qed

lemma bob_acquires:
  "try_acquire_delivery_owner 1000000 ''net'' ''bob'' Interactive (config.instance_id valid) ''epoch'' (internal_route valid)
     (delivery_owner_lease valid) bob_db = Inr (True, bob_owned)"
  by (simp add: try_acquire_delivery_owner_def i64_try_from_def valid_def bob_db_def bob_owned_def empty_db_def
      upsert_def upsert_count_def Let_def)

lemma bob_gaps: "load_for_page 1000000 n p c k l (delivery_owner_lease valid) bob_owned = (Inr [], bob_owned)"
  by (simp add: load_for_page_def i64_try_from_def valid_def bob_owned_def bob_db_def empty_db_def page_rows_def Let_def)

lemma bob_http_pull:
  "\<exists>page s1. http_pull_page bob_env (Some ''Bearer t'') Interactive (Some 4) (sample_gw bob_db) = (Inr (Some page), s1)
     \<and> gw_db s1 = bob_owned"
proof -
  have lim: "page_limit valid (Some 4) = Suc (Suc (Suc (Suc 0)))" by (simp add: page_limit_def valid_def)
  obtain pp s2 where pull: "pull_page bob_env ''net'' ''bob'' Interactive ''page'' ''epoch'' (Suc (Suc (Suc (Suc 0))))
      (sample_gw bob_owned) = (Inr (Some pp), s2)" using bob_pulls by (metis prod.collapse)
  have db: "gw_db s2 = bob_owned"
    using pull_page_result(1) [OF pull] by (simp add: sample_gw_def)
  have upd: "(sample_gw bob_db)\<lparr>gw_db := bob_owned\<rparr> = sample_gw bob_owned" by (simp add: sample_gw_def)
  have page: "\<exists>page. page_response bob_env bob_session Interactive ''page'' ''epoch'' (Some pp) [] = Inr page"
    by (simp add: page_response_def issue_def sample_externs_def Let_def)
  show ?thesis using page
    by (auto simp: http_pull_page_def with_session_def bob_has_session respond_def bnd_def store_op_def db_op_def
        bob_acquires owned_page_def lim pull upd db bob_gaps ret_def lift_res_def bob_session_def Let_def)
qed

lemma bob_settles: "settles_ok bob_env"
  by (auto simp: settles_ok_def bob_mailbox_def sample_broker_def settled_def split: broker_cmd.splits)

lemma bob_page_claims: "page_claims bob_env bob_session Interactive ''page'' ''epoch'' = bob_claims"
  by (simp add: page_claims_def bob_claims_def bob_session_def)

lemma bob_commits_hyps:
  "pk owner_key (t_owners (gw_db (sample_gw bob_db)))" "pk gap_key (t_gaps (gw_db (sample_gw bob_db)))"
  "map_of (gw_pages (sample_gw bob_db)) (en_uuid bob_env 0) = None"
  "\<And>r. r \<in> set (t_gaps (gw_db (sample_gw bob_db))) \<Longrightarrow> gg_page_id r \<noteq> Some (en_uuid bob_env 0)"
  "en_now bob_env < en_now bob_env + interval_ms (int (delivery_owner_lease (en_config bob_env)))"
  "timestamp_ms (en_now bob_env) < sat_add (timestamp_ms (en_now bob_env)) (lease_ms (delivery_owner_lease (en_config bob_env)))"
  "x_decode_claims (en_x bob_env) (x_claims_bytes (en_x bob_env)
     (page_claims bob_env bob_session Interactive (en_uuid bob_env 0) (en_uuid bob_env 1)))
   = Inr (page_claims bob_env bob_session Interactive (en_uuid bob_env 0) (en_uuid bob_env 1))"
  "\<And>x token. x_commit_token (en_x bob_env) x = Inr token \<Longrightarrow> token = x"
  by (simp_all add: bob_db_def empty_db_def pk_def interval_ms_def valid_def lease_ms_def sat_add_def timestamp_ms_def
      bob_page_claims sample_externs_def)

theorem pulled_page_commits_witness:
  "\<exists>page s1 t'. http_pull_page bob_env (Some ''Bearer t'') Interactive (Some 4) (sample_gw bob_db) = (Inr (Some page), s1)
     \<and> commit_page bob_env (Some ''Bearer t'') \<lparr>mr_page_id = dp_page_id page, mr_delivery_class = Interactive,
         mr_commit_token = dp_commit_token page\<rparr> s1
       = (Inr \<lparr>cs_committed_deliveries = length (dp_deliveries page) + length (dp_controls page),
               cs_committed_gaps = length (dp_gaps page)\<rparr>, t')
     \<and> load_delivery_owner 1000000 ''net'' ''bob'' Interactive (gw_db t') = None"
proof -
  obtain page s1 where pull: "http_pull_page bob_env (Some ''Bearer t'') Interactive (Some 4) (sample_gw bob_db)
      = (Inr (Some page), s1)" and db: "gw_db s1 = bob_owned" using bob_http_pull by blast
  have s0: "session bob_env (Some ''Bearer t'') (gw_db (sample_gw bob_db)) = Inr bob_session"
    and s1: "session bob_env (Some ''Bearer t'') (gw_db s1) = Inr bob_session"
    using bob_has_session bob_owned_session db by simp_all
  from pulled_page_commits [OF bob_commits_hyps(1-4) pull s0 refl refl refl refl bob_settles s1 refl refl
      bob_commits_hyps(5-8)] pull
  show ?thesis by (auto simp: bob_session_def)
qed

definition bob_waiting :: gw where
  "bob_waiting = (sample_gw bob_owned)\<lparr>gw_pages := gw_pages bob_pulled\<rparr>"

definition bob_request :: commit_request where
  "bob_request = \<lparr>mr_page_id = ''page'', mr_delivery_class = Interactive,
     mr_commit_token = hex_encode (x_claims_bytes sample_externs bob_claims) @ ''.''
       @ hex_encode (x_hmac sample_externs (commit_hmac_secret valid) (x_claims_bytes sample_externs bob_claims))\<rparr>"

lemma bob_bound: "bound_claims bob_env bob_request bob_session bob_claims"
proof -
  have "timestamp_ms 1000000 < cc_expires_at bob_claims"
    by (simp add: bob_claims_def timestamp_ms_def lease_ms_def sat_add_def valid_def)
  then have "verify (en_x bob_env) (commit_hmac_secret valid) (mr_commit_token bob_request) (timestamp_ms 1000000) = Inr bob_claims"
    by (simp add: bob_request_def verify_parts sample_externs_def)
  then show ?thesis by (simp add: bound_claims_def) (simp add: bob_request_def bob_claims_def bob_session_def)
qed

lemma bob_owner_row:
  "pk owner_key (t_owners bob_owned)"
  "\<exists>r. owner_row_of ''net'' ''bob'' Interactive bob_owned = Some r \<and> ow_instance_id r = config.instance_id valid \<and> ow_epoch r = ''epoch''
     \<and> ow_route r = [] \<and> 1000000 < ow_lease_expires_at r"
  by (simp_all add: bob_owned_def owner_row_of_def row_of_def owner_key_def owner_key_of_def pk_def valid_def interval_ms_def)

lemma bob_commit_log:
  "\<exists>r s' cs. commit_page bob_env (Some ''Bearer t'') bob_request bob_waiting = (r, s')
     \<and> gw_log s' = gw_log bob_waiting @ cs \<and> BasicAck 5 3 \<in> set cs"
proof -
  have db: "gw_db bob_waiting = bob_owned" by (simp add: bob_waiting_def sample_gw_def)
  have ss: "session bob_env (Some ''Bearer t'') (gw_db bob_waiting) = Inr bob_session"
    using bob_owned_session db by simp
  have "holds_lease (en_now bob_env) bob_claims (gw_db bob_waiting)"
    using bob_owner_row by (auto simp: db holds_lease_def load_delivery_owner_row bob_claims_def)
  then have "gw_log (snd (commit_page bob_env (Some ''Bearer t'') bob_request bob_waiting)) =
      gw_log (snd (rabbit_commit_page bob_env ''page'' ''bob'' Interactive ''epoch'' bob_waiting))"
    using commit_page_log [OF ss bob_bound] by (simp add: bob_claims_def bob_request_def bob_session_def)
  also have "\<dots> = gw_log bob_waiting @ [BasicAck 5 1, BasicAck 5 3, CloseChannel 5 200 ''mailbox page committed'']"
  proof -
    obtain q where "map_of (gw_pages bob_waiting) ''page'' = Some q" "page_of_mailbox q ''bob'' Interactive ''epoch''"
      "page_settled q = [BasicAck 5 1, BasicAck 5 3, CloseChannel 5 200 ''mailbox page committed'']"
      by (simp add: bob_waiting_def bob_pulled_pages page_of_mailbox_def page_settled_def)
    with commit_page_runs [OF bob_settles] show ?thesis by simp
  qed
  finally show ?thesis by (cases "commit_page bob_env (Some ''Bearer t'') bob_request bob_waiting") simp
qed

theorem commit_only_by_leaseholder_witness:
  "\<exists>r s' cs. commit_page bob_env (Some ''Bearer t'') bob_request bob_waiting = (r, s')
     \<and> gw_log s' = gw_log bob_waiting @ cs \<and> BasicAck 5 3 \<in> set cs
     \<and> (\<exists>claims q route. verify (en_x bob_env) (commit_hmac_secret valid) (mr_commit_token bob_request) (timestamp_ms 1000000) = Inr claims
          \<and> load_delivery_owner 1000000 ''net'' ''bob'' Interactive bob_owned = Some \<lparr>do_instance_id = config.instance_id valid,
              do_consumer_epoch = cc_consumer_epoch claims, do_owner_route = route\<rparr>
          \<and> map_of (gw_pages bob_waiting) ''page'' = Some q \<and> pg_principal_id q = ''bob'' \<and> 3 \<in> set (pg_delivery_tags q))"
proof -
  obtain r s' cs where run: "commit_page bob_env (Some ''Bearer t'') bob_request bob_waiting = (r, s')"
    and log: "gw_log s' = gw_log bob_waiting @ cs" and ack: "BasicAck 5 3 \<in> set cs" using bob_commit_log by blast
  have db: "gw_db bob_waiting = bob_owned" by (simp add: bob_waiting_def sample_gw_def)
  have req: "mr_page_id bob_request = ''page''" "mr_delivery_class bob_request = Interactive" by (simp_all add: bob_request_def)
  obtain ss claims q route where ss: "session bob_env (Some ''Bearer t'') bob_owned = Inr ss"
    and "verify (en_x bob_env) (commit_hmac_secret valid) (mr_commit_token bob_request) (timestamp_ms 1000000) = Inr claims"
    and "load_delivery_owner 1000000 (vs_network_id ss) (vs_principal_id ss) Interactive bob_owned = Some \<lparr>do_instance_id = config.instance_id valid,
              do_consumer_epoch = cc_consumer_epoch claims, do_owner_route = route\<rparr>"
    and "map_of (gw_pages bob_waiting) ''page'' = Some q" "pg_principal_id q = vs_principal_id ss" "3 \<in> set (pg_delivery_tags q)"
    using commit_only_by_leaseholder [OF run log ack] unfolding db req bob_env_simps(2,3) by blast
  moreover have "ss = bob_session" using ss bob_owned_session by simp
  ultimately show ?thesis using run log ack
    by (intro exI [of _ r] exI [of _ s'] exI [of _ cs]) (auto simp: bob_session_def)
qed

end
