(* ===== verification/Cluster.thy ===== *)
theory Cluster
  imports Mailbox_Api
begin

text \<open>
  Several gateway instances on one database. A client may send the commit of a page to any of them; an
  instance that does not hold the page forwards the request to the owner recorded with the lease
  (\<open>forward_commit_to_owner\<close>, \<open>commit_owned_page\<close>). \<open>peer_answer\<close> closes that loop: it is the answer of the
  owner's internal handler as the forwarding instance reads it, with what the handler left in the
  shared database.
\<close>

definition peer_answer :: "env \<Rightarrow> gw \<Rightarrow> commit_request \<Rightarrow> db \<Rightarrow> u64 option result \<times> db" where
  "peer_answer en s request d =
    (case commit_owned_page en request (s\<lparr>gw_db := d\<rparr>) of
       (Inl e, s') \<Rightarrow> (Inl (ae_message e), gw_db s')
     | (Inr n, s') \<Rightarrow> (Inr (map_option of_nat n), gw_db s'))"

definition agree :: "('e + 'a) \<times> gw \<Rightarrow> ('e + 'a) \<times> gw \<Rightarrow> bool" where
  "agree x y \<longleftrightarrow> gw_db (snd x) = gw_db (snd y)
     \<and> (case (fst x, fst y) of (Inr v, Inr w) \<Rightarrow> v = w | (Inl _, Inl _) \<Rightarrow> True | _ \<Rightarrow> False)"

lemma finish_commit_agree:
  "gw_db s = gw_db s' \<Longrightarrow> en_now en = en_now en' \<Longrightarrow>
   agree (finish_commit en claims n s) (finish_commit en' claims n s')"
  by (auto simp: agree_def finish_commit_def handler_simps release_claims_eq split: prod.splits)

lemma commit_tail_agree:
  assumes "agree (m s) (m' s')" and "en_now en = en_now en'"
  shows "agree (respond (bnd (attempt m) (\<lambda>r. bnd (observed (f r)) (\<lambda>_. bnd (lift_res r) (finish_commit en claims)))) s)
    (respond (bnd (attempt m') (\<lambda>r. bnd (observed (g r)) (\<lambda>_. bnd (lift_res r) (finish_commit en' claims)))) s')"
proof -
  obtain r u r' u' where m: "m s = (r, u)" "m' s' = (r', u')" by fastforce
  then have db: "gw_db u = gw_db u'" using assms(1) by (simp add: agree_def)
  show ?thesis
  proof (cases r)
    case (Inl e)
    then obtain e' where "r' = Inl e'" using assms(1) m by (cases r') (auto simp: agree_def)
    with Inl m db show ?thesis by (simp add: agree_def handler_simps)
  next
    case (Inr v)
    then have r': "r' = Inr v" using assms(1) m by (cases r') (auto simp: agree_def)
    let ?u = "u\<lparr>gw_obs := f r (gw_obs u)\<rparr>" and ?u' = "u'\<lparr>gw_obs := g r' (gw_obs u')\<rparr>"
    have "agree (finish_commit en claims v ?u) (finish_commit en' claims v ?u')"
      using db assms(2) by (intro finish_commit_agree) simp_all
    then show ?thesis using Inr r' m
      by (auto simp: agree_def respond_def bnd_def attempt_def observed_def modify_def lift_res_def
          split: prod.splits sum.splits)
  qed
qed

lemma local_commit_count:
  assumes "commit_local_deliveries en claims s = (Inr (Some n), s')"
  shows "\<exists>q. map_of (gw_pages s) (cc_page_id claims) = Some q \<and> n = length (pg_delivery_tags q)"
proof -
  have "bnd (rabbit_commit_page en (cc_page_id claims) (cc_principal_id claims) (cc_delivery_class claims)
       (cc_consumer_epoch claims)) (\<lambda>committed.
       bnd (if committed \<noteq> None then release_claims claims else ret ()) (\<lambda>_. ret committed)) s = (Inr (Some n), s')"
    using assms unfolding commit_local_eq by (simp split: if_splits)
  then obtain u where "rabbit_commit_page en (cc_page_id claims) (cc_principal_id claims) (cc_delivery_class claims)
        (cc_consumer_epoch claims) s = (Inr (Some n), u)" by (auto simp: bnd_Inr ret_def)
  then show ?thesis
    by (auto simp: rabbit_commit_page_def bnd_Inr take_page_eq ret_def raise_def split: option.splits if_splits)
qed

lemma forward_agree:
  assumes b: "bound_claims en request ss claims" and same: "en_x eno = en_x en" "en_now eno = en_now en"
      "commit_hmac_secret (en_config eno) = commit_hmac_secret (en_config en)"
    and own: "cc_owner_instance_id claims = config.instance_id (en_config eno)"
    and tls: "internal_mtls_identity_pem (en_config en) = Some identity" "internal_mtls_ca_pem (en_config en) = Some ca"
    and route: "\<And>owner. load_delivery_owner (en_now en) (cc_network_id claims) (cc_principal_id claims)
        (cc_delivery_class claims) (gw_db s) = Some owner \<Longrightarrow> do_instance_id owner = config.instance_id (en_config eno) \<Longrightarrow>
        do_owner_route owner = route" and "route \<noteq> []"
    and fwd: "en_forward en identity ca (trim_end_slashes route @ ''/internal/v1/mailbox/commit'') = peer_answer eno so"
    and small: "\<And>q. map_of (gw_pages so) (mr_page_id request) = Some q \<Longrightarrow> length (pg_delivery_tags q) < 2 ^ 64"
  shows "agree (forward_commit_to_owner en request claims s) (commit_local_deliveries eno claims (so\<lparr>gw_db := gw_db s\<rparr>))"
proof -
  let ?o = "so\<lparr>gw_db := gw_db s\<rparr>"
  have eqs: "cc_page_id claims = mr_page_id request" "cc_delivery_class claims = mr_delivery_class request"
    using b by (simp_all add: bound_claims_def)
  have v: "verify (en_x eno) (commit_hmac_secret (en_config eno)) (mr_commit_token request) (timestamp_ms (en_now eno)) = Inr claims"
    using b same by (simp add: bound_claims_def)
  obtain r u where loc: "commit_local_deliveries eno claims ?o = (r, u)" by fastforce
  have cnt: "n < 2 ^ 64" if "r = Inr (Some n)" for n
    using local_commit_count [of eno claims ?o n u] loc small eqs that by auto
  have peer: "peer_answer eno so request (gw_db s) = (case r of Inl e \<Rightarrow> (Inl e, gw_db u) | Inr n \<Rightarrow> (Inr (map_option of_nat n), gw_db u))"
    using loc v eqs own
    by (simp add: peer_answer_def commit_owned_page_def handler_simps bad_request_def split: sum.splits)
  show ?thesis
  proof (cases "holds_lease (en_now en) claims (gw_db s)")
    case True
    then obtain rt where ow: "load_delivery_owner (en_now en) (cc_network_id claims) (cc_principal_id claims)
        (cc_delivery_class claims) (gw_db s) = Some \<lparr>do_instance_id = cc_owner_instance_id claims,
          do_consumer_epoch = cc_consumer_epoch claims, do_owner_route = rt\<rparr>" by (auto simp: holds_lease_def)
    with route own have "rt = route" by fastforce
    then have "forward_commit_to_owner en request claims s = bnd (db_op (peer_answer eno so request)) (\<lambda>c. ret (map_option unat c)) s"
      using ow tls fwd \<open>route \<noteq> []\<close>
      by (simp add: forward_commit_to_owner_def owner_or_err_def bnd_def reads_def lift_res_def bail_if_def)
    moreover have "map_option unat (map_option of_nat n :: u64 option) = n" if "r = Inr n" for n
      using cnt that by (cases n) (auto simp: unat_of_nat)
    ultimately show ?thesis using peer loc by (cases r) (auto simp: agree_def bnd_def db_op_def ret_def)
  next
    case False
    have "owner = \<lparr>do_instance_id = do_instance_id owner, do_consumer_epoch = do_consumer_epoch owner,
        do_owner_route = do_owner_route owner\<rparr>" for owner :: delivery_owner by simp
    with False have "do_instance_id owner \<noteq> cc_owner_instance_id claims \<or> do_consumer_epoch owner \<noteq> cc_consumer_epoch claims"
      if "load_delivery_owner (en_now en) (cc_network_id claims) (cc_principal_id claims)
        (cc_delivery_class claims) (gw_db s) = Some owner" for owner
      using that unfolding holds_lease_def by metis
    then have "\<exists>e. forward_commit_to_owner en request claims s = (Inl e, s)"
      by (cases "load_delivery_owner (en_now en) (cc_network_id claims) (cc_principal_id claims) (cc_delivery_class claims) (gw_db s)")
        (auto simp: forward_commit_to_owner_def owner_or_err_def bnd_def reads_def lift_res_def bail_if_def)
    moreover have "\<exists>e. commit_local_deliveries eno claims ?o = (Inl e, ?o)"
      using False same(2) by (simp add: commit_local_eq)
    ultimately show ?thesis by (auto simp: agree_def)
  qed
qed

text \<open>
  C13. Sending a commit to another instance is the same as sending it to the owner. Let an instance
  forward commits to the owner over its internal route, with both using one secret and one database, and
  let the token name the owner. Then the answer of the forwarding instance succeeds exactly when the
  owner itself, given the same request, succeeds, it reports the same numbers of deliveries and gaps,
  and both leave the same database behind.
\<close>

theorem forwarded_commit_equals_local:
  assumes "en_x eno = en_x en" and "en_now eno = en_now en"
    and "commit_hmac_secret (en_config eno) = commit_hmac_secret (en_config en)"
    and "config.instance_id (en_config eno) \<noteq> config.instance_id (en_config en)"
    and "\<And>claims. verify (en_x en) (commit_hmac_secret (en_config en)) (mr_commit_token request)
        (timestamp_ms (en_now en)) = Inr claims \<Longrightarrow> cc_owner_instance_id claims = config.instance_id (en_config eno)"
    and "internal_mtls_identity_pem (en_config en) = Some identity" and "internal_mtls_ca_pem (en_config en) = Some ca"
    and "\<And>n p c owner. load_delivery_owner (en_now en) n p c (gw_db s) = Some owner \<Longrightarrow>
        do_instance_id owner = config.instance_id (en_config eno) \<Longrightarrow> do_owner_route owner = route"
    and "route \<noteq> []"
    and "en_forward en identity ca (trim_end_slashes route @ ''/internal/v1/mailbox/commit'') = peer_answer eno so"
    and "\<And>q. map_of (gw_pages so) (mr_page_id request) = Some q \<Longrightarrow> length (pg_delivery_tags q) < 2 ^ 64"
    and "commit_page en h request s = (r, s')" and "commit_page eno h request (so\<lparr>gw_db := gw_db s\<rparr>) = (ro, so')"
  shows "gw_db s' = gw_db so' \<and> (\<forall>v. r = Inr v \<longleftrightarrow> ro = Inr v)"
proof -
  have ses: "session eno h d = session en h d" for d unfolding session_def assms(1,2) ..
  have bnd: "bound_claims eno request ss claims = bound_claims en request ss claims" for ss claims
    by (simp add: bound_claims_def assms(1-3))
  have "agree (r, s') (ro, so')"
  proof (cases "\<exists>ss claims. session en h (gw_db s) = Inr ss \<and> bound_claims en request ss claims")
    case True
    then obtain ss claims where ss: "session en h (gw_db s) = Inr ss" and b: "bound_claims en request ss claims" by blast
    have sso: "session eno h (gw_db (so\<lparr>gw_db := gw_db s\<rparr>)) = Inr ss" and bo: "bound_claims eno request ss claims"
      using ss b ses bnd by simp_all
    have own: "cc_owner_instance_id claims = config.instance_id (en_config eno)"
      using assms(5) b by (simp add: bound_claims_def)
    have fw: "agree (forward_commit_to_owner en request claims s) (commit_local_deliveries eno claims (so\<lparr>gw_db := gw_db s\<rparr>))"
      by (rule forward_agree [OF b assms(1-3) own assms(6,7) _ assms(9-11)]) (use assms(8) in blast)
    from commit_tail_agree [where m = "forward_commit_to_owner en request claims" and m' = "commit_local_deliveries eno claims"
        and f = "\<lambda>r. record_commit (en_elapsed en) True (is_ok r)"
        and g = "\<lambda>r. record_commit (en_elapsed eno) False (is_ok r)" and claims = claims,
        OF fw assms(2) [symmetric]] show ?thesis
      using assms(12,13) own assms(4)
      by (simp add: commit_page_eq [OF ss b] commit_page_eq [OF sso bo])
  next
    case False
    then have "\<exists>e. commit_page en h request s = (Inl e, s)" by (intro commit_page_unbound) blast
    moreover have "\<exists>e. commit_page eno h request (so\<lparr>gw_db := gw_db s\<rparr>) = (Inl e, so\<lparr>gw_db := gw_db s\<rparr>)"
      using False ses bnd by (intro commit_page_unbound) simp
    ultimately show ?thesis using assms(12,13) by (auto simp: agree_def)
  qed
  then show ?thesis by (cases r; cases ro) (auto simp: agree_def)
qed

section \<open>Two instances\<close>

text \<open>The page of \<open>bob\<close> is pending at the instance of \<open>bob_env\<close>; \<open>relay_env\<close> is another instance.\<close>

definition bob_routed :: db where
  "bob_routed = bob_db\<lparr>t_owners := [\<lparr>ow_binding_key = mailbox_binding_key ''net'' ''bob'', ow_class = ''interactive'',
     ow_instance_id = config.instance_id valid, ow_epoch = ''epoch'',
     ow_lease_expires_at = 1000000 + interval_ms (int (delivery_owner_lease valid)), ow_route = ''https://a/'',
     ow_updated_at = 1000000\<rparr>]\<rparr>"

definition bob_holder :: gw where
  "bob_holder = (sample_gw empty_db)\<lparr>gw_pages := gw_pages bob_pulled\<rparr>"

definition relay_env :: env where
  "relay_env = bob_env\<lparr>en_config := valid\<lparr>instance_id := ''relay'', internal_mtls_identity_pem := Some ''identity'',
       internal_mtls_ca_pem := Some ''ca''\<rparr>,
     en_forward := (\<lambda>identity ca url. if url = ''https://a/internal/v1/mailbox/commit'' then peer_answer bob_env bob_holder
       else (\<lambda>r d. (Inl ''unreachable'', d)))\<rparr>"

lemma relay_env_simps [simp]:
  "en_x relay_env = en_x bob_env" "en_now relay_env = 1000000" "commit_hmac_secret (en_config relay_env) = commit_hmac_secret valid"
  "config.instance_id (en_config relay_env) = ''relay''"
  "internal_mtls_identity_pem (en_config relay_env) = Some ''identity''" "internal_mtls_ca_pem (en_config relay_env) = Some ''ca''"
  by (simp_all add: relay_env_def bob_env_def bob_mailbox_def valid_def)

lemma bob_routed_session: "session bob_env (Some ''Bearer t'') bob_routed = Inr bob_session"
proof -
  have "principal_is_admitted now bob_routed n p = principal_is_admitted now bob_db n p" for now n p
    by (simp add: bob_routed_def principal_is_admitted_def live_member_def grant_live_def)
  moreover have "live_sessions now h bob_routed = live_sessions now h bob_db" for now h
    by (simp add: bob_routed_def live_sessions_def)
  ultimately have "verify_bearer E now k bob_routed = verify_bearer E now k bob_db" for E now k
    by (simp add: verify_bearer_def split: list.splits)
  then show ?thesis using bob_has_session by (simp add: session_def split: option.splits)
qed

lemma bob_routed_row:
  "pk owner_key (t_owners bob_routed)"
  "\<exists>r. owner_row_of ''net'' ''bob'' Interactive bob_routed = Some r \<and> ow_instance_id r = config.instance_id valid \<and> ow_epoch r = ''epoch''
     \<and> ow_route r = ''https://a/'' \<and> 1000000 < ow_lease_expires_at r"
  by (simp_all add: bob_routed_def owner_row_of_def row_of_def owner_key_def owner_key_of_def pk_def valid_def interval_ms_def)

lemma bob_routed_owner:
  "load_delivery_owner now n p c bob_routed = Some owner \<Longrightarrow> do_owner_route owner = ''https://a/''"
  by (auto simp: load_delivery_owner_def bob_routed_def find_Some_iff split: if_splits)

lemma bob_holder_commits:
  "\<exists>so'. commit_page bob_env (Some ''Bearer t'') bob_request (bob_holder\<lparr>gw_db := bob_routed\<rparr>)
     = (Inr \<lparr>cs_committed_deliveries = 2, cs_committed_gaps = 0\<rparr>, so')"
proof -
  let ?s = "bob_holder\<lparr>gw_db := bob_routed\<rparr>"
  have ss: "session bob_env (Some ''Bearer t'') (gw_db ?s) = Inr bob_session" using bob_routed_session by simp
  have lease: "holds_lease (en_now bob_env) bob_claims (gw_db ?s)"
    using bob_routed_row by (auto simp: holds_lease_def load_delivery_owner_row bob_claims_def)
  have page: "\<exists>q. map_of (gw_pages ?s) ''page'' = Some q \<and> page_of_mailbox q ''bob'' Interactive ''epoch'' \<and> length (pg_delivery_tags q) = 2"
    by (simp add: bob_holder_def bob_pulled_pages page_of_mailbox_def)
  have gaps: "fst (acknowledge_page now n p c k (gw_db ?s)) = 0" for now n p c k
    by (simp add: acknowledge_page_def bob_routed_def bob_db_def empty_db_def Let_def rows_affected_def)
  have cl: "cc_page_id bob_claims = ''page''" "cc_principal_id bob_claims = ''bob''" "cc_delivery_class bob_claims = Interactive"
    "cc_consumer_epoch bob_claims = ''epoch''" "cc_network_id bob_claims = ''net''" "cc_owner_instance_id bob_claims = config.instance_id valid"
    by (simp_all add: bob_claims_def)
  obtain so' where "commit_page bob_env (Some ''Bearer t'') bob_request ?s = (Inr \<lparr>cs_committed_deliveries =
        (case map_of (gw_pages ?s) ''page'' of None \<Rightarrow> 0 | Some q \<Rightarrow> length (pg_delivery_tags q)), cs_committed_gaps = 0\<rparr>, so')"
    using commit_runs [OF ss bob_bound _ bob_settles lease, of 0] bob_routed_row page gaps unfolding cl by auto
  with page show ?thesis by auto
qed

theorem forwarded_commit_equals_local_witness:
  "\<exists>s' so'. commit_page relay_env (Some ''Bearer t'') bob_request (sample_gw bob_routed)
       = (Inr \<lparr>cs_committed_deliveries = 2, cs_committed_gaps = 0\<rparr>, s')
     \<and> commit_page bob_env (Some ''Bearer t'') bob_request (bob_holder\<lparr>gw_db := bob_routed\<rparr>)
       = (Inr \<lparr>cs_committed_deliveries = 2, cs_committed_gaps = 0\<rparr>, so') \<and> gw_db s' = gw_db so'"
proof -
  obtain so' where own: "commit_page bob_env (Some ''Bearer t'') bob_request (bob_holder\<lparr>gw_db := gw_db (sample_gw bob_routed)\<rparr>)
     = (Inr \<lparr>cs_committed_deliveries = 2, cs_committed_gaps = 0\<rparr>, so')" using bob_holder_commits by auto
  obtain r s' where run: "commit_page relay_env (Some ''Bearer t'') bob_request (sample_gw bob_routed) = (r, s')" by fastforce
  have v: "verify (en_x relay_env) (commit_hmac_secret (en_config relay_env)) (mr_commit_token bob_request) (timestamp_ms (en_now relay_env))
      = Inr bob_claims" using bob_bound by (simp add: bound_claims_def)
  have tr: "trim_end_slashes ''https://a/'' = ''https://a''" by (simp add: trim_end_slashes_def)
  have q: "length (pg_delivery_tags q) < 2 ^ 64" if "map_of (gw_pages bob_holder) (mr_page_id bob_request) = Some q" for q
    using that by (auto simp: bob_holder_def bob_pulled_pages bob_request_def split: if_splits)
  have "gw_db s' = gw_db so' \<and> (\<forall>v. r = Inr v \<longleftrightarrow>
      (Inr \<lparr>cs_committed_deliveries = 2, cs_committed_gaps = 0\<rparr> :: api_error + commit_summary) = Inr v)"
    by (rule forwarded_commit_equals_local [where route = "''https://a/''", OF _ _ _ _ _ _ _ _ _ _ q run own])
      (use v bob_routed_owner in \<open>auto simp: bob_claims_def valid_def tr relay_env_def\<close>)
  then show ?thesis using run own by auto
qed

end
