(* ===== verification/Object_Api.thy ===== *)
theory Object_Api
  imports Mailbox_Api
begin

text \<open>
  The object store of \<open>http.rs\<close> (\<open>fetch_object\<close>): bytes are served only under their own digest and from
  the directory of the session's network.
\<close>

lemma ascii_lower_hex: "hex_value (ascii_lower_char c) = hex_value c"
proof (cases "CHR ''A'' \<le> c \<and> c \<le> CHR ''Z''")
  case True
  define n :: nat where "n = of_char c"
  have n: "65 \<le> n" "n \<le> 90" using True by (auto simp: n_def less_eq_char_def)
  have "ascii_lower_char c = char_of (n + 32)" using True by (simp add: ascii_lower_char_def n_def)
  moreover have "of_char (char_of (n + 32) :: char) = n + 32" using n by (intro of_char_of_small) simp
  ultimately show ?thesis using n by (auto simp: hex_value_def Let_def n_def [symmetric])
qed (auto simp: ascii_lower_char_def)

lemma hex_decode_lower: "hex_decode (to_ascii_lowercase s) = hex_decode s"
  by (induction s rule: hex_decode.induct) (simp_all add: to_ascii_lowercase_def ascii_lower_hex)

lemma hex_string_chars: "is_hex_string s \<Longrightarrow> c \<in> set s \<Longrightarrow> hex_value c \<noteq> None"
  by (auto simp: is_hex_string_def list_all_iff)

text \<open>
  An object is served only under its own digest. Whenever the handler returns bytes, the caller has a
  live session, the requested name is 64 hexadecimal digits with or without the prefix \<open>sha256:\<close> and so
  stays inside its directory, the bytes are the file of that name in the directory of the session's
  network, its size is within the read limit, and the digits decode to the SHA-256 digest of the bytes
  returned. The request changes nothing.
\<close>

theorem object_has_digest:
  assumes "fetch_object en h digest s = (Inr (Some bytes), s')"
  shows "s' = s \<and> (\<exists>ss expected store_root len. session en h (gw_db s) = Inr ss
    \<and> digest \<in> {expected, ''sha256:'' @ expected} \<and> length expected = 64
    \<and> hex_decode expected = Some (x_sha256 (en_x en) bytes) \<and> CHR ''/'' \<notin> set digest \<and> CHR ''.'' \<notin> set digest
    \<and> object_store_root (en_config en) = Some store_root
    \<and> (let path = [store_root, hex_encode (x_sha256 (en_x en) (vs_network_id ss)), digest] in
        en_metadata en path = Some (True, len) \<and> len \<le> max_object_bytes (en_config en) \<and> en_read en path = Inr bytes))"
proof -
  define expected where "expected = (case strip_prefix ''sha256:'' digest of None \<Rightarrow> digest | Some e \<Rightarrow> e)"
  obtain ss store_root len where *: "session en h (gw_db s) = Inr ss" "object_store_root (en_config en) = Some store_root"
    "length expected = 64" "is_hex_string expected" "s' = s"
    "en_metadata en [store_root, hex_encode (x_sha256 (en_x en) (vs_network_id ss)), digest] = Some (True, len)"
    "len \<le> max_object_bytes (en_config en)"
    "en_read en [store_root, hex_encode (x_sha256 (en_x en) (vs_network_id ss)), digest] = Inr bytes"
    "hex_encode (x_sha256 (en_x en) bytes) = to_ascii_lowercase expected"
  proof -
    obtain ss where ss: "session en h (gw_db s) = Inr ss" using assms unfolding fetch_object_def with_session_Inr by blast
    obtain store_root where r: "object_store_root (en_config en) = Some store_root"
      using assms by (auto simp: fetch_object_def with_session_Inr bnd_lift_Inr ret_def split: option.splits)
    let ?path = "[store_root, hex_encode (x_sha256 (en_x en) (vs_network_id ss)), digest]"
    obtain len where l: "en_metadata en ?path = Some (True, len)"
      using assms ss r by (auto simp: fetch_object_def with_session_Inr bnd_lift_Inr ret_def Let_def split: option.splits bool.splits)
    show thesis
      by (rule that [OF ss r _ _ _ l])
        (use assms ss r l in \<open>auto simp: fetch_object_def with_session_Inr bnd_lift_Inr bail_if_Inr ret_def Let_def expected_def\<close>)
  qed
  have "t = w @ e" if "strip_prefix w t = Some e" for w t e
    using that by (simp add: strip_prefix_def starts_with_def split: if_splits) (metis append_take_drop_id)
  from this [of "''sha256:''" digest] have d: "digest \<in> {expected, ''sha256:'' @ expected}"
    by (cases "strip_prefix ''sha256:'' digest") (auto simp: expected_def)
  have "hex_decode expected = Some (x_sha256 (en_x en) bytes)"
    using hex_decode_lower [of expected] hex_round_trip [of "x_sha256 (en_x en) bytes"] *(9) by simp
  moreover have "CHR ''/'' \<notin> set expected" "CHR ''.'' \<notin> set expected"
    using hex_string_chars [OF *(4), of "CHR ''/''"] hex_string_chars [OF *(4), of "CHR ''.''"]
    by (auto simp: hex_value_def Let_def)
  ultimately show ?thesis using * d
    by (intro conjI exI [of _ ss] exI [of _ expected] exI [of _ store_root] exI [of _ len]) (auto simp: Let_def)
qed

definition object_env :: env where
  "object_env = bob_env\<lparr>en_config := valid\<lparr>object_store_root := Some ''/objects''\<rparr>,
     en_metadata := (\<lambda>path. Some (True, 32)), en_read := (\<lambda>path. Inr (replicate 32 CHR 0xAB))\<rparr>"

theorem object_has_digest_witness:
  "\<exists>bytes. fetch_object object_env (Some ''Bearer t'') (''sha256:'' @ concat (replicate 32 ''Ab'')) (sample_gw bob_db)
     = (Inr (Some bytes), sample_gw bob_db) \<and> hex_decode (concat (replicate 32 ''Ab'')) = Some (x_sha256 (en_x object_env) bytes)"
proof -
  let ?d = "''sha256:'' @ concat (replicate 32 ''Ab'')"
  have ss: "session object_env (Some ''Bearer t'') bob_db = Inr bob_session"
    using bob_has_session by (simp add: object_env_def session_def split: option.splits)
  have sp: "strip_prefix ''sha256:'' (''sha256:'' @ e) = Some e" for e by (simp add: strip_prefix_def starts_with_def)
  have hex: "is_hex_string (concat (replicate 32 ''Ab''))" "length (concat (replicate 32 ''Ab'')) = 64"
    by (simp_all add: is_hex_string_def list_all_iff hex_value_def Let_def length_concat sum_list_replicate)
  have b: "char_of (98 :: nat) = CHR ''b''" by code_simp
  have dig: "hex_encode (x_sha256 (en_x object_env) (replicate 32 CHR 0xAB)) = to_ascii_lowercase (concat (replicate 32 ''Ab''))"
    by (simp add: object_env_def sample_externs_def to_ascii_lowercase_def ascii_lower_char_def hex_encode_def
        hex_byte_def hex_digit_def map_concat less_eq_char_def b)
  have env: "object_store_root (en_config object_env) = Some ''/objects''" "en_metadata object_env p = Some (True, 32)"
    "en_read object_env p = Inr (replicate 32 CHR 0xAB)" "32 \<le> max_object_bytes (en_config object_env)" for p
    by (simp_all add: object_env_def valid_def)
  have run: "fetch_object object_env (Some ''Bearer t'') ?d (sample_gw bob_db) = (Inr (Some (replicate 32 CHR 0xAB)), sample_gw bob_db)"
    unfolding fetch_object_def with_session_def sample_gw_simps ss sum.case sp option.case Let_def env prod.case bool.case
    using hex dig env(4) by (simp add: respond_def bnd_def lift_res_def ret_def bail_if_def)
  from object_has_digest [OF run] run hex(2) show ?thesis by auto
qed

end
