(* ===== verification/Work_Limiter.thy ===== *)
theory Work_Limiter
  imports Prelude
begin

text \<open>
  The admission of snapshot fetches in the P2P synchronisation of the gateway
  (\<open>gateway_sync.rs\<close>, \<open>GossipWorkLimiter\<close>). An admitted fetch takes the permit of its peer and then one of
  the global permits; it waits on a \<open>Notify\<close> when one is missing and passes on wake-ups it cannot use.
  Tasks of a multi-threaded runtime interleave between any two of these actions, so each action is a
  step of its own and \<open>limiter_step\<close> lets any task take the next one. Semaphores and notifiers are
  shared cells: an entry of the peer table and the fetches admitted through it hold the same cell, and an
  entry made later for the same peer gets a new one.
\<close>

section \<open>Shared cells\<close>

text \<open>\<open>tokio::sync::Notify\<close>: at most one stored wake-up, and the tasks waiting in order.\<close>

record notify =
  nf_permit :: bool
  nf_waiters :: "nat list"

definition new_notify :: notify where
  "new_notify = \<lparr>nf_permit = False, nf_waiters = []\<rparr>"

record cell =
  cl_free :: bool
  cl_notify :: notify

definition new_cell :: cell where
  "new_cell = \<lparr>cl_free = True, cl_notify = new_notify\<rparr>"

record peer_limit =
  pl_cell :: nat
  pl_pending :: nat

text \<open>Where a fetch is in \<open>acquire\<close>, in its work, or in the drops that end it.\<close>

datatype phase =
    TryPeer
  | PassWake
  | AwaitPeer
  | PeerWait
  | TryGlobal
  | DropPeer
  | NotifyPeer
  | AwaitGlobal
  | GlobalWait
  | Working
  | PeerFreed
  | PeerNotified
  | GlobalFreed
  | Leaving
  | Finished

record fetch =
  ft_peer :: string
  ft_cell :: nat
  ft_phase :: phase
  ft_woke :: bool

text \<open>Cells and fetches live in a store that only grows; the counts tell which addresses are in use.\<close>

record limiter =
  lm_global :: nat
  lm_global_notify :: notify
  lm_peers :: "string \<Rightarrow> peer_limit option"
  lm_cells :: "nat \<Rightarrow> cell"
  lm_cell_count :: nat
  lm_fetches :: "nat \<Rightarrow> fetch"
  lm_fetch_count :: nat
  lm_snapshot_drops :: u64
  lm_event_drops :: u64

definition SNAPSHOT_WORKER_COUNT :: nat where
  "SNAPSHOT_WORKER_COUNT = 4"

definition GOSSIP_WORK_QUEUE_CAPACITY :: nat where
  "GOSSIP_WORK_QUEUE_CAPACITY = 128"

definition MAX_PENDING_SNAPSHOT_FETCHES_PER_PEER :: nat where
  "MAX_PENDING_SNAPSHOT_FETCHES_PER_PEER = GOSSIP_WORK_QUEUE_CAPACITY div SNAPSHOT_WORKER_COUNT"

definition new_limiter :: limiter where
  "new_limiter = \<lparr>lm_global = SNAPSHOT_WORKER_COUNT, lm_global_notify = new_notify, lm_peers = (\<lambda>_. None),
     lm_cells = (\<lambda>_. new_cell), lm_cell_count = 0,
     lm_fetches = (\<lambda>_. \<lparr>ft_peer = [], ft_cell = 0, ft_phase = Finished, ft_woke = False\<rparr>), lm_fetch_count = 0,
     lm_snapshot_drops = 0, lm_event_drops = 0\<rparr>"

datatype lane_kind = SnapshotLane | EventLane

definition record_queue_drop :: "lane_kind \<Rightarrow> limiter \<Rightarrow> u64 \<times> limiter" where
  "record_queue_drop l s =
    (case l of
       SnapshotLane \<Rightarrow> (lm_snapshot_drops s + 1, s\<lparr>lm_snapshot_drops := lm_snapshot_drops s + 1\<rparr>)
     | EventLane \<Rightarrow> (lm_event_drops s + 1, s\<lparr>lm_event_drops := lm_event_drops s + 1\<rparr>))"

section \<open>Operations\<close>

definition try_admit_snapshot :: "string \<Rightarrow> limiter \<Rightarrow> bool \<times> limiter" where
  "try_admit_snapshot peer s =
    (let (e, s1) = (case lm_peers s peer of
           Some e \<Rightarrow> (e, s)
         | None \<Rightarrow> let e = \<lparr>pl_cell = lm_cell_count s, pl_pending = 0\<rparr> in
             (e, s\<lparr>lm_cells := (lm_cells s)(lm_cell_count s := new_cell), lm_cell_count := lm_cell_count s + 1,
                  lm_peers := (lm_peers s)(peer := Some e)\<rparr>))
     in if MAX_PENDING_SNAPSHOT_FETCHES_PER_PEER \<le> pl_pending e then (False, s1)
        else (True, s1\<lparr>lm_peers := (lm_peers s1)(peer := Some (e\<lparr>pl_pending := pl_pending e + 1\<rparr>)),
          lm_fetches := (lm_fetches s1)(lm_fetch_count s1 :=
            \<lparr>ft_peer = peer, ft_cell = pl_cell e, ft_phase = TryPeer, ft_woke = False\<rparr>),
          lm_fetch_count := lm_fetch_count s1 + 1\<rparr>))"

definition set_fetch :: "nat \<Rightarrow> (fetch \<Rightarrow> fetch) \<Rightarrow> limiter \<Rightarrow> limiter" where
  "set_fetch i f s = s\<lparr>lm_fetches := (lm_fetches s)(i := f (lm_fetches s i))\<rparr>"

definition set_cell :: "nat \<Rightarrow> (cell \<Rightarrow> cell) \<Rightarrow> limiter \<Rightarrow> limiter" where
  "set_cell c f s = s\<lparr>lm_cells := (lm_cells s)(c := f (lm_cells s c))\<rparr>"

text \<open>\<open>notify_one\<close> on the notifier of a peer and on the global one.\<close>

definition notify_peer :: "nat \<Rightarrow> limiter \<Rightarrow> limiter" where
  "notify_peer c s =
    (case nf_waiters (cl_notify (lm_cells s c)) of
       [] \<Rightarrow> set_cell c (\<lambda>x. x\<lparr>cl_notify := (cl_notify x)\<lparr>nf_permit := True\<rparr>\<rparr>) s
     | w # ws \<Rightarrow> set_fetch w (\<lambda>f. f\<lparr>ft_phase := TryPeer\<rparr>)
         (set_cell c (\<lambda>x. x\<lparr>cl_notify := (cl_notify x)\<lparr>nf_waiters := ws\<rparr>\<rparr>) s))"

definition notify_global :: "limiter \<Rightarrow> limiter" where
  "notify_global s =
    (case nf_waiters (lm_global_notify s) of
       [] \<Rightarrow> s\<lparr>lm_global_notify := (lm_global_notify s)\<lparr>nf_permit := True\<rparr>\<rparr>
     | w # ws \<Rightarrow> set_fetch w (\<lambda>f. f\<lparr>ft_phase := TryPeer, ft_woke := True\<rparr>)
         (s\<lparr>lm_global_notify := (lm_global_notify s)\<lparr>nf_waiters := ws\<rparr>\<rparr>))"

text \<open>\<open>Drop\<close> of an admission: the last one of a peer removes its entry.\<close>

definition drop_admission :: "string \<Rightarrow> limiter \<Rightarrow> limiter" where
  "drop_admission peer s =
    (case lm_peers s peer of
       None \<Rightarrow> s
     | Some e \<Rightarrow> s\<lparr>lm_peers := (lm_peers s)(peer :=
         (if pl_pending e - 1 = 0 then None else Some (e\<lparr>pl_pending := pl_pending e - 1\<rparr>)))\<rparr>)"

text \<open>The next action of a fetch; \<open>None\<close> while it waits for a wake-up or when it has ended.\<close>

definition fetch_step :: "nat \<Rightarrow> limiter \<Rightarrow> limiter option" where
  "fetch_step i s =
    (let f = lm_fetches s i; c = ft_cell f; x = lm_cells s c; goto = (\<lambda>p. set_fetch i (\<lambda>f. f\<lparr>ft_phase := p\<rparr>)) in
     case ft_phase f of
       TryPeer \<Rightarrow> Some (if cl_free x then goto TryGlobal (set_cell c (\<lambda>x. x\<lparr>cl_free := False\<rparr>) s)
                        else if ft_woke f then goto PassWake s else goto AwaitPeer s)
     | PassWake \<Rightarrow> Some (set_fetch i (\<lambda>f. f\<lparr>ft_phase := AwaitPeer, ft_woke := False\<rparr>) (notify_global s))
     | AwaitPeer \<Rightarrow> Some (if nf_permit (cl_notify x)
                         then goto TryPeer (set_cell c (\<lambda>x. x\<lparr>cl_notify := (cl_notify x)\<lparr>nf_permit := False\<rparr>\<rparr>) s)
                         else goto PeerWait (set_cell c (\<lambda>x. x\<lparr>cl_notify := (cl_notify x)
                           \<lparr>nf_waiters := nf_waiters (cl_notify x) @ [i]\<rparr>\<rparr>) s))
     | PeerWait \<Rightarrow> None
     | TryGlobal \<Rightarrow> Some (if 0 < lm_global s then goto Working (s\<lparr>lm_global := lm_global s - 1\<rparr>) else goto DropPeer s)
     | DropPeer \<Rightarrow> Some (goto NotifyPeer (set_cell c (\<lambda>x. x\<lparr>cl_free := True\<rparr>) s))
     | NotifyPeer \<Rightarrow> Some (goto AwaitGlobal (notify_peer c s))
     | AwaitGlobal \<Rightarrow> Some (if nf_permit (lm_global_notify s)
                           then set_fetch i (\<lambda>f. f\<lparr>ft_phase := TryPeer, ft_woke := True\<rparr>)
                             (s\<lparr>lm_global_notify := (lm_global_notify s)\<lparr>nf_permit := False\<rparr>\<rparr>)
                           else goto GlobalWait (s\<lparr>lm_global_notify := (lm_global_notify s)
                             \<lparr>nf_waiters := nf_waiters (lm_global_notify s) @ [i]\<rparr>\<rparr>))
     | GlobalWait \<Rightarrow> None
     | Working \<Rightarrow> Some (goto PeerFreed (set_cell c (\<lambda>x. x\<lparr>cl_free := True\<rparr>) s))
     | PeerFreed \<Rightarrow> Some (goto PeerNotified (notify_peer c s))
     | PeerNotified \<Rightarrow> Some (goto GlobalFreed (s\<lparr>lm_global := lm_global s + 1\<rparr>))
     | GlobalFreed \<Rightarrow> Some (goto Leaving (notify_global s))
     | Leaving \<Rightarrow> Some (goto Finished (drop_admission (ft_peer f) s))
     | Finished \<Rightarrow> None)"

inductive limiter_step :: "limiter \<Rightarrow> limiter \<Rightarrow> bool" where
  admit: "try_admit_snapshot peer s = (b, s') \<Longrightarrow> limiter_step s s'"
| fetch: "i < lm_fetch_count s \<Longrightarrow> fetch_step i s = Some s' \<Longrightarrow> limiter_step s s'"

inductive reachable :: "limiter \<Rightarrow> bool" where
  start: "reachable new_limiter"
| step: "reachable s \<Longrightarrow> limiter_step s s' \<Longrightarrow> reachable s'"

section \<open>Invariants\<close>

abbreviation waiters :: "limiter \<Rightarrow> nat \<Rightarrow> nat list" where
  "waiters s c \<equiv> nf_waiters (cl_notify (lm_cells s c))"

abbreviation stored :: "limiter \<Rightarrow> nat \<Rightarrow> bool" where
  "stored s c \<equiv> nf_permit (cl_notify (lm_cells s c))"

abbreviation phase_of :: "limiter \<Rightarrow> nat \<Rightarrow> phase" where
  "phase_of s i \<equiv> ft_phase (lm_fetches s i)"

abbreviation cell_of :: "limiter \<Rightarrow> nat \<Rightarrow> nat" where
  "cell_of s i \<equiv> ft_cell (lm_fetches s i)"

lemma store_simps [simp]:
  "lm_fetches (set_cell c g s) = lm_fetches s" "lm_global_notify (set_cell c g s) = lm_global_notify s"
  "lm_cells (set_fetch i h s) = lm_cells s" "lm_global_notify (set_fetch i h s) = lm_global_notify s"
  "lm_fetches (set_fetch i h s) = (lm_fetches s)(i := h (lm_fetches s i))"
  "lm_cells (set_cell c g s) = (lm_cells s)(c := g (lm_cells s c))"
  "lm_global (set_fetch i h s) = lm_global s" "lm_global (set_cell c g s) = lm_global s"
  "lm_peers (set_fetch i h s) = lm_peers s" "lm_peers (set_cell c g s) = lm_peers s"
  "lm_fetch_count (set_fetch i h s) = lm_fetch_count s" "lm_fetch_count (set_cell c g s) = lm_fetch_count s"
  "lm_cell_count (set_fetch i h s) = lm_cell_count s" "lm_cell_count (set_cell c g s) = lm_cell_count s"
  by (simp_all add: set_fetch_def set_cell_def)

text \<open>The waiting list of a notifier holds exactly the fetches that wait on it, each once.\<close>

definition peer_waits :: "limiter \<Rightarrow> bool" where
  "peer_waits s \<longleftrightarrow> (\<forall>c. distinct (waiters s c) \<and> (stored s c \<longrightarrow> waiters s c = [])
     \<and> (\<forall>i. i \<in> set (waiters s c) \<longleftrightarrow> i < lm_fetch_count s \<and> phase_of s i = PeerWait \<and> cell_of s i = c))"

definition global_waits :: "limiter \<Rightarrow> bool" where
  "global_waits s \<longleftrightarrow> distinct (nf_waiters (lm_global_notify s))
     \<and> (nf_permit (lm_global_notify s) \<longrightarrow> nf_waiters (lm_global_notify s) = [])
     \<and> (\<forall>i. i \<in> set (nf_waiters (lm_global_notify s)) \<longleftrightarrow> i < lm_fetch_count s \<and> phase_of s i = GlobalWait)"

lemma peer_waitsD:
  assumes "peer_waits s"
  shows "distinct (waiters s c)" "stored s c \<Longrightarrow> waiters s c = []"
    "i \<in> set (waiters s c) \<longleftrightarrow> i < lm_fetch_count s \<and> phase_of s i = PeerWait \<and> cell_of s i = c"
  using assms unfolding peer_waits_def by blast+

lemma global_waitsD:
  assumes "global_waits s"
  shows "distinct (nf_waiters (lm_global_notify s))" "nf_permit (lm_global_notify s) \<Longrightarrow> nf_waiters (lm_global_notify s) = []"
    "i \<in> set (nf_waiters (lm_global_notify s)) \<longleftrightarrow> i < lm_fetch_count s \<and> phase_of s i = GlobalWait"
  using assms unfolding global_waits_def by blast+

lemma notify_peer_cases:
  assumes "peer_waits s"
  obtains (stored) "waiters s c = []"
      "notify_peer c s = set_cell c (\<lambda>x. x\<lparr>cl_notify := (cl_notify x)\<lparr>nf_permit := True\<rparr>\<rparr>) s"
    | (woken) w ws where "waiters s c = w # ws" "w < lm_fetch_count s" "phase_of s w = PeerWait" "cell_of s w = c" "\<not> stored s c"
      "notify_peer c s = set_fetch w (\<lambda>f. f\<lparr>ft_phase := TryPeer\<rparr>)
         (set_cell c (\<lambda>x. x\<lparr>cl_notify := (cl_notify x)\<lparr>nf_waiters := ws\<rparr>\<rparr>) s)"
proof (cases "waiters s c")
  case Nil
  then show thesis using stored by (simp add: notify_peer_def)
next
  case (Cons w ws)
  with peer_waitsD(3) [OF assms, of w c] peer_waitsD(2) [OF assms, of c] woken [of w ws] show thesis
    by (auto simp: notify_peer_def)
qed

lemma notify_global_cases:
  assumes "global_waits s"
  obtains (stored) "nf_waiters (lm_global_notify s) = []"
      "notify_global s = s\<lparr>lm_global_notify := (lm_global_notify s)\<lparr>nf_permit := True\<rparr>\<rparr>"
    | (woken) w ws where "nf_waiters (lm_global_notify s) = w # ws" "w < lm_fetch_count s" "phase_of s w = GlobalWait"
      "\<not> nf_permit (lm_global_notify s)"
      "notify_global s = set_fetch w (\<lambda>f. f\<lparr>ft_phase := TryPeer, ft_woke := True\<rparr>)
         (s\<lparr>lm_global_notify := (lm_global_notify s)\<lparr>nf_waiters := ws\<rparr>\<rparr>)"
proof (cases "nf_waiters (lm_global_notify s)")
  case Nil
  then show thesis using stored by (simp add: notify_global_def)
next
  case (Cons w ws)
  with global_waitsD(3) [OF assms, of w] global_waitsD(2) [OF assms] woken [of w ws] show thesis
    by (auto simp: notify_global_def)
qed

lemma notify_peer_waits: "peer_waits s \<Longrightarrow> peer_waits (notify_peer c s)"
proof (rule notify_peer_cases [of s c], assumption)
  assume pw: "peer_waits s" and "waiters s c = []"
    "notify_peer c s = set_cell c (\<lambda>x. x\<lparr>cl_notify := (cl_notify x)\<lparr>nf_permit := True\<rparr>\<rparr>) s"
  moreover from this have "\<not> (i < lm_fetch_count s \<and> phase_of s i = PeerWait \<and> cell_of s i = c)" for i
    using peer_waitsD(3) [OF pw, of i c] by simp
  ultimately show ?thesis unfolding peer_waits_def by (auto simp: peer_waitsD [OF pw])
next
  fix w ws
  assume pw: "peer_waits s" and w: "waiters s c = w # ws" "w < lm_fetch_count s" "phase_of s w = PeerWait" "cell_of s w = c" "\<not> stored s c"
    "notify_peer c s = set_fetch w (\<lambda>f. f\<lparr>ft_phase := TryPeer\<rparr>)
         (set_cell c (\<lambda>x. x\<lparr>cl_notify := (cl_notify x)\<lparr>nf_waiters := ws\<rparr>\<rparr>) s)"
  have ws: "i \<in> set ws \<longleftrightarrow> i \<noteq> w \<and> i < lm_fetch_count s \<and> phase_of s i = PeerWait \<and> cell_of s i = c" for i
    using peer_waitsD(1) [OF pw, of c] peer_waitsD(3) [OF pw, of i c] w(1) by auto
  show ?thesis unfolding peer_waits_def
    using peer_waitsD(1) [OF pw, of c] w by (auto simp: peer_waitsD [OF pw] ws)
qed

lemma notify_global_waits: "global_waits s \<Longrightarrow> global_waits (notify_global s)"
proof (rule notify_global_cases [of s], assumption)
  assume gw: "global_waits s" and e: "nf_waiters (lm_global_notify s) = []"
    "notify_global s = s\<lparr>lm_global_notify := (lm_global_notify s)\<lparr>nf_permit := True\<rparr>\<rparr>"
  from e(1) have "\<not> (i < lm_fetch_count s \<and> phase_of s i = GlobalWait)" for i
    using global_waitsD(3) [OF gw, of i] by simp
  then show ?thesis unfolding e(2) global_waits_def using e(1) by auto
next
  fix w ws
  assume gw: "global_waits s" and w: "nf_waiters (lm_global_notify s) = w # ws" "w < lm_fetch_count s" "phase_of s w = GlobalWait"
      "\<not> nf_permit (lm_global_notify s)"
    and eq: "notify_global s = set_fetch w (\<lambda>f. f\<lparr>ft_phase := TryPeer, ft_woke := True\<rparr>)
         (s\<lparr>lm_global_notify := (lm_global_notify s)\<lparr>nf_waiters := ws\<rparr>\<rparr>)"
  have ws: "i \<in> set ws \<longleftrightarrow> i \<noteq> w \<and> i < lm_fetch_count s \<and> phase_of s i = GlobalWait" for i
    using global_waitsD(1) [OF gw] global_waitsD(3) [OF gw, of i] w(1) by auto
  show ?thesis unfolding eq global_waits_def using global_waitsD(1) [OF gw] w by (auto simp: ws)
qed

lemma cross_waits:
  "global_waits s \<Longrightarrow> peer_waits s \<Longrightarrow> global_waits (notify_peer c s)"
  "global_waits s \<Longrightarrow> peer_waits s \<Longrightarrow> peer_waits (notify_global s)"
proof -
  assume gw: "global_waits s" and pw: "peer_waits s"
  show "global_waits (notify_peer c s)"
    by (rule notify_peer_cases [OF pw, of c]) (use gw in \<open>auto simp: global_waits_def\<close>)
  show "peer_waits (notify_global s)"
    by (rule notify_global_cases [OF gw]) (use pw in \<open>auto simp: peer_waits_def\<close>)
qed

lemma notify_other:
  assumes "peer_waits s" and "global_waits s" and "phase_of s i \<noteq> PeerWait" and "phase_of s i \<noteq> GlobalWait"
  shows "lm_fetches (notify_peer c s) i = lm_fetches s i" "lm_fetches (notify_global s) i = lm_fetches s i"
proof -
  show "lm_fetches (notify_peer c s) i = lm_fetches s i"
    by (rule notify_peer_cases [OF assms(1), of c]) (use assms(3) in auto)
  show "lm_fetches (notify_global s) i = lm_fetches s i"
    by (rule notify_global_cases [OF assms(2)]) (use assms(4) in auto)
qed

lemma set_fetch_waits:
  assumes "phase_of s i \<notin> {PeerWait, GlobalWait}" and "ft_phase (h (lm_fetches s i)) \<notin> {PeerWait, GlobalWait}"
  shows "peer_waits (set_fetch i h s) = peer_waits s" "global_waits (set_fetch i h s) = global_waits s"
proof -
  have "phase_of (set_fetch i h s) j = PeerWait \<longleftrightarrow> phase_of s j = PeerWait"
    "phase_of (set_fetch i h s) j = GlobalWait \<longleftrightarrow> phase_of s j = GlobalWait"
    "phase_of s j = PeerWait \<Longrightarrow> cell_of (set_fetch i h s) j = cell_of s j" for j using assms by auto
  then show "peer_waits (set_fetch i h s) = peer_waits s" "global_waits (set_fetch i h s) = global_waits s"
    unfolding peer_waits_def global_waits_def by (simp_all add: conj_assoc cong: conj_cong)
qed

lemma enqueue_peer:
  assumes "peer_waits s" "global_waits s" "i < lm_fetch_count s" "phase_of s i \<notin> {PeerWait, GlobalWait}" "cell_of s i = c" "\<not> stored s c"
  shows "peer_waits (set_fetch i (\<lambda>f. f\<lparr>ft_phase := PeerWait\<rparr>) (set_cell c (\<lambda>x. x\<lparr>cl_notify := (cl_notify x)
      \<lparr>nf_waiters := nf_waiters (cl_notify x) @ [i]\<rparr>\<rparr>) s))" (is "peer_waits ?t")
    and "global_waits (set_fetch i (\<lambda>f. f\<lparr>ft_phase := PeerWait\<rparr>) (set_cell c (\<lambda>x. x\<lparr>cl_notify := (cl_notify x)
      \<lparr>nf_waiters := nf_waiters (cl_notify x) @ [i]\<rparr>\<rparr>) s))"
  using assms by (auto simp: peer_waits_def global_waits_def)

lemma enqueue_global:
  assumes "peer_waits s" "global_waits s" "i < lm_fetch_count s" "phase_of s i \<notin> {PeerWait, GlobalWait}" "\<not> nf_permit (lm_global_notify s)"
  shows "peer_waits (set_fetch i (\<lambda>f. f\<lparr>ft_phase := GlobalWait\<rparr>) (s\<lparr>lm_global_notify := (lm_global_notify s)
      \<lparr>nf_waiters := nf_waiters (lm_global_notify s) @ [i]\<rparr>\<rparr>))"
    and "global_waits (set_fetch i (\<lambda>f. f\<lparr>ft_phase := GlobalWait\<rparr>) (s\<lparr>lm_global_notify := (lm_global_notify s)
      \<lparr>nf_waiters := nf_waiters (lm_global_notify s) @ [i]\<rparr>\<rparr>))"
  using assms by (auto simp: peer_waits_def global_waits_def)

lemma field_waits:
  "peer_waits (s\<lparr>lm_global := n\<rparr>) = peer_waits s" "global_waits (s\<lparr>lm_global := n\<rparr>) = global_waits s"
  "peer_waits (s\<lparr>lm_global_notify := g\<rparr>) = peer_waits s"
  "peer_waits (set_cell c (\<lambda>x. x\<lparr>cl_free := b\<rparr>) s) = peer_waits s"
  "global_waits (set_cell c k s) = global_waits s"
  "peer_waits (drop_admission p s) = peer_waits s" "global_waits (drop_admission p s) = global_waits s"
  by (auto simp: peer_waits_def global_waits_def drop_admission_def split: option.splits)

lemma consume_waits:
  "peer_waits s \<Longrightarrow> peer_waits (set_cell c (\<lambda>x. x\<lparr>cl_notify := (cl_notify x)\<lparr>nf_permit := False\<rparr>\<rparr>) s)"
  "global_waits s \<Longrightarrow> global_waits (s\<lparr>lm_global_notify := (lm_global_notify s)\<lparr>nf_permit := False\<rparr>\<rparr>)"
  by (auto simp: peer_waits_def global_waits_def)

lemma drop_admission_simps [simp]:
  "lm_fetches (drop_admission p s) = lm_fetches s" "lm_cells (drop_admission p s) = lm_cells s"
  "lm_global (drop_admission p s) = lm_global s" "lm_global_notify (drop_admission p s) = lm_global_notify s"
  "lm_fetch_count (drop_admission p s) = lm_fetch_count s" "lm_cell_count (drop_admission p s) = lm_cell_count s"
  by (auto simp: drop_admission_def split: option.splits)

lemma fetch_step_waits:
  assumes pw: "peer_waits s" and gw: "global_waits s" and i: "i < lm_fetch_count s" and st: "fetch_step i s = Some s'"
  shows "peer_waits s' \<and> global_waits s'"
proof -
  have pre: "phase_of s i \<notin> {PeerWait, GlobalWait}" using st by (auto simp: fetch_step_def Let_def)
  have other: "lm_fetches (notify_peer c s) i = lm_fetches s i" "lm_fetches (notify_global s) i = lm_fetches s i" for c
    using notify_other [OF pw gw] pre by auto
  note rules = set_fetch_waits field_waits consume_waits(1) [OF pw] consume_waits(2) [OF gw]
    enqueue_peer [OF pw gw i pre] enqueue_global [OF pw gw i pre]
    notify_peer_waits [OF pw] notify_global_waits [OF gw] cross_waits [OF gw pw] other
  show ?thesis
    using st pre pw gw unfolding fetch_step_def Let_def
    by (cases "phase_of s i") (auto simp: rules split: if_splits)
qed

section \<open>Permits\<close>

definition holds_peer :: "limiter \<Rightarrow> nat \<Rightarrow> bool" where
  "holds_peer s i \<longleftrightarrow> i < lm_fetch_count s \<and> phase_of s i \<in> {TryGlobal, DropPeer, Working}"

definition global_holders :: "limiter \<Rightarrow> nat set" where
  "global_holders s = {i. i < lm_fetch_count s \<and> phase_of s i \<in> {Working, PeerFreed, PeerNotified}}"

definition permits_ok :: "limiter \<Rightarrow> bool" where
  "permits_ok s \<longleftrightarrow> (\<forall>i j. holds_peer s i \<longrightarrow> holds_peer s j \<longrightarrow> cell_of s i = cell_of s j \<longrightarrow> i = j)
     \<and> (\<forall>i. holds_peer s i \<longrightarrow> \<not> cl_free (lm_cells s (cell_of s i)))
     \<and> (\<forall>i<lm_fetch_count s. \<not> cl_free (lm_cells s (cell_of s i)) \<longrightarrow> (\<exists>j. holds_peer s j \<and> cell_of s j = cell_of s i))"

definition global_ok :: "limiter \<Rightarrow> bool" where
  "global_ok s \<longleftrightarrow> lm_global s + card (global_holders s) = SNAPSHOT_WORKER_COUNT"

text \<open>What \<open>notify_one\<close> does to the rest of the state: a waiting fetch may be sent back to its first step.\<close>

definition same_but_woken :: "limiter \<Rightarrow> limiter \<Rightarrow> bool" where
  "same_but_woken s t \<longleftrightarrow> lm_fetch_count t = lm_fetch_count s \<and> lm_cell_count t = lm_cell_count s \<and> lm_global t = lm_global s
     \<and> lm_peers t = lm_peers s \<and> (\<forall>c. cl_free (lm_cells t c) = cl_free (lm_cells s c))
     \<and> (\<forall>i. ft_peer (lm_fetches t i) = ft_peer (lm_fetches s i) \<and> cell_of t i = cell_of s i
          \<and> (phase_of t i = phase_of s i \<and> ft_woke (lm_fetches t i) = ft_woke (lm_fetches s i)
             \<or> phase_of s i \<in> {PeerWait, GlobalWait} \<and> phase_of t i = TryPeer))"

lemma notify_same:
  assumes "peer_waits s" and "global_waits s"
  shows "same_but_woken s (notify_peer c s)" "same_but_woken s (notify_global s)"
proof -
  show "same_but_woken s (notify_peer c s)"
    by (rule notify_peer_cases [OF assms(1), of c]) (auto simp: same_but_woken_def)
  show "same_but_woken s (notify_global s)"
    by (rule notify_global_cases [OF assms(2)]) (auto simp: same_but_woken_def)
qed

lemma woken_permits:
  assumes "same_but_woken s t"
  shows "holds_peer t i = holds_peer s i" "global_holders t = global_holders s" "permits_ok t = permits_ok s" "global_ok t = global_ok s"
proof -
  have ph: "phase_of t i \<in> P \<longleftrightarrow> phase_of s i \<in> P" if "PeerWait \<notin> P" "GlobalWait \<notin> P" "TryPeer \<notin> P" for i P
  proof -
    have "phase_of t i = phase_of s i \<or> phase_of s i \<in> {PeerWait, GlobalWait} \<and> phase_of t i = TryPeer"
      using assms unfolding same_but_woken_def by blast
    then show ?thesis using that by auto
  qed
  show h: "holds_peer t i = holds_peer s i" for i
    using assms ph [of "{TryGlobal, DropPeer, Working}" i] by (simp add: holds_peer_def same_but_woken_def)
  show g: "global_holders t = global_holders s"
    using assms ph [of "{Working, PeerFreed, PeerNotified}"] by (simp add: global_holders_def same_but_woken_def)
  show "permits_ok t = permits_ok s" "global_ok t = global_ok s"
    using assms h g by (simp_all add: permits_ok_def global_ok_def same_but_woken_def)
qed

lemma set_fetch_permits:
  assumes "ft_cell (h (lm_fetches s i)) = cell_of s i"
    and "phase_of s i \<in> {TryGlobal, DropPeer, Working} \<longleftrightarrow> ft_phase (h (lm_fetches s i)) \<in> {TryGlobal, DropPeer, Working}"
  shows "permits_ok (set_fetch i h s) = permits_ok s"
proof -
  have "holds_peer (set_fetch i h s) j = holds_peer s j" "cell_of (set_fetch i h s) j = cell_of s j" for j
    using assms by (auto simp: holds_peer_def)
  then show ?thesis by (simp add: permits_ok_def)
qed

lemma set_fetch_global:
  assumes "phase_of s i \<in> {Working, PeerFreed, PeerNotified} \<longleftrightarrow> ft_phase (h (lm_fetches s i)) \<in> {Working, PeerFreed, PeerNotified}"
  shows "global_ok (set_fetch i h s) = global_ok s"
proof -
  have "global_holders (set_fetch i h s) = global_holders s" using assms by (auto simp: global_holders_def)
  then show ?thesis by (simp add: global_ok_def)
qed

lemma permits_fields:
  "permits_ok (s\<lparr>lm_global := n\<rparr>) = permits_ok s" "permits_ok (s\<lparr>lm_global_notify := g\<rparr>) = permits_ok s"
  "global_ok (s\<lparr>lm_global_notify := g\<rparr>) = global_ok s" "global_ok (set_cell c k s) = global_ok s"
  "permits_ok (set_cell c (\<lambda>x. x\<lparr>cl_notify := nf x\<rparr>) s) = permits_ok s"
  "permits_ok (drop_admission p s) = permits_ok s" "global_ok (drop_admission p s) = global_ok s"
  by (auto simp: permits_ok_def global_ok_def holds_peer_def global_holders_def)

lemma take_peer:
  assumes "permits_ok s" "i < lm_fetch_count s" "cl_free (lm_cells s (cell_of s i))"
  shows "permits_ok (set_fetch i (\<lambda>f. f\<lparr>ft_phase := TryGlobal\<rparr>) (set_cell (cell_of s i) (\<lambda>x. x\<lparr>cl_free := False\<rparr>) s))"
    (is "permits_ok ?t")
proof -
  have h: "holds_peer ?t j \<longleftrightarrow> holds_peer s j \<or> j = i" for j using assms(2) by (auto simp: holds_peer_def)
  have free: "holds_peer s j \<Longrightarrow> cell_of s j \<noteq> cell_of s i" for j using assms(1,3) unfolding permits_ok_def by metis
  have c: "cell_of ?t j = cell_of s j" "lm_fetch_count ?t = lm_fetch_count s" for j by simp_all
  have f: "cl_free (lm_cells ?t d) \<longleftrightarrow> d \<noteq> cell_of s i \<and> cl_free (lm_cells s d)" for d by simp
  show ?thesis unfolding permits_ok_def h c f using assms(1) free unfolding permits_ok_def by (auto; metis)
qed

lemma give_peer:
  assumes "permits_ok s" "i < lm_fetch_count s" "phase_of s i \<in> {TryGlobal, DropPeer, Working}" "p \<notin> {TryGlobal, DropPeer, Working}"
  shows "permits_ok (set_fetch i (\<lambda>f. f\<lparr>ft_phase := p\<rparr>) (set_cell (cell_of s i) (\<lambda>x. x\<lparr>cl_free := True\<rparr>) s))" (is "permits_ok ?t")
proof -
  have hi: "holds_peer s i" using assms(2,3) by (simp add: holds_peer_def)
  have h: "holds_peer ?t j \<longleftrightarrow> holds_peer s j \<and> j \<noteq> i" for j using assms(4) by (auto simp: holds_peer_def)
  have one: "cell_of s j = cell_of s i \<Longrightarrow> holds_peer s j \<Longrightarrow> j = i" for j
    using assms(1) hi unfolding permits_ok_def by blast
  have c: "cell_of ?t j = cell_of s j" for j by simp
  have f: "cl_free (lm_cells ?t d) \<longleftrightarrow> d = cell_of s i \<or> cl_free (lm_cells s d)" for d by simp
  show ?thesis unfolding permits_ok_def h c f using assms(1) one unfolding permits_ok_def by (auto; metis)
qed

lemma global_take:
  assumes "global_ok s" "i < lm_fetch_count s" "phase_of s i = TryGlobal" "0 < lm_global s"
  shows "global_ok (set_fetch i (\<lambda>f. f\<lparr>ft_phase := Working\<rparr>) (s\<lparr>lm_global := lm_global s - 1\<rparr>))"
proof -
  have "global_holders (set_fetch i (\<lambda>f. f\<lparr>ft_phase := Working\<rparr>) (s\<lparr>lm_global := lm_global s - 1\<rparr>)) = insert i (global_holders s)"
    using assms(2) by (auto simp: global_holders_def)
  moreover have "i \<notin> global_holders s" "finite (global_holders s)" using assms(3) by (simp_all add: global_holders_def)
  ultimately show ?thesis using assms(1,4) by (simp add: global_ok_def)
qed

lemma global_give:
  assumes "global_ok s" "i < lm_fetch_count s" "phase_of s i = PeerNotified"
  shows "global_ok (set_fetch i (\<lambda>f. f\<lparr>ft_phase := GlobalFreed\<rparr>) (s\<lparr>lm_global := Suc (lm_global s)\<rparr>))"
proof -
  have "global_holders (set_fetch i (\<lambda>f. f\<lparr>ft_phase := GlobalFreed\<rparr>) (s\<lparr>lm_global := Suc (lm_global s)\<rparr>)) = global_holders s - {i}"
    by (auto simp: global_holders_def)
  moreover have "i \<in> global_holders s" "finite (global_holders s)" using assms(2,3) by (simp_all add: global_holders_def)
  ultimately show ?thesis using assms(1) card_Suc_Diff1 [of "global_holders s" i] by (simp add: global_ok_def)
qed

lemma fetch_step_permits:
  assumes pw: "peer_waits s" and gw: "global_waits s" and ok: "permits_ok s" "global_ok s"
    and i: "i < lm_fetch_count s" and st: "fetch_step i s = Some s'"
  shows "permits_ok s' \<and> global_ok s'"
proof -
  have pre: "phase_of s i \<noteq> PeerWait" "phase_of s i \<noteq> GlobalWait" using st by (auto simp: fetch_step_def Let_def)
  note other = notify_other [OF pw gw pre]
  note same = woken_permits(3,4) [OF notify_same(1) [OF pw gw]] woken_permits(3,4) [OF notify_same(2) [OF pw gw]]
  note rules = set_fetch_permits set_fetch_global permits_fields take_peer [OF ok(1) i] give_peer [OF ok(1) i]
    global_take [OF ok(2) i, unfolded One_nat_def] global_give [OF ok(2) i] other same
  show ?thesis
    using st ok unfolding fetch_step_def Let_def
    by (cases "phase_of s i") (auto simp: rules split: if_splits)
qed

section \<open>The peer table\<close>

definition live :: "string \<Rightarrow> limiter \<Rightarrow> nat set" where
  "live p s = {i. i < lm_fetch_count s \<and> ft_peer (lm_fetches s i) = p \<and> phase_of s i \<noteq> Finished}"

definition peers_ok :: "limiter \<Rightarrow> bool" where
  "peers_ok s \<longleftrightarrow> (\<forall>i<lm_fetch_count s. cell_of s i < lm_cell_count s)
     \<and> (\<forall>p. case lm_peers s p of
          None \<Rightarrow> live p s = {}
        | Some e \<Rightarrow> pl_pending e = card (live p s) \<and> 0 < pl_pending e \<and> pl_pending e \<le> MAX_PENDING_SNAPSHOT_FETCHES_PER_PEER
            \<and> (\<forall>i\<in>live p s. cell_of s i = pl_cell e) \<and> pl_cell e < lm_cell_count s)"

lemma peers_ok_cong:
  assumes "lm_fetch_count t = lm_fetch_count s" "lm_cell_count t = lm_cell_count s" "lm_peers t = lm_peers s"
    and "\<And>i. cell_of t i = cell_of s i \<and> ft_peer (lm_fetches t i) = ft_peer (lm_fetches s i)
      \<and> (phase_of t i = Finished \<longleftrightarrow> phase_of s i = Finished)"
  shows "peers_ok t = peers_ok s"
proof -
  have "live p t = live p s" for p using assms by (simp add: live_def)
  then show ?thesis using assms by (simp add: peers_ok_def cong: option.case_cong)
qed

lemma peers_fields:
  "peers_ok (s\<lparr>lm_global := n\<rparr>) = peers_ok s" "peers_ok (s\<lparr>lm_global_notify := g\<rparr>) = peers_ok s"
  "peers_ok (set_cell c k s) = peers_ok s"
  "ft_cell (h (lm_fetches s i)) = cell_of s i \<Longrightarrow> ft_peer (h (lm_fetches s i)) = ft_peer (lm_fetches s i) \<Longrightarrow>
   (ft_phase (h (lm_fetches s i)) = Finished \<longleftrightarrow> phase_of s i = Finished) \<Longrightarrow> peers_ok (set_fetch i h s) = peers_ok s"
  by (rule peers_ok_cong; auto)+

lemma finite_live [simp]: "finite (live p s)"
  by (simp add: live_def)

lemma leave_peers:
  assumes ok: "peers_ok s" and i: "i < lm_fetch_count s" "phase_of s i \<noteq> Finished"
  shows "peers_ok (set_fetch i (\<lambda>f. f\<lparr>ft_phase := Finished\<rparr>) (drop_admission (ft_peer (lm_fetches s i)) s))" (is "peers_ok ?t")
proof -
  let ?p = "ft_peer (lm_fetches s i)"
  have mem: "i \<in> live ?p s" using i by (simp add: live_def)
  have lv: "live p ?t = (if p = ?p then live ?p s - {i} else live p s)" for p by (auto simp: live_def)
  have card: "card (live ?p s) - 1 = card (live ?p s - {i})" using mem by simp
  from ok mem obtain e where e: "lm_peers s ?p = Some e" "pl_pending e = card (live ?p s)" "pl_pending e \<le> MAX_PENDING_SNAPSHOT_FETCHES_PER_PEER"
    "\<forall>j\<in>live ?p s. cell_of s j = pl_cell e" "pl_cell e < lm_cell_count s"
    by (auto simp: peers_ok_def split: option.splits) (metis empty_iff not_None_eq)
  have pt: "lm_peers ?t p = (if p = ?p then (if card (live ?p s - {i}) = 0 then None
      else Some (e\<lparr>pl_pending := card (live ?p s - {i})\<rparr>)) else lm_peers s p)" for p
    using e(1,2) card by (simp add: drop_admission_def)
  have "case lm_peers ?t p of
          None \<Rightarrow> live p ?t = {}
        | Some e \<Rightarrow> pl_pending e = card (live p ?t) \<and> 0 < pl_pending e \<and> pl_pending e \<le> MAX_PENDING_SNAPSHOT_FETCHES_PER_PEER
            \<and> (\<forall>i\<in>live p ?t. cell_of ?t i = pl_cell e) \<and> pl_cell e < lm_cell_count ?t" for p
  proof (cases "p = ?p")
    case True
    then show ?thesis unfolding pt lv using e card by (auto simp: card_gt_0_iff split: option.splits)
  next
    case False
    have "case lm_peers s p of
          None \<Rightarrow> live p s = {}
        | Some e \<Rightarrow> pl_pending e = card (live p s) \<and> 0 < pl_pending e \<and> pl_pending e \<le> MAX_PENDING_SNAPSHOT_FETCHES_PER_PEER
            \<and> (\<forall>i\<in>live p s. cell_of s i = pl_cell e) \<and> pl_cell e < lm_cell_count s"
      using ok unfolding peers_ok_def by blast
    with False show ?thesis unfolding pt lv by (auto split: option.splits)
  qed
  moreover have "\<forall>i<lm_fetch_count ?t. cell_of ?t i < lm_cell_count ?t" using ok by (simp add: peers_ok_def)
  ultimately show ?thesis unfolding peers_ok_def by blast
qed

lemma fetch_step_peers:
  assumes pw: "peer_waits s" and gw: "global_waits s" and ok: "peers_ok s"
    and i: "i < lm_fetch_count s" and st: "fetch_step i s = Some s'"
  shows "peers_ok s'"
proof (cases "phase_of s i = Leaving")
  case True
  then show ?thesis using st leave_peers [OF ok i] by (simp add: fetch_step_def Let_def)
next
  case False
  have pre: "phase_of s i \<noteq> PeerWait" "phase_of s i \<noteq> GlobalWait" using st by (auto simp: fetch_step_def Let_def)
  note other = notify_other [OF pw gw pre]
  have np: "peers_ok (notify_peer c s)" "peers_ok (notify_global s)" for c
    using notify_same [OF pw gw] ok peers_ok_cong [of "notify_peer c s" s] peers_ok_cong [of "notify_global s" s]
    unfolding same_but_woken_def by (metis phase.distinct insertE singletonD)+
  show ?thesis
    using st False ok np other unfolding fetch_step_def Let_def
    by (cases "phase_of s i") (auto simp: peers_fields split: if_splits)
qed

section \<open>Wake-ups\<close>

text \<open>A fetch that will take or signal the notifier of a peer, and one that will signal the global notifier.\<close>

definition peer_signal :: "nat \<Rightarrow> limiter \<Rightarrow> bool" where
  "peer_signal c s \<longleftrightarrow> stored s c \<or> (\<exists>j<lm_fetch_count s. cell_of s j = c
     \<and> phase_of s j \<in> {TryPeer, TryGlobal, DropPeer, NotifyPeer, Working, PeerFreed})"

definition global_signal :: "limiter \<Rightarrow> bool" where
  "global_signal s \<longleftrightarrow> nf_permit (lm_global_notify s) \<or> (\<exists>j<lm_fetch_count s.
     phase_of s j \<in> {Working, PeerFreed, PeerNotified, GlobalFreed}
     \<or> ft_woke (lm_fetches s j) \<and> phase_of s j \<in> {TryPeer, PassWake, TryGlobal})"

definition wakes_ok :: "limiter \<Rightarrow> bool" where
  "wakes_ok s \<longleftrightarrow> (\<forall>i<lm_fetch_count s. phase_of s i \<in> {PassWake, AwaitPeer, PeerWait} \<longrightarrow> peer_signal (cell_of s i) s)
     \<and> (\<forall>i<lm_fetch_count s. phase_of s i \<in> {DropPeer, NotifyPeer, AwaitGlobal, GlobalWait} \<longrightarrow> global_signal s)"

lemma notify_signal:
  assumes "peer_waits s" and "global_waits s"
  shows "peer_signal c (notify_peer c s)" "global_signal (notify_global s)"
proof -
  show "peer_signal c (notify_peer c s)"
    by (rule notify_peer_cases [OF assms(1), of c]) (auto simp: peer_signal_def)
  show "global_signal (notify_global s)"
    by (rule notify_global_cases [OF assms(2)]) (auto simp: global_signal_def)
qed

lemma notify_keeps_signal:
  assumes "peer_waits s" and "global_waits s"
  shows "peer_signal c s \<Longrightarrow> peer_signal c (notify_peer c' s)" "peer_signal c s \<Longrightarrow> peer_signal c (notify_global s)"
    "global_signal s \<Longrightarrow> global_signal (notify_peer c' s)"
proof -
  have keep: "phase_of t j = phase_of s j \<and> cell_of t j = cell_of s j \<and> ft_woke (lm_fetches t j) = ft_woke (lm_fetches s j)"
    if "same_but_woken s t" "phase_of s j \<notin> {PeerWait, GlobalWait}" for t j
    using that unfolding same_but_woken_def by blast
  have peer: "peer_signal c t" if sb: "same_but_woken s t" and st: "stored s c \<Longrightarrow> stored t c" and ps: "peer_signal c s" for t
  proof (cases "stored s c")
    case False
    then obtain j where j: "j < lm_fetch_count s" "cell_of s j = c"
      "phase_of s j \<in> {TryPeer, TryGlobal, DropPeer, NotifyPeer, Working, PeerFreed}"
      using ps unfolding peer_signal_def by blast
    moreover have "lm_fetch_count t = lm_fetch_count s" using sb by (simp add: same_but_woken_def)
    moreover have "phase_of t j = phase_of s j \<and> cell_of t j = cell_of s j" using keep [OF sb, of j] j(3) by auto
    ultimately show ?thesis unfolding peer_signal_def by (intro disjI2 exI [of _ j]) simp
  qed (use st in \<open>simp add: peer_signal_def\<close>)
  have "stored s c \<Longrightarrow> stored (notify_peer c' s) c"
    by (rule notify_peer_cases [OF assms(1), of c']) auto
  then show "peer_signal c s \<Longrightarrow> peer_signal c (notify_peer c' s)" by (rule peer [OF notify_same(1) [OF assms]])
  have "stored s c \<Longrightarrow> stored (notify_global s) c"
    by (rule notify_global_cases [OF assms(2)]) auto
  then show "peer_signal c s \<Longrightarrow> peer_signal c (notify_global s)" by (rule peer [OF notify_same(2) [OF assms]])
  have g: "lm_global_notify (notify_peer c' s) = lm_global_notify s" "lm_fetch_count (notify_peer c' s) = lm_fetch_count s"
    by (rule notify_peer_cases [OF assms(1), of c']; simp)+
  show "global_signal (notify_peer c' s)" if gs: "global_signal s"
  proof (cases "nf_permit (lm_global_notify s)")
    case False
    then obtain j where j: "j < lm_fetch_count s" "phase_of s j \<in> {Working, PeerFreed, PeerNotified, GlobalFreed}
        \<or> ft_woke (lm_fetches s j) \<and> phase_of s j \<in> {TryPeer, PassWake, TryGlobal}"
      using gs unfolding global_signal_def by blast
    then have "phase_of s j \<notin> {PeerWait, GlobalWait}" by auto
    from keep [OF notify_same(1) [OF assms, of c'] this] j show ?thesis
      unfolding global_signal_def g by (intro disjI2 exI [of _ j]) simp
  qed (simp add: global_signal_def g)
qed

text \<open>A fetch that moves on keeps the signal of another one, and its own unless it gives it up.\<close>

lemma peer_signal_move:
  assumes "peer_signal c s" and "lm_fetch_count t = lm_fetch_count s"
    and "\<And>j. j \<noteq> i \<Longrightarrow> lm_fetches t j = lm_fetches s j" and "cell_of t i = cell_of s i"
    and "stored s c \<Longrightarrow> peer_signal c t"
    and "cell_of s i = c \<Longrightarrow> i < lm_fetch_count s \<Longrightarrow>
      phase_of s i \<in> {TryPeer, TryGlobal, DropPeer, NotifyPeer, Working, PeerFreed} \<Longrightarrow> peer_signal c t"
  shows "peer_signal c t"
proof (cases "stored s c")
  case False
  then obtain j where j: "j < lm_fetch_count s" "cell_of s j = c"
    "phase_of s j \<in> {TryPeer, TryGlobal, DropPeer, NotifyPeer, Working, PeerFreed}"
    using assms(1) unfolding peer_signal_def by blast
  show ?thesis
  proof (cases "j = i")
    case False
    then show ?thesis using j assms(2) assms(3) [OF False] unfolding peer_signal_def by auto
  qed (use j assms(6) in blast)
qed (use assms(5) in blast)

lemma notify_signal_others:
  assumes "peer_waits s" and "global_waits s" and "phase_of s i \<noteq> PeerWait" and "phase_of s i \<noteq> GlobalWait"
    and "\<And>f. ft_cell (h f) = ft_cell f"
  shows "peer_signal c (set_fetch i h (notify_peer c s))" "global_signal (set_fetch i h (notify_global s))"
proof -
  show "peer_signal c (set_fetch i h (notify_peer c s))"
  proof (rule notify_peer_cases [OF assms(1), of c])
    fix w ws
    assume w: "w < lm_fetch_count s" "phase_of s w = PeerWait" "cell_of s w = c"
      "notify_peer c s = set_fetch w (\<lambda>f. f\<lparr>ft_phase := TryPeer\<rparr>)
         (set_cell c (\<lambda>x. x\<lparr>cl_notify := (cl_notify x)\<lparr>nf_waiters := ws\<rparr>\<rparr>) s)"
    then have "w \<noteq> i" using assms(3) by auto
    with w show ?thesis unfolding peer_signal_def w(4) by (intro disjI2 exI [of _ w]) simp
  qed (simp add: peer_signal_def)
  show "global_signal (set_fetch i h (notify_global s))"
  proof (rule notify_global_cases [OF assms(2)])
    fix w ws
    assume w: "w < lm_fetch_count s" "phase_of s w = GlobalWait"
      "notify_global s = set_fetch w (\<lambda>f. f\<lparr>ft_phase := TryPeer, ft_woke := True\<rparr>)
         (s\<lparr>lm_global_notify := (lm_global_notify s)\<lparr>nf_waiters := ws\<rparr>\<rparr>)"
    then have "w \<noteq> i" using assms(4) by auto
    with w show ?thesis unfolding global_signal_def w(3) by (intro disjI2 exI [of _ w]) simp
  qed (simp add: global_signal_def)
qed

text \<open>Moving one fetch, without a notification.\<close>

lemma peer_signal_set:
  assumes "peer_signal c s" and "ft_cell (h (lm_fetches s i)) = cell_of s i"
    and "cell_of s i = c \<Longrightarrow> i < lm_fetch_count s \<Longrightarrow> phase_of s i \<in> {TryPeer, TryGlobal, DropPeer, NotifyPeer, Working, PeerFreed} \<Longrightarrow>
      ft_phase (h (lm_fetches s i)) \<in> {TryPeer, TryGlobal, DropPeer, NotifyPeer, Working, PeerFreed}
      \<or> (\<exists>j<lm_fetch_count s. j \<noteq> i \<and> cell_of s j = c \<and> phase_of s j \<in> {TryPeer, TryGlobal, DropPeer, NotifyPeer, Working, PeerFreed})"
  shows "peer_signal c (set_fetch i h s)"
proof (rule peer_signal_move [OF assms(1), of _ i])
  assume i: "cell_of s i = c" "i < lm_fetch_count s" "phase_of s i \<in> {TryPeer, TryGlobal, DropPeer, NotifyPeer, Working, PeerFreed}"
  from assms(3) [OF i] show "peer_signal c (set_fetch i h s)"
  proof (elim disjE exE conjE)
    fix j assume "j < lm_fetch_count s" "j \<noteq> i" "cell_of s j = c"
      "phase_of s j \<in> {TryPeer, TryGlobal, DropPeer, NotifyPeer, Working, PeerFreed}"
    then show ?thesis unfolding peer_signal_def by (intro disjI2 exI [of _ j]) simp
  qed (use i assms(2) in \<open>auto simp: peer_signal_def intro!: exI [of _ i]\<close>)
qed (use assms(2) in \<open>auto simp: peer_signal_def\<close>)

lemma peer_signal_fields:
  "peer_signal c (s\<lparr>lm_global := n\<rparr>) = peer_signal c s" "peer_signal c (s\<lparr>lm_global_notify := g\<rparr>) = peer_signal c s"
  "peer_signal c (set_cell d (\<lambda>x. x\<lparr>cl_free := b\<rparr>) s) = peer_signal c s" "peer_signal c (drop_admission p s) = peer_signal c s"
  "peer_signal c (set_cell d (\<lambda>x. x\<lparr>cl_notify := (cl_notify x)\<lparr>nf_waiters := nf_waiters (cl_notify x) @ [i]\<rparr>\<rparr>) s) = peer_signal c s"
  by (auto simp: peer_signal_def)

lemma fetch_step_peer_signal:
  assumes pw: "peer_waits s" and gw: "global_waits s" and ok: "permits_ok s" and i: "i < lm_fetch_count s"
    and st: "fetch_step i s = Some s'" and ps: "peer_signal c s"
  shows "peer_signal c s'"
proof -
  have pre: "phase_of s i \<noteq> PeerWait" "phase_of s i \<noteq> GlobalWait" using st by (auto simp: fetch_step_def Let_def)
  note other = notify_other [OF pw gw pre]
  have busy: "\<exists>j<lm_fetch_count s. j \<noteq> i \<and> cell_of s j = cell_of s i
      \<and> phase_of s j \<in> {TryPeer, TryGlobal, DropPeer, NotifyPeer, Working, PeerFreed}"
    if t: "phase_of s i = TryPeer" "\<not> cl_free (lm_cells s (cell_of s i))"
  proof -
    obtain j where "holds_peer s j" "cell_of s j = cell_of s i" using ok i t(2) unfolding permits_ok_def by blast
    then show ?thesis using t(1) by (intro exI [of _ j]) (auto simp: holds_peer_def)
  qed
  note keep = notify_keeps_signal(2) [OF pw gw ps]
  have ntf: "peer_signal c (set_fetch i (\<lambda>f. f\<lparr>ft_phase := p\<rparr>) (notify_peer (cell_of s i) s))" for p
  proof (cases "c = cell_of s i")
    case True
    then show ?thesis using notify_signal_others(1) [OF pw gw pre] by simp
  next
    case False
    then show ?thesis by (intro peer_signal_set notify_keeps_signal [OF pw gw] ps) (simp_all add: other)
  qed
  show ?thesis
  proof (cases "phase_of s i")
    case TryPeer
    then show ?thesis using st ps busy
      by (auto simp: fetch_step_def Let_def peer_signal_fields split: if_splits intro!: peer_signal_set)
  next
    case AwaitPeer
    show ?thesis
    proof (cases "stored s (cell_of s i)")
      case True
      then have s': "s' = set_fetch i (\<lambda>f. f\<lparr>ft_phase := TryPeer\<rparr>)
          (set_cell (cell_of s i) (\<lambda>x. x\<lparr>cl_notify := (cl_notify x)\<lparr>nf_permit := False\<rparr>\<rparr>) s)"
        using st AwaitPeer by (simp add: fetch_step_def Let_def)
      have "peer_signal (cell_of s i) s'" unfolding peer_signal_def s' using i by (intro disjI2 exI [of _ i]) simp
      then show ?thesis using ps by (cases "c = cell_of s i", simp)
        (rule peer_signal_move [of _ s _ i], auto simp: s' peer_signal_def)
    qed (use st ps AwaitPeer in \<open>auto simp: fetch_step_def Let_def peer_signal_fields intro!: peer_signal_set\<close>)
  next
    case PassWake
    then have "s' = set_fetch i (\<lambda>f. f\<lparr>ft_phase := AwaitPeer, ft_woke := False\<rparr>) (notify_global s)"
      using st by (simp add: fetch_step_def Let_def)
    then show ?thesis using PassWake other by (auto intro: peer_signal_set [OF keep])
  next
    case GlobalFreed
    then have "s' = set_fetch i (\<lambda>f. f\<lparr>ft_phase := Leaving\<rparr>) (notify_global s)"
      using st by (simp add: fetch_step_def Let_def)
    then show ?thesis using GlobalFreed other by (auto intro: peer_signal_set [OF keep])
  next
    case NotifyPeer
    then show ?thesis using st ntf by (simp add: fetch_step_def Let_def) blast
  next
    case PeerFreed
    then show ?thesis using st ntf by (simp add: fetch_step_def Let_def) blast
  qed (use st ps in \<open>auto simp: fetch_step_def Let_def peer_signal_fields split: if_splits intro!: peer_signal_set\<close>)
qed

lemma global_signal_set:
  assumes "global_signal s"
    and "i < lm_fetch_count s \<Longrightarrow> phase_of s i \<in> {Working, PeerFreed, PeerNotified, GlobalFreed}
      \<or> ft_woke (lm_fetches s i) \<and> phase_of s i \<in> {TryPeer, PassWake, TryGlobal} \<Longrightarrow>
      (ft_phase (h (lm_fetches s i)) \<in> {Working, PeerFreed, PeerNotified, GlobalFreed}
        \<or> ft_woke (h (lm_fetches s i)) \<and> ft_phase (h (lm_fetches s i)) \<in> {TryPeer, PassWake, TryGlobal})
      \<or> (\<exists>j<lm_fetch_count s. j \<noteq> i \<and> phase_of s j \<in> {Working, PeerFreed, PeerNotified, GlobalFreed})"
  shows "global_signal (set_fetch i h s)"
proof (cases "nf_permit (lm_global_notify s)")
  case False
  then obtain j where j: "j < lm_fetch_count s" "phase_of s j \<in> {Working, PeerFreed, PeerNotified, GlobalFreed}
      \<or> ft_woke (lm_fetches s j) \<and> phase_of s j \<in> {TryPeer, PassWake, TryGlobal}"
    using assms(1) unfolding global_signal_def by blast
  show ?thesis
  proof (cases "j = i")
    case True
    from assms(2) [OF j [unfolded True]] show ?thesis
    proof (elim disjE exE conjE)
      fix k assume "k < lm_fetch_count s" "k \<noteq> i" "phase_of s k \<in> {Working, PeerFreed, PeerNotified, GlobalFreed}"
      then show ?thesis unfolding global_signal_def by (intro disjI2 exI [of _ k]) simp
    qed (use j(1) True in \<open>auto simp: global_signal_def intro!: exI [of _ i]\<close>)
  next
    case False
    then show ?thesis using j unfolding global_signal_def by (intro disjI2 exI [of _ j]) simp
  qed
qed (simp add: global_signal_def)

lemma global_signal_fields:
  "global_signal (s\<lparr>lm_global := n\<rparr>) = global_signal s" "global_signal (set_cell d k s) = global_signal s"
  "global_signal (drop_admission p s) = global_signal s"
  "global_signal (s\<lparr>lm_global_notify := (lm_global_notify s)\<lparr>nf_waiters := ws\<rparr>\<rparr>) = global_signal s"
  by (auto simp: global_signal_def)

lemma no_permit_signal:
  assumes "global_ok s" and "lm_global s = 0" and "phase_of s i \<notin> {Working, PeerFreed, PeerNotified}"
  shows "\<exists>j<lm_fetch_count s. j \<noteq> i \<and> phase_of s j \<in> {Working, PeerFreed, PeerNotified}"
proof -
  have "global_holders s \<noteq> {}" using assms(1,2) unfolding global_ok_def SNAPSHOT_WORKER_COUNT_def by auto
  then show ?thesis using assms(3) unfolding global_holders_def by blast
qed

lemma fetch_step_global_signal:
  assumes pw: "peer_waits s" and gw: "global_waits s" and ok: "global_ok s" and i: "i < lm_fetch_count s"
    and st: "fetch_step i s = Some s'" and gs: "global_signal s"
  shows "global_signal s'"
proof -
  have pre: "phase_of s i \<noteq> PeerWait" "phase_of s i \<noteq> GlobalWait" using st by (auto simp: fetch_step_def Let_def)
  note other = notify_other [OF pw gw pre]
  note ntf = notify_signal_others(2) [OF pw gw pre]
  show ?thesis
  proof (cases "phase_of s i")
    case TryGlobal
    then show ?thesis using st gs no_permit_signal [OF ok, of i]
      by (auto simp: fetch_step_def Let_def global_signal_fields split: if_splits intro!: global_signal_set)
  next
    case AwaitGlobal
    show ?thesis
    proof (cases "nf_permit (lm_global_notify s)")
      case True
      then have "s' = set_fetch i (\<lambda>f. f\<lparr>ft_phase := TryPeer, ft_woke := True\<rparr>)
          (s\<lparr>lm_global_notify := (lm_global_notify s)\<lparr>nf_permit := False\<rparr>\<rparr>)"
        using st AwaitGlobal by (simp add: fetch_step_def Let_def)
      then show ?thesis unfolding global_signal_def using i by (intro disjI2 exI [of _ i]) simp
    qed (use st gs AwaitGlobal in \<open>auto simp: fetch_step_def Let_def global_signal_fields intro!: global_signal_set\<close>)
  next
    case NotifyPeer
    then show ?thesis using st other notify_keeps_signal(3) [OF pw gw gs]
      by (auto simp: fetch_step_def Let_def intro!: global_signal_set)
  next
    case PeerFreed
    then show ?thesis using st other notify_keeps_signal(3) [OF pw gw gs]
      by (auto simp: fetch_step_def Let_def intro!: global_signal_set)
  next
    case PassWake
    then have "s' = set_fetch i (\<lambda>f. f\<lparr>ft_phase := AwaitPeer, ft_woke := False\<rparr>) (notify_global s)"
      using st by (simp add: fetch_step_def Let_def)
    then show ?thesis using ntf by simp
  next
    case GlobalFreed
    then have "s' = set_fetch i (\<lambda>f. f\<lparr>ft_phase := Leaving\<rparr>) (notify_global s)"
      using st by (simp add: fetch_step_def Let_def)
    then show ?thesis using ntf by simp
  qed (use st gs in \<open>auto simp: fetch_step_def Let_def global_signal_fields split: if_splits intro!: global_signal_set\<close>)
qed

lemma fetch_step_frame:
  assumes pw: "peer_waits s" and gw: "global_waits s" and st: "fetch_step i s = Some s'"
  shows "lm_fetch_count s' = lm_fetch_count s" "cell_of s' j = cell_of s j"
    "j \<noteq> i \<Longrightarrow> phase_of s' j \<noteq> phase_of s j \<Longrightarrow> phase_of s' j = TryPeer"
    "phase_of s' i \<in> {PassWake, AwaitPeer, PeerWait} \<Longrightarrow> phase_of s i \<in> {TryPeer, PassWake, AwaitPeer}"
    "phase_of s' i \<in> {DropPeer, NotifyPeer, AwaitGlobal, GlobalWait} \<Longrightarrow>
       phase_of s i \<in> {DropPeer, NotifyPeer, AwaitGlobal} \<or> phase_of s i = TryGlobal \<and> lm_global s = 0"
proof -
  have n: "lm_fetch_count t = lm_fetch_count s \<and> cell_of t j = cell_of s j
      \<and> (phase_of t j \<noteq> phase_of s j \<longrightarrow> phase_of t j = TryPeer)"
    if "same_but_woken s t" for t
    using that unfolding same_but_woken_def by metis
  note np = n [OF notify_same(1) [OF pw gw, of "cell_of s i"]] and ng = n [OF notify_same(2) [OF pw gw]]
  show "lm_fetch_count s' = lm_fetch_count s" "cell_of s' j = cell_of s j"
    "j \<noteq> i \<Longrightarrow> phase_of s' j \<noteq> phase_of s j \<Longrightarrow> phase_of s' j = TryPeer"
    using st np ng by (cases "phase_of s i"; cases "j = i"; force simp: fetch_step_def Let_def split: if_splits)+
  show "phase_of s' i \<in> {PassWake, AwaitPeer, PeerWait} \<Longrightarrow> phase_of s i \<in> {TryPeer, PassWake, AwaitPeer}"
    "phase_of s' i \<in> {DropPeer, NotifyPeer, AwaitGlobal, GlobalWait} \<Longrightarrow>
       phase_of s i \<in> {DropPeer, NotifyPeer, AwaitGlobal} \<or> phase_of s i = TryGlobal \<and> lm_global s = 0"
    using st by (cases "phase_of s i"; auto simp: fetch_step_def Let_def split: if_splits)+
qed

lemma fetch_step_wakes:
  assumes pw: "peer_waits s" and gw: "global_waits s" and ok: "permits_ok s" and gok: "global_ok s"
    and w: "wakes_ok s" and i: "i < lm_fetch_count s" and st: "fetch_step i s = Some s'"
  shows "wakes_ok s'"
proof -
  note frame = fetch_step_frame [OF pw gw st]
  have "peer_signal (cell_of s j) s" if "j < lm_fetch_count s" "phase_of s' j \<in> {PassWake, AwaitPeer, PeerWait}" for j
  proof (cases "phase_of s j = TryPeer")
    case True
    then show ?thesis using that(1) by (auto simp: peer_signal_def)
  next
    case False
    then have "phase_of s j \<in> {PassWake, AwaitPeer, PeerWait}" using that(2) frame(3,4) by (cases "j = i") fastforce+
    then show ?thesis using w that(1) unfolding wakes_ok_def by blast
  qed
  moreover have "global_signal s" if j: "j < lm_fetch_count s" "phase_of s' j \<in> {DropPeer, NotifyPeer, AwaitGlobal, GlobalWait}" for j
  proof (cases "phase_of s j = TryGlobal")
    case True
    then have "lm_global s = 0" using j(2) frame(3) [of j] frame(5) by (cases "j = i") auto
    from no_permit_signal [OF gok this, of j] True show ?thesis unfolding global_signal_def by auto
  next
    case False
    then have "phase_of s j \<in> {DropPeer, NotifyPeer, AwaitGlobal, GlobalWait}" using j(2) frame(3,5) by (cases "j = i") fastforce+
    then show ?thesis using w j(1) unfolding wakes_ok_def by blast
  qed
  ultimately show ?thesis
    using fetch_step_peer_signal [OF pw gw ok i st] fetch_step_global_signal [OF pw gw gok i st] frame(1,2)
    unfolding wakes_ok_def by metis
qed

section \<open>Admission\<close>

definition limiter_ok :: "limiter \<Rightarrow> bool" where
  "limiter_ok s \<longleftrightarrow> peer_waits s \<and> global_waits s \<and> permits_ok s \<and> global_ok s \<and> peers_ok s \<and> wakes_ok s"

definition admitted :: "string \<Rightarrow> peer_limit \<Rightarrow> limiter \<Rightarrow> limiter" where
  "admitted p e s = s\<lparr>lm_peers := (lm_peers s)(p := Some (e\<lparr>pl_pending := pl_pending e + 1\<rparr>)),
     lm_fetches := (lm_fetches s)(lm_fetch_count s := \<lparr>ft_peer = p, ft_cell = pl_cell e, ft_phase = TryPeer, ft_woke = False\<rparr>),
     lm_fetch_count := lm_fetch_count s + 1\<rparr>"

definition fresh_cell :: "limiter \<Rightarrow> limiter" where
  "fresh_cell s = s\<lparr>lm_cells := (lm_cells s)(lm_cell_count s := new_cell), lm_cell_count := lm_cell_count s + 1\<rparr>"

lemma admit_cases:
  obtains "try_admit_snapshot p s = (False, s)"
  | e where "lm_peers s p = Some e" "pl_pending e < MAX_PENDING_SNAPSHOT_FETCHES_PER_PEER" "snd (try_admit_snapshot p s) = admitted p e s"
  | "lm_peers s p = None" "snd (try_admit_snapshot p s) = admitted p \<lparr>pl_cell = lm_cell_count s, pl_pending = 0\<rparr> (fresh_cell s)"
proof (cases "lm_peers s p")
  case None
  then show thesis by (intro that(3)) (simp_all add: try_admit_snapshot_def admitted_def fresh_cell_def Let_def
    MAX_PENDING_SNAPSHOT_FETCHES_PER_PEER_def GOSSIP_WORK_QUEUE_CAPACITY_def SNAPSHOT_WORKER_COUNT_def)
next
  case (Some e)
  then show thesis by (cases "MAX_PENDING_SNAPSHOT_FETCHES_PER_PEER \<le> pl_pending e")
    (auto simp: try_admit_snapshot_def admitted_def Let_def intro: that(1) that(2) [of e])
qed

lemma admitted_simps [simp]:
  "lm_fetch_count (admitted p e s) = Suc (lm_fetch_count s)" "lm_cell_count (admitted p e s) = lm_cell_count s"
  "lm_cells (admitted p e s) = lm_cells s" "lm_global (admitted p e s) = lm_global s"
  "lm_global_notify (admitted p e s) = lm_global_notify s"
  "lm_peers (admitted p e s) = (lm_peers s)(p := Some (e\<lparr>pl_pending := pl_pending e + 1\<rparr>))"
  "lm_fetches (admitted p e s) = (lm_fetches s)(lm_fetch_count s := \<lparr>ft_peer = p, ft_cell = pl_cell e, ft_phase = TryPeer, ft_woke = False\<rparr>)"
  by (simp_all add: admitted_def)

lemma fresh_cell_simps [simp]:
  "lm_fetch_count (fresh_cell s) = lm_fetch_count s" "lm_cell_count (fresh_cell s) = Suc (lm_cell_count s)"
  "lm_cells (fresh_cell s) = (lm_cells s)(lm_cell_count s := new_cell)" "lm_global (fresh_cell s) = lm_global s"
  "lm_global_notify (fresh_cell s) = lm_global_notify s" "lm_peers (fresh_cell s) = lm_peers s" "lm_fetches (fresh_cell s) = lm_fetches s"
  by (simp_all add: fresh_cell_def)

lemma peers_okD:
  assumes "peers_ok s"
  shows "i < lm_fetch_count s \<Longrightarrow> cell_of s i < lm_cell_count s" "lm_peers s p = None \<Longrightarrow> live p s = {}"
    "lm_peers s p = Some e \<Longrightarrow> pl_pending e = card (live p s) \<and> 0 < pl_pending e
       \<and> pl_pending e \<le> MAX_PENDING_SNAPSHOT_FETCHES_PER_PEER \<and> (\<forall>i\<in>live p s. cell_of s i = pl_cell e) \<and> pl_cell e < lm_cell_count s"
  using assms spec [of "\<lambda>p. case lm_peers s p of None \<Rightarrow> live p s = {} | Some e \<Rightarrow> pl_pending e = card (live p s) \<and> 0 < pl_pending e
       \<and> pl_pending e \<le> MAX_PENDING_SNAPSHOT_FETCHES_PER_PEER \<and> (\<forall>i\<in>live p s. cell_of s i = pl_cell e) \<and> pl_cell e < lm_cell_count s" p]
  unfolding peers_ok_def by auto

lemma fresh_cell_ok:
  assumes "limiter_ok s"
  shows "limiter_ok (fresh_cell s)"
proof -
  have used: "cell_of s i \<noteq> lm_cell_count s" if "i < lm_fetch_count s" for i
    using assms that unfolding limiter_ok_def peers_ok_def by force
  have pw: "peer_waits s" using assms by (simp add: limiter_ok_def)
  have "peer_waits (fresh_cell s)"
    unfolding peer_waits_def using peer_waitsD [OF pw] used by (auto simp: new_cell_def new_notify_def)
  moreover have "global_waits (fresh_cell s)" using assms by (simp add: limiter_ok_def global_waits_def)
  moreover have h: "holds_peer (fresh_cell s) i = holds_peer s i" for i by (simp add: holds_peer_def)
  have "permits_ok (fresh_cell s)"
  proof -
    have ok: "permits_ok s" using assms by (simp add: limiter_ok_def)
    have n: "holds_peer s i \<Longrightarrow> i < lm_fetch_count s" for i by (simp add: holds_peer_def)
    show ?thesis using ok used n unfolding permits_ok_def h by (auto simp: new_cell_def)
  qed
  moreover have "global_ok (fresh_cell s)" using assms by (simp add: limiter_ok_def global_ok_def global_holders_def)
  moreover have "live p (fresh_cell s) = live p s" for p by (simp add: live_def)
  then have "peers_ok (fresh_cell s)"
    using assms unfolding limiter_ok_def peers_ok_def by (fastforce simp: less_Suc_eq split: option.splits)
  moreover have "wakes_ok (fresh_cell s)"
    using assms used by (auto simp: limiter_ok_def wakes_ok_def peer_signal_def global_signal_def)
  ultimately show ?thesis by (simp add: limiter_ok_def)
qed

lemma admitted_live:
  "live q (admitted p e s) = (if q = p then insert (lm_fetch_count s) (live p s) else live q s)"
  by (auto simp: live_def less_Suc_eq)

lemma admitted_signal:
  "peer_signal d s \<Longrightarrow> peer_signal d (admitted p e s)" "global_signal s \<Longrightarrow> global_signal (admitted p e s)"
proof -
  have old: "lm_fetches (admitted p e s) j = lm_fetches s j" "j < lm_fetch_count (admitted p e s)" if "j < lm_fetch_count s" for j
    using that by simp_all
  show "peer_signal d s \<Longrightarrow> peer_signal d (admitted p e s)"
    unfolding peer_signal_def admitted_simps(3) using old by metis
  show "global_signal s \<Longrightarrow> global_signal (admitted p e s)"
    unfolding global_signal_def admitted_simps(5) using old by metis
qed

lemma admitted_ok:
  assumes ok: "limiter_ok s" and e: "pl_cell e < lm_cell_count s" "pl_pending e = card (live p s)"
    "pl_pending e < MAX_PENDING_SNAPSHOT_FETCHES_PER_PEER" "\<forall>i\<in>live p s. cell_of s i = pl_cell e"
    and used: "cl_free (lm_cells s (pl_cell e)) \<or> (\<exists>i<lm_fetch_count s. cell_of s i = pl_cell e)"
  shows "limiter_ok (admitted p e s)"
proof -
  have inv: "peer_waits s" "global_waits s" "permits_ok s" "global_ok s" "peers_ok s" "wakes_ok s"
    using ok by (simp_all add: limiter_ok_def)
  have "peer_waits (admitted p e s)"
    using peer_waitsD [OF inv(1)] by (fastforce simp: peer_waits_def less_Suc_eq)
  moreover have "global_waits (admitted p e s)"
    using global_waitsD [OF inv(2)] by (fastforce simp: global_waits_def less_Suc_eq)
  moreover have h: "holds_peer (admitted p e s) i = holds_peer s i" for i by (auto simp: holds_peer_def less_Suc_eq)
  have n: "holds_peer s i \<Longrightarrow> i \<noteq> lm_fetch_count s" for i by (simp add: holds_peer_def)
  have c: "cell_of (admitted p e s) i = (if i = lm_fetch_count s then pl_cell e else cell_of s i)" for i by simp
  have "permits_ok (admitted p e s)"
  proof -
    have "\<exists>j. holds_peer s j \<and> cell_of (admitted p e s) j = cell_of (admitted p e s) i"
      if i: "i < Suc (lm_fetch_count s)" "\<not> cl_free (lm_cells s (cell_of (admitted p e s) i))" for i
    proof -
      obtain k where k: "k < lm_fetch_count s" "cell_of s k = cell_of (admitted p e s) i"
        using i used by (cases "i = lm_fetch_count s") (auto simp: less_Suc_eq)
      then obtain j where "holds_peer s j" "cell_of s j = cell_of s k" using i(2) inv(3) unfolding permits_ok_def by metis
      then show ?thesis using k n [of j] by (intro exI [of _ j]) simp
    qed
    then show ?thesis using inv(3) n unfolding permits_ok_def h by (auto simp: c)
  qed
  moreover have "global_holders (admitted p e s) = global_holders s" by (auto simp: global_holders_def less_Suc_eq)
  then have "global_ok (admitted p e s)" using inv(4) by (simp add: global_ok_def)
  moreover have "peers_ok (admitted p e s)"
  proof -
    have "lm_fetch_count s \<notin> live p s" by (simp add: live_def)
    then have new: "card (insert (lm_fetch_count s) (live p s)) = Suc (card (live p s))" by simp
    have q: "i \<in> live q s \<Longrightarrow> i \<noteq> lm_fetch_count s" for i q by (simp add: live_def)
    show ?thesis using peers_okD [OF inv(5)] e new q
      unfolding peers_ok_def by (auto simp: admitted_live less_Suc_eq split: option.splits) (metis peers_okD(3) [OF inv(5)])+
  qed
  moreover have "wakes_ok (admitted p e s)" using inv(6) admitted_signal(1) [of _ s p e] admitted_signal(2) [of s p e] by (auto simp: wakes_ok_def less_Suc_eq)
  ultimately show ?thesis by (simp add: limiter_ok_def)
qed

lemma admit_ok:
  assumes "limiter_ok s"
  shows "limiter_ok (snd (try_admit_snapshot p s))"
proof (cases rule: admit_cases [of p s])
  case (2 e)
  have "peers_ok s" using assms by (simp add: limiter_ok_def)
  from peers_okD(3) [OF this 2(1)] have e: "pl_pending e = card (live p s)" "0 < card (live p s)"
    "\<forall>i\<in>live p s. cell_of s i = pl_cell e" "pl_cell e < lm_cell_count s" by auto
  then obtain i where "i \<in> live p s" by (auto simp: card_gt_0_iff)
  then have "\<exists>i<lm_fetch_count s. cell_of s i = pl_cell e" using e(3) by (auto simp: live_def)
  then show ?thesis using admitted_ok [OF assms e(4,1) 2(2) e(3)] 2(3) by simp
next
  case 3
  have "peers_ok s" using assms by (simp add: limiter_ok_def)
  from peers_okD(2) [OF this 3(1)] have "live p (fresh_cell s) = {}" by (simp add: live_def)
  then show ?thesis unfolding 3(2) by (intro admitted_ok fresh_cell_ok assms)
    (simp_all add: new_cell_def MAX_PENDING_SNAPSHOT_FETCHES_PER_PEER_def GOSSIP_WORK_QUEUE_CAPACITY_def SNAPSHOT_WORKER_COUNT_def)
qed (use assms in simp)

lemma fetch_step_ok: "limiter_ok s \<Longrightarrow> i < lm_fetch_count s \<Longrightarrow> fetch_step i s = Some s' \<Longrightarrow> limiter_ok s'"
  using fetch_step_waits fetch_step_permits fetch_step_peers fetch_step_wakes unfolding limiter_ok_def by metis

lemma new_limiter_ok: "limiter_ok new_limiter"
  by (auto simp: limiter_ok_def new_limiter_def peer_waits_def global_waits_def permits_ok_def global_ok_def peers_ok_def wakes_ok_def
    live_def holds_peer_def global_holders_def new_notify_def new_cell_def)

lemma reachable_ok: "reachable s \<Longrightarrow> limiter_ok s"
proof (induction rule: reachable.induct)
  case (step s s')
  from step.hyps(2) show ?case
  proof cases
    case (admit peer b)
    then show ?thesis using admit_ok [OF step.IH, of peer] by simp
  next
    case (fetch i)
    then show ?thesis by (rule fetch_step_ok [OF step.IH])
  qed
qed (rule new_limiter_ok)

lemma stuck_phases: "fetch_step i s = None \<longleftrightarrow> phase_of s i \<in> {PeerWait, GlobalWait, Finished}"
  by (cases "phase_of s i") (auto simp: fetch_step_def Let_def)

lemma working_holds: "i < lm_fetch_count s \<Longrightarrow> phase_of s i = Working \<Longrightarrow> holds_peer s i \<and> i \<in> global_holders s \<and> i \<in> live (ft_peer (lm_fetches s i)) s"
  by (simp add: holds_peer_def global_holders_def live_def)

lemma live_cell:
  assumes "peers_ok s" and "i \<in> live p s" and "j \<in> live p s"
  shows "cell_of s i = cell_of s j"
proof (cases "lm_peers s p")
  case None
  then show ?thesis using assms peers_okD(2) [OF assms(1), of p] by simp
next
  case (Some e)
  then show ?thesis using assms peers_okD(3) [OF assms(1) Some] by simp
qed

section \<open>A contended run\<close>

fun run_fetches :: "nat list \<Rightarrow> limiter \<Rightarrow> limiter option" where
  "run_fetches [] s = Some s"
| "run_fetches (i # is) s = (if i < lm_fetch_count s then Option.bind (fetch_step i s) (run_fetches is) else None)"

lemma run_fetches_reachable: "reachable s \<Longrightarrow> run_fetches is s = Some s' \<Longrightarrow> reachable s'"
  by (induction "is" arbitrary: s) (auto split: if_splits Option.bind_splits dest: reachable.step [OF _ limiter_step.fetch])

text \<open>Two fetches of one peer: the first works and the second waits for the peer's permit.\<close>

definition two_admitted :: limiter where
  "two_admitted = snd (try_admit_snapshot ''peer'' (snd (try_admit_snapshot ''peer'' new_limiter)))"

definition contended :: limiter where
  "contended = the (run_fetches [0, 0, 1, 1] two_admitted)"

lemma two_admitted_reachable: "reachable two_admitted"
  unfolding two_admitted_def by (metis reachable.simps limiter_step.admit surjective_pairing)

lemma contended_run: "run_fetches [0, 0, 1, 1] two_admitted \<noteq> None \<and> lm_fetch_count contended = 2
  \<and> phase_of contended 0 = Working \<and> phase_of contended 1 = PeerWait"
  by code_simp

lemma contended_reachable: "reachable contended"
proof -
  obtain s where "run_fetches [0, 0, 1, 1] two_admitted = Some s" using contended_run by (auto simp del: run_fetches.simps)
  then show ?thesis using run_fetches_reachable [OF two_admitted_reachable] unfolding contended_def by (metis option.sel)
qed

section \<open>The limits, and progress\<close>

text \<open>However admissions and the steps of the fetches interleave, at most one snapshot fetch per
  peer does its work at a time, at most \<open>SNAPSHOT_WORKER_COUNT\<close> do overall, and no peer ever has more than
  \<open>MAX_PENDING_SNAPSHOT_FETCHES_PER_PEER\<close> admitted fetches that have not finished.\<close>

theorem fetches_limited:
  assumes "reachable s"
  shows "(\<forall>i j. i < lm_fetch_count s \<and> j < lm_fetch_count s \<and> phase_of s i = Working \<and> phase_of s j = Working
      \<and> ft_peer (lm_fetches s i) = ft_peer (lm_fetches s j) \<longrightarrow> i = j)
    \<and> card {i. i < lm_fetch_count s \<and> phase_of s i = Working} \<le> SNAPSHOT_WORKER_COUNT
    \<and> card (live p s) \<le> MAX_PENDING_SNAPSHOT_FETCHES_PER_PEER"
proof (intro conjI allI impI)
  have ok: "permits_ok s" "global_ok s" "peers_ok s" using reachable_ok [OF assms] by (simp_all add: limiter_ok_def)
  fix i j
  assume a: "i < lm_fetch_count s \<and> j < lm_fetch_count s \<and> phase_of s i = Working \<and> phase_of s j = Working
      \<and> ft_peer (lm_fetches s i) = ft_peer (lm_fetches s j)"
  then have "cell_of s i = cell_of s j" by (intro live_cell [OF ok(3), of _ "ft_peer (lm_fetches s i)"]) (simp_all add: live_def)
  then show "i = j" using a ok(1) working_holds unfolding permits_ok_def by metis
next
  have "global_ok s" using reachable_ok [OF assms] by (simp add: limiter_ok_def)
  then have "card (global_holders s) \<le> SNAPSHOT_WORKER_COUNT" by (simp add: global_ok_def)
  moreover have "card {i. i < lm_fetch_count s \<and> phase_of s i = Working} \<le> card (global_holders s)"
    by (rule card_mono) (auto simp: global_holders_def)
  ultimately show "card {i. i < lm_fetch_count s \<and> phase_of s i = Working} \<le> SNAPSHOT_WORKER_COUNT" by simp
next
  have "peers_ok s" using reachable_ok [OF assms] by (simp add: limiter_ok_def)
  then show "card (live p s) \<le> MAX_PENDING_SNAPSHOT_FETCHES_PER_PEER"
    using peers_okD(2,3) [of s p] by (cases "lm_peers s p") auto
qed

theorem fetches_limited_witness:
  "reachable contended \<and> phase_of contended 0 = Working \<and> card (live ''peer'' contended) \<le> 32"
proof -
  have "MAX_PENDING_SNAPSHOT_FETCHES_PER_PEER = 32" by code_simp
  then show ?thesis using fetches_limited [OF contended_reachable, of "''peer''"] contended_run contended_reachable by simp
qed

text \<open>C29. No wake-up is lost: whenever some admitted fetch has not finished, some fetch can take a step, so
  the limiter never comes to rest with a fetch waiting for a permit, in whatever order the steps before were taken.\<close>

theorem never_stuck:
  assumes "reachable s" and "i < lm_fetch_count s" and "phase_of s i \<noteq> Finished"
  shows "\<exists>j<lm_fetch_count s. fetch_step j s \<noteq> None"
proof (rule ccontr)
  assume "\<not> ?thesis"
  then have stuck: "phase_of s j \<in> {PeerWait, GlobalWait, Finished}" if "j < lm_fetch_count s" for j
    using that stuck_phases [of j s] by auto
  have inv: "peer_waits s" "global_waits s" "wakes_ok s" using reachable_ok [OF assms(1)] by (simp_all add: limiter_ok_def)
  have no: "\<not> peer_signal c s" if "i \<in> set (waiters s c)" for c
    using that stuck peer_waitsD(2) [OF inv(1), of c] by (force simp: peer_signal_def)
  have ng: "\<not> global_signal s" if "i \<in> set (nf_waiters (lm_global_notify s))"
    using that stuck global_waitsD(2) [OF inv(2)] by (force simp: global_signal_def)
  from stuck [OF assms(2)] assms(3) consider "phase_of s i = PeerWait" | "phase_of s i = GlobalWait" by auto
  then show False
  proof cases
    case 1
    then have "i \<in> set (waiters s (cell_of s i))" using assms(2) peer_waitsD(3) [OF inv(1)] by simp
    from no [OF this] show False using inv(3) 1 assms(2) unfolding wakes_ok_def by auto
  next
    case 2
    then have "i \<in> set (nf_waiters (lm_global_notify s))" using assms(2) global_waitsD(3) [OF inv(2)] by simp
    from ng [OF this] show False using inv(3) 2 assms(2) unfolding wakes_ok_def by auto
  qed
qed

theorem never_stuck_witness:
  "reachable contended \<and> phase_of contended 1 = PeerWait \<and> (\<exists>j<2. fetch_step j contended \<noteq> None)"
proof -
  have c: "lm_fetch_count contended = 2" "phase_of contended 1 = PeerWait" using contended_run by simp_all
  then have "\<exists>j<lm_fetch_count contended. fetch_step j contended \<noteq> None"
    using never_stuck [OF contended_reachable, of 1] by simp
  then show ?thesis unfolding c(1) using c(2) contended_reachable by blast
qed

end
