(* ===== verification/Json.thy ===== *)
theory Json
  imports Complex_Main Prelude "HOL-Library.Char_ord" "HOL-Library.List_Lexorder"
begin

text \<open>
  JSON values of \<open>serde_json\<close> and the accessors the gateway uses on them. An object is a \<open>BTreeMap\<close>: a list of
  entries with distinct keys in ascending order. A number is an integer or a finite double.
\<close>

datatype json =
    JNull
  | JBool bool
  | JInt int
  | JFloat rat
  | JStr string
  | JArr "json list"
  | JObj "(string \<times> json) list"

type_synonym json_map = "(string \<times> json) list"

fun as_str :: "json \<Rightarrow> string option" where
  "as_str (JStr s) = Some s"
| "as_str _ = None"

fun as_object :: "json \<Rightarrow> json_map option" where
  "as_object (JObj o') = Some o'"
| "as_object _ = None"

fun as_array :: "json \<Rightarrow> json list option" where
  "as_array (JArr vs) = Some vs"
| "as_array _ = None"

text \<open>\<open>as_i64\<close> refuses integers beyond 64 bits and every float.\<close>

fun as_i64 :: "json \<Rightarrow> int option" where
  "as_i64 (JInt i) = (if - (2 ^ 63) \<le> i \<and> i < 2 ^ 63 then Some i else None)"
| "as_i64 _ = None"

text \<open>\<open>Value::get\<close> with a key.\<close>

definition jget :: "string \<Rightarrow> json \<Rightarrow> json option" where
  "jget k v = Option.bind (as_object v) (\<lambda>o'. map_of o' k)"

text \<open>\<open>Map::insert\<close>: the entry of the key is replaced, or put where its key belongs.\<close>

fun obj_insert :: "string \<Rightarrow> json \<Rightarrow> json_map \<Rightarrow> json_map" where
  "obj_insert k v [] = [(k, v)]"
| "obj_insert k v ((k', v') # es) =
    (if k = k' then (k, v) # es else if k < k' then (k, v) # (k', v') # es else (k', v') # obj_insert k v es)"

text \<open>\<open>entry(k).or_insert_with(..)\<close>.\<close>

definition or_insert :: "string \<Rightarrow> json \<Rightarrow> json_map \<Rightarrow> json_map" where
  "or_insert k v o' = (case map_of o' k of Some _ \<Rightarrow> o' | None \<Rightarrow> obj_insert k v o')"

text \<open>The object literals of \<open>json!\<close>, built entry by entry.\<close>

definition json_obj :: "(string \<times> json) list \<Rightarrow> json" where
  "json_obj es = JObj (fold (\<lambda>(k, v). obj_insert k v) es [])"

definition jopt_str :: "string option \<Rightarrow> json" where
  "jopt_str s = (case s of None \<Rightarrow> JNull | Some t \<Rightarrow> JStr t)"

definition wf_obj :: "json_map \<Rightarrow> bool" where
  "wf_obj o' \<longleftrightarrow> sorted_wrt (<) (map fst o')"

lemma wf_obj_distinct: "wf_obj o' \<Longrightarrow> distinct (map fst o')"
  by (simp add: wf_obj_def strict_sorted_iff)

lemma map_of_obj_insert [simp]: "wf_obj o' \<Longrightarrow> map_of (obj_insert k v o') = (map_of o')(k \<mapsto> v)"
  by (induction k v o' rule: obj_insert.induct) (auto simp: wf_obj_def fun_eq_iff)

lemma map_of_obj_insert_same: "map_of (obj_insert k v o') k = Some v"
  by (induction k v o' rule: obj_insert.induct) auto

lemma keys_obj_insert [simp]: "fst ` set (obj_insert k v o') = insert k (fst ` set o')"
  by (induction k v o' rule: obj_insert.induct) (auto simp: image_iff)

lemma wf_obj_insert: "wf_obj o' \<Longrightarrow> wf_obj (obj_insert k v o')"
  by (induction k v o' rule: obj_insert.induct) (auto simp: wf_obj_def simp flip: image_set)

lemma wf_or_insert: "wf_obj o' \<Longrightarrow> wf_obj (or_insert k v o')"
  by (simp add: or_insert_def wf_obj_insert split: option.split)

lemma map_of_or_insert [simp]:
  "wf_obj o' \<Longrightarrow> map_of (or_insert k v o') k' = (if k' = k \<and> map_of o' k = None then Some v else map_of o' k')"
  by (auto simp: or_insert_def split: option.split)

end
