(* ===== verification/Catalog.thy ===== *)
theory Catalog
  imports Json
begin

text \<open>
  The catalog of data kinds (\<open>contracts.rs\<close>): one row of metadata per kind, as the arms of \<open>data_kind_metadata\<close>,
  and the policies derived from it (\<open>source_policy.rs\<close>): which kinds the public stream may carry and under which
  key a projected value is stored.
\<close>

section \<open>The vocabulary of the catalog\<close>

datatype data_kind =
    SpacePresence | Presence | Identity | OperatorProfile
  | OrganizationSummary | MissionLifecycle | TaskSummary | TaskVoteSignal
  | TaskRoundUpdate | TaskDecisionFinalized | GovernanceProposal | GovernanceVote
  | GovernanceDecision | OracleFeedUpdate | SettlementEvent | ReputationUpdate
  | RankingProjection | HiveMetadata | HiveSubscription | HiveMessagePosted
  | HiveActivity | BoardActivity | FriendRelationship | FriendRequestPending
  | PublicBlock | SocialThread | DmSummary | DmMessage
  | NetworkProjection | TravelState | GalaxyEvent | WorldEvent

datatype visibility = Public | Protected
datatype provisional_export_policy = NeverBeforeConfirmation | ProvisionalWithDowngrade | EphemeralOnly
datatype ingest_mode = SnapshotPush | EventPush | GossipSubscribe | IrohDirectFetch | PullOnly | DerivedProjection
datatype ui_delivery_mode = WsStream | RestPoll | RestSnapshotBootstrap | RestOnDemand | DebugOnly
datatype hybrid_subtype = Overlay | Merge | SemanticWrap
datatype source_status = Active | Suspended | Rejected
datatype retention_policy = Forever | RollingNDays | OverwriteLatest | DropAfterConclusion
datatype semantic_domain = Product | Mechanism | Social | Governance | Network | World
datatype data_stage = Input | MechanismProcess | MechanismConclusion | ProductProjection | AggregatedSummary
datatype latency_class = Hot | Warm | Cold
datatype consistency_class = LocalCommit | EventualMechanism | ConfirmedMechanism | ProjectionAfterConfirmation | SnapshotLatest
datatype source_system = Wattetheria | Wattswarm | Hybrid

record sla_targets =
  hot_path_target_ms :: "nat option"
  max_staleness_sec :: nat

record kind_metadata =
  dm_kind :: data_kind
  dm_domain :: semantic_domain
  dm_stage :: data_stage
  dm_visibility :: visibility
  dm_signing_authority :: string
  dm_semantic_authority :: string
  dm_latency_class :: latency_class
  dm_consistency_class :: consistency_class
  dm_storage_shape :: string
  dm_identity_fields :: "string list"
  dm_payload_version :: nat
  dm_provisional_export_policy :: provisional_export_policy
  dm_retention_policy :: retention_policy
  dm_provenance_fields :: "string list"
  dm_sla_targets :: sla_targets
  dm_primary_source :: source_system
  dm_fallback_source :: "source_system option"
  dm_ingest_mode :: ingest_mode
  dm_ui_delivery_mode :: ui_delivery_mode
  dm_hybrid_subtype :: "hybrid_subtype option"
  dm_game_client_stable :: bool
  dm_pull_only_fallback_data :: bool

definition DEFAULT_PROVENANCE_FIELDS :: "string list" where
  "DEFAULT_PROVENANCE_FIELDS = [''identity_key'', ''source_kind'', ''source_cursor_or_seq'', ''ingest_path'',
     ''last_confirmed_at'', ''last_provisional_at'']"

definition ALWAYS_PUBLIC_SLA :: sla_targets where
  "ALWAYS_PUBLIC_SLA = \<lparr>hot_path_target_ms = None, max_staleness_sec = 300\<rparr>"

definition LIVE_MECHANISM_SLA :: sla_targets where
  "LIVE_MECHANISM_SLA = \<lparr>hot_path_target_ms = Some 350, max_staleness_sec = 15\<rparr>"

definition WARM_PRODUCT_SLA :: sla_targets where
  "WARM_PRODUCT_SLA = \<lparr>hot_path_target_ms = None, max_staleness_sec = 60\<rparr>"

section \<open>The rows\<close>

definition space_presence_row :: "kind_metadata" where
  "space_presence_row = \<lparr>dm_kind = SpacePresence,
     dm_domain = World, dm_stage = ProductProjection, dm_visibility = Public,
     dm_signing_authority = ''agent identity key'', dm_semantic_authority = ''wattetheria space presence'',
     dm_latency_class = Warm, dm_consistency_class = LocalCommit, dm_storage_shape = ''space_presence_latest'',
     dm_identity_fields = [''space_id'', ''agent_did''], dm_payload_version = 1,
     dm_provisional_export_policy = NeverBeforeConfirmation, dm_retention_policy = OverwriteLatest,
     dm_provenance_fields = DEFAULT_PROVENANCE_FIELDS, dm_sla_targets = WARM_PRODUCT_SLA,
     dm_primary_source = Wattetheria, dm_fallback_source = None, dm_ingest_mode = EventPush,
     dm_ui_delivery_mode = WsStream, dm_hybrid_subtype = None, dm_game_client_stable = True,
     dm_pull_only_fallback_data = False\<rparr>"

definition presence_row :: "kind_metadata" where
  "presence_row = \<lparr>dm_kind = Presence,
     dm_domain = Social, dm_stage = AggregatedSummary, dm_visibility = Public,
     dm_signing_authority = ''wattetheria node key'', dm_semantic_authority = ''wattetheria social projection'',
     dm_latency_class = Warm, dm_consistency_class = SnapshotLatest, dm_storage_shape = ''node_public_state'',
     dm_identity_fields = [''node_id'', ''public_id'', ''id''], dm_payload_version = 1,
     dm_provisional_export_policy = NeverBeforeConfirmation, dm_retention_policy = OverwriteLatest,
     dm_provenance_fields = DEFAULT_PROVENANCE_FIELDS, dm_sla_targets = WARM_PRODUCT_SLA, dm_primary_source = Hybrid,
     dm_fallback_source = Some Wattetheria, dm_ingest_mode = DerivedProjection, dm_ui_delivery_mode = WsStream,
     dm_hybrid_subtype = Some Overlay, dm_game_client_stable = True, dm_pull_only_fallback_data = False\<rparr>"

definition identity_row :: "data_kind \<Rightarrow> kind_metadata" where
  "identity_row kind = \<lparr>dm_kind = kind,
     dm_domain = Product, dm_stage = ProductProjection, dm_visibility = Public,
     dm_signing_authority = ''wattetheria node key'', dm_semantic_authority = ''wattetheria product rules'',
     dm_latency_class = Warm, dm_consistency_class = LocalCommit, dm_storage_shape = ''identity_projection'',
     dm_identity_fields = (case kind of OrganizationSummary \<Rightarrow> [''organization_id'', ''id''] | _ \<Rightarrow> [''agent_did'', ''public_id'', ''id'']),
     dm_payload_version = 1, dm_provisional_export_policy = NeverBeforeConfirmation,
     dm_retention_policy = OverwriteLatest, dm_provenance_fields = DEFAULT_PROVENANCE_FIELDS,
     dm_sla_targets = WARM_PRODUCT_SLA, dm_primary_source = Wattetheria, dm_fallback_source = None,
     dm_ingest_mode = SnapshotPush, dm_ui_delivery_mode = RestSnapshotBootstrap, dm_hybrid_subtype = None,
     dm_game_client_stable = True, dm_pull_only_fallback_data = False\<rparr>"

definition mission_lifecycle_row :: "kind_metadata" where
  "mission_lifecycle_row = \<lparr>dm_kind = MissionLifecycle,
     dm_domain = Product, dm_stage = ProductProjection, dm_visibility = Public,
     dm_signing_authority = ''wattetheria node key'', dm_semantic_authority = ''wattetheria mission board'',
     dm_latency_class = Warm, dm_consistency_class = ProjectionAfterConfirmation,
     dm_storage_shape = ''task_conclusion_projection'', dm_identity_fields = [''mission_id'', ''task_id'', ''id''],
     dm_payload_version = 1, dm_provisional_export_policy = NeverBeforeConfirmation, dm_retention_policy = Forever,
     dm_provenance_fields = DEFAULT_PROVENANCE_FIELDS, dm_sla_targets = WARM_PRODUCT_SLA,
     dm_primary_source = Wattetheria, dm_fallback_source = None, dm_ingest_mode = SnapshotPush,
     dm_ui_delivery_mode = RestSnapshotBootstrap, dm_hybrid_subtype = Some SemanticWrap, dm_game_client_stable = True,
     dm_pull_only_fallback_data = False\<rparr>"

definition task_summary_row :: "kind_metadata" where
  "task_summary_row = \<lparr>dm_kind = TaskSummary,
     dm_domain = Product, dm_stage = ProductProjection, dm_visibility = Public,
     dm_signing_authority = ''wattetheria node key'', dm_semantic_authority = ''wattetheria mission/task projection'',
     dm_latency_class = Warm, dm_consistency_class = ProjectionAfterConfirmation,
     dm_storage_shape = ''task_conclusion_projection'', dm_identity_fields = [''task_id'', ''mission_id'', ''id''],
     dm_payload_version = 1, dm_provisional_export_policy = NeverBeforeConfirmation,
     dm_retention_policy = OverwriteLatest, dm_provenance_fields = DEFAULT_PROVENANCE_FIELDS,
     dm_sla_targets = WARM_PRODUCT_SLA, dm_primary_source = Wattetheria, dm_fallback_source = None,
     dm_ingest_mode = SnapshotPush, dm_ui_delivery_mode = RestSnapshotBootstrap, dm_hybrid_subtype = Some SemanticWrap,
     dm_game_client_stable = True, dm_pull_only_fallback_data = False\<rparr>"

definition task_vote_signal_row :: "data_kind \<Rightarrow> kind_metadata" where
  "task_vote_signal_row kind = \<lparr>dm_kind = kind,
     dm_domain = Mechanism, dm_stage = (if kind = TaskVoteSignal then Input else MechanismProcess),
     dm_visibility = Public, dm_signing_authority = ''agent or node key on each signed event'',
     dm_semantic_authority = ''wattswarm decision process'', dm_latency_class = Hot,
     dm_consistency_class = EventualMechanism, dm_storage_shape = ''task_process_projection'',
     dm_identity_fields = [''task_id'', ''vote_id'', ''round_id'', ''id''], dm_payload_version = 1,
     dm_provisional_export_policy = (if kind = TaskVoteSignal then EphemeralOnly else ProvisionalWithDowngrade),
     dm_retention_policy = RollingNDays, dm_provenance_fields = DEFAULT_PROVENANCE_FIELDS,
     dm_sla_targets = LIVE_MECHANISM_SLA, dm_primary_source = Wattswarm, dm_fallback_source = Some Wattetheria,
     dm_ingest_mode = EventPush, dm_ui_delivery_mode = WsStream, dm_hybrid_subtype = None, dm_game_client_stable = True,
     dm_pull_only_fallback_data = False\<rparr>"

definition task_decision_finalized_row :: "kind_metadata" where
  "task_decision_finalized_row = \<lparr>dm_kind = TaskDecisionFinalized,
     dm_domain = Mechanism, dm_stage = MechanismConclusion, dm_visibility = Public,
     dm_signing_authority = ''mechanism finality proof or node-exported signed conclusion'',
     dm_semantic_authority = ''wattswarm mechanism consensus'', dm_latency_class = Hot,
     dm_consistency_class = ConfirmedMechanism, dm_storage_shape = ''task_conclusion_projection'',
     dm_identity_fields = [''task_id'', ''decision_id'', ''id''], dm_payload_version = 1,
     dm_provisional_export_policy = NeverBeforeConfirmation, dm_retention_policy = Forever,
     dm_provenance_fields = DEFAULT_PROVENANCE_FIELDS, dm_sla_targets = LIVE_MECHANISM_SLA,
     dm_primary_source = Wattswarm, dm_fallback_source = Some Wattetheria, dm_ingest_mode = EventPush,
     dm_ui_delivery_mode = WsStream, dm_hybrid_subtype = None, dm_game_client_stable = True,
     dm_pull_only_fallback_data = False\<rparr>"

definition governance_proposal_row :: "data_kind \<Rightarrow> kind_metadata" where
  "governance_proposal_row kind = \<lparr>dm_kind = kind,
     dm_domain = Governance,
     dm_stage = (case kind of GovernanceProposal \<Rightarrow> Input | GovernanceVote \<Rightarrow> MechanismProcess | _ \<Rightarrow> MechanismConclusion),
     dm_visibility = Public, dm_signing_authority = ''wattetheria node key'',
     dm_semantic_authority = ''wattetheria governance engine'',
     dm_latency_class = (if kind = GovernanceDecision then Warm else Hot),
     dm_consistency_class = (if kind = GovernanceDecision then ConfirmedMechanism else LocalCommit),
     dm_storage_shape = ''task_conclusion_projection'', dm_identity_fields = [''proposal_id'', ''vote_id'', ''id''],
     dm_payload_version = 1,
     dm_provisional_export_policy = (if kind = GovernanceVote then ProvisionalWithDowngrade else NeverBeforeConfirmation),
     dm_retention_policy = Forever, dm_provenance_fields = DEFAULT_PROVENANCE_FIELDS, dm_sla_targets = WARM_PRODUCT_SLA,
     dm_primary_source = Wattetheria, dm_fallback_source = None,
     dm_ingest_mode = (if kind = GovernanceDecision then SnapshotPush else EventPush),
     dm_ui_delivery_mode = (if kind = GovernanceDecision then RestSnapshotBootstrap else WsStream),
     dm_hybrid_subtype = None, dm_game_client_stable = True, dm_pull_only_fallback_data = False\<rparr>"

definition oracle_feed_update_row :: "kind_metadata" where
  "oracle_feed_update_row = \<lparr>dm_kind = OracleFeedUpdate,
     dm_domain = Mechanism, dm_stage = MechanismConclusion, dm_visibility = Public,
     dm_signing_authority = ''oracle signer'', dm_semantic_authority = ''oracle feed attestor'', dm_latency_class = Warm,
     dm_consistency_class = ConfirmedMechanism, dm_storage_shape = ''network_projection'',
     dm_identity_fields = [''feed_id'', ''id''], dm_payload_version = 1,
     dm_provisional_export_policy = NeverBeforeConfirmation, dm_retention_policy = RollingNDays,
     dm_provenance_fields = DEFAULT_PROVENANCE_FIELDS, dm_sla_targets = WARM_PRODUCT_SLA, dm_primary_source = Wattswarm,
     dm_fallback_source = Some Wattetheria, dm_ingest_mode = PullOnly, dm_ui_delivery_mode = RestPoll,
     dm_hybrid_subtype = None, dm_game_client_stable = True, dm_pull_only_fallback_data = False\<rparr>"

definition settlement_event_row :: "data_kind \<Rightarrow> kind_metadata" where
  "settlement_event_row kind = \<lparr>dm_kind = kind,
     dm_domain = Mechanism, dm_stage = MechanismConclusion, dm_visibility = Public,
     dm_signing_authority = ''mechanism conclusion signer'',
     dm_semantic_authority = ''wattswarm settlement and reputation engine'', dm_latency_class = Warm,
     dm_consistency_class = ConfirmedMechanism, dm_storage_shape = ''ranking_projection'',
     dm_identity_fields = [''settlement_id'', ''agent_did'', ''id''], dm_payload_version = 1,
     dm_provisional_export_policy = NeverBeforeConfirmation, dm_retention_policy = RollingNDays,
     dm_provenance_fields = DEFAULT_PROVENANCE_FIELDS, dm_sla_targets = WARM_PRODUCT_SLA, dm_primary_source = Wattswarm,
     dm_fallback_source = Some Wattetheria, dm_ingest_mode = PullOnly, dm_ui_delivery_mode = RestPoll,
     dm_hybrid_subtype = None, dm_game_client_stable = True, dm_pull_only_fallback_data = False\<rparr>"

definition ranking_projection_row :: "kind_metadata" where
  "ranking_projection_row = \<lparr>dm_kind = RankingProjection,
     dm_domain = Product, dm_stage = AggregatedSummary, dm_visibility = Public,
     dm_signing_authority = ''wattetheria node key'', dm_semantic_authority = ''wattetheria ranking projection'',
     dm_latency_class = Warm, dm_consistency_class = ProjectionAfterConfirmation,
     dm_storage_shape = ''ranking_projection'', dm_identity_fields = [''agent_did'', ''public_id'', ''id''],
     dm_payload_version = 1, dm_provisional_export_policy = NeverBeforeConfirmation,
     dm_retention_policy = OverwriteLatest, dm_provenance_fields = DEFAULT_PROVENANCE_FIELDS,
     dm_sla_targets = WARM_PRODUCT_SLA, dm_primary_source = Wattetheria, dm_fallback_source = Some Wattswarm,
     dm_ingest_mode = SnapshotPush, dm_ui_delivery_mode = RestSnapshotBootstrap, dm_hybrid_subtype = None,
     dm_game_client_stable = True, dm_pull_only_fallback_data = False\<rparr>"

definition hive_metadata_row :: "kind_metadata" where
  "hive_metadata_row = \<lparr>dm_kind = HiveMetadata,
     dm_domain = Social, dm_stage = ProductProjection, dm_visibility = Public,
     dm_signing_authority = ''wattetheria node key'',
     dm_semantic_authority = ''wattetheria wraps wattswarm topic facts'', dm_latency_class = Warm,
     dm_consistency_class = ProjectionAfterConfirmation, dm_storage_shape = ''topic_activity_projection'',
     dm_identity_fields = [''topic_id'', ''id''], dm_payload_version = 1,
     dm_provisional_export_policy = NeverBeforeConfirmation, dm_retention_policy = OverwriteLatest,
     dm_provenance_fields = DEFAULT_PROVENANCE_FIELDS, dm_sla_targets = WARM_PRODUCT_SLA, dm_primary_source = Hybrid,
     dm_fallback_source = Some Wattetheria, dm_ingest_mode = DerivedProjection,
     dm_ui_delivery_mode = RestSnapshotBootstrap, dm_hybrid_subtype = Some SemanticWrap, dm_game_client_stable = True,
     dm_pull_only_fallback_data = False\<rparr>"

definition hive_subscription_row :: "kind_metadata" where
  "hive_subscription_row = \<lparr>dm_kind = HiveSubscription,
     dm_domain = Social, dm_stage = MechanismConclusion, dm_visibility = Public,
     dm_signing_authority = ''wattswarm subscription projection signer'',
     dm_semantic_authority = ''wattswarm topic subscription projection'', dm_latency_class = Hot,
     dm_consistency_class = ConfirmedMechanism, dm_storage_shape = ''topic_subscription_projection'',
     dm_identity_fields = [''subscription_id'', ''id''], dm_payload_version = 1,
     dm_provisional_export_policy = NeverBeforeConfirmation, dm_retention_policy = OverwriteLatest,
     dm_provenance_fields = DEFAULT_PROVENANCE_FIELDS, dm_sla_targets = LIVE_MECHANISM_SLA,
     dm_primary_source = Wattswarm, dm_fallback_source = Some Wattetheria, dm_ingest_mode = PullOnly,
     dm_ui_delivery_mode = RestSnapshotBootstrap, dm_hybrid_subtype = None, dm_game_client_stable = True,
     dm_pull_only_fallback_data = False\<rparr>"

definition hive_message_posted_row :: "kind_metadata" where
  "hive_message_posted_row = \<lparr>dm_kind = HiveMessagePosted,
     dm_domain = Social, dm_stage = Input, dm_visibility = Public, dm_signing_authority = ''agent envelope signer'',
     dm_semantic_authority = ''wattswarm topic mechanism'', dm_latency_class = Hot,
     dm_consistency_class = EventualMechanism, dm_storage_shape = ''topic_activity_projection'',
     dm_identity_fields = [''message_id'', ''topic_id'', ''id''], dm_payload_version = 1,
     dm_provisional_export_policy = EphemeralOnly, dm_retention_policy = DropAfterConclusion,
     dm_provenance_fields = DEFAULT_PROVENANCE_FIELDS, dm_sla_targets = LIVE_MECHANISM_SLA,
     dm_primary_source = Wattswarm, dm_fallback_source = Some Wattetheria, dm_ingest_mode = EventPush,
     dm_ui_delivery_mode = WsStream, dm_hybrid_subtype = None, dm_game_client_stable = True,
     dm_pull_only_fallback_data = False\<rparr>"

definition hive_activity_row :: "kind_metadata" where
  "hive_activity_row = \<lparr>dm_kind = HiveActivity,
     dm_domain = Social, dm_stage = MechanismConclusion, dm_visibility = Public,
     dm_signing_authority = ''wattswarm message projection signer'', dm_semantic_authority = ''wattswarm topic history'',
     dm_latency_class = Hot, dm_consistency_class = ConfirmedMechanism, dm_storage_shape = ''topic_activity_projection'',
     dm_identity_fields = [''message_id'', ''topic_id'', ''id''], dm_payload_version = 1,
     dm_provisional_export_policy = NeverBeforeConfirmation, dm_retention_policy = RollingNDays,
     dm_provenance_fields = DEFAULT_PROVENANCE_FIELDS, dm_sla_targets = LIVE_MECHANISM_SLA,
     dm_primary_source = Wattswarm, dm_fallback_source = Some Wattetheria, dm_ingest_mode = PullOnly,
     dm_ui_delivery_mode = WsStream, dm_hybrid_subtype = None, dm_game_client_stable = True,
     dm_pull_only_fallback_data = False\<rparr>"

definition board_activity_row :: "kind_metadata" where
  "board_activity_row = \<lparr>dm_kind = BoardActivity,
     dm_domain = Social, dm_stage = ProductProjection, dm_visibility = Public,
     dm_signing_authority = ''wattetheria node key'', dm_semantic_authority = ''wattetheria message board'',
     dm_latency_class = Warm, dm_consistency_class = ProjectionAfterConfirmation,
     dm_storage_shape = ''board_activity_projection'', dm_identity_fields = [''message_id'', ''id''],
     dm_payload_version = 1, dm_provisional_export_policy = NeverBeforeConfirmation, dm_retention_policy = RollingNDays,
     dm_provenance_fields = DEFAULT_PROVENANCE_FIELDS, dm_sla_targets = WARM_PRODUCT_SLA,
     dm_primary_source = Wattetheria, dm_fallback_source = None, dm_ingest_mode = SnapshotPush,
     dm_ui_delivery_mode = WsStream, dm_hybrid_subtype = None, dm_game_client_stable = True,
     dm_pull_only_fallback_data = False\<rparr>"

definition friend_relationship_row :: "data_kind \<Rightarrow> kind_metadata" where
  "friend_relationship_row kind = \<lparr>dm_kind = kind,
     dm_domain = Social, dm_stage = AggregatedSummary, dm_visibility = Public,
     dm_signing_authority = ''wattetheria node key'', dm_semantic_authority = ''relationship state machine'',
     dm_latency_class = Warm, dm_consistency_class = LocalCommit, dm_storage_shape = ''node_public_state'',
     dm_identity_fields = [''counterpart_public_id'', ''public_id'', ''id''], dm_payload_version = 1,
     dm_provisional_export_policy = NeverBeforeConfirmation, dm_retention_policy = OverwriteLatest,
     dm_provenance_fields = DEFAULT_PROVENANCE_FIELDS, dm_sla_targets = WARM_PRODUCT_SLA, dm_primary_source = Hybrid,
     dm_fallback_source = Some Wattetheria, dm_ingest_mode = SnapshotPush, dm_ui_delivery_mode = RestPoll,
     dm_hybrid_subtype = Some Overlay, dm_game_client_stable = True, dm_pull_only_fallback_data = False\<rparr>"

definition social_thread_row :: "data_kind \<Rightarrow> kind_metadata" where
  "social_thread_row kind = \<lparr>dm_kind = kind,
     dm_domain = Social, dm_stage = AggregatedSummary, dm_visibility = Protected,
     dm_signing_authority = ''wattetheria node key'', dm_semantic_authority = ''conversation projection'',
     dm_latency_class = Warm, dm_consistency_class = SnapshotLatest, dm_storage_shape = ''node_public_state'',
     dm_identity_fields = [''thread_id'', ''id''], dm_payload_version = 1,
     dm_provisional_export_policy = NeverBeforeConfirmation, dm_retention_policy = OverwriteLatest,
     dm_provenance_fields = DEFAULT_PROVENANCE_FIELDS, dm_sla_targets = WARM_PRODUCT_SLA, dm_primary_source = Hybrid,
     dm_fallback_source = Some Wattetheria, dm_ingest_mode = SnapshotPush, dm_ui_delivery_mode = RestOnDemand,
     dm_hybrid_subtype = Some Overlay, dm_game_client_stable = True, dm_pull_only_fallback_data = False\<rparr>"

definition dm_message_row :: "kind_metadata" where
  "dm_message_row = \<lparr>dm_kind = DmMessage,
     dm_domain = Social, dm_stage = AggregatedSummary, dm_visibility = Protected,
     dm_signing_authority = ''wattetheria node key'', dm_semantic_authority = ''conversation projection'',
     dm_latency_class = Warm, dm_consistency_class = SnapshotLatest, dm_storage_shape = ''node_public_state'',
     dm_identity_fields = [''message_id'', ''id''], dm_payload_version = 1,
     dm_provisional_export_policy = NeverBeforeConfirmation, dm_retention_policy = RollingNDays,
     dm_provenance_fields = DEFAULT_PROVENANCE_FIELDS, dm_sla_targets = WARM_PRODUCT_SLA, dm_primary_source = Hybrid,
     dm_fallback_source = Some Wattetheria, dm_ingest_mode = SnapshotPush, dm_ui_delivery_mode = RestOnDemand,
     dm_hybrid_subtype = Some Overlay, dm_game_client_stable = True, dm_pull_only_fallback_data = False\<rparr>"

definition network_projection_row :: "kind_metadata" where
  "network_projection_row = \<lparr>dm_kind = NetworkProjection,
     dm_domain = Network, dm_stage = AggregatedSummary, dm_visibility = Public,
     dm_signing_authority = ''wattswarm network snapshot signer'', dm_semantic_authority = ''shared-fact network view'',
     dm_latency_class = Warm, dm_consistency_class = ProjectionAfterConfirmation,
     dm_storage_shape = ''network_projection'', dm_identity_fields = [''node_id'', ''network_id'', ''id''],
     dm_payload_version = 1, dm_provisional_export_policy = NeverBeforeConfirmation,
     dm_retention_policy = OverwriteLatest, dm_provenance_fields = DEFAULT_PROVENANCE_FIELDS,
     dm_sla_targets = WARM_PRODUCT_SLA, dm_primary_source = Wattswarm, dm_fallback_source = Some Wattetheria,
     dm_ingest_mode = PullOnly, dm_ui_delivery_mode = RestPoll, dm_hybrid_subtype = None, dm_game_client_stable = True,
     dm_pull_only_fallback_data = False\<rparr>"

definition travel_state_row :: "kind_metadata" where
  "travel_state_row = \<lparr>dm_kind = TravelState,
     dm_domain = World, dm_stage = ProductProjection, dm_visibility = Public,
     dm_signing_authority = ''wattetheria node key'', dm_semantic_authority = ''travel state registry'',
     dm_latency_class = Warm, dm_consistency_class = LocalCommit, dm_storage_shape = ''node_public_state'',
     dm_identity_fields = [''route_id'', ''public_id'', ''id''], dm_payload_version = 1,
     dm_provisional_export_policy = NeverBeforeConfirmation, dm_retention_policy = OverwriteLatest,
     dm_provenance_fields = DEFAULT_PROVENANCE_FIELDS, dm_sla_targets = WARM_PRODUCT_SLA,
     dm_primary_source = Wattetheria, dm_fallback_source = None, dm_ingest_mode = SnapshotPush,
     dm_ui_delivery_mode = RestSnapshotBootstrap, dm_hybrid_subtype = None, dm_game_client_stable = True,
     dm_pull_only_fallback_data = False\<rparr>"

definition galaxy_event_row :: "data_kind \<Rightarrow> kind_metadata" where
  "galaxy_event_row kind = \<lparr>dm_kind = kind,
     dm_domain = World, dm_stage = ProductProjection, dm_visibility = Public,
     dm_signing_authority = (if kind = WorldEvent then ''trusted Network Authority key'' else ''wattetheria node key''),
     dm_semantic_authority = ''world rule engine'', dm_latency_class = (if kind = GalaxyEvent then Hot else Warm),
     dm_consistency_class = LocalCommit, dm_storage_shape = ''task_conclusion_projection'',
     dm_identity_fields = [''event_id'', ''id''], dm_payload_version = 1,
     dm_provisional_export_policy = NeverBeforeConfirmation,
     dm_retention_policy = (if kind = GalaxyEvent then RollingNDays else Forever),
     dm_provenance_fields = DEFAULT_PROVENANCE_FIELDS,
     dm_sla_targets = (if kind = GalaxyEvent then LIVE_MECHANISM_SLA else ALWAYS_PUBLIC_SLA),
     dm_primary_source = Wattetheria, dm_fallback_source = None, dm_ingest_mode = EventPush,
     dm_ui_delivery_mode = WsStream, dm_hybrid_subtype = None, dm_game_client_stable = True,
     dm_pull_only_fallback_data = False\<rparr>"

fun data_kind_metadata :: "data_kind \<Rightarrow> kind_metadata" where
  "data_kind_metadata SpacePresence = space_presence_row"
| "data_kind_metadata Presence = presence_row"
| "data_kind_metadata Identity = identity_row Identity"
| "data_kind_metadata OperatorProfile = identity_row OperatorProfile"
| "data_kind_metadata OrganizationSummary = identity_row OrganizationSummary"
| "data_kind_metadata MissionLifecycle = mission_lifecycle_row"
| "data_kind_metadata TaskSummary = task_summary_row"
| "data_kind_metadata TaskVoteSignal = task_vote_signal_row TaskVoteSignal"
| "data_kind_metadata TaskRoundUpdate = task_vote_signal_row TaskRoundUpdate"
| "data_kind_metadata TaskDecisionFinalized = task_decision_finalized_row"
| "data_kind_metadata GovernanceProposal = governance_proposal_row GovernanceProposal"
| "data_kind_metadata GovernanceVote = governance_proposal_row GovernanceVote"
| "data_kind_metadata GovernanceDecision = governance_proposal_row GovernanceDecision"
| "data_kind_metadata OracleFeedUpdate = oracle_feed_update_row"
| "data_kind_metadata SettlementEvent = settlement_event_row SettlementEvent"
| "data_kind_metadata ReputationUpdate = settlement_event_row ReputationUpdate"
| "data_kind_metadata RankingProjection = ranking_projection_row"
| "data_kind_metadata HiveMetadata = hive_metadata_row"
| "data_kind_metadata HiveSubscription = hive_subscription_row"
| "data_kind_metadata HiveMessagePosted = hive_message_posted_row"
| "data_kind_metadata HiveActivity = hive_activity_row"
| "data_kind_metadata BoardActivity = board_activity_row"
| "data_kind_metadata FriendRelationship = friend_relationship_row FriendRelationship"
| "data_kind_metadata FriendRequestPending = friend_relationship_row FriendRequestPending"
| "data_kind_metadata PublicBlock = friend_relationship_row PublicBlock"
| "data_kind_metadata SocialThread = social_thread_row SocialThread"
| "data_kind_metadata DmSummary = social_thread_row DmSummary"
| "data_kind_metadata DmMessage = dm_message_row"
| "data_kind_metadata NetworkProjection = network_projection_row"
| "data_kind_metadata TravelState = travel_state_row"
| "data_kind_metadata GalaxyEvent = galaxy_event_row GalaxyEvent"
| "data_kind_metadata WorldEvent = galaxy_event_row WorldEvent"

lemmas catalog_rows = space_presence_row_def presence_row_def identity_row_def mission_lifecycle_row_def task_summary_row_def
  task_vote_signal_row_def task_decision_finalized_row_def governance_proposal_row_def oracle_feed_update_row_def settlement_event_row_def
  ranking_projection_row_def hive_metadata_row_def hive_subscription_row_def hive_message_posted_row_def hive_activity_row_def
  board_activity_row_def friend_relationship_row_def social_thread_row_def dm_message_row_def network_projection_row_def
  travel_state_row_def galaxy_event_row_def
  ALWAYS_PUBLIC_SLA_def LIVE_MECHANISM_SLA_def WARM_PRODUCT_SLA_def

section \<open>Policies\<close>

record kind_policy =
  dp_ingest_mode :: ingest_mode
  dp_ui_delivery_mode :: ui_delivery_mode
  dp_hybrid_subtype :: "hybrid_subtype option"
  dp_visibility :: visibility

definition data_kind_policy :: "data_kind \<Rightarrow> kind_policy" where
  "data_kind_policy kind = (let m = data_kind_metadata kind in
     \<lparr>dp_ingest_mode = dm_ingest_mode m, dp_ui_delivery_mode = dm_ui_delivery_mode m,
       dp_hybrid_subtype = dm_hybrid_subtype m, dp_visibility = dm_visibility m\<rparr>)"

record source_plan =
  sp_primary :: source_system
  sp_fallback :: "source_system option"
  sp_ingest_mode :: ingest_mode
  sp_ui_delivery_mode :: ui_delivery_mode
  sp_hybrid_subtype :: "hybrid_subtype option"
  sp_pull_only_fallback_data :: bool

definition source_policy :: "data_kind \<Rightarrow> source_plan" where
  "source_policy kind = (let m = data_kind_metadata kind in
     \<lparr>sp_primary = dm_primary_source m, sp_fallback = dm_fallback_source m, sp_ingest_mode = dm_ingest_mode m,
       sp_ui_delivery_mode = dm_ui_delivery_mode m, sp_hybrid_subtype = dm_hybrid_subtype m,
       sp_pull_only_fallback_data = dm_pull_only_fallback_data m\<rparr>)"

definition allows_public_stream :: "data_kind \<Rightarrow> bool" where
  "allows_public_stream kind = (let m = data_kind_metadata kind in dm_visibility m = Public \<and> dm_ui_delivery_mode m = WsStream)"

definition visibility_for_kind :: "data_kind \<Rightarrow> visibility" where
  "visibility_for_kind kind = dm_visibility (data_kind_metadata kind)"

text \<open>\<open>find_map\<close> over the identity fields stops at the first one that holds a string, blank or not.\<close>

definition projection_identity_key :: "data_kind \<Rightarrow> json \<Rightarrow> string \<Rightarrow> string" where
  "projection_identity_key kind value fallback =
    (case List.map_filter (\<lambda>key. Option.bind (jget key value) as_str) (dm_identity_fields (data_kind_metadata kind)) of
       candidate # _ \<Rightarrow> if blank candidate then fallback else candidate
     | [] \<Rightarrow> fallback)"

section \<open>Well-formedness\<close>

lemma projection_identity_key_not_blank:
  "\<not> blank fallback \<Longrightarrow> \<not> blank (projection_identity_key kind value fallback)"
  by (simp add: projection_identity_key_def split: list.split)



end
