(* ===== verification/Gw_Models.thy ===== *)
theory Gw_Models
  imports Catalog
begin

text \<open>
  The data of the gateway crate (\<open>models.rs\<close>, \<open>contracts.rs\<close>) and of the contract crates it uses, and the
  functions of other repositories it calls. The latter are the fields of \<open>gw_externs\<close>, an argument \<open>X\<close> of every
  definition that calls one: Ed25519, base64, DID keys, canonical JSON, the serde forms of contract types,
  and PostgreSQL's \<open>to_timestamp\<close>.
\<close>

section \<open>Signed data of the nodes\<close>

record event_scope =
  scp_node_id :: "string option"
  scp_topic_id :: "string option"
  scp_organization_id :: "string option"
  scp_task_id :: "string option"

record node_event_payload =
  nev_event_id :: string
  nev_node_id :: string
  nev_public_key :: string
  nev_signer_agent_did :: string
  nev_seq :: u64
  nev_timestamp :: int
  nev_data_kind :: data_kind
  nev_event_kind :: string
  nev_visibility :: visibility
  nev_provisional_policy :: provisional_export_policy
  nev_scope :: event_scope
  nev_identity_key :: "string option"
  nev_payload :: json

record signed_node_event =
  sev_payload :: node_event_payload
  sev_signature :: string

text \<open>What an agent signs about its place in a space, and a node about being alive.\<close>

record space_presence_record =
  spr_network_id :: string
  spr_space_id :: string
  spr_space_version :: string
  spr_agent_did :: string
  spr_seq :: u64
  spr_destination_place_id :: string
  spr_path :: string
  spr_activity :: json
  spr_entered :: bool
  spr_updated_at :: int

record signed_space_presence =
  ssp_record :: space_presence_record
  ssp_public_key :: string
  ssp_signature :: string

record node_presence =
  npr_node_id :: string
  npr_agent_did :: string
  npr_last_heartbeat_ms :: int
  npr_heartbeat_interval_sec :: int

record event_announcement =
  ann_announcement_id :: string
  ann_network_id :: string
  ann_authority_node_id :: string
  ann_issued_at :: u64
  ann_content :: json
  ann_authority_signature :: string

record world_event =
  wev_event_id :: string
  wev_space_id :: string
  wev_place_id :: string
  wev_title :: string
  wev_starts_at :: int
  wev_ends_at :: int

record public_client_snapshot =
  snap_generated_at :: int
  snap_node_id :: string
  snap_agent_identity :: "string option"
  snap_public_id :: "string option"
  snap_public_key :: string
  snap_network_name :: "string option"
  snap_network_org_name :: "string option"
  snap_network_status :: json
  snap_nodes :: "json list option"
  snap_peers :: "json list"
  snap_operator :: json
  snap_rpc_logs :: "json list"
  snap_public_blocks :: "json list"
  snap_public_topics :: "json list"
  snap_public_topic_messages :: "json list"
  snap_public_board_messages :: "json list"
  snap_space_presences :: "signed_space_presence list"
  snap_node_presence :: "node_presence option"
  snap_world_events :: "json list"
  snap_swarm_task_activity :: json
  snap_tasks :: "json list"
  snap_organizations :: "json list"
  snap_leaderboard :: "json list"

record signed_snapshot =
  ssn_payload :: public_client_snapshot
  ssn_signature :: string
  ssn_signer_agent_did :: string

record gateway_manifest =
  man_generated_at :: int
  man_gateway_id :: string
  man_display_name :: string
  man_base_url :: string
  man_public_key :: string
  man_region :: "string option"
  man_operator_did :: "string option"
  man_roles :: "string list"
  man_supported_endpoints :: "string list"
  man_federation_peers :: "string list"
  man_allows_public_ingest :: bool

record signed_manifest =
  sman_payload :: gateway_manifest
  sman_signature :: string

section \<open>Events for user interfaces\<close>

record ui_event =
  uev_cursor :: int
  uev_event_id :: string
  uev_node_id :: string
  uev_data_kind :: data_kind
  uev_event_kind :: string
  uev_visibility :: visibility
  uev_provisional :: bool
  uev_scope :: event_scope
  uev_generated_at :: int
  uev_payload :: json

record ui_stream_query =
  usq_token :: "string option"
  usq_cursor :: "int option"
  usq_limit :: "u64 option"
  usq_data_kind :: "data_kind option"
  usq_node_id :: "string option"
  usq_topic_id :: "string option"
  usq_organization_id :: "string option"
  usq_task_id :: "string option"

section \<open>Functions of other crates\<close>

datatype did_key = DidEd25519 string | DidOther

record gw_externs =
  gx_to_timestamp :: "rat \<Rightarrow> instant result"
  gx_kind_name :: "data_kind \<Rightarrow> string"
  gx_kind_of :: "string \<Rightarrow> data_kind result"
  gx_visibility_name :: "visibility \<Rightarrow> string"
  gx_visibility_of :: "string \<Rightarrow> visibility result"
  gx_jcs :: "json \<Rightarrow> string result"
  gx_did_key :: "string \<Rightarrow> did_key result"
  gx_b64_encode :: "string \<Rightarrow> string"
  gx_b64_decode :: "string \<Rightarrow> string result"
  gx_verifying_key :: "string \<Rightarrow> bool"
  gx_ed25519 :: "string \<Rightarrow> string \<Rightarrow> string \<Rightarrow> bool"
  gx_event_json :: "node_event_payload \<Rightarrow> json"
  gx_signed_event_json :: "signed_node_event \<Rightarrow> json"
  gx_presence_record_json :: "space_presence_record \<Rightarrow> json"
  gx_presence_json :: "signed_space_presence \<Rightarrow> json"
  gx_parse_presence :: "json \<Rightarrow> signed_space_presence result"
  gx_node_presence_json :: "node_presence \<Rightarrow> json"
  gx_parse_node_presence :: "json \<Rightarrow> node_presence result"
  gx_parse_announcement :: "json \<Rightarrow> event_announcement result"
  gx_unsigned_announcement :: "event_announcement \<Rightarrow> json"
  gx_parse_world_event :: "json \<Rightarrow> world_event result"
  gx_world_event_json :: "world_event \<Rightarrow> json"
  gx_validate_activity :: "json \<Rightarrow> unit result"
  gx_ui_event_text :: "ui_event \<Rightarrow> string result"
  gx_jsonb_text :: "json \<Rightarrow> string"

section \<open>Serialisation\<close>

definition jstrs :: "string list \<Rightarrow> json" where
  "jstrs ss = JArr (map JStr ss)"

text \<open>\<open>skip_serializing_if\<close>: the entry is left out.\<close>

definition some_entry :: "string \<Rightarrow> json option \<Rightarrow> (string \<times> json) list" where
  "some_entry k v = (case v of None \<Rightarrow> [] | Some j \<Rightarrow> [(k, j)])"

definition nonempty_entry :: "string \<Rightarrow> json list \<Rightarrow> (string \<times> json) list" where
  "nonempty_entry k vs = (if vs = [] then [] else [(k, JArr vs)])"

definition snapshot_json :: "gw_externs \<Rightarrow> public_client_snapshot \<Rightarrow> json" where
  "snapshot_json X s = json_obj
    ([(''generated_at'', JInt (snap_generated_at s)), (''node_id'', JStr (snap_node_id s))]
     @ some_entry ''agent_identity'' (map_option JStr (snap_agent_identity s))
     @ some_entry ''public_id'' (map_option JStr (snap_public_id s))
     @ [(''public_key'', JStr (snap_public_key s))]
     @ some_entry ''network_name'' (map_option JStr (snap_network_name s))
     @ some_entry ''network_org_name'' (map_option JStr (snap_network_org_name s))
     @ [(''network_status'', snap_network_status s)]
     @ some_entry ''nodes'' (map_option JArr (snap_nodes s))
     @ [(''peers'', JArr (snap_peers s)), (''operator'', snap_operator s), (''rpc_logs'', JArr (snap_rpc_logs s)),
        (''public_blocks'', JArr (snap_public_blocks s)), (''public_topics'', JArr (snap_public_topics s)),
        (''public_topic_messages'', JArr (snap_public_topic_messages s))]
     @ nonempty_entry ''public_board_messages'' (snap_public_board_messages s)
     @ nonempty_entry ''space_presences'' (map (gx_presence_json X) (snap_space_presences s))
     @ some_entry ''node_presence'' (map_option (gx_node_presence_json X) (snap_node_presence s))
     @ nonempty_entry ''world_events'' (snap_world_events s)
     @ [(''swarm_task_activity'', snap_swarm_task_activity s), (''tasks'', JArr (snap_tasks s)),
        (''organizations'', JArr (snap_organizations s)), (''leaderboard'', JArr (snap_leaderboard s))])"

definition manifest_json :: "gateway_manifest \<Rightarrow> json" where
  "manifest_json m = json_obj
    [(''generated_at'', JInt (man_generated_at m)), (''gateway_id'', JStr (man_gateway_id m)),
     (''display_name'', JStr (man_display_name m)), (''base_url'', JStr (man_base_url m)),
     (''public_key'', JStr (man_public_key m)), (''region'', jopt_str (man_region m)),
     (''operator_did'', jopt_str (man_operator_did m)), (''roles'', jstrs (man_roles m)),
     (''supported_endpoints'', jstrs (man_supported_endpoints m)),
     (''federation_peers'', jstrs (man_federation_peers m)), (''allows_public_ingest'', JBool (man_allows_public_ingest m))]"

end
