(* ===== verification/Gw_Verify.thy ===== *)
theory Gw_Verify
  imports Gw_Models
begin

text \<open>
  Signatures of nodes, agents, gateways and Network Authorities (\<open>verify.rs\<close>, and the checks of \<open>space.rs\<close>
  on presences, world events and board rows). \<open>signed_by\<close> is what all of them come down to: an Ed25519
  signature over the canonical JSON under a base64 key.
\<close>

section \<open>Signatures\<close>

definition canonical_bytes :: "gw_externs \<Rightarrow> json \<Rightarrow> string result" where
  "canonical_bytes X payload = (case gx_jcs X payload of Inl e \<Rightarrow> Inl ''canonicalize payload'' | Inr s \<Rightarrow> Inr s)"

definition with_context :: "string \<Rightarrow> 'a result \<Rightarrow> 'a result" where
  "with_context c r = (case r of Inl e \<Rightarrow> Inl c | Inr a \<Rightarrow> Inr a)"

definition verify_canonical_signature :: "gw_externs \<Rightarrow> json \<Rightarrow> string \<Rightarrow> string \<Rightarrow> string \<Rightarrow> unit result" where
  "verify_canonical_signature X payload signature_b64 public_key_b64 label =
    and_then (with_context ''decode public key base64'' (gx_b64_decode X public_key_b64)) (\<lambda>public.
    and_then (with_context ''decode signature base64'' (gx_b64_decode X signature_b64)) (\<lambda>signature.
    if length public \<noteq> 32 then Inl ''invalid public key length''
    else if \<not> gx_verifying_key X public then Inl ''decode ed25519 verifying key''
    else if length signature \<noteq> 64 then Inl ''invalid signature length''
    else and_then (canonical_bytes X payload) (\<lambda>bytes.
    if gx_ed25519 X public bytes signature then Inr () else Inl (''verify '' @ label))))"

definition public_key_b64_from_did_key :: "gw_externs \<Rightarrow> string \<Rightarrow> string result" where
  "public_key_b64_from_did_key X agent_did =
    and_then (gx_did_key X agent_did) (\<lambda>k. case k of
        DidEd25519 bytes \<Rightarrow> Inr (gx_b64_encode X bytes)
      | DidOther \<Rightarrow> Inl ''did:key is not an Ed25519 verification key'')"

definition public_key_b64_from_ref :: "gw_externs \<Rightarrow> string \<Rightarrow> string result" where
  "public_key_b64_from_ref X r = (if starts_with ''did:'' r then public_key_b64_from_did_key X r else Inr r)"

section \<open>Snapshots, events and manifests\<close>

text \<open>The signer named with the data must be the expected one: the same text, or another name of the same key.\<close>

definition check_expected_signer :: "gw_externs \<Rightarrow> string \<Rightarrow> string \<Rightarrow> string \<Rightarrow> string \<Rightarrow> string option \<Rightarrow> unit result" where
  "check_expected_signer X resolve_context mismatch signer signer_key expected =
    (case expected of None \<Rightarrow> Inr ()
     | Some e \<Rightarrow> and_then (with_context resolve_context (public_key_b64_from_ref X e)) (\<lambda>expected_key.
         if signer \<noteq> e \<and> signer_key \<noteq> expected_key
         then Inl (mismatch @ ''expected '' @ e @ '', got '' @ signer) else Inr ()))"

definition verify_signed_snapshot :: "gw_externs \<Rightarrow> signed_snapshot \<Rightarrow> string option \<Rightarrow> unit result" where
  "verify_signed_snapshot X snapshot expected =
    (let payload = ssn_payload snapshot in
     and_then (with_context ''resolve signer_agent_did public key'' (public_key_b64_from_ref X (ssn_signer_agent_did snapshot))) (\<lambda>signer_key.
     if blank (snap_node_id payload) then Inl ''snapshot node_id is empty''
     else if blank (snap_public_key payload) then Inl ''snapshot public_key is empty''
     else and_then (check_expected_signer X ''resolve expected_signer_agent_did public key'' ''unexpected signer_agent_did: ''
       (ssn_signer_agent_did snapshot) signer_key expected) (\<lambda>_.
     if signer_key \<noteq> snap_public_key payload then Inl ''signer_agent_did does not resolve to payload public_key''
     else verify_canonical_signature X (snapshot_json X payload) (ssn_signature snapshot) (snap_public_key payload) ''snapshot signature'')))"

definition verify_signed_node_event :: "gw_externs \<Rightarrow> signed_node_event \<Rightarrow> string option \<Rightarrow> unit result" where
  "verify_signed_node_event X event expected =
    (let payload = sev_payload event in
     and_then (with_context ''resolve node event signer_agent_did public key'' (public_key_b64_from_ref X (nev_signer_agent_did payload))) (\<lambda>signer_key.
     if blank (nev_event_id payload) then Inl ''node event event_id is empty''
     else if blank (nev_node_id payload) then Inl ''node event node_id is empty''
     else if blank (nev_public_key payload) then Inl ''node event public_key is empty''
     else if blank (nev_event_kind payload) then Inl ''node event event_kind is empty''
     else and_then (check_expected_signer X ''resolve expected_signer_agent_did public key for node event'' ''unexpected node event signer_agent_did: ''
       (nev_signer_agent_did payload) signer_key expected) (\<lambda>_.
     if signer_key \<noteq> nev_public_key payload then Inl ''node event signer_agent_did does not resolve to payload public_key''
     else verify_canonical_signature X (gx_event_json X payload) (sev_signature event) (nev_public_key payload) ''node event signature'')))"

definition verify_signed_gateway_manifest :: "gw_externs \<Rightarrow> signed_manifest \<Rightarrow> unit result" where
  "verify_signed_gateway_manifest X manifest =
    (let payload = sman_payload manifest in
     if blank (man_gateway_id payload) then Inl ''manifest gateway_id is empty''
     else if blank (man_display_name payload) then Inl ''manifest display_name is empty''
     else if blank (man_base_url payload) then Inl ''manifest base_url is empty''
     else if blank (man_public_key payload) then Inl ''manifest public_key is empty''
     else if man_roles payload = [] then Inl ''manifest roles must not be empty''
     else verify_canonical_signature X (manifest_json payload) (sman_signature manifest) (man_public_key payload) ''gateway manifest signature'')"

section \<open>Presences and world events\<close>

definition verify_signed_space_presence :: "gw_externs \<Rightarrow> signed_space_presence \<Rightarrow> unit result" where
  "verify_signed_space_presence X presence =
    and_then (public_key_b64_from_did_key X (spr_agent_did (ssp_record presence))) (\<lambda>key.
    if key \<noteq> ssp_public_key presence then Inl ''space presence agent_did does not resolve to public_key''
    else verify_canonical_signature X (gx_presence_record_json X (ssp_record presence)) (ssp_signature presence) (ssp_public_key presence)
      ''space presence signature'')"

definition validate_presence :: "gw_externs \<Rightarrow> signed_space_presence \<Rightarrow> unit result" where
  "validate_presence X presence =
    (let r = ssp_record presence in
     and_then (verify_signed_space_presence X presence) (\<lambda>_.
     if spr_seq r = 0 then Inl ''presence sequence must be positive''
     else and_then (gx_validate_activity X (spr_activity r)) (\<lambda>_.
     if blank (spr_network_id r) \<or> blank (spr_space_id r) \<or> blank (spr_space_version r) \<or> blank (spr_destination_place_id r)
     then Inl ''presence network, space, version and destination identifiers are required''
     else if \<not> list_all (\<lambda>step. step \<in> set ''URDL'') (spr_path r) then Inl ''presence path must contain only U/R/D/L''
     else Inr ())))"

definition validate_node_presence :: "node_presence \<Rightarrow> string \<Rightarrow> string \<Rightarrow> unit result" where
  "validate_node_presence presence node_id agent_did =
    (if npr_node_id presence \<noteq> node_id \<or> npr_agent_did presence \<noteq> agent_did
     then Inl ''node heartbeat identity does not match its authenticated source''
     else if \<not> (1 \<le> npr_heartbeat_interval_sec presence \<and> npr_heartbeat_interval_sec presence \<le> 300)
     then Inl ''node heartbeat interval must be between 1 and 300 seconds'' else Inr ())"

text \<open>The pinned authorities: the hexadecimal key of each network.\<close>

type_synonym authorities = "(string \<times> string) list"

definition validate_world_event_with_authorities :: "gw_externs \<Rightarrow> json \<Rightarrow> authorities \<Rightarrow> unit result" where
  "validate_world_event_with_authorities X payload pins =
    and_then (gx_parse_announcement X payload) (\<lambda>a.
    and_then (or_err (map_of pins (ann_network_id a)) ''unknown trusted network'') (\<lambda>authority.
    if ann_authority_node_id a \<noteq> authority then Inl ''announcement signer is not the trusted Network Authority''
    else and_then (or_err (hex_decode authority) ''invalid hex'') (\<lambda>public.
    and_then (or_err (hex_decode (ann_authority_signature a)) ''invalid hex'') (\<lambda>signature.
    and_then (verify_canonical_signature X (gx_unsigned_announcement X a) (gx_b64_encode X signature) (gx_b64_encode X public)
      ''Network Authority announcement signature'') (\<lambda>_.
    and_then (gx_parse_world_event X (ann_content a)) (\<lambda>w.
    if blank (wev_event_id w) \<or> wev_event_id w \<noteq> ann_announcement_id a then Inl ''world event_id must match announcement_id''
    else if blank (wev_space_id w) \<or> blank (wev_place_id w) then Inl ''world event space and place identifiers are required''
    else if blank (wev_title w) then Inl ''world event title is required''
    else if wev_ends_at w \<le> wev_starts_at w then Inl ''world event end must follow start'' else Inr ()))))))"

text \<open>The environment variable and the file it names are read on every call: \<open>pins\<close> is what that yields now.\<close>

definition validate_world_event :: "gw_externs \<Rightarrow> authorities result \<Rightarrow> json \<Rightarrow> unit result" where
  "validate_world_event X pins payload = and_then pins (validate_world_event_with_authorities X payload)"

definition validate_event :: "gw_externs \<Rightarrow> authorities result \<Rightarrow> signed_node_event \<Rightarrow> unit result" where
  "validate_event X pins event =
    (let p = sev_payload event in
     case nev_data_kind p of
       Presence \<Rightarrow>
         if nev_event_kind p \<noteq> ''node.presence.heartbeat'' then Inr ()
         else if nev_visibility p \<noteq> Public \<or> nev_provisional_policy p \<noteq> EphemeralOnly
         then Inl ''node heartbeat must be public ephemeral data''
         else and_then (gx_parse_node_presence X (nev_payload p)) (\<lambda>presence.
           validate_node_presence presence (nev_node_id p) (nev_signer_agent_did p))
     | SpacePresence \<Rightarrow>
         if nev_visibility p \<noteq> Public \<or> nev_provisional_policy p \<noteq> NeverBeforeConfirmation
         then Inl ''space presence must be confirmed public data''
         else and_then (gx_parse_presence X (nev_payload p)) (validate_presence X)
     | WorldEvent \<Rightarrow>
         if nev_visibility p \<noteq> Public \<or> nev_provisional_policy p \<noteq> NeverBeforeConfirmation
         then Inl ''world events must be confirmed public data''
         else validate_world_event X pins (nev_payload p)
     | _ \<Rightarrow> Inr ())"

definition is_space_event :: "signed_node_event \<Rightarrow> bool" where
  "is_space_event event \<longleftrightarrow> nev_data_kind (sev_payload event) \<in> {SpacePresence, WorldEvent}"

section \<open>Board rows\<close>

text \<open>\<open>value["key"]\<close> of \<open>serde_json\<close> is \<open>Null\<close> when the key is missing.\<close>

definition jindex :: "string \<Rightarrow> json \<Rightarrow> json" where
  "jindex k v = (case jget k v of None \<Rightarrow> JNull | Some w \<Rightarrow> w)"

definition board_announcement :: "json \<Rightarrow> json option" where
  "board_announcement value =
    (let content = jget ''content'' value;
         typed = (Option.bind (Option.bind content (jget ''type'')) as_str = Some ''EventAnnouncement'');
         kind = (Option.bind (jget ''global_kind'' value) as_str = Some ''EventAnnouncement'')
     in if typed \<or> kind then Some (case Option.bind content (jget ''payload'') of None \<Rightarrow> JNull | Some p \<Rightarrow> p) else None)"

definition obj_remove :: "string \<Rightarrow> json_map \<Rightarrow> json_map" where
  "obj_remove k o' = filter (\<lambda>(k', _). k' \<noteq> k) o'"

definition trusted_board_message_with_authorities :: "gw_externs \<Rightarrow> json \<Rightarrow> authorities \<Rightarrow> json result" where
  "trusted_board_message_with_authorities X value pins =
    (case as_object value of None \<Rightarrow> Inr value
     | Some o' \<Rightarrow> (case board_announcement value of
         None \<Rightarrow> Inr (JObj (obj_remove ''world_event'' o'))
       | Some announcement \<Rightarrow>
           and_then (validate_world_event_with_authorities X announcement pins) (\<lambda>_.
           and_then (gx_parse_world_event X (jindex ''content'' announcement)) (\<lambda>world.
           Inr (JObj (obj_insert ''world_event'' (gx_world_event_json X world) o'))))))"

definition trusted_board_message :: "gw_externs \<Rightarrow> authorities result \<Rightarrow> json \<Rightarrow> json result" where
  "trusted_board_message X pins value =
    (if board_announcement value = None then trusted_board_message_with_authorities X value []
     else and_then pins (trusted_board_message_with_authorities X value))"

definition trusted_board_messages :: "gw_externs \<Rightarrow> authorities result \<Rightarrow> json list \<Rightarrow> json list" where
  "trusted_board_messages X pins values =
    List.map_filter (\<lambda>v. case trusted_board_message X pins v of Inr w \<Rightarrow> Some w | Inl _ \<Rightarrow> None) values"

end
