(* ===== verification/Gw_Store.thy ===== *)
theory Gw_Store
  imports Gw_Verify Tables Float64
begin

text \<open>
  The tables of the gateway and the statements on them (\<open>db.rs\<close>, and the space tables of \<open>space.rs\<close>). A
  function takes the instant \<open>now()\<close> of its transaction and the database and returns its result with the
  database afterwards; an error leaves the tables as they were. A \<open>bigserial\<close> draws its next number before a
  conflict is seen, so the sequences advance on every attempt.
\<close>

section \<open>Tables\<close>

record source_row =
  src_id :: string
  src_name :: string
  src_export_url :: string
  src_snapshot_export_url :: "string option"
  src_events_export_url :: "string option"
  src_ui_base_url :: "string option"
  src_sync_grpc_endpoint :: "string option"
  src_region :: "string option"
  src_expected_signer :: "string option"
  src_expected_node_id :: "string option"
  src_status :: string
  src_created_at :: instant
  src_updated_at :: instant
  src_last_sync_at :: "instant option"
  src_last_sync_status :: "string option"
  src_last_error :: "string option"
  src_capabilities :: "json option"
  src_contact :: "json option"

record snapshot_row =
  snr_node_id :: string
  snr_source_id :: "string option"
  snr_signer_agent_did :: string
  snr_public_key :: string
  snr_generated_at :: instant
  snr_ingested_at :: instant
  snr_payload :: json
  snr_signature :: string

record projection_row =
  prj_data_kind :: string
  prj_identity_key :: string
  prj_source_node_id :: string
  prj_source_id :: "string option"
  prj_generated_at :: instant
  prj_ingested_at :: instant
  prj_visibility :: string
  prj_payload :: json
  prj_provenance :: json

record ui_event_row =
  uer_cursor :: int
  uer_event_id :: string
  uer_source_id :: "string option"
  uer_node_id :: string
  uer_signer_agent_did :: string
  uer_data_kind :: string
  uer_event_kind :: string
  uer_visibility :: string
  uer_provisional :: bool
  uer_topic_id :: "string option"
  uer_organization_id :: "string option"
  uer_task_id :: "string option"
  uer_generated_at :: instant
  uer_ingested_at :: instant
  uer_payload :: json
  uer_ingest_path :: string
  uer_source_cursor_or_seq :: "int option"

record outbox_row =
  obx_id :: int
  obx_dedupe_key :: string
  obx_command_kind :: string
  obx_payload :: json
  obx_attempts :: int
  obx_claimed_until :: "instant option"
  obx_created_at :: instant

record audit_row =
  aud_record_kind :: string
  aud_data_kind :: "string option"
  aud_identity_key :: "string option"
  aud_source_id :: "string option"
  aud_source_node_id :: "string option"
  aud_generated_at :: "instant option"
  aud_ingest_path :: string
  aud_payload :: json
  aud_provenance :: json
  aud_created_at :: instant

record registry_row =
  reg_manifest :: gateway_manifest
  reg_signature :: string
  reg_status :: string
  reg_discovery_tier :: string
  reg_review_reason :: "string option"
  reg_reviewed_at :: "instant option"
  reg_reviewed_by :: "string option"
  reg_created_at :: instant
  reg_updated_at :: instant

record gateway_space_presence =
  gsp_network_id :: string
  gsp_space_id :: string
  gsp_agent_did :: string
  gsp_seq :: nat
  gsp_source_node_id :: string
  gsp_source_id :: "string option"
  gsp_payload :: signed_space_presence

record space_event_row =
  gse_network_id :: string
  gse_announcement_id :: string
  gse_space_id :: string
  gse_place_id :: string
  gse_source_node_id :: string
  gse_source_id :: "string option"
  gse_payload :: json

record space_node_row =
  gsn_node_id :: string
  gsn_agent_did :: string
  gsn_last_heartbeat_ms :: int
  gsn_source_id :: "string option"
  gsn_payload :: node_presence

record gdb =
  g_sources :: "source_row list"
  g_snapshots :: "snapshot_row list"
  g_projections :: "projection_row list"
  g_events :: "ui_event_row list"
  g_event_seq :: int
  g_outbox :: "outbox_row list"
  g_outbox_seq :: int
  g_audit :: "audit_row list"
  g_registry :: "registry_row list"
  g_space_presence :: "gateway_space_presence list"
  g_space_events :: "space_event_row list"
  g_space_nodes :: "space_node_row list"

definition empty_gdb :: gdb where
  "empty_gdb = \<lparr>g_sources = [], g_snapshots = [], g_projections = [], g_events = [], g_event_seq = 0, g_outbox = [],
     g_outbox_seq = 0, g_audit = [], g_registry = [], g_space_presence = [], g_space_events = [], g_space_nodes = []\<rparr>"

type_synonym 'a gop = "gdb \<Rightarrow> 'a result \<times> gdb"

definition find_source :: "string \<Rightarrow> gdb \<Rightarrow> source_row option" where
  "find_source i d = row_of src_id i (g_sources d)"

text \<open>\<open>source_id is null or exists (select 1 from node_sources where .. source_status = 'active')\<close>.\<close>

definition source_visible :: "gdb \<Rightarrow> string option \<Rightarrow> bool" where
  "source_visible d sid = (case sid of None \<Rightarrow> True
     | Some i \<Rightarrow> list_ex (\<lambda>r. src_id r = i \<and> src_status r = ''active'') (g_sources d))"

text \<open>The reference \<open>source_id .. references node_sources(id)\<close>.\<close>

definition source_exists :: "gdb \<Rightarrow> string option \<Rightarrow> bool" where
  "source_exists d sid = (case sid of None \<Rightarrow> True | Some i \<Rightarrow> i \<in> src_id ` set (g_sources d))"

text \<open>Seconds or milliseconds, told apart by size, as the statements convert them.\<close>

definition generated_instant :: "gw_externs \<Rightarrow> int \<Rightarrow> instant result" where
  "generated_instant X g =
    (let d = f64_round (of_int g) in
     gx_to_timestamp X (if 100000000000 \<le> \<bar>d\<bar> then f64_round (d / 1000) else d))"

section \<open>Sources\<close>

definition insert_node_source :: "source_row \<Rightarrow> unit gop" where
  "insert_node_source r d =
    (if src_id r \<in> src_id ` set (g_sources d) \<or> src_export_url r \<in> src_export_url ` set (g_sources d)
     then (Inl ''duplicate key'', d) else (Inr (), d\<lparr>g_sources := g_sources d @ [r]\<rparr>))"

definition source_rank :: "string \<Rightarrow> string \<Rightarrow> source_row \<Rightarrow> nat" where
  "source_rank signer node_id r =
    (if src_expected_signer r = Some signer then 0 else if src_expected_node_id r = Some node_id then 1 else 2)"

definition find_node_source_for_identity :: "string \<Rightarrow> string \<Rightarrow> gdb \<Rightarrow> source_row option" where
  "find_node_source_for_identity node_id signer d =
    (case sort_key (source_rank signer node_id) (sort_key src_created_at
        (filter (\<lambda>r. src_expected_signer r = Some signer \<or> src_expected_node_id r = Some node_id) (g_sources d))) of
       [] \<Rightarrow> None | r # _ \<Rightarrow> Some r)"

definition update_source_sync_status :: "instant \<Rightarrow> string \<Rightarrow> string \<Rightarrow> string option \<Rightarrow> gdb \<Rightarrow> gdb" where
  "update_source_sync_status now i status err d =
    d\<lparr>g_sources := update_where (\<lambda>r. src_id r = i)
       (\<lambda>r. r\<lparr>src_updated_at := now, src_last_sync_at := Some now, src_last_sync_status := Some status, src_last_error := err\<rparr>)
       (g_sources d)\<rparr>"

section \<open>The outbox\<close>

definition P2P_OUTBOX_COMMAND_SNAPSHOT :: string where
  "P2P_OUTBOX_COMMAND_SNAPSHOT = ''snapshot_announce_v1''"

definition P2P_OUTBOX_COMMAND_EVENT :: string where
  "P2P_OUTBOX_COMMAND_EVENT = ''event_v1''"

definition P2P_OUTBOX_MAX_ATTEMPTS :: int where
  "P2P_OUTBOX_MAX_ATTEMPTS = 10"

definition insert_outbox :: "instant \<Rightarrow> string \<Rightarrow> string \<Rightarrow> json \<Rightarrow> gdb \<Rightarrow> gdb" where
  "insert_outbox now key kind payload d =
    (let i = g_outbox_seq d + 1 in
     d\<lparr>g_outbox_seq := i, g_outbox := upsert obx_dedupe_key do_nothing
       \<lparr>obx_id = i, obx_dedupe_key = key, obx_command_kind = kind, obx_payload = payload, obx_attempts = 0,
        obx_claimed_until = None, obx_created_at = now\<rparr> (g_outbox d)\<rparr>)"

definition claimable :: "instant \<Rightarrow> outbox_row \<Rightarrow> bool" where
  "claimable now r = (case obx_claimed_until r of None \<Rightarrow> True | Some t \<Rightarrow> t < now)"

text \<open>The candidates by id; the rows come back as updated. Rows locked by another claim are skipped.\<close>

definition claim_p2p_outbox :: "instant \<Rightarrow> int \<Rightarrow> gdb \<Rightarrow> outbox_row list \<times> gdb" where
  "claim_p2p_outbox now limit d =
    (let ids = map obx_id (take (nat (max limit 1)) (sort_key obx_id (filter (claimable now) (g_outbox d))));
         t = update_where (\<lambda>r. obx_id r \<in> set ids)
               (\<lambda>r. r\<lparr>obx_claimed_until := Some (now + 30000000), obx_attempts := obx_attempts r + 1\<rparr>) (g_outbox d)
     in (filter (\<lambda>r. obx_id r \<in> set ids) t, d\<lparr>g_outbox := t\<rparr>))"

definition ack_p2p_outbox :: "int \<Rightarrow> gdb \<Rightarrow> gdb" where
  "ack_p2p_outbox i d = d\<lparr>g_outbox := delete_where (\<lambda>r. obx_id r = i) (g_outbox d)\<rparr>"

definition release_p2p_outbox :: "instant \<Rightarrow> int \<Rightarrow> gdb \<Rightarrow> bool \<times> gdb" where
  "release_p2p_outbox now i d =
    (let exhausted = (\<lambda>r. obx_id r = i \<and> P2P_OUTBOX_MAX_ATTEMPTS \<le> obx_attempts r) in
     if 0 < rows_affected exhausted (g_outbox d)
     then (True, d\<lparr>g_outbox := delete_where exhausted (g_outbox d)\<rparr>)
     else (False, d\<lparr>g_outbox := update_where (\<lambda>r. obx_id r = i) (\<lambda>r. r\<lparr>obx_claimed_until := Some (now + 5000000)\<rparr>) (g_outbox d)\<rparr>))"

section \<open>Snapshots\<close>

record upsert_snapshot_record =
  usr_source_id :: "string option"
  usr_node_id :: string
  usr_signer_agent_did :: string
  usr_public_key :: string
  usr_generated_at :: int
  usr_payload :: json
  usr_signature :: string

definition snapshot_merge :: "snapshot_row \<Rightarrow> snapshot_row \<Rightarrow> snapshot_row option" where
  "snapshot_merge n e =
    (if snr_generated_at e \<le> snr_generated_at n
     then Some (n\<lparr>snr_source_id := (case snr_source_id n of None \<Rightarrow> snr_source_id e | Some i \<Rightarrow> Some i)\<rparr>) else None)"

definition snapshot_row_of :: "instant \<Rightarrow> upsert_snapshot_record \<Rightarrow> instant \<Rightarrow> snapshot_row" where
  "snapshot_row_of now r g =
    \<lparr>snr_node_id = usr_node_id r, snr_source_id = usr_source_id r, snr_signer_agent_did = usr_signer_agent_did r,
     snr_public_key = usr_public_key r, snr_generated_at = g, snr_ingested_at = now, snr_payload = usr_payload r,
     snr_signature = usr_signature r\<rparr>"

definition announcement_payload :: "upsert_snapshot_record \<Rightarrow> json" where
  "announcement_payload r = json_obj [(''node_id'', JStr (usr_node_id r)), (''signer_agent_did'', JStr (usr_signer_agent_did r)),
     (''generated_at'', JInt (usr_generated_at r))]"

definition int_text :: "int \<Rightarrow> string" where
  "int_text i = (if i < 0 then CHR ''-'' # decimal (nat (- i)) else decimal (nat i))"

text \<open>The announcement names the node, signer and time of the record itself: \<open>announce\<close> tells whether there is one.\<close>

definition upsert_snapshot_inner :: "gw_externs \<Rightarrow> instant \<Rightarrow> upsert_snapshot_record \<Rightarrow> bool \<Rightarrow> bool gop" where
  "upsert_snapshot_inner X now r announce d =
    (case generated_instant X (usr_generated_at r) of
       Inl e \<Rightarrow> (Inl e, d)
     | Inr g \<Rightarrow>
         if \<not> source_exists d (usr_source_id r) then (Inl ''foreign key'', d)
         else let n = snapshot_row_of now r g;
                  applied = 0 < upsert_count snr_node_id snapshot_merge n (g_snapshots d);
                  d1 = d\<lparr>g_snapshots := upsert snr_node_id snapshot_merge n (g_snapshots d)\<rparr>
              in (Inr applied, if applied \<and> announce
                    then insert_outbox now (''snapshot:'' @ usr_node_id r @ '':'' @ int_text (usr_generated_at r))
                           P2P_OUTBOX_COMMAND_SNAPSHOT (announcement_payload r) d1
                    else d1))"

definition get_snapshot_by_node_id :: "string \<Rightarrow> gdb \<Rightarrow> snapshot_row option" where
  "get_snapshot_by_node_id node_id d = row_of snr_node_id node_id (g_snapshots d)"

text \<open>Text is compared through its sort key under the collation of the database, an argument of the queries that order by it.\<close>

type_synonym collation = "string \<Rightarrow> string"

definition list_visible_snapshots_after_node_id :: "collation \<Rightarrow> string \<Rightarrow> int \<Rightarrow> gdb \<Rightarrow> snapshot_row list" where
  "list_visible_snapshots_after_node_id C after limit d =
    take (nat (max limit 1)) (sort_key (\<lambda>r. C (snr_node_id r))
      (filter (\<lambda>r. C after < C (snr_node_id r) \<and> source_visible d (snr_source_id r)) (g_snapshots d)))"

definition list_visible_snapshots_updated_after :: "collation \<Rightarrow> instant \<Rightarrow> string \<Rightarrow> int \<Rightarrow> gdb \<Rightarrow> snapshot_row list" where
  "list_visible_snapshots_updated_after C ingested after limit d =
    take (nat (max limit 1)) (sort_key snr_ingested_at (sort_key (\<lambda>r. C (snr_node_id r))
      (filter (\<lambda>r. (ingested < snr_ingested_at r \<or> ingested = snr_ingested_at r \<and> C after < C (snr_node_id r))
         \<and> source_visible d (snr_source_id r)) (g_snapshots d))))"

section \<open>Projections\<close>

record projection_record =
  upr_data_kind :: string
  upr_identity_key :: string
  upr_source_node_id :: string
  upr_source_id :: "string option"
  upr_generated_at :: int
  upr_visibility :: string
  upr_payload :: json
  upr_provenance :: json

definition prj_key :: "projection_row \<Rightarrow> string \<times> string \<times> string" where
  "prj_key r = (prj_data_kind r, prj_identity_key r, prj_source_node_id r)"

definition projection_merge :: "projection_row \<Rightarrow> projection_row \<Rightarrow> projection_row option" where
  "projection_merge n e =
    (if prj_generated_at e \<le> prj_generated_at n
     then Some (n\<lparr>prj_source_id := (case prj_source_id n of None \<Rightarrow> prj_source_id e | Some i \<Rightarrow> Some i)\<rparr>) else None)"

definition projection_row_of :: "instant \<Rightarrow> projection_record \<Rightarrow> instant \<Rightarrow> projection_row" where
  "projection_row_of now r g =
    \<lparr>prj_data_kind = upr_data_kind r, prj_identity_key = upr_identity_key r, prj_source_node_id = upr_source_node_id r,
     prj_source_id = upr_source_id r, prj_generated_at = g, prj_ingested_at = now, prj_visibility = upr_visibility r,
     prj_payload = upr_payload r, prj_provenance = upr_provenance r\<rparr>"

definition upsert_projection_row :: "gw_externs \<Rightarrow> instant \<Rightarrow> projection_record \<Rightarrow> unit gop" where
  "upsert_projection_row X now r d =
    (case generated_instant X (upr_generated_at r) of
       Inl e \<Rightarrow> (Inl e, d)
     | Inr g \<Rightarrow> if \<not> source_exists d (upr_source_id r) then (Inl ''foreign key'', d)
         else (Inr (), d\<lparr>g_projections := upsert prj_key projection_merge (projection_row_of now r g) (g_projections d)\<rparr>))"

definition list_projection_rows :: "collation \<Rightarrow> string \<Rightarrow> gdb \<Rightarrow> projection_row list" where
  "list_projection_rows C kind d =
    sort_key (\<lambda>r. - prj_generated_at r) (sort_key (\<lambda>r. C (prj_source_node_id r))
      (filter (\<lambda>r. prj_data_kind r = kind \<and> source_visible d (prj_source_id r)) (g_projections d)))"

section \<open>Events\<close>

record new_ui_event =
  nue_event_id :: string
  nue_source_id :: "string option"
  nue_node_id :: string
  nue_signer_agent_did :: string
  nue_data_kind :: string
  nue_event_kind :: string
  nue_visibility :: string
  nue_provisional :: bool
  nue_topic_id :: "string option"
  nue_organization_id :: "string option"
  nue_task_id :: "string option"
  nue_generated_at :: int
  nue_payload :: json
  nue_ingest_path :: string
  nue_source_cursor_or_seq :: "int option"

definition ui_row_of :: "instant \<Rightarrow> int \<Rightarrow> instant \<Rightarrow> new_ui_event \<Rightarrow> ui_event_row" where
  "ui_row_of now c g r =
    \<lparr>uer_cursor = c, uer_event_id = nue_event_id r, uer_source_id = nue_source_id r, uer_node_id = nue_node_id r,
     uer_signer_agent_did = nue_signer_agent_did r, uer_data_kind = nue_data_kind r, uer_event_kind = nue_event_kind r,
     uer_visibility = nue_visibility r, uer_provisional = nue_provisional r, uer_topic_id = nue_topic_id r,
     uer_organization_id = nue_organization_id r, uer_task_id = nue_task_id r, uer_generated_at = g, uer_ingested_at = now,
     uer_payload = nue_payload r, uer_ingest_path = nue_ingest_path r, uer_source_cursor_or_seq = nue_source_cursor_or_seq r\<rparr>"

text \<open>\<open>insert into gateway_ui_events .. on conflict (event_id) do nothing returning ..\<close>.\<close>

definition insert_event_row :: "instant \<Rightarrow> instant \<Rightarrow> new_ui_event \<Rightarrow> ui_event_row option gop" where
  "insert_event_row now g r d =
    (let c = g_event_seq d + 1; d1 = d\<lparr>g_event_seq := c\<rparr>; row = ui_row_of now c g r in
     if nue_event_id r \<in> uer_event_id ` set (g_events d) then (Inr None, d1)
     else if \<not> source_exists d (nue_source_id r) then (Inl ''foreign key'', d1)
     else (Inr (Some row), d1\<lparr>g_events := g_events d @ [row]\<rparr>))"

definition insert_audit_record :: "audit_row \<Rightarrow> gdb \<Rightarrow> gdb" where
  "insert_audit_record r d = d\<lparr>g_audit := g_audit d @ [r]\<rparr>"

definition event_audit :: "instant \<Rightarrow> instant \<Rightarrow> new_ui_event \<Rightarrow> audit_row" where
  "event_audit now g r =
    \<lparr>aud_record_kind = ''ui_event_insert'', aud_data_kind = Some (nue_data_kind r), aud_identity_key = Some (nue_event_id r),
     aud_source_id = nue_source_id r, aud_source_node_id = Some (nue_node_id r), aud_generated_at = Some g,
     aud_ingest_path = nue_ingest_path r, aud_payload = nue_payload r,
     aud_provenance = json_obj [(''source_cursor_or_seq'', (case nue_source_cursor_or_seq r of None \<Rightarrow> JNull | Some i \<Rightarrow> JInt i)),
       (''visibility'', JStr (nue_visibility r)), (''provisional'', JBool (nue_provisional r))],
     aud_created_at = now\<rparr>"

definition insert_ui_event_inner :: "gw_externs \<Rightarrow> instant \<Rightarrow> new_ui_event \<Rightarrow> (string \<times> string \<times> json) option \<Rightarrow> ui_event_row option gop" where
  "insert_ui_event_inner X now r outbox d =
    (case generated_instant X (nue_generated_at r) of
       Inl e \<Rightarrow> (Inl e, d)
     | Inr g \<Rightarrow> (case insert_event_row now g r d of
         (Inr (Some row), d1) \<Rightarrow>
           (Inr (Some row), insert_audit_record (event_audit now g r)
             (case outbox of None \<Rightarrow> d1 | Some (key, kind, payload) \<Rightarrow> insert_outbox now key kind payload d1))
       | other \<Rightarrow> other))"

definition get_ui_event_by_id :: "string \<Rightarrow> gdb \<Rightarrow> ui_event_row option" where
  "get_ui_event_by_id i d = row_of uer_event_id i (g_events d)"

definition max_ui_event_source_seq :: "string \<Rightarrow> string option \<Rightarrow> gdb \<Rightarrow> int option" where
  "max_ui_event_source_seq node_id sid d =
    (case List.map_filter uer_source_cursor_or_seq (filter (\<lambda>r. uer_node_id r = node_id \<and> uer_source_id r = sid) (g_events d)) of
       [] \<Rightarrow> None | i # is \<Rightarrow> Some (fold max is i))"

record ui_events_query =
  uq_cursor :: int
  uq_data_kind :: "string option"
  uq_node_id :: "string option"
  uq_topic_id :: "string option"
  uq_organization_id :: "string option"
  uq_task_id :: "string option"
  uq_limit :: int

definition null_or :: "'a option \<Rightarrow> 'a option \<Rightarrow> bool" where
  "null_or p v = (p = None \<or> v = p)"

definition ui_query_matches :: "gdb \<Rightarrow> ui_events_query \<Rightarrow> ui_event_row \<Rightarrow> bool" where
  "ui_query_matches d q r \<longleftrightarrow> uq_cursor q < uer_cursor r \<and> source_visible d (uer_source_id r)
     \<and> null_or (uq_data_kind q) (Some (uer_data_kind r)) \<and> null_or (uq_node_id q) (Some (uer_node_id r))
     \<and> null_or (uq_topic_id q) (uer_topic_id r) \<and> null_or (uq_organization_id q) (uer_organization_id r)
     \<and> null_or (uq_task_id q) (uer_task_id r)"

definition list_ui_events_after :: "ui_events_query \<Rightarrow> gdb \<Rightarrow> ui_event_row list" where
  "list_ui_events_after q d =
    take (nat (max (uq_limit q) 1)) (sort_key uer_cursor (filter (ui_query_matches d q) (g_events d)))"

definition earliest_ui_event_cursor :: "gdb \<Rightarrow> int option" where
  "earliest_ui_event_cursor d =
    (case sort (map uer_cursor (filter (\<lambda>r. source_visible d (uer_source_id r)) (g_events d))) of [] \<Rightarrow> None | c # _ \<Rightarrow> Some c)"

section \<open>The registry of gateways\<close>

abbreviation reg_id :: "registry_row \<Rightarrow> string" where
  "reg_id r \<equiv> man_gateway_id (reg_manifest r)"

definition registry_merge :: "registry_row \<Rightarrow> registry_row \<Rightarrow> registry_row option" where
  "registry_merge n e = Some (e\<lparr>reg_manifest := reg_manifest n, reg_signature := reg_signature n, reg_updated_at := reg_updated_at n\<rparr>)"

definition upsert_gateway_manifest :: "instant \<Rightarrow> signed_manifest \<Rightarrow> registry_row gop" where
  "upsert_gateway_manifest now m d =
    (let n = \<lparr>reg_manifest = sman_payload m, reg_signature = sman_signature m, reg_status = ''pending'',
              reg_discovery_tier = ''community'', reg_review_reason = None, reg_reviewed_at = None, reg_reviewed_by = None,
              reg_created_at = now, reg_updated_at = now\<rparr>
     in if \<exists>e\<in>set (g_registry d). reg_id e \<noteq> reg_id n \<and> man_base_url (reg_manifest e) = man_base_url (reg_manifest n)
        then (Inl ''duplicate key'', d)
        else let t = upsert reg_id registry_merge n (g_registry d)
             in (or_err (row_of reg_id (reg_id n) t) ''registered gateway entry missing after upsert'', d\<lparr>g_registry := t\<rparr>))"

definition review_gateway_manifest :: "instant \<Rightarrow> string \<Rightarrow> string \<Rightarrow> string \<Rightarrow> string option \<Rightarrow> string option \<Rightarrow> gdb \<Rightarrow> registry_row option \<times> gdb" where
  "review_gateway_manifest now i status tier reason reviewer d =
    (let t = update_where (\<lambda>r. reg_id r = i)
           (\<lambda>r. r\<lparr>reg_status := status, reg_discovery_tier := tier, reg_review_reason := reason, reg_reviewed_by := reviewer,
                  reg_reviewed_at := Some now, reg_updated_at := now\<rparr>) (g_registry d)
     in (row_of reg_id i t, d\<lparr>g_registry := t\<rparr>))"

definition tier_rank :: "string \<Rightarrow> nat" where
  "tier_rank tier = (if tier = ''official'' then 0 else if tier = ''verified'' then 1 else if tier = ''community'' then 2
     else if tier = ''manual'' then 3 else 4)"

definition list_gateway_registry_entries ::
  "string option \<Rightarrow> string option \<Rightarrow> string option \<Rightarrow> string option \<Rightarrow> gdb \<Rightarrow> registry_row list" where
  "list_gateway_registry_entries status tier region role d =
    sort_key (\<lambda>r. if reg_status r = ''approved'' then 0 else 1 :: nat) (sort_key (\<lambda>r. tier_rank (reg_discovery_tier r))
      (sort_key (\<lambda>r. - reg_updated_at r) (filter (\<lambda>r. null_or status (Some (reg_status r)) \<and> null_or tier (Some (reg_discovery_tier r))
         \<and> null_or region (man_region (reg_manifest r)) \<and> (case role of None \<Rightarrow> True | Some x \<Rightarrow> x \<in> set (man_roles (reg_manifest r))))
        (g_registry d))))"

section \<open>Health counts\<close>

record health_counts =
  hc_source_count :: nat
  hc_active_source_count :: nat
  hc_snapshot_count :: nat
  hc_projection_count :: nat
  hc_ui_event_count :: nat
  hc_backfill_event_count :: nat

definition counts :: "gdb \<Rightarrow> health_counts" where
  "counts d = \<lparr>hc_source_count = length (g_sources d), hc_active_source_count = rows_affected (\<lambda>r. src_status r = ''active'') (g_sources d),
     hc_snapshot_count = length (g_snapshots d), hc_projection_count = length (g_projections d), hc_ui_event_count = length (g_events d),
     hc_backfill_event_count = rows_affected (\<lambda>r. aud_record_kind r = ''gap_snapshot_refresh_applied'') (g_audit d)\<rparr>"

section \<open>Space tables\<close>

definition gsp_key :: "gateway_space_presence \<Rightarrow> string \<times> string \<times> string" where
  "gsp_key r = (gsp_network_id r, gsp_space_id r, gsp_agent_did r)"

definition presence_merge :: "gateway_space_presence \<Rightarrow> gateway_space_presence \<Rightarrow> gateway_space_presence option" where
  "presence_merge n e = (if gsp_seq e < gsp_seq n then Some n else None)"

definition space_row_of :: "signed_space_presence \<Rightarrow> string \<Rightarrow> string option \<Rightarrow> gateway_space_presence" where
  "space_row_of p node_id sid = (let r = ssp_record p in
    \<lparr>gsp_network_id = spr_network_id r, gsp_space_id = spr_space_id r, gsp_agent_did = spr_agent_did r, gsp_seq = unat (spr_seq r),
     gsp_source_node_id = node_id, gsp_source_id = sid, gsp_payload = p\<rparr>)"

definition upsert_presence :: "signed_space_presence \<Rightarrow> string \<Rightarrow> string option \<Rightarrow> gdb \<Rightarrow> bool \<times> gdb" where
  "upsert_presence p node_id sid d =
    (let n = space_row_of p node_id sid
     in (0 < upsert_count gsp_key presence_merge n (g_space_presence d),
         d\<lparr>g_space_presence := upsert gsp_key presence_merge n (g_space_presence d)\<rparr>))"

definition gsn_key :: "space_node_row \<Rightarrow> string \<times> string" where
  "gsn_key r = (gsn_node_id r, gsn_agent_did r)"

definition node_presence_merge :: "space_node_row \<Rightarrow> space_node_row \<Rightarrow> space_node_row option" where
  "node_presence_merge n e = (if gsn_last_heartbeat_ms e < gsn_last_heartbeat_ms n then Some n else None)"

definition upsert_node_presence :: "node_presence \<Rightarrow> string option \<Rightarrow> gdb \<Rightarrow> bool \<times> gdb" where
  "upsert_node_presence p sid d =
    (let n = \<lparr>gsn_node_id = npr_node_id p, gsn_agent_did = npr_agent_did p, gsn_last_heartbeat_ms = npr_last_heartbeat_ms p,
              gsn_source_id = sid, gsn_payload = p\<rparr>
     in (0 < upsert_count gsn_key node_presence_merge n (g_space_nodes d),
         d\<lparr>g_space_nodes := upsert gsn_key node_presence_merge n (g_space_nodes d)\<rparr>))"

definition gse_key :: "space_event_row \<Rightarrow> string \<times> string" where
  "gse_key r = (gse_network_id r, gse_announcement_id r)"

text \<open>The network and announcement ids are read from the raw JSON; a missing one is null and violates the table's constraint.\<close>

definition upsert_world_event :: "gw_externs \<Rightarrow> json \<Rightarrow> string \<Rightarrow> string option \<Rightarrow> bool gop" where
  "upsert_world_event X payload node_id sid d =
    (case gx_parse_world_event X (jindex ''content'' payload) of
       Inl e \<Rightarrow> (Inl e, d)
     | Inr w \<Rightarrow> (case (as_str (jindex ''network_id'' payload), as_str (jindex ''announcement_id'' payload)) of
         (Some network, Some ann) \<Rightarrow>
           let n = \<lparr>gse_network_id = network, gse_announcement_id = ann, gse_space_id = wev_space_id w, gse_place_id = wev_place_id w,
                    gse_source_node_id = node_id, gse_source_id = sid, gse_payload = payload\<rparr>
           in (Inr (0 < upsert_count gse_key do_nothing n (g_space_events d)),
               d\<lparr>g_space_events := upsert gse_key do_nothing n (g_space_events d)\<rparr>)
       | _ \<Rightarrow> (Inl ''not null'', d)))"

text \<open>The events of spaces keep their time in seconds: this statement has no case for milliseconds.\<close>

definition insert_ui_record :: "gw_externs \<Rightarrow> instant \<Rightarrow> new_ui_event \<Rightarrow> ui_event_row option gop" where
  "insert_ui_record X now r d =
    (case gx_to_timestamp X (f64_round (of_int (nue_generated_at r))) of
       Inl e \<Rightarrow> (Inl e, d)
     | Inr g \<Rightarrow> insert_event_row now g (r\<lparr>nue_visibility := ''public'', nue_provisional := False\<rparr>) d)"

end
