(* ===== verification/Gw_Samples.thy ===== *)
theory Gw_Samples
  imports Gw_Store
begin

text \<open>
  One concrete instance of the functions of other crates, on which the witnesses evaluate the gateway: base64
  is the identity, the key of a DID is its text, a signature under a key is the key written twice, and serde
  names are in snake case. A witness overrides the fields it needs.
\<close>

fun sample_kind_name :: "data_kind \<Rightarrow> string" where
  "sample_kind_name SpacePresence = ''space_presence''"
| "sample_kind_name Presence = ''presence''"
| "sample_kind_name Identity = ''identity''"
| "sample_kind_name OperatorProfile = ''operator_profile''"
| "sample_kind_name OrganizationSummary = ''organization_summary''"
| "sample_kind_name MissionLifecycle = ''mission_lifecycle''"
| "sample_kind_name TaskSummary = ''task_summary''"
| "sample_kind_name TaskVoteSignal = ''task_vote_signal''"
| "sample_kind_name TaskRoundUpdate = ''task_round_update''"
| "sample_kind_name TaskDecisionFinalized = ''task_decision_finalized''"
| "sample_kind_name GovernanceProposal = ''governance_proposal''"
| "sample_kind_name GovernanceVote = ''governance_vote''"
| "sample_kind_name GovernanceDecision = ''governance_decision''"
| "sample_kind_name OracleFeedUpdate = ''oracle_feed_update''"
| "sample_kind_name SettlementEvent = ''settlement_event''"
| "sample_kind_name ReputationUpdate = ''reputation_update''"
| "sample_kind_name RankingProjection = ''ranking_projection''"
| "sample_kind_name HiveMetadata = ''hive_metadata''"
| "sample_kind_name HiveSubscription = ''hive_subscription''"
| "sample_kind_name HiveMessagePosted = ''hive_message_posted''"
| "sample_kind_name HiveActivity = ''hive_activity''"
| "sample_kind_name BoardActivity = ''board_activity''"
| "sample_kind_name FriendRelationship = ''friend_relationship''"
| "sample_kind_name FriendRequestPending = ''friend_request_pending''"
| "sample_kind_name PublicBlock = ''public_block''"
| "sample_kind_name SocialThread = ''social_thread''"
| "sample_kind_name DmSummary = ''dm_summary''"
| "sample_kind_name DmMessage = ''dm_message''"
| "sample_kind_name NetworkProjection = ''network_projection''"
| "sample_kind_name TravelState = ''travel_state''"
| "sample_kind_name GalaxyEvent = ''galaxy_event''"
| "sample_kind_name WorldEvent = ''world_event''"

definition sample_kinds :: "data_kind list" where
  "sample_kinds = [SpacePresence, Presence, Identity, OperatorProfile, OrganizationSummary, MissionLifecycle, TaskSummary,
     TaskVoteSignal, TaskRoundUpdate, TaskDecisionFinalized, GovernanceProposal, GovernanceVote,
     GovernanceDecision, OracleFeedUpdate, SettlementEvent, ReputationUpdate, RankingProjection, HiveMetadata,
     HiveSubscription, HiveMessagePosted, HiveActivity, BoardActivity, FriendRelationship, FriendRequestPending,
     PublicBlock, SocialThread, DmSummary, DmMessage, NetworkProjection, TravelState, GalaxyEvent, WorldEvent]"

definition sample_gx :: gw_externs where
  "sample_gx = \<lparr>
     gx_to_timestamp = (\<lambda>x. Inr \<lfloor>x * 1000000\<rfloor>),
     gx_kind_name = sample_kind_name,
     gx_kind_of = (\<lambda>s. or_err (find (\<lambda>k. sample_kind_name k = s) sample_kinds) ''unknown variant''),
     gx_visibility_name = (\<lambda>v. if v = Public then ''public'' else ''protected''),
     gx_visibility_of = (\<lambda>s. if s = ''public'' then Inr Public else if s = ''protected'' then Inr Protected else Inl ''unknown variant''),
     gx_jcs = (\<lambda>j. Inr ''json''),
     gx_did_key = (\<lambda>s. case strip_prefix ''did:key:'' s of Some k \<Rightarrow> Inr (DidEd25519 k) | None \<Rightarrow> Inl ''parse did:key''),
     gx_b64_encode = (\<lambda>s. s),
     gx_b64_decode = Inr,
     gx_verifying_key = (\<lambda>k. True),
     gx_ed25519 = (\<lambda>k m s. s = k @ k),
     gx_event_json = (\<lambda>e. JStr (nev_event_id e)),
     gx_signed_event_json = (\<lambda>e. JStr (nev_event_id (sev_payload e))),
     gx_presence_record_json = (\<lambda>r. JStr (spr_agent_did r)),
     gx_presence_json = (\<lambda>p. JStr (spr_agent_did (ssp_record p))),
     gx_parse_presence = (\<lambda>j. Inl ''missing field''),
     gx_node_presence_json = (\<lambda>p. JStr (npr_node_id p)),
     gx_parse_node_presence = (\<lambda>j. Inl ''missing field''),
     gx_parse_announcement = (\<lambda>j. Inl ''missing field''),
     gx_unsigned_announcement = ann_content,
     gx_parse_world_event = (\<lambda>j. Inl ''missing field''),
     gx_world_event_json = (\<lambda>w. JStr (wev_event_id w)),
     gx_validate_activity = (\<lambda>j. Inr ()),
     gx_ui_event_text = (\<lambda>e. Inr (uev_event_id e)),
     gx_jsonb_text = (\<lambda>j. ''json'')\<rparr>"

end
