(* ===== verification/Gw_Replicas.thy ===== *)
theory Gw_Replicas
  imports Gw_Samples
begin

text \<open>
  Gateways that replicate snapshots agree. A snapshot reaches a gateway by push, by pull and over gossip, in
  any order and more than once; \<open>upsert_snapshot_inner\<close> keeps the newest one of every node, so what a
  gateway stores depends only on the set of snapshots it has seen.
\<close>

interpretation sn: keyed_upsert snr_node_id snapshot_merge
  by unfold_locales (auto simp: snapshot_merge_def split: if_splits)

interpretation pj: keyed_upsert prj_key projection_merge
  by unfold_locales (auto simp: projection_merge_def prj_key_def split: if_splits)

text \<open>What a node signed, as stored; the source and the time of arrival differ between gateways.\<close>

definition signed_part :: "snapshot_row \<Rightarrow> string \<times> string \<times> instant \<times> json \<times> string" where
  "signed_part r = (snr_signer_agent_did r, snr_public_key r, snr_generated_at r, snr_payload r, snr_signature r)"

definition record_part :: "upsert_snapshot_record \<Rightarrow> instant \<Rightarrow> string \<times> string \<times> instant \<times> json \<times> string" where
  "record_part r g = (usr_signer_agent_did r, usr_public_key r, g, usr_payload r, usr_signature r)"

definition part_time :: "string \<times> string \<times> instant \<times> json \<times> string \<Rightarrow> instant" where
  "part_time p = fst (snd (snd p))"

definition ingest_all :: "gw_externs \<Rightarrow> (instant \<times> upsert_snapshot_record \<times> bool) list \<Rightarrow> gdb \<Rightarrow> gdb" where
  "ingest_all X rs d = fold (\<lambda>(now, r, announce) d. snd (upsert_snapshot_inner X now r announce d)) rs d"

text \<open>The parts a list of records offers for a node: those the statement accepts.\<close>

definition offered :: "gw_externs \<Rightarrow> gdb \<Rightarrow> (instant \<times> upsert_snapshot_record \<times> bool) list \<Rightarrow> string \<Rightarrow> (string \<times> string \<times> instant \<times> json \<times> string) set" where
  "offered X d rs k = {record_part r g | now r announce g. (now, r, announce) \<in> set rs \<and> usr_node_id r = k
     \<and> generated_instant X (usr_generated_at r) = Inr g \<and> source_exists d (usr_source_id r)}"

definition stored :: "gdb \<Rightarrow> string \<Rightarrow> (string \<times> string \<times> instant \<times> json \<times> string) option" where
  "stored d k = map_option signed_part (get_snapshot_by_node_id k d)"

lemma insert_outbox_snapshots [simp]:
  "g_snapshots (insert_outbox now k c p d) = g_snapshots d" "g_sources (insert_outbox now k c p d) = g_sources d"
  by (simp_all add: insert_outbox_def Let_def)

lemma ingest_sources [simp]: "g_sources (snd (upsert_snapshot_inner X now r announce d)) = g_sources d"
  by (auto simp: upsert_snapshot_inner_def Let_def split: sum.split)

lemma ingest_snapshots:
  "g_snapshots (snd (upsert_snapshot_inner X now r announce d)) =
    (case generated_instant X (usr_generated_at r) of Inl _ \<Rightarrow> g_snapshots d
     | Inr g \<Rightarrow> if source_exists d (usr_source_id r)
         then upsert snr_node_id snapshot_merge (snapshot_row_of now r g) (g_snapshots d) else g_snapshots d)"
  by (simp add: upsert_snapshot_inner_def Let_def split: sum.split)

lemma merged_part:
  "signed_part (merged snapshot_merge (snapshot_row_of now r g) old) =
    (case map_option signed_part old of None \<Rightarrow> record_part r g | Some p \<Rightarrow> if part_time p \<le> g then record_part r g else p)"
  by (simp add: merged_def resolve_def snapshot_merge_def signed_part_def record_part_def part_time_def snapshot_row_of_def split: option.split)

lemma stored_step:
  "stored (snd (upsert_snapshot_inner X now r announce d)) k =
    (case generated_instant X (usr_generated_at r) of
       Inl _ \<Rightarrow> stored d k
     | Inr g \<Rightarrow> if usr_node_id r = k \<and> source_exists d (usr_source_id r)
         then Some (case stored d k of None \<Rightarrow> record_part r g | Some p \<Rightarrow> if part_time p \<le> g then record_part r g else p)
         else stored d k)"
proof -
  have n: "snr_node_id (snapshot_row_of now r g) = usr_node_id r" for g by (simp add: snapshot_row_of_def)
  have row: "row_of snr_node_id k (upsert snr_node_id snapshot_merge (snapshot_row_of now r g) t) =
     (if usr_node_id r = k then Some (merged snapshot_merge (snapshot_row_of now r g) (row_of snr_node_id k t)) else row_of snr_node_id k t)" for g t
    using sn.row_of_upsert_cases [of k "snapshot_row_of now r g" t] by (auto simp: n)
  show ?thesis
    by (cases "generated_instant X (usr_generated_at r)")
      (simp_all add: stored_def get_snapshot_by_node_id_def ingest_snapshots row merged_part)
qed

text \<open>The stored part is one of those seen, and no newer one was seen.\<close>

lemma stored_newest:
  "(stored (ingest_all X rs d) k = None \<longleftrightarrow> stored d k = None \<and> offered X d rs k = {})
   \<and> (\<forall>p. stored (ingest_all X rs d) k = Some p \<longrightarrow>
        p \<in> set_option (stored d k) \<union> offered X d rs k
        \<and> (\<forall>q \<in> set_option (stored d k) \<union> offered X d rs k. part_time q \<le> part_time p))"
proof (induction rs rule: rev_induct)
  case Nil
  then show ?case by (auto simp: ingest_all_def offered_def)
next
  case (snoc x rs)
  obtain now r announce where x: "x = (now, r, announce)" by (cases x)
  let ?d = "ingest_all X rs d"
  have src: "g_sources ?d = g_sources d" unfolding ingest_all_def
    by (induction rs rule: rev_induct) (auto split: prod.split)
  then have ex: "source_exists ?d s = source_exists d s" for s by (cases s) (simp_all add: source_exists_def)
  have off: "offered X d (rs @ [x]) k = offered X d rs k \<union>
      {record_part r g | g. usr_node_id r = k \<and> generated_instant X (usr_generated_at r) = Inr g \<and> source_exists d (usr_source_id r)}"
    unfolding offered_def x by auto
  have step: "stored (ingest_all X (rs @ [x]) d) k = stored (snd (upsert_snapshot_inner X now r announce ?d)) k"
    by (simp add: ingest_all_def x)
  have t: "part_time (record_part r g) = g" for g by (simp add: part_time_def record_part_def)
  show ?case
  proof (cases "\<exists>g. usr_node_id r = k \<and> generated_instant X (usr_generated_at r) = Inr g \<and> source_exists d (usr_source_id r)")
    case True
    then obtain g where g: "usr_node_id r = k" "generated_instant X (usr_generated_at r) = Inr g" "source_exists d (usr_source_id r)" by blast
    have o: "offered X d (rs @ [x]) k = insert (record_part r g) (offered X d rs k)" unfolding off using g by auto
    have st: "stored (ingest_all X (rs @ [x]) d) k = Some (case stored ?d k of None \<Rightarrow> record_part r g
        | Some p \<Rightarrow> if part_time p \<le> g then record_part r g else p)"
      unfolding step stored_step using g by (simp add: ex)
    show ?thesis unfolding st o using snoc.IH t by (cases "stored ?d k") (auto, force+)
  next
    case False
    then have o: "offered X d (rs @ [x]) k = offered X d rs k" unfolding off by auto
    have st: "stored (ingest_all X (rs @ [x]) d) k = stored ?d k"
      unfolding step stored_step using False by (auto simp: ex split: sum.split)
    show ?thesis unfolding st o by (rule snoc.IH)
  qed
qed


definition sample_record :: "int \<Rightarrow> upsert_snapshot_record" where
  "sample_record t = \<lparr>usr_source_id = None, usr_node_id = ''n'', usr_signer_agent_did = ''did:key:k'', usr_public_key = ''k'',
     usr_generated_at = t, usr_payload = JInt t, usr_signature = ''s''\<rparr>"

lemma sample_instant: "t \<in> {1, 2} \<Longrightarrow> generated_instant sample_gx t = Inr (t * 1000000)"
  using f64_round_nat [of 1] f64_round_nat [of 2] by (auto simp: generated_instant_def sample_gx_def)


end
