(* ===== verification/Gw_Outbox.thy ===== *)
theory Gw_Outbox
  imports Gw_Samples
begin

text \<open>
  The outbox of gossip messages (\<open>gateway_sync.rs\<close>, \<open>drain_p2p_outbox\<close>): rows written with the snapshot or
  event they announce are claimed in batches, turned into messages, published and removed; a failed publish
  gives the row back until its attempts are used up. The network runtime is the record \<open>p2p_env\<close>; the
  messages it accepted are collected in order. A statement on a row can fail, which ends the batch.
\<close>

record contact_material =
  ct_transport :: string
  ct_peer_id :: string
  ct_route :: string
  ct_endpoint_id :: "string option"
  ct_extra :: json

datatype sync_message =
    SnapshotAnnounceV1 string string string int contact_material
  | EventV1 string signed_node_event

record p2p_env =
  px_local_peer_id :: string
  px_contact :: "contact_material result"
  px_encode :: "sync_message \<Rightarrow> string result"
  px_parse_event :: "json \<Rightarrow> signed_node_event result"
  px_publish :: "string \<Rightarrow> unit result"
  px_row_ok :: "int \<Rightarrow> bool"

definition P2P_OUTBOX_BATCH_SIZE :: int where
  "P2P_OUTBOX_BATCH_SIZE = 32"

text \<open>\<open>SnapshotOutboxPayload\<close>.\<close>

definition snapshot_outbox_payload :: "json \<Rightarrow> (string \<times> string \<times> int) result" where
  "snapshot_outbox_payload v =
    and_then (or_err (Option.bind (jget ''node_id'' v) as_str) ''node_id'') (\<lambda>node_id.
    and_then (or_err (Option.bind (jget ''signer_agent_did'' v) as_str) ''signer_agent_did'') (\<lambda>signer.
    and_then (or_err (Option.bind (jget ''generated_at'' v) as_i64) ''generated_at'') (\<lambda>generated_at.
    Inr (node_id, signer, generated_at))))"

definition outbox_message :: "p2p_env \<Rightarrow> contact_material option \<Rightarrow> outbox_row \<Rightarrow> string result" where
  "outbox_message P contact row =
    and_then
     (if obx_command_kind row = P2P_OUTBOX_COMMAND_SNAPSHOT
      then and_then (snapshot_outbox_payload (obx_payload row)) (\<lambda>(node_id, signer, generated_at).
           and_then (or_err contact ''snapshot outbox contact material was not exported'') (\<lambda>c.
           Inr (SnapshotAnnounceV1 (px_local_peer_id P) node_id signer generated_at c)))
      else if obx_command_kind row = P2P_OUTBOX_COMMAND_EVENT
      then and_then (px_parse_event P (obx_payload row)) (\<lambda>e. Inr (EventV1 (px_local_peer_id P) e))
      else Inl (''unknown gateway p2p outbox command kind '' @ obx_command_kind row))
     (px_encode P)"

fun drain_rows :: "p2p_env \<Rightarrow> instant \<Rightarrow> contact_material option \<Rightarrow> outbox_row list \<Rightarrow> gdb \<times> string list
    \<Rightarrow> unit result \<times> gdb \<times> string list" where
  "drain_rows P now contact [] (d, sent) = (Inr (), d, sent)"
| "drain_rows P now contact (row # rows) (d, sent) =
    (case outbox_message P contact row of
       Inl e \<Rightarrow> if px_row_ok P (obx_id row) then drain_rows P now contact rows (ack_p2p_outbox (obx_id row) d, sent)
                else (Inl ''ack'', d, sent)
     | Inr message \<Rightarrow> (case px_publish P message of
         Inr _ \<Rightarrow> if px_row_ok P (obx_id row)
                  then drain_rows P now contact rows (ack_p2p_outbox (obx_id row) d, sent @ [message])
                  else (Inl ''ack'', d, sent @ [message])
       | Inl e \<Rightarrow> if px_row_ok P (obx_id row)
                  then drain_rows P now contact rows (snd (release_p2p_outbox now (obx_id row) d), sent)
                  else (Inl ''release'', d, sent)))"

definition drain_p2p_outbox :: "p2p_env \<Rightarrow> instant \<Rightarrow> gdb \<times> string list \<Rightarrow> unit result \<times> gdb \<times> string list" where
  "drain_p2p_outbox P now s =
    (case s of (d, sent) \<Rightarrow>
     case claim_p2p_outbox now P2P_OUTBOX_BATCH_SIZE d of (rows, d1) \<Rightarrow>
     case (if \<exists>row\<in>set rows. obx_command_kind row = P2P_OUTBOX_COMMAND_SNAPSHOT
           then and_then (px_contact P) (\<lambda>c. Inr (Some c)) else Inr None) of
       Inl e \<Rightarrow> (Inl e, d1, sent)
     | Inr contact \<Rightarrow> drain_rows P now contact rows (d1, sent))"

section \<open>No row is lost\<close>

text \<open>What a row says, whatever its claims and attempts.\<close>

definition same_message :: "outbox_row \<Rightarrow> outbox_row \<Rightarrow> bool" where
  "same_message r r' \<longleftrightarrow> obx_id r' = obx_id r \<and> obx_dedupe_key r' = obx_dedupe_key r
     \<and> obx_command_kind r' = obx_command_kind r \<and> obx_payload r' = obx_payload r"

lemma same_message_refl [simp]: "same_message r r"
  by (simp add: same_message_def)

lemma outbox_message_same: "same_message r r' \<Longrightarrow> outbox_message P c r' = outbox_message P c r"
  by (simp add: outbox_message_def same_message_def)

text \<open>The message of a row under the contact the runtime exports.\<close>

definition row_message :: "p2p_env \<Rightarrow> outbox_row \<Rightarrow> string result" where
  "row_message P r = outbox_message P (case px_contact P of Inl _ \<Rightarrow> None | Inr c \<Rightarrow> Some c) r"

lemma outbox_message_event: "obx_command_kind r \<noteq> P2P_OUTBOX_COMMAND_SNAPSHOT \<Longrightarrow> outbox_message P c r = outbox_message P c' r"
  by (simp add: outbox_message_def)

text \<open>A row is kept by a drain with its attempts raised by at most \<open>k\<close>.\<close>

definition kept :: "int \<Rightarrow> outbox_row \<Rightarrow> gdb \<Rightarrow> bool" where
  "kept k r d \<longleftrightarrow> (\<exists>r'\<in>set (g_outbox d). same_message r r' \<and> obx_attempts r' \<le> obx_attempts r + k)"

definition settled :: "p2p_env \<Rightarrow> outbox_row \<Rightarrow> string list \<Rightarrow> bool" where
  "settled P r sent \<longleftrightarrow> (case row_message P r of Inl _ \<Rightarrow> True | Inr m \<Rightarrow> m \<in> set sent)"

lemma claim_outbox:
  assumes "claim_p2p_outbox now limit d = (rows, d1)" and "r \<in> set (g_outbox d)"
  shows "kept 1 r d1"
proof -
  obtain P where "g_outbox d1 = update_where P
      (\<lambda>r. r\<lparr>obx_claimed_until := Some (now + 30000000), obx_attempts := obx_attempts r + 1\<rparr>) (g_outbox d)"
    using assms(1) by (auto simp: claim_p2p_outbox_def Let_def)
  then have "(if P r then r\<lparr>obx_claimed_until := Some (now + 30000000), obx_attempts := obx_attempts r + 1\<rparr> else r) \<in> set (g_outbox d1)"
    using assms(2) by (simp add: update_where_def)
  then show ?thesis unfolding kept_def by (rule bexI [rotated]) (simp add: same_message_def)
qed

lemma claim_ids:
  assumes "claim_p2p_outbox now limit d = (rows, d1)"
  shows "map obx_id (g_outbox d1) = map obx_id (g_outbox d)" "set rows \<subseteq> set (g_outbox d1)"
  using assms by (auto simp: claim_p2p_outbox_def Let_def update_where_def)

lemma pk_claim: "claim_p2p_outbox now limit d = (rows, d1) \<Longrightarrow> pk obx_id (g_outbox d) \<Longrightarrow> pk obx_id (g_outbox d1)"
  using claim_ids(1) [of now limit d rows d1] by (simp add: pk_def)

lemma drop_outbox:
  "pk obx_id (g_outbox d) \<Longrightarrow> pk obx_id (g_outbox (ack_p2p_outbox i d))"
  "pk obx_id (g_outbox d) \<Longrightarrow> pk obx_id (g_outbox (snd (release_p2p_outbox now i d)))"
  by (auto simp: ack_p2p_outbox_def release_p2p_outbox_def Let_def intro: pk_delete pk_update)

lemma ack_keeps: "r \<in> set (g_outbox d) \<Longrightarrow> obx_id r \<noteq> i \<Longrightarrow> r \<in> set (g_outbox (ack_p2p_outbox i d))"
  by (simp add: ack_p2p_outbox_def tab_simps)

lemma release_keeps:
  assumes "r \<in> set (g_outbox d)" and "obx_attempts r < P2P_OUTBOX_MAX_ATTEMPTS \<or> obx_id r \<noteq> i"
  shows "\<exists>r'\<in>set (g_outbox (snd (release_p2p_outbox now i d))). same_message r r' \<and> obx_attempts r' = obx_attempts r"
proof (cases "0 < rows_affected (\<lambda>r. obx_id r = i \<and> P2P_OUTBOX_MAX_ATTEMPTS \<le> obx_attempts r) (g_outbox d)")
  case True
  then have "r \<in> set (g_outbox (snd (release_p2p_outbox now i d)))"
    using assms by (auto simp: release_p2p_outbox_def Let_def tab_simps)
  then show ?thesis by (intro bexI [of _ r]) simp_all
next
  case False
  then show ?thesis using assms(1) by (intro bexI [of _ "if obx_id r = i then r\<lparr>obx_claimed_until := Some (now + 5000000)\<rparr> else r"])
    (auto simp: release_p2p_outbox_def Let_def update_where_def same_message_def)
qed

text \<open>One row of a batch: the batch ends there, or the row is removed or given back and the batch goes on.\<close>

lemma drain_rows_cons:
  assumes "drain_rows P now c (x # rows) (d, sent) = (res, d', sent')"
  obtains (stop) "d' = d" "set sent \<subseteq> set sent'"
  | (ack) sent1 where "drain_rows P now c rows (ack_p2p_outbox (obx_id x) d, sent1) = (res, d', sent')" "set sent \<subseteq> set sent1"
      "case outbox_message P c x of Inl _ \<Rightarrow> True | Inr m \<Rightarrow> m \<in> set sent1"
  | (release) "drain_rows P now c rows (snd (release_p2p_outbox now (obx_id x) d), sent) = (res, d', sent')"
proof (cases "outbox_message P c x")
  case (Inl e)
  then show thesis using assms ack [of sent] stop by (auto split: if_splits)
next
  case (Inr m)
  then show thesis using assms ack [of "sent @ [m]"] stop release by (cases "px_publish P m") (auto simp: subset_insertI split: if_splits)
qed

lemma drain_rows_sent:
  "drain_rows P now c rows (d, sent) = (res, d', sent') \<Longrightarrow> set sent \<subseteq> set sent' \<and> (pk obx_id (g_outbox d) \<longrightarrow> pk obx_id (g_outbox d'))"
proof (induction rows arbitrary: d sent)
  case (Cons x rows)
  from Cons.prems show ?case
  proof (cases rule: drain_rows_cons)
    case (ack sent1)
    then show ?thesis using Cons.IH [OF ack(1)] drop_outbox(1) [of d "obx_id x"] by blast
  next
    case release
    then show ?thesis using Cons.IH [OF release] drop_outbox(2) [of d now "obx_id x"] by blast
  qed simp
qed simp

lemma drain_rows_keeps:
  assumes "drain_rows P now c rows (d, sent) = (res, d', sent')" and "r \<in> set (g_outbox d)"
    and "obx_attempts r < P2P_OUTBOX_MAX_ATTEMPTS" and "\<forall>x\<in>set rows. obx_id x = obx_id r \<longrightarrow> same_message r x"
  shows "(\<exists>r'\<in>set (g_outbox d'). same_message r r' \<and> obx_attempts r' = obx_attempts r)
    \<or> (\<exists>x\<in>set rows. same_message r x) \<and> (case outbox_message P c r of Inl _ \<Rightarrow> True | Inr m \<Rightarrow> m \<in> set sent')"
  using assms
proof (induction rows arbitrary: d sent r)
  case Nil
  then show ?case by force
next
  case (Cons x rows)
  note r = Cons.prems(2,3)
  have rest: "\<forall>y\<in>set rows. obx_id y = obx_id r \<longrightarrow> same_message r y" using Cons.prems(4) by simp
  have go: ?case if "drain_rows P now c rows (d1, sent1) = (res, d', sent')" "s \<in> set (g_outbox d1)" "same_message r s"
      "obx_attempts s = obx_attempts r" for d1 sent1 s
  proof -
    have "\<forall>y\<in>set rows. obx_id y = obx_id s \<longrightarrow> same_message s y" using rest that(3) by (auto simp: same_message_def)
    from Cons.IH [OF that(1,2) _ this] r(2) that(4)
    have "(\<exists>r'\<in>set (g_outbox d'). same_message s r' \<and> obx_attempts r' = obx_attempts s)
       \<or> (\<exists>x\<in>set rows. same_message s x) \<and> (case outbox_message P c s of Inl _ \<Rightarrow> True | Inr m \<Rightarrow> m \<in> set sent')" by simp
    then show ?thesis using that(3,4) outbox_message_same [OF that(3), of P c] by (auto simp: same_message_def)
  qed
  from Cons.prems(1) show ?case
  proof (cases rule: drain_rows_cons)
    case stop
    then show ?thesis using r by force
  next
    case (ack sent1)
    show ?thesis
    proof (cases "obx_id x = obx_id r")
      case True
      then have "same_message r x" using Cons.prems(4) by simp
      then show ?thesis using ack(3) drain_rows_sent [OF ack(1)] outbox_message_same [of r x P c] by (auto split: sum.splits)
    next
      case False
      then show ?thesis using go [OF ack(1), of r] ack_keeps [of r d "obx_id x"] r(1) by simp
    qed
  next
    case release
    obtain s where "s \<in> set (g_outbox (snd (release_p2p_outbox now (obx_id x) d)))" "same_message r s" "obx_attempts s = obx_attempts r"
      using release_keeps [OF r(1), of "obx_id x" now] r(2) by blast
    then show ?thesis by (rule go [OF release])
  qed
qed

lemma drain_keeps:
  assumes run: "drain_p2p_outbox P now (d, sent) = (res, d', sent')" and pk: "pk obx_id (g_outbox d)"
    and r: "r \<in> set (g_outbox d)" "obx_attempts r + 1 < P2P_OUTBOX_MAX_ATTEMPTS"
  shows "(kept 1 r d' \<or> settled P r sent') \<and> pk obx_id (g_outbox d') \<and> set sent \<subseteq> set sent'"
proof -
  obtain rows d1 where claim: "claim_p2p_outbox now P2P_OUTBOX_BATCH_SIZE d = (rows, d1)" by fastforce
  obtain s where s: "s \<in> set (g_outbox d1)" "same_message r s" "obx_attempts s \<le> obx_attempts r + 1"
    using claim_outbox [OF claim r(1)] unfolding kept_def by blast
  have pk1: "pk obx_id (g_outbox d1)" by (rule pk_claim [OF claim pk])
  have rows: "\<forall>x\<in>set rows. obx_id x = obx_id s \<longrightarrow> same_message s x"
    using claim_ids(2) [OF claim] pk_unique [OF pk1] s(1) by fastforce
  have keep: "kept 1 r e" if "s' \<in> set (g_outbox e)" "same_message s s'" "obx_attempts s' = obx_attempts s" for e s'
    using that s(2,3) unfolding kept_def by (intro bexI [of _ s']) (auto simp: same_message_def)
  define b where "b = (\<exists>row\<in>set rows. obx_command_kind row = P2P_OUTBOX_COMMAND_SNAPSHOT)"
  show ?thesis
  proof (cases "(if b then and_then (px_contact P) (\<lambda>c. Inr (Some c)) else Inr None)")
    case (Inl e)
    then have "d' = d1" "sent' = sent" using run claim by (auto simp: drain_p2p_outbox_def b_def)
    then show ?thesis using keep [OF s(1)] pk1 by simp
  next
    case (Inr c)
    then have go: "drain_rows P now c rows (d1, sent) = (res, d', sent')" using run claim by (simp add: drain_p2p_outbox_def b_def)
    have msg: "outbox_message P c s = row_message P r" if "x \<in> set rows" "same_message s x" for x
    proof (cases "obx_command_kind s = P2P_OUTBOX_COMMAND_SNAPSHOT")
      case True
      then have b using that unfolding b_def same_message_def by force
      then have "c = (case px_contact P of Inl _ \<Rightarrow> None | Inr c \<Rightarrow> Some c)" using Inr by (auto simp: and_then_def split: sum.splits)
      then show ?thesis using outbox_message_same [OF s(2)] by (simp add: row_message_def)
    next
      case False
      then show ?thesis using outbox_message_same [OF s(2)] outbox_message_event [OF False] unfolding row_message_def by metis
    qed
    have "obx_attempts s < P2P_OUTBOX_MAX_ATTEMPTS" using s(3) r(2) by simp
    from drain_rows_keeps [OF go s(1) this rows] have "kept 1 r d' \<or> settled P r sent'"
    proof (elim disjE bexE conjE)
      fix x assume "case outbox_message P c s of Inl _ \<Rightarrow> True | Inr m \<Rightarrow> m \<in> set sent'" "x \<in> set rows" "same_message s x"
      then show ?thesis using msg by (simp add: settled_def)
    qed (use keep in blast)
    then show ?thesis using drain_rows_sent [OF go] pk1 by simp
  qed
qed

text \<open>A series of drains, each with the state of the network at its time.\<close>

fun drains :: "(p2p_env \<times> instant) list \<Rightarrow> gdb \<times> string list \<Rightarrow> gdb \<times> string list" where
  "drains [] s = s"
| "drains ((P, now) # Ps) s = drains Ps (snd (drain_p2p_outbox P now s))"

lemma drain_mono:
  assumes "drain_p2p_outbox P now (d, sent) = (res, d', sent')"
  shows "set sent \<subseteq> set sent'"
  using assms drain_rows_sent by (fastforce simp: drain_p2p_outbox_def split: prod.splits sum.splits)

lemma drains_mono: "drains Ps (d, sent) = (d', sent') \<Longrightarrow> set sent \<subseteq> set sent'"
proof (induction Ps arbitrary: d sent)
  case (Cons p Ps)
  obtain P now where p: "p = (P, now)" by (cases p)
  obtain res d1 sent1 where one: "drain_p2p_outbox P now (d, sent) = (res, d1, sent1)" by (metis prod_cases3)
  from Cons.IH [of d1 sent1] Cons.prems one drain_mono [OF one] show ?case by (auto simp: p)
qed simp

lemma settled_same: "same_message r r' \<Longrightarrow> settled P r' sent = settled P r sent"
  by (simp add: settled_def row_message_def outbox_message_same)


text \<open>An outbox with one announcement, and a network that accepts everything or nothing.\<close>

definition sample_outbox :: gdb where
  "sample_outbox = insert_outbox 0 ''snapshot:n:1'' P2P_OUTBOX_COMMAND_SNAPSHOT
     (json_obj [(''node_id'', JStr ''n''), (''signer_agent_did'', JStr ''did:key:k''), (''generated_at'', JInt 1)]) empty_gdb"

definition sample_network :: "bool \<Rightarrow> p2p_env" where
  "sample_network up = \<lparr>px_local_peer_id = ''gw'',
     px_contact = Inr \<lparr>ct_transport = ''iroh_direct'', ct_peer_id = ''gw'', ct_route = ''iroh_direct'', ct_endpoint_id = None, ct_extra = JNull\<rparr>,
     px_encode = (\<lambda>m. case m of SnapshotAnnounceV1 _ node _ _ _ \<Rightarrow> Inr (''announce '' @ node) | EventV1 _ _ \<Rightarrow> Inr ''event''),
     px_parse_event = (\<lambda>v. Inl ''missing field''), px_publish = (\<lambda>m. if up then Inr () else Inl ''no peers''), px_row_ok = (\<lambda>i. True)\<rparr>"

lemma sample_row: "g_outbox sample_outbox = [\<lparr>obx_id = 1, obx_dedupe_key = ''snapshot:n:1'', obx_command_kind = P2P_OUTBOX_COMMAND_SNAPSHOT,
    obx_payload = json_obj [(''node_id'', JStr ''n''), (''signer_agent_did'', JStr ''did:key:k''), (''generated_at'', JInt 1)],
    obx_attempts = 0, obx_claimed_until = None, obx_created_at = 0\<rparr>]"
  by (simp add: sample_outbox_def insert_outbox_def empty_gdb_def upsert_def Let_def)

lemma sample_message: "row_message (sample_network up) (hd (g_outbox sample_outbox)) = Inr ''announce n''"
  by (simp add: sample_row row_message_def sample_network_def outbox_message_def snapshot_outbox_payload_def json_obj_def jget_def)


section \<open>A healthy drain delivers\<close>

definition healthy :: "p2p_env \<Rightarrow> bool" where
  "healthy P \<longleftrightarrow> (\<forall>m. px_publish P m = Inr ()) \<and> (\<forall>i. px_row_ok P i) \<and> is_ok (px_contact P)"

lemma drain_rows_healthy:
  assumes "healthy P"
  shows "drain_rows P now c rows (d, sent) = (Inr (), d\<lparr>g_outbox := filter (\<lambda>r. obx_id r \<notin> obx_id ` set rows) (g_outbox d)\<rparr>,
    sent @ List.map_filter (\<lambda>r. case outbox_message P c r of Inl _ \<Rightarrow> None | Inr m \<Rightarrow> Some m) rows)"
proof (induction rows arbitrary: d sent)
  case (Cons x rows)
  have "filter (\<lambda>r. obx_id r \<notin> obx_id ` set rows) (delete_where (\<lambda>r. obx_id r = obx_id x) t) = filter (\<lambda>r. obx_id r \<notin> obx_id ` set (x # rows)) t" for t :: "outbox_row list"
    by (simp add: delete_where_def conj_commute)
  with assms Cons.IH show ?case
    by (cases "outbox_message P c x") (simp_all add: healthy_def ack_p2p_outbox_def map_filter_simps)
qed (simp add: map_filter_simps)

text \<open>
  The outbox makes progress. A drain while the network accepts messages and the database answers takes
  each of the first \<open>P2P_OUTBOX_BATCH_SIZE\<close> claimable rows: it succeeds, removes the row and hands its message
  to the network.
\<close>

theorem outbox_delivers:
  assumes "healthy P" and "r \<in> set (take (nat P2P_OUTBOX_BATCH_SIZE) (sort_key obx_id (filter (claimable now) (g_outbox d))))"
    and "drain_p2p_outbox P now (d, sent) = (res, d', sent')"
  shows "res = Inr () \<and> obx_id r \<notin> obx_id ` set (g_outbox d') \<and> (\<forall>m. row_message P r = Inr m \<longrightarrow> m \<in> set sent')"
proof -
  obtain rows d1 where claim: "claim_p2p_outbox now P2P_OUTBOX_BATCH_SIZE d = (rows, d1)" by fastforce
  have r: "r \<in> set (g_outbox d)" using assms(2) by (auto dest: in_set_takeD)
  obtain x where x: "x \<in> set rows" "same_message r x"
  proof -
    let ?ids = "obx_id ` set (take (nat P2P_OUTBOX_BATCH_SIZE) (sort_key obx_id (filter (claimable now) (g_outbox d))))"
    let ?f = "\<lambda>r. r\<lparr>obx_claimed_until := Some (now + 30000000), obx_attempts := obx_attempts r + 1\<rparr>"
    have rows: "rows = filter (\<lambda>r. obx_id r \<in> ?ids) (update_where (\<lambda>r. obx_id r \<in> ?ids) ?f (g_outbox d))"
      using claim by (simp add: claim_p2p_outbox_def Let_def P2P_OUTBOX_BATCH_SIZE_def)
    have "obx_id r \<in> ?ids" using assms(2) by blast
    then have "?f r \<in> set rows" unfolding rows using r by (auto simp: update_where_def intro!: image_eqI [of _ _ r])
    then show thesis using that [of "?f r"] by (simp add: same_message_def)
  qed
  define b where "b = (\<exists>row\<in>set rows. obx_command_kind row = P2P_OUTBOX_COMMAND_SNAPSHOT)"
  obtain k where k: "px_contact P = Inr k" using assms(1) by (auto simp: healthy_def is_ok_iff)
  define c where "c = (if b then Some k else None)"
  have "drain_rows P now c rows (d1, sent) = (res, d', sent')"
    using assms(3) claim k by (auto simp: drain_p2p_outbox_def b_def c_def split: if_splits)
  then have res: "res = Inr ()" "g_outbox d' = filter (\<lambda>r. obx_id r \<notin> obx_id ` set rows) (g_outbox d1)"
    "sent' = sent @ List.map_filter (\<lambda>r. case outbox_message P c r of Inl _ \<Rightarrow> None | Inr m \<Rightarrow> Some m) rows"
    unfolding drain_rows_healthy [OF assms(1)] by auto
  have "outbox_message P c x = row_message P r"
  proof (cases "obx_command_kind x = P2P_OUTBOX_COMMAND_SNAPSHOT")
    case True
    then have b using x(1) by (auto simp: b_def)
    then show ?thesis using outbox_message_same [OF x(2)] k by (simp add: row_message_def c_def)
  next
    case False
    then show ?thesis using outbox_message_same [OF x(2)] outbox_message_event [OF False] unfolding row_message_def by metis
  qed
  then have "\<forall>m. row_message P r = Inr m \<longrightarrow> m \<in> set sent'"
    unfolding res(3) List.map_filter_def using x(1) by (auto simp: image_iff intro!: bexI [of _ x])
  moreover have "obx_id r = obx_id x" using x(2) by (simp add: same_message_def)
  then have "obx_id r \<in> obx_id ` set rows" using x(1) by simp
  then have "obx_id r \<notin> obx_id ` set (g_outbox d')" unfolding res(2) by auto
  ultimately show ?thesis using res(1) by blast
qed

theorem outbox_delivers_witness:
  "\<exists>d' sent'. drain_p2p_outbox (sample_network True) 10 (sample_outbox, []) = (Inr (), d', sent') \<and> ''announce n'' \<in> set sent'"
proof -
  obtain res d' sent' where run: "drain_p2p_outbox (sample_network True) 10 (sample_outbox, []) = (res, d', sent')" by (metis prod_cases3)
  have "healthy (sample_network True)" by (simp add: healthy_def sample_network_def)
  moreover have "hd (g_outbox sample_outbox) \<in> set (take (nat P2P_OUTBOX_BATCH_SIZE) (sort_key obx_id (filter (claimable 10) (g_outbox sample_outbox))))"
    by (simp add: sample_row claimable_def P2P_OUTBOX_BATCH_SIZE_def)
  ultimately show ?thesis using outbox_delivers [OF _ _ run] run sample_message by auto
qed

end
