(* ===== verification/Gw_Reannounce.thy ===== *)
theory Gw_Reannounce
  imports Gw_Outbox
begin

text \<open>
  Announcing the stored snapshots to the other gateways (\<open>gateway_sync.rs\<close>, \<open>reannounce_local_snapshots\<close> and
  its schedule): a full pass over all visible snapshots in pages by node id, then increments by time of
  ingestion. The pages are separate calls, and the tables change between them.
\<close>

section \<open>Cursors and pages\<close>

definition SNAPSHOT_REANNOUNCE_BATCH_SIZE :: int where
  "SNAPSHOT_REANNOUNCE_BATCH_SIZE = 256"

datatype reannounce_cursor = Full instant string | Incremental instant string

definition snapshot_payload_generated_at :: "json \<Rightarrow> int option" where
  "snapshot_payload_generated_at payload = Option.bind (jget ''generated_at'' payload) as_i64"

definition announcement :: "p2p_env \<Rightarrow> contact_material \<Rightarrow> snapshot_row \<Rightarrow> sync_message" where
  "announcement P contact r = SnapshotAnnounceV1 (px_local_peer_id P) (snr_node_id r) (snr_signer_agent_did r)
     (case snapshot_payload_generated_at (snr_payload r) of None \<Rightarrow> snr_generated_at r div 1000000 | Some g \<Rightarrow> g) contact"

fun announce_rows :: "p2p_env \<Rightarrow> contact_material \<Rightarrow> snapshot_row list \<Rightarrow> string list \<Rightarrow> unit result \<times> string list" where
  "announce_rows P contact [] sent = (Inr (), sent)"
| "announce_rows P contact (r # rs) sent =
    (case and_then (px_encode P (announcement P contact r)) (\<lambda>m. and_then (px_publish P m) (\<lambda>_. Inr m)) of
       Inl e \<Rightarrow> (Inl e, sent)
     | Inr m \<Rightarrow> announce_rows P contact rs (sent @ [m]))"

definition publish_snapshot_announcements :: "p2p_env \<Rightarrow> snapshot_row list \<Rightarrow> string list \<Rightarrow> unit result \<times> string list" where
  "publish_snapshot_announcements P rs sent =
    (if rs = [] then (Inr (), sent)
     else case px_contact P of Inl e \<Rightarrow> (Inl e, sent) | Inr contact \<Rightarrow> announce_rows P contact rs sent)"

definition next_full_reconcile_cursor :: "instant \<Rightarrow> string option \<Rightarrow> bool \<Rightarrow> reannounce_cursor" where
  "next_full_reconcile_cursor started_at last_node_id has_more =
    (if has_more then Full started_at (case last_node_id of None \<Rightarrow> [] | Some k \<Rightarrow> k) else Incremental started_at [])"

definition last_row :: "'a list \<Rightarrow> 'a option" where
  "last_row rs = (if rs = [] then None else Some (last rs))"

text \<open>One call: the result tells whether there is more, with the cursor afterwards and the messages sent so far.\<close>

definition reannounce_local_snapshots ::
  "p2p_env \<Rightarrow> collation \<Rightarrow> instant \<Rightarrow> gdb \<Rightarrow> bool \<Rightarrow> reannounce_cursor option \<times> string list
   \<Rightarrow> bool result \<times> reannounce_cursor option \<times> string list" where
  "reannounce_local_snapshots P C now d full_reconcile s =
    (case s of (cursor0, sent) \<Rightarrow>
     let start = full_reconcile \<and> \<not> (case cursor0 of Some (Full _ _) \<Rightarrow> True | _ \<Rightarrow> False);
         cursor = (if start then Some (Full now []) else cursor0)
     in case cursor of
          Some (Full started_at node_id) \<Rightarrow>
            let rows = list_visible_snapshots_after_node_id C node_id SNAPSHOT_REANNOUNCE_BATCH_SIZE d;
                has_more = SNAPSHOT_REANNOUNCE_BATCH_SIZE \<le> int (length rows)
            in (case publish_snapshot_announcements P rows sent of
                  (Inl e, sent') \<Rightarrow> (Inl e, cursor, sent')
                | (Inr _, sent') \<Rightarrow> (Inr has_more,
                    Some (next_full_reconcile_cursor started_at (map_option snr_node_id (last_row rows)) has_more), sent'))
        | Some (Incremental ingested_at node_id) \<Rightarrow>
            let rows = list_visible_snapshots_updated_after C ingested_at node_id SNAPSHOT_REANNOUNCE_BATCH_SIZE d;
                has_more = SNAPSHOT_REANNOUNCE_BATCH_SIZE \<le> int (length rows)
            in (case last_row rows of
                  None \<Rightarrow> (Inr has_more, cursor, sent)
                | Some l \<Rightarrow> (case publish_snapshot_announcements P rows sent of
                    (Inl e, sent') \<Rightarrow> (Inl e, cursor, sent')
                  | (Inr _, sent') \<Rightarrow> (Inr has_more, Some (Incremental (snr_ingested_at l) (snr_node_id l)), sent')))
        | None \<Rightarrow> (Inr True, None, sent))"

section \<open>The schedule\<close>

record sync_schedule =
  sch_next_snapshot_reannounce :: instant
  sch_next_full_reconcile :: instant
  sch_next_outbox_poll :: instant
  sch_cursor :: "reannounce_cursor option"

definition schedule_full_reconcile :: "instant \<Rightarrow> sync_schedule \<Rightarrow> sync_schedule" where
  "schedule_full_reconcile now s = s\<lparr>sch_next_snapshot_reannounce := min (sch_next_snapshot_reannounce s) now,
     sch_next_full_reconcile := min (sch_next_full_reconcile s) now\<rparr>"

definition next_snapshot_reannounce_deadline :: "instant \<Rightarrow> bool \<Rightarrow> instant" where
  "next_snapshot_reannounce_deadline now has_more = now + (if has_more then 100000 else 30000000)"

text \<open>
  \<open>now\<close> is the instant of the tick, taken as the instant of its deadlines too. A failing drain ends the tick.
\<close>

definition run_periodic_sync_work ::
  "p2p_env \<Rightarrow> collation \<Rightarrow> instant \<Rightarrow> sync_schedule \<times> gdb \<times> string list \<Rightarrow> unit result \<times> sync_schedule \<times> gdb \<times> string list" where
  "run_periodic_sync_work P C now st =
    (case st of (s, d, sent) \<Rightarrow>
     case (if sch_next_outbox_poll s \<le> now
           then (case drain_p2p_outbox P now (d, sent) of (r, d1, sent1) \<Rightarrow> (r, s\<lparr>sch_next_outbox_poll := now + 1000000\<rparr>, d1, sent1))
           else (Inr (), s, d, sent)) of
       (Inl e, st1) \<Rightarrow> (Inl e, st1)
     | (Inr _, s1, d1, sent1) \<Rightarrow>
         if now < sch_next_snapshot_reannounce s1 then (Inr (), s1, d1, sent1)
         else let full = sch_next_full_reconcile s1 \<le> now in
           (case reannounce_local_snapshots P C now d1 full (sch_cursor s1, sent1) of
              (Inl e, cursor, sent2) \<Rightarrow>
                (Inl e, s1\<lparr>sch_cursor := cursor, sch_next_snapshot_reannounce := now + 5000000\<rparr>, d1, sent2)
            | (Inr has_more, cursor, sent2) \<Rightarrow>
                (Inr (), s1\<lparr>sch_cursor := cursor,
                   sch_next_full_reconcile := (if full \<and> \<not> has_more then now + 300000000 else sch_next_full_reconcile s1),
                   sch_next_snapshot_reannounce := next_snapshot_reannounce_deadline now has_more\<rparr>, d1, sent2)))"

section \<open>Pages\<close>

lemma announce_rows_ok:
  assumes "announce_rows P c rs sent = (Inr (), sent')"
  shows "\<exists>ms. sent' = sent @ ms \<and> list_all2 (\<lambda>r m. px_encode P (announcement P c r) = Inr m) rs ms"
  using assms
proof (induction rs arbitrary: sent)
  case (Cons r rs)
  from Cons.prems obtain m where m: "px_encode P (announcement P c r) = Inr m" "announce_rows P c rs (sent @ [m]) = (Inr (), sent')"
    by (auto simp: and_then_def split: sum.splits)
  from Cons.IH [OF m(2)] obtain ms where "sent' = sent @ m # ms" "list_all2 (\<lambda>r m. px_encode P (announcement P c r) = Inr m) rs ms" by auto
  then show ?case using m(1) by (intro exI [of _ "m # ms"]) simp
qed simp

lemma announce_rows_all:
  assumes "\<forall>m. px_publish P m = Inr ()" and "\<forall>r\<in>set rs. px_encode P (announcement P c r) = Inr (enc r)"
  shows "announce_rows P c rs sent = (Inr (), sent @ map enc rs)"
  using assms(2) by (induction rs arbitrary: sent) (simp_all add: assms(1))

lemma take_sorted_rest:
  fixes f :: "'a \<Rightarrow> 'b::linorder"
  assumes "sorted (map f xs)" and "r \<in> set xs" and "r \<notin> set (take n xs)" and "0 < n"
  shows "length (take n xs) = n \<and> take n xs \<noteq> [] \<and> f (last (take n xs)) \<le> f r"
proof -
  obtain i where i: "i < length xs" "xs ! i = r" using assms(2) by (auto simp: in_set_conv_nth)
  have n: "n \<le> i"
  proof (rule ccontr)
    assume "\<not> n \<le> i"
    then have "r \<in> set (take n xs)" using i by (auto simp: in_set_conv_nth intro!: exI [of _ i])
    then show False using assms(3) by simp
  qed
  have "f (xs ! (n - 1)) \<le> f (xs ! i)"
    using sorted_nth_mono [OF assms(1), of "n - 1" i] n i(1) assms(4) by simp
  moreover have "last (take n xs) = xs ! (n - 1)" using n i(1) assms(4) by (subst last_conv_nth) auto
  ultimately show ?thesis using n i assms(4) by auto
qed

definition visible_at :: "gdb \<Rightarrow> string \<Rightarrow> snapshot_row \<Rightarrow> bool" where
  "visible_at d k r \<longleftrightarrow> r \<in> set (g_snapshots d) \<and> snr_node_id r = k \<and> source_visible d (snr_source_id r)"

definition announced :: "p2p_env \<Rightarrow> snapshot_row \<Rightarrow> string list \<Rightarrow> bool" where
  "announced P r sent \<longleftrightarrow> (\<exists>c m. px_contact P = Inr c \<and> px_encode P (announcement P c r) = Inr m \<and> m \<in> set sent)"

lemma publish_announced:
  assumes "publish_snapshot_announcements P rs sent = (Inr (), sent')"
  shows "set sent \<subseteq> set sent' \<and> (\<forall>r\<in>set rs. announced P r sent')"
proof (cases "rs = []")
  case False
  then obtain c where c: "px_contact P = Inr c" "announce_rows P c rs sent = (Inr (), sent')"
    using assms by (auto simp: publish_snapshot_announcements_def split: sum.splits)
  from announce_rows_ok [OF c(2)] obtain ms where ms: "sent' = sent @ ms" "list_all2 (\<lambda>r m. px_encode P (announcement P c r) = Inr m) rs ms"
    by blast
  have "\<exists>m\<in>set ms. px_encode P (announcement P c r) = Inr m" if "r \<in> set rs" for r
    using ms(2) that by (induction rule: list_all2_induct) auto
  then show ?thesis using c(1) ms(1) unfolding announced_def by auto
qed (use assms in \<open>simp add: publish_snapshot_announcements_def\<close>)

lemma publish_sent: "set sent \<subseteq> set (snd (publish_snapshot_announcements P rs sent))"
proof -
  have "set s \<subseteq> set (snd (announce_rows P c rs s))" for c s
    by (induction rs arbitrary: s) (fastforce split: sum.split)+
  then show ?thesis by (auto simp: publish_snapshot_announcements_def split: sum.split)
qed

lemma reannounce_full:
  assumes "list_visible_snapshots_after_node_id C after SNAPSHOT_REANNOUNCE_BATCH_SIZE d = rows"
  shows "reannounce_local_snapshots P C now d full (Some (Full t after), sent) =
    (case publish_snapshot_announcements P rows sent of
       (Inl e, sent') \<Rightarrow> (Inl e, Some (Full t after), sent')
     | (Inr _, sent') \<Rightarrow> (Inr (256 \<le> length rows),
         Some (next_full_reconcile_cursor t (map_option snr_node_id (last_row rows)) (256 \<le> length rows)), sent'))"
proof -
  have "SNAPSHOT_REANNOUNCE_BATCH_SIZE \<le> int (length rows) \<longleftrightarrow> 256 \<le> length rows" by (simp add: SNAPSHOT_REANNOUNCE_BATCH_SIZE_def)
  then show ?thesis by (simp add: reannounce_local_snapshots_def assms Let_def split: prod.split sum.split)
qed

text \<open>One page of a full pass announces every snapshot beyond its cursor, or leaves it beyond the next one.\<close>

lemma full_page:
  assumes "inj C" and pk: "pk snr_node_id (g_snapshots d)" and r: "visible_at d k r" "C after < C k"
    and run: "reannounce_local_snapshots P C now d True (Some (Full t after), sent) = (res, cursor', sent')"
  shows "set sent \<subseteq> set sent'
    \<and> (case res of Inl _ \<Rightarrow> cursor' = Some (Full t after)
       | Inr b \<Rightarrow> announced P r sent' \<or> b \<and> (\<exists>after'. cursor' = Some (Full t after') \<and> C after' < C k))"
proof -
  define xs where "xs = sort_key (\<lambda>r. C (snr_node_id r))
      (filter (\<lambda>r. C after < C (snr_node_id r) \<and> source_visible d (snr_source_id r)) (g_snapshots d))"
  define rows where "rows = take 256 xs"
  have rows: "list_visible_snapshots_after_node_id C after SNAPSHOT_REANNOUNCE_BATCH_SIZE d = rows"
    by (simp add: list_visible_snapshots_after_node_id_def rows_def xs_def SNAPSHOT_REANNOUNCE_BATCH_SIZE_def)
  obtain res1 sent1 where pub: "publish_snapshot_announcements P rows sent = (res1, sent1)" by fastforce
  note run' = run [unfolded reannounce_full [OF rows] pub]
  show ?thesis
  proof (cases res1)
    case (Inl e)
    then show ?thesis using run' publish_sent [of sent P rows] pub by auto
  next
    case (Inr u)
    then have res: "res = Inr (256 \<le> length rows)" "sent' = sent1"
      "cursor' = Some (next_full_reconcile_cursor t (map_option snr_node_id (last_row rows)) (256 \<le> length rows))"
      using run' by simp_all
    have ann: "set sent \<subseteq> set sent'" "\<forall>r\<in>set rows. announced P r sent'"
      using publish_announced [of P rows sent sent1] pub Inr res(2) by auto
    show ?thesis
    proof (cases "r \<in> set rows")
      case False
      have "r \<in> set xs" using r by (simp add: xs_def visible_at_def)
      moreover have "sorted (map (\<lambda>r. C (snr_node_id r)) xs)" unfolding xs_def by simp
      ultimately have full: "length rows = 256" "rows \<noteq> []" "C (snr_node_id (last rows)) \<le> C (snr_node_id r)"
        using take_sorted_rest [of "\<lambda>r. C (snr_node_id r)" xs r 256] False unfolding rows_def by auto
      have "last rows \<in> set (g_snapshots d)" using last_in_set [OF full(2)] by (auto simp: rows_def xs_def dest: in_set_takeD)
      then have "snr_node_id (last rows) \<noteq> snr_node_id r"
        using pk_unique [OF pk] r(1) last_in_set [OF full(2)] False unfolding visible_at_def by metis
      then have "C (snr_node_id (last rows)) < C k" using full(3) assms(1) r(1) by (auto simp: visible_at_def inj_eq order_less_le)
      then show ?thesis using res ann(1) full(1,2) by (simp add: next_full_reconcile_cursor_def last_row_def)
    qed (use res ann in auto)
  qed
qed

section \<open>Full passes\<close>

fun reannounce_calls :: "collation \<Rightarrow> (p2p_env \<times> instant \<times> gdb) list \<Rightarrow> reannounce_cursor option \<times> string list
    \<Rightarrow> bool result list \<times> reannounce_cursor option \<times> string list" where
  "reannounce_calls C [] s = ([], s)"
| "reannounce_calls C ((P, now, d) # cs) s =
    (case reannounce_local_snapshots P C now d True s of (res, s') \<Rightarrow>
     case reannounce_calls C cs s' of (rs, s'') \<Rightarrow> (res # rs, s''))"

lemma reannounce_start:
  assumes "\<And>t k. cursor \<noteq> Some (Full t k)"
  shows "reannounce_local_snapshots P C now d True (cursor, sent) = reannounce_local_snapshots P C now d True (Some (Full now []), sent)"
  using assms by (auto simp: reannounce_local_snapshots_def Let_def split: option.split reannounce_cursor.split)

lemma reannounce_sent:
  assumes "reannounce_local_snapshots P C now d full (cursor, sent) = (res, cursor', sent')"
  shows "set sent \<subseteq> set sent'"
proof -
  have p: "set sent \<subseteq> set s" if "publish_snapshot_announcements P rs sent = (u, s)" for rs u s
    using publish_sent [of sent P rs] that by simp
  show ?thesis using assms
    by (auto simp: reannounce_local_snapshots_def Let_def split: option.splits reannounce_cursor.splits prod.splits sum.splits if_splits
      dest!: p)
qed

lemma reannounce_calls_sent: "reannounce_calls C cs (cursor, sent) = (rs, cursor', sent') \<Longrightarrow> set sent \<subseteq> set sent'"
proof (induction cs arbitrary: cursor sent rs)
  case (Cons x cs)
  obtain P now d where x: "x = (P, now, d)" by (cases x)
  obtain res cursor1 sent1 where one: "reannounce_local_snapshots P C now d True (cursor, sent) = (res, cursor1, sent1)" by (metis prod_cases3)
  obtain rs1 where "reannounce_calls C cs (cursor1, sent1) = (rs1, cursor', sent')"
    using Cons.prems one by (auto simp: x split: prod.splits)
  from Cons.IH [OF this] reannounce_sent [OF one] show ?case by blast
qed simp

lemma announced_mono: "announced P r sent \<Longrightarrow> set sent \<subseteq> set sent' \<Longrightarrow> announced P r sent'"
  by (auto simp: announced_def)

lemma full_pass_from:
  assumes "inj C" and "\<forall>(P, now, d)\<in>set cs. pk snr_node_id (g_snapshots d) \<and> (\<exists>r. visible_at d k r)" and "C after < C k"
    and "reannounce_calls C cs (Some (Full t after), sent) = (rs @ [Inr False], cursor', sent')" and "Inr False \<notin> set rs"
  shows "\<exists>(P, now, d)\<in>set cs. \<exists>r. visible_at d k r \<and> announced P r sent'"
  using assms(2-5)
proof (induction cs arbitrary: after sent rs)
  case (Cons x cs)
  obtain P now d where x: "x = (P, now, d)" by (cases x)
  obtain r where r: "visible_at d k r" and pk: "pk snr_node_id (g_snapshots d)" using Cons.prems(1) by (auto simp: x)
  obtain res cursor1 sent1 where one: "reannounce_local_snapshots P C now d True (Some (Full t after), sent) = (res, cursor1, sent1)"
    by (metis prod_cases3)
  obtain rs1 where rest: "reannounce_calls C cs (cursor1, sent1) = (rs1, cursor', sent')" "res # rs1 = rs @ [Inr False]"
    using Cons.prems(3) one by (auto simp: x split: prod.splits)
  note page = full_page [OF assms(1) pk r Cons.prems(2) one]
  have sent: "set sent1 \<subseteq> set sent'" by (rule reannounce_calls_sent [OF rest(1)])
  show ?case
  proof (cases "announced P r sent1")
    case True
    then show ?thesis using r announced_mono [OF True sent] by (auto simp: x)
  next
    case False
    then have res: "res \<noteq> Inr False" using page by (auto split: sum.splits)
    then obtain rs2 where rs: "rs = res # rs2" "rs1 = rs2 @ [Inr False]" using rest(2) by (cases rs) auto
    obtain after' where a: "cursor1 = Some (Full t after')" "C after' < C k"
      using page False Cons.prems(2) by (auto split: sum.splits)
    have "\<exists>(P, now, d)\<in>set cs. \<exists>r. visible_at d k r \<and> announced P r sent'"
      using Cons.IH [OF _ a(2) _ ] Cons.prems(1,4) rest(1) rs a(1) by (auto simp: x)
    then show ?thesis by auto
  qed
qed simp

text \<open>
  C30. A full pass announces every snapshot that is visible throughout. Start a full pass and make calls, with
  any change of the tables between two calls and any failing calls among them, until a call reports
  that nothing is left: every node whose snapshot is visible at each of the calls has been announced by one
  of them, with the row it then had. The database compares ids by an injective sort key that puts the
  empty text first.
\<close>

theorem full_pass_complete:
  assumes "inj C" and "C [] < C k" and "\<And>t k. cursor \<noteq> Some (Full t k)"
    and "\<And>P now d. (P, now, d) \<in> set cs \<Longrightarrow> pk snr_node_id (g_snapshots d) \<and> (\<exists>r. visible_at d k r)"
    and "reannounce_calls C cs (cursor, sent) = (rs @ [Inr False], cursor', sent')" and "Inr False \<notin> set rs"
  shows "\<exists>(P, now, d)\<in>set cs. \<exists>r c m. visible_at d k r \<and> px_contact P = Inr c \<and> px_encode P (announcement P c r) = Inr m \<and> m \<in> set sent'"
proof (cases cs)
  case Nil
  then show ?thesis using assms(5) by simp
next
  case (Cons x cs')
  obtain P now d where x: "x = (P, now, d)" by (cases x)
  have "reannounce_calls C cs (Some (Full now []), sent) = (rs @ [Inr False], cursor', sent')"
    using assms(5) reannounce_start [OF assms(3), of P C now d sent] by (simp add: Cons x)
  from full_pass_from [OF assms(1) _ assms(2) this assms(6)] assms(4)
  have "\<exists>(P, now, d)\<in>set cs. \<exists>r. visible_at d k r \<and> announced P r sent'" by blast
  then show ?thesis unfolding announced_def by blast
qed

text \<open>A gateway with one pushed snapshot, and an injective sort key.\<close>

definition sample_snapshot :: snapshot_row where
  "sample_snapshot = \<lparr>snr_node_id = ''n'', snr_source_id = None, snr_signer_agent_did = ''did:key:k'', snr_public_key = ''k'',
     snr_generated_at = 1000000, snr_ingested_at = 5, snr_payload = JNull, snr_signature = ''s''\<rparr>"

definition sample_store :: gdb where
  "sample_store = empty_gdb\<lparr>g_snapshots := [sample_snapshot]\<rparr>"

lemma sample_visible: "visible_at sample_store ''n'' r \<longleftrightarrow> r = sample_snapshot" "pk snr_node_id (g_snapshots sample_store)"
  by (auto simp: visible_at_def sample_store_def sample_snapshot_def source_visible_def pk_def)

lemma sample_pass:
  "reannounce_calls id [(sample_network False, 3, sample_store), (sample_network True, 9, sample_store)] (None, [])
   = ([Inl ''no peers'', Inr False], Some (Incremental 3 []), [''announce n''])"
proof -
  have "list_visible_snapshots_after_node_id id [] SNAPSHOT_REANNOUNCE_BATCH_SIZE sample_store = [sample_snapshot]"
    by (simp add: list_visible_snapshots_after_node_id_def sample_store_def sample_snapshot_def source_visible_def SNAPSHOT_REANNOUNCE_BATCH_SIZE_def)
  note page = reannounce_full [OF this]
  show ?thesis
    by (simp add: reannounce_start page publish_snapshot_announcements_def announcement_def sample_network_def sample_snapshot_def
      next_full_reconcile_cursor_def)
qed

theorem full_pass_complete_witness:
  "\<exists>(P, now, d)\<in>{(sample_network False, 3, sample_store), (sample_network True, 9, sample_store)}.
     \<exists>r c m. visible_at d ''n'' r \<and> px_contact P = Inr c \<and> px_encode P (announcement P c r) = Inr m \<and> m \<in> set [''announce n'']"
  using full_pass_complete [of id "''n''" None "[(sample_network False, 3, sample_store), (sample_network True, 9, sample_store)]" "[]"
    "[Inl ''no peers'']" "Some (Incremental 3 [])" "[''announce n'']"] sample_pass sample_visible by auto

section \<open>A full pass ends\<close>

lemma filter_beyond:
  fixes f :: "'a \<Rightarrow> 'b::linorder"
  assumes "sorted_wrt (<) (map f ys)" and "m < length ys"
  shows "filter (\<lambda>r. f (ys ! m) < f r) ys = drop (Suc m) ys"
proof -
  have "f (ys ! i) \<le> f (ys ! m)" if "i \<le> m" for i
    using assms that sorted_wrt_nth_less [OF assms(1), of i m] by (cases "i = m") auto
  then have "filter (\<lambda>r. f (ys ! m) < f r) (take (Suc m) ys) = []"
    using assms(2) by (auto simp: filter_empty_conv in_set_conv_nth not_less)
  moreover have "f (ys ! m) < f (ys ! i)" if "m < i" "i < length ys" for i
    using that sorted_wrt_nth_less [OF assms(1), of m i] by simp
  then have "filter (\<lambda>r. f (ys ! m) < f r) (drop (Suc m) ys) = drop (Suc m) ys"
    by (auto simp: filter_id_conv in_set_conv_nth)
  ultimately show ?thesis by (metis append.left_neutral append_take_drop_id filter_append)
qed

definition visible_rows :: "collation \<Rightarrow> gdb \<Rightarrow> snapshot_row list" where
  "visible_rows C d = sort_key (\<lambda>r. C (snr_node_id r)) (filter (\<lambda>r. source_visible d (snr_source_id r)) (g_snapshots d))"

lemma visible_rows_strict:
  assumes "inj C" and "pk snr_node_id (g_snapshots d)"
  shows "sorted_wrt (<) (map (\<lambda>r. C (snr_node_id r)) (visible_rows C d))"
proof -
  let ?t = "filter (\<lambda>r. source_visible d (snr_source_id r)) (g_snapshots d)"
  have "distinct (map snr_node_id ?t)" using assms(2) by (simp only: pk_def distinct_map_filter)
  then have "distinct (map C (map snr_node_id ?t))" unfolding distinct_map using inj_on_subset [OF assms(1)] by blast
  then have "distinct (map (\<lambda>r. C (snr_node_id r)) ?t)" by (simp only: map_map comp_def)
  then have "distinct (map (\<lambda>r. C (snr_node_id r)) (visible_rows C d))"
    unfolding visible_rows_def distinct_map by (simp only: distinct_sort set_sort)
  moreover have "sorted (map (\<lambda>r. C (snr_node_id r)) (visible_rows C d))" unfolding visible_rows_def by (rule sorted_sort_key)
  ultimately show ?thesis unfolding strict_sorted_iff by blast
qed

lemma page_rows:
  "list_visible_snapshots_after_node_id C after SNAPSHOT_REANNOUNCE_BATCH_SIZE d
   = take 256 (filter (\<lambda>r. C after < C (snr_node_id r)) (visible_rows C d))"
  by (simp add: list_visible_snapshots_after_node_id_def visible_rows_def filter_sort SNAPSHOT_REANNOUNCE_BATCH_SIZE_def conj_commute)

lemma full_pass_rest:
  assumes "inj C" and "pk snr_node_id (g_snapshots d)" and P: "\<forall>m. px_publish P m = Inr ()" "px_contact P = Inr c"
    and enc: "\<forall>r\<in>set (g_snapshots d). px_encode P (announcement P c r) = Inr (enc r)"
    and "filter (\<lambda>r. C after < C (snr_node_id r)) (visible_rows C d) = ys"
  shows "reannounce_calls C (replicate (length ys div 256 + 1) (P, now, d)) (Some (Full t after), sent)
    = (replicate (length ys div 256) (Inr True) @ [Inr False], Some (Incremental t []), sent @ map enc ys)"
  using assms(6)
proof (induction "length ys div 256" arbitrary: ys after sent)
  case 0
  have sub: "set ys \<subseteq> set (g_snapshots d)" using 0(2) by (auto simp: visible_rows_def)
  have short: "length ys < 256" using 0(1) by (simp add: div_eq_0_iff)
  have "publish_snapshot_announcements P ys sent = (Inr (), sent @ map enc ys)"
    using announce_rows_all [OF P(1), of ys c enc sent] enc sub P(2) by (auto simp: publish_snapshot_announcements_def)
  then show ?case using short by (simp add: reannounce_full [OF page_rows] 0(2) next_full_reconcile_cursor_def not_le)
next
  case (Suc n)
  note ys = Suc.prems
  have long: "256 \<le> length ys" using Suc.hyps(2) by (cases "256 \<le> length ys") auto
  have sub: "set ys \<subseteq> set (g_snapshots d)" using ys by (auto simp: visible_rows_def)
  let ?rows = "take 256 ys" and ?after = "snr_node_id (ys ! 255)"
  have strict: "sorted_wrt (<) (map (\<lambda>r. C (snr_node_id r)) ys)"
    unfolding ys [symmetric] using visible_rows_strict [OF assms(1,2)] by (metis sorted_wrt_filter sorted_wrt_map)
  have "ys ! 255 \<in> set ys" using long by simp
  then have after: "C after < C ?after" unfolding ys [symmetric] by simp
  have cut: "filter (\<lambda>r. K < C (snr_node_id r)) t = filter (\<lambda>r. K < C (snr_node_id r)) (filter (\<lambda>r. C after < C (snr_node_id r)) t)"
    if "C after < K" for K t using that by (auto intro!: filter_cong)
  have "filter (\<lambda>r. C ?after < C (snr_node_id r)) (visible_rows C d) = filter (\<lambda>r. C ?after < C (snr_node_id r)) ys"
    using cut [OF after, of "visible_rows C d"] by (simp only: ys)
  also have "\<dots> = drop 256 ys" using filter_beyond [OF strict, of 255] long by simp
  finally have rest: "filter (\<lambda>r. C ?after < C (snr_node_id r)) (visible_rows C d) = drop 256 ys" .
  have pub: "publish_snapshot_announcements P ?rows sent = (Inr (), sent @ map enc ?rows)"
    using announce_rows_all [OF P(1), of ?rows c enc sent] enc sub P(2)
    by (auto simp: publish_snapshot_announcements_def dest: in_set_takeD)
  have "?rows \<noteq> []" using long by auto
  then have "last_row ?rows = Some (ys ! 255)" using long by (simp add: last_row_def last_conv_nth)
  then have one: "reannounce_local_snapshots P C now d True (Some (Full t after), sent)
      = (Inr True, Some (Full t ?after), sent @ map enc ?rows)"
    using pub long by (simp add: reannounce_full [OF page_rows] ys next_full_reconcile_cursor_def)
  have n: "n = length (drop 256 ys) div 256" "length ys div 256 = Suc n" using Suc.hyps(2) le_div_geq [OF _ long] by simp_all
  have "map enc ?rows @ map enc (drop 256 ys) = map enc ys" by (metis append_take_drop_id map_append)
  then have "reannounce_calls C (replicate (n + 1) (P, now, d)) (Some (Full t ?after), sent @ map enc ?rows)
      = (replicate n (Inr True) @ [Inr False], Some (Incremental t []), sent @ map enc ys)"
    using Suc.hyps(1) [OF n(1) rest, of "sent @ map enc ?rows"] unfolding n(1) [symmetric] by simp
  then show ?case unfolding n(2) using one by simp
qed

text \<open>
  C31. A full pass ends and says everything once. On tables that do not change, with a network that accepts
  messages, a full pass over \<open>n\<close> visible snapshots takes exactly \<open>n div 256 + 1\<close> calls, the last of which reports
  that nothing is left; it announces every visible snapshot exactly once, in the order of the node ids, and
  leaves the cursor for increments from the time it started.
\<close>

theorem full_pass_terminates:
  assumes "inj C" and "pk snr_node_id (g_snapshots d)" and "\<And>r. r \<in> set (g_snapshots d) \<Longrightarrow> C [] < C (snr_node_id r)"
    and "\<And>m. px_publish P m = Inr ()" and "px_contact P = Inr c"
    and "\<And>r. r \<in> set (g_snapshots d) \<Longrightarrow> px_encode P (announcement P c r) = Inr (enc r)"
    and "\<And>t k. cursor \<noteq> Some (Full t k)" and "n = length (visible_rows C d) div 256"
  shows "reannounce_calls C (replicate (n + 1) (P, now, d)) (cursor, sent)
    = (replicate n (Inr True) @ [Inr False], Some (Incremental now []), sent @ map enc (visible_rows C d))"
proof -
  have "filter (\<lambda>r. C [] < C (snr_node_id r)) (visible_rows C d) = visible_rows C d"
    using assms(3) by (auto simp: visible_rows_def filter_id_conv)
  from full_pass_rest [OF assms(1,2) _ assms(5) _ this, of enc now now sent] assms(4,6)
  have "reannounce_calls C (replicate (n + 1) (P, now, d)) (Some (Full now []), sent)
    = (replicate n (Inr True) @ [Inr False], Some (Incremental now []), sent @ map enc (visible_rows C d))"
    unfolding assms(8) by blast
  then show ?thesis using reannounce_start [OF assms(7), of P C now d sent] by simp
qed

theorem full_pass_terminates_witness:
  "reannounce_calls id [(sample_network True, 4, sample_store)] (Some (Incremental 0 []), [])
   = ([Inr False], Some (Incremental 4 []), [''announce n''])"
proof -
  obtain c where "px_contact (sample_network True) = Inr c" by (simp add: sample_network_def)
  moreover have "visible_rows id sample_store = [sample_snapshot]"
    by (simp add: visible_rows_def sample_store_def sample_snapshot_def source_visible_def)
  ultimately show ?thesis
    using full_pass_terminates [of id sample_store "sample_network True" c "\<lambda>r. ''announce '' @ snr_node_id r" "Some (Incremental 0 [])" 0 4 "[]"]
      sample_visible(2)
    by (auto simp: sample_network_def announcement_def sample_store_def sample_snapshot_def)
qed

end
