(* ===== verification/Gw_Space.thy ===== *)
theory Gw_Space
  imports Gw_Samples
begin

text \<open>
  The shared spaces (\<open>space.rs\<close>): presences of agents, heartbeats of nodes and events of Network Authorities, as they
  arrive in events (\<open>persist_event\<close>, \<open>persist_node_presence\<close>) and in snapshots (\<open>persist_snapshot_space\<close>), and the queries
  that serve them. Each persist function is one transaction: an error or a refused row rolls the tables back, while the
  numbers drawn from a sequence stay drawn.
\<close>

section \<open>Events\<close>

definition rollback :: "gdb \<Rightarrow> gdb \<Rightarrow> gdb" where
  "rollback d d' = d\<lparr>g_event_seq := g_event_seq d', g_outbox_seq := g_outbox_seq d'\<rparr>"

definition seq_i64 :: "u64 \<Rightarrow> int option" where
  "seq_i64 n = (if uint n \<le> i64_max then Some (uint n) else None)"

definition space_event_record :: "gw_externs \<Rightarrow> signed_node_event \<Rightarrow> string option \<Rightarrow> new_ui_event" where
  "space_event_record X event sid = (let p = sev_payload event in
    \<lparr>nue_event_id = nev_event_id p, nue_source_id = sid, nue_node_id = nev_node_id p, nue_signer_agent_did = nev_signer_agent_did p,
     nue_data_kind = gx_kind_name X (nev_data_kind p), nue_event_kind = nev_event_kind p, nue_visibility = ''public'',
     nue_provisional = False, nue_topic_id = scp_topic_id (nev_scope p), nue_organization_id = scp_organization_id (nev_scope p),
     nue_task_id = scp_task_id (nev_scope p), nue_generated_at = nev_timestamp p, nue_payload = nev_payload p,
     nue_ingest_path = ''event_push'', nue_source_cursor_or_seq = seq_i64 (nev_seq p)\<rparr>)"

definition upsert_space :: "gw_externs \<Rightarrow> signed_node_event \<Rightarrow> string option \<Rightarrow> bool gop" where
  "upsert_space X event sid d = (let p = sev_payload event in
    case nev_data_kind p of
      SpacePresence \<Rightarrow> (case gx_parse_presence X (nev_payload p) of
          Inl e \<Rightarrow> (Inl e, d)
        | Inr presence \<Rightarrow> (case upsert_presence presence (nev_node_id p) sid d of (accepted, d1) \<Rightarrow> (Inr accepted, d1)))
    | WorldEvent \<Rightarrow> upsert_world_event X (nev_payload p) (nev_node_id p) sid d
    | _ \<Rightarrow> (Inl ''space persistence only accepts space records'', d))"

definition persist_event :: "gw_externs \<Rightarrow> instant \<Rightarrow> signed_node_event \<Rightarrow> string option \<Rightarrow> bool \<Rightarrow> ui_event_row option gop" where
  "persist_event X now event sid announce d =
    (case upsert_space X event sid d of
       (Inl e, _) \<Rightarrow> (Inl e, d)
     | (Inr False, _) \<Rightarrow> (Inr None, d)
     | (Inr True, d1) \<Rightarrow> (case insert_ui_record X now (space_event_record X event sid) d1 of
         (Inl e, d2) \<Rightarrow> (Inl e, rollback d d2)
       | (Inr None, d2) \<Rightarrow> (Inr None, rollback d d2)
       | (Inr (Some row), d2) \<Rightarrow> (Inr (Some row),
           if announce then insert_outbox now (''event:'' @ nev_event_id (sev_payload event)) P2P_OUTBOX_COMMAND_EVENT (gx_signed_event_json X event) d2
           else d2)))"

definition persist_node_presence :: "node_presence \<Rightarrow> string option \<Rightarrow> bool gop" where
  "persist_node_presence presence sid d = (case upsert_node_presence presence sid d of (accepted, d1) \<Rightarrow> (Inr accepted, d1))"

section \<open>Snapshots\<close>

text \<open>Division of \<open>i64\<close> rounds towards zero.\<close>

definition quot1000 :: "int \<Rightarrow> int" where
  "quot1000 i = (if i < 0 then - (- i div 1000) else i div 1000)"

record snapshot_source =
  sso_source_id :: "string option"
  sso_node_id :: string
  sso_signer_agent_did :: string

definition insert_snapshot_ui_record ::
  "gw_externs \<Rightarrow> instant \<Rightarrow> snapshot_source \<Rightarrow> string \<Rightarrow> string \<Rightarrow> string \<Rightarrow> int \<Rightarrow> json \<Rightarrow> ui_event_row option gop" where
  "insert_snapshot_ui_record X now source event_id data_kind event_kind generated_at payload =
    insert_ui_record X now
      \<lparr>nue_event_id = event_id, nue_source_id = sso_source_id source, nue_node_id = sso_node_id source,
       nue_signer_agent_did = sso_signer_agent_did source, nue_data_kind = data_kind, nue_event_kind = event_kind,
       nue_visibility = ''public'', nue_provisional = False, nue_topic_id = None, nue_organization_id = None, nue_task_id = None,
       nue_generated_at = generated_at, nue_payload = payload, nue_ingest_path = ''snapshot_push'', nue_source_cursor_or_seq = None\<rparr>"

definition presence_event_id :: "space_presence_record \<Rightarrow> string" where
  "presence_event_id r = ''space-presence:'' @ spr_network_id r @ '':'' @ spr_space_id r @ '':'' @ spr_agent_did r @ '':'' @ decimal (unat (spr_seq r))"

definition snapshot_presence :: "gw_externs \<Rightarrow> instant \<Rightarrow> snapshot_source \<Rightarrow> signed_space_presence \<Rightarrow> ui_event_row option gop" where
  "snapshot_presence X now source presence d =
    (case validate_presence X presence of
       Inl _ \<Rightarrow> (Inr None, d)
     | Inr _ \<Rightarrow> (case upsert_presence presence (sso_node_id source) (sso_source_id source) d of
         (accepted, d1) \<Rightarrow>
           if accepted
           then insert_snapshot_ui_record X now source (presence_event_id (ssp_record presence)) ''space_presence'' ''space.presence.changed''
                  (quot1000 (spr_updated_at (ssp_record presence))) (gx_presence_json X presence) d1
           else (Inr None, d1)))"

definition snapshot_node_presence :: "gw_externs \<Rightarrow> instant \<Rightarrow> snapshot_source \<Rightarrow> node_presence \<Rightarrow> ui_event_row option gop" where
  "snapshot_node_presence X now source presence d =
    (case validate_node_presence presence (sso_node_id source) (sso_signer_agent_did source) of
       Inl _ \<Rightarrow> (Inr None, d)
     | Inr _ \<Rightarrow> (case upsert_node_presence presence (sso_source_id source) d of
         (accepted, d1) \<Rightarrow>
           if accepted
           then insert_snapshot_ui_record X now source
                  (''node-presence:'' @ npr_node_id presence @ '':'' @ npr_agent_did presence @ '':'' @ int_text (npr_last_heartbeat_ms presence))
                  ''presence'' ''node.presence.heartbeat'' (quot1000 (npr_last_heartbeat_ms presence)) (gx_node_presence_json X presence) d1
           else (Inr None, d1)))"

definition snapshot_world_event :: "gw_externs \<Rightarrow> authorities result \<Rightarrow> instant \<Rightarrow> snapshot_source \<Rightarrow> json \<Rightarrow> ui_event_row option gop" where
  "snapshot_world_event X pins now source payload d =
    (case validate_world_event X pins payload of
       Inl _ \<Rightarrow> (Inr None, d)
     | Inr _ \<Rightarrow> (case upsert_world_event X payload (sso_node_id source) (sso_source_id source) d of
         (Inl e, d1) \<Rightarrow> (Inl e, d1)
       | (Inr False, d1) \<Rightarrow> (Inr None, d1)
       | (Inr True, d1) \<Rightarrow> (case gx_parse_announcement X payload of
           Inl e \<Rightarrow> (Inl e, d1)
         | Inr a \<Rightarrow> insert_snapshot_ui_record X now source (''world-event:'' @ ann_network_id a @ '':'' @ ann_announcement_id a) ''world_event''
               ''space.world_event.published'' (uint (ann_issued_at a) div 1000) payload d1)))"

text \<open>The loops of the transaction: each item yields at most one row; the first error ends them.\<close>

fun collect_rows :: "('a \<Rightarrow> ui_event_row option gop) \<Rightarrow> 'a list \<Rightarrow> ui_event_row list \<Rightarrow> ui_event_row list gop" where
  "collect_rows f [] rows d = (Inr rows, d)"
| "collect_rows f (x # xs) rows d =
    (case f x d of (Inl e, d1) \<Rightarrow> (Inl e, d1)
     | (Inr r, d1) \<Rightarrow> collect_rows f xs (rows @ (case r of None \<Rightarrow> [] | Some row \<Rightarrow> [row])) d1)"

definition persist_snapshot_space ::
  "gw_externs \<Rightarrow> authorities result \<Rightarrow> instant \<Rightarrow> string option \<Rightarrow> public_client_snapshot \<Rightarrow> string \<Rightarrow> ui_event_row list gop" where
  "persist_snapshot_space X pins now sid snapshot signer d =
    (let source = \<lparr>sso_source_id = sid, sso_node_id = snap_node_id snapshot, sso_signer_agent_did = signer\<rparr> in
     case collect_rows (snapshot_presence X now source) (snap_space_presences snapshot) [] d of
       (Inl e, d1) \<Rightarrow> (Inl e, rollback d d1)
     | (Inr rows1, d1) \<Rightarrow>
       (case collect_rows (snapshot_node_presence X now source) (case snap_node_presence snapshot of None \<Rightarrow> [] | Some p \<Rightarrow> [p]) rows1 d1 of
          (Inl e, d2) \<Rightarrow> (Inl e, rollback d d2)
        | (Inr rows2, d2) \<Rightarrow>
          (case collect_rows (snapshot_world_event X pins now source) (snap_world_events snapshot) rows2 d2 of
             (Inl e, d3) \<Rightarrow> (Inl e, rollback d d3)
           | (Inr rows, d3) \<Rightarrow> (Inr rows, d3))))"

section \<open>Queries\<close>

fun distinct_on :: "('a \<Rightarrow> 'k) \<Rightarrow> 'a list \<Rightarrow> 'a list" where
  "distinct_on key [] = []"
| "distinct_on key (r # rs) = r # distinct_on key (filter (\<lambda>x. key x \<noteq> key r) rs)"

text \<open>Of each agent of a network the record with the highest sequence number, wherever its space; then the filters.\<close>

definition presence_values :: "collation \<Rightarrow> string option \<Rightarrow> string option \<Rightarrow> gdb \<Rightarrow> (signed_space_presence \<times> string) list" where
  "presence_values C network space d =
    (let newest = distinct_on (\<lambda>r. (gsp_network_id r, gsp_agent_did r))
           (sort_key (\<lambda>r. C (gsp_network_id r)) (sort_key (\<lambda>r. C (gsp_agent_did r)) (sort_key (\<lambda>r. - int (gsp_seq r))
             (sort_key (\<lambda>r. C (gsp_space_id r))
               (filter (\<lambda>r. null_or network (Some (gsp_network_id r)) \<and> gsp_network_id r \<noteq> []) (g_space_presence d))))))
     in map (\<lambda>r. (gsp_payload r, gsp_source_node_id r))
          (filter (\<lambda>r. null_or space (Some (gsp_space_id r)) \<and> source_visible d (gsp_source_id r)) newest))"

definition node_presences :: "collation \<Rightarrow> gdb \<Rightarrow> node_presence list" where
  "node_presences C d = map gsn_payload (sort_key (\<lambda>r. C (gsn_node_id r)) (sort_key (\<lambda>r. C (gsn_agent_did r))
     (filter (\<lambda>r. source_visible d (gsn_source_id r)) (g_space_nodes d))))"

definition saturate_i64 :: "int \<Rightarrow> int" where
  "saturate_i64 i = max (- (2 ^ 63)) (min i64_max i)"

definition heartbeat_is_current :: "node_presence \<Rightarrow> int \<Rightarrow> bool" where
  "heartbeat_is_current heartbeat now \<longleftrightarrow>
     now \<le> saturate_i64 (npr_last_heartbeat_ms heartbeat + 3 * npr_heartbeat_interval_sec heartbeat * 1000)"

record observation_query =
  soq_network_id :: "string option"
  soq_space_id :: "string option"
  soq_place_id :: "string option"

record space_query =
  spq_network_id :: string
  spq_space_id :: "string option"
  spq_place_id :: "string option"

definition validate_observation_query :: "observation_query \<Rightarrow> unit result" where
  "validate_observation_query q =
    (if (case soq_network_id q of Some v \<Rightarrow> blank v | None \<Rightarrow> False) then Inl ''network_id must not be empty''
     else if (case soq_space_id q of Some v \<Rightarrow> blank v | None \<Rightarrow> False) then Inl ''space_id must not be empty'' else Inr ())"

definition validate_network_query :: "space_query \<Rightarrow> unit result" where
  "validate_network_query q =
    (if blank (spq_network_id q) then Inl ''network_id must not be empty''
     else if (case spq_space_id q of Some v \<Rightarrow> blank v | None \<Rightarrow> False) then Inl ''space_id must not be empty'' else Inr ())"

definition place_error :: string where
  "place_error = ''presence place_id filtering requires geometry owned by Main/Client''"

definition validate_presence_query :: "space_query \<Rightarrow> unit result" where
  "validate_presence_query q = and_then (validate_network_query q) (\<lambda>_. if spq_place_id q \<noteq> None then Inl place_error else Inr ())"

text \<open>A response is a status with a body. \<open>arrow_text\<close> is the operator \<open>->>\<close> of PostgreSQL.\<close>

definition error_response :: "nat \<Rightarrow> string \<Rightarrow> nat \<times> json" where
  "error_response status msg = (status, json_obj [(''error'', JStr msg)])"

definition arrow_text :: "gw_externs \<Rightarrow> string \<Rightarrow> json \<Rightarrow> string option" where
  "arrow_text X k v = (case jget k v of None \<Rightarrow> None | Some JNull \<Rightarrow> None | Some (JStr s) \<Rightarrow> Some s | Some w \<Rightarrow> Some (gx_jsonb_text X w))"

definition display_name :: "gw_externs \<Rightarrow> gdb \<Rightarrow> signed_space_presence \<times> string \<Rightarrow> string option" where
  "display_name X d v = (case v of (presence, node) \<Rightarrow>
    (case filter (\<lambda>n. snr_node_id n = node \<and> snr_signer_agent_did n = spr_agent_did (ssp_record presence)
           \<and> Option.bind (jget ''network_status'' (snr_payload n)) (arrow_text X ''network_id'') = Some (spr_network_id (ssp_record presence))
           \<and> source_visible d (snr_source_id n)
           \<and> (case Option.bind (jget ''operator'' (snr_payload n)) (jget ''display_name'') of
                Some (JStr name) \<Rightarrow> list_ex (\<lambda>c. c \<noteq> CHR '' '') name | _ \<Rightarrow> False)) (g_snapshots d) of
       [] \<Rightarrow> None
     | n # _ \<Rightarrow> Option.bind (Option.bind (jget ''operator'' (snr_payload n)) (jget ''display_name'')) as_str))"

definition live_presences :: "collation \<Rightarrow> int \<Rightarrow> string option \<Rightarrow> string option \<Rightarrow> gdb \<Rightarrow> (signed_space_presence \<times> string) list" where
  "live_presences C now network space d =
    filter (\<lambda>(presence, node). spr_entered (ssp_record presence)
      \<and> list_ex (\<lambda>h. npr_node_id h = node \<and> npr_agent_did h = spr_agent_did (ssp_record presence) \<and> heartbeat_is_current h now) (node_presences C d))
      (presence_values C network space d)"

definition presences :: "gw_externs \<Rightarrow> collation \<Rightarrow> int \<Rightarrow> observation_query \<Rightarrow> gdb \<Rightarrow> nat \<times> json" where
  "presences X C now q d =
    (case validate_observation_query q of
       Inl e \<Rightarrow> error_response 400 e
     | Inr _ \<Rightarrow>
         if soq_place_id q \<noteq> None then error_response 400 place_error
         else let values = live_presences C now (soq_network_id q) (soq_space_id q) d in
           (200, json_obj [(''network_id'', jopt_str (soq_network_id q)), (''space_id'', jopt_str (soq_space_id q)), (''server_time_ms'', JInt now),
             (''presences'', JArr (map (\<lambda>(p, _). gx_presence_json X p) values)),
             (''identities'', JArr (map (\<lambda>(p, node). json_obj [(''network_id'', JStr (spr_network_id (ssp_record p))),
                (''agent_did'', JStr (spr_agent_did (ssp_record p))), (''node_id'', JStr node), (''display_name'', jopt_str (display_name X d (p, node)))]) values)),
             (''node_presences'', JArr (map (gx_node_presence_json X) (node_presences C d)))]))"

definition agent_presence_record :: "gw_externs \<Rightarrow> collation \<Rightarrow> string \<Rightarrow> space_query \<Rightarrow> gdb \<Rightarrow> nat \<times> json" where
  "agent_presence_record X C agent q d =
    (if spq_place_id q \<noteq> None then error_response 400 place_error
     else if (case spq_space_id q of Some v \<Rightarrow> blank v | None \<Rightarrow> False) then error_response 400 ''space_id must not be empty''
     else (case sort_key (\<lambda>r. - int (gsp_seq r)) (sort_key (\<lambda>r. C (gsp_space_id r))
             (filter (\<lambda>r. gsp_network_id r = spq_network_id q \<and> gsp_agent_did r = agent \<and> null_or (spq_space_id q) (Some (gsp_space_id r))) (g_space_presence d))) of
         [] \<Rightarrow> error_response 404 ''agent presence not found''
       | r # _ \<Rightarrow> (200, gx_presence_json X (gsp_payload r))))"

definition agent_presence :: "gw_externs \<Rightarrow> collation \<Rightarrow> int \<Rightarrow> string \<Rightarrow> space_query \<Rightarrow> gdb \<Rightarrow> nat \<times> json" where
  "agent_presence X C now agent q d =
    (case validate_presence_query q of
       Inl e \<Rightarrow> error_response 400 e
     | Inr _ \<Rightarrow> (case find (\<lambda>(p, _). spr_agent_did (ssp_record p) = agent \<and> spr_entered (ssp_record p))
           (presence_values C (Some (spq_network_id q)) (spq_space_id q) d) of
         None \<Rightarrow> error_response 404 ''agent presence not found''
       | Some (p, node) \<Rightarrow> (200, json_obj [(''network_id'', JStr (spq_network_id q)), (''space_id'', JStr (spr_space_id (ssp_record p))),
           (''server_time_ms'', JInt now), (''presence'', gx_presence_json X p),
           (''source_node_ids'', json_obj [(spr_agent_did (ssp_record p), JStr node)]),
           (''node_presences'', JArr (map (gx_node_presence_json X) (node_presences C d)))])))"

definition space_events :: "collation \<Rightarrow> int \<Rightarrow> observation_query \<Rightarrow> gdb \<Rightarrow> nat \<times> json" where
  "space_events C now q d =
    (case validate_observation_query q of
       Inl e \<Rightarrow> error_response 400 e
     | Inr _ \<Rightarrow> (200, json_obj [(''network_id'', jopt_str (soq_network_id q)), (''space_id'', jopt_str (soq_space_id q)), (''server_time_ms'', JInt now),
         (''events'', JArr (map gse_payload (sort_key (\<lambda>r. C (gse_network_id r)) (sort_key (\<lambda>r. C (gse_announcement_id r))
           (filter (\<lambda>r. null_or (soq_network_id q) (Some (gse_network_id r)) \<and> null_or (soq_space_id q) (Some (gse_space_id r))
              \<and> null_or (soq_place_id q) (Some (gse_place_id r)) \<and> source_visible d (gse_source_id r)) (g_space_events d))))))]))"

end
