(* ===== verification/Gw_Project.thy ===== *)
theory Gw_Project
  imports Gw_Space
begin

text \<open>
  Read models: what a snapshot (\<open>read_models.rs\<close>), a single event (\<open>event_projection\<close> of \<open>streaming.rs\<close>) or a pull from a
  swarm node (\<open>collectors.rs\<close>) writes to the projection table.
\<close>

section \<open>Snapshots\<close>

record projection_seed =
  psd_data_kind :: data_kind
  psd_identity_key :: string
  psd_source_node_id :: string
  psd_source_id :: "string option"
  psd_generated_at :: int
  psd_visibility :: visibility
  psd_payload :: json
  psd_provenance :: json

definition attach_generated_at :: "json \<Rightarrow> int \<Rightarrow> json" where
  "attach_generated_at v g = (case as_object v of None \<Rightarrow> v | Some o' \<Rightarrow> JObj (or_insert ''snapshot_generated_at'' (JInt g) o'))"

definition default_provenance :: "string \<Rightarrow> int \<Rightarrow> string \<Rightarrow> json" where
  "default_provenance node g path = json_obj [(''source_node_id'', JStr node), (''source_cursor_or_seq'', JInt g),
     (''ingest_path'', JStr path), (''last_confirmed_at'', JInt g), (''last_provisional_at'', JNull)]"

definition singleton_seed :: "string option \<Rightarrow> string \<Rightarrow> int \<Rightarrow> data_kind \<Rightarrow> json \<Rightarrow> projection_seed" where
  "singleton_seed sid node g kind v =
    \<lparr>psd_data_kind = kind, psd_identity_key = projection_identity_key kind v node, psd_source_node_id = node, psd_source_id = sid,
     psd_generated_at = g, psd_visibility = visibility_for_kind kind, psd_payload = v,
     psd_provenance = default_provenance node g ''snapshot_push''\<rparr>"

definition fanout_array :: "string option \<Rightarrow> string \<Rightarrow> int \<Rightarrow> data_kind \<Rightarrow> json list \<Rightarrow> projection_seed list" where
  "fanout_array sid node g kind vs =
    map (\<lambda>v. \<lparr>psd_data_kind = kind, psd_identity_key = projection_identity_key kind v node, psd_source_node_id = node,
      psd_source_id = sid, psd_generated_at = g, psd_visibility = visibility_for_kind kind, psd_payload = attach_generated_at v g,
      psd_provenance = default_provenance node g ''snapshot_push''\<rparr>) vs"

definition snapshot_projection_seeds :: "gw_externs \<Rightarrow> authorities result \<Rightarrow> string option \<Rightarrow> public_client_snapshot \<Rightarrow> projection_seed list" where
  "snapshot_projection_seeds X pins sid s =
    (let node = snap_node_id s; g = snap_generated_at s; fan = fanout_array sid node g in
     [singleton_seed sid node g NetworkProjection (json_obj [(''node_id'', JStr node), (''network_name'', jopt_str (snap_network_name s)),
        (''network_org_name'', jopt_str (snap_network_org_name s)), (''network_status'', snap_network_status s), (''peers'', JArr (snap_peers s))]),
      singleton_seed sid node g OperatorProfile (attach_generated_at (snap_operator s) g)]
     @ fan PublicBlock (snap_public_blocks s) @ fan HiveMetadata (snap_public_topics s) @ fan HiveActivity (snap_public_topic_messages s)
     @ fan BoardActivity (trusted_board_messages X pins (snap_public_board_messages s)) @ fan TaskSummary (snap_tasks s)
     @ fan OrganizationSummary (snap_organizations s) @ fan RankingProjection (snap_leaderboard s))"

definition seed_record :: "gw_externs \<Rightarrow> projection_seed \<Rightarrow> projection_record" where
  "seed_record X seed =
    \<lparr>upr_data_kind = gx_kind_name X (psd_data_kind seed), upr_identity_key = psd_identity_key seed,
     upr_source_node_id = psd_source_node_id seed, upr_source_id = psd_source_id seed, upr_generated_at = psd_generated_at seed,
     upr_visibility = gx_visibility_name X (psd_visibility seed), upr_payload = psd_payload seed, upr_provenance = psd_provenance seed\<rparr>"

text \<open>The rows are written one statement at a time: an error leaves the ones before it.\<close>

fun upsert_all :: "gw_externs \<Rightarrow> instant \<Rightarrow> projection_record list \<Rightarrow> unit gop" where
  "upsert_all X now [] d = (Inr (), d)"
| "upsert_all X now (r # rs) d = (case upsert_projection_row X now r d of (Inl e, d1) \<Rightarrow> (Inl e, d1) | (Inr _, d1) \<Rightarrow> upsert_all X now rs d1)"

definition persist_snapshot_read_models ::
  "gw_externs \<Rightarrow> authorities result \<Rightarrow> instant \<Rightarrow> string option \<Rightarrow> public_client_snapshot \<Rightarrow> string \<Rightarrow> ui_event_row list gop" where
  "persist_snapshot_read_models X pins now sid snapshot signer d =
    (case persist_snapshot_space X pins now sid snapshot signer d of
       (Inl e, d1) \<Rightarrow> (Inl e, d1)
     | (Inr rows, d1) \<Rightarrow> (case upsert_all X now (map (seed_record X) (snapshot_projection_seeds X pins sid snapshot)) d1 of
         (Inl e, d2) \<Rightarrow> (Inl e, d2) | (Inr _, d2) \<Rightarrow> (Inr rows, d2)))"

definition list_projection_payloads :: "gw_externs \<Rightarrow> collation \<Rightarrow> data_kind \<Rightarrow> gdb \<Rightarrow> json list" where
  "list_projection_payloads X C kind d = map prj_payload (list_projection_rows C (gx_kind_name X kind) d)"

section \<open>Events\<close>

definition object_string :: "json_map \<Rightarrow> string \<Rightarrow> string option" where
  "object_string o' k = (case Option.bind (map_of o' k) as_str of Some s \<Rightarrow> if blank s then None else Some s | None \<Rightarrow> None)"

definition or_else :: "'a option \<Rightarrow> 'a option \<Rightarrow> 'a option" where
  "or_else a b = (case a of None \<Rightarrow> b | Some x \<Rightarrow> Some x)"

definition insert_string_if_missing :: "string \<Rightarrow> string option \<Rightarrow> json_map \<Rightarrow> json_map" where
  "insert_string_if_missing k v o' = (case v of Some s \<Rightarrow> if blank s then o' else or_insert k (JStr s) o' | None \<Rightarrow> o')"

definition merged_payload_object :: "json \<Rightarrow> string list \<Rightarrow> json_map option" where
  "merged_payload_object payload nested_keys =
    (let nested = (case List.map_filter (\<lambda>k. Option.bind (jget k payload) as_object) nested_keys of n # _ \<Rightarrow> n | [] \<Rightarrow> []);
         top = (case as_object payload of Some t \<Rightarrow> t | None \<Rightarrow> []);
         merged = fold (\<lambda>(k, v) o'. if k \<notin> set nested_keys \<and> map_of o' k = None then obj_insert k v o' else o') top
                    (fold (\<lambda>(k, v). obj_insert k v) nested [])
     in if merged = [] then None else Some merged)"

definition mission_identity :: "json \<Rightarrow> string option" where
  "mission_identity payload =
    (case Option.bind (or_else (jget ''mission_id'' payload) (or_else (jget ''task_id'' payload) (jget ''id'' payload))) as_str of
       Some s \<Rightarrow> if blank s then None else Some s | None \<Rightarrow> None)"

definition status_from_mission_event_kind :: "string \<Rightarrow> string" where
  "status_from_mission_event_kind k =
    (if k = ''mission.claimed'' then ''claimed'' else if k = ''mission.completed'' then ''completed''
     else if k = ''mission.settled'' then ''settled'' else ''published'')"

definition normalize_mission_event_status :: "json \<Rightarrow> string \<Rightarrow> json" where
  "normalize_mission_event_status status k =
    (case as_str status of Some s \<Rightarrow> if s = ''open'' then JStr (status_from_mission_event_kind k) else status
     | None \<Rightarrow> JStr (status_from_mission_event_kind k))"

definition normalized_ranking_projection_payload :: "node_event_payload \<Rightarrow> json option" where
  "normalized_ranking_projection_payload p =
    Option.bind (as_object (nev_payload p)) (\<lambda>o'.
    map_option (\<lambda>identity. JObj
      (or_insert ''snapshot_generated_at'' (JInt (nev_timestamp p)) (or_insert ''source_node_id'' (JStr (nev_node_id p))
        (or_insert ''id'' (JStr identity) (or_insert ''agent_did'' (JStr identity) (or_insert ''public_id'' (JStr identity) o'))))))
    (or_else (object_string o' ''public_id'') (or_else (object_string o' ''agent_did'') (or_else (object_string o' ''id'') (nev_identity_key p)))))"

definition normalized_mission_lifecycle_payload :: "node_event_payload \<Rightarrow> json option" where
  "normalized_mission_lifecycle_payload p =
    map_option (\<lambda>o0.
      let node = nev_node_id p; kind = nev_event_kind p;
          o1 = or_insert ''task_type'' (JStr ''wattetheria.mission'') o0;
          o2 = or_insert ''source_node_id'' (JStr node) o1;
          o3 = or_insert ''publisher_wattswarm_node_id'' (JStr node) o2;
          o4 = or_insert ''mission_scope_hint'' (JStr (''node:'' @ node)) o3;
          o5 = or_insert ''mission_feed_key'' (JStr ''wattetheria.missions'') o4;
          o6 = obj_insert ''status'' (case map_of o5 ''status'' of Some s \<Rightarrow> normalize_mission_event_status s kind
                                      | None \<Rightarrow> JStr (status_from_mission_event_kind kind)) o5
      in JObj (case mission_identity (nev_payload p) of None \<Rightarrow> o6
          | Some m \<Rightarrow> or_insert ''id'' (JStr m) (or_insert ''task_id'' (JStr m) (or_insert ''mission_id'' (JStr m) o6))))
    (as_object (nev_payload p))"

definition normalized_hive_metadata_payload :: "node_event_payload \<Rightarrow> json option" where
  "normalized_hive_metadata_payload p =
    map_option (\<lambda>o0.
      let topic = or_else (object_string o0 ''topic_id'') (or_else (object_string o0 ''hive_id'')
            (or_else (scp_topic_id (nev_scope p)) (nev_identity_key p)));
          o1 = (case topic of None \<Rightarrow> o0 | Some t \<Rightarrow> or_insert ''hive_id'' (JStr t) (or_insert ''topic_id'' (JStr t) o0));
          o2 = insert_string_if_missing ''organization_id'' (scp_organization_id (nev_scope p)) o1;
          o3 = insert_string_if_missing ''mission_id'' (scp_task_id (nev_scope p)) o2
      in JObj (or_insert ''snapshot_generated_at'' (JInt (nev_timestamp p)) (or_insert ''source_node_id'' (JStr (nev_node_id p)) o3)))
    (merged_payload_object (nev_payload p) [''hive'', ''topic''])"

definition message_id_of :: "node_event_payload \<Rightarrow> json_map \<Rightarrow> string" where
  "message_id_of p o' = (case or_else (object_string o' ''message_id'') (nev_identity_key p) of Some m \<Rightarrow> m | None \<Rightarrow> nev_event_id p)"

definition normalized_hive_activity_payload :: "node_event_payload \<Rightarrow> json option" where
  "normalized_hive_activity_payload p =
    map_option (\<lambda>o0.
      let topic = scp_topic_id (nev_scope p);
          o1 = or_insert ''message_id'' (JStr (message_id_of p o0)) o0;
          o2 = insert_string_if_missing ''topic_id'' (or_else (object_string o1 ''hive_id'') topic) o1;
          o3 = insert_string_if_missing ''hive_id'' (or_else (object_string o2 ''topic_id'') topic) o2;
          o4 = insert_string_if_missing ''organization_id'' (scp_organization_id (nev_scope p)) o3;
          author = or_else (object_string o4 ''author_public_id'') (or_else (object_string o4 ''public_id'')
            (or_else (object_string o4 ''controller_id'') (object_string o4 ''author_node_id'')));
          o5 = insert_string_if_missing ''author_id'' author o4;
          o6 = or_insert ''source_node_id'' (JStr (nev_node_id p)) o5;
          o7 = or_insert ''created_at'' (JInt (nev_timestamp p)) o6
      in JObj (or_insert ''snapshot_generated_at'' (JInt (nev_timestamp p)) o7))
    (merged_payload_object (nev_payload p) [''message''])"

definition normalize_generated_at_millis :: "int \<Rightarrow> int" where
  "normalize_generated_at_millis g = (if 100000000000 \<le> \<bar>g\<bar> then g else saturate_i64 (g * 1000))"

definition normalized_board_activity_payload :: "node_event_payload \<Rightarrow> json option" where
  "normalized_board_activity_payload p =
    map_option (\<lambda>o0.
      JObj (or_insert ''snapshot_generated_at'' (JInt (nev_timestamp p))
        (or_insert ''created_at'' (JInt (normalize_generated_at_millis (nev_timestamp p)))
        (or_insert ''source_node_id'' (JStr (nev_node_id p)) (or_insert ''message_id'' (JStr (message_id_of p o0)) o0)))))
    (merged_payload_object (nev_payload p) [''board_message''])"

definition event_projection :: "signed_node_event \<Rightarrow> (data_kind \<times> json) option" where
  "event_projection event = (let p = sev_payload event in
    case nev_data_kind p of
      MissionLifecycle \<Rightarrow> map_option (Pair TaskSummary) (normalized_mission_lifecycle_payload p)
    | HiveMetadata \<Rightarrow> map_option (Pair HiveMetadata) (normalized_hive_metadata_payload p)
    | HiveActivity \<Rightarrow> map_option (Pair HiveActivity) (normalized_hive_activity_payload p)
    | HiveMessagePosted \<Rightarrow> map_option (Pair HiveActivity) (normalized_hive_activity_payload p)
    | BoardActivity \<Rightarrow> map_option (Pair BoardActivity) (normalized_board_activity_payload p)
    | RankingProjection \<Rightarrow> map_option (Pair RankingProjection) (normalized_ranking_projection_payload p)
    | _ \<Rightarrow> None)"

definition normalized_event_scope :: "signed_node_event \<Rightarrow> event_scope" where
  "normalized_event_scope event = (let p = sev_payload event; scope = nev_scope p in
    if nev_data_kind p = MissionLifecycle
      \<and> scp_organization_id scope = Option.bind (jget ''publisher'' (nev_payload p)) as_str
      \<and> (case Option.bind (jget ''publisher_kind'' (nev_payload p)) as_str of Some k \<Rightarrow> k \<noteq> ''organization'' | None \<Rightarrow> False)
    then scope\<lparr>scp_organization_id := None\<rparr> else scope)"

definition event_projection_record :: "gw_externs \<Rightarrow> signed_node_event \<Rightarrow> string option \<Rightarrow> bool \<Rightarrow> data_kind \<Rightarrow> json \<Rightarrow> projection_record" where
  "event_projection_record X event sid provisional kind payload = (let p = sev_payload event; t = JInt (nev_timestamp p) in
    \<lparr>upr_data_kind = gx_kind_name X kind, upr_identity_key = projection_identity_key kind payload (nev_node_id p),
     upr_source_node_id = nev_node_id p, upr_source_id = sid, upr_generated_at = nev_timestamp p,
     upr_visibility = gx_visibility_name X (visibility_for_kind kind), upr_payload = payload,
     upr_provenance = json_obj [(''source_node_id'', JStr (nev_node_id p)), (''source_cursor_or_seq'', JInt (uint (nev_seq p))),
       (''ingest_path'', JStr ''event_push''), (''last_confirmed_at'', if provisional then JNull else t),
       (''last_provisional_at'', if provisional then t else JNull)]\<rparr>)"

definition materialize_event_projection ::
  "gw_externs \<Rightarrow> instant \<Rightarrow> signed_node_event \<Rightarrow> string option \<Rightarrow> bool \<Rightarrow> (data_kind \<times> json) option \<Rightarrow> unit gop" where
  "materialize_event_projection X now event sid provisional projection d =
    (case projection of None \<Rightarrow> (Inr (), d)
     | Some (kind, payload) \<Rightarrow> upsert_projection_row X now (event_projection_record X event sid provisional kind payload) d)"

section \<open>Pulls from swarm nodes\<close>

record swarm_network =
  wsn_generated_at :: u64
  wsn_node_id :: string
  wsn_display_name :: string
  wsn_org_id :: string
  wsn_network_id :: string
  wsn_running :: bool
  wsn_mode :: string
  wsn_latitude :: "rat option"
  wsn_longitude :: "rat option"
  wsn_peer_protocol_distribution :: "(string \<times> u64) list"
  wsn_peers :: "string list"

record topic_message =
  wtm_message_id :: string
  wtm_network_id :: string
  wtm_feed_key :: string
  wtm_scope_hint :: string
  wtm_author_node_id :: string
  wtm_content :: json
  wtm_reply_to_message_id :: "string option"
  wtm_created_at :: u64

record topic_activity =
  wta_generated_at :: u64
  wta_subscriber_node_id :: string
  wta_feed_key :: string
  wta_scope_hint :: string
  wta_messages :: "topic_message list"
  wta_cursor :: "json option"

record topic_subscription =
  wts_network_id :: string
  wts_subscriber_node_id :: string
  wts_feed_key :: string
  wts_scope_hint :: string
  wts_active :: bool
  wts_updated_at :: u64

record topic_subscriptions =
  wss_generated_at :: u64
  wss_network_id :: string
  wss_subscriptions :: "topic_subscription list"

text \<open>The HTTP client: what a request to a URL with a query yields.\<close>

record swarm_client =
  sc_network :: "string \<Rightarrow> swarm_network result"
  sc_activity :: "string \<Rightarrow> (string \<times> string) list \<Rightarrow> topic_activity result"
  sc_subscriptions :: "string \<Rightarrow> (string \<times> string) list \<Rightarrow> topic_subscriptions result"

definition u64_i64 :: "u64 \<Rightarrow> int" where
  "u64_i64 n = min (uint n) i64_max"

definition jopt_float :: "rat option \<Rightarrow> json" where
  "jopt_float x = (case x of None \<Rightarrow> JNull | Some r \<Rightarrow> JFloat r)"

definition ju64 :: "u64 \<Rightarrow> json" where
  "ju64 n = JInt (uint n)"

definition pulled_record :: "gw_externs \<Rightarrow> data_kind \<Rightarrow> string \<Rightarrow> string \<Rightarrow> int \<Rightarrow> json \<Rightarrow> projection_record" where
  "pulled_record X kind node sid g payload =
    \<lparr>upr_data_kind = gx_kind_name X kind, upr_identity_key = projection_identity_key kind payload node, upr_source_node_id = node,
     upr_source_id = Some sid, upr_generated_at = g, upr_visibility = ''public'', upr_payload = payload,
     upr_provenance = json_obj [(''source_node_id'', JStr node), (''source_cursor_or_seq'', JNull), (''ingest_path'', JStr ''wattswarm_pull''),
       (''last_confirmed_at'', JInt g), (''last_provisional_at'', JNull)]\<rparr>"

definition network_record :: "gw_externs \<Rightarrow> string \<Rightarrow> swarm_network \<Rightarrow> projection_record" where
  "network_record X sid s = pulled_record X NetworkProjection (wsn_node_id s) sid (u64_i64 (wsn_generated_at s)) (json_obj
    [(''node_id'', JStr (wsn_node_id s)), (''display_name'', JStr (wsn_display_name s)), (''org_id'', JStr (wsn_org_id s)),
     (''network_id'', JStr (wsn_network_id s)), (''running'', JBool (wsn_running s)), (''mode'', JStr (wsn_mode s)),
     (''latitude'', jopt_float (wsn_latitude s)), (''longitude'', jopt_float (wsn_longitude s)),
     (''peer_protocol_distribution'', json_obj (map (\<lambda>(k, n). (k, ju64 n)) (wsn_peer_protocol_distribution s))),
     (''peers'', jstrs (wsn_peers s)), (''snapshot_generated_at'', ju64 (wsn_generated_at s))])"

definition unit_separator :: char where
  "unit_separator = char_of (31::nat)"

definition topic_subscription_identity :: "topic_subscription \<Rightarrow> string" where
  "topic_subscription_identity t = wts_network_id t @ [unit_separator] @ wts_feed_key t @ [unit_separator] @ wts_scope_hint t
     @ [unit_separator] @ wts_subscriber_node_id t"

definition subscription_record :: "gw_externs \<Rightarrow> source_row \<Rightarrow> u64 \<Rightarrow> topic_subscription \<Rightarrow> projection_record" where
  "subscription_record X source g t =
    pulled_record X HiveSubscription (if wts_subscriber_node_id t = [] then src_name source else wts_subscriber_node_id t) (src_id source)
      (u64_i64 (wts_updated_at t)) (json_obj
      [(''subscription_id'', JStr (topic_subscription_identity t)), (''network_id'', JStr (wts_network_id t)),
       (''subscriber_node_id'', JStr (wts_subscriber_node_id t)), (''feed_key'', JStr (wts_feed_key t)), (''scope_hint'', JStr (wts_scope_hint t)),
       (''active'', JBool (wts_active t)), (''updated_at'', ju64 (wts_updated_at t)), (''snapshot_generated_at'', ju64 g)])"

definition activity_record :: "gw_externs \<Rightarrow> source_row \<Rightarrow> projection_row \<Rightarrow> u64 \<Rightarrow> topic_message \<Rightarrow> projection_record" where
  "activity_record X source row g m =
    pulled_record X HiveActivity (case src_expected_node_id source of Some n \<Rightarrow> if n = [] then prj_source_node_id row else n | None \<Rightarrow> prj_source_node_id row)
      (src_id source) (u64_i64 g) (json_obj
      [(''message_id'', JStr (wtm_message_id m)), (''network_id'', JStr (wtm_network_id m)), (''feed_key'', JStr (wtm_feed_key m)),
       (''scope_hint'', JStr (wtm_scope_hint m)), (''author_node_id'', JStr (wtm_author_node_id m)), (''content'', wtm_content m),
       (''reply_to_message_id'', jopt_str (wtm_reply_to_message_id m)), (''created_at'', ju64 (wtm_created_at m)),
       (''topic_id'', jindex ''topic_id'' (prj_payload row)), (''organization_id'', jindex ''organization_id'' (prj_payload row)),
       (''snapshot_generated_at'', ju64 g)])"

definition activity_query :: "string \<Rightarrow> string \<Rightarrow> string option \<Rightarrow> (string \<times> string) list" where
  "activity_query feed scope network = [(''feed_key'', feed), (''scope_hint'', scope), (''limit'', ''50'')]
     @ (case network of Some n \<Rightarrow> if blank n then [] else [(''network_id'', trim n)] | None \<Rightarrow> [])"

fun collect_activity :: "gw_externs \<Rightarrow> instant \<Rightarrow> swarm_client \<Rightarrow> source_row \<Rightarrow> string \<Rightarrow> projection_row list \<Rightarrow> unit gop" where
  "collect_activity X now client source base [] d = (Inr (), d)"
| "collect_activity X now client source base (row # rows) d =
    (case (Option.bind (jget ''feed_key'' (prj_payload row)) as_str, Option.bind (jget ''scope_hint'' (prj_payload row)) as_str) of
       (Some feed, Some scope) \<Rightarrow>
         (case sc_activity client (base @ ''/api/wattetheria/topic/activity'')
                 (activity_query feed scope (Option.bind (jget ''network_id'' (prj_payload row)) as_str)) of
            Inl e \<Rightarrow> (Inl e, d)
          | Inr a \<Rightarrow> (case upsert_all X now (map (activity_record X source row (wta_generated_at a)) (wta_messages a)) d of
              (Inl e, d1) \<Rightarrow> (Inl e, d1)
            | (Inr _, d1) \<Rightarrow> collect_activity X now client source base rows d1))
     | _ \<Rightarrow> collect_activity X now client source base rows d)"

definition collect_topic_activity_read_models :: "gw_externs \<Rightarrow> collation \<Rightarrow> instant \<Rightarrow> swarm_client \<Rightarrow> source_row \<Rightarrow> string \<Rightarrow> unit gop" where
  "collect_topic_activity_read_models X C now client source base d =
    collect_activity X now client source base
      (filter (\<lambda>r. prj_source_id r = Some (src_id source)) (list_projection_rows C ''hive_metadata'' d)) d"

definition collect_topic_subscription_read_models :: "gw_externs \<Rightarrow> instant \<Rightarrow> swarm_client \<Rightarrow> source_row \<Rightarrow> string \<Rightarrow> string \<Rightarrow> unit gop" where
  "collect_topic_subscription_read_models X now client source base network d =
    (case sc_subscriptions client (base @ ''/api/wattetheria/topic/subscriptions'') [(''network_id'', network)] of
       Inl e \<Rightarrow> (Inl e, d)
     | Inr s \<Rightarrow> upsert_all X now (map (subscription_record X source (wss_generated_at s)) (wss_subscriptions s)) d)"

definition trimmed :: "string option \<Rightarrow> string option" where
  "trimmed v = (case v of Some s \<Rightarrow> if blank s then None else Some (trim s) | None \<Rightarrow> None)"

text \<open>The subscriptions are best effort: their error is printed and the pull goes on.\<close>

definition collect_wattswarm_read_models :: "gw_externs \<Rightarrow> collation \<Rightarrow> instant \<Rightarrow> swarm_client \<Rightarrow> source_row \<Rightarrow> unit gop" where
  "collect_wattswarm_read_models X C now client source d =
    (case trimmed (src_ui_base_url source) of None \<Rightarrow> (Inr (), d)
     | Some base \<Rightarrow> (case sc_network client (base @ ''/api/wattetheria/network/snapshot'') of
         Inl e \<Rightarrow> (Inl e, d)
       | Inr network \<Rightarrow> (case upsert_projection_row X now (network_record X (src_id source) network) d of
           (Inl e, d1) \<Rightarrow> (Inl e, d1)
         | (Inr _, d1) \<Rightarrow> collect_topic_activity_read_models X C now client source base
             (snd (collect_topic_subscription_read_models X now client source base (wsn_network_id network) d1)))))"

end
