(* ===== verification/Gw_Stream.thy ===== *)
theory Gw_Stream
  imports Gw_Samples "HOL-Library.Sublist"
begin

text \<open>
  The event stream for user interfaces: the hub that hands published events to subscribers (\<open>state.rs\<close>) and the
  WebSocket that greets a client, replays stored events after its cursor and then forwards live ones
  (\<open>stream\<close> and \<open>handle_ws\<close> of \<open>streaming.rs\<close>). A broadcast channel is the list of everything sent on it,
  with a position per receiver. A socket accepts a number of frames and then fails for good.
\<close>

section \<open>The hub\<close>

definition FILTERED_UI_STREAM_CAPACITY :: nat where
  "FILTERED_UI_STREAM_CAPACITY = 512"

definition PUBLISHED_EVENT_CACHE_CAPACITY :: nat where
  "PUBLISHED_EVENT_CACHE_CAPACITY = 8192"

record stream_event =
  ste_event :: ui_event
  ste_payload :: string

definition stream_event_of :: "gw_externs \<Rightarrow> ui_event \<Rightarrow> stream_event option" where
  "stream_event_of X e = (case gx_ui_event_text X e of Inl _ \<Rightarrow> None | Inr t \<Rightarrow> Some \<lparr>ste_event = e, ste_payload = t\<rparr>)"

record published_cache =
  pc_event_ids :: "string set"
  pc_order :: "string list"

definition remember :: "string \<Rightarrow> published_cache \<Rightarrow> bool \<times> published_cache" where
  "remember i c =
    (if i \<in> pc_event_ids c then (False, c)
     else let ids = insert i (pc_event_ids c); order = pc_order c @ [i] in
       (True, if PUBLISHED_EVENT_CACHE_CAPACITY < length order
              then \<lparr>pc_event_ids = ids - {hd order}, pc_order = tl order\<rparr>
              else \<lparr>pc_event_ids = ids, pc_order = order\<rparr>))"

record hub =
  hub_all :: "stream_event list"
  hub_filtered :: "(data_kind \<times> stream_event list) list"
  hub_published :: published_cache

definition new_hub :: hub where
  "new_hub = \<lparr>hub_all = [], hub_filtered = [], hub_published = \<lparr>pc_event_ids = {}, pc_order = []\<rparr>\<rparr>"

text \<open>The channel of a kind is opened by its first subscriber; a receiver starts after what was sent before.\<close>

definition subscribe :: "data_kind option \<Rightarrow> hub \<Rightarrow> nat \<times> hub" where
  "subscribe k h =
    (case k of None \<Rightarrow> (length (hub_all h), h)
     | Some kind \<Rightarrow> (case map_of (hub_filtered h) kind of
         Some sent \<Rightarrow> (length sent, h)
       | None \<Rightarrow> (0, h\<lparr>hub_filtered := hub_filtered h @ [(kind, [])]\<rparr>)))"

definition channel_of :: "data_kind option \<Rightarrow> hub \<Rightarrow> stream_event list" where
  "channel_of k h = (case k of None \<Rightarrow> hub_all h | Some kind \<Rightarrow> (case map_of (hub_filtered h) kind of Some sent \<Rightarrow> sent | None \<Rightarrow> []))"

definition publish_ui :: "gw_externs \<Rightarrow> ui_event \<Rightarrow> hub \<Rightarrow> hub" where
  "publish_ui X e h =
    (case stream_event_of X e of None \<Rightarrow> h
     | Some se \<Rightarrow> (case (if uev_cursor e = 0 then (True, hub_published h) else remember (uev_event_id e) (hub_published h)) of
         (False, c) \<Rightarrow> h\<lparr>hub_published := c\<rparr>
       | (True, c) \<Rightarrow> h\<lparr>hub_published := c, hub_all := hub_all h @ [se],
           hub_filtered := map (\<lambda>(k, sent). (k, if k = uev_data_kind e then sent @ [se] else sent)) (hub_filtered h)\<rparr>))"

text \<open>What a receiver at a position gets next; nothing while it has read everything.\<close>

datatype received = Got stream_event | Lagged | Closed

definition recv :: "nat \<Rightarrow> stream_event list \<Rightarrow> nat \<Rightarrow> received option" where
  "recv capacity sent pos =
    (if pos + capacity < length sent then Some Lagged else if pos < length sent then Some (Got (sent ! pos)) else None)"

section \<open>Events and queries\<close>

definition ui_event_of :: "gw_externs \<Rightarrow> ui_event_row \<Rightarrow> ui_event result" where
  "ui_event_of X r =
    and_then (gx_kind_of X (uer_data_kind r)) (\<lambda>kind.
    and_then (gx_visibility_of X (uer_visibility r)) (\<lambda>visibility.
    Inr \<lparr>uev_cursor = uer_cursor r, uev_event_id = uer_event_id r, uev_node_id = uer_node_id r, uev_data_kind = kind,
      uev_event_kind = uer_event_kind r, uev_visibility = visibility, uev_provisional = uer_provisional r,
      uev_scope = \<lparr>scp_node_id = None, scp_topic_id = uer_topic_id r, scp_organization_id = uer_organization_id r,
        scp_task_id = uer_task_id r\<rparr>,
      uev_generated_at = uer_generated_at r div 1000000, uev_payload = uer_payload r\<rparr>))"

definition event_matches_query :: "ui_event \<Rightarrow> ui_stream_query \<Rightarrow> bool \<Rightarrow> bool" where
  "event_matches_query e q allow_protected =
    (if \<not> allow_protected \<and> \<not> allows_public_stream (uev_data_kind e) then False
     else if \<not> null_or (usq_data_kind q) (Some (uev_data_kind e)) then False
     else if \<not> null_or (usq_node_id q) (Some (uev_node_id e)) then False
     else if \<not> null_or (usq_topic_id q) (scp_topic_id (uev_scope e)) then False
     else if \<not> null_or (usq_organization_id q) (scp_organization_id (uev_scope e)) then False
     else null_or (usq_task_id q) (scp_task_id (uev_scope e)))"

definition advance_last_sent_cursor :: "int \<Rightarrow> int \<Rightarrow> bool \<Rightarrow> int" where
  "advance_last_sent_cursor last_sent cursor sent = (if sent \<and> 0 < cursor then max last_sent cursor else last_sent)"

definition resume_rejection_reason :: "int option \<Rightarrow> int option \<Rightarrow> string option" where
  "resume_rejection_reason requested earliest =
    (case (requested, earliest) of
       (Some r, Some e) \<Rightarrow> if 0 < r \<and> r < e then Some ''cursor_aged_out'' else None
     | _ \<Rightarrow> None)"

section \<open>The WebSocket\<close>

datatype ws_frame = HelloFrame json | RejectionFrame json | EventFrame ui_event string

record socket =
  so_room :: nat
  so_out :: "ws_frame list"

definition ws_send :: "ws_frame \<Rightarrow> socket \<Rightarrow> socket option" where
  "ws_send f s = (if so_room s = 0 then None else Some \<lparr>so_room = so_room s - 1, so_out = so_out s @ [f]\<rparr>)"

definition ws_try_send :: "ws_frame \<Rightarrow> socket \<Rightarrow> socket" where
  "ws_try_send f s = (case ws_send f s of None \<Rightarrow> s | Some s' \<Rightarrow> s')"

definition jopt_int :: "int option \<Rightarrow> json" where
  "jopt_int i = (case i of None \<Rightarrow> JNull | Some c \<Rightarrow> JInt c)"

definition requested_cursor :: "ui_stream_query \<Rightarrow> int" where
  "requested_cursor q = (case usq_cursor q of None \<Rightarrow> 0 | Some c \<Rightarrow> c)"

definition hello_json :: "instant \<Rightarrow> ui_stream_query \<Rightarrow> int option \<Rightarrow> bool \<Rightarrow> json" where
  "hello_json now q earliest allow_protected = json_obj
    [(''kind'', JStr ''hello''), (''timestamp'', JInt (now div 1000000)), (''server_time_ms'', JInt (now div 1000)),
     (''cursor'', JInt (requested_cursor q)), (''earliest_available_cursor'', jopt_int earliest),
     (''replay_supported'', JBool True), (''requires_client_cursor'', JBool True), (''resume_cursor_owner'', JStr ''client''),
     (''replay_persisted_across_restart'', JBool True),
     (''bootstrap_contract'', JStr ''rest_snapshot_then_ws_then_cursor_resume''),
     (''retry_backoff_ms'', json_obj [(''min'', JInt 500), (''max'', JInt 10000)]),
     (''rebootstrap_required_when'', JStr ''cursor_missing_or_server_rejects_resume''),
     (''auth_mode'', JStr (if allow_protected then ''authorized'' else ''public_only''))]"

definition rejection_json :: "string \<Rightarrow> int option \<Rightarrow> int option \<Rightarrow> json" where
  "rejection_json reason requested earliest = json_obj
    [(''kind'', JStr ''resume_rejected''), (''reason'', JStr reason), (''requested_cursor'', jopt_int requested),
     (''earliest_available_cursor'', jopt_int earliest), (''rebootstrap_required'', JBool True)]"

definition replay_query :: "gw_externs \<Rightarrow> ui_stream_query \<Rightarrow> ui_events_query" where
  "replay_query X q =
    \<lparr>uq_cursor = requested_cursor q,
     uq_data_kind = Option.bind (usq_data_kind q) (\<lambda>k. if gx_kind_name X k = [] then None else Some (gx_kind_name X k)),
     uq_node_id = usq_node_id q, uq_topic_id = usq_topic_id q, uq_organization_id = usq_organization_id q,
     uq_task_id = usq_task_id q, uq_limit = (case usq_limit q of None \<Rightarrow> 200 | Some n \<Rightarrow> sint n)\<rparr>"

text \<open>The replay of the stored rows; the first component tells whether the socket is still open.\<close>

fun replay_rows :: "gw_externs \<Rightarrow> ui_stream_query \<Rightarrow> bool \<Rightarrow> ui_event_row list \<Rightarrow> int \<times> socket \<Rightarrow> bool \<times> int \<times> socket" where
  "replay_rows X q allow [] (last_sent, s) = (True, last_sent, s)"
| "replay_rows X q allow (row # rows) (last_sent, s) =
    (case ui_event_of X row of
       Inl _ \<Rightarrow> replay_rows X q allow rows (last_sent, s)
     | Inr e \<Rightarrow>
         if event_matches_query e q allow
         then (case ws_send (EventFrame e (case gx_ui_event_text X e of Inr t \<Rightarrow> t | Inl _ \<Rightarrow> [])) s of
                 None \<Rightarrow> (False, last_sent, s)
               | Some s' \<Rightarrow> replay_rows X q allow rows (advance_last_sent_cursor last_sent (uev_cursor e) True, s'))
         else replay_rows X q allow rows (advance_last_sent_cursor last_sent (uev_cursor e) False, s))"

text \<open>The loop over the channel, for what the receiver has got so far.\<close>

fun live_loop :: "ui_stream_query \<Rightarrow> bool \<Rightarrow> int option \<Rightarrow> received list \<Rightarrow> int \<times> socket \<Rightarrow> bool \<times> int \<times> socket" where
  "live_loop q allow earliest [] (last_sent, s) = (True, last_sent, s)"
| "live_loop q allow earliest (Got se # items) (last_sent, s) =
    (let e = ste_event se in
     if 0 < uev_cursor e \<and> uev_cursor e \<le> last_sent then live_loop q allow earliest items (last_sent, s)
     else if \<not> event_matches_query e q allow then live_loop q allow earliest items (last_sent, s)
     else (case ws_send (EventFrame e (ste_payload se)) s of
             None \<Rightarrow> (False, last_sent, s)
           | Some s' \<Rightarrow> live_loop q allow earliest items (advance_last_sent_cursor last_sent (uev_cursor e) True, s')))"
| "live_loop q allow earliest (Lagged # items) (last_sent, s) =
    (False, last_sent, ws_try_send (RejectionFrame (rejection_json ''stream_lagged'' (Some last_sent) earliest)) s)"
| "live_loop q allow earliest (Closed # items) (last_sent, s) = (False, last_sent, s)"

text \<open>\<open>d1\<close> and \<open>d2\<close> are the database as the two queries see it, \<open>None\<close> where a query fails.\<close>

definition handle_ws :: "gw_externs \<Rightarrow> instant \<Rightarrow> ui_stream_query \<Rightarrow> bool \<Rightarrow> gdb option \<Rightarrow> gdb option \<Rightarrow> received list \<Rightarrow> socket
    \<Rightarrow> bool \<times> int \<times> socket" where
  "handle_ws X now q allow d1 d2 items s =
    (let earliest = Option.bind d1 earliest_ui_event_cursor; cursor = requested_cursor q in
     case ws_send (HelloFrame (hello_json now q earliest allow)) s of
       None \<Rightarrow> (False, cursor, s)
     | Some s1 \<Rightarrow> (case resume_rejection_reason (usq_cursor q) earliest of
         Some reason \<Rightarrow> (False, cursor, ws_try_send (RejectionFrame (rejection_json reason (usq_cursor q) earliest)) s1)
       | None \<Rightarrow> (case (case d2 of None \<Rightarrow> (True, cursor, s1)
                        | Some d \<Rightarrow> replay_rows X q allow (list_ui_events_after (replay_query X q) d) (cursor, s1)) of
           (alive, last_sent, s2) \<Rightarrow> if alive then live_loop q allow earliest items (last_sent, s2) else (False, last_sent, s2))))"

definition stream_allows_protected :: "string option \<Rightarrow> ui_stream_query \<Rightarrow> bool" where
  "stream_allows_protected admin_token q =
    (case (usq_token q, admin_token) of (Some t, Some expected) \<Rightarrow> t = expected | _ \<Rightarrow> False)"

definition stream :: "gw_externs \<Rightarrow> instant \<Rightarrow> string option \<Rightarrow> ui_stream_query \<Rightarrow> gdb option \<Rightarrow> gdb option \<Rightarrow> received list \<Rightarrow> socket
    \<Rightarrow> (bool \<times> int \<times> socket) result" where
  "stream X now admin_token q d1 d2 items s =
    (let allow = stream_allows_protected admin_token q in
     if (case usq_data_kind q of None \<Rightarrow> False | Some kind \<Rightarrow> \<not> allows_public_stream kind \<and> \<not> allow)
     then Inl ''protected stream kinds require an authorized token''
     else Inr (handle_ws X now q allow d1 d2 items s))"

section \<open>What a client is sent\<close>

definition events_of :: "ws_frame list \<Rightarrow> ui_event list" where
  "events_of fs = List.map_filter (\<lambda>f. case f of EventFrame e _ \<Rightarrow> Some e | _ \<Rightarrow> None) fs"

definition stored_cursors :: "ui_event list \<Rightarrow> int list" where
  "stored_cursors es = filter (\<lambda>c. 0 < c) (map uev_cursor es)"

lemma events_of_simps [simp]:
  "events_of [] = []" "events_of (fs @ gs) = events_of fs @ events_of gs"
  "events_of [EventFrame e t] = [e]" "events_of [HelloFrame j] = []" "events_of [RejectionFrame j] = []"
  by (simp_all add: events_of_def map_filter_def)

lemma stored_cursors_simps [simp]:
  "stored_cursors [] = []" "stored_cursors (es @ es') = stored_cursors es @ stored_cursors es'"
  "stored_cursors [e] = (if 0 < uev_cursor e then [uev_cursor e] else [])"
  by (simp_all add: stored_cursors_def)

text \<open>The invariant of the stream: every event sent matches the query, the cursors ascend from the requested one, and the
  last cursor is at least every cursor sent.\<close>

definition ws_ok :: "ui_stream_query \<Rightarrow> bool \<Rightarrow> int \<times> socket \<Rightarrow> bool" where
  "ws_ok q allow st \<longleftrightarrow> (case st of (last_sent, s) \<Rightarrow>
     (\<forall>e\<in>set (events_of (so_out s)). event_matches_query e q allow)
     \<and> sorted_wrt (<) (requested_cursor q # stored_cursors (events_of (so_out s)))
     \<and> (\<forall>c\<in>set (requested_cursor q # stored_cursors (events_of (so_out s))). c \<le> last_sent))"

lemma ws_ok_event:
  assumes "ws_ok q allow (last_sent, s)" and "event_matches_query e q allow" and "0 < uev_cursor e \<Longrightarrow> last_sent < uev_cursor e"
    and "ws_send (EventFrame e t) s = Some s'"
  shows "ws_ok q allow (advance_last_sent_cursor last_sent (uev_cursor e) True, s')"
  using assms
  by (auto simp: ws_ok_def ws_send_def advance_last_sent_cursor_def sorted_wrt_append split: if_splits) (force simp: max_def)+

lemma ws_ok_try_send:
  "ws_ok q allow (last_sent, s) \<Longrightarrow> ws_ok q allow (last_sent, ws_try_send (RejectionFrame j) s)"
  by (auto simp: ws_ok_def ws_try_send_def ws_send_def)

lemma uev_cursor_of [simp]: "ui_event_of X r = Inr e \<Longrightarrow> uev_cursor e = uer_cursor r"
  by (auto simp: ui_event_of_def and_then_def split: sum.splits)

lemma replay_rows_ok:
  assumes "ws_ok q allow st" and "sorted_wrt (<) (map uer_cursor rows)" and "\<And>r. r \<in> set rows \<Longrightarrow> fst st < uer_cursor r"
    and "replay_rows X q allow rows st = (alive, st')"
  shows "ws_ok q allow st'"
  using assms
proof (induction rows arbitrary: st)
  case Nil
  then show ?case by (cases st) simp
next
  case (Cons r rows)
  obtain last_sent s where st: "st = (last_sent, s)" by (cases st)
  show ?case
  proof (cases "ui_event_of X r")
    case (Inl err)
    then show ?thesis using Cons by (auto simp: st)
  next
    case (Inr e)
    have later: "advance_last_sent_cursor last_sent (uev_cursor e) b < uer_cursor r'" if "r' \<in> set rows" for r' b
      using Cons.prems(2,3) that Inr by (auto simp: st advance_last_sent_cursor_def)
    show ?thesis
    proof (cases "event_matches_query e q allow")
      case True
      show ?thesis
      proof (cases "ws_send (EventFrame e (case gx_ui_event_text X e of Inr t \<Rightarrow> t | Inl _ \<Rightarrow> [])) s")
        case None
        then show ?thesis using Cons.prems(1,4) Inr True by (simp add: st)
      next
        case (Some s')
        have "ws_ok q allow (advance_last_sent_cursor last_sent (uev_cursor e) True, s')"
          using ws_ok_event [OF _ True _ Some] Cons.prems(1,3) Inr by (simp add: st)
        then show ?thesis using Cons.IH [of "(advance_last_sent_cursor last_sent (uev_cursor e) True, s')"] Cons.prems later Inr True Some
          by (simp add: st)
      qed
    next
      case False
      then have "replay_rows X q allow rows (last_sent, s) = (alive, st')"
        using Cons.prems(4) Inr by (simp add: st advance_last_sent_cursor_def)
      then show ?thesis using Cons.IH [of "(last_sent, s)"] Cons.prems later [of _ False] by (simp add: st advance_last_sent_cursor_def)
    qed
  qed
qed

lemma live_loop_ok:
  "ws_ok q allow st \<Longrightarrow> live_loop q allow earliest items st = (alive, st') \<Longrightarrow> ws_ok q allow st'"
proof (induction q allow earliest items st rule: live_loop.induct)
  case (2 q allow earliest se items last_sent s)
  show ?case
  proof (cases "0 < uev_cursor (ste_event se) \<and> uev_cursor (ste_event se) \<le> last_sent \<or> \<not> event_matches_query (ste_event se) q allow")
    case True
    then show ?thesis using 2 by (auto simp: Let_def split: if_splits)
  next
    case False
    show ?thesis
    proof (cases "ws_send (EventFrame (ste_event se) (ste_payload se)) s")
      case None
      then show ?thesis using 2(4,5) False by (auto simp: Let_def)
    next
      case (Some s')
      have "ws_ok q allow (advance_last_sent_cursor last_sent (uev_cursor (ste_event se)) True, s')"
        using ws_ok_event [OF 2(4) _ _ Some] False by auto
      then show ?thesis using 2(3) [OF refl _ _ Some] 2(5) False Some by (auto simp: Let_def)
    qed
  qed
qed (auto simp: ws_ok_try_send)

lemma list_ui_events_after_sorted:
  assumes "distinct (map uer_cursor (g_events d))"
  shows "sorted_wrt (<) (map uer_cursor (list_ui_events_after q d))"
proof -
  let ?rs = "sort_key uer_cursor (filter (ui_query_matches d q) (g_events d))"
  have "distinct (map uer_cursor (filter (ui_query_matches d q) (g_events d)))" using assms by (simp add: distinct_map_filter)
  then have "distinct (map uer_cursor ?rs)" by (metis distinct_map distinct_sort set_sort)
  then have "sorted_wrt (<) (map uer_cursor ?rs)" by (simp add: strict_sorted_iff)
  then show ?thesis unfolding list_ui_events_after_def take_map [symmetric] by (rule sorted_wrt_take)
qed

lemma list_ui_events_after_cursor: "r \<in> set (list_ui_events_after q d) \<Longrightarrow> uq_cursor q < uer_cursor r"
  by (auto simp: list_ui_events_after_def ui_query_matches_def dest: in_set_takeD)

lemma handle_ws_ok:
  assumes "\<And>d. d2 = Some d \<Longrightarrow> distinct (map uer_cursor (g_events d))" and "so_out s = []"
    and "handle_ws X now q allow d1 d2 items s = (alive, st)"
  shows "ws_ok q allow st"
proof -
  have start: "ws_ok q allow (requested_cursor q, s)" using assms(2) by (simp add: ws_ok_def)
  show ?thesis
  proof (cases "ws_send (HelloFrame (hello_json now q (Option.bind d1 earliest_ui_event_cursor) allow)) s")
    case None
    then show ?thesis using assms(3) start by (simp add: handle_ws_def)
  next
    case (Some s1)
    have s1: "ws_ok q allow (requested_cursor q, s1)" using Some assms(2) by (auto simp: ws_ok_def ws_send_def split: if_splits)
    have rep: "ws_ok q allow st'" if "replay_rows X q allow (list_ui_events_after (replay_query X q) d) (requested_cursor q, s1) = (a, st')" "d2 = Some d" for d a st'
      using replay_rows_ok [OF s1 list_ui_events_after_sorted [OF assms(1) [OF that(2)]] _ that(1)] list_ui_events_after_cursor
      by (fastforce simp: replay_query_def)
    show ?thesis
      using assms(3) Some s1
      by (cases st) (auto simp: handle_ws_def Let_def ws_ok_try_send split: option.splits prod.splits if_splits intro: live_loop_ok rep)
  qed
qed

text \<open>C4. What a client is sent is what it may see and asked for, once and in order. Whatever the database holds, whatever the
  channel delivers and whenever the socket fails: each event sent is of a kind the public stream may carry, unless the
  client gave the administrator's token, and matches every filter of the query; and the cursors of the stored events
  ascend strictly from the requested cursor, so none is repeated.\<close>

theorem stream_sound:
  assumes "\<And>d. d2 = Some d \<Longrightarrow> distinct (map uer_cursor (g_events d))" and "so_out s = []"
    and "stream X now admin_token q d1 d2 items s = Inr (alive, last_sent, s')"
  shows "(\<forall>e\<in>set (events_of (so_out s')).
        (allows_public_stream (uev_data_kind e) \<or> admin_token \<noteq> None \<and> usq_token q = admin_token)
      \<and> null_or (usq_data_kind q) (Some (uev_data_kind e)) \<and> null_or (usq_node_id q) (Some (uev_node_id e))
      \<and> null_or (usq_topic_id q) (scp_topic_id (uev_scope e)) \<and> null_or (usq_organization_id q) (scp_organization_id (uev_scope e))
      \<and> null_or (usq_task_id q) (scp_task_id (uev_scope e)))
    \<and> sorted_wrt (<) (requested_cursor q # stored_cursors (events_of (so_out s')))"
proof -
  have "handle_ws X now q (stream_allows_protected admin_token q) d1 d2 items s = (alive, last_sent, s')"
    using assms(3) by (simp add: stream_def Let_def split: if_splits)
  from handle_ws_ok [OF assms(1,2) this] show ?thesis
    by (auto simp: ws_ok_def event_matches_query_def stream_allows_protected_def split: if_splits option.splits)
qed

section \<open>Nothing is missing\<close>

definition decoded :: "gw_externs \<Rightarrow> ui_event_row list \<Rightarrow> ui_event list" where
  "decoded X rows = List.map_filter (\<lambda>r. case ui_event_of X r of Inr e \<Rightarrow> Some e | Inl _ \<Rightarrow> None) rows"

definition replayed :: "gw_externs \<Rightarrow> ui_stream_query \<Rightarrow> bool \<Rightarrow> ui_event_row list \<Rightarrow> ui_event list" where
  "replayed X q allow rows = filter (\<lambda>e. event_matches_query e q allow) (decoded X rows)"

lemma replayed_cons:
  "replayed X q allow [] = []"
  "replayed X q allow (r # rows) = (case ui_event_of X r of Inl _ \<Rightarrow> replayed X q allow rows
     | Inr e \<Rightarrow> if event_matches_query e q allow then e # replayed X q allow rows else replayed X q allow rows)"
  by (simp_all add: replayed_def decoded_def map_filter_simps split: sum.split)

lemma replayed_cursor: "e \<in> set (replayed X q allow rows) \<Longrightarrow> uev_cursor e \<in> uer_cursor ` set rows"
  by (induction rows) (auto simp: replayed_cons split: sum.splits if_splits)

definition advance_all :: "int \<Rightarrow> ui_event list \<Rightarrow> int" where
  "advance_all last_sent es = foldl (\<lambda>l e. advance_last_sent_cursor l (uev_cursor e) True) last_sent es"

lemma advance_all_less:
  "0 < c \<Longrightarrow> advance_all last_sent es < c \<longleftrightarrow> last_sent < c \<and> (\<forall>e\<in>set es. uev_cursor e < c)"
  by (induction es arbitrary: last_sent) (auto simp: advance_all_def advance_last_sent_cursor_def)

lemma replay_rows_all:
  "length rows \<le> so_room s \<Longrightarrow> \<exists>s'. replay_rows X q allow rows (last_sent, s) = (True, advance_all last_sent (replayed X q allow rows), s')
     \<and> events_of (so_out s') = events_of (so_out s) @ replayed X q allow rows \<and> so_room s \<le> so_room s' + length rows"
proof (induction rows arbitrary: last_sent s)
  case Nil
  then show ?case by (simp add: replayed_cons advance_all_def)
next
  case (Cons r rows)
  show ?case
  proof (cases "\<exists>e. ui_event_of X r = Inr e \<and> event_matches_query e q allow")
    case True
    then obtain e where e: "ui_event_of X r = Inr e" "event_matches_query e q allow" by blast
    let ?s = "\<lparr>so_room = so_room s - 1, so_out = so_out s @ [EventFrame e (case gx_ui_event_text X e of Inr t \<Rightarrow> t | Inl _ \<Rightarrow> [])]\<rparr>"
    have room: "length rows \<le> so_room ?s" using Cons.prems by simp
    obtain s' where "replay_rows X q allow rows (advance_last_sent_cursor last_sent (uev_cursor e) True, ?s)
        = (True, advance_all (advance_last_sent_cursor last_sent (uev_cursor e) True) (replayed X q allow rows), s')"
      "events_of (so_out s') = events_of (so_out s) @ e # replayed X q allow rows" "so_room s - 1 \<le> so_room s' + length rows"
      using Cons.IH [OF room, of "advance_last_sent_cursor last_sent (uev_cursor e) True"] by auto
    then show ?thesis using Cons.prems e by (auto simp: replayed_cons ws_send_def advance_all_def intro!: exI [of _ s'])
  next
    case False
    with Cons.IH [of s last_sent] Cons.prems show ?thesis
      by (auto simp: replayed_cons advance_last_sent_cursor_def split: sum.splits)
  qed
qed

lemma live_loop_all:
  "length live \<le> so_room s \<Longrightarrow> sorted_wrt (<) (stored_cursors (map ste_event live)) \<Longrightarrow>
    \<exists>last' s'. live_loop q allow earliest (map Got live) (last_sent, s) = (True, last', s')
      \<and> events_of (so_out s') = events_of (so_out s)
          @ filter (\<lambda>e. event_matches_query e q allow \<and> (0 < uev_cursor e \<longrightarrow> last_sent < uev_cursor e)) (map ste_event live)"
proof (induction live arbitrary: last_sent s)
  case (Cons se live)
  let ?e = "ste_event se"
  have rest: "sorted_wrt (<) (stored_cursors (map ste_event live))" using Cons.prems(2) by (simp add: stored_cursors_def split: if_splits)
  show ?case
  proof (cases "event_matches_query ?e q allow \<and> (0 < uev_cursor ?e \<longrightarrow> last_sent < uev_cursor ?e)")
    case True
    have same: "(0 < uev_cursor e \<longrightarrow> advance_last_sent_cursor last_sent (uev_cursor ?e) True < uev_cursor e)
        \<longleftrightarrow> (0 < uev_cursor e \<longrightarrow> last_sent < uev_cursor e)" if "e \<in> set (map ste_event live)" for e
      using Cons.prems(2) True that by (auto simp: stored_cursors_def advance_last_sent_cursor_def split: if_splits)
    let ?s = "\<lparr>so_room = so_room s - 1, so_out = so_out s @ [EventFrame ?e (ste_payload se)]\<rparr>"
    have filters: "filter (\<lambda>e. event_matches_query e q allow \<and> (0 < uev_cursor e \<longrightarrow> advance_last_sent_cursor last_sent (uev_cursor ?e) True < uev_cursor e))
        (map ste_event live) = filter (\<lambda>e. event_matches_query e q allow \<and> (0 < uev_cursor e \<longrightarrow> last_sent < uev_cursor e)) (map ste_event live)"
      using same by (intro filter_cong refl) blast
    have room: "length live \<le> so_room ?s" using Cons.prems by simp
    obtain last' s' where "live_loop q allow earliest (map Got live) (advance_last_sent_cursor last_sent (uev_cursor ?e) True, ?s) = (True, last', s')"
      "events_of (so_out s') = events_of (so_out s) @ ?e #
         filter (\<lambda>e. event_matches_query e q allow \<and> (0 < uev_cursor e \<longrightarrow> last_sent < uev_cursor e)) (map ste_event live)"
      using Cons.IH [OF room rest, of "advance_last_sent_cursor last_sent (uev_cursor ?e) True"] unfolding filters by auto
    then show ?thesis using Cons.prems(1) True by (auto simp: ws_send_def Let_def)
  next
    case False
    with Cons.IH [of s last_sent] Cons.prems rest show ?thesis by (auto simp: Let_def)
  qed
qed simp

lemma handle_ws_sent:
  assumes "resume_rejection_reason (usq_cursor q) (Option.bind d1 earliest_ui_event_cursor) = None"
    and "sorted_wrt (<) (stored_cursors (map ste_event live))"
    and "1 + length (g_events d) + length live \<le> so_room s" and "so_out s = []"
    and "rows = list_ui_events_after (replay_query X q) d" and "handle_ws X now q allow d1 (Some d) (map Got live) s = (alive, last_sent, s')"
  shows "alive \<and> events_of (so_out s') = replayed X q allow rows @ filter (\<lambda>e. event_matches_query e q allow \<and> (0 < uev_cursor e \<longrightarrow>
     requested_cursor q < uev_cursor e \<and> (\<forall>r\<in>set (replayed X q allow rows). uev_cursor r < uev_cursor e))) (map ste_event live)"
proof -
  let ?earliest = "Option.bind d1 earliest_ui_event_cursor"
  let ?s1 = "\<lparr>so_room = so_room s - 1, so_out = [HelloFrame (hello_json now q ?earliest allow)]\<rparr>"
  have len: "length rows \<le> length (g_events d)" unfolding assms(5) list_ui_events_after_def by (simp add: min.coboundedI1)
  have room: "length rows \<le> so_room ?s1" using assms(3) len by simp
  obtain s2 where s2: "replay_rows X q allow rows (requested_cursor q, ?s1) = (True, advance_all (requested_cursor q) (replayed X q allow rows), s2)"
    "events_of (so_out s2) = replayed X q allow rows" "so_room ?s1 \<le> so_room s2 + length rows"
    using replay_rows_all [OF room, of X q allow "requested_cursor q"] by auto
  have "length live \<le> so_room s2" using assms(3) len s2(3) by simp
  from live_loop_all [OF this assms(2), of q allow ?earliest "advance_all (requested_cursor q) (replayed X q allow rows)"]
  obtain last' s'' where live: "live_loop q allow ?earliest (map Got live) (advance_all (requested_cursor q) (replayed X q allow rows), s2) = (True, last', s'')"
    "events_of (so_out s'') = replayed X q allow rows @ filter (\<lambda>e. event_matches_query e q allow \<and> (0 < uev_cursor e \<longrightarrow>
       advance_all (requested_cursor q) (replayed X q allow rows) < uev_cursor e)) (map ste_event live)"
    unfolding s2(2) by auto
  have "handle_ws X now q allow d1 (Some d) (map Got live) s = (True, last', s'')"
    using s2(1) live(1) assms(1,3,4) by (simp add: handle_ws_def Let_def ws_send_def assms(5))
  then show ?thesis using assms(6) live(2) advance_all_less by (auto cong: filter_cong)
qed

text \<open>C10. A resumed stream is complete. When the stored events that match the query fit the replay limit, the socket stays open
  and the channel delivers its stored events in the order of their cursors, the client is sent, in this order: every
  stored event after its cursor that matches the query and decodes, and then every live event that matches and is
  ephemeral or later than everything replayed, each exactly as often as the channel holds it.\<close>

theorem stream_resume_complete:
  assumes "resume_rejection_reason (usq_cursor q) (Option.bind d1 earliest_ui_event_cursor) = None"
    and "rows = filter (ui_query_matches d (replay_query X q)) (g_events d)"
    and "int (length rows) \<le> max (uq_limit (replay_query X q)) 1"
    and "sorted_wrt (<) (stored_cursors (map ste_event live))"
    and "1 + length (g_events d) + length live \<le> so_room s" and "so_out s = []"
    and "old = replayed X q (stream_allows_protected admin_token q) (sort_key uer_cursor rows)"
    and "stream X now admin_token q d1 (Some d) (map Got live) s = Inr (alive, last_sent, s')"
  shows "alive \<and> events_of (so_out s') = old @ filter (\<lambda>e. event_matches_query e q (stream_allows_protected admin_token q)
      \<and> (0 < uev_cursor e \<longrightarrow> requested_cursor q < uev_cursor e \<and> (\<forall>r\<in>set old. uev_cursor r < uev_cursor e))) (map ste_event live)"
proof -
  have "list_ui_events_after (replay_query X q) d = sort_key uer_cursor rows"
    using assms(2,3) by (simp add: list_ui_events_after_def)
  moreover have "handle_ws X now q (stream_allows_protected admin_token q) d1 (Some d) (map Got live) s = (alive, last_sent, s')"
    using assms(8) by (simp add: stream_def Let_def split: if_splits)
  ultimately show ?thesis using handle_ws_sent [OF assms(1,4,5,6) refl, of X now "stream_allows_protected admin_token q" alive last_sent s']
    by (simp add: assms(7))
qed

lemma nth_notin_take: "distinct xs \<Longrightarrow> n < length xs \<Longrightarrow> xs ! n \<notin> set (take n xs)"
  by (auto simp: in_set_conv_nth nth_eq_iff_index_eq)


section \<open>The hub repeats nothing\<close>

datatype hub_op = PublishOp ui_event | SubscribeOp "data_kind option"

fun hub_step :: "gw_externs \<Rightarrow> hub_op \<Rightarrow> hub \<Rightarrow> hub" where
  "hub_step X (PublishOp e) h = publish_ui X e h"
| "hub_step X (SubscribeOp k) h = snd (subscribe k h)"

definition stored_ids :: "stream_event list \<Rightarrow> string list" where
  "stored_ids ses = map (\<lambda>se. uev_event_id (ste_event se)) (filter (\<lambda>se. uev_cursor (ste_event se) \<noteq> 0) ses)"

definition of_kind :: "data_kind \<Rightarrow> stream_event list \<Rightarrow> stream_event list" where
  "of_kind k ses = filter (\<lambda>se. uev_data_kind (ste_event se) = k) ses"

text \<open>The cache holds the latest ids of the channel of all events; the channel of a kind has its events since it was opened.\<close>

definition hub_ok :: "hub \<Rightarrow> bool" where
  "hub_ok h \<longleftrightarrow> (let p = stored_ids (hub_all h) in
     pc_order (hub_published h) = drop (length p - PUBLISHED_EVENT_CACHE_CAPACITY) p
     \<and> pc_event_ids (hub_published h) = set (pc_order (hub_published h))
     \<and> (\<forall>i. distinct (take (PUBLISHED_EVENT_CACHE_CAPACITY + 1) (drop i p)))
     \<and> (\<forall>(k, sent)\<in>set (hub_filtered h). suffix sent (of_kind k (hub_all h))))"

lemma stored_ids_snoc [simp]:
  "stored_ids (ses @ [se]) = stored_ids ses @ (if uev_cursor (ste_event se) = 0 then [] else [uev_event_id (ste_event se)])"
  by (simp add: stored_ids_def)

lemma of_kind_snoc [simp]: "of_kind k (ses @ [se]) = of_kind k ses @ (if uev_data_kind (ste_event se) = k then [se] else [])"
  by (simp add: of_kind_def)

lemma window_snoc:
  assumes "\<And>i. distinct (take (Suc n) (drop i p))" and "x \<notin> set (drop (length p - n) p)"
  shows "distinct (take (Suc n) (drop i (p @ [x])))"
proof (cases "i + Suc n \<le> length p")
  case True
  then show ?thesis using assms(1) [of i] by simp
next
  case False
  have "set (drop i p) \<subseteq> set (drop (length p - n) p)" using False by (simp add: set_drop_subset_set_drop)
  moreover have "distinct (drop i p)" using assms(1) [of i] False by simp
  ultimately show ?thesis using False assms(2) by (cases "i - length p") (auto simp: distinct_append)
qed

lemma remember_window:
  assumes "pc_order c = drop (length p - PUBLISHED_EVENT_CACHE_CAPACITY) p" and "pc_event_ids c = set (pc_order c)"
    and "\<And>i. distinct (take (PUBLISHED_EVENT_CACHE_CAPACITY + 1) (drop i p))" and "remember x c = (True, c')"
  shows "pc_order c' = drop (length (p @ [x]) - PUBLISHED_EVENT_CACHE_CAPACITY) (p @ [x])" and "pc_event_ids c' = set (pc_order c')"
    and "x \<notin> set (pc_order c)"
proof -
  let ?n = PUBLISHED_EVENT_CACHE_CAPACITY
  show new: "x \<notin> set (pc_order c)" using assms(2,4) by (auto simp: remember_def split: if_splits)
  have dist: "distinct (pc_order c)" using assms(3) [of "length p - ?n"] by (simp add: assms(1))
  have len: "length (pc_order c) = min (length p) ?n" by (simp add: assms(1) min_def)
  have c': "c' = (if ?n < length (pc_order c @ [x]) then \<lparr>pc_event_ids = insert x (set (pc_order c)) - {hd (pc_order c @ [x])}, pc_order = tl (pc_order c @ [x])\<rparr>
      else \<lparr>pc_event_ids = insert x (set (pc_order c)), pc_order = pc_order c @ [x]\<rparr>)"
    using assms(2,4) new by (auto simp: remember_def Let_def)
  show "pc_order c' = drop (length (p @ [x]) - ?n) (p @ [x])"
  proof (cases "?n \<le> length p")
    case True
    then have "pc_order c' = tl (pc_order c @ [x])" using c' len by simp
    also have "\<dots> = tl (drop (length p - ?n) (p @ [x]))" by (simp add: assms(1))
    also have "\<dots> = drop (Suc (length p - ?n)) (p @ [x])" by (simp only: drop_Suc tl_drop)
    finally show ?thesis using True by (simp add: Suc_diff_le)
  next
    case False
    then show ?thesis using c' len by (simp add: assms(1))
  qed
  show "pc_event_ids c' = set (pc_order c')"
    using dist new by (cases "pc_order c") (auto simp: c')
qed

lemma publish_hub_ok:
  assumes "hub_ok h"
  shows "hub_ok (publish_ui X e h)"
proof (cases "stream_event_of X e")
  case None
  then show ?thesis using assms by (simp add: publish_ui_def)
next
  case (Some se)
  have se: "ste_event se = e" using Some by (auto simp: stream_event_of_def split: sum.splits)
  let ?p = "stored_ids (hub_all h)"
  let ?f = "map (\<lambda>(k, sent). (k, if k = uev_data_kind e then sent @ [se] else sent)) (hub_filtered h)"
  note ok = assms [unfolded hub_ok_def Let_def]
  have filtered: "\<forall>(k, sent)\<in>set ?f. suffix sent (of_kind k (hub_all h @ [se]))" using ok by (auto simp: se)
  show ?thesis
  proof (cases "uev_cursor e = 0")
    case True
    then show ?thesis using ok filtered Some by (simp add: publish_ui_def hub_ok_def Let_def se)
  next
    case False
    obtain b c where r: "remember (uev_event_id e) (hub_published h) = (b, c)" by fastforce
    show ?thesis
    proof (cases b)
      case True
      have "distinct (take (PUBLISHED_EVENT_CACHE_CAPACITY + 1) (drop i (?p @ [uev_event_id e])))" for i
        using window_snoc [of PUBLISHED_EVENT_CACHE_CAPACITY ?p "uev_event_id e" i] remember_window(3) [of "hub_published h" ?p "uev_event_id e" c] ok r True
        by simp
      then show ?thesis using ok filtered Some False r True remember_window [of "hub_published h" ?p "uev_event_id e" c]
        by (simp add: publish_ui_def hub_ok_def Let_def se)
    next
      case b: False
      then have "c = hub_published h" using r by (auto simp: remember_def Let_def split: if_splits)
      then show ?thesis using assms Some False r b by (simp add: publish_ui_def)
    qed
  qed
qed

lemma subscribe_hub_ok: "hub_ok h \<Longrightarrow> hub_ok (snd (subscribe k h))"
  by (auto simp: hub_ok_def subscribe_def Let_def split: option.splits)

lemma hub_run_ok: "hub_ok (fold (hub_step X) ops new_hub)"
proof -
  have "hub_ok h \<Longrightarrow> hub_ok (fold (hub_step X) ops h)" for h
  proof (induction ops arbitrary: h)
    case (Cons x ops)
    then show ?case by (cases x) (simp_all add: publish_hub_ok subscribe_hub_ok)
  qed simp
  moreover have "hub_ok new_hub" by (simp add: hub_ok_def new_hub_def stored_ids_def)
  ultimately show ?thesis by blast
qed

text \<open>The hub repeats no stored event within its memory and hides none from a subscriber. After any publications and
  subscriptions, an event id that the channel carries twice, other than of an ephemeral event, has at least 8192 others
  between the two; and the channel of a kind carries exactly the latest events of that kind of the channel of all events,
  in the same order.\<close>

theorem hub_repeats_nothing:
  assumes "h = fold (hub_step X) ops new_hub" and "p = stored_ids (hub_all h)"
  shows "(\<forall>i j. i < j \<and> j < length p \<and> p ! i = p ! j \<longrightarrow> i + 8192 < j)
    \<and> (\<forall>k sent. map_of (hub_filtered h) k = Some sent \<longrightarrow> suffix sent (of_kind k (hub_all h)))"
proof -
  note ok = hub_run_ok [of X ops, folded assms(1), unfolded hub_ok_def Let_def, folded assms(2)]
  have "i + 8192 < j" if ij: "i < j" "j < length p" "p ! i = p ! j" for i j
  proof (rule ccontr)
    assume "\<not> ?thesis"
    then have near: "j - i < 8193" "j - i < length (take 8193 (drop i p))" using ij by auto
    have "take 8193 (drop i p) ! 0 = take 8193 (drop i p) ! (j - i)" using ij near by simp
    moreover have "distinct (take 8193 (drop i p))" using ok by (simp add: PUBLISHED_EVENT_CACHE_CAPACITY_def)
    ultimately have "0 = j - i" using near nth_eq_iff_index_eq [of "take 8193 (drop i p)" 0 "j - i"] by linarith
    then show False using ij by simp
  qed
  then show ?thesis using ok by (auto dest: map_of_SomeD)
qed

section \<open>Witnesses\<close>

definition sample_event_row :: "int \<Rightarrow> ui_event_row" where
  "sample_event_row c = \<lparr>uer_cursor = c, uer_event_id = ''e'' @ int_text c, uer_source_id = None, uer_node_id = ''node-a'',
     uer_signer_agent_did = ''did:key:a'', uer_data_kind = ''presence'', uer_event_kind = ''seen'', uer_visibility = ''public'',
     uer_provisional = False, uer_topic_id = None, uer_organization_id = None, uer_task_id = None, uer_generated_at = 0,
     uer_ingested_at = 0, uer_payload = JNull, uer_ingest_path = ''event_push'', uer_source_cursor_or_seq = None\<rparr>"

definition sample_ui_event :: "int \<Rightarrow> ui_event" where
  "sample_ui_event c = (case ui_event_of sample_gx (sample_event_row c) of Inr e \<Rightarrow> e)"

definition sample_stream_db :: gdb where
  "sample_stream_db = empty_gdb\<lparr>g_events := map sample_event_row [1, 2, 3]\<rparr>"

definition sample_stream_query :: "int \<Rightarrow> u64 \<Rightarrow> ui_stream_query" where
  "sample_stream_query c limit = \<lparr>usq_token = None, usq_cursor = Some c, usq_limit = Some limit, usq_data_kind = Some Presence,
     usq_node_id = None, usq_topic_id = None, usq_organization_id = None, usq_task_id = None\<rparr>"

definition sample_live :: stream_event where
  "sample_live = \<lparr>ste_event = sample_ui_event 4, ste_payload = ''e4''\<rparr>"

definition sample_socket :: socket where
  "sample_socket = \<lparr>so_room = 9, so_out = []\<rparr>"

definition sample_stream :: "u64 \<Rightarrow> int \<Rightarrow> (bool \<times> int \<times> socket) result" where
  "sample_stream limit c = stream sample_gx 0 None (sample_stream_query c limit) (Some sample_stream_db) (Some sample_stream_db)
     [Got sample_live] sample_socket"

lemma sample_stream_sent:
  "map_sum id (\<lambda>(alive, last_sent, s). (alive, map uev_cursor (events_of (so_out s)))) (sample_stream 200 1) = Inr (True, [2, 3, 4])"
  "map_sum id (\<lambda>(alive, last_sent, s). (alive, map uev_cursor (events_of (so_out s)))) (sample_stream 2 0) = Inr (True, [1, 2, 4])"
  by code_simp+

lemma sample_stream_open:
  obtains last_sent s' where "sample_stream 200 1 = Inr (True, last_sent, s')" "map uev_cursor (events_of (so_out s')) = [2, 3, 4]"
  using sample_stream_sent(1) by (cases "sample_stream 200 1") auto

lemma sample_stream_cursors: "distinct (map uer_cursor (g_events sample_stream_db))" "so_out sample_socket = []"
  by code_simp+

theorem stream_sound_witness:
  "\<exists>last_sent s'. sample_stream 200 1 = Inr (True, last_sent, s') \<and> map uev_cursor (events_of (so_out s')) = [2, 3, 4]
    \<and> (\<forall>e\<in>set (events_of (so_out s')). allows_public_stream (uev_data_kind e) \<and> uev_data_kind e = Presence)
    \<and> sorted_wrt (<) (1 # stored_cursors (events_of (so_out s')))"
proof -
  obtain last_sent s' where run: "sample_stream 200 1 = Inr (True, last_sent, s')" "map uev_cursor (events_of (so_out s')) = [2, 3, 4]"
    by (rule sample_stream_open)
  from stream_sound [of "Some sample_stream_db", OF _ sample_stream_cursors(2) run(1) [unfolded sample_stream_def]] sample_stream_cursors(1) run
  show ?thesis by (auto simp: null_or_def sample_stream_query_def requested_cursor_def)
qed

theorem stream_resume_complete_witness:
  "\<exists>last_sent s'. sample_stream 200 1 = Inr (True, last_sent, s')
    \<and> events_of (so_out s') = replayed sample_gx (sample_stream_query 1 200) False [sample_event_row 2, sample_event_row 3] @ [sample_ui_event 4]"
proof -
  let ?q = "sample_stream_query 1 200" and ?d = sample_stream_db
  let ?rows = "[sample_event_row 2, sample_event_row 3]"
  obtain last_sent s' where run: "sample_stream 200 1 = Inr (True, last_sent, s')" by (rule sample_stream_open)
  have rows: "?rows = filter (ui_query_matches ?d (replay_query sample_gx ?q)) (g_events ?d)" "sort_key uer_cursor ?rows = ?rows" by code_simp+
  have allow: "stream_allows_protected None ?q = False" by code_simp
  have live: "filter (\<lambda>e. event_matches_query e ?q False \<and> (0 < uev_cursor e \<longrightarrow> requested_cursor ?q < uev_cursor e
      \<and> (\<forall>r\<in>set (replayed sample_gx ?q False ?rows). uev_cursor r < uev_cursor e))) (map ste_event [sample_live]) = [sample_ui_event 4]"
    by code_simp
  have "resume_rejection_reason (usq_cursor ?q) (Option.bind (Some ?d) earliest_ui_event_cursor) = None"
    "int (length ?rows) \<le> max (uq_limit (replay_query sample_gx ?q)) 1" "sorted_wrt (<) (stored_cursors (map ste_event [sample_live]))"
    "1 + length (g_events ?d) + length [sample_live] \<le> so_room sample_socket" by code_simp+
  from stream_resume_complete [OF this(1) rows(1) this(2,3,4) sample_stream_cursors(2) refl, where now = 0 and admin_token = None and alive = True and last_sent = last_sent and s' = s'] run
  show ?thesis unfolding sample_stream_def rows(2) allow live by simp
qed


theorem hub_repeats_nothing_witness:
  "\<exists>h. h = fold (hub_step sample_gx) [SubscribeOp (Some Presence), PublishOp (sample_ui_event 1), PublishOp (sample_ui_event 1), PublishOp (sample_ui_event 2)] new_hub
    \<and> stored_ids (hub_all h) = [''e1'', ''e2''] \<and> map_of (hub_filtered h) Presence = Some (hub_all h)
    \<and> suffix (hub_all h) (of_kind Presence (hub_all h))"
proof -
  let ?h = "fold (hub_step sample_gx) [SubscribeOp (Some Presence), PublishOp (sample_ui_event 1), PublishOp (sample_ui_event 1), PublishOp (sample_ui_event 2)] new_hub"
  have "stored_ids (hub_all ?h) = [''e1'', ''e2'']" "map_of (hub_filtered ?h) Presence = Some (hub_all ?h)" by code_simp+
  then show ?thesis using hub_repeats_nothing [OF refl refl, of sample_gx "[SubscribeOp (Some Presence), PublishOp (sample_ui_event 1), PublishOp (sample_ui_event 1), PublishOp (sample_ui_event 2)]"]
    by blast
qed

end
