(* ===== verification/Gw_Ingest.thy ===== *)
theory Gw_Ingest
  imports Gw_Project Gw_Stream
begin

text \<open>
  How signed data enters the gateway: snapshots (\<open>http.rs\<close>), events (\<open>streaming.rs\<close>) and what peers announce
  (\<open>gateway_sync.rs\<close>). The state of the process is its database, the hub of the event stream, the artifacts it offers to
  peers, and what it has sent to the message bus and to its own synchronisation loop.
\<close>

section \<open>State and environment\<close>

record gw_state =
  gs_db :: gdb
  gs_hub :: hub
  gs_artifacts :: "(string \<times> signed_snapshot) list"
  gs_bus :: "string list"
  gs_wakes :: nat

text \<open>What a call finds outside: the time, the pinned authorities, whether the synchronisation loop, the network and the bus
  are there, whether an artifact can be written, and what the HTTP client gets from a URL.\<close>

record gw_env =
  ge_now :: instant
  ge_now_text :: string
  ge_pins :: "authorities result"
  ge_sync :: bool
  ge_network :: bool
  ge_nats :: bool
  ge_write_artifact :: "signed_snapshot \<Rightarrow> unit result"
  ge_fetch_snapshot :: "string \<Rightarrow> signed_snapshot result"

definition publish_event :: "gw_env \<Rightarrow> string \<Rightarrow> gw_state \<Rightarrow> gw_state" where
  "publish_event E subject s = (if ge_nats E then s\<lparr>gs_bus := gs_bus s @ [subject]\<rparr> else s)"

definition publish_ui_event :: "gw_externs \<Rightarrow> ui_event \<Rightarrow> gw_state \<Rightarrow> gw_state" where
  "publish_ui_event X e s = s\<lparr>gs_hub := publish_ui X e (gs_hub s)\<rparr>"

text \<open>The store of artifacts keeps one per node: a new one takes the place of the old.\<close>

definition persist_snapshot_artifact :: "gw_env \<Rightarrow> signed_snapshot \<Rightarrow> gw_state \<Rightarrow> unit result \<times> gw_state" where
  "persist_snapshot_artifact E snapshot s =
    (if ge_network E
     then (case ge_write_artifact E snapshot of Inl e \<Rightarrow> (Inl e, s)
           | Inr _ \<Rightarrow> (Inr (), s\<lparr>gs_artifacts := (snap_node_id (ssn_payload snapshot), snapshot)
               # filter (\<lambda>(n, _). n \<noteq> snap_node_id (ssn_payload snapshot)) (gs_artifacts s)\<rparr>))
     else (Inr (), s))"

section \<open>Snapshots\<close>

definition snapshot_record :: "gw_externs \<Rightarrow> signed_snapshot \<Rightarrow> string option \<Rightarrow> upsert_snapshot_record" where
  "snapshot_record X snapshot sid = (let p = ssn_payload snapshot in
    \<lparr>usr_source_id = sid, usr_node_id = snap_node_id p, usr_signer_agent_did = ssn_signer_agent_did snapshot,
     usr_public_key = snap_public_key p, usr_generated_at = snap_generated_at p, usr_payload = snapshot_json X p,
     usr_signature = ssn_signature snapshot\<rparr>)"

fun publish_rows :: "gw_externs \<Rightarrow> ui_event_row list \<Rightarrow> gw_state \<Rightarrow> unit result \<times> gw_state" where
  "publish_rows X [] s = (Inr (), s)"
| "publish_rows X (r # rs) s = (case ui_event_of X r of Inl e \<Rightarrow> (Inl e, s) | Inr e \<Rightarrow> publish_rows X rs (publish_ui_event X e s))"

definition wake_sync :: "bool \<Rightarrow> gw_state \<Rightarrow> gw_state" where
  "wake_sync announce s = (if announce then s\<lparr>gs_wakes := gs_wakes s + 1\<rparr> else s)"

definition apply_snapshot :: "gw_externs \<Rightarrow> gw_env \<Rightarrow> signed_snapshot \<Rightarrow> string option \<Rightarrow> bool \<Rightarrow> gw_state \<Rightarrow> bool result \<times> gw_state" where
  "apply_snapshot X E snapshot sid announce s =
    (case upsert_snapshot_inner X (ge_now E) (snapshot_record X snapshot sid) announce (gs_db s) of
       (Inl e, d) \<Rightarrow> (Inl e, s\<lparr>gs_db := d\<rparr>)
     | (Inr False, d) \<Rightarrow> (Inr False, s\<lparr>gs_db := d\<rparr>)
     | (Inr True, d) \<Rightarrow>
       (case persist_snapshot_read_models X (ge_pins E) (ge_now E) sid (ssn_payload snapshot) (ssn_signer_agent_did snapshot) d of
          (Inl e, d1) \<Rightarrow> (Inl e, s\<lparr>gs_db := d1\<rparr>)
        | (Inr rows, d1) \<Rightarrow> (case publish_rows X rows (s\<lparr>gs_db := d1\<rparr>) of
            (Inl e, s1) \<Rightarrow> (Inl e, s1)
          | (Inr _, s1) \<Rightarrow> (Inr True, wake_sync announce (publish_event E ''gateway.snapshot.ingested'' s1)))))"

definition ingest_signed_snapshot_with_options ::
  "gw_externs \<Rightarrow> gw_env \<Rightarrow> signed_snapshot \<Rightarrow> string option \<Rightarrow> string option \<Rightarrow> bool \<Rightarrow> gw_state \<Rightarrow> bool result \<times> gw_state" where
  "ingest_signed_snapshot_with_options X E snapshot sid expected announce s =
    (case verify_signed_snapshot X snapshot expected of
       Inl e \<Rightarrow> (Inl e, s)
     | Inr _ \<Rightarrow> (case persist_snapshot_artifact E snapshot s of
         (Inl e, s1) \<Rightarrow> (Inl e, s1)
       | (Inr _, s1) \<Rightarrow> apply_snapshot X E snapshot sid (announce \<and> ge_sync E) s1))"

definition ingest_signed_snapshot :: "gw_externs \<Rightarrow> gw_env \<Rightarrow> signed_snapshot \<Rightarrow> string option \<Rightarrow> string option \<Rightarrow> gw_state \<Rightarrow> bool result \<times> gw_state" where
  "ingest_signed_snapshot X E snapshot sid expected = ingest_signed_snapshot_with_options X E snapshot sid expected True"

text \<open>The handler of \<open>/api/ingest/snapshot\<close>.\<close>

definition ingest_snapshot :: "gw_externs \<Rightarrow> gw_env \<Rightarrow> signed_snapshot \<Rightarrow> gw_state \<Rightarrow> (nat \<times> json) \<times> gw_state" where
  "ingest_snapshot X E snapshot s =
    (let node = snap_node_id (ssn_payload snapshot); signer = ssn_signer_agent_did snapshot;
         source = find_node_source_for_identity node signer (gs_db s) in
     if (case source of Some r \<Rightarrow> src_status r \<noteq> ''active'' | None \<Rightarrow> False)
     then (error_response 409 ''source is not active for push ingest'', s)
     else (case ingest_signed_snapshot X E snapshot (map_option src_id source) (Option.bind source src_expected_signer) s of
         (Inl e, s1) \<Rightarrow> (error_response 400 e, s1)
       | (Inr _, s1) \<Rightarrow> ((200, json_obj [(''status'', JStr ''ok''), (''node_id'', JStr node), (''signer_agent_did'', JStr signer),
           (''generated_at'', JInt (snap_generated_at (ssn_payload snapshot)))]), s1)))"

section \<open>Events\<close>

text \<open>Arithmetic on \<open>i64\<close> wraps in a release build.\<close>

definition succ_i64 :: "int \<Rightarrow> int" where
  "succ_i64 i = (if i = i64_max then - (2 ^ 63) else i + 1)"

definition backfill_audit :: "gw_env \<Rightarrow> source_row \<Rightarrow> string \<Rightarrow> string \<Rightarrow> int \<Rightarrow> int \<Rightarrow> string \<Rightarrow> string option \<Rightarrow> audit_row" where
  "backfill_audit E source subject node from_seq to_seq url err =
    (let fields = [(''node_id'', JStr node), (''missing_from_seq'', JInt from_seq), (''missing_to_seq'', JInt to_seq), (''snapshot_url'', JStr url)] in
     \<lparr>aud_record_kind = subject, aud_data_kind = None, aud_identity_key = Some node, aud_source_id = Some (src_id source),
      aud_source_node_id = Some node, aud_generated_at = None, aud_ingest_path = ''gap_snapshot_refresh'', aud_payload = json_obj fields,
      aud_provenance = json_obj (fields @ [(''event'', JStr subject), (''source_id'', JStr (src_id source)), (''timestamp'', JStr (ge_now_text E)),
        (''error'', jopt_str err)]),
      aud_created_at = ge_now E\<rparr>)"

definition try_backfill_gap :: "gw_externs \<Rightarrow> gw_env \<Rightarrow> source_row option \<Rightarrow> string \<Rightarrow> string option \<Rightarrow> int \<Rightarrow> int \<Rightarrow> gw_state \<Rightarrow> gw_state" where
  "try_backfill_gap X E source node expected from_seq to_seq s =
    (case source of None \<Rightarrow> s
     | Some src \<Rightarrow>
       let url = (case src_snapshot_export_url src of Some u \<Rightarrow> u | None \<Rightarrow> src_export_url src) in
       case (case ge_fetch_snapshot E url of Inl e \<Rightarrow> (Inl e, s)
             | Inr snapshot \<Rightarrow> ingest_signed_snapshot X E snapshot (Some (src_id src)) expected s) of
         (outcome, s1) \<Rightarrow>
           let subject = (case outcome of Inr True \<Rightarrow> ''gateway.event.gap_snapshot_refresh_applied''
                 | Inr False \<Rightarrow> ''gateway.event.gap_snapshot_refresh_skipped'' | Inl _ \<Rightarrow> ''gateway.event.gap_snapshot_refresh_failed'');
               err = (case outcome of Inl e \<Rightarrow> Some e | Inr _ \<Rightarrow> None);
               status = (case outcome of Inr True \<Rightarrow> ''gap_snapshot_refresh'' | Inr False \<Rightarrow> ''gap_snapshot_refresh_skipped''
                 | Inl _ \<Rightarrow> ''gap_snapshot_refresh_error'');
               s2 = publish_event E subject (s1\<lparr>gs_db := insert_audit_record (backfill_audit E src subject node from_seq to_seq url err) (gs_db s1)\<rparr>)
           in s2\<lparr>gs_db := update_source_sync_status (ge_now E) (src_id src) status err (gs_db s2)\<rparr>)"

definition event_record :: "gw_externs \<Rightarrow> signed_node_event \<Rightarrow> string option \<Rightarrow> bool \<Rightarrow> json \<Rightarrow> new_ui_event" where
  "event_record X event sid provisional payload = (let p = sev_payload event; scope = normalized_event_scope event in
    \<lparr>nue_event_id = nev_event_id p, nue_source_id = sid, nue_node_id = nev_node_id p, nue_signer_agent_did = nev_signer_agent_did p,
     nue_data_kind = gx_kind_name X (nev_data_kind p), nue_event_kind = nev_event_kind p,
     nue_visibility = gx_visibility_name X (nev_visibility p), nue_provisional = provisional, nue_topic_id = scp_topic_id scope,
     nue_organization_id = scp_organization_id scope, nue_task_id = scp_task_id scope, nue_generated_at = nev_timestamp p,
     nue_payload = payload, nue_ingest_path = ''event_push'', nue_source_cursor_or_seq = seq_i64 (nev_seq p)\<rparr>)"

definition ephemeral_event :: "signed_node_event \<Rightarrow> ui_event" where
  "ephemeral_event event = (let p = sev_payload event in
    \<lparr>uev_cursor = 0, uev_event_id = nev_event_id p, uev_node_id = nev_node_id p, uev_data_kind = nev_data_kind p,
     uev_event_kind = nev_event_kind p, uev_visibility = nev_visibility p, uev_provisional = True,
     uev_scope = normalized_event_scope event, uev_generated_at = nev_timestamp p, uev_payload = nev_payload p\<rparr>)"

definition persist_ephemeral :: "gw_externs \<Rightarrow> signed_node_event \<Rightarrow> string option \<Rightarrow> gw_state \<Rightarrow> int option result \<times> gw_state" where
  "persist_ephemeral X event sid s = (let p = sev_payload event in
    if nev_data_kind p = Presence \<and> nev_event_kind p = ''node.presence.heartbeat''
    then (case gx_parse_node_presence X (nev_payload p) of
            Inl e \<Rightarrow> (Inl e, s)
          | Inr presence \<Rightarrow> (case persist_node_presence presence sid (gs_db s) of
              (Inl e, d) \<Rightarrow> (Inl e, s\<lparr>gs_db := d\<rparr>)
            | (Inr accepted, d) \<Rightarrow> (Inr None,
                if accepted then publish_ui_event X (ephemeral_event event) (s\<lparr>gs_db := d\<rparr>) else s\<lparr>gs_db := d\<rparr>)))
    else (Inr None, publish_ui_event X (ephemeral_event event) s))"

definition trusted_projection :: "gw_externs \<Rightarrow> gw_env \<Rightarrow> signed_node_event \<Rightarrow> (data_kind \<times> json) option result" where
  "trusted_projection X E event =
    (case event_projection event of
       Some (kind, payload) \<Rightarrow>
         if kind = BoardActivity then and_then (trusted_board_message X (ge_pins E) payload) (\<lambda>v. Inr (Some (BoardActivity, v)))
         else Inr (Some (kind, payload))
     | None \<Rightarrow> Inr None)"

definition ui_payload :: "signed_node_event \<Rightarrow> (data_kind \<times> json) option \<Rightarrow> json" where
  "ui_payload event projection = (case projection of
     Some (kind, payload) \<Rightarrow> if kind = nev_data_kind (sev_payload event) then payload else nev_payload (sev_payload event)
   | None \<Rightarrow> nev_payload (sev_payload event))"

definition insert_node_event :: "gw_externs \<Rightarrow> gw_env \<Rightarrow> signed_node_event \<Rightarrow> string option \<Rightarrow> bool \<Rightarrow> bool \<Rightarrow> (data_kind \<times> json) option \<Rightarrow> ui_event_row option gop" where
  "insert_node_event X E event sid provisional announce projection =
    (if is_space_event event then persist_event X (ge_now E) event sid announce
     else insert_ui_event_inner X (ge_now E) (event_record X event sid provisional (ui_payload event projection))
       (if announce then Some (''event:'' @ nev_event_id (sev_payload event), P2P_OUTBOX_COMMAND_EVENT, gx_signed_event_json X event) else None))"

text \<open>A row that was there already is projected and published again, unless it belongs to a space.\<close>

definition persist_durable :: "gw_externs \<Rightarrow> gw_env \<Rightarrow> signed_node_event \<Rightarrow> string option \<Rightarrow> bool \<Rightarrow> bool \<Rightarrow> gw_state \<Rightarrow> int option result \<times> gw_state" where
  "persist_durable X E event sid provisional announce s =
    (case trusted_projection X E event of
       Inl e \<Rightarrow> (Inl e, s)
     | Inr projection \<Rightarrow> (case insert_node_event X E event sid provisional announce projection (gs_db s) of
         (Inl e, d) \<Rightarrow> (Inl e, s\<lparr>gs_db := d\<rparr>)
       | (Inr inserted, d) \<Rightarrow>
           if inserted = None \<and> is_space_event event then (Inr None, s\<lparr>gs_db := d\<rparr>)
           else (case materialize_event_projection X (ge_now E) event sid provisional projection d of
               (Inl e, d1) \<Rightarrow> (Inl e, s\<lparr>gs_db := d1\<rparr>)
             | (Inr _, d1) \<Rightarrow> (case inserted of
                 None \<Rightarrow> (case get_ui_event_by_id (nev_event_id (sev_payload event)) d1 of
                     None \<Rightarrow> (Inr None, s\<lparr>gs_db := d1\<rparr>)
                   | Some existing \<Rightarrow> (case publish_rows X [existing] (s\<lparr>gs_db := d1\<rparr>) of
                       (Inl e, s1) \<Rightarrow> (Inl e, s1) | (Inr _, s1) \<Rightarrow> (Inr None, s1)))
               | Some row \<Rightarrow> (case publish_rows X [row] (s\<lparr>gs_db := d1\<rparr>) of
                   (Inl e, s1) \<Rightarrow> (Inl e, s1)
                 | (Inr _, s1) \<Rightarrow> (Inr (Some (uer_cursor row)), wake_sync announce (publish_event E ''gateway.event.ingested'' s1)))))))"

definition persist_signed_node_event_with_options ::
  "gw_externs \<Rightarrow> gw_env \<Rightarrow> signed_node_event \<Rightarrow> string option \<Rightarrow> string option \<Rightarrow> bool \<Rightarrow> gw_state \<Rightarrow> int option result \<times> gw_state" where
  "persist_signed_node_event_with_options X E event sid expected announce s =
    (let p = sev_payload event;
         source = (if sid = None \<and> expected = None then find_node_source_for_identity (nev_node_id p) (nev_signer_agent_did p) (gs_db s) else None);
         sid' = or_else sid (map_option src_id source);
         expected' = or_else expected (Option.bind source src_expected_signer) in
     if (case source of Some r \<Rightarrow> src_status r \<noteq> ''active'' | None \<Rightarrow> False) then (Inl ''source is not active for event push ingest'', s)
     else case verify_signed_node_event X event expected' of
       Inl e \<Rightarrow> (Inl e, s)
     | Inr _ \<Rightarrow> (case validate_event X (ge_pins E) event of
         Inl e \<Rightarrow> (Inl e, s)
       | Inr _ \<Rightarrow>
         let s1 = (case (max_ui_event_source_seq (nev_node_id p) sid' (gs_db s), seq_i64 (nev_seq p)) of
                     (Some last_seq, Some current) \<Rightarrow>
                       if succ_i64 last_seq < current
                       then try_backfill_gap X E source (nev_node_id p) expected' (succ_i64 last_seq) (max 0 (uint (nev_seq p) - 1)) s else s
                   | _ \<Rightarrow> s)
         in if nev_provisional_policy p = EphemeralOnly then persist_ephemeral X event sid' s1
            else persist_durable X E event sid' (nev_provisional_policy p \<noteq> NeverBeforeConfirmation) (announce \<and> ge_sync E) s1))"

end
