(* ===== verification/Gw_Gossip.thy ===== *)
theory Gw_Gossip
  imports Gw_Ingest Gw_Outbox
begin

text \<open>
  Messages from other gateways (\<open>gateway_sync.rs\<close>): the scanner that reads the lane of a message from its first bytes,
  the checks on a snapshot announcement, and \<open>handle_gossip\<close>, which fetches an announced snapshot from its peer or persists
  a relayed event. What serde, the network and the other tasks of the process do is the record \<open>gossip_env\<close>.
\<close>

datatype sync_lane = Snapshot_Lane | Event_Lane

record gossip_env =
  gg_json_string :: "string \<Rightarrow> string result"
  gg_message_type :: "string \<Rightarrow> sync_lane result"
  gg_header :: "string \<Rightarrow> sync_lane result"
  gg_parse :: "string \<Rightarrow> sync_message result"
  gg_local_peer_id :: "string option"
  gg_iroh_direct :: string
  gg_admit :: "string \<Rightarrow> bool"
  gg_wait :: "gw_state \<Rightarrow> gw_state"
  gg_fetch :: "contact_material \<Rightarrow> string \<Rightarrow> signed_snapshot result"

section \<open>The scanner\<close>

definition byte_at :: "string \<Rightarrow> nat \<Rightarrow> char option" where
  "byte_at payload i = (if i < length payload then Some (payload ! i) else None)"

definition is_ascii_whitespace :: "char \<Rightarrow> bool" where
  "is_ascii_whitespace c \<longleftrightarrow> of_char c \<in> {9, 10, 12, 13, 32 :: nat}"

function skip_json_whitespace :: "string \<Rightarrow> nat \<Rightarrow> nat" where
  "skip_json_whitespace payload i =
    (if i < length payload \<and> is_ascii_whitespace (payload ! i) then skip_json_whitespace payload (i + 1) else i)"
  by auto
termination by (relation "measure (\<lambda>(payload, i). length payload - i)") auto

declare skip_json_whitespace.simps [simp del]

function string_end_from :: "string \<Rightarrow> bool \<Rightarrow> nat \<Rightarrow> nat result" where
  "string_end_from payload escaped i =
    (if i < length payload
     then if escaped then string_end_from payload False (i + 1)
          else if payload ! i = CHR 0x5C then string_end_from payload True (i + 1)
          else if payload ! i = CHR 0x22 then Inr (i + 1)
          else string_end_from payload False (i + 1)
     else Inl ''gateway p2p sync payload contains an unterminated JSON string'')"
  by auto
termination by (relation "measure (\<lambda>(payload, _, i). length payload - i)") auto

declare string_end_from.simps [simp del]

definition json_string_end :: "string \<Rightarrow> nat \<Rightarrow> nat result" where
  "json_string_end payload start =
    (if byte_at payload start \<noteq> Some (CHR 0x22) then Inl ''gateway p2p sync payload expected a JSON string''
     else string_end_from payload False (start + 1))"

text \<open>A slice panics when its bounds are out of order or beyond the end: \<open>Inl ''panic''\<close>.\<close>

definition byte_slice :: "string \<Rightarrow> nat \<Rightarrow> nat \<Rightarrow> string result" where
  "byte_slice payload i j = (if i \<le> j \<and> j \<le> length payload then Inr (take (j - i) (drop i payload)) else Inl ''panic'')"

definition classify_gossip_payload :: "gossip_env \<Rightarrow> string \<Rightarrow> sync_lane result" where
  "classify_gossip_payload G payload =
    (let i = skip_json_whitespace payload 0 in
     if byte_at payload i \<noteq> Some (CHR ''{'') then Inl ''gateway p2p sync payload is not a JSON object''
     else let i1 = skip_json_whitespace payload (i + 1) in
       and_then (json_string_end payload i1) (\<lambda>key_end.
       and_then (byte_slice payload i1 key_end) (\<lambda>key_bytes.
       and_then (gg_json_string G key_bytes) (\<lambda>key.
       if key \<noteq> ''type'' then gg_header G payload
       else let i2 = skip_json_whitespace payload key_end in
         if byte_at payload i2 \<noteq> Some (CHR '':'') then Inl ''gateway p2p sync payload type field is missing a colon''
         else let i3 = skip_json_whitespace payload (i2 + 1) in
           and_then (json_string_end payload i3) (\<lambda>value_end.
           and_then (byte_slice payload i3 value_end) (gg_message_type G))))))"

section \<open>Announcements\<close>

definition validate_snapshot_announcement :: "gossip_env \<Rightarrow> string \<Rightarrow> string \<Rightarrow> contact_material \<Rightarrow> unit result" where
  "validate_snapshot_announcement G source peer contact =
    (if blank source then Inl ''gateway p2p gossip propagation source is empty''
     else if blank peer then Inl ''gateway p2p snapshot announcement peer id is empty''
     else if ct_transport contact \<noteq> gg_iroh_direct G \<or> ct_route contact \<noteq> gg_iroh_direct G
     then Inl ''gateway p2p snapshot announcement must use iroh_direct''
     else if ct_peer_id contact \<noteq> peer
     then Inl (''gateway p2p snapshot contact peer mismatch: announced '' @ peer @ '', contact '' @ ct_peer_id contact)
     else let endpoint = (case or_else (Option.bind (jget ''endpoint_id'' (ct_extra contact)) as_str) (ct_endpoint_id contact) of Some e \<Rightarrow> e | None \<Rightarrow> []) in
       if endpoint = [] then Inl ''gateway p2p snapshot contact endpoint id is empty''
       else if (case ct_endpoint_id contact of Some e \<Rightarrow> e \<noteq> endpoint | None \<Rightarrow> False) \<or> endpoint \<noteq> peer
       then Inl ''gateway p2p snapshot contact endpoint does not match gateway peer'' else Inr ())"

text \<open>\<open>timestamp_millis\<close> rounds down.\<close>

definition snapshot_is_current :: "string \<Rightarrow> int \<Rightarrow> gdb \<Rightarrow> bool" where
  "snapshot_is_current node g d = (case get_snapshot_by_node_id node d of None \<Rightarrow> False
     | Some r \<Rightarrow> normalize_generated_at_millis g \<le> snr_generated_at r div 1000)"

definition fetch_and_ingest_snapshot ::
  "gw_externs \<Rightarrow> gw_env \<Rightarrow> gossip_env \<Rightarrow> string \<Rightarrow> string \<Rightarrow> int \<Rightarrow> contact_material \<Rightarrow> gw_state \<Rightarrow> unit result \<times> gw_state" where
  "fetch_and_ingest_snapshot X E G node signer g contact s =
    (if gg_local_peer_id G = None then (Inl ''gateway p2p runtime is not enabled'', s)
     else case gg_fetch G contact node of
       Inl e \<Rightarrow> (Inl e, s)
     | Inr snapshot \<Rightarrow>
       let p = ssn_payload snapshot in
       if snap_node_id p \<noteq> node
       then (Inl (''p2p snapshot node_id mismatch: announced '' @ node @ '', fetched '' @ snap_node_id p), s)
       else if ssn_signer_agent_did snapshot \<noteq> signer
       then (Inl (''p2p snapshot signer mismatch: announced '' @ signer @ '', fetched '' @ ssn_signer_agent_did snapshot), s)
       else if snap_generated_at p \<noteq> g
       then (Inl (''p2p snapshot generated_at mismatch: announced '' @ int_text g @ '', fetched '' @ int_text (snap_generated_at p)), s)
       else let sid = map_option src_id (find_node_source_for_identity (snap_node_id p) (ssn_signer_agent_did snapshot) (gs_db s)) in
         case ingest_signed_snapshot_with_options X E snapshot sid (Some (ssn_signer_agent_did snapshot)) False s of
           (Inl e, s1) \<Rightarrow> (Inl e, s1) | (Inr _, s1) \<Rightarrow> (Inr (), s1))"

text \<open>While a fetch waits for its permits other tasks run: \<open>gg_wait\<close> is what they do to the state.\<close>

definition handle_gossip :: "gw_externs \<Rightarrow> gw_env \<Rightarrow> gossip_env \<Rightarrow> string \<Rightarrow> string \<Rightarrow> gw_state \<Rightarrow> unit result \<times> gw_state" where
  "handle_gossip X E G source payload s =
    (case gg_parse G payload of
       Inl _ \<Rightarrow> (Inr (), s)
     | Inr (SnapshotAnnounceV1 peer node signer g contact) \<Rightarrow>
       (case validate_snapshot_announcement G source peer contact of
          Inl e \<Rightarrow> (Inl e, s)
        | Inr _ \<Rightarrow>
          if gg_local_peer_id G = Some peer then (Inr (), s)
          else if snapshot_is_current node g (gs_db s) then (Inr (), s)
          else if \<not> gg_admit G peer then (Inr (), s)
          else let s1 = gg_wait G s in
            if snapshot_is_current node g (gs_db s1) then (Inr (), s1)
            else fetch_and_ingest_snapshot X E G node signer g contact s1)
     | Inr (EventV1 peer event) \<Rightarrow>
       if gg_local_peer_id G = Some peer then (Inr (), s)
       else (case persist_signed_node_event_with_options X E event None None False (gg_wait G s) of
           (Inl e, s1) \<Rightarrow> (Inl e, s1) | (Inr _, s1) \<Rightarrow> (Inr (), s1)))"

section \<open>The scanner reads what serde writes\<close>

lemma skip_json_whitespace_run:
  "list_all is_ascii_whitespace w \<Longrightarrow> rest = [] \<or> \<not> is_ascii_whitespace (hd rest)
     \<Longrightarrow> skip_json_whitespace (pre @ w @ rest) (length pre) = length pre + length w"
proof (induction w arbitrary: pre)
  case Nil
  then show ?case by (subst skip_json_whitespace.simps) (auto simp: nth_append hd_conv_nth)
next
  case (Cons c w)
  have "skip_json_whitespace ((pre @ [c]) @ w @ rest) (length (pre @ [c])) = length (pre @ [c]) + length w"
    using Cons by (intro Cons.IH) simp_all
  then show ?case using Cons.prems(1) by (subst skip_json_whitespace.simps) (simp add: nth_append)
qed

lemma string_end_from_run:
  "CHR 0x22 \<notin> set body \<Longrightarrow> CHR 0x5C \<notin> set body
     \<Longrightarrow> string_end_from (pre @ body @ CHR 0x22 # rest) False (length pre) = Inr (length pre + length body + 1)"
proof (induction body arbitrary: pre)
  case Nil
  then show ?case by (subst string_end_from.simps) (simp add: nth_append)
next
  case (Cons c body)
  have "string_end_from ((pre @ [c]) @ body @ CHR 0x22 # rest) False (length (pre @ [c])) = Inr (length (pre @ [c]) + length body + 1)"
    using Cons by (intro Cons.IH) simp_all
  then show ?case using Cons.prems by (subst string_end_from.simps) (auto simp: nth_append)
qed

lemma string_end_from_bounds: "string_end_from payload escaped i = Inr e \<Longrightarrow> i < e \<and> e \<le> length payload \<and> payload ! (e - 1) = CHR 0x22"
proof (induction payload escaped i rule: string_end_from.induct)
  case (1 payload escaped i)
  then show ?case by (subst (asm) (4) string_end_from.simps) (auto split: if_splits)
qed

lemma json_string_end_bounds: "json_string_end payload start = Inr e \<Longrightarrow> start + 2 \<le> e \<and> e \<le> length payload"
  by (auto simp: json_string_end_def split: if_splits dest: string_end_from_bounds)

lemma json_string_end_run:
  assumes "CHR 0x22 \<notin> set body" and "CHR 0x5C \<notin> set body"
  shows "json_string_end (pre @ CHR 0x22 # body @ CHR 0x22 # rest) (length pre) = Inr (length pre + length body + 2)"
  using string_end_from_run [OF assms, of "pre @ [CHR 0x22]" rest] by (simp add: json_string_end_def byte_at_def)

lemma slice_run: "byte_slice (pre @ xs @ rest) (length pre) (length pre + length xs) = Inr xs"
  by (simp add: byte_slice_def)

text \<open>The lane of a message is read from its type without parsing the rest. When the first key of the object is the type,
  with any white space between the tokens and anything after the value, the scanner hands exactly the quoted value to the
  decoder of types. And on any bytes at all it stays within them: no slice panics, so the only errors are its own and
  those of the decoders.\<close>

theorem classify_reads_type:
  fixes q :: string
  defines "q \<equiv> [CHR 0x22]"
  assumes "\<And>w. w \<in> {w1, w2, w3, w4} \<Longrightarrow> list_all is_ascii_whitespace w" and "CHR 0x22 \<notin> set name" and "CHR 0x5C \<notin> set name"
    and "gg_json_string G (q @ ''type'' @ q) = Inr ''type''"
    and "\<And>b. gg_json_string G b \<noteq> Inl ''panic'' \<and> gg_message_type G b \<noteq> Inl ''panic'' \<and> gg_header G b \<noteq> Inl ''panic''"
  shows "classify_gossip_payload G (w1 @ ''{'' @ w2 @ q @ ''type'' @ q @ w3 @ '':'' @ w4 @ q @ name @ q @ rest) = gg_message_type G (q @ name @ q)
    \<and> classify_gossip_payload G payload \<noteq> Inl ''panic''"
proof
  let ?start = "w1 @ ''{''" and ?t = "q @ ''type'' @ q" and ?v = "q @ name @ q"
  let ?all = "w1 @ ''{'' @ w2 @ ?t @ w3 @ '':'' @ w4 @ ?v @ rest"
  have ws: "list_all is_ascii_whitespace w1" "list_all is_ascii_whitespace w2" "list_all is_ascii_whitespace w3" "list_all is_ascii_whitespace w4"
    using assms(2) by blast+
  have tokens: "\<not> is_ascii_whitespace (CHR ''{'')" "\<not> is_ascii_whitespace (CHR 0x22)" "\<not> is_ascii_whitespace (CHR '':'')"
    by (simp_all add: is_ascii_whitespace_def)
  have i: "skip_json_whitespace ?all 0 = length w1"
    using skip_json_whitespace_run [OF ws(1), of "''{'' @ w2 @ ?t @ w3 @ '':'' @ w4 @ ?v @ rest" "[]"] tokens by simp
  have i1: "skip_json_whitespace ?all (length w1 + 1) = length (?start @ w2)"
    using skip_json_whitespace_run [OF ws(2), of "?t @ w3 @ '':'' @ w4 @ ?v @ rest" "?start"] tokens by (simp add: q_def)
  have k: "json_string_end ?all (length (?start @ w2)) = Inr (length (?start @ w2 @ ?t))"
    using json_string_end_run [of "''type''" "?start @ w2" "w3 @ '':'' @ w4 @ ?v @ rest"] by (simp add: q_def)
  have ks: "byte_slice ?all (length (?start @ w2)) (length (?start @ w2 @ ?t)) = Inr ?t"
    using slice_run [of "?start @ w2" ?t "w3 @ '':'' @ w4 @ ?v @ rest"] by (simp add: add.assoc)
  have i2: "skip_json_whitespace ?all (length (?start @ w2 @ ?t)) = length (?start @ w2 @ ?t @ w3)"
    using skip_json_whitespace_run [OF ws(3), of "'':'' @ w4 @ ?v @ rest" "?start @ w2 @ ?t"] tokens by simp
  have i3: "skip_json_whitespace ?all (length (?start @ w2 @ ?t @ w3) + 1) = length (?start @ w2 @ ?t @ w3 @ '':'' @ w4)"
    using skip_json_whitespace_run [OF ws(4), of "?v @ rest" "?start @ w2 @ ?t @ w3 @ '':''"] tokens by (simp add: q_def)
  have v: "json_string_end ?all (length (?start @ w2 @ ?t @ w3 @ '':'' @ w4)) = Inr (length (?start @ w2 @ ?t @ w3 @ '':'' @ w4 @ ?v))"
    using json_string_end_run [OF assms(3,4), of "?start @ w2 @ ?t @ w3 @ '':'' @ w4" rest] by (simp add: q_def)
  have vs: "byte_slice ?all (length (?start @ w2 @ ?t @ w3 @ '':'' @ w4)) (length (?start @ w2 @ ?t @ w3 @ '':'' @ w4 @ ?v)) = Inr ?v"
    using slice_run [of "?start @ w2 @ ?t @ w3 @ '':'' @ w4" ?v rest] by (simp add: add.assoc)
  have bytes: "byte_at ?all (length w1) = Some (CHR ''{'')" "byte_at ?all (length (?start @ w2 @ ?t @ w3)) = Some (CHR '':'')"
    by (simp_all add: byte_at_def nth_append)
  have "classify_gossip_payload G ?all = gg_message_type G ?v"
    unfolding classify_gossip_payload_def Let_def i i1 k bytes and_then_def sum.case ks assms(5) i2 i3 v vs by simp
  then show "classify_gossip_payload G (w1 @ ''{'' @ w2 @ q @ ''type'' @ q @ w3 @ '':'' @ w4 @ q @ name @ q @ rest) = gg_message_type G ?v" by simp
next
  have "byte_slice payload i e \<noteq> Inl ''panic''" if "json_string_end payload i = Inr e" for i e
    using json_string_end_bounds [OF that] by (simp add: byte_slice_def)
  moreover have "json_string_end payload i \<noteq> Inl ''panic''" for i
  proof -
    have "string_end_from payload b j \<noteq> Inl ''panic''" for b j
      by (induction payload b j rule: string_end_from.induct) (subst string_end_from.simps, simp)
    then show ?thesis by (simp add: json_string_end_def)
  qed
  ultimately show "classify_gossip_payload G payload \<noteq> Inl ''panic''"
    using assms(6) by (auto simp: classify_gossip_payload_def Let_def and_then_def split: sum.splits if_splits)
qed

definition sample_decoders :: gossip_env where
  "sample_decoders = \<lparr>gg_json_string = (\<lambda>b. Inr (if length b = 6 then ''type'' else [])),
     gg_message_type = (\<lambda>b. if length b = 7 then Inr Event_Lane else Inr Snapshot_Lane), gg_header = (\<lambda>b. Inr Snapshot_Lane),
     gg_parse = (\<lambda>b. Inl ''not JSON''), gg_local_peer_id = None, gg_iroh_direct = ''iroh_direct'', gg_admit = (\<lambda>p. True), gg_wait = (\<lambda>s. s),
     gg_fetch = (\<lambda>c n. Inl ''unreachable'')\<rparr>"

theorem classify_reads_type_witness:
  "classify_gossip_payload sample_decoders ('' {'' @ [CHR 0x22] @ ''type'' @ [CHR 0x22] @ '' :'' @ [CHR 0x22] @ ''event'' @ [CHR 0x22] @ ''}'') = Inr Event_Lane
    \<and> classify_gossip_payload sample_decoders ''{'' \<noteq> Inl ''panic''"
proof -
  have ws: "list_all is_ascii_whitespace w" if "w \<in> {'' '', [], '' '', []}" for w
    using that by (auto simp: is_ascii_whitespace_def)
  have "CHR 0x22 \<notin> set ''event''" "CHR 0x5C \<notin> set ''event''" by simp_all
  moreover have "gg_json_string sample_decoders ([CHR 0x22] @ ''type'' @ [CHR 0x22]) = Inr ''type''" by (simp add: sample_decoders_def)
  moreover have "gg_json_string sample_decoders b \<noteq> Inl ''panic'' \<and> gg_message_type sample_decoders b \<noteq> Inl ''panic'' \<and> gg_header sample_decoders b \<noteq> Inl ''panic''" for b
    by (simp add: sample_decoders_def)
  moreover have "gg_message_type sample_decoders ([CHR 0x22] @ ''event'' @ [CHR 0x22]) = Inr Event_Lane" by (simp add: sample_decoders_def)
  ultimately show ?thesis using classify_reads_type [of "'' ''" "[]" "'' ''" "[]" "''event''" sample_decoders "''}''" "''{''", OF ws] by simp
qed

end
