(* ===== verification/Gw_Handlers.thy ===== *)
theory Gw_Handlers
  imports Gw_Gossip
begin

text \<open>
  The remaining handlers of \<open>http.rs\<close> and \<open>streaming.rs\<close>: registering a node, pulling snapshots from registered nodes,
  pushing an event, the list of nodes and the health check. The two transport values of a node are types of another crate;
  they are carried as the JSON serde makes of them.
\<close>

section \<open>Queries\<close>

text \<open>Rows of one instant may come in any order; here they keep the order of the table.\<close>

definition list_node_sources :: "gdb \<Rightarrow> source_row list" where
  "list_node_sources d = sort_key src_created_at (g_sources d)"

definition list_snapshots :: "gdb \<Rightarrow> snapshot_row list" where
  "list_snapshots d = sort_key (\<lambda>r. - snr_ingested_at r) (g_snapshots d)"

definition list_visible_snapshots :: "gdb \<Rightarrow> snapshot_row list" where
  "list_visible_snapshots d =
    sort_key (\<lambda>r. - snr_ingested_at r) (filter (\<lambda>r. source_visible d (snr_source_id r)) (g_snapshots d))"

definition healthz :: "gdb \<Rightarrow> nat \<times> json" where
  "healthz d = (let c = counts d; n = (\<lambda>i. JInt (int i)) in
    (200, json_obj [(''status'', JStr ''ok''), (''sources'', n (hc_source_count c)), (''active_sources'', n (hc_active_source_count c)),
      (''snapshots'', n (hc_snapshot_count c)), (''projections'', n (hc_projection_count c)), (''ui_events'', n (hc_ui_event_count c)),
      (''backfill_events'', n (hc_backfill_event_count c))]))"

section \<open>Registering a node\<close>

record register_node_request =
  rnr_name :: string
  rnr_export_url :: "string option"
  rnr_snapshot_export_url :: "string option"
  rnr_events_export_url :: "string option"
  rnr_ui_base_url :: "string option"
  rnr_sync_grpc_endpoint :: "string option"
  rnr_region :: "string option"
  rnr_expected_signer :: "string option"
  rnr_expected_node_id :: "string option"
  rnr_source_status :: "source_status option"
  rnr_capabilities :: "json option"
  rnr_contact :: "json option"

fun source_status_text :: "source_status \<Rightarrow> string" where
  "source_status_text Active = ''active''"
| "source_status_text Suspended = ''suspended''"
| "source_status_text Rejected = ''rejected''"

definition requested_source :: "instant \<Rightarrow> string \<Rightarrow> string \<Rightarrow> register_node_request \<Rightarrow> source_row" where
  "requested_source now sid export_url body =
    \<lparr>src_id = sid, src_name = trim (rnr_name body), src_export_url = export_url, src_snapshot_export_url = Some export_url,
     src_events_export_url = trimmed (rnr_events_export_url body), src_ui_base_url = trimmed (rnr_ui_base_url body),
     src_sync_grpc_endpoint = trimmed (rnr_sync_grpc_endpoint body), src_region = rnr_region body,
     src_expected_signer = rnr_expected_signer body, src_expected_node_id = rnr_expected_node_id body,
     src_status = source_status_text (case rnr_source_status body of Some st \<Rightarrow> st | None \<Rightarrow> Active),
     src_created_at = now, src_updated_at = now, src_last_sync_at = None, src_last_sync_status = None, src_last_error = None,
     src_capabilities = rnr_capabilities body, src_contact = rnr_contact body\<rparr>"

definition register_node :: "gw_env \<Rightarrow> string \<Rightarrow> register_node_request \<Rightarrow> gw_state \<Rightarrow> (nat \<times> json) \<times> gw_state" where
  "register_node E sid body s =
    (case (trimmed (or_else (rnr_snapshot_export_url body) (rnr_export_url body)), blank (rnr_name body)) of
       (Some export_url, False) \<Rightarrow>
         (case insert_node_source (requested_source (ge_now E) sid export_url body) (gs_db s) of
            (Inl e, d) \<Rightarrow> (error_response 400 e, s\<lparr>gs_db := d\<rparr>)
          | (Inr _, d) \<Rightarrow> ((201, json_obj [(''source_id'', JStr sid), (''name'', JStr (rnr_name body)), (''export_url'', JStr export_url),
                (''source_status'', JStr (source_status_text (case rnr_source_status body of Some st \<Rightarrow> st | None \<Rightarrow> Active)))]),
              publish_event E ''gateway.node.registered'' (s\<lparr>gs_db := d\<rparr>)))
     | _ \<Rightarrow> (error_response 400 ''name and a wattetheria snapshot export URL are required'', s))"

section \<open>Pulling snapshots\<close>

definition resolve_sources :: "string option \<Rightarrow> gdb \<Rightarrow> (nat \<times> json) + source_row list" where
  "resolve_sources sid d =
    (case sid of
       Some i \<Rightarrow> (case find_source i d of
           Some source \<Rightarrow> if src_status source = ''active'' then Inr [source] else Inl (error_response 409 ''source is not active'')
         | None \<Rightarrow> Inl (error_response 404 ''unknown source_id''))
     | None \<Rightarrow> (let active = filter (\<lambda>r. src_status r = ''active'') (list_node_sources d) in
         if active \<noteq> [] then Inr active else Inl (error_response 400 ''no active node sources registered'')))"

text \<open>\<open>iroh contact node\<close> is what a direct fetch from a peer yields.\<close>

definition try_fetch_snapshot_via_iroh ::
  "gw_env \<Rightarrow> (json \<Rightarrow> string \<Rightarrow> signed_snapshot result) \<Rightarrow> source_row \<Rightarrow> snapshot_row option \<Rightarrow> signed_snapshot option result" where
  "try_fetch_snapshot_via_iroh E iroh source known =
    (if \<not> ge_network E then Inr None
     else case (src_contact source, known) of
       (Some contact, Some row) \<Rightarrow> and_then (iroh contact (snr_node_id row)) (\<lambda>fetched. Inr (Some fetched))
     | _ \<Rightarrow> Inr None)"

definition fetch_snapshot_for_source ::
  "gw_env \<Rightarrow> (json \<Rightarrow> string \<Rightarrow> signed_snapshot result) \<Rightarrow> source_row \<Rightarrow> snapshot_row option \<Rightarrow> signed_snapshot result" where
  "fetch_snapshot_for_source E iroh source known =
    and_then (try_fetch_snapshot_via_iroh E iroh source known) (\<lambda>fetched. case fetched of
      Some snapshot \<Rightarrow> Inr snapshot
    | None \<Rightarrow> ge_fetch_snapshot E (case src_snapshot_export_url source of Some u \<Rightarrow> u | None \<Rightarrow> src_export_url source))"

definition mark_source :: "gw_env \<Rightarrow> source_row \<Rightarrow> string \<Rightarrow> string option \<Rightarrow> gw_state \<Rightarrow> gw_state" where
  "mark_source E source status err s = s\<lparr>gs_db := update_source_sync_status (ge_now E) (src_id source) status err (gs_db s)\<rparr>"

definition sync_result :: "source_row \<Rightarrow> signed_snapshot \<Rightarrow> string \<Rightarrow> string option \<Rightarrow> json" where
  "sync_result source fetched status err = json_obj ([(''source_id'', JStr (src_id source)), (''node_id'', JStr (snap_node_id (ssn_payload fetched))),
     (''signer_agent_did'', JStr (ssn_signer_agent_did fetched)), (''generated_at'', JInt (snap_generated_at (ssn_payload fetched))),
     (''sync_status'', JStr status)] @ (case err of Some e \<Rightarrow> [(''wattswarm_collect_error'', JStr e)] | None \<Rightarrow> []))"

definition sync_source ::
  "gw_externs \<Rightarrow> collation \<Rightarrow> gw_env \<Rightarrow> (json \<Rightarrow> string \<Rightarrow> signed_snapshot result) \<Rightarrow> swarm_client \<Rightarrow> snapshot_row list \<Rightarrow> source_row
     \<Rightarrow> gw_state \<Rightarrow> ((nat \<times> json) + json) \<times> gw_state" where
  "sync_source X C E iroh client known source s =
    (let refuse = (\<lambda>code msg. Inl (code, json_obj [(''error'', JStr msg), (''source_id'', JStr (src_id source))])) in
     case fetch_snapshot_for_source E iroh source (find (\<lambda>r. snr_source_id r = Some (src_id source)) known) of
       Inl e \<Rightarrow> (refuse 502 e, mark_source E source ''error'' (Some e) s)
     | Inr fetched \<Rightarrow> (case verify_signed_snapshot X fetched (src_expected_signer source) of
         Inl e \<Rightarrow> (refuse 400 e, mark_source E source ''invalid'' (Some e) s)
       | Inr _ \<Rightarrow> (case ingest_signed_snapshot X E fetched (Some (src_id source)) None s of
           (Inl e, s1) \<Rightarrow> (refuse 500 e, mark_source E source ''error'' (Some e) s1)
         | (Inr _, s1) \<Rightarrow> (case collect_wattswarm_read_models X C (ge_now E) client source (gs_db s1) of
             (Inl e, d) \<Rightarrow> (Inr (sync_result source fetched ''partial'' (Some e)), mark_source E source ''partial'' (Some e) (s1\<lparr>gs_db := d\<rparr>))
           | (Inr _, d) \<Rightarrow> (Inr (sync_result source fetched ''ok'' None), mark_source E source ''ok'' None (s1\<lparr>gs_db := d\<rparr>))))))"

text \<open>The first source that fails ends the call.\<close>

fun sync_sources ::
  "gw_externs \<Rightarrow> collation \<Rightarrow> gw_env \<Rightarrow> (json \<Rightarrow> string \<Rightarrow> signed_snapshot result) \<Rightarrow> swarm_client \<Rightarrow> snapshot_row list \<Rightarrow> source_row list
     \<Rightarrow> json list \<Rightarrow> gw_state \<Rightarrow> (nat \<times> json) \<times> gw_state" where
  "sync_sources X C E iroh client known [] results s = ((200, JArr results), s)"
| "sync_sources X C E iroh client known (source # sources) results s =
    (case sync_source X C E iroh client known source s of
       (Inl response, s1) \<Rightarrow> (response, s1)
     | (Inr result, s1) \<Rightarrow> sync_sources X C E iroh client known sources (results @ [result]) s1)"

definition sync_nodes ::
  "gw_externs \<Rightarrow> collation \<Rightarrow> gw_env \<Rightarrow> (json \<Rightarrow> string \<Rightarrow> signed_snapshot result) \<Rightarrow> swarm_client \<Rightarrow> string option
     \<Rightarrow> gw_state \<Rightarrow> (nat \<times> json) \<times> gw_state" where
  "sync_nodes X C E iroh client sid s =
    (case resolve_sources sid (gs_db s) of
       Inl response \<Rightarrow> (response, s)
     | Inr sources \<Rightarrow> sync_sources X C E iroh client (list_snapshots (gs_db s)) sources [] s)"

section \<open>Pushing an event\<close>

definition ingest_node_event :: "gw_externs \<Rightarrow> gw_env \<Rightarrow> signed_node_event \<Rightarrow> gw_state \<Rightarrow> (nat \<times> json) \<times> gw_state" where
  "ingest_node_event X E event s = (let p = sev_payload event in
    case persist_signed_node_event_with_options X E event None None True s of
      (Inr (Some cursor), s1) \<Rightarrow> ((200, json_obj [(''status'', JStr ''ok''), (''event_id'', JStr (nev_event_id p)), (''cursor'', JInt cursor),
        (''node_id'', JStr (nev_node_id p)), (''data_kind'', JStr (gx_kind_name X (nev_data_kind p)))]), s1)
    | (Inr None, s1) \<Rightarrow> ((200, json_obj [(''status'', JStr ''duplicate''), (''event_id'', JStr (nev_event_id p))]), s1)
    | (Inl e, s1) \<Rightarrow> (error_response 400 e, s1))"

section \<open>The list of nodes\<close>

text \<open>The router of the transport crate picks a route for a kind of transfer of some size; \<open>chrono\<close> writes instants.\<close>

datatype transfer_kind = ControlMessage | BackfillChunk | ArtifactBlob | CheckpointSnapshot

record listing_env =
  le_route :: "json \<Rightarrow> transfer_kind \<Rightarrow> nat \<Rightarrow> bool \<Rightarrow> string"
  le_time_text :: "instant \<Rightarrow> string"

definition recommended_routes :: "listing_env \<Rightarrow> json \<Rightarrow> json" where
  "recommended_routes L capabilities = json_obj
    [(''control_message'', JStr (le_route L capabilities ControlMessage 512 False)),
     (''backfill_chunk'', JStr (le_route L capabilities BackfillChunk (128 * 1024) False)),
     (''artifact_blob'', JStr (le_route L capabilities ArtifactBlob (128 * 1024) True)),
     (''checkpoint_snapshot'', JStr (le_route L capabilities CheckpointSnapshot (128 * 1024) True))]"

definition jopt :: "json option \<Rightarrow> json" where
  "jopt v = (case v of Some w \<Rightarrow> w | None \<Rightarrow> JNull)"

definition listed_snapshot :: "listing_env \<Rightarrow> snapshot_row \<Rightarrow> json" where
  "listed_snapshot L row = json_obj
    [(''node_id'', JStr (snr_node_id row)), (''signer_agent_did'', JStr (snr_signer_agent_did row)),
     (''generated_at'', JStr (le_time_text L (snr_generated_at row))), (''ingested_at'', JStr (le_time_text L (snr_ingested_at row))),
     (''network_name'', jindex ''network_name'' (snr_payload row)), (''network_org_name'', jindex ''network_org_name'' (snr_payload row))]"

definition listed_source :: "listing_env \<Rightarrow> snapshot_row list \<Rightarrow> source_row \<Rightarrow> json" where
  "listed_source L snapshots source = json_obj
    [(''source_id'', JStr (src_id source)), (''name'', JStr (src_name source)), (''export_url'', JStr (src_export_url source)),
     (''wattetheria_snapshot_export_url'', jopt_str (src_snapshot_export_url source)),
     (''wattetheria_events_export_url'', jopt_str (src_events_export_url source)),
     (''wattswarm_ui_base_url'', jopt_str (src_ui_base_url source)),
     (''wattswarm_sync_grpc_endpoint'', jopt_str (src_sync_grpc_endpoint source)), (''region'', jopt_str (src_region source)),
     (''expected_signer_agent_did'', jopt_str (src_expected_signer source)),
     (''expected_wattswarm_node_id'', jopt_str (src_expected_node_id source)), (''source_status'', JStr (src_status source)),
     (''last_sync_at'', jopt_str (map_option (le_time_text L) (src_last_sync_at source))),
     (''last_sync_status'', jopt_str (src_last_sync_status source)), (''last_error'', jopt_str (src_last_error source)),
     (''transport_capabilities'', jopt (src_capabilities source)), (''transport_contact_material'', jopt (src_contact source)),
     (''recommended_routes'', jopt (map_option (recommended_routes L) (src_capabilities source))),
     (''snapshot'', jopt (map_option (listed_snapshot L) (find (\<lambda>r. snr_source_id r = Some (src_id source)) snapshots)))]"

definition listed_push :: "listing_env \<Rightarrow> snapshot_row \<Rightarrow> json" where
  "listed_push L row = json_obj
    [(''source_id'', JNull), (''name'', JStr (snr_node_id row)), (''export_url'', JNull), (''wattetheria_snapshot_export_url'', JNull),
     (''wattetheria_events_export_url'', JNull), (''wattswarm_ui_base_url'', JNull), (''wattswarm_sync_grpc_endpoint'', JNull),
     (''region'', JNull), (''expected_signer_agent_did'', JNull), (''expected_wattswarm_node_id'', JNull), (''source_status'', JStr ''push''),
     (''last_sync_at'', JStr (le_time_text L (snr_ingested_at row))), (''last_sync_status'', JStr ''push''), (''last_error'', JNull),
     (''transport_capabilities'', JNull), (''transport_contact_material'', JNull), (''recommended_routes'', JNull),
     (''snapshot'', listed_snapshot L row)]"

definition list_nodes :: "listing_env \<Rightarrow> gdb \<Rightarrow> json" where
  "list_nodes L d = (let snapshots = list_snapshots d in
    JArr (map (listed_source L snapshots) (list_node_sources d) @ map (listed_push L) (filter (\<lambda>r. snr_source_id r = None) snapshots)))"

end
