(* ===== verification/Gw_Registry.thy ===== *)
theory Gw_Registry
  imports Gw_Ingest Ascii
begin

text \<open>
  The registry of gateways: how a gateway signs its own manifest (\<open>gateway_identity.rs\<close>), registers it, is reviewed and is
  listed (the registry handlers of \<open>http.rs\<close>), and how lists of other registries are merged (\<open>registry_client.rs\<close>). The
  signing key is a parameter with its public key and its signatures.
\<close>

section \<open>The identity of a gateway\<close>

datatype federation_mode = Open | Trusted

record signer =
  sg_public_key :: "string \<Rightarrow> string"
  sg_sign :: "string \<Rightarrow> string \<Rightarrow> string"

record identity_config =
  gic_gateway_id :: "string option"
  gic_display_name :: "string option"
  gic_base_url :: "string option"
  gic_region :: "string option"
  gic_operator_did :: "string option"
  gic_roles :: "string list"
  gic_supported_endpoints :: "string list"
  gic_federation_mode :: "string option"
  gic_federation_peers :: "string list"
  gic_allows_public_ingest :: bool
  gic_signing_key_b64 :: "string option"

record gateway_identity =
  gid_gateway_id :: string
  gid_display_name :: string
  gid_base_url :: string
  gid_region :: "string option"
  gid_operator_did :: "string option"
  gid_roles :: "string list"
  gid_supported_endpoints :: "string list"
  gid_federation_mode :: federation_mode
  gid_federation_peers :: "string list"
  gid_allows_public_ingest :: bool
  gid_signing_key :: string

definition not_blank :: "string option \<Rightarrow> string option" where
  "not_blank v = (case v of Some s \<Rightarrow> if blank s then None else Some s | None \<Rightarrow> None)"

text \<open>\<open>sort\<close> and \<open>dedup\<close>.\<close>

definition normalized_list :: "string list \<Rightarrow> string list \<Rightarrow> string list" where
  "normalized_list vs defaults =
    (let entries = filter (\<lambda>v. v \<noteq> []) (map trim vs) in remdups_adj (sort (if entries = [] then defaults else entries)))"

definition federation_mode_from_raw :: "string option \<Rightarrow> federation_mode" where
  "federation_mode_from_raw v = (case map_option (\<lambda>s. to_ascii_lowercase (trim s)) v of
     Some m \<Rightarrow> if m \<in> {''trusted'', ''allowlist'', ''allow-list''} then Trusted else Open | None \<Rightarrow> Open)"

definition decode_signing_key :: "gw_externs \<Rightarrow> string \<Rightarrow> string result" where
  "decode_signing_key X k = and_then (with_context ''decode gateway signing key base64'' (gx_b64_decode X k)) (\<lambda>bytes.
     if length bytes \<noteq> 32 then Inl ''gateway signing key must decode to 32 bytes'' else Inr bytes)"

definition DEFAULT_ENDPOINTS :: "string list" where
  "DEFAULT_ENDPOINTS = [''/api/network/status'', ''/api/peers'', ''/api/hives'', ''/api/hive-messages'', ''/api/board'', ''/api/missions'',
     ''/api/organizations'', ''/api/leaderboard'', ''/api/registry/bootstrap'', ''/api/registry/discovery'', ''/api/registry/gateways'',
     ''/api/registry/self-manifest'', ''/api/registry/self-register'']"

definition identity_from_config :: "gw_externs \<Rightarrow> identity_config \<Rightarrow> gateway_identity option result" where
  "identity_from_config X c =
    (if gic_gateway_id c = None \<and> gic_display_name c = None \<and> gic_base_url c = None \<and> gic_signing_key_b64 c = None
        \<and> gic_region c = None \<and> gic_operator_did c = None then Inr None
     else and_then (or_err (not_blank (gic_gateway_id c)) ''WATTETHERIA_GATEWAY_IDENTITY_ID is required'') (\<lambda>gateway_id.
     and_then (or_err (not_blank (gic_display_name c)) ''WATTETHERIA_GATEWAY_IDENTITY_DISPLAY_NAME is required'') (\<lambda>display_name.
     and_then (or_err (not_blank (gic_base_url c)) ''WATTETHERIA_GATEWAY_IDENTITY_BASE_URL is required'') (\<lambda>base_url.
     and_then (or_err (not_blank (gic_signing_key_b64 c)) ''WATTETHERIA_GATEWAY_IDENTITY_SIGNING_KEY is required'') (\<lambda>key_b64.
     and_then (decode_signing_key X key_b64) (\<lambda>key.
     Inr (Some \<lparr>gid_gateway_id = gateway_id, gid_display_name = display_name, gid_base_url = trim_end_slashes base_url,
       gid_region = gic_region c, gid_operator_did = gic_operator_did c,
       gid_roles = normalized_list (gic_roles c) [''ingest'', ''query'', ''federation''],
       gid_supported_endpoints = normalized_list (gic_supported_endpoints c) DEFAULT_ENDPOINTS,
       gid_federation_mode = federation_mode_from_raw (gic_federation_mode c), gid_federation_peers = gic_federation_peers c,
       gid_allows_public_ingest = gic_allows_public_ingest c, gid_signing_key = key\<rparr>)))))))"

definition signed_manifest_of :: "gw_externs \<Rightarrow> signer \<Rightarrow> int \<Rightarrow> gateway_identity \<Rightarrow> signed_manifest result" where
  "signed_manifest_of X S now i =
    (let payload = \<lparr>man_generated_at = now, man_gateway_id = gid_gateway_id i, man_display_name = gid_display_name i,
           man_base_url = gid_base_url i, man_public_key = gx_b64_encode X (sg_public_key S (gid_signing_key i)), man_region = gid_region i,
           man_operator_did = gid_operator_did i, man_roles = gid_roles i, man_supported_endpoints = gid_supported_endpoints i,
           man_federation_peers = gid_federation_peers i, man_allows_public_ingest = gid_allows_public_ingest i\<rparr> in
     and_then (canonical_bytes X (manifest_json payload)) (\<lambda>bytes.
     Inr \<lparr>sman_payload = payload, sman_signature = gx_b64_encode X (sg_sign S (gid_signing_key i) bytes)\<rparr>))"

section \<open>URLs of registries\<close>

definition ends_with :: "string \<Rightarrow> string \<Rightarrow> bool" where
  "ends_with suf s \<longleftrightarrow> suffix suf s"

text \<open>\<open>trim_end_matches\<close> with a text removes it as often as it is there.\<close>

function trim_end_text :: "string \<Rightarrow> string \<Rightarrow> string" where
  "trim_end_text suf s = (if suf \<noteq> [] \<and> suffix suf s then trim_end_text suf (take (length s - length suf) s) else s)"
  by auto
termination by (relation "measure (\<lambda>(suf, s). length s)") (auto simp: suffix_def)

declare trim_end_text.simps [simp del]

definition normalized_registry_list_url :: "string \<Rightarrow> string" where
  "normalized_registry_list_url url = (let t = trim_end_slashes url in
    if ends_with ''/api/registry/gateways/register'' t then trim_end_slashes (trim_end_text ''/register'' t)
    else if ends_with ''/api/registry/gateways'' t then t else t @ ''/api/registry/gateways'')"

definition normalized_registry_register_url :: "string \<Rightarrow> string" where
  "normalized_registry_register_url url = (let t = trim_end_slashes url in
    if ends_with ''/api/registry/gateways/register'' t then t
    else if ends_with ''/api/registry/gateways'' t then t @ ''/register'' else t @ ''/api/registry/gateways/register'')"

section \<open>Handlers\<close>

text \<open>The header of the request: absent, or a value that is text or not.\<close>

definition authorize_registry_admin :: "string option \<Rightarrow> string result option \<Rightarrow> (nat \<times> json) option" where
  "authorize_registry_admin token header =
    (case token of None \<Rightarrow> Some (error_response 403 ''registry admin token is not configured'')
     | Some expected \<Rightarrow> (case header of
         None \<Rightarrow> Some (error_response 401 ''missing authorization header'')
       | Some (Inl _) \<Rightarrow> Some (error_response 401 ''invalid authorization header'')
       | Some (Inr v) \<Rightarrow>
           if or_else (strip_prefix ''Bearer '' v) (strip_prefix ''bearer '' v) = Some expected then None
           else Some (error_response 403 ''invalid registry admin token'')))"

definition normalized_gateway_registry_status :: "string \<Rightarrow> string result" where
  "normalized_gateway_registry_status v =
    (if v \<in> {''pending'', ''approved'', ''rejected'', ''suspended''} then Inr v
     else Inl ''unsupported status; expected pending, approved, rejected, or suspended'')"

definition normalized_gateway_discovery_tier :: "string option \<Rightarrow> string result" where
  "normalized_gateway_discovery_tier v = (let t = (case v of None \<Rightarrow> ''community'' | Some w \<Rightarrow> w) in
    if t \<in> {''official'', ''verified'', ''community'', ''manual''} then Inr t
    else Inl ''unsupported discovery_tier; expected official, verified, community, or manual'')"

text \<open>An entry as it is answered and as other registries list it.\<close>

record registry_entry =
  ren_gateway_id :: string
  ren_display_name :: string
  ren_base_url :: string
  ren_public_key :: string
  ren_region :: "string option"
  ren_operator_did :: "string option"
  ren_roles :: "string list"
  ren_supported_endpoints :: "string list"
  ren_federation_peers :: "string list"
  ren_allows_public_ingest :: bool
  ren_manifest :: gateway_manifest
  ren_manifest_signature :: string
  ren_status :: string
  ren_discovery_tier :: string
  ren_review_reason :: "string option"
  ren_reviewed_at :: "instant option"
  ren_reviewed_by :: "string option"
  ren_created_at :: instant
  ren_updated_at :: instant

definition entry_of :: "registry_row \<Rightarrow> registry_entry" where
  "entry_of r = (let m = reg_manifest r in
    \<lparr>ren_gateway_id = man_gateway_id m, ren_display_name = man_display_name m, ren_base_url = man_base_url m, ren_public_key = man_public_key m,
     ren_region = man_region m, ren_operator_did = man_operator_did m, ren_roles = man_roles m,
     ren_supported_endpoints = man_supported_endpoints m, ren_federation_peers = man_federation_peers m,
     ren_allows_public_ingest = man_allows_public_ingest m, ren_manifest = m, ren_manifest_signature = reg_signature r,
     ren_status = reg_status r, ren_discovery_tier = reg_discovery_tier r, ren_review_reason = reg_review_reason r,
     ren_reviewed_at = reg_reviewed_at r, ren_reviewed_by = reg_reviewed_by r, ren_created_at = reg_created_at r, ren_updated_at = reg_updated_at r\<rparr>)"

definition register_gateway :: "gw_externs \<Rightarrow> gw_env \<Rightarrow> signed_manifest \<Rightarrow> gw_state \<Rightarrow> (nat \<times> json) \<times> gw_state" where
  "register_gateway X E m s =
    (case verify_signed_gateway_manifest X m of
       Inl e \<Rightarrow> (error_response 400 e, s)
     | Inr _ \<Rightarrow> (case upsert_gateway_manifest (ge_now E) m (gs_db s) of
         (Inl e, d) \<Rightarrow> (error_response 400 e, s\<lparr>gs_db := d\<rparr>)
       | (Inr r, d) \<Rightarrow> ((201, json_obj [(''gateway_id'', JStr (reg_id r)), (''status'', JStr (reg_status r)), (''discovery_tier'', JStr (reg_discovery_tier r))]),
           publish_event E ''gateway.registry.registered'' (s\<lparr>gs_db := d\<rparr>))))"

record review_request =
  rvr_status :: string
  rvr_discovery_tier :: "string option"
  rvr_reason :: "string option"
  rvr_reviewed_by :: "string option"

datatype review_answer = Refused nat json | Reviewed registry_entry

definition review_gateway ::
  "gw_env \<Rightarrow> string option \<Rightarrow> string result option \<Rightarrow> string \<Rightarrow> review_request \<Rightarrow> gw_state \<Rightarrow> review_answer \<times> gw_state" where
  "review_gateway E token header gateway_id body s =
    (case authorize_registry_admin token header of
       Some (status, j) \<Rightarrow> (Refused status j, s)
     | None \<Rightarrow> (case normalized_gateway_registry_status (rvr_status body) of
         Inl e \<Rightarrow> (case error_response 400 e of (status, j) \<Rightarrow> (Refused status j, s))
       | Inr status \<Rightarrow> (case normalized_gateway_discovery_tier (rvr_discovery_tier body) of
           Inl e \<Rightarrow> (case error_response 400 e of (c, j) \<Rightarrow> (Refused c j, s))
         | Inr tier \<Rightarrow> (case review_gateway_manifest (ge_now E) gateway_id status tier (rvr_reason body) (rvr_reviewed_by body) (gs_db s) of
             (None, d) \<Rightarrow> (case error_response 404 ''gateway not found'' of (c, j) \<Rightarrow> (Refused c j, s\<lparr>gs_db := d\<rparr>))
           | (Some r, d) \<Rightarrow> (Reviewed (entry_of r), publish_event E ''gateway.registry.reviewed'' (s\<lparr>gs_db := d\<rparr>))))))"

record registry_query =
  rgq_region :: "string option"
  rgq_tier :: "string option"
  rgq_role :: "string option"

definition list_public_gateways :: "registry_query \<Rightarrow> gdb \<Rightarrow> registry_entry list" where
  "list_public_gateways q d = map entry_of (list_gateway_registry_entries (Some ''approved'') (rgq_tier q) (rgq_region q) (rgq_role q) d)"

definition get_public_gateway :: "string \<Rightarrow> gdb \<Rightarrow> registry_entry option" where
  "get_public_gateway gateway_id d = (case row_of reg_id gateway_id (g_registry d) of
     Some r \<Rightarrow> if reg_status r = ''approved'' then Some (entry_of r) else None | None \<Rightarrow> None)"

definition list_admin_gateways :: "string option \<Rightarrow> string result option \<Rightarrow> registry_query \<Rightarrow> gdb \<Rightarrow> (nat \<times> json) + registry_entry list" where
  "list_admin_gateways token header q d = (case authorize_registry_admin token header of
     Some r \<Rightarrow> Inl r | None \<Rightarrow> Inr (map entry_of (list_gateway_registry_entries None (rgq_tier q) (rgq_region q) (rgq_role q) d)))"

definition gateway_matches_filters :: "registry_entry \<Rightarrow> registry_query \<Rightarrow> bool" where
  "gateway_matches_filters g q \<longleftrightarrow>
     null_or (rgq_region q) (ren_region g) \<and> null_or (rgq_tier q) (Some (ren_discovery_tier g))
     \<and> (case rgq_role q of None \<Rightarrow> True | Some role \<Rightarrow> role \<in> set (ren_roles g))"

fun merge_discovered :: "registry_query \<Rightarrow> string \<Rightarrow> registry_entry list \<Rightarrow> (string \<times> registry_entry) list \<Rightarrow> (string \<times> registry_entry) list" where
  "merge_discovered q url [] found = found"
| "merge_discovered q url (g # gs) found = merge_discovered q url gs
    (if gateway_matches_filters g q
        \<and> \<not> list_ex (\<lambda>(_, f). ren_gateway_id f = ren_gateway_id g \<or> ren_base_url f = ren_base_url g) found
     then found @ [(normalized_registry_list_url url, g)] else found)"

text \<open>A registry that cannot be reached is skipped.\<close>

fun discover_all :: "(string \<Rightarrow> registry_entry list result) \<Rightarrow> registry_query \<Rightarrow> string list \<Rightarrow> (string \<times> registry_entry) list \<Rightarrow> (string \<times> registry_entry) list" where
  "discover_all fetch q [] found = found"
| "discover_all fetch q (url # urls) found =
    discover_all fetch q urls (case fetch (normalized_registry_list_url url) of Inl _ \<Rightarrow> found | Inr gs \<Rightarrow> merge_discovered q url gs found)"

definition discovery_gateways :: "(string \<Rightarrow> registry_entry list result) \<Rightarrow> string list \<Rightarrow> registry_query \<Rightarrow> gdb \<Rightarrow> (string \<times> registry_entry) list" where
  "discovery_gateways fetch urls q d =
    discover_all fetch q urls (map (Pair ''local'') (list_public_gateways q d))"

text \<open>Registration with other registries ends at the first that fails.\<close>

definition registry_urls :: "string option \<Rightarrow> string list \<Rightarrow> string list" where
  "registry_urls url bootstrap = (case url of Some u \<Rightarrow> if blank u then [] else [u] | None \<Rightarrow> bootstrap)"

fun register_at :: "gw_env \<Rightarrow> (string \<Rightarrow> signed_manifest \<Rightarrow> (string \<times> string \<times> string) result) \<Rightarrow> signed_manifest \<Rightarrow> string list
    \<Rightarrow> (string \<times> string \<times> string \<times> string) list \<Rightarrow> gw_state \<Rightarrow> ((nat \<times> json) + (string \<times> string \<times> string \<times> string) list) \<times> gw_state" where
  "register_at E post m [] results s = (Inr results, s)"
| "register_at E post m (url # urls) results s =
    (let target = normalized_registry_register_url url in
     case post target m of
       Inl e \<Rightarrow> (Inl (502, json_obj [(''error'', JStr e), (''registry_url'', JStr target)]), s)
     | Inr (gateway_id, status, tier) \<Rightarrow>
         register_at E post m urls (results @ [(target, gateway_id, status, tier)]) (publish_event E ''gateway.registry.self_registered'' s))"

definition self_register_gateway ::
  "gw_externs \<Rightarrow> gw_env \<Rightarrow> signer \<Rightarrow> int \<Rightarrow> (string \<Rightarrow> signed_manifest \<Rightarrow> (string \<times> string \<times> string) result) \<Rightarrow> gateway_identity option
    \<Rightarrow> string list \<Rightarrow> string option \<Rightarrow> gw_state \<Rightarrow> ((nat \<times> json) + (string \<times> string \<times> string \<times> string) list) \<times> gw_state" where
  "self_register_gateway X E S now post identity bootstrap url s =
    (case identity of None \<Rightarrow> (Inl (error_response 404 ''gateway identity is not configured''), s)
     | Some i \<Rightarrow> (let urls = registry_urls url bootstrap in
         if urls = [] then (Inl (error_response 400 ''registry_url is required or bootstrap registries must be configured''), s)
         else case signed_manifest_of X S now i of
           Inl e \<Rightarrow> (Inl (error_response 500 e), s)
         | Inr m \<Rightarrow> register_at E post m urls [] s))"

section \<open>Only an administrator approves\<close>

datatype registry_op = RegisterOp gw_env signed_manifest | ReviewOp gw_env "string result option" string review_request

fun registry_step :: "gw_externs \<Rightarrow> string option \<Rightarrow> registry_op \<Rightarrow> gw_state \<Rightarrow> gw_state" where
  "registry_step X token (RegisterOp E m) s = snd (register_gateway X E m s)"
| "registry_step X token (ReviewOp E header gateway_id body) s = snd (review_gateway E token header gateway_id body s)"

fun without_admin :: "string option \<Rightarrow> registry_op \<Rightarrow> bool" where
  "without_admin token (RegisterOp E m) = True"
| "without_admin token (ReviewOp E header gateway_id body) = (authorize_registry_admin token header \<noteq> None)"

interpretation rg: keyed_upsert reg_id registry_merge
  by unfold_locales (auto simp: registry_merge_def)

text \<open>The standing of a gateway: its status and tier, if it is registered.\<close>

definition standing :: "string \<Rightarrow> gdb \<Rightarrow> (string \<times> string) option" where
  "standing i d = map_option (\<lambda>r. (reg_status r, reg_discovery_tier r)) (row_of reg_id i (g_registry d))"

lemma register_gateway_standing:
  assumes "register_gateway X E m s = (answer, s')"
  shows "standing i (gs_db s') = standing i (gs_db s)
    \<or> standing i (gs_db s) = None \<and> i = man_gateway_id (sman_payload m) \<and> standing i (gs_db s') = Some (''pending'', ''community'') \<and> verify_signed_gateway_manifest X m = Inr ()"
proof (cases "verify_signed_gateway_manifest X m")
  case (Inl e)
  then show ?thesis using assms by (simp add: register_gateway_def)
next
  case (Inr u)
  obtain r d where up: "upsert_gateway_manifest (ge_now E) m (gs_db s) = (r, d)" by fastforce
  have d: "gs_db s' = d" using assms Inr up by (auto simp: register_gateway_def publish_event_def split: sum.splits)
  show ?thesis
  proof (cases "\<exists>e\<in>set (g_registry (gs_db s)). reg_id e \<noteq> man_gateway_id (sman_payload m) \<and> man_base_url (reg_manifest e) = man_base_url (sman_payload m)")
    case True
    then show ?thesis using up by (auto simp: d upsert_gateway_manifest_def Let_def)
  next
    case False
    let ?n = "\<lparr>reg_manifest = sman_payload m, reg_signature = sman_signature m, reg_status = ''pending'', reg_discovery_tier = ''community'',
      reg_review_reason = None, reg_reviewed_at = None, reg_reviewed_by = None, reg_created_at = ge_now E, reg_updated_at = ge_now E\<rparr>"
    have reg: "g_registry d = upsert reg_id registry_merge ?n (g_registry (gs_db s))" using up False by (auto simp: upsert_gateway_manifest_def Let_def)
    show ?thesis using Inr
      by (cases "row_of reg_id i (g_registry (gs_db s))")
        (auto simp: d standing_def reg rg.row_of_upsert_cases merged_def resolve_def registry_merge_def)
  qed
qed

lemma review_gateway_unauthorized: "authorize_registry_admin token header \<noteq> None \<Longrightarrow> snd (review_gateway E token header i body s) = s"
  by (auto simp: review_gateway_def split: option.splits)

lemma registry_run_standing:
  "list_all (without_admin token) ops \<Longrightarrow> standing i (gs_db (fold (registry_step X token) ops s)) = standing i (gs_db s)
     \<or> standing i (gs_db s) = None \<and> standing i (gs_db (fold (registry_step X token) ops s)) = Some (''pending'', ''community'')"
proof (induction ops arbitrary: s)
  case (Cons op ops)
  have "standing i (gs_db (registry_step X token op s)) = standing i (gs_db s)
    \<or> standing i (gs_db s) = None \<and> standing i (gs_db (registry_step X token op s)) = Some (''pending'', ''community'')"
  proof (cases op)
    case (RegisterOp E m)
    obtain answer s' where "register_gateway X E m s = (answer, s')" by fastforce
    then show ?thesis using register_gateway_standing [of X E m s answer s' i] by (auto simp: RegisterOp)
  next
    case (ReviewOp E header gateway_id body)
    then show ?thesis using Cons.prems by (simp add: review_gateway_unauthorized)
  qed
  then show ?case using Cons.IH [of "registry_step X token op s"] Cons.prems by auto
qed simp

lemma standing_listed:
  assumes "pk reg_id (g_registry d)" and "g \<in> set (list_public_gateways q d)"
  shows "\<exists>tier. standing (ren_gateway_id g) d = Some (''approved'', tier)"
proof -
  obtain r where r: "r \<in> set (g_registry d)" "reg_status r = ''approved''" "g = entry_of r"
    using assms(2) by (auto simp: list_public_gateways_def list_gateway_registry_entries_def null_or_def)
  then show ?thesis using row_of_pk [OF assms(1) r(1)] by (simp add: standing_def entry_of_def Let_def)
qed

lemma registry_step_pk: "without_admin token op \<Longrightarrow> pk reg_id (g_registry (gs_db s)) \<Longrightarrow> pk reg_id (g_registry (gs_db (registry_step X token op s)))"
proof (cases op)
  case (RegisterOp E m)
  assume "pk reg_id (g_registry (gs_db s))"
  moreover obtain r d where "upsert_gateway_manifest (ge_now E) m (gs_db s) = (r, d)" by fastforce
  moreover have "pk reg_id (g_registry d')" if "upsert_gateway_manifest (ge_now E) m (gs_db s) = (r', d')" for r' d'
    using that calculation(1) by (auto simp: upsert_gateway_manifest_def Let_def split: if_splits intro: rg.pk_upsert)
  ultimately show ?thesis by (auto simp: RegisterOp register_gateway_def publish_event_def split: sum.splits)
qed (simp add: review_gateway_unauthorized)

lemma registry_run_pk:
  "list_all (without_admin token) ops \<Longrightarrow> pk reg_id (g_registry (gs_db s)) \<Longrightarrow> pk reg_id (g_registry (gs_db (fold (registry_step X token) ops s)))"
  by (induction ops arbitrary: s) (simp_all add: registry_step_pk)


text \<open>C37. An approved entry can be taken over. A manifest is checked against the key it names itself: whoever registers one under
  the id of an approved gateway, with a key and an address of their own, replaces both, and the public registry goes on
  listing the entry as approved, now with the new key and address.\<close>

theorem approved_entry_taken_over:
  assumes "row_of reg_id (man_gateway_id (sman_payload m)) (g_registry (gs_db s)) = Some r" and "reg_status r = ''approved''"
    and "verify_signed_gateway_manifest X m = Inr ()"
    and "\<And>e. e \<in> set (g_registry (gs_db s)) \<Longrightarrow> man_base_url (reg_manifest e) \<noteq> man_base_url (sman_payload m)"
    and "register_gateway X E m s = (answer, s')"
  shows "fst answer = 201 \<and> (\<exists>g. get_public_gateway (man_gateway_id (sman_payload m)) (gs_db s') = Some g \<and> ren_status g = ''approved''
      \<and> ren_public_key g = man_public_key (sman_payload m) \<and> ren_base_url g = man_base_url (sman_payload m))"
proof -
  let ?n = "\<lparr>reg_manifest = sman_payload m, reg_signature = sman_signature m, reg_status = ''pending'', reg_discovery_tier = ''community'',
    reg_review_reason = None, reg_reviewed_at = None, reg_reviewed_by = None, reg_created_at = ge_now E, reg_updated_at = ge_now E\<rparr>"
  let ?t = "upsert reg_id registry_merge ?n (g_registry (gs_db s))"
  let ?r = "r\<lparr>reg_manifest := sman_payload m, reg_signature := sman_signature m, reg_updated_at := ge_now E\<rparr>"
  have row: "row_of reg_id (man_gateway_id (sman_payload m)) ?t = Some ?r"
    using assms(1) by (simp add: rg.row_of_upsert_cases merged_def resolve_def registry_merge_def)
  have "upsert_gateway_manifest (ge_now E) m (gs_db s) = (Inr ?r, (gs_db s)\<lparr>g_registry := ?t\<rparr>)"
    using assms(4) row by (auto simp: upsert_gateway_manifest_def Let_def or_err_def)
  then have "fst answer = 201 \<and> gs_db s' = (gs_db s)\<lparr>g_registry := ?t\<rparr>" using assms(3,5) by (auto simp: register_gateway_def publish_event_def)
  then show ?thesis using row assms(2) by (simp add: get_public_gateway_def entry_of_def Let_def)
qed

section \<open>Discovery\<close>

definition distinct_gateways :: "(string \<times> registry_entry) list \<Rightarrow> bool" where
  "distinct_gateways gs \<longleftrightarrow> distinct (map (\<lambda>(_, g). ren_gateway_id g) gs) \<and> distinct (map (\<lambda>(_, g). ren_base_url g) gs)"

lemma merge_discovered_ok:
  "distinct_gateways found \<Longrightarrow> (\<forall>(_, g)\<in>set found. gateway_matches_filters g q)
    \<Longrightarrow> distinct_gateways (merge_discovered q url gs found) \<and> prefix found (merge_discovered q url gs found)
      \<and> (\<forall>(_, g)\<in>set (merge_discovered q url gs found). gateway_matches_filters g q)"
proof (induction gs arbitrary: found)
  case (Cons g gs)
  let ?found = "if gateway_matches_filters g q \<and> \<not> list_ex (\<lambda>(_, f). ren_gateway_id f = ren_gateway_id g \<or> ren_base_url f = ren_base_url g) found
     then found @ [(normalized_registry_list_url url, g)] else found"
  have "distinct_gateways ?found" "prefix found ?found" "\<forall>(_, g)\<in>set ?found. gateway_matches_filters g q"
    using Cons.prems by (auto simp: distinct_gateways_def list_ex_iff)
  with Cons.IH [of ?found] show ?case by (auto intro: prefix_order.trans)
qed simp

lemma discover_all_ok:
  "distinct_gateways found \<Longrightarrow> (\<forall>(_, g)\<in>set found. gateway_matches_filters g q)
    \<Longrightarrow> distinct_gateways (discover_all fetch q urls found) \<and> prefix found (discover_all fetch q urls found)
      \<and> (\<forall>(_, g)\<in>set (discover_all fetch q urls found). gateway_matches_filters g q)"
proof (induction urls arbitrary: found)
  case (Cons url urls)
  let ?found = "case fetch (normalized_registry_list_url url) of Inl _ \<Rightarrow> found | Inr gs \<Rightarrow> merge_discovered q url gs found"
  have "distinct_gateways ?found \<and> prefix found ?found \<and> (\<forall>(_, g)\<in>set ?found. gateway_matches_filters g q)"
    using Cons.prems merge_discovered_ok [OF Cons.prems] by (auto split: sum.split)
  with Cons.IH [of ?found] show ?case by (auto intro: prefix_order.trans)
qed simp

text \<open>Discovery lists each gateway once and the local registry wins. Whatever other registries answer or fail to, no two
  entries of the answer share an id or an address, all match the filters of the query, and the list starts with the
  approved gateways of the local registry.\<close>

theorem discovery_distinct:
  assumes "pk reg_id (g_registry d)" and "pk (\<lambda>r. man_base_url (reg_manifest r)) (g_registry d)"
  shows "distinct (map (\<lambda>(_, g). ren_gateway_id g) (discovery_gateways fetch urls q d))
    \<and> distinct (map (\<lambda>(_, g). ren_base_url g) (discovery_gateways fetch urls q d))
    \<and> prefix (map (Pair ''local'') (list_public_gateways q d)) (discovery_gateways fetch urls q d)
    \<and> (\<forall>(_, g)\<in>set (discovery_gateways fetch urls q d). gateway_matches_filters g q)"
proof -
  let ?rs = "list_gateway_registry_entries (Some ''approved'') (rgq_tier q) (rgq_region q) (rgq_role q) d"
  have keys: "distinct (map f ?rs)" if "pk f (g_registry d)" for f :: "registry_row \<Rightarrow> string"
    using that by (auto simp: list_gateway_registry_entries_def pk_def distinct_map elim!: inj_on_subset)
  have "distinct_gateways (map (Pair ''local'') (list_public_gateways q d))"
    using keys [OF assms(1)] keys [OF assms(2)] by (simp add: distinct_gateways_def list_public_gateways_def entry_of_def Let_def comp_def)
  moreover have "\<forall>(_, g)\<in>set (map (Pair ''local'') (list_public_gateways q d)). gateway_matches_filters g q"
    by (auto simp: list_public_gateways_def list_gateway_registry_entries_def entry_of_def gateway_matches_filters_def Let_def split: option.splits)
  ultimately show ?thesis using discover_all_ok [of "map (Pair ''local'') (list_public_gateways q d)" q fetch urls]
    by (simp add: discovery_gateways_def distinct_gateways_def)
qed

section \<open>A manifest of one's own verifies\<close>

lemma not_blank_Some [simp]: "not_blank v = Some s \<longleftrightarrow> v = Some s \<and> \<not> blank s"
  by (auto simp: not_blank_def split: option.splits)

lemma normalized_list_nonempty: "defaults \<noteq> [] \<Longrightarrow> normalized_list vs defaults \<noteq> []"
  by (simp add: normalized_list_def Let_def) (simp flip: set_empty)

text \<open>What a gateway signs about itself every registry accepts. Under the laws of base64 and Ed25519, the manifest of an
  identity that the configuration yields passes the check of the registry, with its own id, key and roles, provided the
  configured address is more than slashes; and a configuration that lacks one of the four required values yields no
  identity.\<close>

theorem own_manifest_accepted:
  assumes "\<And>b. gx_b64_decode X (gx_b64_encode X b) = Inr b" and "\<And>b. length b = 32 \<Longrightarrow> \<not> blank (gx_b64_encode X b)"
    and "\<And>k. length k = 32 \<Longrightarrow> length (sg_public_key S k) = 32 \<and> gx_verifying_key X (sg_public_key S k)"
    and "\<And>k b. length k = 32 \<Longrightarrow> length (sg_sign S k b) = 64 \<and> gx_ed25519 X (sg_public_key S k) b (sg_sign S k b)"
    and "identity_from_config X c = Inr (Some i)" and "\<not> blank (gid_base_url i)" and "signed_manifest_of X S now i = Inr m"
  shows "verify_signed_gateway_manifest X m = Inr () \<and> gic_gateway_id c = Some (man_gateway_id (sman_payload m))
    \<and> gic_display_name c \<noteq> None \<and> gic_base_url c \<noteq> None \<and> gic_signing_key_b64 c \<noteq> None"
proof -
  obtain gateway_id display_name base_url key_b64 key where id:
    "gic_gateway_id c = Some gateway_id" "\<not> blank gateway_id" "gic_display_name c = Some display_name" "\<not> blank display_name"
    "gic_base_url c = Some base_url" "gic_signing_key_b64 c = Some key_b64" "decode_signing_key X key_b64 = Inr key"
    "gid_gateway_id i = gateway_id" "gid_display_name i = display_name" "gid_signing_key i = key"
    "gid_roles i = normalized_list (gic_roles c) [''ingest'', ''query'', ''federation'']"
    using assms(5) by (auto simp: identity_from_config_def and_then_Inr_iff split: if_splits)
  have key: "length key = 32" using id(7) by (auto simp: decode_signing_key_def and_then_def split: sum.splits if_splits)
  obtain bytes where m: "canonical_bytes X (manifest_json (sman_payload m)) = Inr bytes" "sman_signature m = gx_b64_encode X (sg_sign S key bytes)"
    "man_gateway_id (sman_payload m) = gateway_id" "man_display_name (sman_payload m) = display_name" "man_base_url (sman_payload m) = gid_base_url i"
    "man_public_key (sman_payload m) = gx_b64_encode X (sg_public_key S key)" "man_roles (sman_payload m) = gid_roles i"
    using assms(7) id by (auto simp: signed_manifest_of_def Let_def and_then_def split: sum.splits)
  have roles: "gid_roles i \<noteq> []" unfolding id(11) by (rule normalized_list_nonempty) simp
  have "verify_canonical_signature X (manifest_json (sman_payload m)) (sman_signature m) (man_public_key (sman_payload m)) l = Inr ()" for l
    using m(1,2,6) assms(1) assms(3) [OF key] assms(4) [OF key] by (simp add: verify_canonical_signature_def and_then_def with_context_def)
  then show ?thesis using id m roles assms(2) [of "sg_public_key S key"] assms(3) [OF key] assms(6) by (simp add: verify_signed_gateway_manifest_def Let_def)
qed

section \<open>Witnesses\<close>

definition sample_manifest :: "string \<Rightarrow> string \<Rightarrow> char \<Rightarrow> signed_manifest" where
  "sample_manifest gateway_id url c = \<lparr>sman_payload = \<lparr>man_generated_at = 1, man_gateway_id = gateway_id, man_display_name = ''gateway'', man_base_url = url,
     man_public_key = replicate 32 c, man_region = None, man_operator_did = None, man_roles = [''query''], man_supported_endpoints = [],
     man_federation_peers = [], man_allows_public_ingest = False\<rparr>, sman_signature = replicate 64 c\<rparr>"

definition sample_registry_row :: "string \<Rightarrow> string \<Rightarrow> registry_row" where
  "sample_registry_row gateway_id url = \<lparr>reg_manifest = sman_payload (sample_manifest gateway_id url (CHR ''a'')),
     reg_signature = replicate 64 (CHR ''a''), reg_status = ''approved'', reg_discovery_tier = ''verified'', reg_review_reason = None,
     reg_reviewed_at = Some 1, reg_reviewed_by = None, reg_created_at = 0, reg_updated_at = 1\<rparr>"

definition sample_registry :: gw_state where
  "sample_registry = \<lparr>gs_db = empty_gdb\<lparr>g_registry := [sample_registry_row ''g'' ''https://g'']\<rparr>, gs_hub = new_hub, gs_artifacts = [], gs_bus = [], gs_wakes = 0\<rparr>"

definition sample_registry_env :: gw_env where
  "sample_registry_env = \<lparr>ge_now = 5, ge_now_text = ''now'', ge_pins = Inr [], ge_sync = False, ge_network = False, ge_nats = True,
     ge_write_artifact = (\<lambda>_. Inr ()), ge_fetch_snapshot = (\<lambda>_. Inl ''unreachable'')\<rparr>"

definition sample_query :: registry_query where
  "sample_query = \<lparr>rgq_region = None, rgq_tier = None, rgq_role = None\<rparr>"

lemma sample_registry_keys:
  "pk reg_id (g_registry (gs_db sample_registry))" "pk (\<lambda>r. man_base_url (reg_manifest r)) (g_registry (gs_db sample_registry))"
  by (simp_all add: sample_registry_def pk_def)


theorem approved_entry_taken_over_witness:
  "\<exists>answer s'. register_gateway sample_gx sample_registry_env (sample_manifest ''g'' ''https://evil'' (CHR ''b'')) sample_registry = (answer, s')
    \<and> fst answer = 201 \<and> (\<exists>g. get_public_gateway ''g'' (gs_db s') = Some g \<and> ren_status g = ''approved'' \<and> ren_base_url g = ''https://evil'')"
proof -
  let ?m = "sample_manifest ''g'' ''https://evil'' (CHR ''b'')"
  obtain answer s' where reg: "register_gateway sample_gx sample_registry_env ?m sample_registry = (answer, s')" by fastforce
  have m: "man_gateway_id (sman_payload ?m) = ''g''" "man_base_url (sman_payload ?m) = ''https://evil''" by (simp_all add: sample_manifest_def)
  have row: "row_of reg_id ''g'' (g_registry (gs_db sample_registry)) = Some (sample_registry_row ''g'' ''https://g'')"
    "reg_status (sample_registry_row ''g'' ''https://g'') = ''approved''"
    and url: "\<And>e. e \<in> set (g_registry (gs_db sample_registry)) \<Longrightarrow> man_base_url (reg_manifest e) \<noteq> ''https://evil''"
    by (simp_all add: sample_registry_def row_of_def sample_registry_row_def sample_manifest_def)
  have "verify_signed_gateway_manifest sample_gx ?m = Inr ()" by code_simp
  from approved_entry_taken_over [where m = ?m and X = sample_gx, unfolded m, OF row this url reg] reg show ?thesis by blast
qed

theorem discovery_distinct_witness:
  "let answer = discovery_gateways (\<lambda>url. Inr [entry_of (sample_registry_row ''x'' ''https://g''), entry_of (sample_registry_row ''y'' ''https://y''),
        entry_of (sample_registry_row ''y'' ''https://z'')]) [''https://r''] sample_query (gs_db sample_registry)
   in map (\<lambda>(_, g). ren_gateway_id g) answer = [''g'', ''y''] \<and> distinct (map (\<lambda>(_, g). ren_base_url g) answer)"
proof -
  have "map (\<lambda>(_, g). ren_gateway_id g) (discovery_gateways (\<lambda>url. Inr [entry_of (sample_registry_row ''x'' ''https://g''), entry_of (sample_registry_row ''y'' ''https://y''),
        entry_of (sample_registry_row ''y'' ''https://z'')]) [''https://r''] sample_query (gs_db sample_registry)) = [''g'', ''y'']" by code_simp
  then show ?thesis using discovery_distinct [OF sample_registry_keys] by (simp add: Let_def)
qed

definition sample_signer :: signer where
  "sample_signer = \<lparr>sg_public_key = (\<lambda>k. k), sg_sign = (\<lambda>k b. k @ k)\<rparr>"

text \<open>Of \<open>base64\<close> the theorem needs that keys of 32 bytes are written as text that is not blank.\<close>

definition sample_b64 :: gw_externs where
  "sample_b64 = sample_gx\<lparr>gx_b64_encode := (\<lambda>b. CHR ''x'' # b), gx_b64_decode := (\<lambda>s. case s of [] \<Rightarrow> Inl ''invalid length'' | _ # b \<Rightarrow> Inr b)\<rparr>"

definition sample_config :: identity_config where
  "sample_config = \<lparr>gic_gateway_id = Some ''g'', gic_display_name = Some ''gateway'', gic_base_url = Some ''https://g/'', gic_region = None, gic_operator_did = None,
     gic_roles = [], gic_supported_endpoints = [], gic_federation_mode = None, gic_federation_peers = [], gic_allows_public_ingest = True,
     gic_signing_key_b64 = Some (CHR ''x'' # replicate 32 (CHR ''k''))\<rparr>"

theorem own_manifest_accepted_witness:
  "\<exists>i m. identity_from_config sample_b64 sample_config = Inr (Some i) \<and> signed_manifest_of sample_b64 sample_signer 7 i = Inr m
    \<and> verify_signed_gateway_manifest sample_b64 m = Inr () \<and> man_gateway_id (sman_payload m) = ''g''"
proof -
  have "list_ex (\<lambda>r. case r of Inr (Some i) \<Rightarrow> \<not> blank (gid_base_url i) \<and> is_ok (signed_manifest_of sample_b64 sample_signer 7 i) | _ \<Rightarrow> False)
      [identity_from_config sample_b64 sample_config]" by code_simp
  then obtain i where i: "identity_from_config sample_b64 sample_config = Inr (Some i)" "\<not> blank (gid_base_url i)"
    "is_ok (signed_manifest_of sample_b64 sample_signer 7 i)" by (auto split: sum.splits option.splits)
  then obtain m where m: "signed_manifest_of sample_b64 sample_signer 7 i = Inr m" by (auto simp: is_ok_def split: sum.splits)
  have b64: "gx_b64_decode sample_b64 (gx_b64_encode sample_b64 b) = Inr b" "\<not> blank (gx_b64_encode sample_b64 b)" for b
    by (simp_all add: sample_b64_def blank.simps [of "_ # _"] ws_encodings_def starts_with_def)
  have keys: "length (sg_public_key sample_signer k) = 32 \<and> gx_verifying_key sample_b64 (sg_public_key sample_signer k)"
    "length (sg_sign sample_signer k b) = 64 \<and> gx_ed25519 sample_b64 (sg_public_key sample_signer k) b (sg_sign sample_signer k b)" if "length k = 32" for k b
    using that by (simp_all add: sample_signer_def sample_b64_def sample_gx_def)
  have "gic_gateway_id sample_config = Some ''g''" by (simp add: sample_config_def)
  then show ?thesis using own_manifest_accepted [OF b64 keys i(1,2) m] i(1) m by auto
qed

end
