(* ===== verification/Gw_Trust.thy ===== *)
theory Gw_Trust
  imports Gw_Handlers Gw_Registry
begin

text \<open>
  What the gateway stores is signed. The invariant \<open>gw_ok\<close> says of every table that holds signed data which signatures
  its rows carry; every operation that writes keeps it, so it holds in every state the gateway can reach.
\<close>

section \<open>The invariant\<close>

text \<open>A world event under one of the authorities that were pinned when it was checked.\<close>

definition world_ok :: "gw_externs \<Rightarrow> authorities set \<Rightarrow> json \<Rightarrow> bool" where
  "world_ok X A payload \<longleftrightarrow> (\<exists>a\<in>A. validate_world_event_with_authorities X payload a = Inr ())"

text \<open>A row of the board: what claims to be an announcement is one of a pinned authority, and only such a row places an event
  in a space, namely the one that was signed.\<close>

definition board_ok :: "gw_externs \<Rightarrow> authorities set \<Rightarrow> json \<Rightarrow> bool" where
  "board_ok X A v \<longleftrightarrow> (case board_announcement v of
     None \<Rightarrow> jget ''world_event'' v = None
   | Some a \<Rightarrow> world_ok X A a \<and> (\<exists>w. gx_parse_world_event X (jindex ''content'' a) = Inr w \<and> jget ''world_event'' v = Some (gx_world_event_json X w)))"

definition snapshot_ok :: "gw_externs \<Rightarrow> snapshot_row \<Rightarrow> bool" where
  "snapshot_ok X r \<longleftrightarrow> (\<exists>s. verify_signed_snapshot X s None = Inr () \<and> snr_node_id r = snap_node_id (ssn_payload s)
     \<and> snr_signer_agent_did r = ssn_signer_agent_did s \<and> snr_public_key r = snap_public_key (ssn_payload s)
     \<and> snr_payload r = snapshot_json X (ssn_payload s) \<and> snr_signature r = ssn_signature s)"

definition projection_ok :: "gw_externs \<Rightarrow> authorities set \<Rightarrow> projection_row \<Rightarrow> bool" where
  "projection_ok X A r \<longleftrightarrow> (prj_data_kind r = gx_kind_name X BoardActivity \<longrightarrow> board_ok X A (prj_payload r))"

definition event_ok :: "gw_externs \<Rightarrow> authorities set \<Rightarrow> ui_event_row \<Rightarrow> bool" where
  "event_ok X A r \<longleftrightarrow> (uer_data_kind r = gx_kind_name X BoardActivity \<longrightarrow> board_ok X A (uer_payload r))
     \<and> (uer_data_kind r = gx_kind_name X WorldEvent \<longrightarrow> world_ok X A (uer_payload r))"

definition presence_ok :: "gw_externs \<Rightarrow> gateway_space_presence \<Rightarrow> bool" where
  "presence_ok X r \<longleftrightarrow> validate_presence X (gsp_payload r) = Inr () \<and> gsp_network_id r = spr_network_id (ssp_record (gsp_payload r))
     \<and> gsp_space_id r = spr_space_id (ssp_record (gsp_payload r)) \<and> gsp_agent_did r = spr_agent_did (ssp_record (gsp_payload r))
     \<and> gsp_seq r = unat (spr_seq (ssp_record (gsp_payload r)))"

definition node_ok :: "space_node_row \<Rightarrow> bool" where
  "node_ok r \<longleftrightarrow> validate_node_presence (gsn_payload r) (gsn_node_id r) (gsn_agent_did r) = Inr ()
     \<and> gsn_last_heartbeat_ms r = npr_last_heartbeat_ms (gsn_payload r)"

definition gw_ok :: "gw_externs \<Rightarrow> authorities set \<Rightarrow> gdb \<Rightarrow> bool" where
  "gw_ok X A d \<longleftrightarrow> (\<forall>r\<in>set (g_snapshots d). snapshot_ok X r) \<and> (\<forall>r\<in>set (g_projections d). projection_ok X A r)
     \<and> (\<forall>r\<in>set (g_events d). event_ok X A r) \<and> (\<forall>r\<in>set (g_space_presence d). presence_ok X r)
     \<and> (\<forall>r\<in>set (g_space_events d). world_ok X A (gse_payload r)) \<and> (\<forall>r\<in>set (g_space_nodes d). node_ok r)"

text \<open>The names serde gives to the kinds: distinct, and those that the snapshot path writes out.\<close>

definition serde_names :: "gw_externs \<Rightarrow> bool" where
  "serde_names X \<longleftrightarrow> inj (gx_kind_name X) \<and> gx_kind_name X WorldEvent = ''world_event''
     \<and> gx_kind_name X SpacePresence = ''space_presence'' \<and> gx_kind_name X Presence = ''presence''"

definition pinned :: "authorities set \<Rightarrow> authorities result \<Rightarrow> bool" where
  "pinned A pins \<longleftrightarrow> (\<forall>a. pins = Inr a \<longrightarrow> a \<in> A)"

section \<open>Statements keep it\<close>

lemma upsert_all_rows:
  "(\<forall>r\<in>set t. Q r) \<Longrightarrow> Q n \<Longrightarrow> (\<And>e e'. merge n e = Some e' \<Longrightarrow> Q e') \<Longrightarrow> \<forall>r\<in>set (upsert key merge n t). Q r"
  by (auto simp: upsert_def resolve_def split: option.splits)

lemma gw_ok_simps [simp]:
  "gw_ok X A (d\<lparr>g_sources := a\<rparr>) = gw_ok X A d" "gw_ok X A (d\<lparr>g_event_seq := b\<rparr>) = gw_ok X A d"
  "gw_ok X A (d\<lparr>g_outbox := c\<rparr>) = gw_ok X A d" "gw_ok X A (d\<lparr>g_outbox_seq := b\<rparr>) = gw_ok X A d"
  "gw_ok X A (d\<lparr>g_audit := e\<rparr>) = gw_ok X A d" "gw_ok X A (d\<lparr>g_registry := f\<rparr>) = gw_ok X A d"
  by (simp_all add: gw_ok_def)

lemma gw_ok_other [simp]:
  "gw_ok X A (insert_outbox now k c p d) = gw_ok X A d" "gw_ok X A (insert_audit_record r d) = gw_ok X A d"
  "gw_ok X A (update_source_sync_status now i st err d) = gw_ok X A d" "gw_ok X A (rollback d d') = gw_ok X A d"
  by (simp_all add: insert_outbox_def insert_audit_record_def update_source_sync_status_def rollback_def Let_def gw_ok_def)

lemma verify_signed_snapshot_any: "verify_signed_snapshot X s expected = Inr () \<Longrightarrow> verify_signed_snapshot X s None = Inr ()"
  by (auto simp: verify_signed_snapshot_def check_expected_signer_def and_then_def Let_def split: sum.splits if_splits option.splits)

lemma upsert_snapshot_ok:
  assumes "gw_ok X A d" and "verify_signed_snapshot X s expected = Inr ()" and "upsert_snapshot_inner X now (snapshot_record X s sid) announce d = (res, d')"
  shows "gw_ok X A d'"
proof -
  have n: "snapshot_ok X (snapshot_row_of now (snapshot_record X s sid) g)" for g
    unfolding snapshot_ok_def using verify_signed_snapshot_any [OF assms(2)]
    by (intro exI [of _ s]) (simp add: snapshot_row_of_def snapshot_record_def Let_def)
  have "snapshot_ok X e'" if "snapshot_merge (snapshot_row_of now (snapshot_record X s sid) g) e = Some e'" for g e e'
    using that n [of g] by (auto simp: snapshot_merge_def snapshot_ok_def split: if_splits)
  then have "\<forall>r\<in>set (upsert snr_node_id snapshot_merge (snapshot_row_of now (snapshot_record X s sid) g) (g_snapshots d)). snapshot_ok X r" for g
    using assms(1) n [of g] by (intro upsert_all_rows) (auto simp: gw_ok_def)
  then show ?thesis using assms(1,3) by (auto simp: upsert_snapshot_inner_def Let_def gw_ok_def insert_outbox_def split: sum.splits if_splits)
qed

lemma upsert_projection_ok:
  assumes "gw_ok X A d" and "upr_data_kind r = gx_kind_name X BoardActivity \<Longrightarrow> board_ok X A (upr_payload r)"
    and "upsert_projection_row X now r d = (res, d')"
  shows "gw_ok X A d'"
proof -
  have n: "projection_ok X A (projection_row_of now r g)" for g
    using assms(2) by (simp add: projection_ok_def projection_row_of_def)
  have "projection_ok X A e'" if "projection_merge (projection_row_of now r g) e = Some e'" for g e e'
    using that n [of g] by (auto simp: projection_merge_def projection_ok_def split: if_splits)
  then have "\<forall>x\<in>set (upsert prj_key projection_merge (projection_row_of now r g) (g_projections d)). projection_ok X A x" for g
    using assms(1) n [of g] by (intro upsert_all_rows) (auto simp: gw_ok_def)
  then show ?thesis using assms(1,3) by (auto simp: upsert_projection_row_def gw_ok_def split: sum.splits if_splits)
qed

lemma insert_event_row_ok:
  assumes "gw_ok X A d" and "nue_data_kind r = gx_kind_name X BoardActivity \<Longrightarrow> board_ok X A (nue_payload r)"
    and "nue_data_kind r = gx_kind_name X WorldEvent \<Longrightarrow> world_ok X A (nue_payload r)" and "insert_event_row now g r d = (res, d')"
  shows "gw_ok X A d'"
  using assms by (auto simp: insert_event_row_def Let_def gw_ok_def event_ok_def ui_row_of_def split: if_splits)

lemma insert_ui_record_ok:
  assumes "gw_ok X A d" and "nue_data_kind r = gx_kind_name X BoardActivity \<Longrightarrow> board_ok X A (nue_payload r)"
    and "nue_data_kind r = gx_kind_name X WorldEvent \<Longrightarrow> world_ok X A (nue_payload r)" and "insert_ui_record X now r d = (res, d')"
  shows "gw_ok X A d'"
  using assms insert_event_row_ok [OF assms(1), of "r\<lparr>nue_visibility := ''public'', nue_provisional := False\<rparr>" now _ res d']
  by (auto simp: insert_ui_record_def split: sum.splits)

lemma insert_ui_event_inner_ok:
  assumes "gw_ok X A d" and "nue_data_kind r = gx_kind_name X BoardActivity \<Longrightarrow> board_ok X A (nue_payload r)"
    and "nue_data_kind r = gx_kind_name X WorldEvent \<Longrightarrow> world_ok X A (nue_payload r)" and "insert_ui_event_inner X now r outbox d = (res, d')"
  shows "gw_ok X A d'"
proof (cases "generated_instant X (nue_generated_at r)")
  case (Inl e)
  then show ?thesis using assms(1,4) by (simp add: insert_ui_event_inner_def)
next
  case (Inr g)
  obtain res1 d1 where one: "insert_event_row now g r d = (res1, d1)" by fastforce
  note insert_event_row_ok [OF assms(1-3) one]
  then show ?thesis using assms(4) Inr one
    by (auto simp: insert_ui_event_inner_def split: sum.splits option.splits prod.splits)
qed

lemma upsert_presence_ok:
  assumes "gw_ok X A d" and "validate_presence X p = Inr ()" and "upsert_presence p node sid d = (res, d')"
  shows "gw_ok X A d'"
proof -
  have n: "presence_ok X (space_row_of p node sid)" using assms(2) by (simp add: presence_ok_def space_row_of_def Let_def)
  then have "\<forall>r\<in>set (upsert gsp_key presence_merge (space_row_of p node sid) (g_space_presence d)). presence_ok X r"
    using assms(1) by (intro upsert_all_rows) (auto simp: gw_ok_def presence_merge_def split: if_splits)
  then show ?thesis using assms(1,3) by (auto simp: upsert_presence_def Let_def gw_ok_def)
qed

lemma upsert_node_presence_ok:
  assumes "gw_ok X A d" and "validate_node_presence p (npr_node_id p) (npr_agent_did p) = Inr ()" and "upsert_node_presence p sid d = (res, d')"
  shows "gw_ok X A d'"
proof -
  let ?n = "\<lparr>gsn_node_id = npr_node_id p, gsn_agent_did = npr_agent_did p, gsn_last_heartbeat_ms = npr_last_heartbeat_ms p, gsn_source_id = sid, gsn_payload = p\<rparr>"
  have "\<forall>r\<in>set (upsert gsn_key node_presence_merge ?n (g_space_nodes d)). node_ok r"
    using assms(1,2) by (intro upsert_all_rows) (auto simp: gw_ok_def node_ok_def node_presence_merge_def split: if_splits)
  then show ?thesis using assms(1,3) by (auto simp: upsert_node_presence_def Let_def gw_ok_def)
qed

lemma upsert_world_event_ok:
  assumes "gw_ok X A d" and "world_ok X A payload" and "upsert_world_event X payload node sid d = (res, d')"
  shows "gw_ok X A d'"
  using assms by (auto simp: upsert_world_event_def Let_def upsert_do_nothing gw_ok_def split: sum.splits option.splits if_splits)

section \<open>Boards and spaces keep it\<close>

lemma map_of_obj_insert_other: "k' \<noteq> k \<Longrightarrow> map_of (obj_insert k v o') k' = map_of o' k'"
  by (induction k v o' rule: obj_insert.induct) auto

lemma jget_obj_insert: "jget k (JObj (obj_insert k v o')) = Some v" "k' \<noteq> k \<Longrightarrow> jget k' (JObj (obj_insert k v o')) = jget k' (JObj o')"
  by (simp_all add: jget_def map_of_obj_insert_same map_of_obj_insert_other)

lemma map_of_remove: "map_of (filter (\<lambda>(k', _). k' \<noteq> k) o') k'' = (if k'' = k then None else map_of o' k'')"
  by (induction o') auto

lemma jget_obj_remove: "jget k (JObj (obj_remove k o')) = None" "k' \<noteq> k \<Longrightarrow> jget k' (JObj (obj_remove k o')) = jget k' (JObj o')"
  by (simp_all add: jget_def obj_remove_def map_of_remove)

lemma board_announcement_cong:
  "jget ''content'' v = jget ''content'' w \<Longrightarrow> jget ''global_kind'' v = jget ''global_kind'' w \<Longrightarrow> board_announcement v = board_announcement w"
  by (simp add: board_announcement_def)

lemma board_ok_cong:
  "jget ''content'' v = jget ''content'' w \<Longrightarrow> jget ''global_kind'' v = jget ''global_kind'' w \<Longrightarrow> jget ''world_event'' v = jget ''world_event'' w
     \<Longrightarrow> board_ok X A v = board_ok X A w"
  by (simp add: board_ok_def board_announcement_cong [of v w] split: option.split)

lemma trusted_with_authorities_ok:
  assumes "trusted_board_message_with_authorities X v a = Inr w" and "board_announcement v \<noteq> None \<Longrightarrow> a \<in> A"
  shows "board_ok X A w"
proof (cases v)
  case (JObj o')
  show ?thesis
  proof (cases "board_announcement v")
    case None
    then have w: "w = JObj (obj_remove ''world_event'' o')" using assms(1) by (simp add: trusted_board_message_with_authorities_def JObj)
    have "board_announcement w = None" using None by (simp add: w JObj board_announcement_def jget_obj_remove)
    then show ?thesis by (simp add: board_ok_def w jget_obj_remove)
  next
    case (Some ann)
    then obtain world where w: "w = JObj (obj_insert ''world_event'' (gx_world_event_json X world) o')"
      "validate_world_event_with_authorities X ann a = Inr ()" "gx_parse_world_event X (jindex ''content'' ann) = Inr world"
      using assms(1) by (auto simp: trusted_board_message_with_authorities_def JObj and_then_def split: sum.splits)
    have "board_announcement w = Some ann" using Some by (simp add: w(1) JObj board_announcement_def jget_obj_insert)
    then show ?thesis using w assms(2) Some by (auto simp: board_ok_def world_ok_def jget_obj_insert)
  qed
qed (use assms(1) in \<open>auto simp: trusted_board_message_with_authorities_def board_ok_def board_announcement_def jget_def\<close>)

lemma trusted_board_message_ok:
  assumes "trusted_board_message X pins v = Inr w" and "pinned A pins"
  shows "board_ok X A w"
  using assms trusted_with_authorities_ok [of X v _ w A]
  by (auto simp: trusted_board_message_def pinned_def and_then_def split: if_splits sum.splits)

lemma trusted_board_messages_ok: "pinned A pins \<Longrightarrow> w \<in> set (trusted_board_messages X pins vs) \<Longrightarrow> board_ok X A w"
  by (induction vs) (auto simp: trusted_board_messages_def map_filter_simps trusted_board_message_ok split: sum.splits)

lemma attach_generated_at_ok: "board_ok X A (attach_generated_at v g) = board_ok X A v"
proof (cases v)
  case (JObj o')
  have "jget k (JObj (or_insert ''snapshot_generated_at'' (JInt g) o')) = jget k (JObj o')" if "k \<noteq> ''snapshot_generated_at''" for k
    using that by (simp add: or_insert_def jget_obj_insert split: option.split)
  then show ?thesis by (intro board_ok_cong) (simp_all add: attach_generated_at_def JObj)
qed (simp_all add: attach_generated_at_def)

lemma validate_world_ok: "validate_world_event X pins payload = Inr () \<Longrightarrow> pinned A pins \<Longrightarrow> world_ok X A payload"
  by (auto simp: validate_world_event_def world_ok_def pinned_def and_then_def split: sum.splits)

lemma kind_names [simp]:
  "serde_names X \<Longrightarrow> gx_kind_name X k = gx_kind_name X k' \<longleftrightarrow> k = k'"
  "serde_names X \<Longrightarrow> ''world_event'' = gx_kind_name X k \<longleftrightarrow> k = WorldEvent"
  "serde_names X \<Longrightarrow> gx_kind_name X k = ''world_event'' \<longleftrightarrow> k = WorldEvent"
  "serde_names X \<Longrightarrow> gx_kind_name X k = ''space_presence'' \<longleftrightarrow> k = SpacePresence"
  "serde_names X \<Longrightarrow> gx_kind_name X k = ''presence'' \<longleftrightarrow> k = Presence"
  "serde_names X \<Longrightarrow> ''space_presence'' = gx_kind_name X k \<longleftrightarrow> k = SpacePresence"
  "serde_names X \<Longrightarrow> ''presence'' = gx_kind_name X k \<longleftrightarrow> k = Presence"
  unfolding serde_names_def by (metis injD)+

lemma insert_snapshot_ui_record_ok:
  assumes "gw_ok X A d" and "serde_names X" and "kind \<in> {''space_presence'', ''presence'', ''world_event''}" and "kind = ''world_event'' \<Longrightarrow> world_ok X A payload"
    and "insert_snapshot_ui_record X now src i kind ek g payload d = (res, d')"
  shows "gw_ok X A d'"
  using assms(3,4) by (intro insert_ui_record_ok [OF assms(1) _ _ assms(5) [unfolded insert_snapshot_ui_record_def]]) (auto simp: assms(2))

lemma collect_rows_ok:
  assumes "\<And>x d d' r. x \<in> set xs \<Longrightarrow> gw_ok X A d \<Longrightarrow> f x d = (r, d') \<Longrightarrow> gw_ok X A d'" and "gw_ok X A d" and "collect_rows f xs rows d = (res, d')"
  shows "gw_ok X A d'"
  using assms
proof (induction xs arbitrary: rows d)
  case (Cons x xs)
  obtain r d1 where one: "f x d = (r, d1)" by fastforce
  have "gw_ok X A d1" using Cons.prems(1) [OF _ Cons.prems(2) one] by simp
  then have "gw_ok X A d'" if "collect_rows f xs rows' d1 = (res, d')" for rows'
    using Cons.IH [OF _ _ that] Cons.prems(1) by (meson list.set_intros(2))
  then show ?case using Cons.prems(3) \<open>gw_ok X A d1\<close> one by (auto split: sum.splits)
qed simp

lemma snapshot_presence_ok:
  assumes "gw_ok X A d" and "serde_names X" and "snapshot_presence X now src p d = (res, d')"
  shows "gw_ok X A d'"
proof -
  obtain b d1 where u: "upsert_presence p (sso_node_id src) (sso_source_id src) d = (b, d1)" by fastforce
  have "gw_ok X A d1" if "validate_presence X p = Inr ()" using upsert_presence_ok [OF assms(1) that u] .
  then show ?thesis using assms u
    by (auto simp: snapshot_presence_def split: sum.splits if_splits intro: insert_snapshot_ui_record_ok [where kind = "''space_presence''"])
qed

lemma snapshot_node_presence_ok:
  assumes "gw_ok X A d" and "serde_names X" and "snapshot_node_presence X now src p d = (res, d')"
  shows "gw_ok X A d'"
proof -
  obtain b d1 where u: "upsert_node_presence p (sso_source_id src) d = (b, d1)" by fastforce
  have "gw_ok X A d1" if "validate_node_presence p (sso_node_id src) (sso_signer_agent_did src) = Inr ()"
    using that by (intro upsert_node_presence_ok [OF assms(1) _ u]) (auto simp: validate_node_presence_def split: if_splits)
  then show ?thesis using assms u
    by (auto simp: snapshot_node_presence_def split: sum.splits if_splits intro: insert_snapshot_ui_record_ok [where kind = "''presence''"])
qed

lemma snapshot_world_event_ok:
  assumes "gw_ok X A d" and "serde_names X" and "pinned A pins" and "snapshot_world_event X pins now src payload d = (res, d')"
  shows "gw_ok X A d'"
proof -
  obtain b d1 where u: "upsert_world_event X payload (sso_node_id src) (sso_source_id src) d = (b, d1)" by fastforce
  have "gw_ok X A d1 \<and> world_ok X A payload" if "validate_world_event X pins payload = Inr ()"
    using upsert_world_event_ok [OF assms(1) validate_world_ok [OF that assms(3)] u] validate_world_ok [OF that assms(3)] by simp
  then show ?thesis using assms u
    by (auto simp: snapshot_world_event_def split: sum.splits bool.splits intro: insert_snapshot_ui_record_ok [where kind = "''world_event''"])
qed

lemma persist_snapshot_space_ok:
  assumes "gw_ok X A d" and "serde_names X" and "pinned A pins" and "persist_snapshot_space X pins now sid snapshot signer d = (res, d')"
  shows "gw_ok X A d'"
proof -
  let ?src = "\<lparr>sso_source_id = sid, sso_node_id = snap_node_id snapshot, sso_signer_agent_did = signer\<rparr>"
  obtain r1 d1 where one: "collect_rows (snapshot_presence X now ?src) (snap_space_presences snapshot) [] d = (r1, d1)" by fastforce
  have ok1: "gw_ok X A d1" by (rule collect_rows_ok [OF _ assms(1) one]) (blast intro: snapshot_presence_ok assms(2))
  show ?thesis
  proof (cases r1)
    case (Inl e)
    then show ?thesis using assms(1,4) one by (auto simp: persist_snapshot_space_def Let_def)
  next
    case r1: (Inr rows1)
    obtain r2 d2 where two: "collect_rows (snapshot_node_presence X now ?src) (case snap_node_presence snapshot of None \<Rightarrow> [] | Some p \<Rightarrow> [p]) rows1 d1 = (r2, d2)"
      by fastforce
    have ok2: "gw_ok X A d2" by (rule collect_rows_ok [OF _ ok1 two]) (blast intro: snapshot_node_presence_ok assms(2))
    show ?thesis
    proof (cases r2)
      case (Inl e)
      then show ?thesis using assms(1,4) one two r1 by (auto simp: persist_snapshot_space_def Let_def)
    next
      case r2: (Inr rows2)
      obtain r3 d3 where three: "collect_rows (snapshot_world_event X pins now ?src) (snap_world_events snapshot) rows2 d2 = (r3, d3)" by fastforce
      have "gw_ok X A d3" by (rule collect_rows_ok [OF _ ok2 three]) (blast intro: snapshot_world_event_ok assms(2,3))
      then show ?thesis using assms(1,4) one two three r1 r2 by (auto simp: persist_snapshot_space_def Let_def split: sum.splits)
    qed
  qed
qed

section \<open>Ingest keeps it\<close>

lemma upsert_all_ok:
  "gw_ok X A d \<Longrightarrow> (\<And>r. r \<in> set rs \<Longrightarrow> upr_data_kind r = gx_kind_name X BoardActivity \<Longrightarrow> board_ok X A (upr_payload r))
     \<Longrightarrow> upsert_all X now rs d = (res, d') \<Longrightarrow> gw_ok X A d'"
proof (induction rs arbitrary: d)
  case (Cons r rs)
  obtain r1 d1 where one: "upsert_projection_row X now r d = (r1, d1)" by fastforce
  have "gw_ok X A d1" using upsert_projection_ok [OF Cons.prems(1) _ one] Cons.prems(2) by simp
  then show ?case using Cons.IH [of d1] Cons.prems(2,3) one by (auto split: sum.splits)
qed simp

lemma seeds_ok:
  "pinned A pins \<Longrightarrow> seed \<in> set (snapshot_projection_seeds X pins sid s) \<Longrightarrow> psd_data_kind seed = BoardActivity \<Longrightarrow> board_ok X A (psd_payload seed)"
  by (auto simp: snapshot_projection_seeds_def Let_def fanout_array_def singleton_seed_def attach_generated_at_ok intro: trusted_board_messages_ok)

lemma persist_snapshot_read_models_ok:
  assumes "gw_ok X A d" and "serde_names X" and "pinned A pins" and "persist_snapshot_read_models X pins now sid snapshot signer d = (res, d')"
  shows "gw_ok X A d'"
proof -
  obtain r1 d1 where one: "persist_snapshot_space X pins now sid snapshot signer d = (r1, d1)" by fastforce
  have ok1: "gw_ok X A d1" by (rule persist_snapshot_space_ok [OF assms(1-3) one])
  obtain r2 d2 where two: "upsert_all X now (map (seed_record X) (snapshot_projection_seeds X pins sid snapshot)) d1 = (r2, d2)" by fastforce
  have "gw_ok X A d2" by (rule upsert_all_ok [OF ok1 _ two]) (auto simp: seed_record_def assms(2) intro: seeds_ok [OF assms(3)])
  then show ?thesis using assms(4) one two ok1 by (auto simp: persist_snapshot_read_models_def split: sum.splits)
qed

lemma publish_db [simp]:
  "gs_db (publish_ui_event X e s) = gs_db s" "gs_db (publish_event E subject s) = gs_db s" "gs_db (wake_sync b s) = gs_db s"
  by (simp_all add: publish_ui_event_def publish_event_def wake_sync_def)

lemma publish_rows_db: "publish_rows X rs s = (res, s') \<Longrightarrow> gs_db s' = gs_db s"
  by (induction rs arbitrary: s) (auto split: sum.splits)

lemma persist_snapshot_artifact_db: "persist_snapshot_artifact E snapshot s = (res, s') \<Longrightarrow> gs_db s' = gs_db s"
  by (auto simp: persist_snapshot_artifact_def split: if_splits sum.splits)

lemma apply_snapshot_ok:
  assumes "gw_ok X A (gs_db s)" and "serde_names X" and "pinned A (ge_pins E)" and "verify_signed_snapshot X snapshot expected = Inr ()"
    and "apply_snapshot X E snapshot sid announce s = (res, s')"
  shows "gw_ok X A (gs_db s')"
proof -
  obtain r1 d1 where one: "upsert_snapshot_inner X (ge_now E) (snapshot_record X snapshot sid) announce (gs_db s) = (r1, d1)" by fastforce
  have ok1: "gw_ok X A d1" by (rule upsert_snapshot_ok [OF assms(1,4) one])
  obtain r2 d2 where two: "persist_snapshot_read_models X (ge_pins E) (ge_now E) sid (ssn_payload snapshot) (ssn_signer_agent_did snapshot) d1 = (r2, d2)" by fastforce
  have ok2: "gw_ok X A d2" by (rule persist_snapshot_read_models_ok [OF ok1 assms(2,3) two])
  show ?thesis using assms(5) one two ok1 ok2
    by (auto simp: apply_snapshot_def split: sum.splits bool.splits prod.splits dest: publish_rows_db)
qed

lemma ingest_with_options_ok:
  assumes "gw_ok X A (gs_db s)" and "serde_names X" and "pinned A (ge_pins E)"
    and "ingest_signed_snapshot_with_options X E snapshot sid expected announce s = (res, s')"
  shows "gw_ok X A (gs_db s')"
proof (cases "verify_signed_snapshot X snapshot expected")
  case (Inl e)
  then show ?thesis using assms(1,4) by (simp add: ingest_signed_snapshot_with_options_def)
next
  case (Inr u)
  obtain r1 s1 where one: "persist_snapshot_artifact E snapshot s = (r1, s1)" by fastforce
  have db: "gs_db s1 = gs_db s" by (rule persist_snapshot_artifact_db [OF one])
  have "gw_ok X A (gs_db s1)" "verify_signed_snapshot X snapshot expected = Inr ()" using assms(1) db Inr by simp_all
  from apply_snapshot_ok [OF this(1) assms(2,3) this(2), of sid "announce \<and> ge_sync E" res s'] assms Inr one db show ?thesis
    by (auto simp: ingest_signed_snapshot_with_options_def split: sum.splits)
qed

lemma try_backfill_gap_ok:
  assumes "gw_ok X A (gs_db s)" and "serde_names X" and "pinned A (ge_pins E)"
  shows "gw_ok X A (gs_db (try_backfill_gap X E source node expected a b s))"
proof (cases source)
  case (Some src)
  let ?url = "case src_snapshot_export_url src of Some u \<Rightarrow> u | None \<Rightarrow> src_export_url src"
  obtain r1 s1 where one: "(case ge_fetch_snapshot E ?url of Inl e \<Rightarrow> (Inl e, s)
      | Inr snapshot \<Rightarrow> ingest_signed_snapshot X E snapshot (Some (src_id src)) expected s) = (r1, s1)" by fastforce
  have "gw_ok X A (gs_db s1)" using one assms ingest_with_options_ok [OF assms]
    by (auto simp: ingest_signed_snapshot_def split: sum.splits)
  then show ?thesis unfolding try_backfill_gap_def Some option.case Let_def one prod.case by simp
qed (simp add: assms try_backfill_gap_def)

lemma merged_none:
  assumes "merged_payload_object payload ks = None" and "k \<notin> set ks"
  shows "jget k payload = None"
proof (cases payload)
  case (JObj top)
  define f where "f = (\<lambda>(k, v) o'. if k \<notin> set ks \<and> map_of o' k = (None :: json option) then obj_insert k v o' else o')"
  have mono: "fold f es o' = [] \<Longrightarrow> o' = [] \<and> fst ` set es \<subseteq> set ks" for es o'
  proof (induction es arbitrary: o')
    case (Cons e es)
    obtain k' v where e: "e = (k', v)" by (cases e)
    have "f e o' = []" "fst ` set es \<subseteq> set ks" using Cons by auto
    moreover have "obj_insert k' v o'' \<noteq> []" for o'' by (cases "(k', v, o'')" rule: obj_insert.cases) auto
    ultimately show ?case by (auto simp: e f_def split: if_splits)
  qed simp
  have "fold f top (fold (\<lambda>(k, v). obj_insert k v) (case List.map_filter (\<lambda>k. Option.bind (jget k payload) as_object) ks of n # _ \<Rightarrow> n | [] \<Rightarrow> []) []) = []"
    using assms(1) unfolding merged_payload_object_def Let_def JObj f_def by (auto split: if_splits)
  from mono [OF this] have "fst ` set top \<subseteq> set ks" by simp
  then have "map_of top k = None" using assms(2) by (auto simp: map_of_eq_None_iff)
  then show ?thesis by (simp add: jget_def JObj)
qed (simp_all add: jget_def)

lemma ui_payload_ok:
  assumes "trusted_projection X E event = Inr projection" and "pinned A (ge_pins E)"
  shows "nev_data_kind (sev_payload event) = BoardActivity \<Longrightarrow> board_ok X A (ui_payload event projection)"
    and "projection = Some (BoardActivity, v) \<Longrightarrow> board_ok X A v"
proof -
  let ?p = "sev_payload event"
  show v: "projection = Some (BoardActivity, v) \<Longrightarrow> board_ok X A v" for v
    using assms by (auto simp: trusted_projection_def and_then_def split: option.splits sum.splits if_splits intro: trusted_board_message_ok)
  assume kind: "nev_data_kind ?p = BoardActivity"
  show "board_ok X A (ui_payload event projection)"
  proof (cases "normalized_board_activity_payload ?p")
    case None
    then have "jget k (nev_payload ?p) = None" if "k \<noteq> ''board_message''" for k
      using merged_none [of "nev_payload ?p" "[''board_message'']" k] that by (auto simp: normalized_board_activity_payload_def)
    moreover have "projection = None" using assms(1) None kind by (simp add: trusted_projection_def event_projection_def Let_def)
    ultimately show ?thesis by (simp add: ui_payload_def board_ok_def board_announcement_def)
  next
    case (Some w)
    then obtain v' where "projection = Some (BoardActivity, v')"
      using assms(1) kind by (auto simp: trusted_projection_def event_projection_def Let_def and_then_def split: sum.splits)
    then show ?thesis using v kind by (simp add: ui_payload_def)
  qed
qed

section \<open>Events keep it\<close>

lemma persist_event_ok:
  assumes "gw_ok X A d" and "serde_names X" and "pinned A pins" and "validate_event X pins event = Inr ()"
    and "persist_event X now event sid announce d = (res, d')"
  shows "gw_ok X A d'"
proof -
  let ?p = "sev_payload event"
  obtain b d1 where up: "upsert_space X event sid d = (b, d1)" by fastforce
  have world: "world_ok X A (nev_payload ?p)" if "nev_data_kind ?p = WorldEvent"
    using assms(4) that by (auto simp: validate_event_def Let_def intro: validate_world_ok [OF _ assms(3)] split: if_splits)
  have presence: "validate_presence X p = Inr ()" if "nev_data_kind ?p = SpacePresence" "gx_parse_presence X (nev_payload ?p) = Inr p" for p
    using assms(4) that by (auto simp: validate_event_def Let_def split: if_splits)
  have ok1: "gw_ok X A d1" using up world presence assms(1)
    by (auto simp: upsert_space_def Let_def split: data_kind.splits sum.splits prod.splits intro: upsert_presence_ok upsert_world_event_ok)
  have kind: "is_space_event event" if "b = Inr True"
    using up that by (auto simp: upsert_space_def is_space_event_def Let_def split: data_kind.splits)
  obtain r2 d2 where ins: "insert_ui_record X now (space_event_record X event sid) d1 = (r2, d2)" by fastforce
  have ok2: "gw_ok X A d2" if "b = Inr True"
    using kind [OF that] world
    by (intro insert_ui_record_ok [OF ok1 _ _ ins]) (auto simp: space_event_record_def Let_def assms(2) is_space_event_def)
  then show ?thesis using assms(1,5) up ins
    by (auto simp: persist_event_def split: sum.splits bool.splits option.splits)
qed

lemma insert_node_event_ok:
  assumes "gw_ok X A d" and "serde_names X" and "pinned A (ge_pins E)" and "validate_event X (ge_pins E) event = Inr ()"
    and "trusted_projection X E event = Inr projection" and "insert_node_event X E event sid prov announce projection d = (res, d')"
  shows "gw_ok X A d'"
proof (cases "is_space_event event")
  case True
  then show ?thesis using assms(6) by (simp add: insert_node_event_def persist_event_ok [OF assms(1-4)])
next
  case False
  let ?r = "event_record X event sid prov (ui_payload event projection)"
  have "nue_data_kind ?r = gx_kind_name X BoardActivity \<Longrightarrow> board_ok X A (nue_payload ?r)"
    using ui_payload_ok(1) [OF assms(5,3)] by (simp add: event_record_def Let_def assms(2))
  moreover have "nue_data_kind ?r = gx_kind_name X WorldEvent \<Longrightarrow> world_ok X A (nue_payload ?r)"
    using False by (simp add: event_record_def Let_def assms(2) is_space_event_def)
  ultimately show ?thesis using assms(6) False by (auto simp: insert_node_event_def intro: insert_ui_event_inner_ok [OF assms(1)])
qed

lemma materialize_ok:
  assumes "gw_ok X A d" and "serde_names X" and "pinned A (ge_pins E)" and "trusted_projection X E event = Inr projection"
    and "materialize_event_projection X now event sid prov projection d = (res, d')"
  shows "gw_ok X A d'"
proof (cases projection)
  case (Some kv)
  obtain kind v where kv: "kv = (kind, v)" by fastforce
  have "board_ok X A v" if "kind = BoardActivity" using ui_payload_ok(2) [OF assms(4,3)] Some kv that by simp
  then show ?thesis using assms(5) unfolding Some kv materialize_event_projection_def option.case prod.case
    by (elim upsert_projection_ok [OF assms(1), rotated]) (simp add: event_projection_record_def Let_def assms(2))
qed (use assms(1,5) in \<open>simp add: materialize_event_projection_def\<close>)

lemma persist_durable_ok:
  assumes "gw_ok X A (gs_db s)" and "serde_names X" and "pinned A (ge_pins E)" and "validate_event X (ge_pins E) event = Inr ()"
    and "persist_durable X E event sid prov announce s = (res, s')"
  shows "gw_ok X A (gs_db s')"
proof (cases "trusted_projection X E event")
  case (Inl e)
  then show ?thesis using assms(1,5) by (simp add: persist_durable_def)
next
  case (Inr projection)
  obtain r1 d1 where one: "insert_node_event X E event sid prov announce projection (gs_db s) = (r1, d1)" by fastforce
  have ok1: "gw_ok X A d1" by (rule insert_node_event_ok [OF assms(1-4) Inr one])
  obtain r2 d2 where two: "materialize_event_projection X (ge_now E) event sid prov projection d1 = (r2, d2)" by fastforce
  have ok2: "gw_ok X A d2" by (rule materialize_ok [OF ok1 assms(2,3) Inr two])
  show ?thesis using assms(5) Inr one two ok1 ok2
    by (auto simp: persist_durable_def split: sum.splits option.splits if_splits prod.splits simp del: publish_rows.simps dest: publish_rows_db)
qed

lemma persist_ephemeral_ok:
  assumes "gw_ok X A (gs_db s)" and "validate_event X pins event = Inr ()" and "persist_ephemeral X event sid s = (res, s')"
  shows "gw_ok X A (gs_db s')"
proof -
  let ?p = "sev_payload event"
  have "gw_ok X A d" if "nev_data_kind ?p = Presence" "nev_event_kind ?p = ''node.presence.heartbeat''"
    "gx_parse_node_presence X (nev_payload ?p) = Inr presence" "persist_node_presence presence sid (gs_db s) = (r, d)" for presence r d
  proof -
    obtain b d1 where u: "upsert_node_presence presence sid (gs_db s) = (b, d1)" by fastforce
    have "validate_node_presence presence (npr_node_id presence) (npr_agent_did presence) = Inr ()"
      using assms(2) that(1-3) by (auto simp: validate_event_def validate_node_presence_def Let_def split: if_splits)
    from upsert_node_presence_ok [OF assms(1) this u] show ?thesis using that(4) u by (simp add: persist_node_presence_def)
  qed
  then show ?thesis using assms(1,3)
    by (auto simp: persist_ephemeral_def Let_def split: if_splits sum.splits prod.splits)
qed

lemma persist_event_with_options_ok:
  assumes "gw_ok X A (gs_db s)" and "serde_names X" and "pinned A (ge_pins E)"
    and "persist_signed_node_event_with_options X E event sid expected announce s = (res, s')"
  shows "gw_ok X A (gs_db s')"
proof (cases "validate_event X (ge_pins E) event")
  case (Inl e)
  then show ?thesis using assms(1,4) by (auto simp: persist_signed_node_event_with_options_def Let_def split: if_splits sum.splits)
next
  case (Inr u)
  have before: "gw_ok X A (gs_db (case q of (Some l, Some c) \<Rightarrow> if succ_i64 l < c then try_backfill_gap X E source node e (succ_i64 l) m s else s | _ \<Rightarrow> s))"
    for q source node e m using assms(1) try_backfill_gap_ok [OF assms(1-3)] by (auto split: option.split prod.split)
  have valid: "validate_event X (ge_pins E) event = Inr ()" using Inr by simp
  note persist_ephemeral_ok [OF before valid] persist_durable_ok [OF before assms(2,3) valid]
  then show ?thesis using assms(1,4) Inr
    by (auto simp: persist_signed_node_event_with_options_def Let_def simp del: split_paired_All split: if_split_asm sum.split_asm)
qed

section \<open>Peers and pulls keep it\<close>

lemma fetch_and_ingest_ok:
  assumes "gw_ok X A (gs_db s)" and "serde_names X" and "pinned A (ge_pins E)" and "fetch_and_ingest_snapshot X E G node signer g contact s = (res, s')"
  shows "gw_ok X A (gs_db s')"
  using assms(1,4) ingest_with_options_ok [OF assms(1-3)]
  by (auto simp: fetch_and_ingest_snapshot_def Let_def split: if_splits sum.splits prod.splits)

lemma pulled_kind [simp]: "upr_data_kind (pulled_record X kind node sid g payload) = gx_kind_name X kind"
  by (simp add: pulled_record_def)

lemma collect_activity_ok:
  "gw_ok X A d \<Longrightarrow> serde_names X \<Longrightarrow> collect_activity X now client source base rows d = (res, d') \<Longrightarrow> gw_ok X A d'"
proof (induction rows arbitrary: d)
  case (Cons row rows)
  have one: "gw_ok X A d1" if "upsert_all X now (map (activity_record X source row g) ms) d = (r, d1)" for g ms r d1
    by (rule upsert_all_ok [OF Cons.prems(1) _ that]) (auto simp: activity_record_def Cons.prems(2))
  show ?case using Cons.prems Cons.IH [OF _ Cons.prems(2)]
    by (auto split: option.splits sum.splits prod.splits dest!: one)
qed simp

lemma collect_wattswarm_ok:
  assumes "gw_ok X A d" and "serde_names X" and "collect_wattswarm_read_models X C now client source d = (res, d')"
  shows "gw_ok X A d'"
proof -
  have net: "gw_ok X A d1" if "upsert_projection_row X now (network_record X sid n) d = (r, d1)" for sid n r d1
    by (rule upsert_projection_ok [OF assms(1) _ that]) (simp add: network_record_def assms(2))
  have sub: "gw_ok X A (snd (collect_topic_subscription_read_models X now client source base network d1))" if "gw_ok X A d1" for base network d1
    unfolding collect_topic_subscription_read_models_def
    by (auto split: sum.split simp: that intro!: upsert_all_ok [OF that _ prod.collapse [symmetric]]) (simp add: subscription_record_def assms(2))
  have act: "gw_ok X A d'" if "gw_ok X A d2" "collect_topic_activity_read_models X C now client source base d2 = (res, d')" for base d2
    using collect_activity_ok [OF that(1) assms(2)] that(2) by (simp add: collect_topic_activity_read_models_def)
  show ?thesis using assms(1,3)
    by (auto simp: collect_wattswarm_read_models_def split: option.splits sum.splits prod.splits dest!: net intro: act [OF sub])
qed

lemma mark_source_ok [simp]: "gw_ok X A (gs_db (mark_source E source st err s)) = gw_ok X A (gs_db s)"
  by (simp add: mark_source_def)

lemma sync_source_ok:
  assumes "gw_ok X A (gs_db s)" and "serde_names X" and "pinned A (ge_pins E)" and "sync_source X C E iroh client known source s = (res, s')"
  shows "gw_ok X A (gs_db s')"
proof (cases "fetch_snapshot_for_source E iroh source (find (\<lambda>r. snr_source_id r = Some (src_id source)) known)")
  case (Inl e)
  then show ?thesis using assms(1,4) by (auto simp: sync_source_def Let_def)
next
  case (Inr fetched)
  obtain r1 s1 where one: "ingest_signed_snapshot X E fetched (Some (src_id source)) None s = (r1, s1)" by fastforce
  have ok1: "gw_ok X A (gs_db s1)" using ingest_with_options_ok [OF assms(1-3)] one by (simp add: ingest_signed_snapshot_def)
  obtain r2 d where two: "collect_wattswarm_read_models X C (ge_now E) client source (gs_db s1) = (r2, d)" by fastforce
  have "gw_ok X A d" by (rule collect_wattswarm_ok [OF ok1 assms(2) two])
  then show ?thesis using assms(1,4) Inr one two ok1 by (auto simp: sync_source_def Let_def split: sum.splits)
qed

lemma sync_sources_ok:
  "gw_ok X A (gs_db s) \<Longrightarrow> serde_names X \<Longrightarrow> pinned A (ge_pins E) \<Longrightarrow> gw_ok X A (gs_db (snd (sync_sources X C E iroh client known sources results s)))"
proof (induction sources arbitrary: results s)
  case (Cons source sources)
  obtain r1 s1 where one: "sync_source X C E iroh client known source s = (r1, s1)" by fastforce
  show ?case using Cons.IH [OF sync_source_ok [OF Cons.prems one] Cons.prems(2,3)] sync_source_ok [OF Cons.prems one]
    by (simp add: one split: sum.split)
qed simp

section \<open>Every run keeps it\<close>

text \<open>What the gateway does between two moments, call by call: pushes over HTTP, registrations and reviews, pulls from
  registered nodes, gossip from peers and the drain of the outbox. Each call has its own environment; the authorities it finds
  pinned belong to \<open>A\<close>. While a gossip message waits, other calls run.\<close>

inductive gw_run :: "gw_externs \<Rightarrow> authorities set \<Rightarrow> gw_state \<Rightarrow> gw_state \<Rightarrow> bool" for X A where
  idle: "gw_run X A s s"
| push_snapshot: "gw_run X A s s1 \<Longrightarrow> pinned A (ge_pins E) \<Longrightarrow> gw_run X A s (snd (ingest_snapshot X E snapshot s1))"
| push_event: "gw_run X A s s1 \<Longrightarrow> pinned A (ge_pins E) \<Longrightarrow> gw_run X A s (snd (ingest_node_event X E event s1))"
| node: "gw_run X A s s1 \<Longrightarrow> gw_run X A s (snd (register_node E sid body s1))"
| pull: "gw_run X A s s1 \<Longrightarrow> pinned A (ge_pins E) \<Longrightarrow> gw_run X A s (snd (sync_nodes X C E iroh client source s1))"
| registry: "gw_run X A s s1 \<Longrightarrow> gw_run X A s (registry_step X token op s1)"
| gossip: "gw_run X A s s1 \<Longrightarrow> pinned A (ge_pins E) \<Longrightarrow> (\<And>t. gw_run X A t (gg_wait G t))
    \<Longrightarrow> gw_run X A s (snd (handle_gossip X E G origin payload s1))"
| outbox: "gw_run X A s s1 \<Longrightarrow> drain_p2p_outbox P now (gs_db s1, sent) = (res, d, sent') \<Longrightarrow> gw_run X A s (s1\<lparr>gs_db := d\<rparr>)"

lemma ingest_snapshot_ok:
  assumes "gw_ok X A (gs_db s)" and "serde_names X" and "pinned A (ge_pins E)"
  shows "gw_ok X A (gs_db (snd (ingest_snapshot X E snapshot s)))"
  using assms(1) ingest_with_options_ok [OF assms]
  by (auto simp: ingest_snapshot_def ingest_signed_snapshot_def Let_def split: sum.split prod.split)

lemma ingest_node_event_ok:
  assumes "gw_ok X A (gs_db s)" and "serde_names X" and "pinned A (ge_pins E)"
  shows "gw_ok X A (gs_db (snd (ingest_node_event X E event s)))"
proof -
  obtain r s1 where one: "persist_signed_node_event_with_options X E event None None True s = (r, s1)" by fastforce
  show ?thesis using persist_event_with_options_ok [OF assms one] by (simp add: ingest_node_event_def Let_def one split: sum.split option.split)
qed

lemma register_node_ok: "gw_ok X A (gs_db s) \<Longrightarrow> gw_ok X A (gs_db (snd (register_node E sid body s)))"
  by (auto simp: register_node_def insert_node_source_def split: option.split bool.split)

lemma registry_step_ok: "gw_ok X A (gs_db s) \<Longrightarrow> gw_ok X A (gs_db (registry_step X token op s))"
  by (cases op) (auto simp: register_gateway_def upsert_gateway_manifest_def review_gateway_def review_gateway_manifest_def Let_def split: sum.split option.split prod.split)

lemma handle_gossip_ok:
  assumes "gw_ok X A (gs_db s)" and "gw_ok X A (gs_db (gg_wait G s))" and "serde_names X" and "pinned A (ge_pins E)"
  shows "gw_ok X A (gs_db (snd (handle_gossip X E G origin payload s)))"
  using assms(1,2) fetch_and_ingest_ok [OF assms(2-4) prod.collapse [symmetric]] persist_event_with_options_ok [OF assms(2-4)]
  by (auto simp: handle_gossip_def Let_def split: sum.split sync_message.split prod.split)

lemma drain_rows_ok: "gw_ok X A (fst (snd (drain_rows P now contact rows (d, sent)))) = gw_ok X A d"
  by (induction rows arbitrary: d sent) (simp_all add: ack_p2p_outbox_def release_p2p_outbox_def Let_def split: sum.split)

lemma drain_ok:
  assumes "gw_ok X A d" and "drain_p2p_outbox P now (d, sent) = (res, d', sent')"
  shows "gw_ok X A d'"
proof -
  obtain rows d1 where claim: "claim_p2p_outbox now P2P_OUTBOX_BATCH_SIZE d = (rows, d1)" by fastforce
  have "gw_ok X A d1" using claim assms(1) by (auto simp: claim_p2p_outbox_def Let_def)
  moreover have "gw_ok X A d' = gw_ok X A d1" if "drain_rows P now contact rows (d1, sent) = (res, d', sent')" for contact
    using drain_rows_ok [of X A P now contact rows d1 sent] that by simp
  ultimately show ?thesis using assms(2) unfolding drain_p2p_outbox_def prod.case claim by (auto split: sum.splits)
qed

lemma sync_nodes_ok:
  "gw_ok X A (gs_db s) \<Longrightarrow> serde_names X \<Longrightarrow> pinned A (ge_pins E) \<Longrightarrow> gw_ok X A (gs_db (snd (sync_nodes X C E iroh client source s)))"
  by (simp add: sync_nodes_def sync_sources_ok split: sum.split)

lemma gw_run_ok: "gw_run X A s s' \<Longrightarrow> serde_names X \<Longrightarrow> gw_ok X A (gs_db s) \<Longrightarrow> gw_ok X A (gs_db s')"
  by (induction rule: gw_run.induct)
    (simp_all add: ingest_snapshot_ok ingest_node_event_ok register_node_ok sync_nodes_ok registry_step_ok handle_gossip_ok drain_ok)

end
