(* ===== verification/Gw_Promises.thy ===== *)
theory Gw_Promises
  imports Gw_Trust
begin

text \<open>
  What the gateway promises about the data it stores and passes on, and where its paths differ: the invariant of signed data
  over every run, and three paths on which a check of one path is missing from another.
\<close>

section \<open>Stored data is signed\<close>


section \<open>Samples\<close>

definition sample_public_snapshot :: "string \<Rightarrow> string \<Rightarrow> int \<Rightarrow> public_client_snapshot" where
  "sample_public_snapshot node key g = \<lparr>snap_generated_at = g, snap_node_id = node, snap_agent_identity = None, snap_public_id = None,
     snap_public_key = key, snap_network_name = None, snap_network_org_name = None, snap_network_status = JNull, snap_nodes = None,
     snap_peers = [], snap_operator = JNull, snap_rpc_logs = [], snap_public_blocks = [], snap_public_topics = [],
     snap_public_topic_messages = [], snap_public_board_messages = [], snap_space_presences = [], snap_node_presence = None,
     snap_world_events = [], snap_swarm_task_activity = JNull, snap_tasks = [], snap_organizations = [], snap_leaderboard = []\<rparr>"

definition sample_signed_snapshot :: "string \<Rightarrow> string \<Rightarrow> int \<Rightarrow> signed_snapshot" where
  "sample_signed_snapshot node key g = \<lparr>ssn_payload = sample_public_snapshot node key g, ssn_signature = key @ key, ssn_signer_agent_did = ''did:key:'' @ key\<rparr>"

definition sample_env :: gw_env where
  "sample_env = \<lparr>ge_now = 5, ge_now_text = ''now'', ge_pins = Inr [], ge_sync = True, ge_network = True, ge_nats = False,
     ge_write_artifact = (\<lambda>_. Inr ()), ge_fetch_snapshot = (\<lambda>_. Inl ''unreachable'')\<rparr>"

definition sample_start :: gw_state where
  "sample_start = \<lparr>gs_db = empty_gdb, gs_hub = new_hub, gs_artifacts = [], gs_bus = [], gs_wakes = 0\<rparr>"

lemma sample_kinds_all: "set sample_kinds = UNIV"
proof -
  have "k \<in> set sample_kinds" for k by (cases k) (simp_all add: sample_kinds_def)
  then show ?thesis by blast
qed

lemma sample_serde_names: "serde_names sample_gx"
proof -
  have "distinct (map sample_kind_name sample_kinds)" by code_simp
  then have "inj sample_kind_name" by (simp add: distinct_map sample_kinds_all)
  then show ?thesis by (simp add: serde_names_def sample_gx_def)
qed

definition sample_key :: "nat \<Rightarrow> string" where
  "sample_key i = replicate 32 (char_of (97 + i))"

lemma sample_generated [simp]: "generated_instant sample_gx 1 = Inr 1000000" "generated_instant sample_gx 2 = Inr 2000000"
  using f64_round_nat [of 1] f64_round_nat [of 2] by (simp_all add: generated_instant_def sample_gx_def)

lemma sample_verified: "verify_signed_snapshot sample_gx (sample_signed_snapshot ''n'' (sample_key 0) g) None = Inr ()"
  by code_simp

lemma sample_push: "map snr_node_id (g_snapshots (gs_db (snd (ingest_snapshot sample_gx sample_env (sample_signed_snapshot ''n'' (sample_key 0) 1) sample_start)))) = [''n'']"
  by code_simp


section \<open>A pinned signer binds only what is pushed\<close>

lemma own_signer_expected: "verify_signed_snapshot X snapshot None = Inr () \<Longrightarrow> verify_signed_snapshot X snapshot (Some (ssn_signer_agent_did snapshot)) = Inr ()"
  by (auto simp: verify_signed_snapshot_def check_expected_signer_def and_then_def Let_def with_context_def split: sum.splits if_splits)

text \<open>C33. The operator's pin on a source does not reach the gossip path. Where a registered source pins a signer for a node, or
  is suspended, a snapshot of that node signed by someone else is refused when it is pushed over HTTP, and nothing changes.
  The same snapshot, announced by any peer that signs it for itself and serves it, is ingested under that very source, as if
  it had no pin.\<close>

theorem gossip_ignores_pinned_signer:
  assumes "find_node_source_for_identity (snap_node_id (ssn_payload snapshot)) (ssn_signer_agent_did snapshot) (gs_db s) = Some source"
    and "src_status source = ''suspended'' \<or> verify_signed_snapshot X snapshot (src_expected_signer source) \<noteq> Inr ()"
    and "verify_signed_snapshot X snapshot None = Inr ()" and "gg_local_peer_id G \<noteq> None"
    and "gg_fetch G contact (snap_node_id (ssn_payload snapshot)) = Inr snapshot"
  shows "(\<exists>code msg. 400 \<le> code \<and> ingest_snapshot X E snapshot s = (error_response code msg, s))
    \<and> fetch_and_ingest_snapshot X E G (snap_node_id (ssn_payload snapshot)) (ssn_signer_agent_did snapshot)
        (snap_generated_at (ssn_payload snapshot)) contact s
      = (case persist_snapshot_artifact E snapshot s of (Inl e, s1) \<Rightarrow> (Inl e, s1)
         | (Inr _, s1) \<Rightarrow> (case apply_snapshot X E snapshot (Some (src_id source)) False s1 of (Inl e, s2) \<Rightarrow> (Inl e, s2) | (Inr _, s2) \<Rightarrow> (Inr (), s2)))"
proof
  show "\<exists>code msg. 400 \<le> code \<and> ingest_snapshot X E snapshot s = (error_response code msg, s)"
  proof (cases "src_status source = ''active''")
    case True
    then obtain e where "verify_signed_snapshot X snapshot (src_expected_signer source) = Inl e"
      using assms(2) by (cases "verify_signed_snapshot X snapshot (src_expected_signer source)") auto
    then have "ingest_snapshot X E snapshot s = (error_response 400 e, s)"
      using assms(1) True by (simp add: ingest_snapshot_def ingest_signed_snapshot_def ingest_signed_snapshot_with_options_def Let_def)
    moreover have "400 \<le> (400 :: nat)" by simp
    ultimately show ?thesis by blast
  next
    case False
    then have "ingest_snapshot X E snapshot s = (error_response 409 ''source is not active for push ingest'', s)"
      using assms(1) by (simp add: ingest_snapshot_def Let_def)
    moreover have "400 \<le> (409 :: nat)" by simp
    ultimately show ?thesis by blast
  qed
qed (use assms own_signer_expected [OF assms(3)] in
  \<open>auto simp: fetch_and_ingest_snapshot_def ingest_signed_snapshot_with_options_def Let_def split: prod.split sum.split\<close>)

definition sample_pinned_source :: source_row where
  "sample_pinned_source = \<lparr>src_id = ''s'', src_name = ''node'', src_export_url = ''u'', src_snapshot_export_url = None, src_events_export_url = None,
     src_ui_base_url = None, src_sync_grpc_endpoint = None, src_region = None, src_expected_signer = Some (''did:key:'' @ sample_key 1),
     src_expected_node_id = Some ''n'', src_status = ''active'', src_created_at = 0, src_updated_at = 0, src_last_sync_at = None,
     src_last_sync_status = None, src_last_error = None, src_capabilities = None, src_contact = None\<rparr>"

definition sample_pinned :: gw_state where
  "sample_pinned = sample_start\<lparr>gs_db := empty_gdb\<lparr>g_sources := [sample_pinned_source]\<rparr>\<rparr>"

definition sample_contact :: contact_material where
  "sample_contact = \<lparr>ct_transport = ''iroh_direct'', ct_peer_id = ''p'', ct_route = ''iroh_direct'', ct_endpoint_id = Some ''p'', ct_extra = JNull\<rparr>"

definition sample_gossip :: "signed_snapshot \<Rightarrow> gossip_env" where
  "sample_gossip snapshot = \<lparr>gg_json_string = (\<lambda>b. Inr ''type''), gg_message_type = (\<lambda>b. Inr Snapshot_Lane), gg_header = (\<lambda>b. Inr Snapshot_Lane),
     gg_parse = (\<lambda>b. Inr (SnapshotAnnounceV1 ''p'' ''n'' (ssn_signer_agent_did snapshot) (snap_generated_at (ssn_payload snapshot)) sample_contact)),
     gg_local_peer_id = Some ''q'', gg_iroh_direct = ''iroh_direct'', gg_admit = (\<lambda>p. True), gg_wait = (\<lambda>s. s), gg_fetch = (\<lambda>c n. Inr snapshot)\<rparr>"

theorem gossip_ignores_pinned_signer_witness:
  "let snapshot = sample_signed_snapshot ''n'' (sample_key 0) 1; G = sample_gossip snapshot;
       s' = snd (fetch_and_ingest_snapshot sample_gx sample_env G ''n'' (''did:key:'' @ sample_key 0) 1 sample_contact sample_pinned)
   in (\<exists>code msg. 400 \<le> code \<and> ingest_snapshot sample_gx sample_env snapshot sample_pinned = (error_response code msg, sample_pinned))
    \<and> map (\<lambda>r. (snr_node_id r, snr_source_id r, snr_signer_agent_did r)) (g_snapshots (gs_db s')) = [(''n'', Some ''s'', ''did:key:'' @ sample_key 0)]"
proof -
  let ?n = "sample_signed_snapshot ''n'' (sample_key 0) 1"
  have src: "find_node_source_for_identity (snap_node_id (ssn_payload ?n)) (ssn_signer_agent_did ?n) (gs_db sample_pinned) = Some sample_pinned_source"
    by code_simp
  have pin: "verify_signed_snapshot sample_gx ?n (src_expected_signer sample_pinned_source) \<noteq> Inr ()" by code_simp
  have G: "gg_local_peer_id (sample_gossip ?n) \<noteq> None" "gg_fetch (sample_gossip ?n) sample_contact (snap_node_id (ssn_payload ?n)) = Inr ?n"
    by (simp_all add: sample_gossip_def)
  have n: "snap_node_id (ssn_payload ?n) = ''n''" "ssn_signer_agent_did ?n = ''did:key:'' @ sample_key 0" "snap_generated_at (ssn_payload ?n) = 1"
    by (simp_all add: sample_signed_snapshot_def sample_public_snapshot_def)
  note * = gossip_ignores_pinned_signer [where E = sample_env, OF src disjI2 [OF pin] sample_verified G]
  have "map (\<lambda>r. (snr_node_id r, snr_source_id r, snr_signer_agent_did r)) (g_snapshots (gs_db (snd
     (case persist_snapshot_artifact sample_env ?n sample_pinned of (Inl e, s1) \<Rightarrow> (Inl e, s1)
      | (Inr _, s1) \<Rightarrow> (case apply_snapshot sample_gx sample_env ?n (Some (src_id sample_pinned_source)) False s1 of (Inl e, s2) \<Rightarrow> (Inl e, s2)
        | (Inr _, s2) \<Rightarrow> (Inr (), s2)))))) = [(''n'', Some ''s'', ''did:key:'' @ sample_key 0)]" by code_simp
  then show ?thesis using * unfolding n Let_def by simp
qed

section \<open>A replayed snapshot takes the artifact's place\<close>

lemma find_node_source_exists: "source_exists d (map_option src_id (find_node_source_for_identity node signer d))"
proof -
  have "r \<in> set (g_sources d)" if "find_node_source_for_identity node signer d = Some r" for r
  proof -
    have "r \<in> set (sort_key (source_rank signer node) (sort_key src_created_at
        (filter (\<lambda>r. src_expected_signer r = Some signer \<or> src_expected_node_id r = Some node) (g_sources d))))"
      using that unfolding find_node_source_for_identity_def by (auto split: list.splits simp del: set_sort)
    then show ?thesis by simp
  qed
  then show ?thesis by (auto simp: source_exists_def split: option.split)
qed

lemma upsert_snapshot_stale:
  assumes "pk snr_node_id (g_snapshots d)" and "row_of snr_node_id (usr_node_id r) (g_snapshots d) = Some newer" and "source_exists d (usr_source_id r)"
    and "generated_instant X (usr_generated_at r) = Inr t" and "t < snr_generated_at newer"
  shows "upsert_snapshot_inner X now r announce d = (Inr False, d)"
proof -
  let ?n = "snapshot_row_of now r t"
  have only: "e = newer" if "e \<in> set (g_snapshots d)" "snr_node_id e = snr_node_id ?n" for e
    using pk_unique [OF assms(1) that(1)] row_of_Some [OF assms(2)] that(2) by (simp add: snapshot_row_of_def)
  have none: "snapshot_merge ?n newer = None" using assms(5) by (simp add: snapshot_merge_def snapshot_row_of_def)
  have "snr_node_id ?n \<in> snr_node_id ` set (g_snapshots d)" using row_of_Some [OF assms(2)] by (force simp: snapshot_row_of_def)
  moreover have "map (\<lambda>e. if snr_node_id e = snr_node_id ?n then resolve snapshot_merge ?n e else e) (g_snapshots d) = g_snapshots d"
    using only none by (intro map_idI) (auto simp: resolve_def)
  moreover have "rows_affected (\<lambda>e. snr_node_id e = snr_node_id ?n \<and> snapshot_merge ?n e \<noteq> None) (g_snapshots d) = 0"
    using only none by (auto simp: rows_affected_def filter_empty_conv)
  ultimately show ?thesis using assms(3,4) by (simp add: upsert_snapshot_inner_def upsert_def upsert_count_def Let_def)
qed

text \<open>C34. Anyone who kept an old snapshot of a node can stop its newer one from spreading. The push of the old snapshot is
  answered with success and leaves the database, which has a newer one, as it is; but the artifact that peers fetch is now
  the old one. A peer that follows the announcement of the newer snapshot fetches the old one, finds the wrong time in it,
  and refuses it.\<close>

theorem replayed_snapshot_hides_newer:
  fixes old :: signed_snapshot
  defines "node \<equiv> snap_node_id (ssn_payload old)" and "old_time \<equiv> snap_generated_at (ssn_payload old)"
  defines "source d \<equiv> find_node_source_for_identity node (ssn_signer_agent_did old) d"
  assumes "verify_signed_snapshot X old (Option.bind (source (gs_db s)) src_expected_signer) = Inr ()"
    and "case source (gs_db s) of None \<Rightarrow> True | Some r \<Rightarrow> src_status r = ''active''"
    and "ge_network E" and "ge_write_artifact E old = Inr ()" and "pk snr_node_id (g_snapshots (gs_db s))"
    and "row_of snr_node_id node (g_snapshots (gs_db s)) = Some newer" and "generated_instant X old_time = Inr t" and "t < snr_generated_at newer"
  shows "\<exists>body s'. ingest_snapshot X E old s = ((200, body), s') \<and> gs_db s' = gs_db s \<and> map_of (gs_artifacts s') node = Some old
    \<and> (\<forall>X' E' G signer g contact p. gg_local_peer_id G \<noteq> None \<longrightarrow> gg_fetch G contact node = or_err (map_of (gs_artifacts s') node) ''missing'' \<longrightarrow> g \<noteq> old_time
        \<longrightarrow> (\<exists>e. fetch_and_ingest_snapshot X' E' G node signer g contact p = (Inl e, p)))"
proof -
  let ?sid = "map_option src_id (source (gs_db s))"
  let ?s = "s\<lparr>gs_artifacts := (node, old) # filter (\<lambda>(n, _). n \<noteq> node) (gs_artifacts s)\<rparr>"
  have "upsert_snapshot_inner X (ge_now E) (snapshot_record X old ?sid) announce (gs_db s) = (Inr False, gs_db s)" for announce
    using assms(8-11) find_node_source_exists unfolding source_def
    by (intro upsert_snapshot_stale) (simp_all add: snapshot_record_def node_def old_time_def Let_def)
  then have "ingest_signed_snapshot X E old ?sid (Option.bind (source (gs_db s)) src_expected_signer) s = (Inr False, ?s)"
    using assms(4,6,7) by (simp add: ingest_signed_snapshot_def ingest_signed_snapshot_with_options_def persist_snapshot_artifact_def apply_snapshot_def node_def)
  then obtain body where "ingest_snapshot X E old s = ((200, body), ?s)"
    using assms(5) by (auto simp: ingest_snapshot_def Let_def source_def node_def split: option.splits)
  moreover have "\<exists>e. fetch_and_ingest_snapshot X' E' G node signer g contact p = (Inl e, p)"
    if "gg_local_peer_id G \<noteq> None" "gg_fetch G contact node = Inr old" "g \<noteq> old_time" for X' E' G signer g contact p
    using that by (auto simp: fetch_and_ingest_snapshot_def node_def old_time_def Let_def)
  ultimately show ?thesis by (intro exI [of _ body] exI [of _ ?s]) (simp add: or_err_def)
qed

definition sample_stored_state :: gw_state where
  "sample_stored_state = sample_start\<lparr>gs_db := empty_gdb\<lparr>g_snapshots :=
     [snapshot_row_of 3 (snapshot_record sample_gx (sample_signed_snapshot ''n'' (sample_key 0) 2) None) 2000000]\<rparr>\<rparr>"

theorem replayed_snapshot_hides_newer_witness:
  "\<exists>body s'. ingest_snapshot sample_gx sample_env (sample_signed_snapshot ''n'' (sample_key 0) 1) sample_stored_state = ((200, body), s')
    \<and> map snr_generated_at (g_snapshots (gs_db s')) = [2000000]
    \<and> map_of (gs_artifacts s') ''n'' = Some (sample_signed_snapshot ''n'' (sample_key 0) 1)
    \<and> (\<exists>e. fetch_and_ingest_snapshot sample_gx sample_env (sample_gossip (sample_signed_snapshot ''n'' (sample_key 0) 1)) ''n'' (''did:key:'' @ sample_key 0) 2
        sample_contact sample_start = (Inl e, sample_start))"
proof -
  let ?old = "sample_signed_snapshot ''n'' (sample_key 0) 1" and ?s = sample_stored_state
  have src: "find_node_source_for_identity (snap_node_id (ssn_payload ?old)) (ssn_signer_agent_did ?old) (gs_db ?s) = None" by code_simp
  have n: "snap_node_id (ssn_payload ?old) = ''n''" "snap_generated_at (ssn_payload ?old) = 1"
    by (simp_all add: sample_signed_snapshot_def sample_public_snapshot_def)
  have E: "ge_network sample_env" "ge_write_artifact sample_env ?old = Inr ()" by (simp_all add: sample_env_def)
  have row: "row_of snr_node_id ''n'' (g_snapshots (gs_db ?s))
      = Some (snapshot_row_of 3 (snapshot_record sample_gx (sample_signed_snapshot ''n'' (sample_key 0) 2) None) 2000000)"
    and pk: "pk snr_node_id (g_snapshots (gs_db ?s))"
    by (simp_all add: sample_stored_state_def row_of_def pk_def snapshot_row_of_def snapshot_record_def sample_signed_snapshot_def sample_public_snapshot_def)
  have table: "map snr_generated_at (g_snapshots (gs_db ?s)) = [2000000]" by (simp add: sample_stored_state_def snapshot_row_of_def)
  have peer: "gg_local_peer_id (sample_gossip ?old) \<noteq> None" "gg_fetch (sample_gossip ?old) sample_contact ''n'' = Inr ?old"
    by (simp_all add: sample_gossip_def)
  have "\<exists>body s'. ingest_snapshot sample_gx sample_env ?old ?s = ((200, body), s') \<and> gs_db s' = gs_db ?s \<and> map_of (gs_artifacts s') ''n'' = Some ?old
    \<and> (\<forall>X' E' G signer g contact p. gg_local_peer_id G \<noteq> None \<longrightarrow> gg_fetch G contact ''n'' = or_err (map_of (gs_artifacts s') ''n'') ''missing'' \<longrightarrow> g \<noteq> 1
        \<longrightarrow> (\<exists>e. fetch_and_ingest_snapshot X' E' G ''n'' signer g contact p = (Inl e, p)))"
    using replayed_snapshot_hides_newer [where X = sample_gx and s = ?s and old = ?old and E = sample_env, unfolded src n, OF _ _ E pk row sample_generated(1)]
    by (simp add: sample_verified snapshot_row_of_def src [unfolded n])
  then obtain body s' where push: "ingest_snapshot sample_gx sample_env ?old ?s = ((200, body), s')" "gs_db s' = gs_db ?s" "map_of (gs_artifacts s') ''n'' = Some ?old"
    and refused: "\<And>X' E' G signer g contact p. gg_local_peer_id G \<noteq> None \<Longrightarrow> gg_fetch G contact ''n'' = or_err (map_of (gs_artifacts s') ''n'') ''missing'' \<Longrightarrow> g \<noteq> 1
        \<Longrightarrow> \<exists>e. fetch_and_ingest_snapshot X' E' G ''n'' signer g contact p = (Inl e, p)" by blast
  from refused [OF peer(1), of sample_contact 2] push table peer(2) show ?thesis by (auto simp: or_err_def)
qed

section \<open>An ephemeral notice is not checked\<close>

text \<open>C35. The check that keeps forged announcements off the board is skipped for ephemeral events. Any node's signed board event
  that declares itself ephemeral goes to every subscriber of the public stream with its payload as it is, even one that
  claims to be an announcement of the Network Authority; the same payload under another policy is refused, and nothing is
  published.\<close>

theorem ephemeral_board_unchecked:
  fixes event :: signed_node_event
  defines "p \<equiv> sev_payload event"
  assumes "find_node_source_for_identity (nev_node_id p) (nev_signer_agent_did p) (gs_db s) = None" and "verify_signed_node_event X event None = Inr ()"
    and "nev_data_kind p = BoardActivity" and "gx_ui_event_text X (ephemeral_event event) = Inr frame"
  shows "(nev_provisional_policy p = EphemeralOnly \<longrightarrow> (\<exists>s'. persist_signed_node_event_with_options X E event None None announce s = (Inr None, s')
      \<and> hub_all (gs_hub s') = hub_all (gs_hub s) @ [\<lparr>ste_event = ephemeral_event event, ste_payload = frame\<rparr>]
      \<and> uev_payload (ephemeral_event event) = nev_payload p
      \<and> (\<forall>q. usq_data_kind q \<in> {None, Some BoardActivity} \<and> usq_node_id q = None \<and> usq_topic_id q = None \<and> usq_organization_id q = None \<and> usq_task_id q = None
          \<longrightarrow> event_matches_query (ephemeral_event event) q False)))
    \<and> (\<forall>e. nev_provisional_policy p \<noteq> EphemeralOnly \<and> trusted_projection X E event = Inl e
        \<longrightarrow> persist_signed_node_event_with_options X E event None None announce s = (Inl e, s))"
proof -
  have ok: "validate_event X (ge_pins E) event = Inr ()" using assms(4) by (simp add: validate_event_def p_def)
  have both: "persist_signed_node_event_with_options X E event None None announce s =
    (if nev_provisional_policy p = EphemeralOnly then (Inr None, publish_ui_event X (ephemeral_event event) s)
     else persist_durable X E event None (nev_provisional_policy p \<noteq> NeverBeforeConfirmation) (announce \<and> ge_sync E) s)"
    using assms(2-4) ok
    by (auto simp: persist_signed_node_event_with_options_def persist_ephemeral_def p_def or_else_def try_backfill_gap_def Let_def split: option.split)
  have "hub_all (gs_hub (publish_ui_event X (ephemeral_event event) s)) = hub_all (gs_hub s) @ [\<lparr>ste_event = ephemeral_event event, ste_payload = frame\<rparr>]"
    using assms(5) by (simp add: publish_ui_event_def publish_ui_def stream_event_of_def ephemeral_event_def Let_def)
  moreover have "uev_data_kind (ephemeral_event event) = BoardActivity" "uev_payload (ephemeral_event event) = nev_payload p"
    using assms(4) by (simp_all add: ephemeral_event_def p_def Let_def)
  moreover have "allows_public_stream BoardActivity" by code_simp
  ultimately show ?thesis using both by (auto simp: event_matches_query_def null_or_def persist_durable_def)
qed

text \<open>A notice that claims to announce an event, for a network whose authority is not pinned.\<close>

definition sample_notice :: "provisional_export_policy \<Rightarrow> signed_node_event" where
  "sample_notice policy = \<lparr>sev_payload = \<lparr>nev_event_id = ''e'', nev_node_id = ''n'', nev_public_key = sample_key 0,
     nev_signer_agent_did = ''did:key:'' @ sample_key 0, nev_seq = 1, nev_timestamp = 1, nev_data_kind = BoardActivity, nev_event_kind = ''board.posted'',
     nev_visibility = Public, nev_provisional_policy = policy,
     nev_scope = \<lparr>scp_node_id = None, scp_topic_id = None, scp_organization_id = None, scp_task_id = None\<rparr>, nev_identity_key = None,
     nev_payload = json_obj [(''message_id'', JStr ''m''), (''global_kind'', JStr ''EventAnnouncement''), (''content'', json_obj [(''title'', JStr ''forged'')])]\<rparr>,
     sev_signature = sample_key 0 @ sample_key 0\<rparr>"

theorem ephemeral_board_unchecked_witness:
  "(\<exists>s'. persist_signed_node_event_with_options sample_gx sample_env (sample_notice EphemeralOnly) None None True sample_start = (Inr None, s')
      \<and> map (\<lambda>e. uev_payload (ste_event e)) (hub_all (gs_hub s')) = [nev_payload (sev_payload (sample_notice EphemeralOnly))])
    \<and> (\<exists>e. persist_signed_node_event_with_options sample_gx sample_env (sample_notice NeverBeforeConfirmation) None None True sample_start = (Inl e, sample_start))"
proof -
  have ok: "verify_signed_node_event sample_gx (sample_notice policy) None = Inr ()" "nev_data_kind (sev_payload (sample_notice policy)) = BoardActivity"
    "find_node_source_for_identity (nev_node_id (sev_payload (sample_notice policy))) (nev_signer_agent_did (sev_payload (sample_notice policy))) (gs_db sample_start) = None"
    "gx_ui_event_text sample_gx (ephemeral_event (sample_notice policy)) = Inr ''e''" for policy by code_simp+
  note * = ephemeral_board_unchecked [OF ok(3,1,2,4), where E = sample_env and announce = True]
  have "nev_provisional_policy (sev_payload (sample_notice policy)) = policy" for policy by (simp add: sample_notice_def)
  moreover have "is_ok (trusted_projection sample_gx sample_env (sample_notice NeverBeforeConfirmation)) = False" by code_simp
  then obtain e where "trusted_projection sample_gx sample_env (sample_notice NeverBeforeConfirmation) = Inl e"
    by (auto simp: is_ok_def split: sum.splits)
  moreover have "hub_all (gs_hub sample_start) = []" by code_simp
  ultimately show ?thesis using * [of EphemeralOnly] * [of NeverBeforeConfirmation] by auto
qed

end
