(* ===== verification/Gw_Public.thy ===== *)
theory Gw_Public
  imports Gw_Trust "HOL-Library.AList"
begin

text \<open>
  The public read API (\<open>public_api.rs\<close>): lists of nodes, peers, hives, messages, board rows, missions and rankings out of
  the projections and snapshots of the database, joined with what federated gateways answer. The record \<open>pub_env\<close> is what
  lies outside: the own identity and the configured registries, the HTTP client, the parsers of URLs and of RFC 3339 times,
  serde's text of a value, and the status of the network runtime.
\<close>

record pub_env =
  pe_identity :: "gateway_identity option"
  pe_bootstrap :: "string list"
  pe_fetch_gateways :: "string \<Rightarrow> registry_entry list result"
  pe_url_ok :: "string \<Rightarrow> bool"
  pe_get :: "string \<Rightarrow> (string \<times> string) list \<Rightarrow> json result"
  pe_parse_time :: "string \<Rightarrow> int option"
  pe_json_text :: "json \<Rightarrow> string result"
  pe_now_text :: string
  pe_runtime :: "json option"

section \<open>Values\<close>

fun as_u64 :: "json \<Rightarrow> int option" where
  "as_u64 (JInt i) = (if 0 \<le> i \<and> i < 2 ^ 64 then Some i else None)"
| "as_u64 _ = None"

fun as_f64 :: "json \<Rightarrow> rat option" where
  "as_f64 (JInt i) = Some (f64_round (of_int i))"
| "as_f64 (JFloat r) = Some r"
| "as_f64 _ = None"

fun as_bool :: "json \<Rightarrow> bool option" where
  "as_bool (JBool b) = Some b"
| "as_bool _ = None"

definition get_str :: "string \<Rightarrow> json \<Rightarrow> string option" where
  "get_str k v = Option.bind (jget k v) as_str"

text \<open>\<open>value.get(a).or_else(|| value.get(b))..\<close>: the first field that is there, whatever it holds.\<close>

fun first_field :: "string list \<Rightarrow> json \<Rightarrow> json option" where
  "first_field [] v = None"
| "first_field (k # ks) v = (case jget k v of Some w \<Rightarrow> Some w | None \<Rightarrow> first_field ks v)"

text \<open>The first field that holds text.\<close>

fun topic_key_from_value :: "string list \<Rightarrow> json \<Rightarrow> string option" where
  "topic_key_from_value [] v = None"
| "topic_key_from_value (k # ks) v = (case get_str k v of Some s \<Rightarrow> Some s | None \<Rightarrow> topic_key_from_value ks v)"

definition string_field :: "string \<Rightarrow> json \<Rightarrow> string option" where
  "string_field k v = trimmed (get_str k v)"

definition attach_source :: "string \<Rightarrow> json \<Rightarrow> json" where
  "attach_source node v = (case v of JObj o' \<Rightarrow> JObj (obj_insert ''source_node_id'' (JStr node) o') | _ \<Rightarrow> v)"

definition attach_snapshot_generated_at :: "int \<Rightarrow> json \<Rightarrow> json" where
  "attach_snapshot_generated_at g v = (case v of JObj o' \<Rightarrow> JObj (or_insert ''snapshot_generated_at'' (JInt g) o') | _ \<Rightarrow> v)"

text \<open>Numbers are times as they are; text is read as RFC 3339.\<close>

definition value_to_timestamp :: "pub_env \<Rightarrow> json \<Rightarrow> int option" where
  "value_to_timestamp P v = (case as_i64 v of Some i \<Rightarrow> Some i | None \<Rightarrow> Option.bind (as_str v) (pe_parse_time P))"

fun first_timestamp :: "pub_env \<Rightarrow> string list \<Rightarrow> json \<Rightarrow> int" where
  "first_timestamp P [] v = 0"
| "first_timestamp P (k # ks) v = (case Option.bind (jget k v) (value_to_timestamp P) of Some t \<Rightarrow> t | None \<Rightarrow> first_timestamp P ks v)"

definition topic_sort_timestamp :: "pub_env \<Rightarrow> json \<Rightarrow> int" where
  "topic_sort_timestamp P = first_timestamp P [''last_message_at'', ''updated_at'', ''created_at'', ''timestamp'', ''sent_at'', ''snapshot_generated_at'']"

definition timestamp_with_fallback :: "pub_env \<Rightarrow> string list \<Rightarrow> json \<Rightarrow> int" where
  "timestamp_with_fallback P ks v = (let primary = topic_sort_timestamp P v in if primary \<noteq> 0 then primary else first_timestamp P ks v)"

definition sort_values_desc_by_timestamp :: "pub_env \<Rightarrow> json list \<Rightarrow> json list" where
  "sort_values_desc_by_timestamp P = sort_key (\<lambda>v. - topic_sort_timestamp P v)"

definition sort_values_desc_by_timestamp_with_fallback :: "pub_env \<Rightarrow> string list \<Rightarrow> json list \<Rightarrow> json list" where
  "sort_values_desc_by_timestamp_with_fallback P ks = sort_key (\<lambda>v. - timestamp_with_fallback P ks v)"

text \<open>A value without a key is kept.\<close>

fun dedupe_values_by_key :: "(json \<Rightarrow> string option) \<Rightarrow> string set \<Rightarrow> json list \<Rightarrow> json list" where
  "dedupe_values_by_key key seen [] = []"
| "dedupe_values_by_key key seen (v # vs) =
    (case key v of None \<Rightarrow> v # dedupe_values_by_key key seen vs
     | Some k \<Rightarrow> if k \<in> seen then dedupe_values_by_key key seen vs else v # dedupe_values_by_key key (insert k seen) vs)"

fun numeric_timestamp :: "string list \<Rightarrow> json \<Rightarrow> int" where
  "numeric_timestamp [] v = 0"
| "numeric_timestamp (k # ks) v =
    (case Option.bind (jget k v) (\<lambda>w. case as_u64 w of Some n \<Rightarrow> Some n | None \<Rightarrow> map_option (max 0) (as_i64 w)) of
       Some n \<Rightarrow> n | None \<Rightarrow> numeric_timestamp ks v)"

section \<open>Keys\<close>

definition network_scoped_topic_key :: "string list \<Rightarrow> json \<Rightarrow> string option" where
  "network_scoped_topic_key ks v = Option.bind (topic_key_from_value ks v) (\<lambda>topic.
    case trimmed (Option.bind (first_field [''network_id'', ''networkId''] v) as_str) of
      None \<Rightarrow> Some topic | Some network \<Rightarrow> Some (network @ '':'' @ topic))"

definition topic_identity_key :: "json \<Rightarrow> string option" where
  "topic_identity_key = network_scoped_topic_key [''topic_id'', ''id'']"

definition topic_message_identity_key :: "pub_env \<Rightarrow> json \<Rightarrow> string option" where
  "topic_message_identity_key P v = or_else (topic_key_from_value [''message_id'', ''id''] v)
    (Option.bind (network_scoped_topic_key [''topic_id'', ''topicId''] v) (\<lambda>topic.
     let author = (case Option.bind (first_field [''author_id'', ''authorId'', ''sender_id'', ''senderId''] v) as_str of Some a \<Rightarrow> a | None \<Rightarrow> ''unknown'');
         body = (case Option.bind (first_field [''body'', ''content''] v) as_str of Some b \<Rightarrow> b | None \<Rightarrow> [])
     in Some (topic @ '':'' @ author @ '':'' @ int_text (topic_sort_timestamp P v) @ '':'' @ body)))"

definition board_message_identity_key :: "json \<Rightarrow> string option" where
  "board_message_identity_key = topic_key_from_value [''message_id'', ''id'']"

definition peer_identity_key :: "json \<Rightarrow> string option" where
  "peer_identity_key = topic_key_from_value [''node_id'', ''peer_id'', ''id'', ''public_id'', ''agent_did'', ''source_node_id'']"

definition mission_identity_key :: "json \<Rightarrow> string option" where
  "mission_identity_key = topic_key_from_value [''mission_id'', ''task_id'', ''id'']"

definition ranking_identity_key :: "json \<Rightarrow> string option" where
  "ranking_identity_key = topic_key_from_value [''agent_did'', ''public_id'', ''agent_id'', ''id'']"

definition task_activity_task_identity_key :: "json \<Rightarrow> string option" where
  "task_activity_task_identity_key = topic_key_from_value [''task_id'', ''id'']"

definition task_activity_run_identity_key :: "pub_env \<Rightarrow> json \<Rightarrow> string option" where
  "task_activity_run_identity_key P v = or_else (topic_key_from_value [''run_id'', ''id''] v)
    (let task = (case get_str ''task_id'' v of Some t \<Rightarrow> t | None \<Rightarrow> ''unknown'');
         status = (case get_str ''status'' v of Some t \<Rightarrow> t | None \<Rightarrow> ''unknown'')
     in Some (task @ '':'' @ status @ '':'' @ int_text (timestamp_with_fallback P [''updated_at'', ''created_at''] v)))"

section \<open>Federation\<close>

definition federation_enabled :: "string option \<Rightarrow> bool" where
  "federation_enabled v \<longleftrightarrow> map_option (\<lambda>s. to_ascii_lowercase (trim s)) v \<notin> {Some ''local'', Some ''none'', Some ''false'', Some ''0''}"

definition normalize_gateway_base_url :: "string \<Rightarrow> string" where
  "normalize_gateway_base_url u = trim_end_slashes (trim u)"

definition gateway_supports_endpoint :: "registry_entry \<Rightarrow> string \<Rightarrow> bool" where
  "gateway_supports_endpoint g endpoint \<longleftrightarrow> ren_status g = ''approved'' \<and> ''query'' \<in> set (ren_roles g)
     \<and> list_ex (\<lambda>c. c = endpoint \<or> c = ''*'') (ren_supported_endpoints g)"

fun keep_new_urls :: "string option \<Rightarrow> string set \<Rightarrow> string list \<Rightarrow> string list" where
  "keep_new_urls own seen [] = []"
| "keep_new_urls own seen (u # us) = (let n = normalize_gateway_base_url u in
    if n \<noteq> [] \<and> own \<noteq> Some n \<and> n \<notin> seen then n # keep_new_urls own (insert n seen) us else keep_new_urls own seen us)"

definition dedupe_and_filter_gateway_base_urls :: "string list \<Rightarrow> gateway_identity option \<Rightarrow> string list" where
  "dedupe_and_filter_gateway_base_urls urls identity =
    keep_new_urls (map_option (\<lambda>i. normalize_gateway_base_url (gid_base_url i)) identity) {} urls"

definition allows_registry_federation :: "gateway_identity \<Rightarrow> bool" where
  "allows_registry_federation i \<longleftrightarrow> gid_federation_mode i = Open"

definition federated_gateway_base_urls :: "pub_env \<Rightarrow> string \<Rightarrow> gdb \<Rightarrow> string list" where
  "federated_gateway_base_urls P endpoint d =
    (let peers = (case pe_identity P of Some i \<Rightarrow> gid_federation_peers i | None \<Rightarrow> []) in
     if (case pe_identity P of Some i \<Rightarrow> \<not> allows_registry_federation i | None \<Rightarrow> False)
     then dedupe_and_filter_gateway_base_urls peers (pe_identity P)
     else let gateways = map entry_of (list_gateway_registry_entries (Some ''approved'') None None (Some ''query'') d)
            @ concat (map (\<lambda>url. case pe_fetch_gateways P (normalized_registry_list_url url) of Inr gs \<Rightarrow> gs | Inl _ \<Rightarrow> []) (pe_bootstrap P))
       in dedupe_and_filter_gateway_base_urls (peers @ map ren_base_url (filter (\<lambda>g. gateway_supports_endpoint g endpoint) gateways)) (pe_identity P))"

text \<open>The address of a request and its query pairs.\<close>

definition federated_gateway_url :: "pub_env \<Rightarrow> string \<Rightarrow> string \<Rightarrow> (string \<times> string) list \<Rightarrow> (string \<times> (string \<times> string) list) option" where
  "federated_gateway_url P base endpoint params =
    (let b = normalize_gateway_base_url base in
     if b = [] \<or> \<not> pe_url_ok P (b @ endpoint) then None
     else Some (b @ endpoint, filter (\<lambda>(_, v). \<not> blank v) params @ [(''federation'', ''local'')]))"

definition federated_answers :: "pub_env \<Rightarrow> string \<Rightarrow> (string \<times> string) list \<Rightarrow> gdb \<Rightarrow> json list" where
  "federated_answers P endpoint params d =
    List.map_filter (\<lambda>base. Option.bind (federated_gateway_url P base endpoint params) (\<lambda>(url, query).
      case pe_get P url query of Inr v \<Rightarrow> Some v | Inl _ \<Rightarrow> None)) (federated_gateway_base_urls P endpoint d)"

definition fetch_federated_arrays :: "pub_env \<Rightarrow> string \<Rightarrow> (string \<times> string) list \<Rightarrow> gdb \<Rightarrow> json list" where
  "fetch_federated_arrays P endpoint params d = concat (List.map_filter as_array (federated_answers P endpoint params d))"

definition fetch_federated_objects :: "pub_env \<Rightarrow> string \<Rightarrow> (string \<times> string) list \<Rightarrow> gdb \<Rightarrow> json list" where
  "fetch_federated_objects P endpoint params d = map JObj (List.map_filter as_object (federated_answers P endpoint params d))"

section \<open>Filters\<close>

definition matches_optional_string_filter :: "json \<Rightarrow> string list \<Rightarrow> string option \<Rightarrow> bool" where
  "matches_optional_string_filter v ks expected = (case expected of None \<Rightarrow> True | Some e \<Rightarrow> topic_key_from_value ks v = Some e)"

record topic_query =
  tq_limit :: "nat option"
  tq_network_id :: "string option"
  tq_hive_id :: "string option"
  tq_topic_id :: "string option"
  tq_organization_id :: "string option"
  tq_federation :: "string option"

record topic_message_query =
  tmq_limit :: "nat option"
  tmq_network_id :: "string option"
  tmq_hive_id :: "string option"
  tmq_topic_id :: "string option"
  tmq_organization_id :: "string option"
  tmq_author_id :: "string option"

record board_query =
  bq_limit :: "nat option"
  bq_network_id :: "string option"
  bq_source :: "string option"
  bq_category :: "string option"
  bq_search :: "string option"
  bq_service_name :: "string option"
  bq_author_id :: "string option"
  bq_federation :: "string option"

definition matches_hive_filters :: "json \<Rightarrow> topic_query \<Rightarrow> bool" where
  "matches_hive_filters v q \<longleftrightarrow> matches_optional_string_filter v [''network_id'', ''networkId''] (tq_network_id q)
     \<and> matches_optional_string_filter v [''hive_id'', ''topic_id'', ''id''] (tq_hive_id q)
     \<and> matches_optional_string_filter v [''topic_id'', ''hive_id'', ''id''] (tq_topic_id q)
     \<and> matches_optional_string_filter v [''organization_id'', ''organizationId''] (tq_organization_id q)"

definition matches_hive_message_filters :: "json \<Rightarrow> topic_message_query \<Rightarrow> bool" where
  "matches_hive_message_filters v q \<longleftrightarrow> matches_optional_string_filter v [''network_id'', ''networkId''] (tmq_network_id q)
     \<and> matches_optional_string_filter v [''hive_id'', ''topic_id'', ''topicId''] (tmq_hive_id q)
     \<and> matches_optional_string_filter v [''topic_id'', ''topicId'', ''hive_id''] (tmq_topic_id q)
     \<and> matches_optional_string_filter v [''organization_id'', ''organizationId''] (tmq_organization_id q)
     \<and> matches_optional_string_filter v [''author_id'', ''authorId'', ''sender_id'', ''senderId''] (tmq_author_id q)"

definition matches_board_filters :: "pub_env \<Rightarrow> json \<Rightarrow> board_query \<Rightarrow> bool" where
  "matches_board_filters P v q \<longleftrightarrow>
     (case bq_source q of None \<Rightarrow> True
      | Some expected \<Rightarrow> matches_optional_string_filter v [''source''] (Some (if expected = ''services'' then ''service'' else expected)))
     \<and> (case trimmed (bq_search q) of None \<Rightarrow> True
        | Some search \<Rightarrow> (case pe_json_text P v of Inr text \<Rightarrow> contains (to_ascii_lowercase search) (to_ascii_lowercase text) | Inl _ \<Rightarrow> False))
     \<and> matches_optional_string_filter v [''network_id'', ''networkId''] (bq_network_id q)
     \<and> matches_optional_string_filter v [''category''] (bq_category q) \<and> matches_optional_string_filter v [''service_name''] (bq_service_name q)
     \<and> matches_optional_string_filter v [''author_id'', ''author_public_id'', ''author_node_id'', ''authorId''] (bq_author_id q)"

section \<open>Lists of projections\<close>

definition projection_values :: "gw_externs \<Rightarrow> collation \<Rightarrow> data_kind \<Rightarrow> gdb \<Rightarrow> json list" where
  "projection_values X C kind d =
    map (\<lambda>r. attach_source (prj_source_node_id r) (prj_payload r)) (list_projection_rows C (gx_kind_name X kind) d)"

definition limit_or :: "nat \<Rightarrow> nat option \<Rightarrow> nat" where
  "limit_or n limit = (case limit of Some l \<Rightarrow> l | None \<Rightarrow> n)"

definition limit_param :: "nat \<Rightarrow> (string \<times> string) list" where
  "limit_param n = [(''limit'', decimal n)]"

definition opt_param :: "string \<Rightarrow> string option \<Rightarrow> (string \<times> string) list" where
  "opt_param k v = (case v of Some s \<Rightarrow> [(k, s)] | None \<Rightarrow> [])"

definition aggregate_projection_endpoint :: "gw_externs \<Rightarrow> collation \<Rightarrow> nat \<Rightarrow> data_kind \<Rightarrow> gdb \<Rightarrow> json list" where
  "aggregate_projection_endpoint X C limit kind d = take limit (projection_values X C kind d)"

definition aggregate_federated_projection_endpoint ::
  "gw_externs \<Rightarrow> collation \<Rightarrow> pub_env \<Rightarrow> nat \<Rightarrow> string option \<Rightarrow> data_kind \<Rightarrow> string \<Rightarrow> (json \<Rightarrow> string option) \<Rightarrow> string list \<Rightarrow> gdb \<Rightarrow> json list" where
  "aggregate_federated_projection_endpoint X C P limit federation kind endpoint key sort_keys d =
    (let values = projection_values X C kind d in
     take limit (if federation_enabled federation
       then dedupe_values_by_key key {} (sort_values_desc_by_timestamp_with_fallback P sort_keys
              (values @ fetch_federated_arrays P endpoint (limit_param limit) d))
       else values))"

definition missions :: "gw_externs \<Rightarrow> collation \<Rightarrow> pub_env \<Rightarrow> nat option \<Rightarrow> string option \<Rightarrow> gdb \<Rightarrow> json list" where
  "missions X C P limit federation = aggregate_federated_projection_endpoint X C P (limit_or 200 limit) federation TaskSummary ''/api/missions''
     mission_identity_key [''updated_at'', ''created_at'', ''snapshot_generated_at'']"

definition leaderboard :: "gw_externs \<Rightarrow> collation \<Rightarrow> pub_env \<Rightarrow> nat option \<Rightarrow> string option \<Rightarrow> gdb \<Rightarrow> json list" where
  "leaderboard X C P limit federation = aggregate_federated_projection_endpoint X C P (limit_or 200 limit) federation RankingProjection ''/api/leaderboard''
     ranking_identity_key [''score'', ''watt'', ''updated_at'', ''created_at'', ''snapshot_generated_at'']"

definition public_blocks :: "gw_externs \<Rightarrow> collation \<Rightarrow> nat option \<Rightarrow> gdb \<Rightarrow> json list" where
  "public_blocks X C limit = aggregate_projection_endpoint X C (limit_or 200 limit) PublicBlock"

definition organizations :: "gw_externs \<Rightarrow> collation \<Rightarrow> nat option \<Rightarrow> gdb \<Rightarrow> json list" where
  "organizations X C limit = aggregate_projection_endpoint X C (limit_or 200 limit) OrganizationSummary"

section \<open>Hives and the board\<close>

definition hive_route_key :: "json \<Rightarrow> string option" where
  "hive_route_key v = Option.bind (string_field ''feed_key'' v) (\<lambda>feed. Option.bind (string_field ''scope_hint'' v) (\<lambda>scope.
    Some ((case string_field ''network_id'' v of Some n \<Rightarrow> n | None \<Rightarrow> []) @ [unit_separator] @ feed @ [unit_separator] @ scope)))"

text \<open>A subscription: the key of its subscriber and route, the route, whether it is active, and its time.\<close>

definition subscription_of :: "json \<Rightarrow> (string \<times> string \<times> bool \<times> int) option" where
  "subscription_of v = Option.bind (hive_route_key v) (\<lambda>route. Option.bind (string_field ''subscriber_node_id'' v) (\<lambda>subscriber.
    Some (route @ [unit_separator] @ subscriber, route, (case Option.bind (jget ''active'' v) as_bool of Some a \<Rightarrow> a | None \<Rightarrow> False),
      numeric_timestamp [''updated_at'', ''snapshot_generated_at''] v)))"

definition keep_latest :: "string \<times> string \<times> bool \<times> int \<Rightarrow> (string \<times> string \<times> bool \<times> int) list \<Rightarrow> (string \<times> string \<times> bool \<times> int) list" where
  "keep_latest sub latest = (case sub of (k, route, active, t) \<Rightarrow>
    if (case map_of latest k of None \<Rightarrow> True | Some (_, _, t0) \<Rightarrow> t0 \<le> t) then AList.update k (route, active, t) latest else latest)"

definition latest_by_subscriber :: "json list \<Rightarrow> (string \<times> string \<times> bool \<times> int) list" where
  "latest_by_subscriber vs = fold keep_latest (List.map_filter subscription_of vs) []"

text \<open>The counts, as a lookup: a hive that no active subscription names has no entry.\<close>

definition hive_member_counts :: "json list \<Rightarrow> string \<Rightarrow> nat option" where
  "hive_member_counts vs route =
    (let n = length (filter (\<lambda>(_, r, active, _). r = route \<and> active) (latest_by_subscriber vs)) in if n = 0 then None else Some n)"

definition attach_hive_member_count :: "(string \<Rightarrow> nat option) \<Rightarrow> json \<Rightarrow> json" where
  "attach_hive_member_count member_counts v = (case v of
     JObj o' \<Rightarrow> (case Option.bind (hive_route_key v) member_counts of
       Some n \<Rightarrow> JObj (obj_insert ''member_count'' (JInt (int n)) o')
     | None \<Rightarrow> JObj (or_insert ''member_count'' (JInt 0) o'))
   | _ \<Rightarrow> v)"

definition normalize_hive_value :: "json \<Rightarrow> json" where
  "normalize_hive_value v = (case v of
     JObj o' \<Rightarrow> (case Option.bind (first_field [''hive_id'', ''topic_id'', ''id''] v) as_str of
       Some i \<Rightarrow> JObj (or_insert ''hive_id'' (JStr i) o') | None \<Rightarrow> v)
   | _ \<Rightarrow> v)"

definition hive_values :: "gw_externs \<Rightarrow> collation \<Rightarrow> pub_env \<Rightarrow> topic_query \<Rightarrow> gdb \<Rightarrow> json list" where
  "hive_values X C P q d = projection_values X C HiveMetadata d
    @ (if federation_enabled (tq_federation q)
       then fetch_federated_arrays P ''/api/hives'' (limit_param (limit_or 200 (tq_limit q)) @ opt_param ''network_id'' (tq_network_id q)
         @ opt_param ''hive_id'' (tq_hive_id q) @ opt_param ''topic_id'' (tq_topic_id q) @ opt_param ''organization_id'' (tq_organization_id q)) d
       else [])"

definition public_hives :: "gw_externs \<Rightarrow> collation \<Rightarrow> pub_env \<Rightarrow> topic_query \<Rightarrow> gdb \<Rightarrow> json list" where
  "public_hives X C P q d =
    map (\<lambda>v. attach_hive_member_count (hive_member_counts (projection_values X C HiveSubscription d)) (normalize_hive_value v))
      (take (limit_or 200 (tq_limit q)) (dedupe_values_by_key topic_identity_key {}
        (sort_values_desc_by_timestamp P (filter (\<lambda>v. matches_hive_filters v q) (hive_values X C P q d)))))"

definition public_hive_messages :: "gw_externs \<Rightarrow> collation \<Rightarrow> pub_env \<Rightarrow> topic_message_query \<Rightarrow> gdb \<Rightarrow> json list" where
  "public_hive_messages X C P q d =
    map normalize_hive_value (take (limit_or 500 (tmq_limit q)) (dedupe_values_by_key (topic_message_identity_key P) {}
      (sort_values_desc_by_timestamp P (filter (\<lambda>v. matches_hive_message_filters v q) (projection_values X C HiveActivity d)))))"

definition board_limit :: "board_query \<Rightarrow> nat" where
  "board_limit q = min 500 (max 1 (limit_or 500 (bq_limit q)))"

definition board_values :: "gw_externs \<Rightarrow> collation \<Rightarrow> pub_env \<Rightarrow> board_query \<Rightarrow> gdb \<Rightarrow> json list" where
  "board_values X C P q d = projection_values X C BoardActivity d
    @ (if federation_enabled (bq_federation q)
       then fetch_federated_arrays P ''/api/board'' (limit_param (board_limit q) @ opt_param ''network_id'' (bq_network_id q)
         @ opt_param ''source'' (bq_source q) @ opt_param ''category'' (bq_category q) @ opt_param ''search'' (bq_search q)
         @ opt_param ''service_name'' (bq_service_name q) @ opt_param ''author_id'' (bq_author_id q)) d
       else [])"

definition public_board :: "gw_externs \<Rightarrow> authorities result \<Rightarrow> collation \<Rightarrow> pub_env \<Rightarrow> board_query \<Rightarrow> gdb \<Rightarrow> json list" where
  "public_board X pins C P q d =
    take (board_limit q) (dedupe_values_by_key board_message_identity_key {}
      (sort_values_desc_by_timestamp_with_fallback P [''created_at'', ''sequence'', ''snapshot_generated_at'']
        (filter (\<lambda>v. matches_board_filters P v q) (trusted_board_messages X pins (board_values X C P q d)))))"

section \<open>Status, peers and nodes\<close>

definition shared_text :: "string option list \<Rightarrow> json" where
  "shared_text vs = (case remdups_adj (sort (List.map_filter trimmed vs)) of [v] \<Rightarrow> JStr v | _ \<Rightarrow> JNull)"

definition single_shared_string :: "json list \<Rightarrow> string \<Rightarrow> json" where
  "single_shared_string vs k = shared_text (map (\<lambda>v. as_str (jindex k v)) vs)"

definition single_shared_status_string :: "json list \<Rightarrow> string \<Rightarrow> json" where
  "single_shared_status_string vs k = shared_text (map (get_str k) vs)"

definition array_length :: "string \<Rightarrow> json \<Rightarrow> nat" where
  "array_length k v = (case as_array (jindex k v) of Some es \<Rightarrow> length es | None \<Rightarrow> 0)"

definition local_network_status_value :: "gw_externs \<Rightarrow> collation \<Rightarrow> pub_env \<Rightarrow> gdb \<Rightarrow> json" where
  "local_network_status_value X C P d =
    (let snapshots = map snr_payload (list_visible_snapshots d);
         metadata = map (jindex ''network_status'') snapshots
           @ concat (map (\<lambda>v. [v, jindex ''network_status'' v]) (projection_values X C NetworkProjection d));
         total = (\<lambda>k. JInt (int (sum_list (map (array_length k) snapshots))))
     in json_obj [(''status'', JStr ''ok''), (''nodes'', JInt (int (length snapshots))), (''peers'', total ''peers''), (''tasks'', total ''tasks''),
          (''organizations'', total ''organizations''), (''topics'', total ''public_topics''), (''topic_messages'', total ''public_topic_messages''),
          (''public_blocks'', total ''public_blocks''), (''network_name'', single_shared_string snapshots ''network_name''),
          (''network_org_name'', single_shared_string snapshots ''network_org_name''), (''network_id'', single_shared_string metadata ''network_id''),
          (''gateway_runtime'', jopt (pe_runtime P)), (''updated_at'', JStr (pe_now_text P))])"

text \<open>The sum of 64-bit counts wraps in a release build.\<close>

definition status_count :: "json list \<Rightarrow> string \<Rightarrow> json" where
  "status_count statuses k =
    JInt (uint (sum_list (map (\<lambda>v. case Option.bind (jget k v) as_u64 of Some n \<Rightarrow> word_of_int n | None \<Rightarrow> 0) statuses) :: u64))"

definition status_count_keys :: "string list" where
  "status_count_keys = [''nodes'', ''peers'', ''tasks'', ''organizations'', ''topics'', ''topic_messages'', ''public_blocks'']"

definition merge_network_status_values :: "pub_env \<Rightarrow> json \<Rightarrow> json list \<Rightarrow> json" where
  "merge_network_status_values P local remotes =
    (let statuses = local # remotes in
     case local of
       JObj o' \<Rightarrow> JObj (fold (\<lambda>(k, v). obj_insert k v) (map (\<lambda>k. (k, status_count statuses k)) status_count_keys
         @ map (\<lambda>k. (k, single_shared_status_string statuses k)) [''network_id'', ''network_name'', ''network_org_name'']
         @ [(''federated_gateways'', JInt (int (length remotes))), (''updated_at'', JStr (pe_now_text P))]) o')
     | _ \<Rightarrow> local)"

definition network_status :: "gw_externs \<Rightarrow> collation \<Rightarrow> pub_env \<Rightarrow> string option \<Rightarrow> gdb \<Rightarrow> json" where
  "network_status X C P federation d =
    (let status = local_network_status_value X C P d in
     if federation_enabled federation then merge_network_status_values P status (fetch_federated_objects P ''/api/network/status'' [] d) else status)"

definition local_snapshot_array_values :: "nat \<Rightarrow> string \<Rightarrow> (string \<Rightarrow> json \<Rightarrow> json) \<Rightarrow> gdb \<Rightarrow> json list" where
  "local_snapshot_array_values limit k transform d =
    take limit (concat (map (\<lambda>r. case as_array (jindex k (snr_payload r)) of
      Some entries \<Rightarrow> map (transform (snr_node_id r)) (take limit entries) | None \<Rightarrow> []) (list_visible_snapshots d)))"

definition peers :: "pub_env \<Rightarrow> nat option \<Rightarrow> string option \<Rightarrow> gdb \<Rightarrow> json list" where
  "peers P limit federation d =
    (let l = limit_or 200 limit; values = local_snapshot_array_values l ''peers'' attach_source d in
     take l (if federation_enabled federation
       then dedupe_values_by_key peer_identity_key {} (values @ fetch_federated_arrays P ''/api/peers'' (limit_param l) d) else values))"

definition geo_pair :: "json \<Rightarrow> rat option \<times> rat option" where
  "geo_pair v = (Option.bind (first_field [''latitude'', ''lat''] v) as_f64, Option.bind (first_field [''longitude'', ''lng'', ''lon''] v) as_f64)"

definition has_valid_geo :: "json \<Rightarrow> bool" where
  "has_valid_geo v = (case geo_pair v of
     (Some latitude, Some longitude) \<Rightarrow> - 90 \<le> latitude \<and> latitude \<le> 90 \<and> - 180 \<le> longitude \<and> longitude \<le> 180
   | _ \<Rightarrow> False)"

definition snapshot_geo_node :: "string \<Rightarrow> string \<Rightarrow> int \<Rightarrow> json \<Rightarrow> json" where
  "snapshot_geo_node node source g v = (case v of
     JObj o' \<Rightarrow> JObj (or_insert ''snapshot_generated_at'' (JInt g) (or_insert ''source_node_id'' (JStr source) (or_insert ''node_id'' (JStr node) o')))
   | _ \<Rightarrow> v)"

definition snapshot_geo_nodes :: "json \<Rightarrow> string \<Rightarrow> int \<Rightarrow> json list" where
  "snapshot_geo_nodes payload source g =
    (case jget ''operator'' payload of Some operator \<Rightarrow> [snapshot_geo_node source source g operator] | None \<Rightarrow> [])
    @ (case Option.bind (jget ''peers'' payload) as_array of
         Some ps \<Rightarrow> map (\<lambda>peer. snapshot_geo_node (case get_str ''id'' peer of Some i \<Rightarrow> i | None \<Rightarrow> source) source g peer) ps
       | None \<Rightarrow> [])"

definition local_network_node_values :: "gw_externs \<Rightarrow> collation \<Rightarrow> gdb \<Rightarrow> json list" where
  "local_network_node_values X C d = projection_values X C NetworkProjection d
    @ concat (map (\<lambda>r. snapshot_geo_nodes (snr_payload r) (snr_node_id r) (snr_generated_at r div 1000000)) (list_visible_snapshots d))"

definition node_identity :: "json \<Rightarrow> string" where
  "node_identity v = (case Option.bind (first_field [''node_id'', ''id'', ''source_node_id''] v) as_str of Some i \<Rightarrow> i | None \<Rightarrow> [])"

text \<open>Unlike the lists, nodes without an id are dropped.\<close>

definition dedupe_nodes_by_id :: "json list \<Rightarrow> json list" where
  "dedupe_nodes_by_id vs = dedupe_values_by_key (\<lambda>v. Some (node_identity v)) {[]} vs"

definition network_nodes :: "gw_externs \<Rightarrow> collation \<Rightarrow> pub_env \<Rightarrow> nat option \<Rightarrow> string option \<Rightarrow> gdb \<Rightarrow> json list" where
  "network_nodes X C P limit federation d =
    (let l = limit_or 200 limit;
         values = local_network_node_values X C d
           @ (if federation_enabled federation then fetch_federated_arrays P ''/api/network/nodes'' (limit_param l) d else [])
     in take l (dedupe_nodes_by_id (filter has_valid_geo (sort_values_desc_by_timestamp_with_fallback P [''snapshot_generated_at''] values))))"

definition task_activity_entries :: "string \<Rightarrow> snapshot_row \<Rightarrow> json list" where
  "task_activity_entries k r =
    (let activity = jindex ''swarm_task_activity'' (snr_payload r);
         g = (case as_i64 (jindex ''generated_at'' activity) of Some i \<Rightarrow> i | None \<Rightarrow> snr_generated_at r div 1000000)
     in case as_array (jindex k activity) of
          Some entries \<Rightarrow> map (\<lambda>v. attach_source (snr_node_id r) (attach_snapshot_generated_at g v)) entries | None \<Rightarrow> [])"

definition mission_activity :: "pub_env \<Rightarrow> nat option \<Rightarrow> gdb \<Rightarrow> json" where
  "mission_activity P limit d =
    (let entries = (\<lambda>k key. JArr (take (limit_or 200 limit) (dedupe_values_by_key key {}
           (sort_values_desc_by_timestamp_with_fallback P [''updated_at'', ''created_at'', ''snapshot_generated_at'']
             (concat (map (task_activity_entries k) (list_visible_snapshots d)))))))
     in json_obj [(''generated_at'', JStr (pe_now_text P)), (''tasks'', entries ''tasks'' task_activity_task_identity_key),
          (''runs'', entries ''runs'' (task_activity_run_identity_key P))])"

end
