(* ===== verification/Gw_Public_Facts.thy ===== *)
theory Gw_Public_Facts
  imports Gw_Public
begin

text \<open>
  What the public lists promise: each thing once, the newest version first, nothing unverified on the board, members counted
  once, a network named only when all agree, and one hop of federation.
\<close>

section \<open>Removing duplicates\<close>

lemma dedupe_subset: "set (dedupe_values_by_key key seen vs) \<subseteq> set vs"
  by (induction key seen vs rule: dedupe_values_by_key.induct) (auto split: option.splits if_splits)

lemma dedupe_keys:
  "distinct (List.map_filter key (dedupe_values_by_key key seen vs)) \<and> set (List.map_filter key (dedupe_values_by_key key seen vs)) \<inter> seen = {}"
  by (induction key seen vs rule: dedupe_values_by_key.induct) (auto simp: map_filter_simps split: option.splits if_splits)

lemma dedupe_sorted: "sorted (map f vs) \<Longrightarrow> sorted (map f (dedupe_values_by_key key seen vs))"
proof (induction key seen vs rule: dedupe_values_by_key.induct)
  case (2 key seen v vs)
  have "\<forall>w\<in>set (dedupe_values_by_key key s' vs). f v \<le> f w" for s' using 2(4) dedupe_subset [of key s' vs] by auto
  then show ?case using 2 by (auto split: option.splits)
qed simp

lemma dedupe_first:
  fixes f :: "json \<Rightarrow> int"
  assumes "sorted (map f vs)" and "v \<in> set vs" and "key v = Some k" and "k \<notin> seen"
  shows "\<exists>w\<in>set (dedupe_values_by_key key seen vs). key w = Some k \<and> f w \<le> f v"
  using assms
proof (induction vs arbitrary: seen)
  case (Cons u us)
  show ?case
  proof (cases "key u = Some k")
    case True
    then show ?thesis using Cons.prems by auto
  next
    case False
    then have "v \<in> set us" "sorted (map f us)" using Cons.prems by auto
    then have "\<exists>w\<in>set (dedupe_values_by_key key seen' us). key w = Some k \<and> f w \<le> f v" if "k \<notin> seen'" for seen'
      using Cons.IH [of seen'] Cons.prems(3) that by blast
    then show ?thesis using Cons.prems(4) False by (cases "key u") auto
  qed
qed simp

lemma take_keeps_least:
  fixes f :: "'a \<Rightarrow> int"
  assumes "sorted (map f vs)" and "w \<in> set vs"
  shows "w \<in> set (take n vs) \<or> length (take n vs) = n \<and> (\<forall>u\<in>set (take n vs). f u \<le> f w)"
proof (cases "w \<in> set (take n vs)")
  case False
  then have d: "w \<in> set (drop n vs)" using assms(2) set_append [of "take n vs" "drop n vs"] by simp
  then have "n < length vs" by (cases "n < length vs") simp_all
  moreover have "f u \<le> f w" if "u \<in> set (take n vs)" for u
    using sorted_append [of "map f (take n vs)" "map f (drop n vs)"] assms(1) that d by (simp flip: map_append)
  ultimately show ?thesis by simp
qed simp

text \<open>The lists of the API: selected, sorted with the newest first, without duplicates and cut.\<close>

definition newest_first :: "(json \<Rightarrow> int) \<Rightarrow> (json \<Rightarrow> string option) \<Rightarrow> nat \<Rightarrow> json list \<Rightarrow> json list \<Rightarrow> bool" where
  "newest_first time key n offered served \<longleftrightarrow>
     length served \<le> n \<and> distinct (List.map_filter key served) \<and> sorted (map (\<lambda>v. - time v) served)
     \<and> (\<forall>v\<in>set offered. \<forall>k. key v = Some k \<longrightarrow>
          (\<exists>w\<in>set served. key w = Some k \<and> time v \<le> time w) \<or> length served = n \<and> (\<forall>w\<in>set served. time v \<le> time w))"

lemma newest_first_list: "newest_first time key n offered (take n (dedupe_values_by_key key {} (sort_key (\<lambda>v. - time v) offered)))"
proof -
  let ?s = "sort_key (\<lambda>v. - time v) offered" and ?d = "dedupe_values_by_key key {} (sort_key (\<lambda>v. - time v) offered)"
  have sorted: "sorted (map (\<lambda>v. - time v) ?d)" by (rule dedupe_sorted) simp
  have "distinct (List.map_filter key (take n ?d))"
  proof -
    have "List.map_filter key ?d = List.map_filter key (take n ?d) @ List.map_filter key (drop n ?d)"
      by (simp add: map_filter_def flip: map_append filter_append)
    then show ?thesis using dedupe_keys [of key "{}" ?s] by simp
  qed
  moreover have "(\<exists>w\<in>set (take n ?d). key w = Some k \<and> time v \<le> time w) \<or> length (take n ?d) = n \<and> (\<forall>w\<in>set (take n ?d). time v \<le> time w)"
    if "v \<in> set offered" "key v = Some k" for v k
  proof -
    have "\<exists>w\<in>set ?d. key w = Some k \<and> - time w \<le> - time v" using that by (intro dedupe_first [where f = "\<lambda>v. - time v"]) simp_all
    then obtain w where w: "w \<in> set ?d" "key w = Some k" "- time w \<le> - time v" by blast
    show ?thesis using take_keeps_least [OF sorted w(1), of n] w(2,3) by force
  qed
  moreover have "sorted (map (\<lambda>v. - time v) (take n ?d))" using sorted_wrt_take [OF sorted, of n] by (simp only: take_map)
  moreover have "length (take n ?d) \<le> n" by simp
  ultimately show ?thesis unfolding newest_first_def by blast
qed

lemma newest_first_map:
  assumes "\<And>v. time (f v) = time v" and "\<And>v. key (f v) = key v"
  shows "newest_first time key n offered (map f served) = newest_first time key n offered served"
  using assms by (simp add: newest_first_def map_filter_def filter_map comp_def)

section \<open>Hives and the board\<close>

lemma topic_key_cong: "(\<And>k. k \<in> set ks \<Longrightarrow> jget k v = jget k w) \<Longrightarrow> topic_key_from_value ks v = topic_key_from_value ks w"
  by (induction ks) (simp_all add: get_str_def split: option.split)

lemma first_field_cong: "(\<And>k. k \<in> set ks \<Longrightarrow> jget k v = jget k w) \<Longrightarrow> first_field ks v = first_field ks w"
  by (induction ks) (simp_all split: option.split)

lemma first_timestamp_cong: "(\<And>k. k \<in> set ks \<Longrightarrow> jget k v = jget k w) \<Longrightarrow> first_timestamp P ks v = first_timestamp P ks w"
  by (induction ks) (simp_all split: option.split)

lemma jget_or_insert: "k' \<noteq> k \<Longrightarrow> jget k' (JObj (or_insert k v o')) = jget k' (JObj o')"
  by (simp add: or_insert_def jget_obj_insert split: option.split)

lemma jget_hive: "k \<notin> {''member_count'', ''hive_id''} \<Longrightarrow> jget k (attach_hive_member_count c (normalize_hive_value v)) = jget k v"
  by (auto simp: attach_hive_member_count_def normalize_hive_value_def jget_obj_insert jget_or_insert split: json.split option.split)

lemma hive_time: "topic_sort_timestamp P (attach_hive_member_count c (normalize_hive_value v)) = topic_sort_timestamp P v"
  unfolding topic_sort_timestamp_def by (rule first_timestamp_cong) (rule jget_hive, auto)

lemma hive_key: "topic_identity_key (attach_hive_member_count c (normalize_hive_value v)) = topic_identity_key v"
proof -
  let ?f = "attach_hive_member_count c (normalize_hive_value v)"
  have "topic_key_from_value [''topic_id'', ''id''] ?f = topic_key_from_value [''topic_id'', ''id''] v" by (rule topic_key_cong) (rule jget_hive, auto)
  moreover have "first_field [''network_id'', ''networkId''] ?f = first_field [''network_id'', ''networkId''] v"
    by (rule first_field_cong) (rule jget_hive, auto)
  ultimately show ?thesis unfolding topic_identity_key_def network_scoped_topic_key_def by (simp only:)
qed

text \<open>C38. The list of hives shows each hive once, in its newest version. Of the hives known here or offered by federated gateways
  that match the query, no two served have the same network and id; the served ones are in order of time, the newest first; and
  for each that was offered, a version at least as new is served, unless the list is full of newer ones.\<close>

theorem hives_newest_first:
  "newest_first (topic_sort_timestamp P) topic_identity_key (limit_or 200 (tq_limit q))
     (filter (\<lambda>v. matches_hive_filters v q) (hive_values X C P q d)) (public_hives X C P q d)"
  unfolding public_hives_def sort_values_desc_by_timestamp_def
  by (subst newest_first_map) (simp_all only: hive_time hive_key newest_first_list)

text \<open>C8. Nothing unverified is served on the board. Whatever rows the database holds and whatever federated gateways answer, a
  row served that claims to announce an event carries an announcement signed by a pinned authority, and no other row places
  an event in a space; at most 500 rows are served, each message once and the newest first.\<close>

theorem board_served_trusted:
  assumes "pinned A pins"
  shows "(\<forall>v\<in>set (public_board X pins C P q d). board_ok X A v \<and> matches_board_filters P v q) \<and> length (public_board X pins C P q d) \<le> 500
    \<and> newest_first (timestamp_with_fallback P [''created_at'', ''sequence'', ''snapshot_generated_at'']) board_message_identity_key (board_limit q)
        (filter (\<lambda>v. matches_board_filters P v q) (trusted_board_messages X pins (board_values X C P q d))) (public_board X pins C P q d)"
proof -
  let ?time = "timestamp_with_fallback P [''created_at'', ''sequence'', ''snapshot_generated_at'']"
  let ?offered = "filter (\<lambda>v. matches_board_filters P v q) (trusted_board_messages X pins (board_values X C P q d))"
  note board = public_board_def [of X pins C P q d, unfolded sort_values_desc_by_timestamp_with_fallback_def]
  have "v \<in> set ?offered" if "v \<in> set (public_board X pins C P q d)" for v
  proof -
    have "v \<in> set (dedupe_values_by_key board_message_identity_key {} (sort_key (\<lambda>v. - ?time v) ?offered))"
      using that unfolding board by (elim in_set_takeD)
    from subsetD [OF dedupe_subset this] show ?thesis by simp
  qed
  then have "\<forall>v\<in>set (public_board X pins C P q d). board_ok X A v \<and> matches_board_filters P v q" using trusted_board_messages_ok [OF assms] by auto
  moreover have "newest_first ?time board_message_identity_key (board_limit q) ?offered (public_board X pins C P q d)"
    unfolding board by (rule newest_first_list)
  moreover have "length (public_board X pins C P q d) \<le> 500" by (simp add: board board_limit_def)
  ultimately show ?thesis by blast
qed

section \<open>Members\<close>

text \<open>The reference: of the subscriptions of one subscriber to one hive, the last among those with the latest time.\<close>

definition subs_of :: "string \<Rightarrow> (string \<times> string \<times> bool \<times> int) list \<Rightarrow> (string \<times> bool \<times> int) list" where
  "subs_of k subs = map snd (filter (\<lambda>s. fst s = k) subs)"

definition current_sub :: "(string \<times> bool \<times> int) list \<Rightarrow> string \<times> bool \<times> int" where
  "current_sub vs = last (filter (\<lambda>(_, _, t). t = Max ((\<lambda>(_, _, t). t) ` set vs)) vs)"

lemma current_sub_in:
  assumes "vs \<noteq> []"
  shows "current_sub vs \<in> set vs" and "snd (snd (current_sub vs)) = Max ((\<lambda>(_, _, t). t) ` set vs)"
proof -
  let ?time = "\<lambda>(_ :: string, _ :: bool, t :: int). t"
  let ?m = "Max (?time ` set vs)"
  have "?m \<in> ?time ` set vs" using assms by (intro Max_in) auto
  then have "filter (\<lambda>(_, _, t). t = ?m) vs \<noteq> []" by (auto simp: filter_empty_conv)
  from last_in_set [OF this] show "current_sub vs \<in> set vs" "snd (snd (current_sub vs)) = ?m" by (auto simp: current_sub_def)
qed

lemma current_sub_snoc: "vs \<noteq> [] \<Longrightarrow> current_sub (vs @ [(r, a, t)]) = (if snd (snd (current_sub vs)) \<le> t then (r, a, t) else current_sub vs)"
proof -
  assume vs: "vs \<noteq> []"
  let ?time = "\<lambda>(_ :: string, _ :: bool, t :: int). t"
  let ?m = "Max (?time ` set vs)"
  have max: "Max (?time ` set (vs @ [(r, a, t)])) = max t ?m" using vs by (simp add: image_Un Max_insert)
  have new: "current_sub (vs @ [(r, a, t)]) = last (filter (\<lambda>(_, _, t'). t' = max t ?m) (vs @ [(r, a, t)]))"
    by (simp only: current_sub_def max)
  show ?thesis
  proof (cases "?m \<le> t")
    case True
    then show ?thesis using current_sub_in(2) [OF vs] unfolding new by (simp add: max_absorb1)
  next
    case False
    then have "max t ?m = ?m" "t \<noteq> ?m" by simp_all
    then show ?thesis using current_sub_in(2) [OF vs] False unfolding new by (simp add: current_sub_def)
  qed
qed

lemma keep_latest_distinct: "distinct (map fst l) \<Longrightarrow> distinct (map fst (keep_latest s l))"
  by (auto simp: keep_latest_def distinct_update split: prod.split)

lemma keep_latest_other: "fst s \<noteq> k \<Longrightarrow> map_of (keep_latest s l) k = map_of l k"
  by (auto simp: keep_latest_def update_conv' split: prod.split)

lemma subs_of_snoc: "subs_of k (subs @ [(k', v)]) = (if k' = k then subs_of k subs @ [v] else subs_of k subs)"
  by (simp add: subs_of_def)

lemma latest_current:
  "distinct (map fst (fold keep_latest subs []))
   \<and> map_of (fold keep_latest subs []) k = (if subs_of k subs = [] then None else Some (current_sub (subs_of k subs)))"
proof (induction subs rule: rev_induct)
  case (snoc s subs)
  obtain k' r a t where s: "s = (k', r, a, t)" by (cases s)
  let ?l = "fold keep_latest subs []"
  have one: "map_of ?l k' = (if subs_of k' subs = [] then None else Some (current_sub (subs_of k' subs)))"
    if "k' = k" using snoc.IH that by simp
  have "distinct (map fst (keep_latest s ?l))" using snoc.IH by (intro keep_latest_distinct) simp
  moreover have "map_of (keep_latest s ?l) k = (if subs_of k (subs @ [s]) = [] then None else Some (current_sub (subs_of k (subs @ [s]))))"
  proof (cases "k' = k")
    case True
    then show ?thesis using one [OF True] current_sub_snoc [of "subs_of k subs" r a t]
      by (auto simp: keep_latest_def s subs_of_snoc update_conv' current_sub_def[of "[(r, a, t)]"] split: prod.split)
  qed (use snoc.IH in \<open>simp add: keep_latest_other s subs_of_snoc\<close>)
  ultimately show ?case by simp
qed (simp add: subs_of_def)

lemma count_distinct_keys:
  assumes "distinct (map fst al)"
  shows "length (filter (\<lambda>e. Q (snd e)) al) = card {k. \<exists>v. map_of al k = Some v \<and> Q v}"
proof -
  have "distinct (map fst (filter (\<lambda>e. Q (snd e)) al))" using assms by (rule distinct_map_filter)
  then have "length (filter (\<lambda>e. Q (snd e)) al) = card (fst ` set (filter (\<lambda>e. Q (snd e)) al))" by (metis distinct_card image_set length_map)
  moreover have "fst ` set (filter (\<lambda>e. Q (snd e)) al) = {k. \<exists>v. map_of al k = Some v \<and> Q v}"
    using assms by (force simp: map_of_eq_Some_iff)
  ultimately show ?thesis by simp
qed


section \<open>The merged status\<close>

lemma jget_fold_insert:
  "distinct (map fst es) \<Longrightarrow> jget k (JObj (fold (\<lambda>(k, v). obj_insert k v) es o')) = (case map_of es k of Some v \<Rightarrow> Some v | None \<Rightarrow> jget k (JObj o'))"
proof (induction es arbitrary: o')
  case (Cons e es)
  obtain k' v where e: "e = (k', v)" by (cases e)
  show ?case
  proof (cases "k' = k")
    case True
    then have "map_of es k = None" using Cons.prems e by (simp add: map_of_eq_None_iff)
    then show ?thesis using Cons True e by (simp add: jget_obj_insert)
  next
    case False
    then show ?thesis using Cons e by (simp add: jget_obj_insert split: option.split)
  qed
qed simp

lemma remdups_adj_single: "remdups_adj (sort xs) = [v] \<longleftrightarrow> set xs = {v}"
proof
  assume "set xs = {v}"
  then have "replicate (length (sort xs)) v = sort xs" "length (sort xs) \<noteq> 0" using replicate_length_same [of "sort xs" v] by auto
  then show "remdups_adj (sort xs) = [v]" by (metis remdups_adj_replicate)
next
  assume "remdups_adj (sort xs) = [v]"
  then have "set (remdups_adj (sort xs)) = {v}" by simp
  then show "set xs = {v}" by simp
qed

lemma shared_text_iff: "shared_text vs = JStr n \<longleftrightarrow> {t. \<exists>v\<in>set vs. trimmed v = Some t} = {n}"
proof -
  let ?xs = "List.map_filter trimmed vs"
  have set: "set ?xs = {t. \<exists>v\<in>set vs. trimmed v = Some t}" by (force simp: map_filter_def)
  have "shared_text vs = JStr n \<longleftrightarrow> remdups_adj (sort ?xs) = [n]" by (auto simp: shared_text_def split: list.splits)
  then show ?thesis by (simp add: remdups_adj_single set)
qed

lemma uint_sum_words: "uint (sum_list (map (\<lambda>v. word_of_int (f v) :: u64) vs)) = sum_list (map f vs) mod 2 ^ 64"
  by (induction vs) (simp_all add: uint_word_ariths take_bit_eq_mod uint_word_of_int mod_simps)

definition named :: "string \<Rightarrow> json list \<Rightarrow> string set" where
  "named k statuses = {t. \<exists>v\<in>set statuses. trimmed (get_str k v) = Some t}"

definition counted :: "string \<Rightarrow> json list \<Rightarrow> int" where
  "counted k statuses = sum_list (map (\<lambda>v. case Option.bind (jget k v) as_u64 of Some n \<Rightarrow> n | None \<Rightarrow> 0) statuses)"

lemma status_count_counted: "status_count statuses k = JInt (counted k statuses mod 2 ^ 64)"
proof -
  have "(case x of None \<Rightarrow> 0 :: u64 | Some n \<Rightarrow> word_of_int n) = word_of_int (case x of None \<Rightarrow> 0 | Some n \<Rightarrow> n)" for x :: "int option"
    by (cases x) simp_all
  then show ?thesis by (simp only: status_count_def counted_def uint_sum_words)
qed

text \<open>A federated status names a network only when all who name one agree, and its counts add up. For every object that is the
  local status and any answers of other gateways, the merged status gives a network id, name or organisation exactly when the
  values named by the gateways, white space aside, are one and the same; each count is the sum of the counts, modulo 2 to
  the 64; and the number of gateways asked is that of the answers.\<close>

theorem merged_status_agreed:
  assumes "k \<in> {''network_id'', ''network_name'', ''network_org_name''}" and "c \<in> set status_count_keys"
  shows "(jget k (merge_network_status_values P (JObj o') remotes) = Some (JStr n) \<longleftrightarrow> named k (JObj o' # remotes) = {n})
    \<and> jget c (merge_network_status_values P (JObj o') remotes) = Some (JInt (counted c (JObj o' # remotes) mod 2 ^ 64))
    \<and> jget ''federated_gateways'' (merge_network_status_values P (JObj o') remotes) = Some (JInt (int (length remotes)))"
proof -
  let ?all = "JObj o' # remotes"
  let ?es = "map (\<lambda>k. (k, status_count ?all k)) status_count_keys @ map (\<lambda>k. (k, single_shared_status_string ?all k)) [''network_id'', ''network_name'', ''network_org_name'']
    @ [(''federated_gateways'', JInt (int (length remotes))), (''updated_at'', JStr (pe_now_text P))]"
  have d: "distinct (map fst ?es)" by (simp add: status_count_keys_def)
  have get: "jget k' (merge_network_status_values P (JObj o') remotes) = Some v" if "(k', v) \<in> set ?es" for k' v
    unfolding merge_network_status_values_def Let_def json.case jget_fold_insert [OF d] map_of_is_SomeI [OF d that] option.case by (rule refl)
  have "(k, single_shared_status_string ?all k) \<in> set (map (\<lambda>k. (k, single_shared_status_string ?all k)) [''network_id'', ''network_name'', ''network_org_name''])"
    using assms(1) by auto
  then have shared: "jget k (merge_network_status_values P (JObj o') remotes) = Some (single_shared_status_string ?all k)" by (intro get) (simp only: set_append Un_iff simp_thms)
  have "(c, status_count ?all c) \<in> set (map (\<lambda>k. (k, status_count ?all k)) status_count_keys)" using assms(2) by simp
  then have count: "jget c (merge_network_status_values P (JObj o') remotes) = Some (status_count ?all c)" by (intro get) (simp only: set_append Un_iff simp_thms)
  have gateways: "jget ''federated_gateways'' (merge_network_status_values P (JObj o') remotes) = Some (JInt (int (length remotes)))"
    by (rule get) (simp only: set_append Un_iff list.set insert_iff simp_thms)
  have agreed: "(jget k (merge_network_status_values P (JObj o') remotes) = Some (JStr n)) = (named k ?all = {n})"
    unfolding shared option.inject single_shared_status_string_def shared_text_iff named_def by (simp only: set_map bex_simps)
  show ?thesis using agreed count [unfolded status_count_counted] gateways by (intro conjI)
qed

section \<open>One hop\<close>

lemma keep_new_urls_ok:
  "distinct (keep_new_urls own seen us) \<and> set (keep_new_urls own seen us) \<inter> seen = {}
   \<and> (\<forall>u\<in>set (keep_new_urls own seen us). u \<noteq> [] \<and> own \<noteq> Some u \<and> (\<exists>u'\<in>set us. u = normalize_gateway_base_url u'))"
proof (induction us arbitrary: seen)
  case (Cons u us)
  let ?n = "normalize_gateway_base_url u"
  show ?case
  proof (cases "?n \<noteq> [] \<and> own \<noteq> Some ?n \<and> ?n \<notin> seen")
    case True
    then have new: "keep_new_urls own seen (u # us) = ?n # keep_new_urls own (insert ?n seen) us" by (simp add: Let_def)
    show ?thesis unfolding new using Cons.IH [of "insert ?n seen"] True by auto
  next
    case False
    then have "keep_new_urls own seen (u # us) = keep_new_urls own seen us" by (simp only: keep_new_urls.simps Let_def if_False)
    then show ?thesis using Cons.IH [of seen] by auto
  qed
qed simp

lemma federated_urls_shape:
  "\<exists>urls. federated_gateway_base_urls P endpoint d = keep_new_urls (map_option (\<lambda>i. normalize_gateway_base_url (gid_base_url i)) (pe_identity P)) {} urls
    \<and> (\<forall>i. pe_identity P = Some i \<and> \<not> allows_registry_federation i \<longrightarrow> urls = gid_federation_peers i)"
proof (cases "\<exists>i. pe_identity P = Some i \<and> \<not> allows_registry_federation i")
  case True
  then obtain i where "pe_identity P = Some i" "\<not> allows_registry_federation i" by blast
  then show ?thesis
    by (intro exI [of _ "gid_federation_peers i"]) (simp add: federated_gateway_base_urls_def dedupe_and_filter_gateway_base_urls_def)
next
  case False
  then have no: "(case pe_identity P of Some i \<Rightarrow> \<not> allows_registry_federation i | None \<Rightarrow> False) = False" by (auto split: option.split)
  show ?thesis
    unfolding federated_gateway_base_urls_def Let_def no if_False dedupe_and_filter_gateway_base_urls_def
    by (intro exI conjI) (rule refl, use False in blast)
qed

lemma federated_query: "federated_gateway_url P base endpoint params = Some (url, query) \<Longrightarrow> ''federation'' \<notin> fst ` set params \<Longrightarrow> map_of query ''federation'' = Some ''local''"
proof -
  assume url: "federated_gateway_url P base endpoint params = Some (url, query)" and new: "''federation'' \<notin> fst ` set params"
  have query: "query = filter (\<lambda>(_, v). \<not> blank v) params @ [(''federation'', ''local'')]"
    using url by (simp add: federated_gateway_url_def Let_def split: if_splits)
  have "fst ` set (filter (\<lambda>(_, v). \<not> blank v) params) \<subseteq> fst ` set params" by (rule image_mono) simp
  then have "map_of (filter (\<lambda>(_, v). \<not> blank v) params) ''federation'' = None" using new unfolding map_of_eq_None_iff by blast
  then show ?thesis unfolding query map_of_append by (simp add: map_add_def)
qed

text \<open>C40. A federated query goes one hop and no further. Each address is asked once, never the gateway's own; every request says
  \<open>federation=local\<close>, with which the gateway that answers asks nobody else; and a gateway set to trust only its configured
  peers asks no other.\<close>

theorem federation_one_hop:
  assumes "''federation'' \<notin> fst ` set params" and "base \<in> set (federated_gateway_base_urls P endpoint d)"
    and "federated_gateway_url P base endpoint params = Some (url, query)"
  shows "map_of query ''federation'' = Some ''local'' \<and> \<not> federation_enabled (map_of query ''federation'')
    \<and> distinct (federated_gateway_base_urls P endpoint d)
    \<and> (\<forall>i. pe_identity P = Some i \<longrightarrow> base \<noteq> normalize_gateway_base_url (gid_base_url i)
        \<and> (\<not> allows_registry_federation i \<longrightarrow> base \<in> normalize_gateway_base_url ` set (gid_federation_peers i)))"
proof -
  let ?own = "map_option (\<lambda>i. normalize_gateway_base_url (gid_base_url i)) (pe_identity P)"
  obtain urls where all: "federated_gateway_base_urls P endpoint d = keep_new_urls ?own {} urls"
    and peers: "\<And>i. pe_identity P = Some i \<Longrightarrow> \<not> allows_registry_federation i \<Longrightarrow> urls = gid_federation_peers i"
    using federated_urls_shape [of P endpoint d] by blast
  note ok = keep_new_urls_ok [of ?own "{}" urls, folded all]
  have base: "?own \<noteq> Some base" "\<exists>u\<in>set urls. base = normalize_gateway_base_url u" using ok assms(2) by blast+
  have "base \<noteq> normalize_gateway_base_url (gid_base_url i) \<and> (\<not> allows_registry_federation i \<longrightarrow> base \<in> normalize_gateway_base_url ` set (gid_federation_peers i))"
    if "pe_identity P = Some i" for i using base peers [OF that] that by auto
  moreover have "\<not> federation_enabled (Some ''local'')" by code_simp
  ultimately show ?thesis unfolding federated_query [OF assms(3,1)] using ok by blast
qed

section \<open>Witnesses\<close>

definition sample_identity :: gateway_identity where
  "sample_identity = \<lparr>gid_gateway_id = ''g'', gid_display_name = ''gateway'', gid_base_url = ''https://g'', gid_region = None, gid_operator_did = None,
     gid_roles = [''query''], gid_supported_endpoints = [''*''], gid_federation_mode = Trusted, gid_federation_peers = [''https://g/'', ''https://h/'', '' https://h''],
     gid_allows_public_ingest = False, gid_signing_key = []\<rparr>"

definition sample_pub :: pub_env where
  "sample_pub = \<lparr>pe_identity = Some sample_identity, pe_bootstrap = [], pe_fetch_gateways = (\<lambda>_. Inl ''unreachable''), pe_url_ok = (\<lambda>_. True),
     pe_get = (\<lambda>_ _. Inr (JArr [json_obj [(''message_id'', JStr ''m''), (''world_event'', JStr ''forged''), (''created_at'', JInt 7)],
       json_obj [(''message_id'', JStr ''a''), (''global_kind'', JStr ''EventAnnouncement''), (''created_at'', JInt 9)]])),
     pe_parse_time = (\<lambda>_. None), pe_json_text = (\<lambda>_. Inr ''json''), pe_now_text = ''now'', pe_runtime = None\<rparr>"

definition sample_board_query :: board_query where
  "sample_board_query = \<lparr>bq_limit = None, bq_network_id = None, bq_source = None, bq_category = None, bq_search = None, bq_service_name = None,
     bq_author_id = None, bq_federation = None\<rparr>"

text \<open>A federated gateway answers with a row that places an event in a space and with a forged announcement: the first is
  served without the event, the second is not served.\<close>

theorem board_served_trusted_witness:
  "public_board sample_gx (Inr []) (\<lambda>s. s) sample_pub sample_board_query empty_gdb = [json_obj [(''message_id'', JStr ''m''), (''created_at'', JInt 7)]]
    \<and> board_ok sample_gx {[]} (json_obj [(''message_id'', JStr ''m''), (''created_at'', JInt 7)])"
proof -
  let ?m = "json_obj [(''message_id'', JStr ''m''), (''created_at'', JInt 7)]"
  have board: "public_board sample_gx (Inr []) (\<lambda>s. s) sample_pub sample_board_query empty_gdb = [?m]" by code_simp
  have "pinned {[]} (Inr [])" by (simp add: pinned_def)
  from board_served_trusted [OF this, of sample_gx "\<lambda>s. s" sample_pub sample_board_query empty_gdb, THEN conjunct1]
  have "\<forall>v\<in>set [?m]. board_ok sample_gx {[]} v" unfolding board by blast
  then have "board_ok sample_gx {[]} ?m" by (simp only: list.set insert_iff simp_thms ball_simps)
  with board show ?thesis by (rule conjI)
qed

theorem merged_status_agreed_witness:
  "jget ''network_id'' (merge_network_status_values sample_pub (JObj [(''network_id'', JStr ''a''), (''nodes'', JInt 2)])
      [JObj [(''network_id'', JStr '' a''), (''nodes'', JInt 3)], JObj []]) = Some (JStr ''a'')
    \<and> jget ''nodes'' (merge_network_status_values sample_pub (JObj [(''network_id'', JStr ''a''), (''nodes'', JInt 2)])
      [JObj [(''network_id'', JStr '' a''), (''nodes'', JInt 3)], JObj []]) = Some (JInt 5)"
proof -
  let ?l = "[(''network_id'', JStr ''a''), (''nodes'', JInt 2)]" and ?r = "[JObj [(''network_id'', JStr '' a''), (''nodes'', JInt 3)], JObj []]"
  have k: "''network_id'' \<in> {''network_id'', ''network_name'', ''network_org_name''}" "''nodes'' \<in> set status_count_keys" by (simp_all add: status_count_keys_def)
  have "list_all (\<lambda>v. trimmed (get_str ''network_id'' v) \<in> {None, Some ''a''}) (JObj ?l # ?r)" "trimmed (get_str ''network_id'' (JObj ?l)) = Some ''a''" by code_simp+
  then have "named ''network_id'' (JObj ?l # ?r) = {''a''}" by (auto simp: named_def list_all_iff)
  moreover have "counted ''nodes'' (JObj ?l # ?r) mod 2 ^ 64 = 5" by code_simp
  ultimately show ?thesis using merged_status_agreed [OF k, of sample_pub ?l ?r "''a''"] by metis
qed

theorem federation_one_hop_witness:
  "federated_gateway_base_urls sample_pub ''/api/peers'' empty_gdb = [''https://h'']
    \<and> federated_gateway_url sample_pub ''https://h'' ''/api/peers'' [(''limit'', ''5'')] = Some (''https://h/api/peers'', [(''limit'', ''5''), (''federation'', ''local'')])
    \<and> \<not> federation_enabled (map_of [(''limit'', ''5''), (''federation'', ''local'')] ''federation'')
    \<and> ''https://h'' \<noteq> normalize_gateway_base_url (gid_base_url sample_identity)"
proof -
  have urls: "federated_gateway_base_urls sample_pub ''/api/peers'' empty_gdb = [''https://h'']" by code_simp
  have url: "federated_gateway_url sample_pub ''https://h'' ''/api/peers'' [(''limit'', ''5'')] = Some (''https://h/api/peers'', [(''limit'', ''5''), (''federation'', ''local'')])"
    by code_simp
  have "''federation'' \<notin> fst ` set [(''limit'', ''5'')]" "''https://h'' \<in> set (federated_gateway_base_urls sample_pub ''/api/peers'' empty_gdb)" by (simp_all add: urls)
  from federation_one_hop [OF this url] have hop: "\<not> federation_enabled (map_of [(''limit'', ''5''), (''federation'', ''local'')] ''federation'')"
    "\<And>i. pe_identity sample_pub = Some i \<Longrightarrow> ''https://h'' \<noteq> normalize_gateway_base_url (gid_base_url i)" by blast+
  have "pe_identity sample_pub = Some sample_identity" by (simp add: sample_pub_def)
  from urls url hop(1) hop(2) [OF this] show ?thesis by (intro conjI)
qed

end
