(* ===== verification/Spec2Isabelle.thy ===== *)
theory Spec2Isabelle
  imports Commit_Token Observability Owners Dead_Letters Fanout Controls Cluster Object_Api Work_Limiter Gw_Replicas Gw_Reannounce Gw_Promises Gw_Public_Facts
begin

text \<open>
  A verification library for the Watt gateway. The repository holds three crates:

  \<^item> \<open>src/crates/message-gateway\<close> relays signed Wattswarm records. Tenants are admitted by grants, open
    sessions by signing a challenge, and publish records to a mailbox, a shared scope or the whole network.
    PostgreSQL holds the control plane (grants, memberships, sessions, receipts, leases, token buckets,
    gaps); RabbitMQ holds the mailboxes. A page of a mailbox is pulled by the one instance that holds the
    lease of the mailbox and is committed with a token that names page, lease and instance.
  \<^item> \<open>src/crates/gateway\<close> is the public read side: it ingests signed node snapshots and events, replicates
    them to other gateways over gossip and serves them to user interfaces.
  \<^item> \<open>src/crates/gateway-p2p\<close> drives the libp2p swarm for it.

  \<^bold>\<open>Conventions\<close> (\<open>Prelude\<close>, \<open>Tables\<close>, \<open>Wire_Types\<close>, \<open>Gateway_State\<close>). A fallible function returns
  \<open>'a result\<close> with the error text of the source. Unsigned 64-bit numbers are words and keep their
  saturating and checked arithmetic; durations are milliseconds, instants are PostgreSQL microseconds. A
  table is the list of its rows with a key function; \<open>upsert\<close> is \<open>ON CONFLICT .. DO\<close> with the clause as a
  function, and the locale \<open>keyed_upsert\<close> proves the laws of such a clause once for every table. Code of
  other repositories (signatures, hashes, codecs, route construction) is the record \<open>externs\<close>, an argument
  of the definitions that call it. RabbitMQ is the parameter \<open>en_broker\<close>: the model records the commands
  sent to it (\<open>gw_log\<close>) and acts on the replies. A handler is a function from the instance's state to a
  result and a state, composed with \<open>bnd\<close> as the source composes calls with \<open>?\<close>; a transaction that is not
  committed leaves the database as it was.

  \<^bold>\<open>The message gateway.\<close>

  \<^item> \<open>Config\<close> (\<open>config.rs\<close>): \<open>from_env\<close> and \<open>validate\<close>; what a valid configuration guarantees of the queue
    and rate budgets, and that the defaults alone are rejected.
  \<^item> \<open>Schema\<close>, \<open>Store\<close>, \<open>Owners\<close> (\<open>db.rs\<close>): the tables and the statements on them; version order of
    memberships, admission limits, mutation windows, durable flags, exclusive leases and their handover.
  \<^item> \<open>Float64\<close>, \<open>Rate_Buckets\<close> (\<open>db.rs\<close>): the token buckets over IEEE double rounding; the cost admitted
    over any run is bounded by burst plus rate times time.
  \<^item> \<open>Auth\<close> (\<open>auth.rs\<close>), \<open>Commit_Token\<close> (\<open>commit_token.rs\<close>), \<open>Gaps\<close> (\<open>gaps.rs\<close>), \<open>Observability\<close>
    (\<open>observability.rs\<close>): sessions stand for their prover and challenges are used once; tokens round-trip
    and bind their claims; recorded losses are conserved, listed and acknowledged exactly; latency
    snapshots are ordered and bounded.
  \<^item> \<open>Rabbit\<close>, \<open>Sample_Broker\<close>, \<open>Delivery_Pages\<close>, \<open>Dead_Letters\<close> (\<open>rabbit.rs\<close>): names, topology, publishes
    with confirms, pages, commits and the drain of dead letters; a page stays unacknowledged until its
    commit, which acknowledges exactly its messages; no fetched or dead message is lost silently.
  \<^item> \<open>Membership\<close>, \<open>Routing\<close> (\<open>service.rs\<close>): grants, snapshot quorums and membership mutations; a mutation
    refines an update of the abstract view of a scope, and routing follows the new members.
  \<^item> \<open>Publish\<close>, \<open>Publish_Safety\<close>, \<open>Publish_Receipts\<close>, \<open>Fanout\<close>, \<open>Controls\<close> (\<open>service.rs\<close>): frame
    validation, authorization, receipts, rollback, fan-out and control messages.
  \<^item> \<open>Http_Api\<close>, \<open>Mailbox_Api\<close>, \<open>Cluster\<close>, \<open>Object_Api\<close> (\<open>http.rs\<close>): the handlers, the life of a page from
    pull to commit, commits forwarded between instances, and objects served under their digest.

  \<^bold>\<open>The gateway.\<close> Its tables are the record \<open>gdb\<close>; a statement or transaction is a \<open>gop\<close>, a function to a
  result and the database it leaves. \<open>gw_externs\<close> holds the codecs, signatures and clocks of other crates,
  \<open>gw_env\<close> what a process is configured with, \<open>gw_state\<close> its database, stream hub and artifacts.

  \<^item> \<open>Json\<close>, \<open>Ascii\<close>: JSON values with the accessors of \<open>serde_json\<close>, and the ASCII functions of \<open>str\<close>.
  \<^item> \<open>Catalog\<close> (\<open>contracts.rs\<close>): the catalogue of data kinds; every row agrees with its kind.
  \<^item> \<open>Gw_Models\<close>, \<open>Gw_Verify\<close> (\<open>models.rs\<close>, \<open>verify.rs\<close>, \<open>source_policy.rs\<close>): signed snapshots, events,
    presences, announcements and manifests, and the checks of their signatures and signers.
  \<^item> \<open>Gw_Store\<close> (\<open>db.rs\<close>), \<open>Gw_Samples\<close>, \<open>Gw_Replicas\<close>: the statements on the tables; two gateways that ingest
    the same snapshots in any order store the same one, the newest.
  \<^item> \<open>Gw_Stream\<close> (\<open>state.rs\<close>, \<open>streaming.rs\<close>): the hub that publishes events and the WebSocket session of a
    client; what is sent is allowed, asked for, ordered and not repeated; a resumed stream is complete within
    the replay limit and loses events beyond it.
  \<^item> \<open>Gw_Space\<close>, \<open>Gw_Project\<close> (\<open>space.rs\<close>, \<open>read_models.rs\<close>, \<open>collectors.rs\<close>): presences and events of spaces,
    and the projection rows that snapshots and pulled answers give.
  \<^item> \<open>Gw_Ingest\<close>, \<open>Gw_Handlers\<close> (\<open>http.rs\<close>, \<open>streaming.rs\<close>, \<open>lib.rs\<close>): snapshots and events from the request to
    the tables, the hub and the artifacts; registration and sync of nodes, and the list of nodes.
  \<^item> \<open>Gw_Outbox\<close>, \<open>Gw_Reannounce\<close>, \<open>Gw_Gossip\<close>, \<open>Work_Limiter\<close> (\<open>gateway_sync.rs\<close>): the outbox loses no
    message below its retry limit; a full pass announces every snapshot and ends; gossip messages are
    classified, validated, fetched and ingested; the permits and wake-ups of fetches are an interleaving of
    steps whose limits hold in every reachable state and in which no wake-up is lost.
  \<^item> \<open>Gw_Registry\<close> (\<open>gateway_identity.rs\<close>, \<open>registry_client.rs\<close>, \<open>http.rs\<close>): a gateway's own manifest, the
    registry, its review and discovery; only an administrator changes what is listed as approved, but an
    approved entry can be taken over.
  \<^item> \<open>Gw_Trust\<close>, \<open>Gw_Promises\<close>: the relation \<open>gw_run\<close> of all calls that change the database and the invariant that
    whatever is stored was signed by whom it names; and what it does not cover: gossip ignores pinned signers,
    a replayed snapshot hides the newer one, ephemeral notices are not checked.
  \<^item> \<open>Gw_Public\<close>, \<open>Gw_Public_Facts\<close> (\<open>public_api.rs\<close>): the public endpoints with their filters, order and
    federation; lists show each entry once and newest first, served notices are trusted, members are counted
    once, merged statuses agree, and federated queries go one hop.

  \<^bold>\<open>Bounds and termination.\<close> Every definition is total: loops over messages, rows and sources recurse over
  the list the broker or the table yields, \<open>drain_loop\<close> over the messages of the dead-letter queue, the
  stream over the events its channel delivers. No definition has fuel, and the interleaving models are about
  reachable states of any length of run. Numbers of the public API that the code keeps in \<open>u64\<close> or \<open>i64\<close> are
  bounded where the code converts them.

  \<^bold>\<open>Not modelled.\<close> Process start, task spawning, timers, TLS and HTTP routing are calls into tokio, axum,
  rustls and sqlx. \<open>gateway-p2p\<close> only drives libp2p: its calls are parameters of the gossip theories. The
  HTTP clients (\<open>node_client.rs\<close>, the requests of \<open>registry_client.rs\<close>) are parameters that answer. Of the
  gateway, the configuration (\<open>config.rs\<close>), the schema text, the select loop and the queues of
  \<open>gateway_sync.rs\<close>, and the read-only \<open>gateway_runtime_status\<close>, \<open>route_for\<close>, \<open>self_manifest\<close> and
  \<open>list_bootstrap_registries\<close> are left out; of the message gateway, the snapshots of runtime metrics that read
  tables for an operator. SQL is modelled statement by statement under the isolation its transaction gives;
  concurrent transactions of one instance are serial in the model.
\<close>

end
